(* ===== verification/Go_Prelude.thy ===== *)
theory Go_Prelude
  imports Main "HOL-Library.Word" "HOL-Library.Signed_Division" "HOL-Library.Multiset"
begin

text \<open>
  Shared vocabulary of the development.  Go programs return a value, return an error, panic or do
  not return; the outcomes are kept apart in the result type @\<open>go\<close>.  Error values are terms that record
  which sentinel of the repository was raised and which wrappers of the (third-party) package
  hive.go/ierrors were put around it: nothing is assumed about the text that package prints.
  The theory further holds Go's integers (a @\<open>uintN\<close> is an N bit word, an @\<open>int64\<close> is an integer
  reduced by @\<open>i64\<close>), the loops that stop at the first error, and the contract of the checked
  arithmetic of hive.go/safemath as a locale.
\<close>

type_synonym byte = "8 word"
type_synonym bytes = "8 word list"
type_synonym u8 = "8 word"
type_synonym u16 = "16 word"
type_synonym u32 = "32 word"
type_synonym u64 = "64 word"

named_theorems go_simps "rules that take a successful run of a monadic program apart"
named_theorems unat_simps "how words read as natural numbers"

section \<open>Errors and results\<close>

text \<open>@\<open>Sentinel s\<close> is an exported error variable of the repository, @\<open>Errorf s\<close> an error built
  by @\<open>ierrors.New\<close> or @\<open>ierrors.Errorf\<close> from the format @\<open>s\<close>, @\<open>Wrap e s\<close> one built by
  @\<open>ierrors.Wrap\<close> or @\<open>ierrors.WithMessage\<close>, @\<open>Join e e'\<close> one built by @\<open>ierrors.Join\<close> or
  @\<open>ierrors.Chain\<close>, and @\<open>Foreign n\<close> an error of a third-party call.\<close>

datatype go_error =
    Sentinel string
  | Errorf string
  | Wrap go_error string
  | Join go_error go_error
  | Foreign nat

text \<open>@\<open>ierrors.Is err target\<close> for a sentinel: the sentinel occurs in the tree of the error.\<close>

primrec isErr :: "go_error \<Rightarrow> string \<Rightarrow> bool" where
  "isErr (Sentinel s) t = (s = t)"
| "isErr (Errorf s) t = False"
| "isErr (Wrap e s) t = isErr e t"
| "isErr (Join e e') t = (isErr e t \<or> isErr e' t)"
| "isErr (Foreign n) t = False"

datatype fault = Err go_error | Panic string | NoReturn

type_synonym 'a go = "fault + 'a"

definition andthen :: "'a go \<Rightarrow> ('a \<Rightarrow> 'b go) \<Rightarrow> 'b go" where
  "andthen m f = (case m of Inl e \<Rightarrow> Inl e | Inr x \<Rightarrow> f x)"

definition wrapE :: "string \<Rightarrow> 'a go \<Rightarrow> 'a go" where
  "wrapE msg m = (case m of Inl (Err e) \<Rightarrow> Inl (Err (Wrap e msg)) | Inl f \<Rightarrow> Inl f | Inr x \<Rightarrow> Inr x)"

definition joinE :: "go_error \<Rightarrow> 'a go \<Rightarrow> 'a go" where
  "joinE s m = (case m of Inl (Err e) \<Rightarrow> Inl (Err (Join s e)) | Inl f \<Rightarrow> Inl f | Inr x \<Rightarrow> Inr x)"

text \<open>A call that reports an error of its own and keeps the one it got only as text of the message.\<close>

definition replaceE :: "go_error \<Rightarrow> 'a go \<Rightarrow> 'a go" where
  "replaceE s m = (case m of Inl (Err e) \<Rightarrow> Inl (Err s) | Inl f \<Rightarrow> Inl f | Inr x \<Rightarrow> Inr x)"

definition mustE :: "'a go \<Rightarrow> 'a go" where
  "mustE m = (case m of Inl (Err e) \<Rightarrow> Inl (Panic ''must'') | Inl f \<Rightarrow> Inl f | Inr x \<Rightarrow> Inr x)"

definition throw :: "go_error \<Rightarrow> 'a go" where
  "throw e = Inl (Err e)"

definition liftE :: "go_error + 'a \<Rightarrow> 'a go" where
  "liftE m = (case m of Inl e \<Rightarrow> Inl (Err e) | Inr x \<Rightarrow> Inr x)"

definition ok :: "'a go \<Rightarrow> bool" where
  "ok m = (case m of Inl _ \<Rightarrow> False | Inr _ \<Rightarrow> True)"

text \<open>The call crashes or does not return.\<close>

definition is_panic :: "'a go \<Rightarrow> bool" where
  "is_panic m = (case m of Inl (Panic _) \<Rightarrow> True | Inl NoReturn \<Rightarrow> True | _ \<Rightarrow> False)"

lemma andthen_Inr [simp]: "andthen (Inr x) f = f x"
  by (simp add: andthen_def)

lemma andthen_Inl [simp]: "andthen (Inl e) f = Inl e"
  by (simp add: andthen_def)

lemma andthen_throw [simp]: "andthen (throw e) f = Inl (Err e)"
  by (simp add: throw_def)

lemma andthen_eq_Inr [go_simps]: "andthen m f = Inr y \<longleftrightarrow> (\<exists>x. m = Inr x \<and> f x = Inr y)"
  by (cases m) auto

lemma andthen_eq_Inl: "andthen m f = Inl e \<longleftrightarrow> m = Inl e \<or> (\<exists>x. m = Inr x \<and> f x = Inl e)"
  by (cases m) auto

lemma andthen_assoc: "andthen (andthen m f) g = andthen m (\<lambda>x. andthen (f x) g)"
  by (cases m) auto

lemma andthen_right_Inr [simp]: "andthen m Inr = m"
  by (cases m) auto

lemma andthen_cong [fundef_cong]:
  "m = m' \<Longrightarrow> (\<And>x. m' = Inr x \<Longrightarrow> f x = g x) \<Longrightarrow> andthen m f = andthen m' g"
  by (cases m') auto

lemma wrapE_simps [simp]:
  "wrapE s (Inr x) = Inr x" "wrapE s (Inl (Err e)) = Inl (Err (Wrap e s))"
  "wrapE s (Inl (Panic p)) = Inl (Panic p)" "wrapE s (Inl NoReturn) = Inl NoReturn"
  by (simp_all add: wrapE_def)

lemma wrapE_eq_Inr [simp, go_simps]: "wrapE s m = Inr x \<longleftrightarrow> m = Inr x"
  by (cases m) (auto simp: wrapE_def split: fault.splits)

lemma joinE_simps [simp]:
  "joinE s (Inr x) = Inr x" "joinE s (Inl (Err e)) = Inl (Err (Join s e))"
  "joinE s (Inl (Panic p)) = Inl (Panic p)" "joinE s (Inl NoReturn) = Inl NoReturn"
  by (simp_all add: joinE_def)

lemma joinE_eq_Inr [simp, go_simps]: "joinE s m = Inr x \<longleftrightarrow> m = Inr x"
  by (cases m) (auto simp: joinE_def split: fault.splits)

lemma replaceE_eq_Inr [simp, go_simps]: "replaceE s m = Inr x \<longleftrightarrow> m = Inr x"
  by (cases m) (auto simp: replaceE_def split: fault.splits)

lemma replaceE_Inr [simp]: "replaceE s (Inr x) = Inr x"
  by simp

lemma mustE_simps [simp]: "mustE (Inr x) = Inr x" "mustE (Inl (Err e)) = Inl (Panic ''must'')"
  "mustE (Inl (Panic p)) = Inl (Panic p)" "mustE (Inl NoReturn) = Inl NoReturn"
  by (simp_all add: mustE_def)

lemma mustE_eq_Inr [simp, go_simps]: "mustE m = Inr x \<longleftrightarrow> m = Inr x"
  by (cases m) (auto simp: mustE_def split: fault.splits)

lemma throw_neq_Inr [simp, go_simps]: "throw e \<noteq> Inr x" "Inr x \<noteq> throw e"
  by (simp_all add: throw_def)

lemma liftE_simps [simp]: "liftE (Inr x) = Inr x" "liftE (Inl e) = Inl (Err e)"
  by (simp_all add: liftE_def)

lemma liftE_eq_Inr [simp, go_simps]: "liftE m = Inr x \<longleftrightarrow> m = Inr x"
  by (cases m) auto

lemma ok_iff: "ok m \<longleftrightarrow> (\<exists>x. m = Inr x)"
  by (cases m) (auto simp: ok_def)

lemma ok_simps [simp]: "ok (Inr x)" "\<not> ok (Inl e)" "\<not> ok (throw d)"
  by (simp_all add: ok_def throw_def)

lemma ok_andthen: "ok (andthen m f) \<longleftrightarrow> (\<exists>x. m = Inr x \<and> ok (f x))"
  by (cases m) auto

lemma is_panic_simps [simp]:
  "\<not> is_panic (Inr x)" "\<not> is_panic (Inl (Err e))" "\<not> is_panic (throw e)" "is_panic (Inl (Panic s))"
  "is_panic (Inl NoReturn)"
  by (simp_all add: is_panic_def throw_def)

lemma is_panic_wraps [simp]: "is_panic (wrapE s m) = is_panic m" "is_panic (joinE d m) = is_panic m"
  "\<not> is_panic (liftE l)"
  by (auto simp: is_panic_def wrapE_def joinE_def liftE_def split: sum.splits fault.splits)

lemma not_panic_andthen:
  "\<not> is_panic m \<Longrightarrow> (\<And>x. m = Inr x \<Longrightarrow> \<not> is_panic (f x)) \<Longrightarrow> \<not> is_panic (andthen m f)"
  by (cases m) (auto simp: is_panic_def)

lemma if_throw_eq_Inr [go_simps]: "(if c then throw e else m) = Inr x \<longleftrightarrow> \<not> c \<and> m = Inr x"
  "(if c then m else throw e) = Inr x \<longleftrightarrow> c \<and> m = Inr x"
  by auto

section \<open>Loops that stop at the first error\<close>

primrec foldG :: "('s \<Rightarrow> 'x \<Rightarrow> 's go) \<Rightarrow> 's \<Rightarrow> 'x list \<Rightarrow> 's go" where
  "foldG f s [] = Inr s"
| "foldG f s (x # xs) = andthen (f s x) (\<lambda>s'. foldG f s' xs)"

primrec allG :: "('x \<Rightarrow> unit go) \<Rightarrow> 'x list \<Rightarrow> unit go" where
  "allG f [] = Inr ()"
| "allG f (x # xs) = andthen (f x) (\<lambda>_. allG f xs)"

primrec mapG :: "('x \<Rightarrow> 'y go) \<Rightarrow> 'x list \<Rightarrow> 'y list go" where
  "mapG f [] = Inr []"
| "mapG f (x # xs) = andthen (f x) (\<lambda>y. andthen (mapG f xs) (\<lambda>ys. Inr (y # ys)))"

lemma foldG_append: "foldG f s (xs @ ys) = andthen (foldG f s xs) (\<lambda>s'. foldG f s' ys)"
  by (induction xs arbitrary: s) (simp_all add: andthen_assoc)

lemma foldG_invariant:
  assumes "foldG f s xs = Inr s'" "P s"
    and "\<And>s x s'. x \<in> set xs \<Longrightarrow> P s \<Longrightarrow> f s x = Inr s' \<Longrightarrow> P s'"
  shows "P s'"
  using assms by (induction xs arbitrary: s) (auto simp: andthen_eq_Inr)

lemma foldG_prefix_invariant:
  assumes run: "foldG f s xs = Inr s'" and init: "P [] s"
    and step: "\<And>ys x s s'. P ys s \<Longrightarrow> x \<in> set xs \<Longrightarrow> f s x = Inr s' \<Longrightarrow> P (ys @ [x]) s'"
  shows "P xs s'"
proof -
  have "foldG f s ys = Inr s' \<Longrightarrow> P zs s \<Longrightarrow> set ys \<subseteq> set xs \<Longrightarrow> P (zs @ ys) s'" for ys zs s
  proof (induction ys arbitrary: zs s)
    case Nil
    then show ?case by simp
  next
    case (Cons y ys)
    then obtain t where "f s y = Inr t" "foldG f t ys = Inr s'" by (auto simp: andthen_eq_Inr)
    with Cons step [of zs s y t] Cons.IH [of t "zs @ [y]"] show ?case by simp
  qed
  from this [of s xs "[]"] run init show ?thesis by simp
qed

lemma allG_iff [go_simps]: "allG f xs = Inr () \<longleftrightarrow> (\<forall>x \<in> set xs. f x = Inr ())"
  by (induction xs) (auto simp: andthen_eq_Inr)

lemma allG_not_panic: "(\<And>x. x \<in> set xs \<Longrightarrow> \<not> is_panic (f x)) \<Longrightarrow> \<not> is_panic (allG f xs)"
  by (induction xs) (simp_all add: not_panic_andthen)

lemma mapG_iff: "mapG f xs = Inr ys \<longleftrightarrow> list_all2 (\<lambda>x y. f x = Inr y) xs ys"
  by (induction xs arbitrary: ys) (auto simp: andthen_eq_Inr list_all2_Cons1)

lemma foldG_cong [fundef_cong]:
  "s = t \<Longrightarrow> xs = ys \<Longrightarrow> (\<And>s x. x \<in> set ys \<Longrightarrow> f s x = g s x) \<Longrightarrow> foldG f s xs = foldG g t ys"
  by (induction ys arbitrary: s t xs) (auto intro!: andthen_cong)

section \<open>Slices\<close>

text \<open>Reading a slice by index panics outside of its bounds.\<close>

definition nthG :: "'a list \<Rightarrow> nat \<Rightarrow> 'a go" where
  "nthG xs i = (if i < length xs then Inr (xs ! i) else Inl (Panic ''index out of range''))"

lemma nthG_eq_Inr [go_simps]: "nthG xs i = Inr x \<longleftrightarrow> i < length xs \<and> xs ! i = x"
  by (simp add: nthG_def)

lemma nthG_in [simp]: "i < length xs \<Longrightarrow> nthG xs i = Inr (xs ! i)"
  by (simp add: nthG_def)

section \<open>Integers\<close>

text \<open>Arithmetic on @\<open>int64\<close> wraps around.\<close>

definition i64 :: "int \<Rightarrow> int" where
  "i64 x = signed_take_bit 63 x"

lemma i64_id [simp]: "- (2 ^ 63) \<le> x \<Longrightarrow> x < 2 ^ 63 \<Longrightarrow> i64 x = x"
  by (simp add: i64_def signed_take_bit_int_eq_self)

lemma i64_range: "- (2 ^ 63) \<le> i64 x" "i64 x < 2 ^ 63"
  using signed_take_bit_int_greater_eq_minus_exp [of 63 x] signed_take_bit_int_less_exp [of 63 x]
  by (simp_all add: i64_def)

lemma unat_add_small: "unat a + unat b < 2 ^ LENGTH('w) \<Longrightarrow> unat (a + b :: 'w::len word) = unat a + unat b"
  by (metis unat_add_lem)

lemma unat_mult_small: "unat a * unat b < 2 ^ LENGTH('w) \<Longrightarrow> unat (a * b :: 'w::len word) = unat a * unat b"
  by (metis unat_mult_lem)

lemma unat_sub_small: "b \<le> a \<Longrightarrow> unat (a - b :: 'w::len word) = unat a - unat b"
  by (simp add: unat_sub)

lemma word_of_nat_diff: "b \<le> a \<Longrightarrow> word_of_nat (unat a - unat b) = (a - b :: 'w::len word)"
  by (subst unat_sub_small [symmetric]) simp_all

lemma unat_less_pow [simp]: "unat (a :: 'w::len word) < 2 ^ LENGTH('w)"
  by (rule unsigned_less)

lemma unat_drop_bit [unat_simps]: "unat (drop_bit n (a :: 'w::len word)) = unat a div 2 ^ n"
  by (simp only: unat_drop_bit_eq drop_bit_eq_div [where 'a = nat])

lemma unat_take_bit_mod: "unat (take_bit n (a :: 'w::len word)) = unat a mod 2 ^ n"
  by (simp only: unsigned_take_bit_eq take_bit_eq_mod [where 'a = nat])

lemma unat_ucast_up:
  assumes "LENGTH('v) \<le> LENGTH('w)"
  shows "unat (ucast (a :: 'v::len word) :: 'w::len word) = unat a"
proof -
  have "unat a < 2 ^ LENGTH('w)"
    using unat_less_pow [of a] power_increasing [OF assms, of "2 :: nat"] by linarith
  then show ?thesis by (simp add: unsigned_ucast_eq take_bit_nat_eq_self)
qed

lemma unat_ucast_ups [simp]:
  "unat (ucast (a :: u8) :: u32) = unat a" "unat (ucast (a :: u8) :: u64) = unat a"
  "unat (ucast (b :: u16) :: u32) = unat b" "unat (ucast (b :: u16) :: u64) = unat b"
  "unat (ucast (c :: u32) :: u64) = unat c"
  by (rule unat_ucast_up, simp)+

lemma unat_push_bit_small:
  "unat (a :: 'w::len word) * 2 ^ n < 2 ^ LENGTH('w) \<Longrightarrow> unat (push_bit n a) = unat a * 2 ^ n"
  by (simp only: unsigned_push_bit_eq push_bit_eq_mult [where 'a = nat] take_bit_nat_eq_self)

lemma word_eq_iff_unat: "(a :: 'w::len word) = b \<longleftrightarrow> unat a = unat b"
  by (simp add: word_unat_eq_iff)

lemma sdiv_nonneg: "0 \<le> a \<Longrightarrow> 0 < b \<Longrightarrow> a sdiv b = a div (b :: int)"
  by (simp add: signed_divide_int_def sgn_if)

lemma div_le_self_int: "0 \<le> a \<Longrightarrow> 0 < b \<Longrightarrow> a div b \<le> (a :: int)"
  using zdiv_mono2 [of a 1 b] by simp

lemma div_nat_eq_iff: "0 < b \<Longrightarrow> a div b = (k :: nat) \<longleftrightarrow> k * b \<le> a \<and> a < (k + 1) * b"
  using less_eq_div_iff_mult_less_eq [of b k a] div_less_iff_less_mult [of b a "k + 1"] by auto

lemma unat_image_atLeastAtMost: "unat ` {a..b :: 'w::len word} = {unat a..unat b}"
proof
  show "{unat a..unat b} \<subseteq> unat ` {a..b}"
  proof
    fix n assume n: "n \<in> {unat a..unat b}"
    then have "unat (word_of_nat n :: 'w word) = n"
      using order_le_less_trans [OF _ unat_less_pow [of b], of n] by (simp add: unat_of_nat)
    with n show "n \<in> unat ` {a..b}"
      by (intro image_eqI [of _ _ "word_of_nat n"]) (simp_all add: word_le_nat_alt)
  qed
qed (auto simp: word_le_nat_alt)

lemma card_word_interval: "card {a..b :: 'w::len word} = unat b + 1 - unat a"
proof -
  have "inj_on unat {a..b}" by (simp add: inj_on_def word_eq_iff_unat)
  then have "card {a..b} = card (unat ` {a..b})" by (simp add: card_image)
  then show ?thesis by (simp add: unat_image_atLeastAtMost)
qed

text \<open>A loop that adds a number for every element, stopping at an element without one and at the first
  overflow, succeeds exactly when every element has a number and the true sum fits.\<close>

lemma foldG_sum:
  assumes "\<And>(s :: 'w::len word) x t. f s x = Inr t \<longleftrightarrow> (\<exists>n. v x = Some n \<and> unat t = unat s + n)"
  shows "foldG f s xs = Inr t \<longleftrightarrow>
    (\<forall>x \<in> set xs. v x \<noteq> None) \<and> unat t = unat s + (\<Sum>x\<leftarrow>xs. the (v x))"
proof (induction xs arbitrary: s)
  case Nil
  show ?case by (auto simp: word_eq_iff_unat)
next
  case (Cons x xs)
  show ?case
  proof
    assume "foldG f s (x # xs) = Inr t"
    then obtain u where "f s x = Inr u" "foldG f u xs = Inr t" by (auto simp: andthen_eq_Inr)
    with Cons show "(\<forall>x \<in> set (x # xs). v x \<noteq> None) \<and> unat t = unat s + (\<Sum>x\<leftarrow>x # xs. the (v x))"
      by (auto simp: assms)
  next
    assume *: "(\<forall>x \<in> set (x # xs). v x \<noteq> None) \<and> unat t = unat s + (\<Sum>x\<leftarrow>x # xs. the (v x))"
    then obtain n where n: "v x = Some n" by auto
    have "unat s + n < 2 ^ LENGTH('w)" using * n unat_less_pow [of t] by simp
    then have u: "unat (word_of_nat (unat s + n) :: 'w word) = unat s + n"
      by (simp only: unat_of_nat take_bit_nat_eq_self mod_less)
    then have "f s x = Inr (word_of_nat (unat s + n))" by (simp add: assms n)
    with * n u Cons [of "word_of_nat (unat s + n)"] show "foldG f s (x # xs) = Inr t" by simp
  qed
qed

section \<open>The checked arithmetic of hive.go/safemath\<close>

text \<open>The repository calls @\<open>SafeAdd\<close>, @\<open>SafeSub\<close> and @\<open>SafeMul\<close> of a third-party package.  The
  locale states their documented contract: the exact result, or an error when it does not fit.\<close>

locale checked_arith =
  fixes add :: "'w::len word \<Rightarrow> 'w word \<Rightarrow> go_error + 'w word"
    and sub :: "'w word \<Rightarrow> 'w word \<Rightarrow> go_error + 'w word"
    and mul :: "'w word \<Rightarrow> 'w word \<Rightarrow> go_error + 'w word"
  assumes add_law: "case add a b of Inr c \<Rightarrow> unat c = unat a + unat b
      | Inl _ \<Rightarrow> 2 ^ LENGTH('w) \<le> unat a + unat b"
    and sub_law: "case sub a b of Inr c \<Rightarrow> unat b \<le> unat a \<and> unat c = unat a - unat b
      | Inl _ \<Rightarrow> unat a < unat b"
    and mul_law: "case mul a b of Inr c \<Rightarrow> unat c = unat a * unat b
      | Inl _ \<Rightarrow> 2 ^ LENGTH('w) \<le> unat a * unat b"
begin

lemma add_Inr_iff: "add a b = Inr c \<longleftrightarrow> unat c = unat a + unat b"
proof
  show "add a b = Inr c \<Longrightarrow> unat c = unat a + unat b"
    using add_law [of a b] by simp
next
  assume *: "unat c = unat a + unat b"
  then have "unat a + unat b < 2 ^ LENGTH('w)" by (metis unsigned_less)
  with add_law [of a b] obtain d where "add a b = Inr d" "unat d = unat a + unat b"
    by (cases "add a b") auto
  with * show "add a b = Inr c" by (metis word_eq_iff_unat)
qed

lemma sub_Inr_iff: "sub a b = Inr c \<longleftrightarrow> unat a = unat b + unat c"
proof
  show "sub a b = Inr c \<Longrightarrow> unat a = unat b + unat c"
    using sub_law [of a b] by simp
next
  assume *: "unat a = unat b + unat c"
  with sub_law [of a b] obtain d where "sub a b = Inr d" "unat d = unat a - unat b"
    by (cases "sub a b") auto
  with * show "sub a b = Inr c" by (simp add: word_eq_iff_unat)
qed

lemma mul_Inr_iff: "mul a b = Inr c \<longleftrightarrow> unat c = unat a * unat b"
proof
  show "mul a b = Inr c \<Longrightarrow> unat c = unat a * unat b"
    using mul_law [of a b] by simp
next
  assume *: "unat c = unat a * unat b"
  then have "unat a * unat b < 2 ^ LENGTH('w)" by (metis unsigned_less)
  with mul_law [of a b] obtain d where "mul a b = Inr d" "unat d = unat a * unat b"
    by (cases "mul a b") auto
  with * show "mul a b = Inr c" by (metis word_eq_iff_unat)
qed

lemma add_Inl_iff: "(\<exists>e. add a b = Inl e) \<longleftrightarrow> 2 ^ LENGTH('w) \<le> unat a + unat b"
  using add_law [of a b] unat_less_pow [of "projr (add a b)"] by (cases "add a b") auto

text \<open>The sum a loop of checked additions computes.\<close>

lemma fold_add_Inr_iff:
  "foldG (\<lambda>s x. liftE (add s x)) s xs = Inr t \<longleftrightarrow> unat t = unat s + (\<Sum>x\<leftarrow>xs. unat x)"
  using foldG_sum [of "\<lambda>s x. liftE (add s x)" "\<lambda>x. Some (unat x)" s xs t] by (simp add: add_Inr_iff)

end

text \<open>A reference implementation that meets the contract, used where a closed instance of the
  third-party package is needed.\<close>

definition ref_add :: "'w::len word \<Rightarrow> 'w word \<Rightarrow> go_error + 'w word" where
  "ref_add a b = (if unat a + unat b < 2 ^ LENGTH('w) then Inr (a + b) else Inl (Foreign 0))"

definition ref_sub :: "'w::len word \<Rightarrow> 'w word \<Rightarrow> go_error + 'w word" where
  "ref_sub a b = (if unat b \<le> unat a then Inr (a - b) else Inl (Foreign 0))"

definition ref_mul :: "'w::len word \<Rightarrow> 'w word \<Rightarrow> go_error + 'w word" where
  "ref_mul a b = (if unat a * unat b < 2 ^ LENGTH('w) then Inr (a * b) else Inl (Foreign 0))"

interpretation refa: checked_arith ref_add ref_sub ref_mul
  by unfold_locales
    (auto simp: ref_add_def ref_sub_def ref_mul_def unat_add_small unat_mult_small unat_sub word_le_nat_alt)

text \<open>What the repository takes from the packages outside of it that its arithmetic and hashing
  code calls: safemath at 64 and 32 bits and @\<open>blake2b.Sum256\<close>.\<close>

record deps =
  SafeAdd64 :: "u64 \<Rightarrow> u64 \<Rightarrow> go_error + u64"
  SafeSub64 :: "u64 \<Rightarrow> u64 \<Rightarrow> go_error + u64"
  SafeMul64 :: "u64 \<Rightarrow> u64 \<Rightarrow> go_error + u64"
  SafeAdd32 :: "u32 \<Rightarrow> u32 \<Rightarrow> go_error + u32"
  SafeSub32 :: "u32 \<Rightarrow> u32 \<Rightarrow> go_error + u32"
  SafeMul32 :: "u32 \<Rightarrow> u32 \<Rightarrow> go_error + u32"
  sum256 :: "bytes \<Rightarrow> bytes"

abbreviation safemath64 :: "'a deps_scheme \<Rightarrow> bool" where
  "safemath64 D \<equiv> checked_arith (SafeAdd64 D) (SafeSub64 D) (SafeMul64 D)"

abbreviation safemath32 :: "'a deps_scheme \<Rightarrow> bool" where
  "safemath32 D \<equiv> checked_arith (SafeAdd32 D) (SafeSub32 D) (SafeMul32 D)"

text \<open>A closed instance for evaluation: checked arithmetic and a digest that keeps the first 32
  bytes of the message, zero padded.\<close>

definition ref_sum256 :: "bytes \<Rightarrow> bytes" where
  "ref_sum256 b = take 32 (b @ replicate 32 0)"

definition ref_deps :: deps where
  "ref_deps = \<lparr>SafeAdd64 = ref_add, SafeSub64 = ref_sub, SafeMul64 = ref_mul, SafeAdd32 = ref_add,
     SafeSub32 = ref_sub, SafeMul32 = ref_mul, sum256 = ref_sum256\<rparr>"

lemma ref_deps_sel [simp]:
  "SafeAdd64 ref_deps = ref_add" "SafeSub64 ref_deps = ref_sub" "SafeMul64 ref_deps = ref_mul"
  "SafeAdd32 ref_deps = ref_add" "SafeSub32 ref_deps = ref_sub" "SafeMul32 ref_deps = ref_mul"
  "sum256 ref_deps = ref_sum256"
  by (simp_all add: ref_deps_def)

lemma ref_safemath [simp]: "safemath64 ref_deps" "safemath32 ref_deps"
  by (simp_all add: refa.checked_arith_axioms)

end
