(* ===== verification/Bech32.thy ===== *)
theory Bech32
  imports Go_Prelude
begin

unbundle bit_operations_syntax

text \<open>
  The text form of addresses: the package bech32 with its checksum, character set and case rules, and the
  conversion between bytes and base 32 digits in bech32/internal/base32.  A Go string is the list of its
  bytes.  The case mappings @\<open>strings.ToLower\<close> and @\<open>strings.ToUpper\<close> depend on the Unicode tables and are
  parameters; the theorems use what they do to US-ASCII strings.  The checksum is computed with 64 bit
  numbers that stay below @\<open>2 ^ 30\<close>.
\<close>

section \<open>Base 32\<close>

definition base32EncodedLen :: "nat \<Rightarrow> nat" where
  "base32EncodedLen n = (n * 8 + 4) div 5"

definition base32DecodedLen :: "nat \<Rightarrow> nat" where
  "base32DecodedLen n = n * 5 div 8"

text \<open>The cases of the switch fall through from a full quantum of five bytes down to its first byte.\<close>

definition quantum1 :: "u8 \<Rightarrow> u8 \<Rightarrow> u8 list" where
  "quantum1 carry s0 = [drop_bit 3 s0, carry OR push_bit 2 s0 AND 0x1F]"

definition quantum2 :: "u8 \<Rightarrow> u8 \<Rightarrow> u8 \<Rightarrow> u8 list" where
  "quantum2 carry s0 s1 =
     quantum1 (drop_bit 6 s1 AND 0x1F) s0 @ [drop_bit 1 s1 AND 0x1F, carry OR push_bit 4 s1 AND 0x1F]"

definition quantum3 :: "u8 \<Rightarrow> u8 \<Rightarrow> u8 \<Rightarrow> u8 \<Rightarrow> u8 list" where
  "quantum3 carry s0 s1 s2 = quantum2 (drop_bit 4 s2 AND 0x1F) s0 s1 @ [carry OR push_bit 1 s2 AND 0x1F]"

definition quantum4 :: "u8 \<Rightarrow> u8 \<Rightarrow> u8 \<Rightarrow> u8 \<Rightarrow> u8 \<Rightarrow> u8 list" where
  "quantum4 carry s0 s1 s2 s3 =
     quantum3 (drop_bit 7 s3) s0 s1 s2 @ [drop_bit 2 s3 AND 0x1F, carry OR push_bit 3 s3 AND 0x1F]"

definition quantum5 :: "u8 \<Rightarrow> u8 \<Rightarrow> u8 \<Rightarrow> u8 \<Rightarrow> u8 \<Rightarrow> u8 list" where
  "quantum5 s0 s1 s2 s3 s4 = quantum4 (drop_bit 5 s4) s0 s1 s2 s3 @ [s4 AND 0x1F]"

fun base32Encode :: "bytes \<Rightarrow> u8 list" where
  "base32Encode [] = []"
| "base32Encode [s0] = quantum1 0 s0"
| "base32Encode [s0, s1] = quantum2 0 s0 s1"
| "base32Encode [s0, s1, s2] = quantum3 0 s0 s1 s2"
| "base32Encode [s0, s1, s2, s3] = quantum4 0 s0 s1 s2 s3"
| "base32Encode (s0 # s1 # s2 # s3 # s4 # src) = quantum5 s0 s1 s2 s3 s4 @ base32Encode src"

text \<open>The other way the five bytes of a quantum are joined from its eight digits.\<close>

definition octet0 :: "u8 \<Rightarrow> u8 \<Rightarrow> u8" where
  "octet0 d0 d1 = (push_bit 3 d0 OR drop_bit 2 d1)"

definition octet1 :: "u8 \<Rightarrow> u8 \<Rightarrow> u8 \<Rightarrow> u8" where
  "octet1 d1 d2 d3 = (push_bit 6 d1 OR push_bit 1 d2 OR drop_bit 4 d3)"

definition octet2 :: "u8 \<Rightarrow> u8 \<Rightarrow> u8" where
  "octet2 d3 d4 = (push_bit 4 d3 OR drop_bit 1 d4)"

definition octet3 :: "u8 \<Rightarrow> u8 \<Rightarrow> u8 \<Rightarrow> u8" where
  "octet3 d4 d5 d6 = (push_bit 7 d4 OR push_bit 2 d5 OR drop_bit 3 d6)"

definition octet4 :: "u8 \<Rightarrow> u8 \<Rightarrow> u8" where
  "octet4 d6 d7 = (push_bit 5 d6 OR d7)"

text \<open>The error of a decoder: the cause and the offset.\<close>

type_synonym 'a decoding = "go_error \<times> nat + 'a"

definition padded :: "bool \<Rightarrow> nat \<Rightarrow> bytes \<Rightarrow> bytes decoding" where
  "padded nonZero offset out1 =
     (if nonZero then Inl (Sentinel ''ErrNonZeroPadding'', offset) else Inr out1)"

text \<open>Digits to bytes; @\<open>read\<close> counts the digits read.\<close>

fun base32Decode :: "nat \<Rightarrow> u8 list \<Rightarrow> bytes decoding" where
  "base32Decode read [] = Inr []"
| "base32Decode read [d0] = Inl (Sentinel ''ErrInvalidLength'', read)"
| "base32Decode read [d0, d1] =
     padded (d1 AND (push_bit 2 1 - 1) \<noteq> 0) (read + 1) [octet0 d0 d1]"
| "base32Decode read [d0, d1, d2] = Inl (Sentinel ''ErrInvalidLength'', read)"
| "base32Decode read [d0, d1, d2, d3] =
     padded (d3 AND (push_bit 4 1 - 1) \<noteq> 0) (read + 3)
       [octet0 d0 d1, octet1 d1 d2 d3]"
| "base32Decode read [d0, d1, d2, d3, d4] =
     padded (d4 AND (push_bit 1 1 - 1) \<noteq> 0) (read + 4)
       [octet0 d0 d1, octet1 d1 d2 d3,
        octet2 d3 d4]"
| "base32Decode read [d0, d1, d2, d3, d4, d5] = Inl (Sentinel ''ErrInvalidLength'', read)"
| "base32Decode read [d0, d1, d2, d3, d4, d5, d6] =
     padded (d6 AND (push_bit 3 1 - 1) \<noteq> 0) (read + 6)
       [octet0 d0 d1, octet1 d1 d2 d3,
        octet2 d3 d4, octet3 d4 d5 d6]"
| "base32Decode read (d0 # d1 # d2 # d3 # d4 # d5 # d6 # d7 # src) =
     (case base32Decode (read + 8) src of
        Inl e \<Rightarrow> Inl e
      | Inr dst \<Rightarrow> Inr ([octet0 d0 d1, octet1 d1 d2 d3,
          octet2 d3 d4, octet3 d4 d5 d6,
          octet4 d6 d7] @ dst))"

section \<open>Characters\<close>

definition charset :: bytes where
  "charset = map of_char ''qpzry9x8gf2tvdw0s3jn54khce6mua7l''"

text \<open>@\<open>newEncoding\<close>: the table from characters to digits.\<close>

definition decMap :: "bytes \<Rightarrow> u8 \<Rightarrow> u8" where
  "decMap enc = fold (\<lambda>i m. m(enc ! i := word_of_nat i)) [0..<length enc] (\<lambda>_. 0xFF)"

definition charsetEncode :: "u8 list \<Rightarrow> bytes go" where
  "charsetEncode src = mapG (\<lambda>d. nthG charset (unat d)) src"

text \<open>On an invalid character the digits decoded so far are returned with the error; the caller asks for
  their number.\<close>

fun charsetDecode :: "bytes \<Rightarrow> nat + u8 list" where
  "charsetDecode [] = Inr []"
| "charsetDecode (c # src) =
     (if decMap charset c = 0xFF then Inl 0
      else case charsetDecode src of Inl n \<Rightarrow> Inl (Suc n) | Inr dst \<Rightarrow> Inr (decMap charset c # dst))"

section \<open>Checksum\<close>

definition generator :: "u64 list" where
  "generator = [0x3b6a57b2, 0x26508e6d, 0x1ea119fa, 0x3d4233dd, 0x2a1462b3]"

definition polymodStep :: "u64 \<Rightarrow> u8 \<Rightarrow> u64" where
  "polymodStep chk v =
    (let b = drop_bit 25 chk;
         chk = push_bit 5 (chk AND 0x1ffffff) XOR ucast v
     in fold (\<lambda>i chk. if drop_bit i b AND 1 \<noteq> 0 then chk XOR generator ! i else chk) [0..<5] chk)"

definition bech32Polymod :: "u8 list \<Rightarrow> u64" where
  "bech32Polymod values = foldl polymodStep 1 values"

definition bech32HrpExpand :: "bytes \<Rightarrow> u8 list" where
  "bech32HrpExpand s = map (drop_bit 5) s @ [0] @ map (\<lambda>x. x AND 31) s"

definition bech32CreateChecksum :: "bytes \<Rightarrow> u8 list \<Rightarrow> u8 list" where
  "bech32CreateChecksum hrp blocks =
    (let polymod = bech32Polymod (bech32HrpExpand hrp @ blocks @ [0, 0, 0, 0, 0, 0]) XOR 1
     in map (\<lambda>i. ucast (drop_bit (5 * (5 - i)) polymod AND 31)) [0..<6])"

definition bech32VerifyChecksum :: "bytes \<Rightarrow> u8 list \<Rightarrow> bool" where
  "bech32VerifyChecksum hrp data = (bech32Polymod (bech32HrpExpand hrp @ data) = 1)"

section \<open>Case\<close>

record case_mapping =
  toLower :: "bytes \<Rightarrow> bytes"
  toUpper :: "bytes \<Rightarrow> bytes"

text \<open>How many bytes the first rune of a non-empty string has: an invalid encoding counts as one.\<close>

definition runeLen :: "bytes \<Rightarrow> nat" where
  "runeLen s =
    (let cont = (\<lambda>k lo hi. k < length s \<and> lo \<le> s ! k \<and> s ! k \<le> hi); b = s ! 0
     in if 0xC2 \<le> b \<and> b \<le> 0xDF \<and> cont 1 0x80 0xBF then 2
        else if 0xE0 \<le> b \<and> b \<le> 0xEF
          \<and> cont 1 (if b = 0xE0 then 0xA0 else 0x80) (if b = 0xED then 0x9F else 0xBF) \<and> cont 2 0x80 0xBF then 3
        else if 0xF0 \<le> b \<and> b \<le> 0xF4
          \<and> cont 1 (if b = 0xF0 then 0x90 else 0x80) (if b = 0xF4 then 0x8F else 0xBF)
          \<and> cont 2 0x80 0xBF \<and> cont 3 0x80 0xBF then 4
        else 1)"

lemma runeLen_pos: "0 < runeLen s"
  by (simp add: runeLen_def Let_def)

text \<open>The indices @\<open>range\<close> visits.\<close>

function runeStarts :: "nat \<Rightarrow> bytes \<Rightarrow> nat list" where
  "runeStarts i s = (if s = [] then [] else i # runeStarts (i + runeLen s) (drop (runeLen s) s))"
  by pat_completeness auto
termination
  by (relation "measure (\<lambda>(i, s). length s)") (auto simp: runeLen_pos)

declare runeStarts.simps [simp del]

text \<open>The first index where a string differs from its mapped form; @\<open>-1\<close> is None.\<close>

fun firstDifference :: "bytes \<Rightarrow> bytes \<Rightarrow> nat list \<Rightarrow> nat option go" where
  "firstDifference mapped s [] = Inr None"
| "firstDifference mapped s (i # is) =
     andthen (nthG mapped i) (\<lambda>c. if c \<noteq> s ! i then Inr (Some i) else firstDifference mapped s is)"

definition firstUpper :: "case_mapping \<Rightarrow> bytes \<Rightarrow> nat option go" where
  "firstUpper M s = firstDifference (toLower M s) s (runeStarts 0 s)"

definition firstLower :: "case_mapping \<Rightarrow> bytes \<Rightarrow> nat option go" where
  "firstLower M s = firstDifference (toUpper M s) s (runeStarts 0 s)"

text \<open>A @\<open>SyntaxError\<close> has a cause and an offset, kept here in decimal.\<close>

fun decimal :: "nat \<Rightarrow> string" where
  "decimal n = (if n < 10 then [] else decimal (n div 10)) @ [char_of (48 + n mod 10)]"

declare decimal.simps [simp del]

definition SyntaxError :: "go_error \<Rightarrow> nat \<Rightarrow> go_error" where
  "SyntaxError e offset = Wrap e (decimal offset)"

definition validateCase :: "case_mapping \<Rightarrow> bytes \<Rightarrow> unit go" where
  "validateCase M s =
    andthen (firstUpper M s) (\<lambda>upper.
    andthen (firstLower M s) (\<lambda>lower.
    case (upper, lower) of
      (Some u, Some l) \<Rightarrow>
        (if u < l then throw (SyntaxError (Sentinel ''ErrMixedCase'') l)
         else if l < u then throw (SyntaxError (Sentinel ''ErrMixedCase'') u)
         else Inr ())
    | _ \<Rightarrow> Inr ()))"

text \<open>A rune outside of US-ASCII starts with a byte of at least 128.\<close>

definition isValidHRPChar :: "u8 \<Rightarrow> bool" where
  "isValidHRPChar r \<longleftrightarrow> 33 \<le> r \<and> r \<le> 126"

section \<open>Encoding and decoding\<close>

definition separator :: u8 where
  "separator = 49"

definition bech32Encode :: "case_mapping \<Rightarrow> bytes \<Rightarrow> bytes \<Rightarrow> bytes go" where
  "bech32Encode M hrp src =
    (let dataLen = base32EncodedLen (length src)
     in if 90 < length hrp + dataLen + 6 + 1
        then throw (Wrap (Sentinel ''ErrInvalidLength'') ''hrp length=%d, data length=%d'')
        else if length hrp < 1
        then throw (Wrap (Sentinel ''ErrInvalidLength'') ''hrp must not be empty'')
        else if \<not> list_all isValidHRPChar hrp
        then throw (Wrap (Sentinel ''ErrInvalidCharacter'') ''non US-ASCII character in human-readable part'')
        else andthen (validateCase M hrp) (\<lambda>_.
          let hrpLower = toLower M hrp;
              data = base32Encode src;
              data = data @ bech32CreateChecksum hrpLower data
          in andthen (charsetEncode data) (\<lambda>chars.
             let res = hrp @ [separator] @ chars
             in if hrp = hrpLower then Inr res else Inr (toUpper M res))))"

text \<open>@\<open>strings.LastIndex\<close> for the separator.\<close>

fun lastIndex :: "u8 \<Rightarrow> bytes \<Rightarrow> nat option" where
  "lastIndex c [] = None"
| "lastIndex c (x # xs) =
     (case lastIndex c xs of Some i \<Rightarrow> Some (Suc i) | None \<Rightarrow> if x = c then Some 0 else None)"

fun firstInvalid :: "nat \<Rightarrow> bytes \<Rightarrow> nat option" where
  "firstInvalid i [] = None"
| "firstInvalid i (c # cs) = (if \<not> isValidHRPChar c then Some i else firstInvalid (Suc i) cs)"

definition decodeLower :: "bytes \<Rightarrow> nat \<Rightarrow> (bytes \<times> bytes) go" where
  "decodeLower s hrpLen =
    (let hrp = take hrpLen s; chars = drop (hrpLen + 1) s
     in if length s < hrpLen + 1 then Inl (Panic ''slice bounds out of range'')
        else case charsetDecode chars of
          Inl n \<Rightarrow> throw (SyntaxError (Wrap (Sentinel ''ErrInvalidCharacter'') ''non-charset character in data part'')
              (hrpLen + 1 + n))
        | Inr data \<Rightarrow>
            if length data < 6 \<or> \<not> bech32VerifyChecksum hrp data
            then throw (SyntaxError (Sentinel ''ErrInvalidChecksum'') (length s - 6))
            else case base32Decode 0 (take (length data - 6) data) of
                Inl (e, offset) \<Rightarrow> throw (SyntaxError e (hrpLen + 1 + offset))
              | Inr dst \<Rightarrow> Inr (hrp, dst))"

definition bech32Decode :: "case_mapping \<Rightarrow> bytes \<Rightarrow> (bytes \<times> bytes) go" where
  "bech32Decode M s =
    (if 90 < length s
     then throw (SyntaxError (Wrap (Sentinel ''ErrInvalidLength'') ''maximum length exceeded'') 90)
     else case lastIndex separator s of
       None \<Rightarrow> throw (Sentinel ''ErrMissingSeparator'')
     | Some hrpLen \<Rightarrow>
         if hrpLen < 1 \<or> length s < hrpLen + 6
         then throw (SyntaxError (Wrap (Sentinel ''ErrInvalidSeparator'') ''invalid position'') hrpLen)
         else case firstInvalid 0 (take hrpLen s) of
           Some i \<Rightarrow> throw (SyntaxError
               (Wrap (Sentinel ''ErrInvalidCharacter'') ''non US-ASCII character in human-readable part'') i)
         | None \<Rightarrow> andthen (validateCase M s) (\<lambda>_. decodeLower (toLower M s) hrpLen))"

section \<open>Digits and bytes\<close>

lemma low_bits: "(x :: u8) AND 0x1F = take_bit 5 x" "(x :: u8) AND (push_bit 2 1 - 1) = take_bit 2 x"
  "(x :: u8) AND (push_bit 4 1 - 1) = take_bit 4 x" "(x :: u8) AND (push_bit 1 1 - 1) = take_bit 1 x"
  "(x :: u8) AND (push_bit 3 1 - 1) = take_bit 3 x"
  by (simp_all add: take_bit_eq_mask mask_eq_exp_minus_1)

lemma u8_eqI:
  assumes "bit a 0 = bit b 0" "bit a 1 = bit b 1" "bit a 2 = bit b 2" "bit a 3 = bit b 3"
    "bit a 4 = bit b 4" "bit a 5 = bit b 5" "bit a 6 = bit b 6" "bit a 7 = bit b 7"
  shows "a = (b :: u8)"
proof (rule bit_word_eqI)
  fix n assume "n < LENGTH(8)"
  then have "n = 0 \<or> n = 1 \<or> n = 2 \<or> n = 3 \<or> n = 4 \<or> n = 5 \<or> n = 6 \<or> n = 7" by simp presburger
  then show "bit a n = bit b n" using assms by auto
qed

lemma u8_high_bits: "8 \<le> n \<Longrightarrow> \<not> bit (b :: u8) n"
  by (auto dest: bit_imp_le_length)

lemmas quanta = quantum1_def quantum2_def quantum3_def quantum4_def quantum5_def low_bits
lemmas octets = octet0_def octet1_def octet2_def octet3_def octet4_def

text \<open>The digits of a byte string put the bytes together again.\<close>

lemma full_octets:
  "octet0 (drop_bit 3 a) (take_bit 5 (drop_bit 6 b) OR take_bit 5 (push_bit 2 a)) = a"
  "octet1 (take_bit 5 (drop_bit 6 b) OR take_bit 5 (push_bit 2 a)) (take_bit 5 (drop_bit 1 b))
     (take_bit 5 (drop_bit 4 c) OR take_bit 5 (push_bit 4 b)) = b"
  "octet2 (take_bit 5 (drop_bit 4 c) OR take_bit 5 (push_bit 4 b)) (drop_bit 7 d OR take_bit 5 (push_bit 1 c)) = c"
  "octet3 (drop_bit 7 d OR take_bit 5 (push_bit 1 c)) (take_bit 5 (drop_bit 2 d))
     (drop_bit 5 e OR take_bit 5 (push_bit 3 d)) = d"
  "octet4 (drop_bit 5 e OR take_bit 5 (push_bit 3 d)) (take_bit 5 e) = e"
  unfolding octets
  by (rule u8_eqI; simp add: bit_simps u8_high_bits numeral_eq_Suc del: push_bit_Suc drop_bit_Suc)+

lemma last_octet:
  "octet0 (drop_bit 3 a) (0 OR take_bit 5 (push_bit 2 a)) = a"
  "octet1 (take_bit 5 (drop_bit 6 b) OR take_bit 5 (push_bit 2 a)) (take_bit 5 (drop_bit 1 b))
     (0 OR take_bit 5 (push_bit 4 b)) = b"
  "octet2 (take_bit 5 (drop_bit 4 c) OR take_bit 5 (push_bit 4 b)) (0 OR take_bit 5 (push_bit 1 c)) = c"
  "octet3 (drop_bit 7 d OR take_bit 5 (push_bit 1 c)) (take_bit 5 (drop_bit 2 d)) (0 OR take_bit 5 (push_bit 3 d)) = d"
  "take_bit 2 (0 OR take_bit 5 (push_bit 2 a)) = 0" "take_bit 4 (0 OR take_bit 5 (push_bit 4 a)) = 0"
  "take_bit 1 (0 OR take_bit 5 (push_bit 1 a)) = 0" "take_bit 3 (0 OR take_bit 5 (push_bit 3 a)) = 0"
  unfolding octets
  by (rule u8_eqI; simp add: bit_simps u8_high_bits numeral_eq_Suc del: push_bit_Suc drop_bit_Suc)+

lemma base32_roundtrip: "base32Decode r (base32Encode src) = Inr src"
  by (induction src arbitrary: r rule: base32Encode.induct)
    (simp_all only: base32Encode.simps quanta append.simps base32Decode.simps padded_def full_octets last_octet
      sum.case not_not simp_thms if_False)

section \<open>The checksum\<close>

definition gens :: "u64 \<Rightarrow> u64" where
  "gens b = fold (\<lambda>i chk. if drop_bit i b AND 1 \<noteq> 0 then chk XOR generator ! i else chk) [0..<5] 0"

lemma fold_xor:
  "fold (\<lambda>i chk. if P i then chk XOR g i else chk) is a
     = a XOR fold (\<lambda>i chk. if P i then chk XOR g i else chk) is (0 :: u64)"
proof (induction "is" arbitrary: a)
  case (Cons i "is")
  show ?case using Cons [of "a XOR g i"] Cons [of "g i"] Cons [of a] by (simp add: ac_simps)
qed simp

lemma polymodStep_gens:
  "polymodStep c v = push_bit 5 (take_bit 25 c) XOR ucast v XOR gens (drop_bit 25 c)"
proof -
  have mask: "c AND 0x1ffffff = take_bit 25 c"
    by (simp add: take_bit_eq_mask mask_eq_exp_minus_1)
  show ?thesis
    unfolding polymodStep_def gens_def Let_def mask by (subst fold_xor) (simp only: xor.assoc)
qed

text \<open>The step is linear in a part of the state that the shift does not drop, and in the value.\<close>

lemma polymodStep_linear:
  assumes "drop_bit 25 x = 0"
  shows "polymodStep (c XOR x) v = polymodStep c 0 XOR (push_bit 5 x XOR ucast v)"
proof -
  have "take_bit 25 x = x"
    using assms bits_ident [of 25 x] by simp
  then show ?thesis
    using assms by (simp add: polymodStep_gens ac_simps)
qed

lemma polymodStep_below: "drop_bit 30 (polymodStep c v) = 0"
proof -
  have "drop_bit 30 (gens b) = 0" for b
    by (simp add: gens_def generator_def upt_rec)
  moreover have "drop_bit 30 (push_bit 5 (take_bit 25 c)) = 0"
    by (rule bit_eqI) (auto simp: bit_simps)
  moreover have "drop_bit 30 (ucast v :: u64) = 0"
    by (rule bit_eqI) (auto simp: bit_simps dest: bit_imp_le_length)
  ultimately show ?thesis
    by (simp add: polymodStep_gens)
qed

text \<open>One digit of the checksum more.\<close>

lemma checksum_digit:
  assumes "drop_bit 30 p = 0" "n \<le> 25"
  shows "polymodStep (c XOR drop_bit (n + 5) p) (ucast (drop_bit n p AND 31)) = polymodStep c 0 XOR drop_bit n p"
proof -
  have "drop_bit 25 (drop_bit (n + 5) p) = drop_bit n (drop_bit 30 p)"
    by (simp add: ac_simps)
  then have "drop_bit 25 (drop_bit (n + 5) p) = 0"
    using assms(1) by simp
  moreover have "push_bit 5 (drop_bit (n + 5) p) XOR ucast (ucast (take_bit 5 (drop_bit n p)) :: u8) = drop_bit n p"
    by (rule bit_word_eqI) (auto simp: bit_simps ac_simps)
  moreover have "drop_bit n p AND 31 = take_bit 5 (drop_bit n p)"
    by (simp add: take_bit_eq_mask mask_eq_exp_minus_1)
  ultimately show ?thesis
    by (simp add: polymodStep_linear)
qed

lemma checksum_verifies:
  "bech32VerifyChecksum hrp (data @ bech32CreateChecksum hrp data)"
proof -
  define c where "c = bech32Polymod (bech32HrpExpand hrp @ data)"
  define p where "p = bech32Polymod (bech32HrpExpand hrp @ data @ [0, 0, 0, 0, 0, 0]) XOR 1"
  have p: "p = polymodStep (polymodStep (polymodStep (polymodStep (polymodStep (polymodStep c 0) 0) 0) 0) 0) 0 XOR 1"
    by (simp add: p_def c_def bech32Polymod_def)
  then have below: "drop_bit 30 p = 0"
    by (simp add: polymodStep_below)
  have digits: "bech32CreateChecksum hrp data = map (\<lambda>i. ucast (drop_bit (5 * (5 - i)) p AND 31)) [0..<6]"
    by (simp add: bech32CreateChecksum_def p_def Let_def)
  note digit = checksum_digit [OF below]
  have "foldl polymodStep c (bech32CreateChecksum hrp data) =
      polymodStep (polymodStep (polymodStep (polymodStep (polymodStep (polymodStep c 0) 0) 0) 0) 0) 0 XOR p"
    using digit [of 25 c] digit [of 20 "polymodStep c 0"] digit [of 15 "polymodStep (polymodStep c 0) 0"]
      digit [of 10 "polymodStep (polymodStep (polymodStep c 0) 0) 0"]
      digit [of 5 "polymodStep (polymodStep (polymodStep (polymodStep c 0) 0) 0) 0"]
      digit [of 0 "polymodStep (polymodStep (polymodStep (polymodStep (polymodStep c 0) 0) 0) 0) 0"]
    by (simp add: digits upt_rec below)
  then show ?thesis
    by (simp add: bech32VerifyChecksum_def bech32Polymod_def c_def p)
qed

section \<open>Digits and characters\<close>

definition isDigit :: "u8 \<Rightarrow> bool" where
  "isDigit d \<longleftrightarrow> take_bit 5 d = d"

lemma isDigit_range:
  assumes "isDigit d"
  shows "unat d < 32"
proof -
  have "unat (take_bit 5 d) < 2 ^ 5"
    unfolding unsigned_take_bit_eq by (rule take_bit_nat_less_exp)
  then show ?thesis
    using assms by (simp add: isDigit_def)
qed

lemma isDigit_intros:
  "isDigit (take_bit 5 x)" "isDigit x \<Longrightarrow> isDigit y \<Longrightarrow> isDigit (x OR y)"
  "isDigit (drop_bit 3 x)" "isDigit (drop_bit 5 x)" "isDigit (drop_bit 7 x)" "isDigit 0"
  "isDigit (ucast ((w :: u64) AND 31))"
proof -
  have "w AND 31 = take_bit 5 w"
    by (simp add: take_bit_eq_mask mask_eq_exp_minus_1)
  then show "isDigit (ucast (w AND 31))"
    unfolding isDigit_def by (intro bit_word_eqI) (auto simp: bit_simps)
  show "isDigit (drop_bit 3 x)" "isDigit (drop_bit 5 x)" "isDigit (drop_bit 7 x)"
    unfolding isDigit_def by (rule bit_word_eqI; auto simp: bit_simps dest: bit_imp_le_length)+
qed (simp_all add: isDigit_def)

lemma base32Encode_digits: "list_all isDigit (base32Encode src)"
  by (induction src rule: base32Encode.induct) (auto simp: quanta intro!: isDigit_intros)

lemma base32Encode_length: "length (base32Encode src) = base32EncodedLen (length src)"
  by (induction src rule: base32Encode.induct) (auto simp: quanta base32EncodedLen_def)

text \<open>The buffer the caller of the decoder makes is filled exactly.\<close>

lemma base32Decode_length: "base32Decode r ds = Inr bs \<Longrightarrow> length bs = base32DecodedLen (length ds)"
  by (induction r ds arbitrary: bs rule: base32Decode.induct)
    (auto simp: padded_def base32DecodedLen_def split: if_splits sum.splits)

lemma bech32CreateChecksum_digits:
  "list_all isDigit (bech32CreateChecksum hrp data)" "length (bech32CreateChecksum hrp data) = 6"
  by (auto simp: bech32CreateChecksum_def Let_def list_all_iff intro!: isDigit_intros)

definition isChar :: "u8 \<Rightarrow> bool" where
  "isChar c \<longleftrightarrow> isValidHRPChar c \<and> c \<noteq> separator \<and> \<not> (65 \<le> c \<and> c \<le> 90)"

lemma charset_table:
  "list_all (\<lambda>i. decMap charset (charset ! i) = word_of_nat i \<and> isChar (charset ! i)) [0..<32]"
  "length charset = 32"
  by code_simp+

lemma charset_nth:
  assumes "isDigit d"
  shows "nthG charset (unat d) = Inr (charset ! unat d)" "decMap charset (charset ! unat d) = d"
    "isChar (charset ! unat d)"
  using charset_table isDigit_range [OF assms] by (auto simp: list_all_iff)

lemma digit_not_invalid: "isDigit d \<Longrightarrow> d \<noteq> 0xFF"
  using isDigit_range [of d] by auto

lemma charset_roundtrip:
  assumes "list_all isDigit ds"
  shows "\<exists>cs. charsetEncode ds = Inr cs \<and> charsetDecode cs = Inr ds \<and> list_all isChar cs \<and> length cs = length ds"
  using assms
proof (induction ds)
  case (Cons d ds)
  then obtain cs where "charsetEncode ds = Inr cs" "charsetDecode cs = Inr ds" "list_all isChar cs"
    "length cs = length ds" by auto
  with Cons.prems show ?case
    by (intro exI [of _ "charset ! unat d # cs"])
      (simp add: charsetEncode_def charset_nth digit_not_invalid)
qed (simp add: charsetEncode_def)

section \<open>Case of US-ASCII strings\<close>

definition isAscii :: "bytes \<Rightarrow> bool" where
  "isAscii s \<longleftrightarrow> list_all (\<lambda>b. b < 0x80) s"

definition lowerByte :: "u8 \<Rightarrow> u8" where
  "lowerByte b = (if 65 \<le> b \<and> b \<le> 90 then b + 32 else b)"

definition upperByte :: "u8 \<Rightarrow> u8" where
  "upperByte b = (if 97 \<le> b \<and> b \<le> 122 then b - 32 else b)"

text \<open>What the documentation of package strings says of US-ASCII.\<close>

definition ascii_case :: "case_mapping \<Rightarrow> bool" where
  "ascii_case M \<longleftrightarrow> (\<forall>s. isAscii s \<longrightarrow> toLower M s = map lowerByte s \<and> toUpper M s = map upperByte s)"

lemmas case_defs = lowerByte_def upperByte_def isValidHRPChar_def isChar_def separator_def

lemma case_byte:
  "lowerByte b = b \<or> upperByte b = b" "lowerByte (upperByte b) = lowerByte b"
  "upperByte (upperByte b) = upperByte b" "lowerByte (lowerByte b) = lowerByte b"
  "b < 0x80 \<Longrightarrow> upperByte b < 0x80" "b < 0x80 \<Longrightarrow> lowerByte b < 0x80"
  "isValidHRPChar b \<Longrightarrow> isValidHRPChar (upperByte b)" "isValidHRPChar b \<Longrightarrow> b < 0x80"
  "upperByte b = separator \<longleftrightarrow> b = separator" "isChar b \<Longrightarrow> lowerByte b = b"
  unfolding case_defs by unat_arith+

lemma runeStarts_ascii: "isAscii s \<Longrightarrow> runeStarts i s = [i..<i + length s]"
proof (induction s arbitrary: i)
  case (Cons b s)
  have "runeLen (b # s) = 1"
    using Cons.prems by (auto simp: isAscii_def runeLen_def Let_def word_le_nat_alt word_less_nat_alt)
  then show ?case
    using Cons by (simp add: runeStarts.simps [of i "b # s"] isAscii_def upt_rec)
qed (simp add: runeStarts.simps)

lemma firstDifference_range:
  assumes "length (f s) = length s" "list_all (\<lambda>i. i < length s) is"
  shows "\<exists>r. firstDifference (f s) s is = Inr r \<and> (r = None \<longleftrightarrow> list_all (\<lambda>i. f s ! i = s ! i) is)
    \<and> (\<forall>i. r = Some i \<longrightarrow> i < length s \<and> f s ! i \<noteq> s ! i)"
  using assms(2) by (induction "is") (auto simp: assms(1))

lemma firstDifference_map:
  fixes f :: "u8 \<Rightarrow> u8"
  shows "\<exists>r. firstDifference (map f s) s [0..<length s] = Inr r \<and> (r = None \<longleftrightarrow> map f s = s)
    \<and> (\<forall>i. r = Some i \<longrightarrow> f (s ! i) \<noteq> s ! i)"
proof -
  have eq: "list_all (\<lambda>i. map f s ! i = s ! i) [0..<length s] \<longleftrightarrow> map f s = s"
    by (auto simp: list_all_iff intro!: nth_equalityI) (metis nth_map)
  have "list_all (\<lambda>i. i < length s) [0..<length s]" by (simp add: list_all_iff)
  from firstDifference_range [of "map f" s, OF length_map this, unfolded eq] obtain r where
    "firstDifference (map f s) s [0..<length s] = Inr r" "r = None \<longleftrightarrow> map f s = s"
    "\<forall>i. r = Some i \<longrightarrow> i < length s \<and> map f s ! i \<noteq> s ! i" by (elim exE conjE)
  then show ?thesis by (intro exI [of _ r]) auto
qed

lemma validateCase_ascii:
  assumes "ascii_case M" "isAscii s"
  shows "validateCase M s = Inr () \<longleftrightarrow> map lowerByte s = s \<or> map upperByte s = s"
proof -
  obtain u where u: "firstDifference (map lowerByte s) s [0..<length s] = Inr u"
    "u = None \<longleftrightarrow> map lowerByte s = s" "\<forall>i. u = Some i \<longrightarrow> lowerByte (s ! i) \<noteq> s ! i"
    using firstDifference_map [of lowerByte s] by (elim exE conjE)
  obtain l where l: "firstDifference (map upperByte s) s [0..<length s] = Inr l"
    "l = None \<longleftrightarrow> map upperByte s = s" "\<forall>i. l = Some i \<longrightarrow> upperByte (s ! i) \<noteq> s ! i"
    using firstDifference_map [of upperByte s] by (elim exE conjE)
  have "u \<noteq> l" if "u = Some i" for i
    using that u(3) l(3) case_byte(1) by metis
  moreover have "firstUpper M s = Inr u" "firstLower M s = Inr l"
    using assms u(1) l(1) by (simp_all add: firstUpper_def firstLower_def ascii_case_def runeStarts_ascii)
  ultimately have "validateCase M s = Inr () \<longleftrightarrow> u = None \<or> l = None"
    by (cases u; cases l) (auto simp: validateCase_def neq_iff)
  then show ?thesis using u(2) l(2) by simp
qed

lemma lastIndex_append:
  "separator \<notin> set cs \<Longrightarrow> lastIndex separator (hrp @ separator # cs) = Some (length hrp)"
proof (induction hrp)
  case Nil
  have "lastIndex separator cs = None" using Nil by (induction cs) auto
  then show ?case by simp
qed simp

lemma firstInvalid_None: "list_all isValidHRPChar cs \<Longrightarrow> firstInvalid i cs = None"
  by (induction cs arbitrary: i) auto

text \<open>A string in one case is decoded by its lower case form.\<close>

lemma bech32Decode_one_case:
  assumes M: "ascii_case M" and data: "list_all isDigit data" "6 \<le> length data"
    and sum: "bech32VerifyChecksum (map lowerByte hrp) data"
    and dst: "base32Decode 0 (take (length data - 6) data) = Inr dst"
    and chars: "charsetDecode cs = Inr data" "list_all isChar cs" "length cs = length data"
    and hrp: "hrp \<noteq> []" "list_all isValidHRPChar hrp"
    and f: "f = (\<lambda>b. b) \<and> map lowerByte hrp = hrp \<or> f = upperByte"
    and len: "length hrp + length data + 1 \<le> 90"
  shows "bech32Decode M (map f (hrp @ separator # cs)) = Inr (map lowerByte hrp, dst)"
proof -
  let ?s = "map f (hrp @ separator # cs)"
  have low_cs: "map lowerByte cs = cs"
    using chars(2) case_byte(10) by (simp add: list_all_iff map_idI)
  have sep: "lowerByte separator = separator" "upperByte separator = separator"
    by (simp_all add: case_defs)
  have ascii: "isAscii ?s"
    using f hrp(2) chars(2) sep case_byte(5,8) by (auto simp: isAscii_def list_all_iff isChar_def separator_def)
  have "lowerByte (f b) = lowerByte b" for b using f case_byte(2) by auto
  then have lower: "map lowerByte ?s = map lowerByte hrp @ separator # cs"
    using low_cs sep by (simp add: comp_def)
  have "map lowerByte ?s = ?s" if "f = (\<lambda>b. b)" "map lowerByte hrp = hrp"
    using that low_cs sep by simp
  moreover have "map upperByte ?s = ?s" if "f = upperByte"
    using that sep case_byte(3) by simp
  ultimately have "map lowerByte ?s = ?s \<or> map upperByte ?s = ?s"
    using f by blast
  then have valid: "validateCase M ?s = Inr ()" by (rule validateCase_ascii [OF M ascii, THEN iffD2])
  have fsep: "f c = separator \<longleftrightarrow> c = separator" for c
    using f case_byte(9) by auto
  then have "separator \<notin> set (map f cs)"
    using chars(2) by (auto simp: list_all_iff isChar_def dest: sym)
  then have last: "lastIndex separator ?s = Some (length hrp)"
    using lastIndex_append [of "map f cs" "map f hrp"] fsep [of separator] by simp
  have "list_all isValidHRPChar (map f hrp)"
    using f hrp(2) case_byte(7) by (auto simp: list_all_iff)
  then have "firstInvalid 0 (map f hrp) = None" by (rule firstInvalid_None)
  then have "firstInvalid 0 (take (length hrp) ?s) = None" by simp
  moreover have "toLower M ?s = map lowerByte hrp @ separator # cs"
    using M ascii lower by (simp only: ascii_case_def)
  moreover have "length ?s = length hrp + length data + 1" using chars(3) by simp
  moreover have "decodeLower (map lowerByte hrp @ separator # cs) (length hrp) = Inr (map lowerByte hrp, dst)"
    using chars(1) data(2) sum dst by (simp add: decodeLower_def)
  ultimately show ?thesis
    using valid last hrp(1) len data(2) unfolding bech32Decode_def by (simp del: map_append list.map take_append length_append length_map)
qed

section \<open>Round trip\<close>

text \<open>C37: What Encode writes, Decode reads back: for every human-readable part that Encode accepts, in lower or
  upper case, decoding gives the human-readable part in lower case and the data.\<close>

theorem bech32_roundtrip:
  assumes "ascii_case M" "bech32Encode M hrp src = Inr s"
  shows "bech32Decode M s = Inr (map lowerByte hrp, src)"
proof -
  let ?data = "base32Encode src @ bech32CreateChecksum (map lowerByte hrp) (base32Encode src)"
  have len: "\<not> 90 < length hrp + base32EncodedLen (length src) + 6 + 1" and "hrp \<noteq> []"
    and hrp: "list_all isValidHRPChar hrp"
    using assms(2) by (auto simp: bech32Encode_def Let_def split: if_splits)
  then have ascii: "isAscii hrp" using case_byte(8) by (auto simp: isAscii_def list_all_iff)
  then have lower: "toLower M hrp = map lowerByte hrp" using assms(1) by (simp add: ascii_case_def)
  obtain cs where cs: "charsetEncode ?data = Inr cs" "charsetDecode cs = Inr ?data" "list_all isChar cs"
    "length cs = length ?data"
    using charset_roundtrip [of ?data] base32Encode_digits bech32CreateChecksum_digits by auto
  define f where "f = (if hrp = map lowerByte hrp then (\<lambda>b. b) else upperByte)"
  have "isAscii (hrp @ separator # cs)"
    using ascii cs(3) case_byte(8) by (auto simp: isAscii_def list_all_iff isChar_def separator_def)
  then have "s = map f (hrp @ separator # cs)"
    using assms len \<open>hrp \<noteq> []\<close> hrp lower cs(1)
    by (auto simp: bech32Encode_def Let_def andthen_eq_Inr f_def ascii_case_def split: if_splits)
  moreover have "bech32Decode M (map f (hrp @ separator # cs)) = Inr (map lowerByte hrp, src)"
  proof (rule bech32Decode_one_case [OF assms(1) _ _ checksum_verifies _ cs(2,3,4) \<open>hrp \<noteq> []\<close> hrp])
    show "base32Decode 0 (take (length ?data - 6) ?data) = Inr src"
      by (simp add: bech32CreateChecksum_digits base32_roundtrip)
  qed (use len base32Encode_digits bech32CreateChecksum_digits base32Encode_length in \<open>auto simp: f_def\<close>)
  ultimately show ?thesis by simp
qed

section \<open>What the checksum detects\<close>

lemma gens_table: "distinct (map (\<lambda>n. take_bit 5 (gens (word_of_nat n))) [0..<32])"
  by (simp add: gens_def generator_def upt_rec)

lemma gens_inj:
  assumes "take_bit 5 (gens a) = take_bit 5 (gens b)" "unat a < 32" "unat b < 32"
  shows "a = b"
proof -
  let ?f = "\<lambda>n. take_bit 5 (gens (word_of_nat n))"
  have "inj_on ?f {0..<32}" using gens_table by (simp add: distinct_map)
  from inj_onD [OF this, of "unat a" "unat b"] show ?thesis using assms by (auto simp: unsigned_word_eqI)
qed

lemma polymodStep_inj:
  assumes "polymodStep c v = polymodStep c' v" "drop_bit 30 c = 0" "drop_bit 30 c' = 0"
  shows "c = c'"
proof -
  let ?r = "\<lambda>c. push_bit 5 (take_bit 25 c) XOR gens (drop_bit 25 c) :: u64"
  have "polymodStep c v XOR ucast v = polymodStep c' v XOR ucast v" using assms(1) by simp
  then have eq: "?r c = ?r c'" by (simp add: polymodStep_gens ac_simps)
  have "take_bit 5 (?r c) = take_bit 5 (gens (drop_bit 25 c))" for c :: u64
    by (rule bit_word_eqI) (auto simp: bit_simps)
  then have "take_bit 5 (gens (drop_bit 25 c)) = take_bit 5 (gens (drop_bit 25 c'))" using eq by metis
  moreover have "unat (drop_bit 25 c) < 32" if "drop_bit 30 c = 0" for c :: u64
  proof -
    have "drop_bit 5 (drop_bit 25 c) = 0" using that by simp
    then have "unat (drop_bit 25 c) div 2 ^ 5 = 0"
      by (metis drop_bit_eq_div unat_drop_bit_eq unsigned_0)
    then show ?thesis by simp
  qed
  ultimately have hi: "drop_bit 25 c = drop_bit 25 c'" using gens_inj assms(2,3) by blast
  have "?r c XOR gens (drop_bit 25 c) = ?r c' XOR gens (drop_bit 25 c)" using eq by simp
  then have "push_bit 5 (take_bit 25 c) = push_bit 5 (take_bit 25 c')" using hi by (simp add: ac_simps)
  then have "drop_bit 5 (push_bit 5 (take_bit 25 c)) = drop_bit 5 (push_bit 5 (take_bit 25 c'))" by simp
  moreover have "drop_bit 5 (push_bit 5 (take_bit 25 c)) = take_bit 25 c" for c :: u64
    by (rule bit_word_eqI) (auto simp: bit_simps)
  ultimately have "take_bit 25 c = take_bit 25 c'" by simp
  with hi show ?thesis by (metis bits_ident)
qed

lemma polymod_below: "drop_bit 30 c = 0 \<Longrightarrow> drop_bit 30 (foldl polymodStep c vs) = 0"
  by (induction vs arbitrary: c) (simp_all add: polymodStep_below)

lemma polymod_inj:
  assumes "foldl polymodStep c vs = foldl polymodStep c' vs" "drop_bit 30 c = 0" "drop_bit 30 c' = 0"
  shows "c = c'"
  using assms
proof (induction vs arbitrary: c c')
  case (Cons v vs)
  have "polymodStep c v = polymodStep c' v"
    by (rule Cons.IH) (use Cons.prems in \<open>simp_all add: polymodStep_below\<close>)
  then show ?case using polymodStep_inj Cons.prems(2,3) by blast
qed simp

lemma polymodStep_value:
  assumes "polymodStep c v = polymodStep c w"
  shows "v = w"
proof -
  have "polymodStep c v XOR polymodStep c 0 = polymodStep c w XOR polymodStep c 0" using assms by simp
  then have same: "(ucast v :: u64) = ucast w" by (simp add: polymodStep_gens ac_simps)
  have "(ucast (ucast x :: u64) :: u8) = x" for x
    by (rule bit_word_eqI) (auto simp: bit_simps)
  with same show ?thesis by metis
qed

text \<open>C38: The checksum detects every wrong character: two strings of digits that differ in
  exactly one place are not both accepted for one human-readable part.\<close>

theorem checksum_detects_substitution:
  assumes "bech32VerifyChecksum hrp (pre @ d # post)" "d' \<noteq> d"
  shows "\<not> bech32VerifyChecksum hrp (pre @ d' # post)"
proof
  assume "bech32VerifyChecksum hrp (pre @ d' # post)"
  define c where "c = foldl polymodStep 1 (bech32HrpExpand hrp @ pre)"
  have "foldl polymodStep (polymodStep c d) post = foldl polymodStep (polymodStep c d') post"
    using assms(1) \<open>bech32VerifyChecksum hrp (pre @ d' # post)\<close>
    by (simp add: bech32VerifyChecksum_def bech32Polymod_def c_def)
  then have "polymodStep c d = polymodStep c d'"
    by (rule polymod_inj) (simp_all add: polymodStep_below)
  then show False using polymodStep_value assms(2) by blast
qed

section \<open>Concrete strings\<close>

text \<open>A case mapping with the entry of the Unicode tables for the Kelvin sign, U+212A, whose lower case is k.\<close>

fun kelvinLower :: "bytes \<Rightarrow> bytes" where
  "kelvinLower [] = []"
| "kelvinLower (b # s) =
     (if b = 0xE2 \<and> take 2 s = [0x84, 0xAA] then 0x6B # kelvinLower (drop 2 s) else lowerByte b # kelvinLower s)"

definition kelvin_case :: case_mapping where
  "kelvin_case = \<lparr>toLower = kelvinLower, toUpper = map upperByte\<rparr>"

lemma kelvin_case_ascii: "ascii_case kelvin_case"
proof -
  have "kelvinLower s = map lowerByte s" if "isAscii s" for s
    using that by (induction s rule: kelvinLower.induct) (auto simp: isAscii_def word_less_nat_alt)
  then show ?thesis by (simp add: ascii_case_def kelvin_case_def)
qed

lemma demo_bech32: "bech32Encode kelvin_case [65] [176] = Inr [65, 49, 75, 81, 68, 89, 50, 87, 76, 48]"
  by code_simp

theorem bech32_roundtrip_witness:
  "bech32Decode kelvin_case [65, 49, 75, 81, 68, 89, 50, 87, 76, 48] = Inr (map lowerByte [65], [176])"
  by (rule bech32_roundtrip [OF kelvin_case_ascii demo_bech32])

lemma demo_checksum: "bech32VerifyChecksum [97] ([] @ 22 # [0, 13, 4, 10, 14, 31, 15])"
  by code_simp

theorem checksum_detects_substitution_witness:
  "\<not> bech32VerifyChecksum [97] ([] @ 23 # [0, 13, 4, 10, 14, 31, 15])"
  by (rule checksum_detects_substitution [OF demo_checksum]) simp

text \<open>The same string with the Kelvin sign, three bytes of UTF-8, for its letter K is accepted, because the case
  mapping turns the sign into the letter before the characters are checked.\<close>

theorem kelvin_sign_accepted:
  "bech32Decode kelvin_case [65, 49, 0xE2, 0x84, 0xAA, 81, 68, 89, 50, 87, 76, 48] = Inr ([97], [176])"
  by code_simp

end
