(* ===== verification/Bitmask_Caps.thy ===== *)
theory Bitmask_Caps
  imports Go_Prelude
begin

text \<open>
  Variable length bit masks and the capabilities stored in them: bitmask.go,
  address_capabilities_bitmask.go and transaction_capabilities_bitmask.go.  The constructors take the
  options after they were applied; applying options is done by hive.go/runtime/options.
\<close>

unbundle bit_operations_syntax

definition BitMaskHasBit :: "bytes \<Rightarrow> nat \<Rightarrow> bool" where
  "BitMaskHasBit bm b =
    (let byteIndex = b div 8 in
     if length bm \<le> byteIndex then False
     else let bitIndex = b mod 8 in 0 < bm ! byteIndex AND push_bit bitIndex 1)"

text \<open>The loop that appends zero bytes until the byte of the bit exists.\<close>

function growBitMask :: "bytes \<Rightarrow> nat \<Rightarrow> bytes" where
  "growBitMask bm byteIndex = (if length bm \<le> byteIndex then growBitMask (bm @ [0]) byteIndex else bm)"
  by pat_completeness auto
termination
  by (relation "measure (\<lambda>(bm, i). Suc i - length bm)") auto

definition BitMaskSetBit :: "bytes \<Rightarrow> nat \<Rightarrow> bytes" where
  "BitMaskSetBit bm b =
    (let byteIndex = b div 8;
         newBitmask = growBitMask bm byteIndex;
         bitIndex = b mod 8
     in newBitmask[byteIndex := newBitmask ! byteIndex OR push_bit bitIndex 1])"

definition BitMaskNonTrailingZeroBytesValidatorFunc :: "bytes \<Rightarrow> unit go" where
  "BitMaskNonTrailingZeroBytesValidatorFunc bm =
    (if length bm = 0 \<or> bm ! (length bm - 1) \<noteq> 0 then Inr ()
     else throw (Wrap (Sentinel ''ErrBitmaskTrailingZeroBytes'') ''bitmask: %s''))"

section \<open>Address capabilities\<close>

record address_capabilities_options =
  aco_NativeTokens :: bool
  aco_Mana :: bool
  aco_Timelock :: bool
  aco_Expiration :: bool
  aco_StorageDepositReturn :: bool
  aco_AccountOutputs :: bool
  aco_AnchorOutputs :: bool
  aco_NFTOutputs :: bool
  aco_DelegationOutputs :: bool

definition setIf :: "bool \<Rightarrow> nat \<Rightarrow> bytes \<Rightarrow> bytes" where
  "setIf c b bm = (if c then BitMaskSetBit bm b else bm)"

definition AddressCapabilitiesBitMaskWithCapabilities :: "address_capabilities_options \<Rightarrow> bytes" where
  "AddressCapabilitiesBitMaskWithCapabilities o1 =
    (let bm = [];
         bm = setIf (aco_NativeTokens o1) 0 bm;
         bm = setIf (aco_Mana o1) 1 bm;
         bm = setIf (aco_Timelock o1) 2 bm;
         bm = setIf (aco_Expiration o1) 3 bm;
         bm = setIf (aco_StorageDepositReturn o1) 4 bm;
         bm = setIf (aco_AccountOutputs o1) 5 bm;
         bm = setIf (aco_AnchorOutputs o1) 6 bm;
         bm = setIf (aco_NFTOutputs o1) 7 bm;
         bm = setIf (aco_DelegationOutputs o1) 8 bm
     in bm)"

text \<open>The nine questions an address with capabilities answers.\<close>

datatype capability = CapNativeTokens | CapMana | CapTimelock | CapExpiration | CapStorageDepositReturn
  | CapAccountOutputs | CapAnchorOutputs | CapNFTOutputs | CapDelegationOutputs

primrec capBitIndex :: "capability \<Rightarrow> nat" where
  "capBitIndex CapNativeTokens = 0"
| "capBitIndex CapMana = 1"
| "capBitIndex CapTimelock = 2"
| "capBitIndex CapExpiration = 3"
| "capBitIndex CapStorageDepositReturn = 4"
| "capBitIndex CapAccountOutputs = 5"
| "capBitIndex CapAnchorOutputs = 6"
| "capBitIndex CapNFTOutputs = 7"
| "capBitIndex CapDelegationOutputs = 8"

definition maskCannotReceive :: "bytes \<Rightarrow> capability \<Rightarrow> bool" where
  "maskCannotReceive bm c = (\<not> BitMaskHasBit bm (capBitIndex c))"

section \<open>Transaction capabilities\<close>

record transaction_capabilities_options =
  tco_BurnNativeTokens :: bool
  tco_BurnMana :: bool
  tco_DestroyAccountOutputs :: bool
  tco_DestroyAnchorOutputs :: bool
  tco_DestroyFoundryOutputs :: bool
  tco_DestroyNFTOutputs :: bool

definition TransactionCapabilitiesBitMaskWithCapabilities ::
    "transaction_capabilities_options \<Rightarrow> bytes" where
  "TransactionCapabilitiesBitMaskWithCapabilities o1 =
    (let bm = [];
         bm = setIf (tco_BurnNativeTokens o1) 0 bm;
         bm = setIf (tco_BurnMana o1) 1 bm;
         bm = setIf (tco_DestroyAccountOutputs o1) 2 bm;
         bm = setIf (tco_DestroyAnchorOutputs o1) 3 bm;
         bm = setIf (tco_DestroyFoundryOutputs o1) 4 bm;
         bm = setIf (tco_DestroyNFTOutputs o1) 5 bm
     in bm)"

definition CannotBurnNativeTokens :: "bytes \<Rightarrow> bool" where
  "CannotBurnNativeTokens bm = (\<not> BitMaskHasBit bm 0)"

definition CannotBurnMana :: "bytes \<Rightarrow> bool" where
  "CannotBurnMana bm = (\<not> BitMaskHasBit bm 1)"

definition CannotDestroyAccountOutputs :: "bytes \<Rightarrow> bool" where
  "CannotDestroyAccountOutputs bm = (\<not> BitMaskHasBit bm 2)"

definition CannotDestroyAnchorOutputs :: "bytes \<Rightarrow> bool" where
  "CannotDestroyAnchorOutputs bm = (\<not> BitMaskHasBit bm 3)"

definition CannotDestroyFoundryOutputs :: "bytes \<Rightarrow> bool" where
  "CannotDestroyFoundryOutputs bm = (\<not> BitMaskHasBit bm 4)"

definition CannotDestroyNFTOutputs :: "bytes \<Rightarrow> bool" where
  "CannotDestroyNFTOutputs bm = (\<not> BitMaskHasBit bm 5)"

section \<open>Lemmas\<close>

declare growBitMask.simps [simp del]

lemma growBitMask_eq: "growBitMask bm i = bm @ replicate (Suc i - length bm) 0"
proof (induction bm i rule: growBitMask.induct)
  case (1 bm i)
  then show ?case
    by (subst growBitMask.simps) (auto simp: Suc_diff_le replicate_append_same)
qed

lemma length_growBitMask [simp]: "length (growBitMask bm i) = max (length bm) (Suc i)"
  by (simp add: growBitMask_eq max_def)

lemma nth_growBitMask: "j < max (length bm) (Suc i) \<Longrightarrow>
    growBitMask bm i ! j = (if j < length bm then bm ! j else 0)"
  by (auto simp: growBitMask_eq nth_append max_def split: if_splits)

lemma and_bit_pos: "k < 8 \<Longrightarrow> 0 < (w :: 8 word) AND 2 ^ k \<longleftrightarrow> bit w k"
proof -
  assume k: "k < 8"
  have "w AND 2 ^ k = (if bit w k then 2 ^ k else 0)"
    by (rule bit_word_eqI) (auto simp: bit_simps)
  moreover have "(2 ^ k :: 8 word) \<noteq> 0" using k by simp
  ultimately show ?thesis by (simp add: word_neq_0_conv [symmetric])
qed

lemma HasBit_iff: "BitMaskHasBit bm b \<longleftrightarrow> b div 8 < length bm \<and> bit (bm ! (b div 8)) (b mod 8)"
  by (auto simp: BitMaskHasBit_def Let_def and_bit_pos not_le)

lemma length_SetBit [simp]: "length (BitMaskSetBit bm b) = max (length bm) (Suc (b div 8))"
  by (simp add: BitMaskSetBit_def Let_def)

lemma nth_SetBit:
  assumes "j < max (length bm) (Suc (b div 8))"
  shows "BitMaskSetBit bm b ! j =
    (if j = b div 8 then (if j < length bm then bm ! j else 0) OR 2 ^ (b mod 8)
     else if j < length bm then bm ! j else 0)"
  using assms by (auto simp: BitMaskSetBit_def Let_def nth_list_update nth_growBitMask)

lemma HasBit_SetBit [simp]: "BitMaskHasBit (BitMaskSetBit bm b) c \<longleftrightarrow> b = c \<or> BitMaskHasBit bm c"
proof (cases "b div 8 = c div 8")
  case True
  then have "b = c \<longleftrightarrow> b mod 8 = c mod 8" by (metis div_mult_mod_eq)
  then show ?thesis using True
    by (auto simp: HasBit_iff nth_SetBit bit_simps split: if_splits)
next
  case False
  then have "b \<noteq> c" by auto
  with False show ?thesis
    by (auto simp: HasBit_iff nth_SetBit split: if_splits)
qed

lemma HasBit_Nil [simp]: "\<not> BitMaskHasBit [] c"
  by (simp add: HasBit_iff)

lemma HasBit_setIf [simp]: "BitMaskHasBit (setIf p b bm) c \<longleftrightarrow> p \<and> b = c \<or> BitMaskHasBit bm c"
  by (simp add: setIf_def)

text \<open>The masks the constructors build end in a byte that is not zero.\<close>

definition trimmed :: "bytes \<Rightarrow> bool" where
  "trimmed bm \<longleftrightarrow> bm = [] \<or> last bm \<noteq> 0"

lemma validator_iff: "BitMaskNonTrailingZeroBytesValidatorFunc bm = Inr () \<longleftrightarrow> trimmed bm"
  by (auto simp: BitMaskNonTrailingZeroBytesValidatorFunc_def trimmed_def last_conv_nth)

lemma trimmed_Nil [simp]: "trimmed []"
  by (simp add: trimmed_def)

lemma or_bit_nonzero: "k < 8 \<Longrightarrow> (w :: 8 word) OR 2 ^ k \<noteq> 0"
proof
  assume k: "k < 8" and "w OR 2 ^ k = 0"
  then have "\<not> bit (w OR 2 ^ k) k" by simp
  with k show False by (simp add: bit_simps)
qed

lemma trimmed_SetBit [simp]: "trimmed bm \<Longrightarrow> trimmed (BitMaskSetBit bm b)"
proof -
  assume t: "trimmed bm"
  let ?n = "max (length bm) (Suc (b div 8))"
  have ne: "BitMaskSetBit bm b \<noteq> []"
    by (metis length_SetBit length_0_conv max_nat.eq_neutr_iff nat.distinct(1))
  then have "last (BitMaskSetBit bm b) = BitMaskSetBit bm b ! (?n - 1)"
    by (simp add: last_conv_nth)
  also have "\<dots> \<noteq> 0"
  proof (cases "?n - 1 = b div 8")
    case True
    then show ?thesis by (subst nth_SetBit) (auto simp: or_bit_nonzero)
  next
    case False
    then have l: "Suc (b div 8) < length bm" by (auto simp: max_def split: if_splits)
    then have "bm \<noteq> []" by auto
    then have "bm ! (length bm - 1) \<noteq> 0" "?n - 1 = length bm - 1"
      using t l by (simp_all add: trimmed_def last_conv_nth)
    with l False show ?thesis by (subst nth_SetBit) auto
  qed
  finally show ?thesis by (simp add: trimmed_def)
qed

lemma trimmed_setIf [simp]: "trimmed bm \<Longrightarrow> trimmed (setIf p b bm)"
  by (simp add: setIf_def)

text \<open>What the options grant.\<close>

primrec granted :: "address_capabilities_options \<Rightarrow> capability \<Rightarrow> bool" where
  "granted o1 CapNativeTokens = aco_NativeTokens o1"
| "granted o1 CapMana = aco_Mana o1"
| "granted o1 CapTimelock = aco_Timelock o1"
| "granted o1 CapExpiration = aco_Expiration o1"
| "granted o1 CapStorageDepositReturn = aco_StorageDepositReturn o1"
| "granted o1 CapAccountOutputs = aco_AccountOutputs o1"
| "granted o1 CapAnchorOutputs = aco_AnchorOutputs o1"
| "granted o1 CapNFTOutputs = aco_NFTOutputs o1"
| "granted o1 CapDelegationOutputs = aco_DelegationOutputs o1"

text \<open>The mask built from address capabilities passes the trailing zero check, and the address may
  receive exactly what the options granted.\<close>

theorem address_capabilities_roundtrip:
  "BitMaskNonTrailingZeroBytesValidatorFunc (AddressCapabilitiesBitMaskWithCapabilities o1) = Inr ()
    \<and> (maskCannotReceive (AddressCapabilitiesBitMaskWithCapabilities o1) c = (\<not> granted o1 c))"
  unfolding validator_iff
  by (cases c) (simp_all add: AddressCapabilitiesBitMaskWithCapabilities_def maskCannotReceive_def Let_def)

end
