(* ===== verification/Addresses.thy ===== *)
theory Addresses
  imports Bitmask_Caps
begin

text \<open>
  Identifiers, chain identifiers and addresses: identifier_*.gen.go, output_id.go, address*.go,
  signature_ed25519.go and the address part of unlock signatures.  Byte arrays are byte lists.  The
  serialization of an address (hive.go/serializer/serix), the signature check (hive.go/crypto/ed25519)
  the size constants of hive.go/serializer and the bound @\<open>abi.MaxUint256\<close> are parameters.
\<close>

unbundle bit_operations_syntax

section \<open>Addresses\<close>

datatype address =
    Ed25519Address bytes
  | AccountAddress bytes
  | NFTAddress bytes
  | AnchorAddress bytes
  | ImplicitAccountCreationAddress bytes
  | MultiAddress "(address \<times> u8) list" u16
  | MultiAddressReference bytes
  | RestrictedAddress address bytes

record ledger_deps = deps +
  encAddr :: "address \<Rightarrow> bytes"
  encCaps :: "bytes \<Rightarrow> bytes"
  edVerify :: "bytes \<Rightarrow> bytes \<Rightarrow> bytes \<Rightarrow> bool"
  serOneByte :: nat
  serSmallType :: nat
  serUInt16 :: nat
  serUInt32 :: nat
  serUInt256 :: nat
  maxUint256 :: int

primrec addrType :: "address \<Rightarrow> u8" where
  "addrType (Ed25519Address a) = 0"
| "addrType (AccountAddress a) = 8"
| "addrType (NFTAddress a) = 16"
| "addrType (AnchorAddress a) = 24"
| "addrType (ImplicitAccountCreationAddress a) = 32"
| "addrType (MultiAddress as t) = 40"
| "addrType (MultiAddressReference i) = 40"
| "addrType (RestrictedAddress a c) = 48"

fun addrID :: "'a ledger_deps_scheme \<Rightarrow> address \<Rightarrow> bytes" where
  "addrID D (MultiAddress as t) = 40 # sum256 D (encAddr D (MultiAddress as t))"
| "addrID D (MultiAddressReference i) = i"
| "addrID D (RestrictedAddress a c) = 48 # addrID D a @ encCaps D c"
| "addrID D a = encAddr D a"

text \<open>The key of an address in a Go map is its ID as a string.\<close>

definition addrKey :: "'a ledger_deps_scheme \<Rightarrow> address \<Rightarrow> bytes" where
  "addrKey D a = addrID D a"

text \<open>@\<open>MultiAddress.Equal\<close> compares the members by ID and weight, in order.\<close>

fun multiMembersEqual ::
    "'a ledger_deps_scheme \<Rightarrow> (address \<times> u8) list \<Rightarrow> (address \<times> u8) list \<Rightarrow> bool" where
  "multiMembersEqual D [] _ = True"
| "multiMembersEqual D ((a, w) # as) ((b, v) # bs) =
    (if addrID D a \<noteq> addrID D b then False else if w \<noteq> v then False else multiMembersEqual D as bs)"
| "multiMembersEqual D (_ # _) [] = False"

fun addrEqual :: "'a ledger_deps_scheme \<Rightarrow> address \<Rightarrow> address \<Rightarrow> bool" where
  "addrEqual D (Ed25519Address a) (Ed25519Address b) = (a = b)"
| "addrEqual D (AccountAddress a) (AccountAddress b) = (a = b)"
| "addrEqual D (NFTAddress a) (NFTAddress b) = (a = b)"
| "addrEqual D (AnchorAddress a) (AnchorAddress b) = (a = b)"
| "addrEqual D (ImplicitAccountCreationAddress a) (ImplicitAccountCreationAddress b) = (a = b)"
| "addrEqual D (MultiAddress as t) (MultiAddress bs u) =
    (length as = length bs \<and> t = u \<and> multiMembersEqual D as bs)"
| "addrEqual D (MultiAddressReference i) (MultiAddressReference j) = (i = j)"
| "addrEqual D (RestrictedAddress a c) (RestrictedAddress b d) = (addrEqual D a b \<and> c = d)"
| "addrEqual D _ _ = False"

text \<open>@\<open>Clone\<close> of every address.  The one of a multi address allocates an empty slice with the needed
  capacity and then assigns by index, which panics for the first member.\<close>

fun cloneAddr :: "address \<Rightarrow> address go" where
  "cloneAddr (MultiAddress as t) =
    (case as of [] \<Rightarrow> Inr (MultiAddress [] t) | (a, w) # _ \<Rightarrow>
       andthen (cloneAddr a) (\<lambda>_. Inl (Panic ''index out of range'')))"
| "cloneAddr (RestrictedAddress a c) = andthen (cloneAddr a) (\<lambda>b. Inr (RestrictedAddress b c))"
| "cloneAddr a = Inr a"

fun addrSize :: "'a ledger_deps_scheme \<Rightarrow> address \<Rightarrow> nat go" where
  "addrSize D (MultiAddress as t) =
    foldG (\<lambda>s (a, w). andthen (addrSize D a) (\<lambda>n. Inr (s + (n + serOneByte D))))
      (serSmallType D + serSmallType D + serUInt16 D) as"
| "addrSize D (MultiAddressReference i) = Inl (Panic ''not used'')"
| "addrSize D (RestrictedAddress a c) =
    andthen (addrSize D a) (\<lambda>n. Inr (serSmallType D + n + (serSmallType D + length c)))"
| "addrSize D a = Inr (serSmallType D + 32)"

definition isChainAddress :: "address \<Rightarrow> bool" where
  "isChainAddress a =
    (case a of AccountAddress _ \<Rightarrow> True | NFTAddress _ \<Rightarrow> True | AnchorAddress _ \<Rightarrow> True | _ \<Rightarrow> False)"

definition isDirectUnlockable :: "address \<Rightarrow> bool" where
  "isDirectUnlockable a =
    (case a of Ed25519Address _ \<Rightarrow> True | ImplicitAccountCreationAddress _ \<Rightarrow> True | _ \<Rightarrow> False)"

text \<open>Addresses with capabilities: the answers of a restricted address and of an implicit account
  creation address; None for an address that is not an @\<open>AddressCapabilities\<close>.\<close>

definition cannotReceive :: "address \<Rightarrow> capability \<Rightarrow> bool option" where
  "cannotReceive a c =
    (case a of
       RestrictedAddress _ bm \<Rightarrow> Some (maskCannotReceive bm c)
     | ImplicitAccountCreationAddress _ \<Rightarrow>
         Some (case c of CapNativeTokens \<Rightarrow> False | CapMana \<Rightarrow> False | _ \<Rightarrow> True)
     | _ \<Rightarrow> None)"

definition MultiAddressReferenceFromBytes :: "bytes \<Rightarrow> (bytes \<times> nat) go" where
  "MultiAddressReferenceFromBytes b =
    (if length b < 33 then throw (Errorf ''invalid multi address ID length'')
     else if b ! 0 \<noteq> 40 then throw (Sentinel ''ErrInvalidAddressType'')
     else Inr (take 33 b, 33))"

definition NewMultiAddressReferenceFromMultiAddress ::
    "'a ledger_deps_scheme \<Rightarrow> (address \<times> u8) list \<Rightarrow> u16 \<Rightarrow> address" where
  "NewMultiAddressReferenceFromMultiAddress D as t =
     MultiAddressReference (addrID D (MultiAddress as t))"

section \<open>Signatures\<close>

record ed25519_signature =
  sigPublicKey :: bytes
  sigSignature :: bytes

definition Ed25519AddressFromPubKey :: "'a deps_scheme \<Rightarrow> bytes \<Rightarrow> address" where
  "Ed25519AddressFromPubKey D pubKey = Ed25519Address (sum256 D pubKey)"

definition ImplicitAccountCreationAddressFromPubKey :: "'a deps_scheme \<Rightarrow> bytes \<Rightarrow> address" where
  "ImplicitAccountCreationAddressFromPubKey D pubKey = ImplicitAccountCreationAddress (sum256 D pubKey)"

definition MatchesAddress :: "'a ledger_deps_scheme \<Rightarrow> ed25519_signature \<Rightarrow> address \<Rightarrow> bool" where
  "MatchesAddress D e a =
    (case a of
       Ed25519Address _ \<Rightarrow> addrEqual D a (Ed25519AddressFromPubKey D (sigPublicKey e))
     | ImplicitAccountCreationAddress _ \<Rightarrow>
         addrEqual D a (ImplicitAccountCreationAddressFromPubKey D (sigPublicKey e))
     | _ \<Rightarrow> False)"

definition SignerUID :: "'a deps_scheme \<Rightarrow> ed25519_signature \<Rightarrow> bytes" where
  "SignerUID D e = sum256 D (sigPublicKey e)"

text \<open>@\<open>Valid\<close> takes the 32 bytes of the address.\<close>

definition sigValid :: "'a ledger_deps_scheme \<Rightarrow> ed25519_signature \<Rightarrow> bytes \<Rightarrow> bytes \<Rightarrow> unit go" where
  "sigValid D e msg a =
    (let addrFromPubKey = Ed25519AddressFromPubKey D (sigPublicKey e)
     in if \<not> addrEqual D (Ed25519Address a) addrFromPubKey
        then throw (Wrap (Sentinel ''ErrEd25519PubKeyAndAddrMismatch'')
                      ''address %s, address from public key %v'')
        else if \<not> edVerify D (sigPublicKey e) msg (sigSignature e)
        then throw (Wrap (Sentinel ''ErrEd25519SignatureInvalid'')
                      ''address %s, public key %v, signature %v'')
        else Inr ())"

text \<open>@\<open>Unlock\<close> of a direct unlockable address; the only signature type is Ed25519.\<close>

definition addrUnlock :: "'a ledger_deps_scheme \<Rightarrow> address \<Rightarrow> bytes \<Rightarrow> ed25519_signature \<Rightarrow> unit go" where
  "addrUnlock D a msg sig =
    (case a of
       Ed25519Address b \<Rightarrow> sigValid D sig msg b
     | ImplicitAccountCreationAddress b \<Rightarrow> sigValid D sig msg b
     | _ \<Rightarrow> Inl (Panic ''not a DirectUnlockableAddress''))"

section \<open>Output and chain identifiers\<close>

text \<open>A transaction ID has 32 bytes of hash and 4 of slot, an output ID two more bytes of index, all
  little endian.\<close>

definition le16 :: "u16 \<Rightarrow> bytes" where
  "le16 w = [ucast w, ucast (drop_bit 8 w)]"

definition le32 :: "u32 \<Rightarrow> bytes" where
  "le32 w = [ucast w, ucast (drop_bit 8 w), ucast (drop_bit 16 w), ucast (drop_bit 24 w)]"

definition fromLE16 :: "bytes \<Rightarrow> u16" where
  "fromLE16 b = ucast (b ! 0) OR push_bit 8 (ucast (b ! 1))"

definition fromLE32 :: "bytes \<Rightarrow> u32" where
  "fromLE32 b = ucast (b ! 0) OR push_bit 8 (ucast (b ! 1)) OR push_bit 16 (ucast (b ! 2))
     OR push_bit 24 (ucast (b ! 3))"

definition OutputIDFromTransactionIDAndIndex :: "bytes \<Rightarrow> u16 \<Rightarrow> bytes" where
  "OutputIDFromTransactionIDAndIndex txID index = take 36 txID @ le16 index"

definition TransactionIDOf :: "bytes \<Rightarrow> bytes" where
  "TransactionIDOf outputID = take 36 outputID"

definition outputIndex :: "bytes \<Rightarrow> u16" where
  "outputIndex outputID = fromLE16 (drop 36 outputID)"

definition CreationSlot :: "bytes \<Rightarrow> u32" where
  "CreationSlot outputID = fromLE32 (drop 32 (TransactionIDOf outputID))"

definition EmptyOutputIDWithCreationSlot :: "u32 \<Rightarrow> bytes" where
  "EmptyOutputIDWithCreationSlot slot = replicate 32 0 @ le32 slot @ [0, 0]"

datatype chain_id =
    AccountIDc bytes
  | AnchorIDc bytes
  | NFTIDc bytes
  | FoundryIDc bytes
  | DelegationIDc bytes

primrec chainBytes :: "chain_id \<Rightarrow> bytes" where
  "chainBytes (AccountIDc b) = b"
| "chainBytes (AnchorIDc b) = b"
| "chainBytes (NFTIDc b) = b"
| "chainBytes (FoundryIDc b) = b"
| "chainBytes (DelegationIDc b) = b"

text \<open>The empty value of a 32 byte identifier; a foundry ID has 38 bytes.\<close>

abbreviation emptyID :: bytes where
  "emptyID \<equiv> replicate 32 0"

definition chainEmpty :: "chain_id \<Rightarrow> bool" where
  "chainEmpty c = (case c of FoundryIDc b \<Rightarrow> b = replicate 38 0 | _ \<Rightarrow> chainBytes c = emptyID)"

definition chainAddressable :: "chain_id \<Rightarrow> bool" where
  "chainAddressable c =
    (case c of FoundryIDc _ \<Rightarrow> False | DelegationIDc _ \<Rightarrow> False | _ \<Rightarrow> True)"

definition chainToAddress :: "chain_id \<Rightarrow> address go" where
  "chainToAddress c =
    (case c of
       AccountIDc b \<Rightarrow> Inr (AccountAddress b)
     | AnchorIDc b \<Rightarrow> Inr (AnchorAddress b)
     | NFTIDc b \<Rightarrow> Inr (NFTAddress b)
     | _ \<Rightarrow> Inl (Panic ''chain ID cannot be converted to an address''))"

text \<open>@\<open>UTXOIDChainID\<close>: the chain IDs that are derived from the output ID; foundry IDs are not.\<close>

definition chainFromOutputID :: "'a deps_scheme \<Rightarrow> chain_id \<Rightarrow> bytes \<Rightarrow> chain_id option" where
  "chainFromOutputID D c outputID =
    (case c of
       AccountIDc _ \<Rightarrow> Some (AccountIDc (sum256 D outputID))
     | AnchorIDc _ \<Rightarrow> Some (AnchorIDc (sum256 D outputID))
     | NFTIDc _ \<Rightarrow> Some (NFTIDc (sum256 D outputID))
     | DelegationIDc _ \<Rightarrow> Some (DelegationIDc (sum256 D outputID))
     | FoundryIDc _ \<Rightarrow> None)"

text \<open>@\<open>ChainID\<close> of a chain address.\<close>

definition addrChainID :: "address \<Rightarrow> chain_id option" where
  "addrChainID a =
    (case a of
       AccountAddress b \<Rightarrow> Some (AccountIDc b)
     | AnchorAddress b \<Rightarrow> Some (AnchorIDc b)
     | NFTAddress b \<Rightarrow> Some (NFTIDc b)
     | _ \<Rightarrow> None)"


text \<open>A foundry ID is the serialized account address, the serial number and the token scheme type.\<close>

definition FoundryIDFromAddressAndSerialNumberAndTokenScheme ::
    "'a ledger_deps_scheme \<Rightarrow> address \<Rightarrow> u32 \<Rightarrow> u8 \<Rightarrow> bytes go" where
  "FoundryIDFromAddressAndSerialNumberAndTokenScheme D a serialNumber tokenScheme =
    (let addrBytes = encAddr D a
     in if 34 < length addrBytes then Inl (Panic ''slice bounds out of range'')
        else Inr ((take 38 (addrBytes @ le32 serialNumber @ replicate 38 0))[37 := tokenScheme]))"

definition FoundrySerialNumber :: "bytes \<Rightarrow> u32" where
  "FoundrySerialNumber fID = fromLE32 (drop 33 fID)"

section \<open>Lemmas\<close>

lemma length_le [simp]: "length (le16 i) = 2" "length (le32 s) = 4"
  by (simp_all add: le16_def le32_def)

lemma fromLE16_le16 [simp]: "fromLE16 (le16 w @ bs) = w"
proof -
  have "bit (ucast (ucast w :: u8) OR push_bit 8 (ucast (ucast (drop_bit 8 w) :: u8)) :: u16) n = bit w n"
    if "n < 16" for n
    using that by (auto simp: bit_simps not_less)
  then show ?thesis
    by (intro bit_word_eqI) (simp add: fromLE16_def le16_def)
qed

lemma fromLE32_le32 [simp]: "fromLE32 (le32 w @ bs) = w"
proof -
  have "bit (ucast (ucast w :: u8) OR push_bit 8 (ucast (ucast (drop_bit 8 w) :: u8))
      OR push_bit 16 (ucast (ucast (drop_bit 16 w) :: u8))
      OR push_bit 24 (ucast (ucast (drop_bit 24 w) :: u8)) :: u32) n = bit w n"
    if "n < 32" for n
    using that by (cases "n < 8"; cases "n < 16"; cases "n < 24") (auto simp: bit_simps)
  then show ?thesis
    by (intro bit_word_eqI) (simp add: fromLE32_def le32_def)
qed

lemma fromLE_le [simp]: "fromLE16 (le16 i) = i" "fromLE32 (le32 s) = s"
  using fromLE16_le16 [of i "[]"] fromLE32_le32 [of s "[]"] by simp_all

lemma outputIndex_from [simp]:
  "length tx = 36 \<Longrightarrow> outputIndex (OutputIDFromTransactionIDAndIndex tx i) = i"
  by (simp add: outputIndex_def OutputIDFromTransactionIDAndIndex_def)

lemma TransactionIDOf_from [simp]:
  "length tx = 36 \<Longrightarrow> TransactionIDOf (OutputIDFromTransactionIDAndIndex tx i) = tx"
  by (simp add: TransactionIDOf_def OutputIDFromTransactionIDAndIndex_def)

lemma CreationSlot_empty [simp]: "CreationSlot (EmptyOutputIDWithCreationSlot s) = s"
  by (simp add: CreationSlot_def EmptyOutputIDWithCreationSlot_def TransactionIDOf_def)

lemma OutputID_inject:
  "length tx = 36 \<Longrightarrow> length tx' = 36 \<Longrightarrow>
    OutputIDFromTransactionIDAndIndex tx i = OutputIDFromTransactionIDAndIndex tx' j \<longleftrightarrow> tx = tx' \<and> i = j"
  by (metis outputIndex_from TransactionIDOf_from)

lemma serial_of_foundryID:
  assumes "FoundryIDFromAddressAndSerialNumberAndTokenScheme D a n ts = Inr f" "length (encAddr D a) = 33"
  shows "FoundrySerialNumber f = n \<and> length f = 38"
proof -
  have "drop 33 f = (le32 n @ [0])[4 := ts]" and "length f = 38"
    using assms by (auto simp: FoundryIDFromAddressAndSerialNumberAndTokenScheme_def Let_def drop_update_swap
        take_append split: if_splits)
  then show ?thesis by (simp add: FoundrySerialNumber_def list_update_append)
qed

text \<open>Equality of addresses.\<close>

lemma multiMembersEqual_refl [simp]: "multiMembersEqual D as as"
  by (induction as) auto

lemma addrEqual_refl [simp]: "addrEqual D a a"
  by (induction a) auto

lemma multiMembersEqual_iff:
  "length as = length bs \<Longrightarrow> multiMembersEqual D as bs \<longleftrightarrow>
    map (\<lambda>(a, w). (addrID D a, w)) as = map (\<lambda>(a, w). (addrID D a, w)) bs"
  by (induction D as bs rule: multiMembersEqual.induct) auto

text \<open>A clone of an address equals it, but the clone of a multi address with a member panics.\<close>

fun clonable :: "address \<Rightarrow> bool" where
  "clonable (MultiAddress as t) = (as = [])"
| "clonable (RestrictedAddress a c) = clonable a"
| "clonable a = True"

lemma cloneAddr_ok: "clonable a \<Longrightarrow> cloneAddr a = Inr a"
  by (induction a rule: clonable.induct) auto

lemma cloneAddr_panics: "\<not> clonable a \<Longrightarrow> is_panic (cloneAddr a)"
proof (induction a)
  case (MultiAddress as t)
  then obtain b w bs where "as = (b, w) # bs" by (cases as) auto
  moreover have "is_panic (andthen (cloneAddr b) (\<lambda>_. Inl (Panic p) :: address go))" for p
  proof (cases "clonable b")
    case False
    then have "is_panic (cloneAddr b)"
      using MultiAddress(1) [of "(b, w)" b] \<open>as = _\<close> by auto
    then show ?thesis by (auto simp: is_panic_def andthen_def split: sum.splits fault.splits)
  qed (simp add: cloneAddr_ok)
  ultimately show ?case by simp
next
  case (RestrictedAddress a c)
  then show ?case by (auto simp: is_panic_def andthen_def split: sum.splits fault.splits)
qed auto

text \<open>Cloning gives back every address without a multi address that has members, and panics on every
  address with one.\<close>

theorem clone_of_address:
  "if clonable a then cloneAddr a = Inr a else is_panic (cloneAddr a)"
  by (simp add: cloneAddr_ok cloneAddr_panics)

section \<open>A closed instance\<close>

text \<open>For evaluation: addresses are written as their type and bytes, and a signature is accepted when it
  repeats the public key and the message.\<close>

fun ref_encAddr :: "address \<Rightarrow> bytes" where
  "ref_encAddr (MultiAddress as t) =
    40 # word_of_nat (length as) # concat (map (\<lambda>(a, w). ref_encAddr a @ [w]) as) @ le16 t"
| "ref_encAddr (MultiAddressReference i) = i"
| "ref_encAddr (RestrictedAddress a c) = 48 # ref_encAddr a @ word_of_nat (length c) # c"
| "ref_encAddr (Ed25519Address a) = 0 # a"
| "ref_encAddr (AccountAddress a) = 8 # a"
| "ref_encAddr (NFTAddress a) = 16 # a"
| "ref_encAddr (AnchorAddress a) = 24 # a"
| "ref_encAddr (ImplicitAccountCreationAddress a) = 32 # a"

definition ref_ledger :: ledger_deps where
  "ref_ledger = deps.extend ref_deps
     \<lparr>encAddr = ref_encAddr, encCaps = (\<lambda>c. word_of_nat (length c) # c),
      edVerify = (\<lambda>pk msg s. s = pk @ msg),
      serOneByte = 1, serSmallType = 1, serUInt16 = 2, serUInt32 = 4, serUInt256 = 32,
      maxUint256 = 2 ^ 256 - 1\<rparr>"

lemma ref_ledger_sel [simp]:
  "SafeAdd64 ref_ledger = ref_add" "SafeSub64 ref_ledger = ref_sub" "SafeMul64 ref_ledger = ref_mul"
  "SafeAdd32 ref_ledger = ref_add" "SafeSub32 ref_ledger = ref_sub" "SafeMul32 ref_ledger = ref_mul"
  "sum256 ref_ledger = ref_sum256" "encAddr ref_ledger = ref_encAddr"
  "encCaps ref_ledger = (\<lambda>c. word_of_nat (length c) # c)" "edVerify ref_ledger = (\<lambda>pk msg s. s = pk @ msg)"
  "maxUint256 ref_ledger = 2 ^ 256 - 1"
  "serOneByte ref_ledger = 1" "serSmallType ref_ledger = 1" "serUInt16 ref_ledger = 2"
  "serUInt32 ref_ledger = 4" "serUInt256 ref_ledger = 32"
  by (simp_all add: ref_ledger_def deps.defs ref_deps_def)

lemma ref_ledger_safemath [simp]: "safemath64 ref_ledger" "safemath32 ref_ledger"
  by (simp_all add: refa.checked_arith_axioms)

end
