(* ===== verification/Typed_Slices.thy ===== *)
theory Typed_Slices
  imports Go_Prelude
begin

text \<open>
  The generic slices of typed building blocks: unlock_cond.go and feat.go carry the same operations
  @\<open>Set\<close>, @\<open>MustSet\<close>, @\<open>Upsert\<close> and @\<open>Remove\<close>, here once with the type function and the error as
  arguments.  The locale states what the users of such a set rely on.
\<close>

type_synonym ('t, 'x) typed_set = "'t \<Rightarrow> 'x option"

definition sliceSet :: "('x \<Rightarrow> 't) \<Rightarrow> go_error \<Rightarrow> 'x list \<Rightarrow> ('t, 'x) typed_set go" where
  "sliceSet ty err f =
    foldG (\<lambda>m block. case m (ty block) of Some _ \<Rightarrow> throw err | None \<Rightarrow> Inr (m(ty block \<mapsto> block)))
      Map.empty f"

definition sliceMustSet :: "('x \<Rightarrow> 't) \<Rightarrow> go_error \<Rightarrow> 'x list \<Rightarrow> ('t, 'x) typed_set go" where
  "sliceMustSet ty err f = mustE (sliceSet ty err f)"

primrec sliceUpsert :: "('x \<Rightarrow> 't) \<Rightarrow> 'x list \<Rightarrow> 'x \<Rightarrow> 'x list" where
  "sliceUpsert ty [] x = [x]"
| "sliceUpsert ty (e # f) x = (if ty e = ty x then x # f else e # sliceUpsert ty f x)"

primrec sliceRemove :: "('x \<Rightarrow> 't) \<Rightarrow> 'x list \<Rightarrow> 't \<Rightarrow> 'x list \<times> bool" where
  "sliceRemove ty [] t = ([], False)"
| "sliceRemove ty (e # f) t =
    (if ty e = t then (f, True) else case sliceRemove ty f t of (f', b) \<Rightarrow> (e # f', b))"

definition lookupBy :: "('x \<Rightarrow> 't) \<Rightarrow> 'x list \<Rightarrow> ('t, 'x) typed_set" where
  "lookupBy ty f = map_of (map (\<lambda>x. (ty x, x)) f)"

lemma lookupBy_simps [simp]:
  "lookupBy ty [] = Map.empty" "lookupBy ty (x # xs) = (lookupBy ty xs)(ty x \<mapsto> x)"
  by (simp_all add: lookupBy_def)

lemma lookupBy_SomeD: "lookupBy ty f t = Some x \<Longrightarrow> x \<in> set f \<and> ty x = t"
  by (induction f) (auto split: if_splits)

lemma lookupBy_None: "lookupBy ty f t = None \<longleftrightarrow> t \<notin> ty ` set f"
  by (induction f) auto

lemma lookupBy_add:
  assumes "ty x \<notin> ty ` set f"
  shows "m(ty x \<mapsto> x) ++ lookupBy ty f = m ++ lookupBy ty (x # f)"
proof -
  have "lookupBy ty f (ty x) = None" using assms by (simp add: lookupBy_None)
  then have "ty x \<notin> dom (lookupBy ty f)" by auto
  then show ?thesis by (simp add: map_add_upd_left)
qed

lemma sliceSet_aux:
  "foldG (\<lambda>m block. case m (ty block) of Some _ \<Rightarrow> throw err | None \<Rightarrow> Inr (m(ty block \<mapsto> block))) m f
    = (if distinct (map ty f) \<and> dom m \<inter> ty ` set f = {} then Inr (m ++ lookupBy ty f) else throw err)"
proof (induction f arbitrary: m)
  case (Cons x f)
  show ?case
  proof (cases "m (ty x)")
    case None
    then have c: "distinct (map ty (x # f)) \<and> dom m \<inter> ty ` set (x # f) = {}
        \<longleftrightarrow> distinct (map ty f) \<and> dom (m(ty x \<mapsto> x)) \<inter> ty ` set f = {}"
      by auto
    show ?thesis
    proof (cases "ty x \<in> ty ` set f")
      case True
      with c None Cons show ?thesis by auto
    next
      case False
      with c None Cons lookupBy_add [OF False] show ?thesis by (simp only: foldG.simps option.case andthen_Inr)
    qed
  next
    case (Some y)
    then have "ty x \<in> dom m \<inter> ty ` set (x # f)" by auto
    then have "\<not> dom m \<inter> ty ` set (x # f) = {}" by blast
    with Some show ?thesis by (simp add: throw_def)
  qed
qed simp

lemma sliceSet_eq:
  "sliceSet ty err f = (if distinct (map ty f) then Inr (lookupBy ty f) else throw err)"
  by (simp add: sliceSet_def sliceSet_aux)

lemma sliceMustSet_eq:
  "sliceMustSet ty err f = (if distinct (map ty f) then Inr (lookupBy ty f) else Inl (Panic ''must''))"
  by (simp add: sliceMustSet_def sliceSet_eq throw_def)

lemma lookupBy_Upsert:
  "lookupBy ty (sliceUpsert ty f x) = (lookupBy ty f)(ty x \<mapsto> x)"
  by (induction f) (auto simp: fun_upd_twist)

lemma types_Upsert: "ty ` set (sliceUpsert ty f x) = insert (ty x) (ty ` set f)"
  by (induction f) auto

lemma distinct_Upsert: "distinct (map ty f) \<Longrightarrow> distinct (map ty (sliceUpsert ty f x))"
proof (induction f)
  case (Cons e f)
  then show ?case using types_Upsert [of ty f x] by auto
qed simp

lemma sliceRemove_Cons:
  "fst (sliceRemove ty (e # f) t) = (if ty e = t then f else e # fst (sliceRemove ty f t))"
  by (simp split: prod.split)

lemma types_Remove: "ty ` set (fst (sliceRemove ty f t)) \<subseteq> ty ` set f"
proof (induction f)
  case (Cons e f)
  then show ?case by (auto simp: sliceRemove_Cons simp del: sliceRemove.simps)
qed simp

lemma distinct_Remove: "distinct (map ty f) \<Longrightarrow> distinct (map ty (fst (sliceRemove ty f t)))"
proof (induction f)
  case (Cons e f)
  then show ?case using types_Remove [of ty f t]
    by (auto simp: sliceRemove_Cons simp del: sliceRemove.simps)
qed simp

lemma lookupBy_Remove:
  "distinct (map ty f) \<Longrightarrow> lookupBy ty (fst (sliceRemove ty f t)) = (lookupBy ty f)(t := None)"
proof (induction f)
  case (Cons e f)
  show ?case
  proof (cases "ty e = t")
    case True
    then have "lookupBy ty f t = None" using Cons.prems by (auto simp: lookupBy_None)
    with True show ?thesis by (auto simp: sliceRemove_Cons fun_eq_iff simp del: sliceRemove.simps)
  next
    case False
    with Cons show ?thesis by (auto simp: sliceRemove_Cons fun_eq_iff simp del: sliceRemove.simps)
  qed
qed simp

lemma sliceRemove_found: "snd (sliceRemove ty f t) \<longleftrightarrow> t \<in> ty ` set f"
  by (induction f) (auto split: prod.splits)

section \<open>The contract\<close>

locale typed_slice =
  fixes ty :: "'x \<Rightarrow> 't" and toSet :: "'x list \<Rightarrow> ('t, 'x) typed_set go"
    and upsert :: "'x list \<Rightarrow> 'x \<Rightarrow> 'x list" and remove :: "'x list \<Rightarrow> 't \<Rightarrow> 'x list \<times> bool"
  assumes set_ok: "distinct (map ty f) \<Longrightarrow> \<exists>m. toSet f = Inr m \<and> (\<forall>t x. m t = Some x \<longleftrightarrow> x \<in> set f \<and> ty x = t)"
    and set_err: "\<not> distinct (map ty f) \<Longrightarrow> \<not> ok (toSet f)"
    and upsert_law: "toSet f = Inr m \<Longrightarrow> toSet (upsert f x) = Inr (m(ty x \<mapsto> x))"
    and remove_law: "toSet f = Inr m \<Longrightarrow> toSet (fst (remove f t)) = Inr (m(t := None))"
begin

lemma set_defined: "ok (toSet f) \<longleftrightarrow> distinct (map ty f)"
  using set_ok set_err by (metis ok_simps(1))

lemma set_lookup:
  assumes "toSet f = Inr m"
  shows "m t = Some x \<longleftrightarrow> x \<in> set f \<and> ty x = t"
proof -
  have "distinct (map ty f)" using set_defined [of f] assms by simp
  with set_ok [of f] assms show ?thesis by auto
qed

lemma set_typed: "toSet f = Inr m \<Longrightarrow> m t = Some x \<Longrightarrow> ty x = t"
  using set_lookup by blast

lemma set_None:
  assumes "toSet f = Inr m"
  shows "m t = None \<longleftrightarrow> t \<notin> ty ` set f"
proof (cases "m t")
  case None
  with set_lookup [OF assms, of t] show ?thesis by auto
next
  case (Some x)
  with set_lookup [OF assms, of t x] have "x \<in> set f" "ty x = t" by auto
  with Some show ?thesis by auto
qed

lemma upsert_then_remove:
  "toSet f = Inr m \<Longrightarrow> m (ty x) = None \<Longrightarrow> toSet (fst (remove (upsert f x) (ty x))) = Inr m"
  using upsert_law [of f m x] remove_law [of "upsert f x" "m(ty x \<mapsto> x)" "ty x"] by (simp add: fun_upd_idem)

end

lemma slice_contract: "typed_slice ty (sliceSet ty err) (sliceUpsert ty) (sliceRemove ty)"
proof
  fix f :: "'a list"
  have "distinct (map ty f) \<Longrightarrow> lookupBy ty f t = Some x \<longleftrightarrow> x \<in> set f \<and> ty x = t" for t x
    by (auto simp: lookupBy_def distinct_map comp_def intro!: map_of_is_SomeI dest: map_of_SomeD)
  then show "distinct (map ty f) \<Longrightarrow>
      \<exists>m. sliceSet ty err f = Inr m \<and> (\<forall>t x. m t = Some x \<longleftrightarrow> x \<in> set f \<and> ty x = t)"
    by (simp add: sliceSet_eq)
  show "\<not> distinct (map ty f) \<Longrightarrow> \<not> ok (sliceSet ty err f)"
    by (simp add: sliceSet_eq)
qed (auto simp: sliceSet_eq lookupBy_Upsert lookupBy_Remove distinct_Upsert distinct_Remove split: if_splits)

end
