(* ===== verification/Unlock_Conditions.thy ===== *)
theory Unlock_Conditions
  imports Addresses Typed_Slices
begin

text \<open>
  Unlock conditions of outputs: unlock_cond*.go.  A condition set is a map from the condition type; it
  exists only for slices whose types are pairwise distinct.
\<close>

datatype unlock_condition =
    AddressUC address
  | StorageDepositReturnUC address u64
  | TimelockUC u32
  | ExpirationUC address u32
  | StateControllerAddressUC address
  | GovernorAddressUC address
  | ImmutableAccountUC bytes

primrec ucType :: "unlock_condition \<Rightarrow> u8" where
  "ucType (AddressUC a) = 0"
| "ucType (StorageDepositReturnUC a n) = 1"
| "ucType (TimelockUC s) = 2"
| "ucType (ExpirationUC a s) = 3"
| "ucType (StateControllerAddressUC a) = 4"
| "ucType (GovernorAddressUC a) = 5"
| "ucType (ImmutableAccountUC a) = 6"

type_synonym uc_set = "u8 \<Rightarrow> unlock_condition option"

definition ucEqual :: "'a ledger_deps_scheme \<Rightarrow> unlock_condition \<Rightarrow> unlock_condition \<Rightarrow> bool" where
  "ucEqual D s other =
    (case (s, other) of
       (AddressUC a, AddressUC b) \<Rightarrow> addrEqual D a b
     | (StorageDepositReturnUC a n, StorageDepositReturnUC b m) \<Rightarrow>
         (if \<not> addrEqual D a b then False else if n \<noteq> m then False else True)
     | (TimelockUC n, TimelockUC m) \<Rightarrow> (if n \<noteq> m then False else True)
     | (ExpirationUC a n, ExpirationUC b m) \<Rightarrow>
         (if \<not> addrEqual D a b then False else if n \<noteq> m then False else True)
     | (StateControllerAddressUC a, StateControllerAddressUC b) \<Rightarrow> addrEqual D a b
     | (GovernorAddressUC a, GovernorAddressUC b) \<Rightarrow> addrEqual D a b
     | (ImmutableAccountUC a, ImmutableAccountUC b) \<Rightarrow> addrEqual D (AccountAddress a) (AccountAddress b)
     | _ \<Rightarrow> False)"

text \<open>Slices compare element by element.\<close>

fun sliceEqual :: "('x \<Rightarrow> 'x \<Rightarrow> bool) \<Rightarrow> 'x list \<Rightarrow> 'x list \<Rightarrow> bool" where
  "sliceEqual eq [] [] = True"
| "sliceEqual eq (x # f) (y # g) = (eq x y \<and> sliceEqual eq f g)"
| "sliceEqual eq _ _ = False"

definition ucsEqual ::
    "'a ledger_deps_scheme \<Rightarrow> unlock_condition list \<Rightarrow> unlock_condition list \<Rightarrow> bool" where
  "ucsEqual D f other = sliceEqual (ucEqual D) f other"

definition ucsSet :: "unlock_condition list \<Rightarrow> uc_set go" where
  "ucsSet f = sliceSet ucType (Sentinel ''ErrNonUniqueUnlockConditions'') f"

definition ucsMustSet :: "unlock_condition list \<Rightarrow> uc_set go" where
  "ucsMustSet f = sliceMustSet ucType (Sentinel ''ErrNonUniqueUnlockConditions'') f"

definition ucsUpsert :: "unlock_condition list \<Rightarrow> unlock_condition \<Rightarrow> unlock_condition list" where
  "ucsUpsert f unlockCondition = sliceUpsert ucType f unlockCondition"

definition ucsRemove :: "unlock_condition list \<Rightarrow> u8 \<Rightarrow> unlock_condition list \<times> bool" where
  "ucsRemove f unlockConditionType = sliceRemove ucType f unlockConditionType"

text \<open>The accessors of a set.  The type assertions of the code cannot fail on the sets built above,
  whose entries have the type of their key.\<close>

definition ucStorageDepositReturn :: "uc_set \<Rightarrow> (address \<times> u64) option" where
  "ucStorageDepositReturn f = (case f 1 of Some (StorageDepositReturnUC a n) \<Rightarrow> Some (a, n) | _ \<Rightarrow> None)"

definition ucAddress :: "uc_set \<Rightarrow> address option" where
  "ucAddress f = (case f 0 of Some (AddressUC a) \<Rightarrow> Some a | _ \<Rightarrow> None)"

definition ucImmutableAccount :: "uc_set \<Rightarrow> bytes option" where
  "ucImmutableAccount f = (case f 6 of Some (ImmutableAccountUC a) \<Rightarrow> Some a | _ \<Rightarrow> None)"

definition ucGovernorAddress :: "uc_set \<Rightarrow> address option" where
  "ucGovernorAddress f = (case f 5 of Some (GovernorAddressUC a) \<Rightarrow> Some a | _ \<Rightarrow> None)"

definition ucStateControllerAddress :: "uc_set \<Rightarrow> address option" where
  "ucStateControllerAddress f = (case f 4 of Some (StateControllerAddressUC a) \<Rightarrow> Some a | _ \<Rightarrow> None)"

definition ucTimelock :: "uc_set \<Rightarrow> u32 option" where
  "ucTimelock f = (case f 2 of Some (TimelockUC s) \<Rightarrow> Some s | _ \<Rightarrow> None)"

definition ucExpiration :: "uc_set \<Rightarrow> (address \<times> u32) option" where
  "ucExpiration f = (case f 3 of Some (ExpirationUC a s) \<Rightarrow> Some (a, s) | _ \<Rightarrow> None)"

definition HasStorageDepositReturnCondition :: "uc_set \<Rightarrow> bool" where
  "HasStorageDepositReturnCondition f = (ucStorageDepositReturn f \<noteq> None)"

definition HasExpirationCondition :: "uc_set \<Rightarrow> bool" where
  "HasExpirationCondition f = (ucExpiration f \<noteq> None)"

definition HasTimelockCondition :: "uc_set \<Rightarrow> bool" where
  "HasTimelockCondition f = (ucTimelock f \<noteq> None)"

definition OwnerAddressCanUnlock :: "uc_set \<Rightarrow> u32 \<Rightarrow> bool" where
  "OwnerAddressCanUnlock f pastBoundedSlot =
    (case ucExpiration f of
       None \<Rightarrow> True
     | Some (_, slot) \<Rightarrow> if pastBoundedSlot < slot then True else False)"

definition ReturnAddressCanUnlock :: "uc_set \<Rightarrow> u32 \<Rightarrow> bool \<times> address option" where
  "ReturnAddressCanUnlock f futureBoundedSlotIndex =
    (case ucExpiration f of
       None \<Rightarrow> (False, None)
     | Some (returnAddress, slot) \<Rightarrow>
         if slot \<le> futureBoundedSlotIndex then (True, Some returnAddress) else (False, None))"

definition CheckExpirationCondition :: "uc_set \<Rightarrow> u32 \<Rightarrow> u32 \<Rightarrow> address option go" where
  "CheckExpirationCondition f futureBoundedSlotIndex pastBoundedSlotIndex =
    (if HasExpirationCondition f then
       (case ReturnAddressCanUnlock f futureBoundedSlotIndex of
          (True, returnAddr) \<Rightarrow> Inr returnAddr
        | (False, _) \<Rightarrow>
            if \<not> OwnerAddressCanUnlock f pastBoundedSlotIndex
            then throw (Sentinel ''ErrExpirationNotUnlockable'')
            else Inr None)
     else Inr None)"

definition TimelocksExpired :: "uc_set \<Rightarrow> u32 \<Rightarrow> unit go" where
  "TimelocksExpired f futureBoundedSlot =
    (case ucTimelock f of
       None \<Rightarrow> Inr ()
     | Some slot \<Rightarrow>
         if futureBoundedSlot < slot
         then throw (Wrap (Sentinel ''ErrTimelockNotExpired'')
                ''timelock expires in slot %d but the future bounded slot is only %d'')
         else Inr ())"

definition HasTimelockUntil :: "uc_set \<Rightarrow> u32 \<Rightarrow> bool" where
  "HasTimelockUntil f slot = (case ucTimelock f of None \<Rightarrow> False | Some s \<Rightarrow> slot < s)"

definition HasManalockCondition :: "'a ledger_deps_scheme \<Rightarrow> uc_set \<Rightarrow> bytes \<Rightarrow> u32 \<Rightarrow> bool" where
  "HasManalockCondition D f accountID slot =
    (if \<not> HasTimelockUntil f slot then False
     else case ucAddress f of
       None \<Rightarrow> False
     | Some unlockAddress \<Rightarrow>
         if addrType unlockAddress \<noteq> 8 then False
         else if \<not> addrEqual D unlockAddress (AccountAddress accountID) then False
         else True)"

text \<open>The return address is present whenever it can unlock; a nil address would make @\<open>Equal\<close> false.\<close>

definition unlockableBy :: "'a ledger_deps_scheme \<Rightarrow> uc_set \<Rightarrow> address \<Rightarrow> address \<Rightarrow> u32 \<Rightarrow> u32 \<Rightarrow> bool" where
  "unlockableBy D f a owner pastBoundedSlot futureBoundedSlot =
    (if \<not> ok (TimelocksExpired f futureBoundedSlot) then False
     else case ReturnAddressCanUnlock f futureBoundedSlot of
       (True, returnAddr) \<Rightarrow> (case returnAddr of Some r \<Rightarrow> addrEqual D a r | None \<Rightarrow> False)
     | (False, _) \<Rightarrow>
         if OwnerAddressCanUnlock f pastBoundedSlot then addrEqual D a owner else False)"

section \<open>Lemmas\<close>

interpretation ucs: typed_slice ucType ucsSet ucsUpsert ucsRemove
  unfolding ucsSet_def [abs_def] ucsUpsert_def [abs_def] ucsRemove_def [abs_def]
  by (rule slice_contract)

lemma ucsMustSet_eq:
  "ucsMustSet f = (if distinct (map ucType f) then Inr (lookupBy ucType f) else Inl (Panic ''must''))"
  by (simp add: ucsMustSet_def sliceMustSet_eq)

lemma ucsMustSet_Inr: "ucsMustSet f = Inr m \<longleftrightarrow> ucsSet f = Inr m"
  by (simp add: ucsMustSet_def ucsSet_def sliceMustSet_def)

lemma ucType_eq_iff [simp]:
  "ucType c = 0 \<longleftrightarrow> (\<exists>a. c = AddressUC a)"
  "ucType c = 1 \<longleftrightarrow> (\<exists>a n. c = StorageDepositReturnUC a n)"
  "ucType c = 2 \<longleftrightarrow> (\<exists>s. c = TimelockUC s)"
  "ucType c = 3 \<longleftrightarrow> (\<exists>a s. c = ExpirationUC a s)"
  "ucType c = 4 \<longleftrightarrow> (\<exists>a. c = StateControllerAddressUC a)"
  "ucType c = 5 \<longleftrightarrow> (\<exists>a. c = GovernorAddressUC a)"
  "ucType c = 6 \<longleftrightarrow> (\<exists>a. c = ImmutableAccountUC a)"
  by (cases c; simp)+

lemma ucAccessors:
  assumes "ucsSet f = Inr m"
  shows "ucAddress m = Some a \<longleftrightarrow> AddressUC a \<in> set f"
    and "ucTimelock m = Some s \<longleftrightarrow> TimelockUC s \<in> set f"
    and "ucExpiration m = Some (b, s') \<longleftrightarrow> ExpirationUC b s' \<in> set f"
    and "ucStorageDepositReturn m = Some (c, n) \<longleftrightarrow> StorageDepositReturnUC c n \<in> set f"
    and "ucGovernorAddress m = Some d \<longleftrightarrow> GovernorAddressUC d \<in> set f"
    and "ucStateControllerAddress m = Some e \<longleftrightarrow> StateControllerAddressUC e \<in> set f"
    and "ucImmutableAccount m = Some i \<longleftrightarrow> ImmutableAccountUC i \<in> set f"
proof -
  note l = ucs.set_lookup [OF assms] and t = ucs.set_typed [OF assms]
  show "ucAddress m = Some a \<longleftrightarrow> AddressUC a \<in> set f"
    using l [of 0 "AddressUC a"] t [of 0] by (auto simp: ucAddress_def split: option.splits unlock_condition.splits)
  show "ucTimelock m = Some s \<longleftrightarrow> TimelockUC s \<in> set f"
    using l [of 2 "TimelockUC s"] t [of 2] by (auto simp: ucTimelock_def split: option.splits unlock_condition.splits)
  show "ucExpiration m = Some (b, s') \<longleftrightarrow> ExpirationUC b s' \<in> set f"
    using l [of 3 "ExpirationUC b s'"] t [of 3] by (auto simp: ucExpiration_def split: option.splits unlock_condition.splits)
  show "ucStorageDepositReturn m = Some (c, n) \<longleftrightarrow> StorageDepositReturnUC c n \<in> set f"
    using l [of 1 "StorageDepositReturnUC c n"] t [of 1]
    by (auto simp: ucStorageDepositReturn_def split: option.splits unlock_condition.splits)
  show "ucGovernorAddress m = Some d \<longleftrightarrow> GovernorAddressUC d \<in> set f"
    using l [of 5 "GovernorAddressUC d"] t [of 5]
    by (auto simp: ucGovernorAddress_def split: option.splits unlock_condition.splits)
  show "ucStateControllerAddress m = Some e \<longleftrightarrow> StateControllerAddressUC e \<in> set f"
    using l [of 4 "StateControllerAddressUC e"] t [of 4]
    by (auto simp: ucStateControllerAddress_def split: option.splits unlock_condition.splits)
  show "ucImmutableAccount m = Some i \<longleftrightarrow> ImmutableAccountUC i \<in> set f"
    using l [of 6 "ImmutableAccountUC i"] t [of 6]
    by (auto simp: ucImmutableAccount_def split: option.splits unlock_condition.splits)
qed

lemma TimelocksExpired_ok:
  "TimelocksExpired f slot = Inr () \<longleftrightarrow> (\<forall>s. ucTimelock f = Some s \<longrightarrow> s \<le> slot)"
  by (auto simp: TimelocksExpired_def throw_def split: option.splits)


text \<open>C39: with an expiration condition at most one party is entitled to the output: the return address
  once the future bounded slot is at or after the expiration slot (the comment of
  @\<open>CheckExpirationCondition\<close> in unlock_cond.go says after, the code includes the slot itself), the owner while
  the past bounded slot is before it, and nobody in between.  The entitlement of the return address is never lost later, and the owner
  who is entitled at some time was entitled at every earlier time.\<close>

theorem expiration_entitlement:
  assumes "ucsSet f = Inr m" "ExpirationUC r s \<in> set f" "future \<le> future'" "past \<le> past'"
  shows "CheckExpirationCondition m future past =
      (if s \<le> future then Inr (Some r) else if past < s then Inr None
       else throw (Sentinel ''ErrExpirationNotUnlockable''))
    \<and> (CheckExpirationCondition m future past = Inr (Some r)
       \<longrightarrow> CheckExpirationCondition m future' past' = Inr (Some r))
    \<and> (CheckExpirationCondition m future' past' = Inr None
       \<longrightarrow> CheckExpirationCondition m future past = Inr None)"
proof -
  have e: "ucExpiration m = Some (r, s)" using ucAccessors(3) [OF assms(1)] assms(2) by blast
  have c: "CheckExpirationCondition m u v =
      (if s \<le> u then Inr (Some r) else if v < s then Inr None
       else throw (Sentinel ''ErrExpirationNotUnlockable''))" for u v
    by (simp add: CheckExpirationCondition_def HasExpirationCondition_def ReturnAddressCanUnlock_def
        OwnerAddressCanUnlock_def e)
  show ?thesis
    unfolding c using assms(3,4) by (auto dest: order_trans order_le_less_trans)
qed

theorem expiration_entitlement_witness:
  "CheckExpirationCondition (lookupBy ucType [AddressUC (Ed25519Address [1]), ExpirationUC (Ed25519Address [2]) 10]) 5 9
     = Inr None"
proof -
  let ?f = "[AddressUC (Ed25519Address [1]), ExpirationUC (Ed25519Address [2]) 10]"
  have "ucsSet ?f = Inr (lookupBy ucType ?f)" by (simp add: ucsSet_def sliceSet_eq)
  from expiration_entitlement [OF this, of "Ed25519Address [2]" 10 5 5 9 9] show ?thesis by simp
qed

text \<open>The check the transaction builder uses agrees with the checks the virtual machine runs: an
  address can unlock an output iff the timelock is over and it is the party entitled by the expiration
  check, the owner when that check names nobody else.\<close>

theorem unlockableBy_agrees_with_vm:
  "unlockableBy D m a owner past future
    = (TimelocksExpired m future = Inr ()
       \<and> (case CheckExpirationCondition m future past of
            Inr (Some r) \<Rightarrow> addrEqual D a r
          | Inr None \<Rightarrow> addrEqual D a owner
          | Inl _ \<Rightarrow> False))"
  by (auto simp: unlockableBy_def CheckExpirationCondition_def HasExpirationCondition_def ok_iff
      ReturnAddressCanUnlock_def OwnerAddressCanUnlock_def throw_def split: option.splits prod.splits)

end
