(* ===== verification/Feature_Blocks.thy ===== *)
theory Feature_Blocks
  imports Addresses Typed_Slices
begin

text \<open>
  Features of outputs: feat*.go and block_issuer_key*.go.  A feature set is a map from the feature type.
  The entries of a metadata feature are a Go map, here a list of entries with distinct keys.
\<close>

record block_issuer_feature =
  bif_ExpirySlot :: u32
  bif_BlockIssuerKeys :: "bytes list"

record staking_feature =
  sf_StakedAmount :: u64
  sf_FixedCost :: u64
  sf_StartEpoch :: u32
  sf_EndEpoch :: u32

datatype feature =
    SenderF address
  | IssuerF address
  | MetadataF "(string \<times> bytes) list"
  | StateMetadataF "(string \<times> bytes) list"
  | TagF bytes
  | NativeTokenF bytes int
  | BlockIssuerF block_issuer_feature
  | StakingF staking_feature

primrec featType :: "feature \<Rightarrow> u8" where
  "featType (SenderF a) = 0"
| "featType (IssuerF a) = 1"
| "featType (MetadataF e) = 2"
| "featType (StateMetadataF e) = 3"
| "featType (TagF t) = 4"
| "featType (NativeTokenF i n) = 5"
| "featType (BlockIssuerF b) = 6"
| "featType (StakingF s) = 7"

type_synonym feat_set = "u8 \<Rightarrow> feature option"

text \<open>Metadata entries are equal when there are as many and every entry has the same value in the other.\<close>

definition entriesEqual :: "(string \<times> bytes) list \<Rightarrow> (string \<times> bytes) list \<Rightarrow> bool" where
  "entriesEqual m other =
    (if length m \<noteq> length other then False
     else list_all (\<lambda>(key, value).
            case map_of other key of None \<Rightarrow> False | Some otherValue \<Rightarrow> value = otherValue) m)"

fun keysEqual :: "bytes list \<Rightarrow> bytes list \<Rightarrow> bool" where
  "keysEqual [] _ = True"
| "keysEqual (k # ks) (j # js) = (if k \<noteq> j then False else keysEqual ks js)"
| "keysEqual (_ # _) [] = False"

definition blockIssuerEqual :: "block_issuer_feature \<Rightarrow> block_issuer_feature \<Rightarrow> bool" where
  "blockIssuerEqual s other =
    (if bif_ExpirySlot s \<noteq> bif_ExpirySlot other then False
     else if length (bif_BlockIssuerKeys s) \<noteq> length (bif_BlockIssuerKeys other) then False
     else keysEqual (bif_BlockIssuerKeys s) (bif_BlockIssuerKeys other))"

definition stakingEqual :: "staking_feature \<Rightarrow> staking_feature \<Rightarrow> bool" where
  "stakingEqual s other =
    (sf_StakedAmount s = sf_StakedAmount other \<and> sf_FixedCost s = sf_FixedCost other
     \<and> sf_StartEpoch s = sf_StartEpoch other \<and> sf_EndEpoch s = sf_EndEpoch other)"

definition featEqual :: "'a ledger_deps_scheme \<Rightarrow> feature \<Rightarrow> feature \<Rightarrow> bool" where
  "featEqual D s other =
    (case (s, other) of
       (SenderF a, SenderF b) \<Rightarrow> addrEqual D a b
     | (IssuerF a, IssuerF b) \<Rightarrow> addrEqual D a b
     | (MetadataF m, MetadataF n) \<Rightarrow> entriesEqual m n
     | (StateMetadataF m, StateMetadataF n) \<Rightarrow> entriesEqual m n
     | (TagF t, TagF u) \<Rightarrow> t = u
     | (NativeTokenF i n, NativeTokenF j k) \<Rightarrow> (if i \<noteq> j then False else n = k)
     | (BlockIssuerF b, BlockIssuerF c) \<Rightarrow> blockIssuerEqual b c
     | (StakingF b, StakingF c) \<Rightarrow> stakingEqual b c
     | _ \<Rightarrow> False)"

definition featsSet :: "feature list \<Rightarrow> feat_set go" where
  "featsSet f = sliceSet featType (Sentinel ''ErrNonUniqueFeatures'') f"

definition featsMustSet :: "feature list \<Rightarrow> feat_set go" where
  "featsMustSet f = sliceMustSet featType (Sentinel ''ErrNonUniqueFeatures'') f"

definition featsUpsert :: "feature list \<Rightarrow> feature \<Rightarrow> feature list" where
  "featsUpsert f feature = sliceUpsert featType f feature"

definition featsRemove :: "feature list \<Rightarrow> u8 \<Rightarrow> feature list \<times> bool" where
  "featsRemove f featureType = sliceRemove featType f featureType"

section \<open>Accessors of a feature set\<close>

definition ftSender :: "feat_set \<Rightarrow> address option" where
  "ftSender f = (case f 0 of Some (SenderF a) \<Rightarrow> Some a | _ \<Rightarrow> None)"

definition ftIssuer :: "feat_set \<Rightarrow> address option" where
  "ftIssuer f = (case f 1 of Some (IssuerF a) \<Rightarrow> Some a | _ \<Rightarrow> None)"

definition ftMetadata :: "feat_set \<Rightarrow> (string \<times> bytes) list option" where
  "ftMetadata f = (case f 2 of Some (MetadataF m) \<Rightarrow> Some m | _ \<Rightarrow> None)"

definition ftStateMetadata :: "feat_set \<Rightarrow> (string \<times> bytes) list option" where
  "ftStateMetadata f = (case f 3 of Some (StateMetadataF m) \<Rightarrow> Some m | _ \<Rightarrow> None)"

definition ftTag :: "feat_set \<Rightarrow> bytes option" where
  "ftTag f = (case f 4 of Some (TagF t) \<Rightarrow> Some t | _ \<Rightarrow> None)"

definition HasNativeTokenFeature :: "feat_set \<Rightarrow> bool" where
  "HasNativeTokenFeature f = (f 5 \<noteq> None)"

definition ftNativeToken :: "feat_set \<Rightarrow> (bytes \<times> int) option" where
  "ftNativeToken f = (case f 5 of Some (NativeTokenF i n) \<Rightarrow> Some (i, n) | _ \<Rightarrow> None)"

definition ftBlockIssuer :: "feat_set \<Rightarrow> block_issuer_feature option" where
  "ftBlockIssuer f = (case f 6 of Some (BlockIssuerF b) \<Rightarrow> Some b | _ \<Rightarrow> None)"

definition ftStaking :: "feat_set \<Rightarrow> staking_feature option" where
  "ftStaking f = (case f 7 of Some (StakingF s) \<Rightarrow> Some s | _ \<Rightarrow> None)"

definition FeatureUnchanged :: "'a ledger_deps_scheme \<Rightarrow> u8 \<Rightarrow> feat_set \<Rightarrow> feat_set \<Rightarrow> unit go" where
  "FeatureUnchanged D ft inFeatSet outFeatSet =
    (case (inFeatSet ft, outFeatSet ft) of
       (None, Some _) \<Rightarrow> throw (Wrap (Sentinel ''ErrInvalidFeatureTransition'')
                            ''%s in next state but not in previous'')
     | (Some _, None) \<Rightarrow> throw (Wrap (Sentinel ''ErrInvalidFeatureTransition'')
                            ''%s in current state but not in next'')
     | (None, None) \<Rightarrow> Inr ()
     | (Some i, Some out) \<Rightarrow>
         if \<not> featEqual D i out
         then throw (Wrap (Sentinel ''ErrInvalidFeatureTransition'') ''%s changed, in %v / out %v'')
         else Inr ())"

definition checkPrintableASCIIString :: "string \<Rightarrow> unit go" where
  "checkPrintableASCIIString s =
    allG (\<lambda>c. if of_char c < (33 :: nat) \<or> (126 :: nat) < of_char c
              then throw (Errorf ''string contains non-printable ASCII character %d at index %d (allowed range 33 <= character <= 126)'')
              else Inr ()) s"

section \<open>Lemmas\<close>

interpretation feats: typed_slice featType featsSet featsUpsert featsRemove
  unfolding featsSet_def [abs_def] featsUpsert_def [abs_def] featsRemove_def [abs_def]
  by (rule slice_contract)

lemma featsMustSet_eq:
  "featsMustSet f = (if distinct (map featType f) then Inr (lookupBy featType f) else Inl (Panic ''must''))"
  by (simp add: featsMustSet_def sliceMustSet_eq)

lemma featsMustSet_Inr: "featsMustSet f = Inr m \<longleftrightarrow> featsSet f = Inr m"
  by (simp add: featsMustSet_def featsSet_def sliceMustSet_def)

lemma featType_eq_iff [simp]:
  "featType c = 0 \<longleftrightarrow> (\<exists>a. c = SenderF a)"
  "featType c = 1 \<longleftrightarrow> (\<exists>a. c = IssuerF a)"
  "featType c = 2 \<longleftrightarrow> (\<exists>m. c = MetadataF m)"
  "featType c = 3 \<longleftrightarrow> (\<exists>m. c = StateMetadataF m)"
  "featType c = 4 \<longleftrightarrow> (\<exists>t. c = TagF t)"
  "featType c = 5 \<longleftrightarrow> (\<exists>i n. c = NativeTokenF i n)"
  "featType c = 6 \<longleftrightarrow> (\<exists>b. c = BlockIssuerF b)"
  "featType c = 7 \<longleftrightarrow> (\<exists>s. c = StakingF s)"
  by (cases c; simp)+

lemma ftAccessors:
  assumes "featsSet f = Inr m"
  shows "ftNativeToken m = Some (i, n) \<longleftrightarrow> NativeTokenF i n \<in> set f"
    and "ftBlockIssuer m = Some b \<longleftrightarrow> BlockIssuerF b \<in> set f"
    and "ftStaking m = Some s \<longleftrightarrow> StakingF s \<in> set f"
    and "HasNativeTokenFeature m \<longleftrightarrow> (\<exists>j k. NativeTokenF j k \<in> set f)"
proof -
  note l = feats.set_lookup [OF assms] and t = feats.set_typed [OF assms]
  show "ftNativeToken m = Some (i, n) \<longleftrightarrow> NativeTokenF i n \<in> set f"
    using l [of 5 "NativeTokenF i n"] t [of 5] by (auto simp: ftNativeToken_def split: option.splits feature.splits)
  show "ftBlockIssuer m = Some b \<longleftrightarrow> BlockIssuerF b \<in> set f"
    using l [of 6 "BlockIssuerF b"] t [of 6] by (auto simp: ftBlockIssuer_def split: option.splits feature.splits)
  show "ftStaking m = Some s \<longleftrightarrow> StakingF s \<in> set f"
    using l [of 7 "StakingF s"] t [of 7] by (auto simp: ftStaking_def split: option.splits feature.splits)
  show "HasNativeTokenFeature m \<longleftrightarrow> (\<exists>j k. NativeTokenF j k \<in> set f)"
    using l [of 5] by (auto simp: HasNativeTokenFeature_def)
qed

lemma keysEqual_iff: "length ks = length js \<Longrightarrow> keysEqual ks js \<longleftrightarrow> ks = js"
  by (induction ks js rule: keysEqual.induct) auto

lemma blockIssuerEqual_iff [simp]: "blockIssuerEqual s t \<longleftrightarrow> s = t"
  by (auto simp: blockIssuerEqual_def keysEqual_iff)

lemma stakingEqual_iff [simp]: "stakingEqual s t \<longleftrightarrow> s = t"
  by (auto simp: stakingEqual_def)

lemma entriesEqual_iff:
  assumes "distinct (map fst m)" "distinct (map fst n)"
  shows "entriesEqual m n \<longleftrightarrow> map_of m = map_of n"
proof
  assume e: "entriesEqual m n"
  then have len: "length m = length n" by (simp add: entriesEqual_def split: if_splits)
  have sub: "map_of n k = Some v" if "(k, v) \<in> set m" for k v
    using e that by (auto simp: entriesEqual_def list_all_iff split: if_splits option.splits)
  have dm: "dom (map_of m) = fst ` set m" "dom (map_of n) = fst ` set n"
    by (simp_all add: dom_map_of_conv_image_fst)
  have c: "card (dom (map_of m)) = length m" "card (dom (map_of n)) = length n"
    using assms by (metis dm(1) distinct_card length_map list.set_map, metis dm(2) distinct_card length_map list.set_map)
  have "dom (map_of m) \<subseteq> dom (map_of n)"
    using sub by (auto dest: map_of_SomeD)
  with c len have "dom (map_of m) = dom (map_of n)"
    by (metis card_subset_eq finite_dom_map_of)
  moreover have "map_of m k = Some v \<Longrightarrow> map_of n k = Some v" for k v
    using sub by (auto dest: map_of_SomeD)
  ultimately show "map_of m = map_of n"
    by (metis (no_types, lifting) domD domIff ext option.exhaust)
next
  assume "map_of m = map_of n"
  moreover from this have "length m = length n"
    using assms by (metis distinct_card dom_map_of_conv_image_fst length_map list.set_map)
  moreover have "map_of n k = Some v" if "(k, v) \<in> set m" for k v
    using map_of_is_SomeI [OF assms(1) that] \<open>map_of m = map_of n\<close> by simp
  ultimately show "entriesEqual m n"
    by (auto simp: entriesEqual_def list_all_iff)
qed

lemma featEqual_refl_kind:
  "featEqual D f g \<Longrightarrow> featType f = featType g"
  by (cases f; cases g) (auto simp: featEqual_def)

lemma FeatureUnchanged_ok:
  "FeatureUnchanged D t inSet outSet = Inr () \<longleftrightarrow>
    (case (inSet t, outSet t) of (None, None) \<Rightarrow> True | (Some f, Some g) \<Rightarrow> featEqual D f g | _ \<Rightarrow> False)"
  by (auto simp: FeatureUnchanged_def throw_def split: option.splits)

lemma checkPrintableASCIIString_ok:
  "checkPrintableASCIIString s = Inr () \<longleftrightarrow> (\<forall>c \<in> set s. 33 \<le> (of_char c :: nat) \<and> (of_char c :: nat) \<le> 126)"
  by (auto simp: checkPrintableASCIIString_def allG_iff throw_def not_less)

end
