(* ===== verification/Byte_Order.thy ===== *)
theory Byte_Order
  imports Go_Prelude "HOL-Library.List_Lexorder"
begin

text \<open>
  The lexical order of byte arrays, which the protocol uses for every sorted collection, and the sorted
  collections of identifiers: @\<open>bytes.Compare\<close> of the standard library, output_id.gen.go and the key
  list of block_issuer_key.go.  Go's sorts are not stable, but byte strings that compare equal are
  equal, so a sorted result is unique.
\<close>

definition bytesCompare :: "bytes \<Rightarrow> bytes \<Rightarrow> int" where
  "bytesCompare a b = (if a < b then - 1 else if a = b then 0 else 1)"

text \<open>@\<open>OutputIDs.RemoveDupsAndSort\<close>: sort, then keep every element that differs from its predecessor.\<close>

fun dropRepeats :: "bytes option \<Rightarrow> bytes list \<Rightarrow> bytes list" where
  "dropRepeats prev [] = []"
| "dropRepeats prev (x # xs) =
    (if prev = Some x then dropRepeats prev xs else x # dropRepeats (Some x) xs)"

definition RemoveDupsAndSort :: "bytes list \<Rightarrow> bytes list" where
  "RemoveDupsAndSort ids = dropRepeats None (sort ids)"

section \<open>Block issuer keys\<close>

text \<open>The only key type is the hash of an Ed25519 public key; keys are equal when their bytes are.\<close>

definition keysHas :: "bytes list \<Rightarrow> bytes \<Rightarrow> bool" where
  "keysHas keys key = list_ex (\<lambda>k. k = key) keys"

definition keysAdd :: "bytes list \<Rightarrow> bytes \<Rightarrow> bytes list" where
  "keysAdd keys key = (if list_ex (\<lambda>k. k = key) keys then keys else sort (keys @ [key]))"

text \<open>@\<open>Remove\<close> drops the first equal key and sorts the rest; without one the list is untouched.\<close>

fun dropFirst :: "bytes list \<Rightarrow> bytes \<Rightarrow> bytes list option" where
  "dropFirst [] key = None"
| "dropFirst (k # ks) key =
    (if k = key then Some ks else case dropFirst ks key of None \<Rightarrow> None | Some r \<Rightarrow> Some (k # r))"

definition keysRemove :: "bytes list \<Rightarrow> bytes \<Rightarrow> bytes list" where
  "keysRemove keys key = (case dropFirst keys key of None \<Rightarrow> keys | Some r \<Rightarrow> sort r)"

definition NewBlockIssuerKeys :: "bytes list \<Rightarrow> bytes list" where
  "NewBlockIssuerKeys keys = sort keys"

section \<open>Lemmas\<close>

lemma bytesCompare_cases:
  "bytesCompare a b < 0 \<longleftrightarrow> a < b" "bytesCompare a b = 0 \<longleftrightarrow> a = b" "0 < bytesCompare a b \<longleftrightarrow> b < a"
  by (auto simp: bytesCompare_def)

lemma dropRepeats_set: "set (dropRepeats p xs) \<subseteq> set xs"
  by (induction p xs rule: dropRepeats.induct) auto

lemma dropRepeats_all: "set xs \<subseteq> set (dropRepeats p xs) \<union> set_option p"
  by (induction p xs rule: dropRepeats.induct) auto

lemma dropRepeats_sorted:
  assumes "sorted xs" and "\<forall>q \<in> set_option p. \<forall>x \<in> set xs. q \<le> x"
  shows "sorted_wrt (<) (dropRepeats p xs) \<and> (\<forall>q \<in> set_option p. \<forall>x \<in> set (dropRepeats p xs). q < x)"
  using assms
proof (induction p xs rule: dropRepeats.induct)
  case (2 p x xs)
  show ?case
  proof (cases "p = Some x")
    case True
    with 2 show ?thesis by simp
  next
    case False
    then have "sorted_wrt (<) (dropRepeats (Some x) xs) \<and> (\<forall>y \<in> set (dropRepeats (Some x) xs). x < y)"
      using 2(2) [OF False] 2(3) by simp
    moreover have "\<forall>q \<in> set_option p. q < x" using 2(4) False by (auto simp: order_less_le)
    ultimately show ?thesis using False by (auto intro: less_trans)
  qed
qed simp

lemma RemoveDupsAndSort_spec:
  "sorted_wrt (<) (RemoveDupsAndSort ids) \<and> set (RemoveDupsAndSort ids) = set ids"
proof -
  have "sorted_wrt (<) (RemoveDupsAndSort ids)"
    using dropRepeats_sorted [of "sort ids" None] by (simp add: RemoveDupsAndSort_def)
  moreover have "set (RemoveDupsAndSort ids) = set ids"
    using dropRepeats_set [of None "sort ids"] dropRepeats_all [of "sort ids" None]
    by (auto simp: RemoveDupsAndSort_def)
  ultimately show ?thesis by simp
qed

text \<open>The key list behaves as a sorted set.\<close>

definition keys_wf :: "bytes list \<Rightarrow> bool" where
  "keys_wf ks \<longleftrightarrow> sorted ks \<and> distinct ks"

lemma dropFirst_spec:
  "(case dropFirst ks k of None \<Rightarrow> k \<notin> set ks
    | Some r \<Rightarrow> k \<in> set ks \<and> mset ks = add_mset k (mset r))"
  by (induction ks) (auto split: option.splits simp: add_mset_commute)

lemma keysHas_iff: "keysHas ks k \<longleftrightarrow> k \<in> set ks"
  by (auto simp: keysHas_def list_ex_iff)

lemma keysAdd_set: "set (keysAdd ks k) = insert k (set ks)"
  by (auto simp: keysAdd_def list_ex_iff)

lemma keysAdd_wf: "keys_wf ks \<Longrightarrow> keys_wf (keysAdd ks k)"
  by (auto simp: keys_wf_def keysAdd_def list_ex_iff)

lemma keysRemove_spec:
  assumes "keys_wf ks"
  shows "keys_wf (keysRemove ks k) \<and> set (keysRemove ks k) = set ks - {k}"
proof (cases "dropFirst ks k")
  case None
  then show ?thesis using assms dropFirst_spec [where ks = ks and k = k] by (simp add: keysRemove_def)
next
  case (Some r)
  then have m: "mset ks = add_mset k (mset r)" using dropFirst_spec [where ks = ks and k = k] by simp
  have "distinct ks" using assms by (simp add: keys_wf_def)
  then have "distinct (k # r)"
    using m by (metis mset.simps(2) mset_eq_imp_distinct_iff)
  moreover have "set ks = set (k # r)" using m by (metis mset.simps(2) mset_eq_setD)
  ultimately show ?thesis using Some by (auto simp: keysRemove_def keys_wf_def)
qed

end
