(* ===== verification/Token_Scheme.thy ===== *)
theory Token_Scheme
  imports Go_Prelude
begin

text \<open>
  The token scheme of a foundry: token_scheme.go and token_scheme_simple.go.  Big integers are integers.
  What the three transitions accept is characterised exactly; what that means for the tokens in the ledger
  is the subject of Token_Ledger.
\<close>

text \<open>@\<open>ChainTransitionType\<close> of chain.go.\<close>

datatype chain_transition_type = TransGenesis | TransStateChange | TransDestroy

record simple_token_scheme =
  sts_MintedTokens :: int
  sts_MeltedTokens :: int
  sts_MaximumSupply :: int

definition schemeEqual :: "simple_token_scheme \<Rightarrow> simple_token_scheme \<Rightarrow> bool" where
  "schemeEqual s other =
    (if sts_MintedTokens s \<noteq> sts_MintedTokens other then False
     else if sts_MeltedTokens s \<noteq> sts_MeltedTokens other then False
     else if sts_MaximumSupply s \<noteq> sts_MaximumSupply other then False
     else True)"

definition schemeSyntacticalValidation :: "simple_token_scheme \<Rightarrow> unit go" where
  "schemeSyntacticalValidation s =
    (if \<not> 0 < sts_MaximumSupply s
     then throw (Wrap (Sentinel ''ErrSimpleTokenSchemeInvalidMaximumSupply'') ''less than equal zero'')
     else
       let mintedMeltedDelta = sts_MintedTokens s - sts_MeltedTokens s
       in if mintedMeltedDelta < 0
          then throw (Wrap (Sentinel ''ErrSimpleTokenSchemeInvalidMintedMeltedTokens'')
                        ''minted/melted delta less than zero: %s'')
          else if sts_MaximumSupply s < mintedMeltedDelta
          then throw (Wrap (Sentinel ''ErrSimpleTokenSchemeInvalidMintedMeltedTokens'')
                        ''minted/melted delta more than maximum supply: %s (delta) vs. %s (max supply)'')
          else Inr ())"

definition schemeGenesisValid :: "simple_token_scheme \<Rightarrow> int \<Rightarrow> unit go" where
  "schemeGenesisValid s outSum =
    (if sts_MeltedTokens s \<noteq> 0
     then throw (Wrap (Sentinel ''ErrSimpleTokenSchemeGenesisInvalid'') ''melted supply must be zero at genesis'')
     else if outSum \<noteq> sts_MintedTokens s
     then throw (Wrap (Sentinel ''ErrSimpleTokenSchemeGenesisInvalid'')
                   ''output native token amount does not equal minted count: minted %s vs. output tokens %s'')
     else Inr ())"

definition schemeDestructionValid :: "simple_token_scheme \<Rightarrow> int \<Rightarrow> int \<Rightarrow> unit go" where
  "schemeDestructionValid s out inp =
    (let tokenDiff = out - inp
     in if sts_MintedTokens s + tokenDiff \<noteq> sts_MeltedTokens s
        then throw (Wrap (Sentinel ''ErrNativeTokenSumUnbalanced'')
               ''all minted tokens must have been melted up on destruction: minted (%s) + token diff (%d) != melted tokens (%s)'')
        else Inr ())"

text \<open>The simple token scheme is the only scheme, so the type assertion on the next state holds.\<close>

definition schemeStateChangeValid ::
    "simple_token_scheme \<Rightarrow> simple_token_scheme \<Rightarrow> int \<Rightarrow> int \<Rightarrow> unit go" where
  "schemeStateChangeValid s next1 inp out =
    (if sts_MaximumSupply s \<noteq> sts_MaximumSupply next1
     then throw (Wrap (Sentinel ''ErrSimpleTokenSchemeMaximumSupplyChanged'') ''maximum supply mismatch wanted %s but got %s'')
     else if sts_MintedTokens next1 < sts_MintedTokens s
     then throw (Wrap (Sentinel ''ErrSimpleTokenSchemeMintedMeltedTokenDecrease'') ''current minted supply (%s) bigger than next minted supply (%s)'')
     else if sts_MeltedTokens next1 < sts_MeltedTokens s
     then throw (Wrap (Sentinel ''ErrSimpleTokenSchemeMintedMeltedTokenDecrease'') ''current melted supply (%s) bigger than next melted supply (%s)'')
     else
       let tokenDiff = out - inp;
           mintedSupplyDelta = sts_MintedTokens next1 - sts_MintedTokens s;
           meltedSupplyDelta = sts_MeltedTokens next1 - sts_MeltedTokens s
       in if 0 < tokenDiff then
            (if mintedSupplyDelta \<noteq> tokenDiff
             then throw (Wrap (Sentinel ''ErrSimpleTokenSchemeMintingInvalid'') ''positive token diff not balanced by minted supply change'')
             else if sts_MeltedTokens next1 \<noteq> sts_MeltedTokens s
             then throw (Wrap (Sentinel ''ErrSimpleTokenSchemeMintingInvalid'') ''positive token diff requires equal melted supply between current/next state'')
             else Inr ())
          else if tokenDiff < 0 then
            (if meltedSupplyDelta \<noteq> - tokenDiff
             then throw (Wrap (Sentinel ''ErrSimpleTokenSchemeMeltingInvalid'') ''negative token diff not balanced by melted supply change'')
             else if sts_MintedTokens next1 \<noteq> sts_MintedTokens s
             then throw (Wrap (Sentinel ''ErrSimpleTokenSchemeMeltingInvalid'') ''negative token diff requires equal minted supply between current/next state'')
             else Inr ())
          else
            (if sts_MintedTokens s \<noteq> sts_MintedTokens next1 \<or> sts_MeltedTokens s \<noteq> sts_MeltedTokens next1
             then throw (Wrap (Sentinel ''ErrSimpleTokenSchemeInvalidMintedMeltedTokens'') ''zero token diff requires equal minted/melted supply between current/next state'')
             else Inr ()))"

definition schemeStateTransition ::
    "simple_token_scheme \<Rightarrow> chain_transition_type \<Rightarrow> simple_token_scheme option \<Rightarrow> int \<Rightarrow> int \<Rightarrow> unit go" where
  "schemeStateTransition s transType nextState inp out =
    (case transType of
       TransGenesis \<Rightarrow> schemeGenesisValid s out
     | TransStateChange \<Rightarrow>
         (case nextState of Some next1 \<Rightarrow> schemeStateChangeValid s next1 inp out
          | None \<Rightarrow> Inl (Panic ''nil token scheme''))
     | TransDestroy \<Rightarrow> schemeDestructionValid s out inp)"

section \<open>Lemmas\<close>

lemma schemeEqual_iff [simp]: "schemeEqual s t \<longleftrightarrow> s = t"
  by (auto simp: schemeEqual_def)

lemma scheme_syntax_iff:
  "schemeSyntacticalValidation s = Inr () \<longleftrightarrow>
    0 < sts_MaximumSupply s \<and> sts_MeltedTokens s \<le> sts_MintedTokens s
    \<and> sts_MintedTokens s - sts_MeltedTokens s \<le> sts_MaximumSupply s"
  by (auto simp: schemeSyntacticalValidation_def Let_def throw_def)

lemma scheme_genesis_iff:
  "schemeGenesisValid s out = Inr () \<longleftrightarrow> sts_MeltedTokens s = 0 \<and> sts_MintedTokens s = out"
  by (auto simp: schemeGenesisValid_def throw_def)

lemma scheme_destruction_iff:
  "schemeDestructionValid s out inp = Inr () \<longleftrightarrow> sts_MintedTokens s - sts_MeltedTokens s = inp - out"
  by (auto simp: schemeDestructionValid_def Let_def throw_def)

lemma scheme_change_iff:
  "schemeStateChangeValid s t inp out = Inr () \<longleftrightarrow>
    sts_MaximumSupply t = sts_MaximumSupply s
    \<and> sts_MintedTokens s \<le> sts_MintedTokens t \<and> sts_MeltedTokens s \<le> sts_MeltedTokens t
    \<and> out - inp = (sts_MintedTokens t - sts_MintedTokens s) - (sts_MeltedTokens t - sts_MeltedTokens s)
    \<and> (sts_MintedTokens t = sts_MintedTokens s \<or> sts_MeltedTokens t = sts_MeltedTokens s)"
  unfolding schemeStateChangeValid_def Let_def throw_def
  by (cases "inp < out"; cases "out < inp") auto

text \<open>A state change of a token scheme is accepted exactly when the maximum supply stays, the
  counters do not decrease, the tokens produced less the tokens consumed are the newly minted less the
  newly melted ones, and the transaction does not both mint and melt.\<close>

theorem token_change_accepted:
  "schemeStateTransition s TransStateChange (Some t) inp out = Inr () \<longleftrightarrow>
    sts_MaximumSupply t = sts_MaximumSupply s
    \<and> sts_MintedTokens s \<le> sts_MintedTokens t \<and> sts_MeltedTokens s \<le> sts_MeltedTokens t
    \<and> out - inp = (sts_MintedTokens t - sts_MintedTokens s) - (sts_MeltedTokens t - sts_MeltedTokens s)
    \<and> (sts_MintedTokens t = sts_MintedTokens s \<or> sts_MeltedTokens t = sts_MeltedTokens s)"
  by (simp add: schemeStateTransition_def scheme_change_iff)

end
