(* ===== verification/Ledger_Outputs.thy ===== *)
theory Ledger_Outputs
  imports Unlock_Conditions Feature_Blocks Byte_Order Token_Scheme "HOL-Library.AList"
begin

text \<open>
  The outputs of the ledger: output.go and output_*.go, with the wrapper @\<open>ImplicitAccountOutput\<close> of
  vm/vm.go.  A Go map that the code ranges over is a list of key and value pairs with distinct keys; the
  order of the list is the order of the iteration.
\<close>

section \<open>Output types\<close>

record basic_output =
  bo_Amount :: u64
  bo_Mana :: u64
  bo_UnlockConditions :: "unlock_condition list"
  bo_Features :: "feature list"

record account_output =
  ao_Amount :: u64
  ao_Mana :: u64
  ao_AccountID :: bytes
  ao_FoundryCounter :: u32
  ao_UnlockConditions :: "unlock_condition list"
  ao_Features :: "feature list"
  ao_ImmutableFeatures :: "feature list"

record anchor_output =
  an_Amount :: u64
  an_Mana :: u64
  an_AnchorID :: bytes
  an_StateIndex :: u32
  an_UnlockConditions :: "unlock_condition list"
  an_Features :: "feature list"
  an_ImmutableFeatures :: "feature list"

record foundry_output =
  fo_Amount :: u64
  fo_SerialNumber :: u32
  fo_TokenScheme :: simple_token_scheme
  fo_UnlockConditions :: "unlock_condition list"
  fo_Features :: "feature list"
  fo_ImmutableFeatures :: "feature list"

record nft_output =
  no_Amount :: u64
  no_Mana :: u64
  no_NFTID :: bytes
  no_UnlockConditions :: "unlock_condition list"
  no_Features :: "feature list"
  no_ImmutableFeatures :: "feature list"

record delegation_output =
  do_Amount :: u64
  do_DelegatedAmount :: u64
  do_DelegationID :: bytes
  do_ValidatorAddress :: bytes
  do_StartEpoch :: u32
  do_EndEpoch :: u32
  do_UnlockConditions :: "unlock_condition list"

datatype ledger_output =
    BasicO basic_output
  | AccountO account_output
  | AnchorO anchor_output
  | FoundryO foundry_output
  | NFTO nft_output
  | DelegationO delegation_output
  | ImplicitAccountO basic_output

text \<open>The wrapper inherits the methods of the basic output, also its type.\<close>

primrec outType :: "ledger_output \<Rightarrow> u8" where
  "outType (BasicO x) = 0"
| "outType (AccountO x) = 1"
| "outType (AnchorO x) = 2"
| "outType (FoundryO x) = 3"
| "outType (NFTO x) = 4"
| "outType (DelegationO x) = 5"
| "outType (ImplicitAccountO x) = 0"

primrec outAmount :: "ledger_output \<Rightarrow> u64" where
  "outAmount (BasicO x) = bo_Amount x"
| "outAmount (AccountO x) = ao_Amount x"
| "outAmount (AnchorO x) = an_Amount x"
| "outAmount (FoundryO x) = fo_Amount x"
| "outAmount (NFTO x) = no_Amount x"
| "outAmount (DelegationO x) = do_Amount x"
| "outAmount (ImplicitAccountO x) = bo_Amount x"

primrec outStoredMana :: "ledger_output \<Rightarrow> u64" where
  "outStoredMana (BasicO x) = bo_Mana x"
| "outStoredMana (AccountO x) = ao_Mana x"
| "outStoredMana (AnchorO x) = an_Mana x"
| "outStoredMana (FoundryO x) = 0"
| "outStoredMana (NFTO x) = no_Mana x"
| "outStoredMana (DelegationO x) = 0"
| "outStoredMana (ImplicitAccountO x) = bo_Mana x"

primrec outUCs :: "ledger_output \<Rightarrow> unlock_condition list" where
  "outUCs (BasicO x) = bo_UnlockConditions x"
| "outUCs (AccountO x) = ao_UnlockConditions x"
| "outUCs (AnchorO x) = an_UnlockConditions x"
| "outUCs (FoundryO x) = fo_UnlockConditions x"
| "outUCs (NFTO x) = no_UnlockConditions x"
| "outUCs (DelegationO x) = do_UnlockConditions x"
| "outUCs (ImplicitAccountO x) = bo_UnlockConditions x"

definition outUCSet :: "ledger_output \<Rightarrow> uc_set go" where
  "outUCSet out = ucsMustSet (outUCs out)"

primrec outFeatures :: "ledger_output \<Rightarrow> feature list" where
  "outFeatures (BasicO x) = bo_Features x"
| "outFeatures (AccountO x) = ao_Features x"
| "outFeatures (AnchorO x) = an_Features x"
| "outFeatures (FoundryO x) = fo_Features x"
| "outFeatures (NFTO x) = no_Features x"
| "outFeatures (DelegationO x) = []"
| "outFeatures (ImplicitAccountO x) = bo_Features x"

definition outFeatSet :: "ledger_output \<Rightarrow> feat_set go" where
  "outFeatSet out = featsMustSet (outFeatures out)"

text \<open>The outputs that are @\<open>ChainOutputImmutable\<close> have a list of immutable features.\<close>

primrec outImmutableFeatures :: "ledger_output \<Rightarrow> feature list option" where
  "outImmutableFeatures (BasicO x) = None"
| "outImmutableFeatures (AccountO x) = Some (ao_ImmutableFeatures x)"
| "outImmutableFeatures (AnchorO x) = Some (an_ImmutableFeatures x)"
| "outImmutableFeatures (FoundryO x) = Some (fo_ImmutableFeatures x)"
| "outImmutableFeatures (NFTO x) = Some (no_ImmutableFeatures x)"
| "outImmutableFeatures (DelegationO x) = None"
| "outImmutableFeatures (ImplicitAccountO x) = None"

definition derefG :: "'x option \<Rightarrow> 'x go" where
  "derefG p = (case p of Some x \<Rightarrow> Inr x | None \<Rightarrow> Inl (Panic ''nil pointer dereference''))"

text \<open>@\<open>Owner\<close> of the outputs whose owner does not depend on the transition.\<close>

definition addressOwner :: "unlock_condition list \<Rightarrow> address go" where
  "addressOwner ucs1 = andthen (ucsMustSet ucs1) (\<lambda>s. derefG (ucAddress s))"

definition foundryOwner :: "foundry_output \<Rightarrow> address go" where
  "foundryOwner f =
    andthen (ucsMustSet (fo_UnlockConditions f)) (\<lambda>s.
    andthen (derefG (ucImmutableAccount s)) (\<lambda>a. Inr (AccountAddress a)))"

definition anchorGovernor :: "anchor_output \<Rightarrow> address go" where
  "anchorGovernor a = andthen (ucsMustSet (an_UnlockConditions a)) (\<lambda>s. derefG (ucGovernorAddress s))"

definition anchorStateController :: "anchor_output \<Rightarrow> address go" where
  "anchorStateController a =
     andthen (ucsMustSet (an_UnlockConditions a)) (\<lambda>s. derefG (ucStateControllerAddress s))"

text \<open>@\<open>Owner\<close> of an anchor: the governor, or the state controller when the next state has the next
  state index.  The anchor output is the only output whose owner depends on the next state.\<close>

definition anchorOwner :: "anchor_output \<Rightarrow> anchor_output option \<Rightarrow> address go" where
  "anchorOwner a nextState =
    (case nextState of
       None \<Rightarrow> anchorGovernor a
     | Some other \<Rightarrow>
         if an_StateIndex a = an_StateIndex other then anchorGovernor a
         else if an_StateIndex a + 1 = an_StateIndex other then anchorStateController a
         else throw (Wrap (Sentinel ''ErrOwnerTransitionDependentOutputNextInvalid'')
                ''can not compute right owner for anchor output as state index delta is invalid''))"

definition foundryID :: "'a ledger_deps_scheme \<Rightarrow> foundry_output \<Rightarrow> bytes go" where
  "foundryID D f =
    andthen (foundryOwner f) (\<lambda>owner.
    FoundryIDFromAddressAndSerialNumberAndTokenScheme D owner (fo_SerialNumber f) 0)"

text \<open>@\<open>ChainID\<close>; None for the outputs that are no chain outputs.\<close>

definition outChainID :: "'a ledger_deps_scheme \<Rightarrow> ledger_output \<Rightarrow> chain_id option go" where
  "outChainID D out =
    (case out of
       BasicO x \<Rightarrow> Inr None
     | AccountO x \<Rightarrow> Inr (Some (AccountIDc (ao_AccountID x)))
     | AnchorO x \<Rightarrow> Inr (Some (AnchorIDc (an_AnchorID x)))
     | FoundryO x \<Rightarrow> andthen (mustE (foundryID D x)) (\<lambda>i. Inr (Some (FoundryIDc i)))
     | NFTO x \<Rightarrow> Inr (Some (NFTIDc (no_NFTID x)))
     | DelegationO x \<Rightarrow> Inr (Some (DelegationIDc (do_DelegationID x)))
     | ImplicitAccountO x \<Rightarrow> Inr (Some (AccountIDc emptyID)))"

text \<open>@\<open>Target\<close> of an account or an anchor.\<close>

definition accountTarget :: "account_output \<Rightarrow> address" where
  "accountTarget a = AccountAddress (ao_AccountID a)"

definition anchorTarget :: "anchor_output \<Rightarrow> address" where
  "anchorTarget a = AnchorAddress (an_AnchorID a)"

definition featsEqual :: "'a ledger_deps_scheme \<Rightarrow> feature list \<Rightarrow> feature list \<Rightarrow> bool" where
  "featsEqual D f other = sliceEqual (featEqual D) f other"

section \<open>Equality of outputs\<close>

definition basicEqual :: "'a ledger_deps_scheme \<Rightarrow> basic_output \<Rightarrow> basic_output \<Rightarrow> bool" where
  "basicEqual D e other =
    (if bo_Amount e \<noteq> bo_Amount other then False
     else if bo_Mana e \<noteq> bo_Mana other then False
     else if \<not> ucsEqual D (bo_UnlockConditions e) (bo_UnlockConditions other) then False
     else if \<not> featsEqual D (bo_Features e) (bo_Features other) then False
     else True)"

definition accountEqual :: "'a ledger_deps_scheme \<Rightarrow> account_output \<Rightarrow> account_output \<Rightarrow> bool" where
  "accountEqual D a other =
    (if ao_Amount a \<noteq> ao_Amount other then False
     else if ao_Mana a \<noteq> ao_Mana other then False
     else if ao_AccountID a \<noteq> ao_AccountID other then False
     else if ao_FoundryCounter a \<noteq> ao_FoundryCounter other then False
     else if \<not> ucsEqual D (ao_UnlockConditions a) (ao_UnlockConditions other) then False
     else if \<not> featsEqual D (ao_Features a) (ao_Features other) then False
     else if \<not> featsEqual D (ao_ImmutableFeatures a) (ao_ImmutableFeatures other) then False
     else True)"

definition anchorEqual :: "'a ledger_deps_scheme \<Rightarrow> anchor_output \<Rightarrow> anchor_output \<Rightarrow> bool" where
  "anchorEqual D a other =
    (if an_Amount a \<noteq> an_Amount other then False
     else if an_Mana a \<noteq> an_Mana other then False
     else if an_AnchorID a \<noteq> an_AnchorID other then False
     else if an_StateIndex a \<noteq> an_StateIndex other then False
     else if \<not> ucsEqual D (an_UnlockConditions a) (an_UnlockConditions other) then False
     else if \<not> featsEqual D (an_Features a) (an_Features other) then False
     else if \<not> featsEqual D (an_ImmutableFeatures a) (an_ImmutableFeatures other) then False
     else True)"

definition foundryEqual :: "'a ledger_deps_scheme \<Rightarrow> foundry_output \<Rightarrow> foundry_output \<Rightarrow> bool" where
  "foundryEqual D f other =
    (if fo_Amount f \<noteq> fo_Amount other then False
     else if fo_SerialNumber f \<noteq> fo_SerialNumber other then False
     else if \<not> schemeEqual (fo_TokenScheme f) (fo_TokenScheme other) then False
     else if \<not> ucsEqual D (fo_UnlockConditions f) (fo_UnlockConditions other) then False
     else if \<not> featsEqual D (fo_Features f) (fo_Features other) then False
     else if \<not> featsEqual D (fo_ImmutableFeatures f) (fo_ImmutableFeatures other) then False
     else True)"

definition nftEqual :: "'a ledger_deps_scheme \<Rightarrow> nft_output \<Rightarrow> nft_output \<Rightarrow> bool" where
  "nftEqual D n other =
    (if no_Amount n \<noteq> no_Amount other then False
     else if no_Mana n \<noteq> no_Mana other then False
     else if no_NFTID n \<noteq> no_NFTID other then False
     else if \<not> ucsEqual D (no_UnlockConditions n) (no_UnlockConditions other) then False
     else if \<not> featsEqual D (no_Features n) (no_Features other) then False
     else if \<not> featsEqual D (no_ImmutableFeatures n) (no_ImmutableFeatures other) then False
     else True)"

definition delegationEqual ::
    "'a ledger_deps_scheme \<Rightarrow> delegation_output \<Rightarrow> delegation_output \<Rightarrow> bool" where
  "delegationEqual D d other =
    (if do_Amount d \<noteq> do_Amount other then False
     else if do_DelegatedAmount d \<noteq> do_DelegatedAmount other then False
     else if do_DelegationID d \<noteq> do_DelegationID other then False
     else if do_ValidatorAddress d \<noteq> do_ValidatorAddress other then False
     else if do_StartEpoch d \<noteq> do_StartEpoch other then False
     else if do_EndEpoch d \<noteq> do_EndEpoch other then False
     else if \<not> ucsEqual D (do_UnlockConditions d) (do_UnlockConditions other) then False
     else True)"

section \<open>Sets of outputs\<close>

type_synonym chain_set = "(chain_id \<times> ledger_output) list"

text \<open>@\<open>Outputs.ChainOutputSet\<close>: a new chain gets the ID derived from its output ID.\<close>

definition chainSetStep ::
    "'a ledger_deps_scheme \<Rightarrow> bytes \<Rightarrow> chain_set \<Rightarrow> nat \<times> ledger_output \<Rightarrow> chain_set go" where
  "chainSetStep D txID set1 io =
    (case io of (outputIndex1, out) \<Rightarrow>
       andthen (outChainID D out) (\<lambda>cid.
       case cid of
         None \<Rightarrow> Inr set1
       | Some chainID \<Rightarrow>
           let chainID =
             (if chainEmpty chainID
              then (case chainFromOutputID D chainID
                      (OutputIDFromTransactionIDAndIndex txID (word_of_nat outputIndex1)) of
                      Some c \<Rightarrow> c | None \<Rightarrow> chainID)
              else chainID)
           in if chainEmpty chainID
              then Inl (Panic ''output of type %s has empty chain ID but is not utxo dependable'')
              else Inr (AList.update chainID out set1)))"

definition OutputsChainOutputSet ::
    "'a ledger_deps_scheme \<Rightarrow> ledger_output list \<Rightarrow> bytes \<Rightarrow> chain_set go" where
  "OutputsChainOutputSet D outputs txID = foldG (chainSetStep D txID) [] (List.enumerate 0 outputs)"

text \<open>@\<open>Outputs.NativeTokenSum\<close>.\<close>

definition nativeTokenSumStep ::
    "'a ledger_deps_scheme \<Rightarrow> (bytes \<times> int) list \<Rightarrow> ledger_output \<Rightarrow> (bytes \<times> int) list go" where
  "nativeTokenSumStep D sum1 out =
    andthen (outFeatSet out) (\<lambda>fs.
    case ftNativeToken fs of
      None \<Rightarrow> Inr sum1
    | Some (tokenID, amount) \<Rightarrow>
        if amount \<le> 0 then throw (Sentinel ''ErrNativeTokenAmountLessThanEqualZero'')
        else
          let val = (case map_of sum1 tokenID of None \<Rightarrow> 0 | Some v \<Rightarrow> v) + amount
          in if maxUint256 D < val then throw (Sentinel ''ErrNativeTokenSumExceedsUint256'')
             else Inr (AList.update tokenID val sum1))"

definition NativeTokenSum :: "'a ledger_deps_scheme \<Rightarrow> ledger_output list \<Rightarrow> (bytes \<times> int) list go" where
  "NativeTokenSum D outputs = foldG (nativeTokenSumStep D) [] outputs"

definition ValueOrBigInt0 :: "(bytes \<times> int) list \<Rightarrow> bytes \<Rightarrow> int" where
  "ValueOrBigInt0 sum1 i = (case map_of sum1 i of None \<Rightarrow> 0 | Some v \<Rightarrow> v)"

section \<open>Unlockability\<close>

definition outputUnlockableBy ::
    "'a ledger_deps_scheme \<Rightarrow> ledger_output \<Rightarrow> anchor_output option \<Rightarrow> address \<Rightarrow> u32 \<Rightarrow> u32 \<Rightarrow> bool go" where
  "outputUnlockableBy D out next1 target pastBoundedSlotIndex futureBoundedSlotIndex =
    andthen (outUCSet out) (\<lambda>unlockConds.
    andthen (case out of
        BasicO x \<Rightarrow> addressOwner (bo_UnlockConditions x)
      | AccountO x \<Rightarrow> addressOwner (ao_UnlockConditions x)
      | FoundryO x \<Rightarrow> foundryOwner x
      | NFTO x \<Rightarrow> addressOwner (no_UnlockConditions x)
      | DelegationO x \<Rightarrow> addressOwner (do_UnlockConditions x)
      | ImplicitAccountO x \<Rightarrow> addressOwner (bo_UnlockConditions x)
      | AnchorO x \<Rightarrow> anchorOwner x next1) (\<lambda>owner.
    Inr (unlockableBy D unlockConds target owner pastBoundedSlotIndex futureBoundedSlotIndex)))"


section \<open>Lemmas\<close>

lemma sliceEqual_refl: "(\<And>x. eq x x) \<Longrightarrow> sliceEqual eq f f"
  by (induction f) auto

lemma ucEqual_refl [simp]: "ucEqual D c c"
  by (cases c) (auto simp: ucEqual_def)

text \<open>The native tokens an output carries and the true sum of a token over outputs.\<close>

definition tokenOf :: "ledger_output \<Rightarrow> (bytes \<times> int) option" where
  "tokenOf out = (case outFeatSet out of Inr fs \<Rightarrow> ftNativeToken fs | Inl _ \<Rightarrow> None)"

definition tokenAmount :: "bytes \<Rightarrow> ledger_output \<Rightarrow> int" where
  "tokenAmount i out = (case tokenOf out of Some (j, n) \<Rightarrow> if j = i then n else 0 | None \<Rightarrow> 0)"

lemma ValueOrBigInt0_update:
  "ValueOrBigInt0 (AList.update k v s) i = (if i = k then v else ValueOrBigInt0 s i)"
  by (simp add: ValueOrBigInt0_def update_conv')

lemma nativeTokenSumStep_Inr:
  assumes "nativeTokenSumStep D s out = Inr s'"
  shows "ValueOrBigInt0 s' i = ValueOrBigInt0 s i + tokenAmount i out" and "0 \<le> tokenAmount i out"
    and "distinct (map fst s) \<Longrightarrow> distinct (map fst s')"
    and "(\<forall>i v. map_of s i = Some v \<longrightarrow> v \<le> maxUint256 D) \<Longrightarrow>
         (\<forall>i v. map_of s' i = Some v \<longrightarrow> v \<le> maxUint256 D)"
proof -
  obtain fs where fs: "outFeatSet out = Inr fs"
    using assms by (auto simp: nativeTokenSumStep_def andthen_eq_Inr)
  have "ValueOrBigInt0 s' i = ValueOrBigInt0 s i + tokenAmount i out \<and> 0 \<le> tokenAmount i out
    \<and> (distinct (map fst s) \<longrightarrow> distinct (map fst s'))
    \<and> ((\<forall>i v. map_of s i = Some v \<longrightarrow> v \<le> maxUint256 D) \<longrightarrow>
         (\<forall>i v. map_of s' i = Some v \<longrightarrow> v \<le> maxUint256 D))"
  proof (cases "ftNativeToken fs")
    case None
    then show ?thesis using assms fs
      by (simp add: nativeTokenSumStep_def tokenAmount_def tokenOf_def)
  next
    case (Some tn)
    then obtain t n where tn: "ftNativeToken fs = Some (t, n)" by (cases tn) auto
    let ?v = "ValueOrBigInt0 s t + n"
    have pos: "0 < n" and le: "?v \<le> maxUint256 D" and s': "s' = AList.update t ?v s"
      using assms fs tn
      by (auto simp: nativeTokenSumStep_def Let_def ValueOrBigInt0_def throw_def split: if_splits)
    have ta: "tokenAmount i out = (if t = i then n else 0)"
      by (simp add: tokenAmount_def tokenOf_def fs tn)
    show ?thesis
      using pos le by (auto simp: s' ta ValueOrBigInt0_update update_conv' distinct_update)
  qed
  then show "ValueOrBigInt0 s' i = ValueOrBigInt0 s i + tokenAmount i out" "0 \<le> tokenAmount i out"
    "distinct (map fst s) \<Longrightarrow> distinct (map fst s')"
    "(\<forall>i v. map_of s i = Some v \<longrightarrow> v \<le> maxUint256 D) \<Longrightarrow>
         (\<forall>i v. map_of s' i = Some v \<longrightarrow> v \<le> maxUint256 D)"
    by blast+
qed

lemma NativeTokenSum_Inr:
  assumes "NativeTokenSum D outs = Inr s"
  shows "ValueOrBigInt0 s i = (\<Sum>out\<leftarrow>outs. tokenAmount i out)" and "distinct (map fst s)"
    and "map_of s i = Some v \<Longrightarrow> v \<le> maxUint256 D"
    and "\<forall>out \<in> set outs. 0 \<le> tokenAmount i out"
proof -
  let ?P = "\<lambda>ys s. (\<forall>i. ValueOrBigInt0 s i = (\<Sum>out\<leftarrow>ys. tokenAmount i out)) \<and> distinct (map fst s)
    \<and> (\<forall>i v. map_of s i = Some v \<longrightarrow> v \<le> maxUint256 D) \<and> (\<forall>i. \<forall>out \<in> set ys. 0 \<le> tokenAmount i out)"
  have "?P outs s"
  proof (rule foldG_prefix_invariant [where P = ?P])
    show "foldG (nativeTokenSumStep D) [] outs = Inr s" using assms by (simp add: NativeTokenSum_def)
    show "?P [] []" by (simp add: ValueOrBigInt0_def)
    fix ys x t t'
    assume "?P ys t" "nativeTokenSumStep D t x = Inr t'"
    then show "?P (ys @ [x]) t'"
      using nativeTokenSumStep_Inr [of D t x t'] by simp
  qed
  then show "ValueOrBigInt0 s i = (\<Sum>out\<leftarrow>outs. tokenAmount i out)" "distinct (map fst s)"
    "map_of s i = Some v \<Longrightarrow> v \<le> maxUint256 D" "\<forall>out \<in> set outs. 0 \<le> tokenAmount i out"
    by blast+
qed

lemma set_update_vals: "snd ` set (AList.update k v al) \<subseteq> insert v (snd ` set al)"
  by (induction al) auto

lemma chainSetStep_Inr:
  assumes "chainSetStep D txID s (i, out) = Inr s'"
  obtains "outChainID D out = Inr None" "s' = s"
  | c where "\<not> chainEmpty c" "s' = AList.update c out s"
proof -
  obtain cid where cid: "outChainID D out = Inr cid"
    using assms by (auto simp: chainSetStep_def andthen_eq_Inr)
  show thesis
  proof (cases cid)
    case None
    with assms cid that(1) show thesis by (simp add: chainSetStep_def)
  next
    case (Some c)
    define d where "d = (if chainEmpty c
              then (case chainFromOutputID D c
                      (OutputIDFromTransactionIDAndIndex txID (word_of_nat i)) of
                      Some c \<Rightarrow> c | None \<Rightarrow> c)
              else c)"
    have "(if chainEmpty d then Inl (Panic ''output of type %s has empty chain ID but is not utxo dependable'')
        else Inr (AList.update d out s)) = Inr s'"
      using assms cid Some by (simp add: chainSetStep_def flip: d_def)
    with that(2) [of d] show thesis by (simp split: if_splits)
  qed
qed

lemma chain_set_distinct:
  assumes "OutputsChainOutputSet D outs txID = Inr cs"
  shows "distinct (map fst cs)" and "\<forall>c \<in> fst ` set cs. \<not> chainEmpty c"
    and "snd ` set cs \<subseteq> set outs"
proof -
  let ?P = "\<lambda>s. distinct (map fst s) \<and> (\<forall>c \<in> fst ` set s. \<not> chainEmpty c) \<and> snd ` set s \<subseteq> set outs"
  have "?P cs"
  proof (rule foldG_invariant [where P = ?P])
    show "foldG (chainSetStep D txID) [] (List.enumerate 0 outs) = Inr cs"
      using assms by (simp add: OutputsChainOutputSet_def)
    fix s io s'
    assume io: "io \<in> set (List.enumerate 0 outs)" and P: "?P s" and st: "chainSetStep D txID s io = Inr s'"
    obtain i out where io2: "io = (i, out)" by (cases io)
    have out: "out \<in> set outs" using io io2 by (auto simp: in_set_enumerate_eq)
    from st [unfolded io2] show "?P s'"
    proof (cases rule: chainSetStep_Inr)
      case (2 c)
      then show ?thesis
        using P out set_update_vals [of c out s] by (auto simp: distinct_update dom_update)
    qed (use P in simp)
  qed simp
  then show "distinct (map fst cs)" "\<forall>c \<in> fst ` set cs. \<not> chainEmpty c" "snd ` set cs \<subseteq> set outs"
    by blast+
qed

text \<open>The native token sum of a list of outputs is, for every token, the exact sum of the amounts
  in the features of the outputs, and no sum exceeds the bound.\<close>

theorem native_token_sum_exact:
  assumes "NativeTokenSum D outs = Inr s"
  shows "ValueOrBigInt0 s i = (\<Sum>out\<leftarrow>outs. tokenAmount i out)
    \<and> (\<forall>v. map_of s i = Some v \<longrightarrow> v \<le> maxUint256 D)"
  using NativeTokenSum_Inr [OF assms] by blast

text \<open>Outputs for evaluation: a basic output of 5 base tokens, with given features.\<close>

definition demo_basic :: "feature list \<Rightarrow> ledger_output" where
  "demo_basic fs = BasicO \<lparr>bo_Amount = 5, bo_Mana = 7, bo_UnlockConditions = [AddressUC (Ed25519Address [1])],
     bo_Features = fs\<rparr>"

theorem native_token_sum_exact_witness:
  "\<exists>s. NativeTokenSum ref_ledger [demo_basic [NativeTokenF [9] 30], demo_basic [], demo_basic [NativeTokenF [9] 12]]
     = Inr s \<and> ValueOrBigInt0 s [9] = 42"
proof -
  let ?outs = "[demo_basic [NativeTokenF [9] 30], demo_basic [], demo_basic [NativeTokenF [9] 12]]"
  have f: "outFeatSet (demo_basic fs) = featsMustSet fs" for fs
    by (simp add: outFeatSet_def demo_basic_def)
  have r: "NativeTokenSum ref_ledger ?outs = Inr [([9], 42)]"
    by (simp add: NativeTokenSum_def nativeTokenSumStep_def f featsMustSet_eq ftNativeToken_def Let_def)
  with native_token_sum_exact [OF r, of "[9]"] show ?thesis
    by (simp add: tokenAmount_def tokenOf_def f featsMustSet_eq ftNativeToken_def)
qed

end
