(* ===== verification/Time_Provider.thy ===== *)
theory Time_Provider
  imports Go_Prelude
begin

text \<open>
  The perception of time: timeprovider.go.  A @\<open>time.Time\<close> is the number of nanoseconds since the Unix
  epoch, a @\<open>time.Duration\<close> an @\<open>int64\<close> number of nanoseconds, so the difference of two times
  saturates as in Go's @\<open>Time.Sub\<close>.  Slots and epochs are @\<open>uint32\<close> values that wrap around.
\<close>

definition unixTime :: "int \<Rightarrow> int" where
  "unixTime s = s * 1000000000"

definition timeSub :: "int \<Rightarrow> int \<Rightarrow> int" where
  "timeSub t u = max (- (2 ^ 63)) (min (2 ^ 63 - 1) (t - u))"

definition quotG :: "int \<Rightarrow> int \<Rightarrow> int go" where
  "quotG a b = (if b = 0 then Inl (Panic ''integer divide by zero'') else Inr (i64 (a sdiv b)))"

record time_provider =
  tp_genesisSlot :: u32
  tp_genesisUnixTime :: int
  tp_genesisTime :: int
  tp_slotDurationSeconds :: int
  tp_slotsPerEpochExponent :: u8
  tp_epochDurationSeconds :: int
  tp_epochDurationSlots :: u32

definition NewTimeProvider :: "u32 \<Rightarrow> int \<Rightarrow> int \<Rightarrow> u8 \<Rightarrow> time_provider" where
  "NewTimeProvider genesisSlot genesisUnixTime slotDurationSeconds slotsPerEpochExponent =
     \<lparr>tp_genesisSlot = genesisSlot, tp_genesisUnixTime = genesisUnixTime,
      tp_genesisTime = unixTime genesisUnixTime, tp_slotDurationSeconds = slotDurationSeconds,
      tp_slotsPerEpochExponent = slotsPerEpochExponent,
      tp_epochDurationSeconds = i64 (i64 (2 ^ unat slotsPerEpochExponent) * slotDurationSeconds),
      tp_epochDurationSlots = push_bit (unat slotsPerEpochExponent) 1\<rparr>"

definition SlotFromTime :: "time_provider \<Rightarrow> int \<Rightarrow> u32 go" where
  "SlotFromTime t targetTime =
    (let elapsed = timeSub targetTime (tp_genesisTime t) in
     if elapsed < 0 then Inr (tp_genesisSlot t)
     else andthen (quotG (elapsed sdiv 1000000000) (tp_slotDurationSeconds t)) (\<lambda>q.
          Inr (tp_genesisSlot t + word_of_int q + 1)))"

definition SlotStartTime :: "time_provider \<Rightarrow> u32 \<Rightarrow> int" where
  "SlotStartTime t slot =
    (if slot \<le> tp_genesisSlot t then tp_genesisTime t - 1
     else let startUnix = i64 (tp_genesisUnixTime t
                 + i64 (uint (slot - tp_genesisSlot t - 1) * tp_slotDurationSeconds t))
          in unixTime startUnix)"

definition SlotEndTime :: "time_provider \<Rightarrow> u32 \<Rightarrow> int" where
  "SlotEndTime t slot =
    (if slot \<le> tp_genesisSlot t then tp_genesisTime t - 1
     else let endUnix = i64 (tp_genesisUnixTime t
                 + i64 (uint (slot - tp_genesisSlot t) * tp_slotDurationSeconds t))
          in unixTime endUnix - 1)"

definition EpochFromSlot :: "time_provider \<Rightarrow> u32 \<Rightarrow> u32" where
  "EpochFromSlot t slot =
    (if slot \<le> tp_genesisSlot t then 0
     else drop_bit (unat (tp_slotsPerEpochExponent t)) (slot - tp_genesisSlot t))"

definition EpochStart :: "time_provider \<Rightarrow> u32 \<Rightarrow> u32" where
  "EpochStart t epoch = tp_genesisSlot t + push_bit (unat (tp_slotsPerEpochExponent t)) epoch"

definition EpochEnd :: "time_provider \<Rightarrow> u32 \<Rightarrow> u32" where
  "EpochEnd t epoch =
     tp_genesisSlot t + (push_bit (unat (tp_slotsPerEpochExponent t)) (epoch + 1) - 1)"

definition SlotsBeforeNextEpoch :: "time_provider \<Rightarrow> u32 \<Rightarrow> u32" where
  "SlotsBeforeNextEpoch t slot =
    (if slot < tp_genesisSlot t then 0
     else tp_genesisSlot t + EpochStart t (EpochFromSlot t slot + 1) - slot)"

definition SlotsSinceEpochStart :: "time_provider \<Rightarrow> u32 \<Rightarrow> u32" where
  "SlotsSinceEpochStart t slot =
    (if slot < tp_genesisSlot t then 0
     else tp_genesisSlot t + slot - EpochStart t (EpochFromSlot t slot))"

section \<open>Slots and time\<close>

text \<open>A sane clock: built by the constructor from a positive slot duration, with values far from the
  limits of @\<open>int64\<close> (the protocol parameters give the duration in one byte).\<close>

definition clock_ok :: "time_provider \<Rightarrow> bool" where
  "clock_ok t \<longleftrightarrow> 0 < tp_slotDurationSeconds t \<and> tp_slotDurationSeconds t < 2 ^ 30
     \<and> \<bar>tp_genesisUnixTime t\<bar> < 2 ^ 61 \<and> tp_genesisTime t = unixTime (tp_genesisUnixTime t)
     \<and> unat (tp_slotsPerEpochExponent t) < 32
     \<and> tp_epochDurationSlots t = push_bit (unat (tp_slotsPerEpochExponent t)) 1"

text \<open>A time that is within the range of @\<open>time.Duration\<close> of the genesis and whose slot fits.\<close>

definition in_range :: "time_provider \<Rightarrow> int \<Rightarrow> bool" where
  "in_range t x \<longleftrightarrow> \<bar>x - tp_genesisTime t\<bar> < 2 ^ 63
     \<and> uint (tp_genesisSlot t)
       + (x - tp_genesisTime t) div 1000000000 div tp_slotDurationSeconds t + 1 < 2 ^ 32"

lemma clock_ok_New:
  "0 < d \<Longrightarrow> d < 2 ^ 30 \<Longrightarrow> \<bar>u\<bar> < 2 ^ 61 \<Longrightarrow> unat e < 32 \<Longrightarrow> clock_ok (NewTimeProvider g u d e)"
  by (simp add: clock_ok_def NewTimeProvider_def)

lemma div_int_unique_iff_bounds:
  "0 < b \<Longrightarrow> a div b = (k :: int) \<longleftrightarrow> k * b \<le> a \<and> a < (k + 1) * b"
proof
  assume b: "0 < b" and k: "a div b = k"
  then have "a = k * b + a mod b" by (metis div_mult_mod_eq)
  moreover have "0 \<le> a mod b" "a mod b < b" using b by simp_all
  ultimately show "k * b \<le> a \<and> a < (k + 1) * b" by (simp add: distrib_right)
next
  assume "0 < b" and "k * b \<le> a \<and> a < (k + 1) * b"
  then show "a div b = k"
    by (intro int_div_pos_eq [of _ _ _ "a - k * b"]) (auto simp: algebra_simps)
qed

lemma i64_affine: "\<bar>u\<bar> < 2 ^ 61 \<Longrightarrow> 0 \<le> m \<Longrightarrow> m \<le> 2 ^ 62 \<Longrightarrow> i64 (u + i64 m) = u + m"
  by (simp add: abs_less_iff)

lemma slot_distance:
  assumes "g < (s :: u32)"
  shows "uint (s - g) = uint s - uint g" and "uint (s - g - 1) = uint s - uint g - 1"
proof -
  show d: "uint (s - g) = uint s - uint g"
    using assms by (simp add: uint_sub_if' word_less_def)
  have "1 \<le> uint (s - g)"
    using d assms by (simp add: word_less_def)
  then show "uint (s - g - 1) = uint s - uint g - 1"
    using d by (simp add: uint_sub_if')
qed

lemma slot_seconds_bounds:
  assumes "clock_ok t" "0 \<le> k" "k \<le> (2 :: int) ^ 32"
  shows "0 \<le> k * tp_slotDurationSeconds t" and "k * tp_slotDurationSeconds t \<le> 2 ^ 62"
proof -
  have "k * tp_slotDurationSeconds t \<le> 2 ^ 32 * 2 ^ 30"
    using assms by (intro mult_mono) (auto simp: clock_ok_def)
  then show "k * tp_slotDurationSeconds t \<le> 2 ^ 62" by simp
  show "0 \<le> k * tp_slotDurationSeconds t"
    using assms by (simp add: clock_ok_def)
qed

lemma slot_time_exact:
  assumes ok: "clock_ok t" and s: "tp_genesisSlot t < s"
  defines "k \<equiv> uint s - uint (tp_genesisSlot t)"
  shows "SlotStartTime t s = tp_genesisTime t + (k - 1) * tp_slotDurationSeconds t * 1000000000"
    and "SlotEndTime t s = tp_genesisTime t + k * tp_slotDurationSeconds t * 1000000000 - 1"
proof -
  note d = slot_distance [OF s, folded k_def]
  have ns: "\<not> s \<le> tp_genesisSlot t" using s by simp
  have "uint s \<le> 2 ^ 32" using uint_bounded [of s] by simp
  then have k: "1 \<le> k" "k \<le> 2 ^ 32"
    using s uint_ge_0 [of "tp_genesisSlot t"]
    unfolding k_def word_less_def by linarith+
  have "i64 (tp_genesisUnixTime t + i64 ((k - 1) * tp_slotDurationSeconds t))
      = tp_genesisUnixTime t + (k - 1) * tp_slotDurationSeconds t"
    using ok k slot_seconds_bounds [OF ok, of "k - 1"] by (intro i64_affine) (auto simp: clock_ok_def)
  then show "SlotStartTime t s = tp_genesisTime t + (k - 1) * tp_slotDurationSeconds t * 1000000000"
    using ok ns by (simp add: SlotStartTime_def d clock_ok_def unixTime_def Let_def distrib_right)
  have "i64 (tp_genesisUnixTime t + i64 (k * tp_slotDurationSeconds t))
      = tp_genesisUnixTime t + k * tp_slotDurationSeconds t"
    using ok k slot_seconds_bounds [OF ok, of k] by (intro i64_affine) (auto simp: clock_ok_def)
  then show "SlotEndTime t s = tp_genesisTime t + k * tp_slotDurationSeconds t * 1000000000 - 1"
    using ok ns by (simp add: SlotEndTime_def d clock_ok_def unixTime_def Let_def distrib_right)
qed

lemma SlotFromTime_exact:
  assumes ok: "clock_ok t" and r: "in_range t x" and x: "tp_genesisTime t \<le> x"
  defines "q \<equiv> (x - tp_genesisTime t) div 1000000000 div tp_slotDurationSeconds t"
  shows "SlotFromTime t x = Inr (tp_genesisSlot t + word_of_int q + 1)" and "0 \<le> q"
    and "uint (tp_genesisSlot t + word_of_int q + 1) = uint (tp_genesisSlot t) + q + 1"
proof -
  let ?d = "tp_slotDurationSeconds t"
  have d: "0 < ?d" using ok by (simp add: clock_ok_def)
  have sub: "timeSub x (tp_genesisTime t) = x - tp_genesisTime t"
    using r x by (simp add: timeSub_def in_range_def)
  show q: "0 \<le> q"
    using d x by (simp add: q_def pos_imp_zdiv_nonneg_iff)
  have "q \<le> (x - tp_genesisTime t) div 1000000000"
    using d x unfolding q_def by (intro div_le_self_int) (auto simp: pos_imp_zdiv_nonneg_iff)
  also have "\<dots> \<le> x - tp_genesisTime t"
    using x by (intro div_le_self_int) auto
  finally have "q < 2 ^ 63" using r by (simp add: in_range_def abs_less_iff)
  then have "i64 q = q" using q by simp
  then have "quotG ((x - tp_genesisTime t) sdiv 1000000000) ?d = Inr q"
    using d x q by (simp add: quotG_def q_def sdiv_nonneg pos_imp_zdiv_nonneg_iff)
  then show "SlotFromTime t x = Inr (tp_genesisSlot t + word_of_int q + 1)"
    using x by (simp add: SlotFromTime_def sub)
  have "uint (tp_genesisSlot t) + q + 1 < 2 ^ 32"
    using r by (simp add: in_range_def q_def)
  moreover have "tp_genesisSlot t + word_of_int q + 1 = word_of_int (uint (tp_genesisSlot t) + q + 1)"
    by simp
  ultimately show "uint (tp_genesisSlot t + word_of_int q + 1) = uint (tp_genesisSlot t) + q + 1"
    using q by (simp only: uint_word_of_int) (simp add: take_bit_int_eq_self)
qed


lemma SlotFromTime_interval:
  assumes "clock_ok t" "in_range t x"
  shows "SlotFromTime t x = Inr s \<longleftrightarrow>
    (if s \<le> tp_genesisSlot t then s = tp_genesisSlot t \<and> x < tp_genesisTime t
     else SlotStartTime t s \<le> x \<and> x \<le> SlotEndTime t s)"
proof (cases "tp_genesisTime t \<le> x")
  case True
  let ?d = "tp_slotDurationSeconds t" and ?g = "uint (tp_genesisSlot t)"
  define q where "q = (x - tp_genesisTime t) div 1000000000 div ?d"
  note ex = SlotFromTime_exact [OF assms True, folded q_def]
  have d: "0 < ?d * 1000000000" using assms by (simp add: clock_ok_def)
  have "SlotFromTime t x = Inr s \<longleftrightarrow> uint s = ?g + q + 1"
    by (simp only: ex(1) sum.inject word_uint_eq_iff ex(3)) auto
  also have "\<dots> \<longleftrightarrow> (tp_genesisSlot t < s \<and> q = uint s - ?g - 1)"
    using ex(2) by (auto simp: word_less_def)
  also have "\<dots> \<longleftrightarrow> (tp_genesisSlot t < s \<and> SlotStartTime t s \<le> x \<and> x \<le> SlotEndTime t s)"
  proof (cases "tp_genesisSlot t < s")
    case True
    have "q = (x - tp_genesisTime t) div (?d * 1000000000)"
      using zdiv_zmult2_eq [of ?d "x - tp_genesisTime t" 1000000000] d
      by (simp add: q_def mult.commute [of ?d])
    then have "q = uint s - ?g - 1 \<longleftrightarrow>
        (uint s - ?g - 1) * (?d * 1000000000) \<le> x - tp_genesisTime t
        \<and> x - tp_genesisTime t < (uint s - ?g - 1 + 1) * (?d * 1000000000)"
      using d by (simp only: div_int_unique_iff_bounds)
    then show ?thesis using True slot_time_exact [OF assms(1) True] by (auto simp: algebra_simps)
  qed simp
  finally show ?thesis using True by auto
next
  case False
  then have "SlotFromTime t x = Inr (tp_genesisSlot t)"
    by (simp add: SlotFromTime_def timeSub_def)
  moreover have "tp_genesisTime t \<le> SlotStartTime t s" if "tp_genesisSlot t < s"
    using slot_time_exact(1) [OF assms(1) that] assms(1) that
    by (auto simp: clock_ok_def word_less_def)
  ultimately show ?thesis using False by (auto simp: not_le)
qed

text \<open>C40: the k-th slot after the genesis slot lasts from (k - 1) to k slot durations after the genesis
  time (Unix seconds, here in nanoseconds), its end time being the last nanosecond of it; a time belongs
  to a slot exactly when it lies between the start and the end time of the slot.  The slot of the genesis
  takes all the times before the genesis, and the last of them is its start and end time (and that of the
  slots before it).\<close>

theorem slot_of_time:
  assumes "clock_ok t" "in_range t x"
  shows "(SlotFromTime t x = Inr s \<longleftrightarrow>
      (if s \<le> tp_genesisSlot t then s = tp_genesisSlot t \<and> x < tp_genesisUnixTime t * 10 ^ 9
       else SlotStartTime t s \<le> x \<and> x \<le> SlotEndTime t s))
    \<and> (if s \<le> tp_genesisSlot t
       then SlotStartTime t s = tp_genesisUnixTime t * 10 ^ 9 - 1 \<and> SlotEndTime t s = tp_genesisUnixTime t * 10 ^ 9 - 1
       else SlotStartTime t s = (tp_genesisUnixTime t
              + (int (unat s) - int (unat (tp_genesisSlot t)) - 1) * tp_slotDurationSeconds t) * 10 ^ 9
         \<and> SlotEndTime t s = (tp_genesisUnixTime t
              + (int (unat s) - int (unat (tp_genesisSlot t))) * tp_slotDurationSeconds t) * 10 ^ 9 - 1)"
proof (intro conjI)
  have g: "tp_genesisTime t = tp_genesisUnixTime t * 10 ^ 9"
    using assms(1) by (simp add: clock_ok_def unixTime_def)
  show "SlotFromTime t x = Inr s \<longleftrightarrow>
      (if s \<le> tp_genesisSlot t then s = tp_genesisSlot t \<and> x < tp_genesisUnixTime t * 10 ^ 9
       else SlotStartTime t s \<le> x \<and> x \<le> SlotEndTime t s)"
    using SlotFromTime_interval [OF assms] unfolding g .
  show "if s \<le> tp_genesisSlot t
       then SlotStartTime t s = tp_genesisUnixTime t * 10 ^ 9 - 1 \<and> SlotEndTime t s = tp_genesisUnixTime t * 10 ^ 9 - 1
       else SlotStartTime t s = (tp_genesisUnixTime t
              + (int (unat s) - int (unat (tp_genesisSlot t)) - 1) * tp_slotDurationSeconds t) * 10 ^ 9
         \<and> SlotEndTime t s = (tp_genesisUnixTime t
              + (int (unat s) - int (unat (tp_genesisSlot t))) * tp_slotDurationSeconds t) * 10 ^ 9 - 1"
  proof (cases "s \<le> tp_genesisSlot t")
    case True
    then show ?thesis by (simp add: SlotStartTime_def SlotEndTime_def g)
  next
    case False
    then have "tp_genesisSlot t < s" by simp
    from slot_time_exact [OF assms(1) this] False show ?thesis by (simp add: g algebra_simps)
  qed
qed


section \<open>Epochs and slots\<close>

text \<open>All slots of the epoch, up to the first one of the next epoch, are @\<open>uint32\<close> values.\<close>

definition epoch_fits :: "time_provider \<Rightarrow> u32 \<Rightarrow> bool" where
  "epoch_fits t e \<longleftrightarrow>
     unat (tp_genesisSlot t) + (unat e + 1) * 2 ^ unat (tp_slotsPerEpochExponent t) < 2 ^ 32"

lemma epoch_bounds_exact:
  assumes "epoch_fits t e"
  shows "unat (EpochStart t e)
      = unat (tp_genesisSlot t) + unat e * 2 ^ unat (tp_slotsPerEpochExponent t)"
    and "unat (EpochEnd t e)
      = unat (tp_genesisSlot t) + (unat e + 1) * 2 ^ unat (tp_slotsPerEpochExponent t) - 1"
    and "unat (EpochStart t (e + 1))
      = unat (tp_genesisSlot t) + (unat e + 1) * 2 ^ unat (tp_slotsPerEpochExponent t)"
proof -
  let ?x = "unat (tp_slotsPerEpochExponent t)" and ?g = "tp_genesisSlot t"
  have f: "unat ?g + (unat e + 1) * 2 ^ ?x < 2 ^ 32"
    using assms by (simp add: epoch_fits_def)
  have e1: "unat (e + 1) = unat e + 1"
  proof -
    have "(unat e + 1) * 1 \<le> (unat e + 1) * 2 ^ ?x" by (intro mult_left_mono) auto
    with f have "unat e + unat (1 :: u32) < 2 ^ LENGTH(32)" by simp
    from unat_add_small [OF this] show ?thesis by simp
  qed
  have p0: "unat (push_bit ?x e) = unat e * 2 ^ ?x"
    using f by (intro unat_push_bit_small) (simp add: distrib_right)
  have p1: "unat (push_bit ?x (e + 1)) = (unat e + 1) * 2 ^ ?x"
    using f e1 by (subst unat_push_bit_small) simp_all
  show "unat (EpochStart t e) = unat ?g + unat e * 2 ^ ?x"
    using f p0 by (simp add: EpochStart_def unat_add_small distrib_right)
  show "unat (EpochStart t (e + 1)) = unat ?g + (unat e + 1) * 2 ^ ?x"
    using f p1 by (simp add: EpochStart_def unat_add_small)
  have "1 \<le> push_bit ?x (e + 1)"
    using p1 by (simp add: word_le_nat_alt Suc_le_eq)
  then have m1: "unat (push_bit ?x (e + 1) - 1) = (unat e + 1) * 2 ^ ?x - 1"
    using p1 by (simp add: unat_sub_small)
  have "1 \<le> (unat e + 1) * 2 ^ ?x" by (simp add: Suc_le_eq)
  then show "unat (EpochEnd t e) = unat ?g + (unat e + 1) * 2 ^ ?x - 1"
    using f m1 by (simp add: EpochEnd_def unat_add_small)
qed

lemma epoch_bounds:
  assumes "epoch_fits t e"
  obtains m w where "0 < w" "w = 2 ^ unat (tp_slotsPerEpochExponent t)" "m = unat e * w"
    "unat (EpochStart t e) = unat (tp_genesisSlot t) + m"
    "unat (EpochEnd t e) + 1 = unat (tp_genesisSlot t) + m + w"
    "unat (EpochStart t (e + 1)) = unat (tp_genesisSlot t) + m + w"
proof (rule that [OF _ refl refl])
  let ?w = "2 ^ unat (tp_slotsPerEpochExponent t) :: nat"
  show "0 < ?w" by simp
  show "unat (EpochStart t e) = unat (tp_genesisSlot t) + unat e * ?w"
    "unat (EpochEnd t e) + 1 = unat (tp_genesisSlot t) + unat e * ?w + ?w"
    "unat (EpochStart t (e + 1)) = unat (tp_genesisSlot t) + unat e * ?w + ?w"
    by (simp_all add: epoch_bounds_exact [OF assms] Suc_le_eq)
qed

lemma EpochFromSlot_unat:
  "unat (EpochFromSlot t s)
    = (unat s - unat (tp_genesisSlot t)) div 2 ^ unat (tp_slotsPerEpochExponent t)"
proof (cases "s \<le> tp_genesisSlot t")
  case True
  then show ?thesis by (simp add: EpochFromSlot_def word_le_nat_alt)
next
  case False
  then show ?thesis
    by (simp add: EpochFromSlot_def unat_sub_small unat_simps del: unat_drop_bit_eq drop_bit_word_beyond)
qed


text \<open>What a client of the clock relies on: the epochs partition the slots from the genesis slot on,
  consecutive epochs are adjacent.\<close>

locale slot_clock =
  fixes clock_inv :: "'c \<Rightarrow> bool" and fits :: "'c \<Rightarrow> u32 \<Rightarrow> bool" and origin :: "'c \<Rightarrow> u32"
    and epoch_of :: "'c \<Rightarrow> u32 \<Rightarrow> u32" and first_slot :: "'c \<Rightarrow> u32 \<Rightarrow> u32"
    and last_slot :: "'c \<Rightarrow> u32 \<Rightarrow> u32"
  assumes partition: "clock_inv c \<Longrightarrow> fits c e \<Longrightarrow> origin c \<le> s \<Longrightarrow>
      epoch_of c s = e \<longleftrightarrow> first_slot c e \<le> s \<and> s \<le> last_slot c e"
    and adjacent: "clock_inv c \<Longrightarrow> fits c e \<Longrightarrow> unat (first_slot c (e + 1)) = unat (last_slot c e) + 1"
    and nonempty: "clock_inv c \<Longrightarrow> fits c e \<Longrightarrow> origin c \<le> first_slot c e \<and> first_slot c e \<le> last_slot c e"
begin

lemma epoch_of_first: "clock_inv c \<Longrightarrow> fits c e \<Longrightarrow> epoch_of c (first_slot c e) = e"
  using partition nonempty by blast

lemma epoch_of_last: "clock_inv c \<Longrightarrow> fits c e \<Longrightarrow> epoch_of c (last_slot c e) = e"
  using partition nonempty by (meson order_trans order_refl)

lemma slots_of_epoch:
  "clock_inv c \<Longrightarrow> fits c e \<Longrightarrow>
    {s. origin c \<le> s \<and> epoch_of c s = e} = {first_slot c e..last_slot c e}"
  using partition nonempty by fastforce

lemma remaining_slots:
  assumes "clock_inv c" "fits c e" "origin c \<le> s" "epoch_of c s = e"
  shows "card {u. s \<le> u \<and> epoch_of c u = e} = unat (first_slot c (e + 1)) - unat s"
proof -
  have "{u. s \<le> u \<and> epoch_of c u = e} = {s..last_slot c e}"
  proof -
    have f: "first_slot c e \<le> s" using partition [OF assms(1,2,3)] assms(4) by simp
    have "s \<le> u \<and> epoch_of c u = e \<longleftrightarrow> u \<in> {s..last_slot c e}" for u
    proof (cases "s \<le> u")
      case True
      with f assms(3) have "origin c \<le> u" "first_slot c e \<le> u" by (blast intro: order_trans)+
      with partition [OF assms(1,2)] True show ?thesis by simp
    qed simp
    then show ?thesis by blast
  qed
  then show ?thesis
    using adjacent [of c e] assms by (simp add: card_word_interval)
qed

lemma elapsed_slots:
  assumes "clock_inv c" "fits c e" "origin c \<le> s" "epoch_of c s = e"
  shows "card {u. origin c \<le> u \<and> u < s \<and> epoch_of c u = e} = unat s - unat (first_slot c e)"
proof -
  have s: "first_slot c e \<le> s" "s \<le> last_slot c e" using assms partition by auto
  have "origin c \<le> u \<and> u < s \<and> epoch_of c u = e \<longleftrightarrow> u \<in> {first_slot c e..s} - {s}" for u
  proof (cases "origin c \<le> u")
    case True
    with partition [OF assms(1,2) True] s(2) show ?thesis by (auto simp: less_le dest: order_trans)
  next
    case False
    with nonempty [OF assms(1,2)] show ?thesis by (auto dest: order_trans)
  qed
  then have "{u. origin c \<le> u \<and> u < s \<and> epoch_of c u = e} = {first_slot c e..s} - {s}" by blast
  also have "card \<dots> = unat s - unat (first_slot c e)"
    using s by (simp add: card_Diff_singleton card_word_interval word_le_nat_alt)
  finally show ?thesis .
qed

end

lemma epoch_partition_aux:
  assumes f: "epoch_fits t e" and s: "tp_genesisSlot t \<le> s"
  shows "EpochFromSlot t s = e \<longleftrightarrow> EpochStart t e \<le> s \<and> s \<le> EpochEnd t e"
proof -
  obtain m w where b: "0 < w" "w = 2 ^ unat (tp_slotsPerEpochExponent t)" "m = unat e * w"
    "unat (EpochStart t e) = unat (tp_genesisSlot t) + m"
    "unat (EpochEnd t e) + 1 = unat (tp_genesisSlot t) + m + w"
    by (rule epoch_bounds [OF f])
  have "EpochFromSlot t s = e \<longleftrightarrow> (unat s - unat (tp_genesisSlot t)) div w = unat e"
    by (simp add: word_eq_iff_unat EpochFromSlot_unat b)
  also have "\<dots> \<longleftrightarrow> m \<le> unat s - unat (tp_genesisSlot t) \<and> unat s - unat (tp_genesisSlot t) < m + w"
    using b(1) by (simp add: div_nat_eq_iff b(3) add.commute)
  finally show ?thesis
    using s b(1,4,5) unfolding word_le_nat_alt by linarith
qed

interpretation tpc: slot_clock clock_ok epoch_fits tp_genesisSlot EpochFromSlot EpochStart EpochEnd
proof unfold_locales
  fix c e
  assume "epoch_fits c e"
  then obtain m w where b: "0 < w" "unat (EpochStart c e) = unat (tp_genesisSlot c) + m"
    "unat (EpochEnd c e) + 1 = unat (tp_genesisSlot c) + m + w"
    "unat (EpochStart c (e + 1)) = unat (tp_genesisSlot c) + m + w"
    by (rule epoch_bounds)
  then show "unat (EpochStart c (e + 1)) = unat (EpochEnd c e) + 1"
    "tp_genesisSlot c \<le> EpochStart c e \<and> EpochStart c e \<le> EpochEnd c e"
    unfolding word_le_nat_alt by linarith+
qed (rule epoch_partition_aux)

lemma epoch_mono: "s \<le> s' \<Longrightarrow> EpochFromSlot t s \<le> EpochFromSlot t s'"
  by (auto simp: word_le_nat_alt EpochFromSlot_unat intro: div_le_mono)

definition demo_clock :: time_provider where
  "demo_clock = NewTimeProvider 0 1600000000 10 3"

lemma demo_clock_ok [simp]: "clock_ok demo_clock"
  by (simp add: demo_clock_def clock_ok_New)

lemma demo_clock_sel [simp]:
  "tp_genesisSlot demo_clock = 0" "tp_genesisUnixTime demo_clock = 1600000000"
  "tp_genesisTime demo_clock = 1600000000000000000" "tp_slotDurationSeconds demo_clock = 10"
  "tp_slotsPerEpochExponent demo_clock = 3" "tp_epochDurationSlots demo_clock = 8"
  by (simp_all add: demo_clock_def NewTimeProvider_def unixTime_def push_bit_eq_mult)

theorem slot_of_time_witness:
  "SlotFromTime demo_clock 1600000025000000000 = Inr 3
    \<and> SlotStartTime demo_clock 3 = 1600000020000000000 \<and> SlotEndTime demo_clock 3 = 1600000029999999999"
proof -
  have r: "in_range demo_clock 1600000025000000000" by (simp add: in_range_def)
  from slot_of_time [OF demo_clock_ok r, of 3] show ?thesis by simp
qed

text \<open>From the genesis slot on, a slot belongs to an epoch exactly when it lies between the first
  and the last slot that the provider gives for the epoch.\<close>

theorem epoch_of_slot:
  assumes "clock_ok t" "epoch_fits t e" "tp_genesisSlot t \<le> s"
  shows "EpochFromSlot t s = e \<longleftrightarrow> EpochStart t e \<le> s \<and> s \<le> EpochEnd t e"
  using assms by (rule tpc.partition)

theorem epoch_of_slot_witness:
  "EpochFromSlot demo_clock 20 = 2 \<and> EpochStart demo_clock 2 = 16 \<and> EpochEnd demo_clock 2 = 23"
proof -
  have "epoch_fits demo_clock 2" by (simp add: epoch_fits_def)
  from epoch_of_slot [OF demo_clock_ok this, of 20]
  show ?thesis by (simp add: EpochStart_def EpochEnd_def push_bit_eq_mult)
qed

text \<open>The two slot counters of the epoch count the slots of the epoch from the given slot on and
  the slots of the epoch before it, but both results are too large by the genesis slot.\<close>

theorem slot_counters:
  assumes "clock_ok t" "epoch_fits t (EpochFromSlot t s)" "tp_genesisSlot t \<le> s"
  shows "SlotsBeforeNextEpoch t s
      = word_of_nat (card {u. s \<le> u \<and> EpochFromSlot t u = EpochFromSlot t s}) + tp_genesisSlot t
    \<and> SlotsSinceEpochStart t s
      = word_of_nat (card {u. tp_genesisSlot t \<le> u \<and> u < s \<and> EpochFromSlot t u = EpochFromSlot t s})
        + tp_genesisSlot t"
proof -
  let ?e = "EpochFromSlot t s"
  have part: "EpochStart t ?e \<le> s" "s \<le> EpochEnd t ?e"
    using tpc.partition [OF assms] by auto
  then have "s \<le> EpochStart t (?e + 1)"
    using tpc.adjacent [OF assms(1,2)] by (simp add: word_le_nat_alt)
  moreover have "\<not> s < tp_genesisSlot t" using assms(3) by simp
  ultimately show ?thesis
    using part(1) assms(3)
    by (simp add: SlotsBeforeNextEpoch_def SlotsSinceEpochStart_def tpc.remaining_slots [OF assms refl]
        tpc.elapsed_slots [OF assms refl] word_of_nat_diff)
qed

theorem slot_counters_witness:
  "SlotsBeforeNextEpoch demo_clock 20 = 4 \<and> SlotsSinceEpochStart demo_clock 20 = 4
    \<and> word_of_nat (card {u. 20 \<le> u \<and> EpochFromSlot demo_clock u = 2}) = (4 :: u32)"
proof -
  have e: "EpochFromSlot demo_clock 20 = 2"
    by (simp add: EpochFromSlot_def drop_bit_eq_div)
  have "epoch_fits demo_clock (EpochFromSlot demo_clock 20)" by (simp add: epoch_fits_def e)
  from slot_counters [OF demo_clock_ok this] e show ?thesis
    by (simp add: SlotsBeforeNextEpoch_def SlotsSinceEpochStart_def EpochStart_def push_bit_eq_mult)
qed

end
