(* ===== verification/Mana_Decay.thy ===== *)
theory Mana_Decay
  imports Time_Provider
begin

text \<open>
  Mana decay and generation: mana_decay_provider.go and mana.go.  The fixed point routines split a
  @\<open>uint64\<close> into two double-words; they are related to the exact products on the natural numbers.
\<close>

unbundle bit_operations_syntax

section \<open>Fixed point multiplication\<close>

definition splitUint64 :: "u64 \<Rightarrow> u64 \<times> u64" where
  "splitUint64 value = (drop_bit 32 value, value AND 0x00000000FFFFFFFF)"

definition mergeUint64 :: "u64 \<Rightarrow> u64 \<Rightarrow> u64" where
  "mergeUint64 valueHi valueLo = push_bit 32 valueHi OR valueLo"

definition fixedPointMultiplication32Splitted ::
    "u64 \<Rightarrow> u64 \<Rightarrow> u64 \<Rightarrow> u64 \<Rightarrow> (u64 \<times> u64) go" where
  "fixedPointMultiplication32Splitted valueHi valueLo factor scale =
    (if 32 < scale
     then throw (Errorf ''fixed point multiplication with a scaling factor >32 (%d) not allowed'')
     else
       let valueHi = valueHi * factor;
           valueLo = push_bit (unat (32 - scale)) (valueHi AND (push_bit (unat scale) 1 - 1))
                     + drop_bit (unat scale) (valueLo * factor);
           valueHi = drop_bit (unat scale) valueHi + drop_bit 32 valueLo;
           valueLo = valueLo AND 0x00000000FFFFFFFF
       in Inr (valueHi, valueLo))"

definition fixedPointMultiplication32 :: "u64 \<Rightarrow> u64 \<Rightarrow> u64 \<Rightarrow> u64 go" where
  "fixedPointMultiplication32 value factor scale =
    (let remainingScale = (if 32 < scale then scale - 32 else 0);
         scale = (if 32 < scale then 32 else scale);
         (valueHi, valueLo) = splitUint64 value
     in andthen (fixedPointMultiplication32Splitted valueHi valueLo factor scale)
          (\<lambda>(resultHi, resultLo).
             Inr (drop_bit (unat remainingScale) (mergeUint64 resultHi resultLo))))"

section \<open>The provider\<close>

record mana_parameters =
  mp_BitsCount :: u8
  mp_GenerationRate :: u8
  mp_GenerationRateExponent :: u8
  mp_DecayFactors :: "u32 list"
  mp_DecayFactorsExponent :: u8
  mp_DecayFactorEpochsSum :: u32
  mp_DecayFactorEpochsSumExponent :: u8
  mp_AnnualDecayFactorPercentage :: u8

record mana_decay_provider =
  mdp_timeProvider :: time_provider
  mdp_slotsPerEpochExponent :: u64
  mdp_bitsCount :: u64
  mdp_generationRate :: u64
  mdp_generationRateExponent :: u64
  mdp_decayFactors :: "u64 list"
  mdp_decayFactorsLength :: u64
  mdp_decayFactorsExponent :: u64
  mdp_decayFactorEpochsSum :: u64
  mdp_decayFactorEpochsSumExponent :: u64

definition NewManaDecayProvider ::
    "time_provider \<Rightarrow> u8 \<Rightarrow> mana_parameters \<Rightarrow> mana_decay_provider" where
  "NewManaDecayProvider timeProvider slotsPerEpochExponent m =
     \<lparr>mdp_timeProvider = timeProvider,
      mdp_slotsPerEpochExponent = ucast slotsPerEpochExponent,
      mdp_bitsCount = ucast (mp_BitsCount m),
      mdp_generationRate = ucast (mp_GenerationRate m),
      mdp_generationRateExponent = ucast (mp_GenerationRateExponent m),
      mdp_decayFactors = map ucast (mp_DecayFactors m),
      mdp_decayFactorsLength = word_of_nat (length (mp_DecayFactors m)),
      mdp_decayFactorsExponent = ucast (mp_DecayFactorsExponent m),
      mdp_decayFactorEpochsSum = ucast (mp_DecayFactorEpochsSum m),
      mdp_decayFactorEpochsSumExponent = ucast (mp_DecayFactorEpochsSumExponent m)\<rparr>"

text \<open>The loop of @\<open>decay\<close>.  Each round takes off as many epochs as the table covers, so the number of
  epochs is enough fuel unless the table length is a multiple of @\<open>2 ^ 32\<close>, for which the code loops
  for ever.\<close>

fun decay_loop :: "nat \<Rightarrow> mana_decay_provider \<Rightarrow> u32 \<Rightarrow> u64 \<Rightarrow> u64 \<Rightarrow> (u64 \<times> u64) go" where
  "decay_loop fuel p remainingEpochDiff valueHi valueLo =
    (if 0 < remainingEpochDiff then
       (case fuel of 0 \<Rightarrow> Inl NoReturn
        | Suc fuel' \<Rightarrow>
          let len = ucast (mdp_decayFactorsLength p);
              diffsToDecay = (if len < remainingEpochDiff then len else remainingEpochDiff);
              remainingEpochDiff' = remainingEpochDiff - diffsToDecay
          in andthen (nthG (mdp_decayFactors p) (unat (diffsToDecay - 1))) (\<lambda>decayFactor.
             andthen (wrapE ''failed to calculate mana decay''
                        (fixedPointMultiplication32Splitted valueHi valueLo decayFactor
                           (mdp_decayFactorsExponent p))) (\<lambda>(valueHi', valueLo').
             decay_loop fuel' p remainingEpochDiff' valueHi' valueLo')))
     else Inr (valueHi, valueLo))"

definition decay :: "mana_decay_provider \<Rightarrow> u64 \<Rightarrow> u32 \<Rightarrow> u64 go" where
  "decay p v epochDiff =
    (if v = 0 \<or> epochDiff = 0 \<or> mdp_decayFactorsLength p = 0 then Inr v
     else
       let (valueHi, valueLo) = splitUint64 v
       in andthen (decay_loop (unat epochDiff) p epochDiff valueHi valueLo) (\<lambda>(hi, lo).
          Inr (mergeUint64 hi lo)))"

definition generateMana :: "mana_decay_provider \<Rightarrow> u64 \<Rightarrow> u32 \<Rightarrow> u64 go" where
  "generateMana p v slotDiff =
    (if slotDiff = 0 \<or> mdp_generationRate p = 0 then Inr 0
     else wrapE ''failed to calculate mana generation''
            (fixedPointMultiplication32 v (ucast slotDiff * mdp_generationRate p)
               (mdp_generationRateExponent p)))"

definition DecayManaByEpochs :: "mana_decay_provider \<Rightarrow> u64 \<Rightarrow> u32 \<Rightarrow> u32 \<Rightarrow> u64 go" where
  "DecayManaByEpochs p mana creationEpoch targetEpoch =
    (if targetEpoch < creationEpoch
     then throw (Wrap (Sentinel ''ErrManaDecayCreationIndexExceedsTargetIndex'')
                   ''the creation epoch (%d) was greater than the target epoch (%d)'')
     else decay p mana (targetEpoch - creationEpoch))"

definition DecayManaBySlots :: "mana_decay_provider \<Rightarrow> u64 \<Rightarrow> u32 \<Rightarrow> u32 \<Rightarrow> u64 go" where
  "DecayManaBySlots p mana creationSlot targetSlot =
    (let creationEpoch = EpochFromSlot (mdp_timeProvider p) creationSlot;
         targetEpoch = EpochFromSlot (mdp_timeProvider p) targetSlot
     in DecayManaByEpochs p mana creationEpoch targetEpoch)"

definition GenerateManaAndDecayBySlots ::
    "'a deps_scheme \<Rightarrow> mana_decay_provider \<Rightarrow> u64 \<Rightarrow> u32 \<Rightarrow> u32 \<Rightarrow> u64 go" where
  "GenerateManaAndDecayBySlots D p amount creationSlot targetSlot =
    (if targetSlot < creationSlot
     then throw (Wrap (Sentinel ''ErrManaDecayCreationIndexExceedsTargetIndex'')
                   ''the creation slot (%d) was greater than the target slot (%d)'')
     else
       let tp = mdp_timeProvider p;
           creationEpoch = EpochFromSlot tp creationSlot;
           targetEpoch = EpochFromSlot tp targetSlot;
           epochDiff = targetEpoch - creationEpoch
       in if epochDiff = 0 then
         wrapE ''failed to calculate generated mana''
           (generateMana p amount (targetSlot - creationSlot))
       else if epochDiff = 1 then
         andthen (wrapE ''failed to calculate generated mana in the first epoch''
           (generateMana p amount (SlotsBeforeNextEpoch tp creationSlot))) (\<lambda>manaGeneratedFirstEpoch.
         andthen (wrapE ''failed to decay generated mana in the first epoch''
           (decay p manaGeneratedFirstEpoch 1)) (\<lambda>manaDecayedFirstEpoch.
         andthen (wrapE ''failed to calculate generated mana in the second epoch''
           (generateMana p amount (SlotsSinceEpochStart tp targetSlot))) (\<lambda>manaGeneratedSecondEpoch.
         wrapE ''failed to calculate sum of generated mana''
           (liftE (SafeAdd64 D manaDecayedFirstEpoch manaGeneratedSecondEpoch)))))
       else
         andthen (wrapE ''failed to calculate generated mana in the first epoch''
           (generateMana p amount (SlotsBeforeNextEpoch tp creationSlot))) (\<lambda>manaGeneratedFirstEpoch.
         andthen (wrapE ''failed to decay generated mana in the first epoch''
           (decay p manaGeneratedFirstEpoch epochDiff)) (\<lambda>manaDecayedFirstEpoch.
         andthen (wrapE ''failed to calculate auxiliary value''
           (fixedPointMultiplication32 amount (mdp_decayFactorEpochsSum p * mdp_generationRate p)
              (mdp_decayFactorEpochsSumExponent p + mdp_generationRateExponent p
                 - mdp_slotsPerEpochExponent p))) (\<lambda>c.
         andthen (wrapE ''failed to calculate second auxiliary value''
           (decay p c (epochDiff - 1))) (\<lambda>c2.
         andthen (wrapE ''failed to decay generated mana in the intermediate epochs''
           (liftE (SafeSub64 D c c2))) (\<lambda>manaDecayedIntermediateEpochs.
         andthen (wrapE ''failed to calculate generated mana in the last epoch''
           (generateMana p amount (SlotsSinceEpochStart tp targetSlot))) (\<lambda>manaGeneratedLastEpoch.
         andthen (wrapE ''failed to calculate sum of generated mana after first epoch''
           (liftE (SafeAdd64 D manaDecayedIntermediateEpochs manaGeneratedLastEpoch))) (\<lambda>result.
         andthen (wrapE ''failed to calculate sum of generated mana''
           (liftE (SafeAdd64 D result manaDecayedFirstEpoch))) (\<lambda>result.
         wrapE ''failed to calculate subtraction of generated mana from the rounding term''
           (liftE (SafeSub64 D result
              (drop_bit (unat (mdp_decayFactorsExponent p)) c))))))))))))"

section \<open>Rewards and costs\<close>

record rewards_parameters =
  rp_ProfitMarginExponent :: u8
  rp_BootstrappingDuration :: u32
  rp_RewardToGenerationRatio :: u8
  rp_InitialTargetRewardsRate :: u64
  rp_FinalTargetRewardsRate :: u64
  rp_PoolCoefficientExponent :: u8
  rp_RetentionPeriod :: u16

definition TargetReward ::
    "rewards_parameters \<Rightarrow> u32 \<Rightarrow> rewards_parameters \<Rightarrow> mana_decay_provider \<Rightarrow> u64 go" where
  "TargetReward r epoch api_rewards api_mdp =
    (if rp_BootstrappingDuration r < epoch then Inr (rp_FinalTargetRewardsRate api_rewards)
     else wrapE ''failed to calculate decayed initial reward''
            (DecayManaByEpochs api_mdp (rp_InitialTargetRewardsRate api_rewards) 0 epoch))"

definition ManaCost :: "'a deps_scheme \<Rightarrow> u64 \<Rightarrow> u32 \<Rightarrow> u64 go" where
  "ManaCost D rmc workScore = liftE (SafeMul64 D rmc (ucast workScore))"

declare decay_loop.simps [simp del]

section \<open>Exactness of the fixed point routines\<close>

lemma unat_mask32: "unat (v AND 0x00000000FFFFFFFF :: u64) = unat v mod 2 ^ 32"
proof -
  have "v AND 0xFFFFFFFF = take_bit 32 v"
    by (simp add: take_bit_eq_mask mask_eq_exp_minus_1)
  then show ?thesis by (simp only: unat_take_bit_mod)
qed

lemma splitUint64_exact:
  "splitUint64 v = (hi, lo) \<Longrightarrow> unat v = unat hi * 2 ^ 32 + unat lo \<and> unat hi < 2 ^ 32 \<and> unat lo < 2 ^ 32"
  using unat_less_pow [of v]
  by (auto simp: splitUint64_def unat_mask32 unat_simps less_mult_imp_div_less)

lemma mergeUint64_exact:
  assumes "unat hi < 2 ^ 32" "unat lo < 2 ^ 32"
  shows "unat (mergeUint64 hi lo) = unat hi * 2 ^ 32 + unat lo"
proof -
  have "unat (push_bit 32 hi) = unat hi * 2 ^ 32"
    using assms(1) by (intro unat_push_bit_small) simp
  have "lo = take_bit 32 lo"
    using assms(2) by (simp add: word_eq_iff_unat unsigned_take_bit_eq take_bit_nat_eq_self)
  moreover have "push_bit 32 hi AND take_bit 32 lo = 0"
    by (rule bit_word_eqI) (auto simp: bit_simps)
  ultimately have "push_bit 32 hi AND lo = 0" by simp
  then have "push_bit 32 hi OR lo = push_bit 32 hi + lo" by (simp add: disjunctive_add_eq_or)
  then show ?thesis
    using assms \<open>unat (push_bit 32 hi) = _\<close> by (simp add: mergeUint64_def unat_add_small)
qed


lemma unat_mask_and: "n \<le> 32 \<Longrightarrow> unat (v AND (push_bit n 1 - 1) :: u64) = unat v mod 2 ^ n"
proof -
  have "push_bit n 1 - 1 = (mask n :: u64)" by (simp add: mask_eq_exp_minus_1 push_bit_eq_mult)
  then have "v AND (push_bit n 1 - 1) = take_bit n v" by (simp only: take_bit_eq_mask)
  then show ?thesis by (simp only: unat_take_bit_mod)
qed

lemma split_scaled_sum:
  fixes a b c n :: nat
  assumes "n \<le> 32"
  shows "(a * 2 ^ 32 + b) div 2 ^ n = (a div 2 ^ n) * 2 ^ 32 + ((a mod 2 ^ n) * 2 ^ (32 - n) + b div 2 ^ n)"
proof -
  have p: "(2::nat) ^ 32 = 2 ^ n * 2 ^ (32 - n)" using assms by (simp flip: power_add)
  have "a * 2 ^ 32 + b = 2 ^ n * (a * 2 ^ (32 - n)) + b" by (simp only: p mult.left_commute)
  moreover have "(2 ^ n * c + b) div 2 ^ n = c + b div 2 ^ n" for c by simp
  ultimately have "(a * 2 ^ 32 + b) div 2 ^ n = a * 2 ^ (32 - n) + b div 2 ^ n" by (simp only:)
  also have "a * 2 ^ (32 - n) = ((a div 2 ^ n) * 2 ^ n + a mod 2 ^ n) * 2 ^ (32 - n)"
    by (simp only: div_mult_mod_eq)
  also have "\<dots> = (a div 2 ^ n) * 2 ^ 32 + (a mod 2 ^ n) * 2 ^ (32 - n)"
    by (simp only: distrib_right p mult.assoc)
  finally show ?thesis by simp
qed

lemma fp_splitted_exact:
  fixes hi lo f scale :: u64
  assumes b: "unat hi < 2 ^ 32" "unat lo < 2 ^ 32" "unat f < 2 ^ 32" "unat scale \<le> 32"
  obtains hi' lo' where
    "fixedPointMultiplication32Splitted hi lo f scale = Inr (hi', lo')" "unat lo' < 2 ^ 32"
    "unat hi' * 2 ^ 32 + unat lo' = ((unat hi * 2 ^ 32 + unat lo) * unat f) div 2 ^ unat scale"
proof -
  define n where "n = unat scale"
  have n: "n \<le> 32" using b by (simp add: n_def)
  have m32: "x < 2 ^ 32 \<Longrightarrow> y < 2 ^ 32 \<Longrightarrow> x * y \<le> (2 ^ 32 - 1) * (2 ^ 32 - 1)" for x y :: nat
    by (intro mult_le_mono) auto
  have hf: "unat (hi * f) = unat hi * unat f" and lf: "unat (lo * f) = unat lo * unat f"
    using m32 [OF b(1,3)] m32 [OF b(2,3)] by (auto intro!: unat_mult_small)
  define A B C where "A = unat hi * unat f div 2 ^ n" and "B = unat hi * unat f mod 2 ^ n * 2 ^ (32 - n)"
    and "C = unat lo * unat f div 2 ^ n"
  have B: "B + 2 ^ (32 - n) \<le> 2 ^ 32"
  proof -
    have "(unat hi * unat f mod 2 ^ n + 1) * 2 ^ (32 - n) \<le> 2 ^ n * 2 ^ (32 - n)"
      by (intro mult_le_mono1) (simp add: Suc_le_eq)
    also have "\<dots> = 2 ^ 32" using n by (simp flip: power_add)
    finally show ?thesis by (simp add: B_def distrib_right)
  qed
  have C: "C \<le> (2 ^ 32 - 1) * (2 ^ 32 - 1)"
    using m32 [OF b(2,3)] by (simp add: C_def) (meson div_le_dividend le_trans)
  have BC: "B + C < 2 ^ 64"
    using B C by simp
  have s32: "unat (32 - scale) = 32 - n"
    using b(4) by (simp add: n_def unat_sub word_le_nat_alt)
  have uB: "unat (push_bit (32 - n) ((hi * f) AND (push_bit n 1 - 1))) = B"
  proof -
    have "unat ((hi * f) AND (push_bit n 1 - 1)) * 2 ^ (32 - n) = B"
      using unat_mask_and [OF n, of "hi * f"] by (simp only: hf B_def)
    moreover have "B < 2 ^ 64" using B by simp
    ultimately show ?thesis
      using unat_push_bit_small [of "(hi * f) AND (push_bit n 1 - 1)" "32 - n"] by simp
  qed
  define lo2 where "lo2 = push_bit (32 - n) ((hi * f) AND (push_bit n 1 - 1)) + drop_bit n (lo * f)"
  have lo2: "unat lo2 = B + C"
    unfolding lo2_def using BC uB by (subst unat_add_small) (simp_all add: unat_drop_bit lf C_def)
  have total: "((unat hi * 2 ^ 32 + unat lo) * unat f) div 2 ^ n = A * 2 ^ 32 + (B + C)"
  proof -
    have "(unat hi * 2 ^ 32 + unat lo) * unat f = unat hi * unat f * 2 ^ 32 + unat lo * unat f"
      by (simp add: algebra_simps)
    then show ?thesis by (simp only: A_def B_def C_def split_scaled_sum [OF n])
  qed
  define hi2 where "hi2 = drop_bit n (hi * f) + drop_bit 32 lo2"
  have "A \<le> (2 ^ 32 - 1) * (2 ^ 32 - 1)"
    using m32 [OF b(1,3)] by (simp add: A_def) (meson div_le_dividend le_trans)
  moreover have "(B + C) div 2 ^ 32 < 2 ^ 32" using BC by simp
  ultimately have "A + (B + C) div 2 ^ 32 < 2 ^ 64" by simp
  then have hi2: "unat hi2 = A + (B + C) div 2 ^ 32"
    unfolding hi2_def by (subst unat_add_small) (simp_all add: unat_drop_bit hf A_def lo2)
  show thesis
  proof (rule that [of hi2 "lo2 AND 0xFFFFFFFF"])
    have "\<not> 32 < scale" using b(4) by (simp add: word_less_nat_alt)
    then show "fixedPointMultiplication32Splitted hi lo f scale = Inr (hi2, lo2 AND 0xFFFFFFFF)"
      by (simp add: fixedPointMultiplication32Splitted_def Let_def hi2_def lo2_def s32 n_def)
    show "unat (lo2 AND 0xFFFFFFFF) < 2 ^ 32" by (simp only: unat_mask32) simp
    show "unat hi2 * 2 ^ 32 + unat (lo2 AND 0xFFFFFFFF)
        = ((unat hi * 2 ^ 32 + unat lo) * unat f) div 2 ^ unat scale"
      using total by (simp only: unat_mask32 lo2 hi2 flip: n_def) (simp add: distrib_right)
  qed
qed


lemma fp32_exact:
  fixes v f scale :: u64
  assumes f: "unat f < 2 ^ 32" and fits: "unat v * unat f div 2 ^ unat scale < 2 ^ 64"
  shows "\<exists>r. fixedPointMultiplication32 v f scale = Inr r
    \<and> unat r = unat v * unat f div 2 ^ unat scale"
proof -
  define sc where "sc = (if 32 < scale then 32 else scale)"
  define rest where "rest = (if 32 < scale then scale - 32 else 0)"
  obtain hi lo where s: "splitUint64 v = (hi, lo)" by (cases "splitUint64 v")
  note sp = splitUint64_exact [OF s]
  have sc: "unat sc \<le> 32" "unat scale = unat sc + unat rest"
    by (auto simp: sc_def rest_def word_less_nat_alt unat_sub_small word_le_nat_alt)
  obtain hi' lo' where r: "fixedPointMultiplication32Splitted hi lo f sc = Inr (hi', lo')"
    "unat lo' < 2 ^ 32" "unat hi' * 2 ^ 32 + unat lo' = unat v * unat f div 2 ^ unat sc"
    using fp_splitted_exact [of hi lo f sc] sp f sc(1) by metis
  have "unat v * unat f div 2 ^ unat sc < 2 ^ 64"
  proof (cases "32 < scale")
    case True
    have "unat v * unat f \<le> unat v * 2 ^ 32" using f by (intro mult_le_mono2) simp
    also have "unat v * 2 ^ 32 < 2 ^ 64 * 2 ^ 32" using unat_less_pow [of v] by simp
    finally have "unat v * unat f < 2 ^ 64 * 2 ^ 32" .
    then show ?thesis using True by (simp add: sc_def)
  qed (use fits in \<open>simp add: sc_def\<close>)
  then have "unat hi' < 2 ^ 32" using r(2,3) by simp
  then have m: "unat (mergeUint64 hi' lo') = unat v * unat f div 2 ^ unat sc"
    using mergeUint64_exact r by metis
  have "fixedPointMultiplication32 v f scale = Inr (drop_bit (unat rest) (mergeUint64 hi' lo'))"
    using r(1) by (simp add: fixedPointMultiplication32_def s Let_def flip: sc_def rest_def)
  moreover have "unat (drop_bit (unat rest) (mergeUint64 hi' lo')) = unat v * unat f div 2 ^ unat scale"
    by (simp only: unat_drop_bit m sc(2) power_add div_mult2_eq)
  ultimately show ?thesis by blast
qed


section \<open>Decay refines iterated exact multiplication\<close>

text \<open>The reference: as long as epochs are left, multiply by the factor of as many epochs as the table
  covers and round down.\<close>

function decayed :: "nat list \<Rightarrow> nat \<Rightarrow> nat \<Rightarrow> nat \<Rightarrow> nat" where
  "decayed factors scale v n =
    (if n = 0 \<or> factors = [] then v
     else let d = min n (length factors)
          in decayed factors scale (v * factors ! (d - 1) div 2 ^ scale) (n - d))"
  by pat_completeness auto
termination
  by (relation "measure (\<lambda>(_, _, _, n). n)") auto

declare decayed.simps [simp del]

text \<open>Decay factors as fractions: no factor exceeds one.\<close>

definition mdp_ok :: "mana_decay_provider \<Rightarrow> bool" where
  "mdp_ok p \<longleftrightarrow> length (mdp_decayFactors p) < 2 ^ 32
     \<and> mdp_decayFactorsLength p = word_of_nat (length (mdp_decayFactors p))
     \<and> unat (mdp_decayFactorsExponent p) \<le> 32
     \<and> (\<forall>f \<in> set (mdp_decayFactors p). unat f < 2 ^ 32 \<and> unat f \<le> 2 ^ unat (mdp_decayFactorsExponent p))"

abbreviation factors_of :: "mana_decay_provider \<Rightarrow> nat list" where
  "factors_of p \<equiv> map unat (mdp_decayFactors p)"

lemma mdp_ok_New:
  assumes "length (mp_DecayFactors m) < 2 ^ 32" "unat (mp_DecayFactorsExponent m) \<le> 32"
    and "\<forall>f \<in> set (mp_DecayFactors m). unat f \<le> 2 ^ unat (mp_DecayFactorsExponent m)"
  shows "mdp_ok (NewManaDecayProvider tp e m)"
proof -
  have "unat (x :: u32) < 2 ^ 32" for x using unat_less_pow [of x] by simp
  then show ?thesis using assms by (auto simp: mdp_ok_def NewManaDecayProvider_def)
qed

lemma scaled_le: "f \<le> 2 ^ s \<Longrightarrow> v * f div 2 ^ s \<le> (v :: nat)"
  using div_le_mono [of "v * f" "v * 2 ^ s" "2 ^ s"] by simp

lemma decayed_le:
  "\<forall>f \<in> set fs. f \<le> 2 ^ s \<Longrightarrow> decayed fs s v n \<le> v"
proof (induction fs s v n rule: decayed.induct)
  case (1 fs s v n)
  show ?case
  proof (cases "n = 0 \<or> fs = []")
    case False
    let ?d = "min n (length fs)"
    have "fs ! (?d - 1) \<in> set fs" using False by (intro nth_mem) (auto simp: min_def not_less Suc_le_eq)
    then have "v * fs ! (?d - 1) div 2 ^ s \<le> v" using 1(2) scaled_le by blast
    with 1(1) [OF False refl 1(2)] show ?thesis
      by (subst decayed.simps) (use False in \<open>simp add: Let_def\<close>)
  qed (subst decayed.simps, simp)
qed

lemma decayed_mono: "v \<le> w \<Longrightarrow> decayed fs s v n \<le> decayed fs s w n"
proof (induction fs s v n arbitrary: w rule: decayed.induct)
  case (1 fs s v n)
  show ?case
  proof (cases "n = 0 \<or> fs = []")
    case False
    let ?f = "fs ! (min n (length fs) - 1)"
    have "v * ?f div 2 ^ s \<le> w * ?f div 2 ^ s"
      using 1(2) by (intro div_le_mono mult_le_mono1)
    from 1(1) [OF False refl this] show ?thesis
      by (subst (1 2) decayed.simps) (use False in \<open>simp add: Let_def\<close>)
  qed (use 1(2) in \<open>simp add: decayed.simps\<close>)
qed


lemma decay_loop_refines:
  assumes ok: "mdp_ok p" and ne: "mdp_decayFactors p \<noteq> []"
    and hl: "unat hi < 2 ^ 32" "unat lo < 2 ^ 32" and fuel: "unat r \<le> fuel"
  shows "\<exists>hi' lo'. decay_loop fuel p r hi lo = Inr (hi', lo') \<and> unat hi' < 2 ^ 32 \<and> unat lo' < 2 ^ 32
    \<and> unat hi' * 2 ^ 32 + unat lo' = decayed (factors_of p) (unat (mdp_decayFactorsExponent p))
          (unat hi * 2 ^ 32 + unat lo) (unat r)"
  using hl fuel
proof (induction fuel arbitrary: r hi lo)
  case 0
  then have "r = 0" by (simp add: word_eq_iff_unat)
  with 0 show ?case by (simp add: decay_loop.simps decayed.simps)
next
  case (Suc fuel)
  let ?fs = "mdp_decayFactors p" and ?s = "unat (mdp_decayFactorsExponent p)"
  show ?case
  proof (cases "r = 0")
    case True
    with Suc show ?thesis by (simp add: decay_loop.simps decayed.simps)
  next
    case False
    let ?len = "ucast (mdp_decayFactorsLength p) :: u32"
    define d where "d = (if ?len < r then ?len else r)"
    have len: "unat ?len = length ?fs"
      using ok by (simp add: mdp_ok_def unsigned_ucast_eq unat_of_nat take_bit_nat_eq_self)
    have d: "unat d = min (unat r) (length ?fs)"
      by (simp add: d_def word_less_nat_alt len min_def)
    have dpos: "0 < unat d" using False ne by (simp add: d word_eq_iff_unat)
    then have d1: "unat (d - 1) = unat d - 1"
      by (simp add: unat_sub_small word_le_nat_alt Suc_le_eq)
    have rd: "unat (r - d) = unat r - unat d"
      using d by (intro unat_sub_small) (simp add: word_le_nat_alt)
    have idx: "unat d - 1 < length ?fs" using d dpos by linarith
    let ?f = "?fs ! (unat d - 1)"
    have f: "unat ?f < 2 ^ 32" "unat ?f \<le> 2 ^ ?s"
      using ok nth_mem [OF idx] by (auto simp: mdp_ok_def)
    obtain hi' lo' where st: "fixedPointMultiplication32Splitted hi lo ?f (mdp_decayFactorsExponent p) = Inr (hi', lo')"
      "unat lo' < 2 ^ 32" "unat hi' * 2 ^ 32 + unat lo' = (unat hi * 2 ^ 32 + unat lo) * unat ?f div 2 ^ ?s"
      using fp_splitted_exact [of hi lo ?f "mdp_decayFactorsExponent p"] Suc.prems f(1) ok
      by (auto simp: mdp_ok_def)
    have "unat hi' * 2 ^ 32 + unat lo' \<le> unat hi * 2 ^ 32 + unat lo"
      unfolding st(3) by (rule scaled_le [OF f(2)])
    then have "unat hi' < 2 ^ 32" using Suc.prems by simp
    moreover have "unat (r - d) \<le> fuel" using Suc.prems dpos rd by linarith
    ultimately obtain hi2 lo2 where
      "decay_loop fuel p (r - d) hi' lo' = Inr (hi2, lo2)" "unat hi2 < 2 ^ 32" "unat lo2 < 2 ^ 32"
      "unat hi2 * 2 ^ 32 + unat lo2
        = decayed (factors_of p) ?s (unat hi' * 2 ^ 32 + unat lo') (unat (r - d))"
      using Suc.IH [of hi' lo' "r - d"] st(2) by blast
    moreover have "decay_loop (Suc fuel) p r hi lo = decay_loop fuel p (r - d) hi' lo'"
      using False idx st(1) by (simp add: decay_loop.simps [of "Suc fuel"] Let_def d1 word_neq_0_conv flip: d_def)
    moreover have "decayed (factors_of p) ?s v (unat r)
        = decayed (factors_of p) ?s (v * unat ?f div 2 ^ ?s) (unat (r - d))" for v
      by (subst decayed.simps)
        (use False ne idx in \<open>simp add: Let_def d [symmetric] rd word_eq_iff_unat\<close>)
    ultimately show ?thesis by (simp only: st(3)) blast
  qed
qed


lemma decay_refines:
  assumes ok: "mdp_ok p"
  shows "\<exists>r. decay p v n = Inr r
    \<and> unat r = decayed (factors_of p) (unat (mdp_decayFactorsExponent p)) (unat v) (unat n)"
proof (cases "v = 0 \<or> n = 0 \<or> mdp_decayFactorsLength p = 0")
  case True
  have "decayed (factors_of p) e 0 k = 0" if "e = unat (mdp_decayFactorsExponent p)" for e k
    using decayed_le [of "factors_of p" e 0 k] ok that by (auto simp: mdp_ok_def)
  moreover have "mdp_decayFactorsLength p = 0 \<Longrightarrow> mdp_decayFactors p = []"
  proof -
    assume z: "mdp_decayFactorsLength p = 0"
    have l: "length (mdp_decayFactors p) < 2 ^ 32" using ok by (simp add: mdp_ok_def)
    then have "unat (word_of_nat (length (mdp_decayFactors p)) :: u64) = length (mdp_decayFactors p)"
      by (simp add: unat_of_nat)
    with z ok show "mdp_decayFactors p = []" by (simp add: mdp_ok_def)
  qed
  ultimately show ?thesis
    using True by (auto simp: decay_def decayed.simps [of _ _ _ 0] decayed.simps [of "[]"])
next
  case False
  obtain hi lo where s: "splitUint64 v = (hi, lo)" by (cases "splitUint64 v")
  note sp = splitUint64_exact [OF s]
  have "mdp_decayFactors p \<noteq> []" using False ok by (auto simp: mdp_ok_def)
  with decay_loop_refines [OF ok, of hi lo n "unat n"] sp obtain hi' lo' where
    r: "decay_loop (unat n) p n hi lo = Inr (hi', lo')" "unat hi' < 2 ^ 32" "unat lo' < 2 ^ 32"
      "unat hi' * 2 ^ 32 + unat lo' = decayed (factors_of p) (unat (mdp_decayFactorsExponent p))
         (unat hi * 2 ^ 32 + unat lo) (unat n)"
    by blast
  have "decay p v n = Inr (mergeUint64 hi' lo')"
    using False r(1) s by (simp add: decay_def)
  moreover have "unat (mergeUint64 hi' lo')
      = decayed (factors_of p) (unat (mdp_decayFactorsExponent p)) (unat v) (unat n)"
    using mergeUint64_exact [OF r(2,3)] r(4) sp by simp
  ultimately show ?thesis by blast
qed

lemma decay_bounds:
  assumes ok: "mdp_ok p" and vw: "v \<le> w"
  shows "\<exists>r r'. decay p v n = Inr r \<and> decay p w n = Inr r' \<and> r \<le> v \<and> r \<le> r'"
proof -
  let ?e = "unat (mdp_decayFactorsExponent p)"
  from decay_refines [OF ok] obtain r r' where r: "decay p v n = Inr r" "decay p w n = Inr r'"
    "unat r = decayed (factors_of p) ?e (unat v) (unat n)"
    "unat r' = decayed (factors_of p) ?e (unat w) (unat n)"
    by metis
  moreover have "\<forall>f \<in> set (factors_of p). f \<le> 2 ^ ?e" using ok by (auto simp: mdp_ok_def)
  ultimately have "r \<le> v" "r \<le> r'"
    using decayed_le decayed_mono vw by (simp_all add: word_le_nat_alt)
  with r show ?thesis by blast
qed

lemma generateMana_refines:
  assumes "unat n * unat (mdp_generationRate p) < 2 ^ 32"
    and "unat v * (unat n * unat (mdp_generationRate p)) div 2 ^ unat (mdp_generationRateExponent p) < 2 ^ 64"
  shows "\<exists>r. generateMana p v n = Inr r
    \<and> unat r = unat v * (unat n * unat (mdp_generationRate p)) div 2 ^ unat (mdp_generationRateExponent p)"
proof (cases "n = 0 \<or> mdp_generationRate p = 0")
  case False
  have "unat (ucast n * mdp_generationRate p) = unat n * unat (mdp_generationRate p)"
    using assms(1) by (simp add: unat_mult_small)
  with fp32_exact [of "ucast n * mdp_generationRate p" v "mdp_generationRateExponent p"] assms False
  show ?thesis by (auto simp: generateMana_def)
qed (auto simp: generateMana_def)

text \<open>C33: decaying mana returns a result on every input, and the result is the exact product of the
  amount with the table factors of the elapsed epochs, rounded down after every factor.\<close>

theorem decay_exact:
  assumes "mdp_ok p"
  shows "\<exists>r. decay p v n = Inr r
    \<and> unat r = decayed (factors_of p) (unat (mdp_decayFactorsExponent p)) (unat v) (unat n)"
  by (rule decay_refines [OF assms])

text \<open>A provider with the factors 3/4 and 9/16 and one unit of mana per four units of tokens and slot.\<close>

definition demo_mana :: mana_decay_provider where
  "demo_mana = NewManaDecayProvider demo_clock 3
     \<lparr>mp_BitsCount = 63, mp_GenerationRate = 1, mp_GenerationRateExponent = 2,
      mp_DecayFactors = [12, 9], mp_DecayFactorsExponent = 4, mp_DecayFactorEpochsSum = 48,
      mp_DecayFactorEpochsSumExponent = 4, mp_AnnualDecayFactorPercentage = 70\<rparr>"

lemma demo_mana_ok [simp]: "mdp_ok demo_mana"
  unfolding demo_mana_def by (rule mdp_ok_New) simp_all

lemma demo_mana_sel [simp]:
  "mdp_timeProvider demo_mana = demo_clock" "mdp_slotsPerEpochExponent demo_mana = 3"
  "mdp_generationRate demo_mana = 1" "mdp_generationRateExponent demo_mana = 2"
  "mdp_decayFactors demo_mana = [12, 9]" "mdp_decayFactorsLength demo_mana = 2"
  "mdp_decayFactorsExponent demo_mana = 4" "mdp_decayFactorEpochsSum demo_mana = 48"
  "mdp_decayFactorEpochsSumExponent demo_mana = 4"
  by (simp_all add: demo_mana_def NewManaDecayProvider_def)

theorem decay_exact_witness: "\<exists>r. decay demo_mana 1000 3 = Inr r \<and> unat r = 421"
proof -
  have "decayed [12, 9] 4 1000 3 = 421" by (simp add: decayed.simps)
  then show ?thesis using decay_exact [OF demo_mana_ok, of 1000 3] by simp
qed

text \<open>Decaying between two slots fails exactly when the target lies in an earlier epoch; otherwise
  it returns at most the given mana, and all of it when the epoch did not change.\<close>

theorem decay_by_slots:
  assumes "mdp_ok p"
  shows "(if EpochFromSlot (mdp_timeProvider p) target < EpochFromSlot (mdp_timeProvider p) creation
    then target < creation \<and> (\<exists>e. DecayManaBySlots p mana creation target = Inl (Err e)
           \<and> isErr e ''ErrManaDecayCreationIndexExceedsTargetIndex'')
    else \<exists>r. DecayManaBySlots p mana creation target = Inr r \<and> r \<le> mana
           \<and> (EpochFromSlot (mdp_timeProvider p) target = EpochFromSlot (mdp_timeProvider p) creation
              \<longrightarrow> r = mana))"
proof (cases "EpochFromSlot (mdp_timeProvider p) target < EpochFromSlot (mdp_timeProvider p) creation")
  case True
  then have "target < creation"
    using epoch_mono [of creation target "mdp_timeProvider p"] by (simp add: not_le [symmetric]) blast
  with True show ?thesis by (simp add: DecayManaBySlots_def DecayManaByEpochs_def throw_def)
next
  case False
  let ?n = "EpochFromSlot (mdp_timeProvider p) target - EpochFromSlot (mdp_timeProvider p) creation"
  obtain r where "decay p mana ?n = Inr r" "r \<le> mana"
    using decay_bounds [OF assms order_refl, of mana ?n] by blast
  with False show ?thesis
    by (auto simp: DecayManaBySlots_def DecayManaByEpochs_def decay_def)
qed

theorem decay_by_slots_witness:
  "(\<exists>r. DecayManaBySlots demo_mana 1000 3 20 = Inr r \<and> r \<le> 1000)
    \<and> (\<exists>e. DecayManaBySlots demo_mana 1000 20 3 = Inl (Err e))"
  using decay_by_slots [OF demo_mana_ok, of 20 3 1000] decay_by_slots [OF demo_mana_ok, of 3 20 1000]
  by (auto simp: EpochFromSlot_def drop_bit_eq_div)

text \<open>The exact amounts: what is generated in a number of slots, and the sum and the rounding term that
  the three cases of the code compute.\<close>

definition generated :: "mana_decay_provider \<Rightarrow> u64 \<Rightarrow> u32 \<Rightarrow> nat" where
  "generated p v n =
     unat v * (unat n * unat (mdp_generationRate p)) div 2 ^ unat (mdp_generationRateExponent p)"

definition intermediate :: "mana_decay_provider \<Rightarrow> u64 \<Rightarrow> nat" where
  "intermediate p v =
     unat v * (unat (mdp_decayFactorEpochsSum p) * unat (mdp_generationRate p))
       div 2 ^ unat (mdp_decayFactorEpochsSumExponent p + mdp_generationRateExponent p
                       - mdp_slotsPerEpochExponent p)"

definition generated_total :: "mana_decay_provider \<Rightarrow> u64 \<Rightarrow> u32 \<Rightarrow> u32 \<Rightarrow> nat \<times> nat" where
  "generated_total p v creation target =
    (let tp = mdp_timeProvider p;
         n = unat (EpochFromSlot tp target) - unat (EpochFromSlot tp creation);
         dec = decayed (factors_of p) (unat (mdp_decayFactorsExponent p));
         first = dec (generated p v (SlotsBeforeNextEpoch tp creation)) n;
         last = generated p v (SlotsSinceEpochStart tp target);
         c = intermediate p v
     in if n = 0 then (generated p v (target - creation), 0)
        else if n = 1 then (first + last, 0)
        else (c - dec c (n - 1) + last + first, c div 2 ^ unat (mdp_decayFactorsExponent p)))"

text \<open>No product exceeds the double-word that the fixed point routines are made for.\<close>

definition gen_fits :: "mana_decay_provider \<Rightarrow> u64 \<Rightarrow> u32 \<Rightarrow> bool" where
  "gen_fits p v n \<longleftrightarrow> unat n * unat (mdp_generationRate p) < 2 ^ 32 \<and> generated p v n < 2 ^ 64"

definition gen_all_fit :: "mana_decay_provider \<Rightarrow> u64 \<Rightarrow> u32 \<Rightarrow> u32 \<Rightarrow> bool" where
  "gen_all_fit p v creation target \<longleftrightarrow>
    (let tp = mdp_timeProvider p
     in if EpochFromSlot tp target = EpochFromSlot tp creation then gen_fits p v (target - creation)
        else gen_fits p v (SlotsBeforeNextEpoch tp creation)
          \<and> gen_fits p v (SlotsSinceEpochStart tp target)
          \<and> unat (mdp_decayFactorEpochsSum p) * unat (mdp_generationRate p) < 2 ^ 32
          \<and> intermediate p v < 2 ^ 64)"

lemma generateMana_fits:
  "gen_fits p v n \<Longrightarrow> \<exists>r. generateMana p v n = Inr r \<and> unat r = generated p v n"
  using generateMana_refines [of n p v] by (simp add: gen_fits_def generated_def)


lemma intermediate_fits:
  assumes "unat (mdp_decayFactorEpochsSum p) * unat (mdp_generationRate p) < 2 ^ 32" "intermediate p v < 2 ^ 64"
  shows "\<exists>c. fixedPointMultiplication32 v (mdp_decayFactorEpochsSum p * mdp_generationRate p)
      (mdp_decayFactorEpochsSumExponent p + mdp_generationRateExponent p - mdp_slotsPerEpochExponent p) = Inr c
    \<and> unat c = intermediate p v"
proof -
  have "unat (mdp_decayFactorEpochsSum p * mdp_generationRate p)
      = unat (mdp_decayFactorEpochsSum p) * unat (mdp_generationRate p)"
    using assms(1) by (intro unat_mult_small) simp
  then show ?thesis
    using fp32_exact [of "mdp_decayFactorEpochsSum p * mdp_generationRate p" v] assms
    by (simp add: intermediate_def)
qed

lemma epoch_distance:
  assumes "c \<le> s"
  shows "unat (EpochFromSlot t s - EpochFromSlot t c) = unat (EpochFromSlot t s) - unat (EpochFromSlot t c)"
  by (rule unat_sub_small [OF epoch_mono [OF assms]])

lemma total_same_epoch:
  assumes "c \<le> s" and "EpochFromSlot (mdp_timeProvider p) s = EpochFromSlot (mdp_timeProvider p) c"
    and "gen_all_fit p v c s"
  shows "GenerateManaAndDecayBySlots D p v c s = Inr r \<longleftrightarrow> unat r = generated p v (s - c)"
proof -
  obtain g where "generateMana p v (s - c) = Inr g" "unat g = generated p v (s - c)"
    using generateMana_fits [of p v "s - c"] assms(2,3) by (auto simp: gen_all_fit_def)
  moreover from this assms(1,2) have "GenerateManaAndDecayBySlots D p v c s = Inr g"
    by (simp add: GenerateManaAndDecayBySlots_def Let_def)
  ultimately show ?thesis by (auto simp: word_eq_iff_unat)
qed

lemma total_next_epoch:
  assumes "c \<le> s" and sm: "safemath64 D" and ok: "mdp_ok p"
    and n: "EpochFromSlot (mdp_timeProvider p) s - EpochFromSlot (mdp_timeProvider p) c = 1"
    and fits: "gen_all_fit p v c s"
  shows "GenerateManaAndDecayBySlots D p v c s = Inr r
    \<longleftrightarrow> unat r = decayed (factors_of p) (unat (mdp_decayFactorsExponent p))
          (generated p v (SlotsBeforeNextEpoch (mdp_timeProvider p) c)) 1
        + generated p v (SlotsSinceEpochStart (mdp_timeProvider p) s)"
proof -
  let ?tp = "mdp_timeProvider p"
  have ne: "EpochFromSlot ?tp s \<noteq> EpochFromSlot ?tp c" using n by auto
  have gf: "gen_fits p v (SlotsBeforeNextEpoch ?tp c)" "gen_fits p v (SlotsSinceEpochStart ?tp s)"
    using fits ne by (simp_all add: gen_all_fit_def Let_def)
  obtain g1 where g1: "generateMana p v (SlotsBeforeNextEpoch ?tp c) = Inr g1"
    "unat g1 = generated p v (SlotsBeforeNextEpoch ?tp c)"
    using generateMana_fits [OF gf(1)] by blast
  obtain g2 where g2: "generateMana p v (SlotsSinceEpochStart ?tp s) = Inr g2"
    "unat g2 = generated p v (SlotsSinceEpochStart ?tp s)"
    using generateMana_fits [OF gf(2)] by blast
  obtain d where d: "decay p g1 1 = Inr d"
    "unat d = decayed (factors_of p) (unat (mdp_decayFactorsExponent p)) (unat g1) 1"
    using decay_refines [OF ok, of g1 1] by auto
  show ?thesis
    using leD [OF assms(1)] ne n g1 g2 d
    by (simp add: GenerateManaAndDecayBySlots_def Let_def checked_arith.add_Inr_iff [OF sm])
qed

lemma total_later_epoch:
  assumes "c \<le> s" and sm: "safemath64 D" and ok: "mdp_ok p"
    and n: "EpochFromSlot (mdp_timeProvider p) s - EpochFromSlot (mdp_timeProvider p) c = n" "n \<noteq> 0" "n \<noteq> 1"
    and fits: "gen_all_fit p v c s"
  shows "GenerateManaAndDecayBySlots D p v c s = Inr r
    \<longleftrightarrow> (let dec = decayed (factors_of p) (unat (mdp_decayFactorsExponent p));
            total = intermediate p v - dec (intermediate p v) (unat n - 1)
              + generated p v (SlotsSinceEpochStart (mdp_timeProvider p) s)
              + dec (generated p v (SlotsBeforeNextEpoch (mdp_timeProvider p) c)) (unat n)
        in total < 2 ^ 64
           \<and> unat r + intermediate p v div 2 ^ unat (mdp_decayFactorsExponent p) = total)"
proof -
  let ?tp = "mdp_timeProvider p" and ?e = "unat (mdp_decayFactorsExponent p)"
  have ne: "EpochFromSlot ?tp s \<noteq> EpochFromSlot ?tp c" using n by auto
  have gf: "gen_fits p v (SlotsBeforeNextEpoch ?tp c)" "gen_fits p v (SlotsSinceEpochStart ?tp s)"
    using fits ne by (simp_all add: gen_all_fit_def Let_def)
  obtain g1 where g1: "generateMana p v (SlotsBeforeNextEpoch ?tp c) = Inr g1"
    "unat g1 = generated p v (SlotsBeforeNextEpoch ?tp c)"
    using generateMana_fits [OF gf(1)] by blast
  obtain g2 where g2: "generateMana p v (SlotsSinceEpochStart ?tp s) = Inr g2"
    "unat g2 = generated p v (SlotsSinceEpochStart ?tp s)"
    using generateMana_fits [OF gf(2)] by blast
  obtain d where d: "decay p g1 n = Inr d" "unat d = decayed (factors_of p) ?e (unat g1) (unat n)"
    using decay_refines [OF ok, of g1 n] by auto
  obtain x where x: "fixedPointMultiplication32 v (mdp_decayFactorEpochsSum p * mdp_generationRate p)
      (mdp_decayFactorEpochsSumExponent p + mdp_generationRateExponent p - mdp_slotsPerEpochExponent p) = Inr x"
    "unat x = intermediate p v"
    using intermediate_fits [of p v] fits ne by (auto simp: gen_all_fit_def Let_def)
  have n1: "unat (n - 1) = unat n - 1"
    using n(2) by (simp add: unat_sub_small word_le_nat_alt Suc_le_eq word_eq_iff_unat)
  obtain y where y: "decay p x (n - 1) = Inr y" "unat y = decayed (factors_of p) ?e (unat x) (unat n - 1)"
    using decay_refines [OF ok, of x "n - 1"] n1 by auto
  have yx: "unat y \<le> unat x"
    unfolding y(2) by (rule decayed_le) (use ok in \<open>auto simp: mdp_ok_def\<close>)
  have sub: "SafeSub64 D x y = Inr z \<longleftrightarrow> unat z = unat x - unat y" for z
    using yx by (auto simp: checked_arith.sub_Inr_iff [OF sm])
  define total where "total = unat x - unat y + unat g2 + unat d"
  have "GenerateManaAndDecayBySlots D p v c s = Inr r
      \<longleftrightarrow> (\<exists>(i :: u64) (a :: u64) (b :: u64). unat i = unat x - unat y \<and> unat a = unat i + unat g2 \<and> unat b = unat a + unat d
            \<and> unat b = unat (drop_bit ?e x) + unat r)"
    using leD [OF assms(1)] ne n g1(1) g2(1) d(1) x(1) y(1)
    by (simp add: GenerateManaAndDecayBySlots_def Let_def go_simps checked_arith.add_Inr_iff [OF sm]
        checked_arith.sub_Inr_iff [OF sm, of _ "drop_bit ?e x"] sub del: unat_drop_bit_eq)
  also have "\<dots> \<longleftrightarrow> total < 2 ^ 64 \<and> unat r + unat x div 2 ^ ?e = total"
    unfolding unat_drop_bit
  proof
    assume "\<exists>(i :: u64) (a :: u64) (b :: u64). unat i = unat x - unat y \<and> unat a = unat i + unat g2 \<and> unat b = unat a + unat d
      \<and> unat b = unat x div 2 ^ ?e + unat r"
    then obtain b :: u64 where "unat b = total" "unat b = unat x div 2 ^ ?e + unat r"
      by (auto simp: total_def)
    then show "total < 2 ^ 64 \<and> unat r + unat x div 2 ^ ?e = total"
      using unat_less_pow [of b] by simp
  next
    assume t: "total < 2 ^ 64 \<and> unat r + unat x div 2 ^ ?e = total"
    have w: "\<exists>z :: u64. unat z = k" if "k < 2 ^ 64" for k
      using that by (intro exI [of _ "word_of_nat k"]) (simp add: unat_of_nat)
    from t obtain b :: u64 where b: "unat b = total" using w by blast
    obtain i :: u64 where i: "unat i = unat x - unat y" using t w [of "unat x - unat y"] by (auto simp: total_def)
    obtain a :: u64 where "unat a = unat i + unat g2" using t w [of "unat i + unat g2"] i by (auto simp: total_def)
    with b i t show "\<exists>(i :: u64) (a :: u64) (b :: u64). unat i = unat x - unat y \<and> unat a = unat i + unat g2
        \<and> unat b = unat a + unat d \<and> unat b = unat x div 2 ^ ?e + unat r"
      by (intro exI [of _ i] exI [of _ a] exI [of _ b]) (simp add: total_def)
  qed
  finally show ?thesis
    by (simp add: total_def x(2) y(2) d(2) g1(2) g2(2) Let_def)
qed




end
