(* ===== verification/Storage_Score.thy ===== *)
theory Storage_Score
  imports Ledger_Outputs Mana_Decay
begin

text \<open>
  Serialized sizes, storage scores and minimum deposits: storagescore.go and the methods @\<open>Size\<close> and
  @\<open>StorageScore\<close> of addresses, unlock conditions, features, token schemes and outputs, and the potential
  mana of an output (output.go).  A size is a natural number, a score a 64 bit word that wraps around.
  A call panics where the code does, for a multi address reference.
\<close>

section \<open>Parameters\<close>

record storage_score_parameters =
  ssp_StorageCost :: u64
  ssp_FactorData :: u8
  ssp_OffsetOutputOverhead :: u64
  ssp_OffsetEd25519BlockIssuerKey :: u64
  ssp_OffsetStakingFeature :: u64
  ssp_OffsetDelegation :: u64

record storage_score_structure =
  sss_Parameters :: storage_score_parameters
  sss_OffsetImplicitAccountCreationAddress :: u64
  sss_OffsetOutput :: u64

definition factorMultiply :: "u8 \<Rightarrow> u64 \<Rightarrow> u64" where
  "factorMultiply factor x = ucast factor * x"

text \<open>A loop that adds up the results of calls that may panic.\<close>

definition sumG :: "('x \<Rightarrow> nat go) \<Rightarrow> nat \<Rightarrow> 'x list \<Rightarrow> nat go" where
  "sumG f s xs = foldG (\<lambda>s x. andthen (f x) (\<lambda>n. Inr (s + n))) s xs"

definition scoreG :: "('x \<Rightarrow> u64 go) \<Rightarrow> 'x list \<Rightarrow> u64 go" where
  "scoreG f xs = foldG (\<lambda>s x. andthen (f x) (\<lambda>n. Inr (s + n))) 0 xs"

section \<open>Unlock conditions\<close>

definition ucSize :: "'a ledger_deps_scheme \<Rightarrow> unlock_condition \<Rightarrow> nat go" where
  "ucSize D c =
    (case c of
       AddressUC a \<Rightarrow> andthen (addrSize D a) (\<lambda>n. Inr (serSmallType D + n))
     | StorageDepositReturnUC a _ \<Rightarrow> andthen (addrSize D a) (\<lambda>n. Inr (serSmallType D + n + 8))
     | TimelockUC _ \<Rightarrow> Inr (serSmallType D + 4)
     | ExpirationUC a _ \<Rightarrow> andthen (addrSize D a) (\<lambda>n. Inr (serSmallType D + n + 4))
     | StateControllerAddressUC a \<Rightarrow> andthen (addrSize D a) (\<lambda>n. Inr (serSmallType D + n))
     | GovernorAddressUC a \<Rightarrow> andthen (addrSize D a) (\<lambda>n. Inr (serSmallType D + n))
     | ImmutableAccountUC a \<Rightarrow> andthen (addrSize D (AccountAddress a)) (\<lambda>n. Inr (serSmallType D + n)))"

definition ucsSize :: "'a ledger_deps_scheme \<Rightarrow> unlock_condition list \<Rightarrow> nat go" where
  "ucsSize D f = sumG (ucSize D) (serOneByte D) f"

definition addrStorageScore :: "storage_score_structure \<Rightarrow> address \<Rightarrow> u64 go" where
  "addrStorageScore r a =
    (case a of
       ImplicitAccountCreationAddress _ \<Rightarrow> Inr (sss_OffsetImplicitAccountCreationAddress r)
     | MultiAddressReference _ \<Rightarrow> Inl (Panic ''not used'')
     | _ \<Rightarrow> Inr 0)"

definition ucStorageScore :: "storage_score_structure \<Rightarrow> unlock_condition \<Rightarrow> u64 go" where
  "ucStorageScore r c =
    (case c of
       AddressUC a \<Rightarrow> addrStorageScore r a
     | StorageDepositReturnUC a _ \<Rightarrow> addrStorageScore r a
     | TimelockUC _ \<Rightarrow> Inr 0
     | ExpirationUC a _ \<Rightarrow> addrStorageScore r a
     | StateControllerAddressUC a \<Rightarrow> addrStorageScore r a
     | GovernorAddressUC a \<Rightarrow> addrStorageScore r a
     | ImmutableAccountUC a \<Rightarrow> addrStorageScore r (AccountAddress a))"

definition ucsStorageScore :: "storage_score_structure \<Rightarrow> unlock_condition list \<Rightarrow> u64 go" where
  "ucsStorageScore r f = scoreG (ucStorageScore r) f"

section \<open>Features\<close>

definition entriesSize :: "'a ledger_deps_scheme \<Rightarrow> (string \<times> bytes) list \<Rightarrow> nat" where
  "entriesSize D m =
    fold (\<lambda>(key, value) n. n + (serSmallType D + length key + serUInt16 D + length value)) m (serSmallType D)"

definition blockIssuerKeysSize :: "'a ledger_deps_scheme \<Rightarrow> bytes list \<Rightarrow> nat" where
  "blockIssuerKeysSize D keys = fold (\<lambda>_ n. n + (serSmallType D + 32)) keys (serOneByte D)"

definition featSize :: "'a ledger_deps_scheme \<Rightarrow> feature \<Rightarrow> nat go" where
  "featSize D c =
    (case c of
       SenderF a \<Rightarrow> andthen (addrSize D a) (\<lambda>n. Inr (serSmallType D + n))
     | IssuerF a \<Rightarrow> andthen (addrSize D a) (\<lambda>n. Inr (serSmallType D + n))
     | MetadataF m \<Rightarrow> Inr (serSmallType D + entriesSize D m)
     | StateMetadataF m \<Rightarrow> Inr (serSmallType D + entriesSize D m)
     | TagF t \<Rightarrow> Inr (serSmallType D + serOneByte D + length t)
     | NativeTokenF _ _ \<Rightarrow> Inr (serSmallType D + (serSmallType D + 32 + serUInt32 D + serOneByte D) + serUInt256 D)
     | BlockIssuerF b \<Rightarrow> Inr (serSmallType D + 4 + blockIssuerKeysSize D (bif_BlockIssuerKeys b))
     | StakingF _ \<Rightarrow> Inr (serSmallType D + 8 + 8 + 4 + 4))"

definition featsSize :: "'a ledger_deps_scheme \<Rightarrow> feature list \<Rightarrow> nat go" where
  "featsSize D f = sumG (featSize D) (serOneByte D) f"

definition blockIssuerKeysStorageScore :: "storage_score_structure \<Rightarrow> bytes list \<Rightarrow> u64" where
  "blockIssuerKeysStorageScore r keys =
    fold (\<lambda>_ s. s + ssp_OffsetEd25519BlockIssuerKey (sss_Parameters r)) keys 0"

definition featStorageScore :: "storage_score_structure \<Rightarrow> feature \<Rightarrow> u64 go" where
  "featStorageScore r c =
    (case c of
       SenderF a \<Rightarrow> addrStorageScore r a
     | IssuerF a \<Rightarrow> addrStorageScore r a
     | BlockIssuerF b \<Rightarrow> Inr (blockIssuerKeysStorageScore r (bif_BlockIssuerKeys b))
     | StakingF _ \<Rightarrow> Inr (ssp_OffsetStakingFeature (sss_Parameters r))
     | _ \<Rightarrow> Inr 0)"

definition featsStorageScore :: "storage_score_structure \<Rightarrow> feature list \<Rightarrow> u64 go" where
  "featsStorageScore r f = scoreG (featStorageScore r) f"

section \<open>Outputs\<close>

definition basicSize :: "'a ledger_deps_scheme \<Rightarrow> basic_output \<Rightarrow> nat go" where
  "basicSize D e =
    andthen (ucsSize D (bo_UnlockConditions e)) (\<lambda>u.
    andthen (featsSize D (bo_Features e)) (\<lambda>f. Inr (serOneByte D + 8 + 8 + u + f)))"

definition accountSize :: "'a ledger_deps_scheme \<Rightarrow> account_output \<Rightarrow> nat go" where
  "accountSize D a =
    andthen (ucsSize D (ao_UnlockConditions a)) (\<lambda>u.
    andthen (featsSize D (ao_Features a)) (\<lambda>f.
    andthen (featsSize D (ao_ImmutableFeatures a)) (\<lambda>i.
    Inr (serOneByte D + 8 + 8 + 32 + serUInt32 D + u + f + i))))"

definition anchorSize :: "'a ledger_deps_scheme \<Rightarrow> anchor_output \<Rightarrow> nat go" where
  "anchorSize D a =
    andthen (ucsSize D (an_UnlockConditions a)) (\<lambda>u.
    andthen (featsSize D (an_Features a)) (\<lambda>f.
    andthen (featsSize D (an_ImmutableFeatures a)) (\<lambda>i.
    Inr (serOneByte D + 8 + 8 + 32 + serUInt32 D + u + f + i))))"

definition schemeSize :: "'a ledger_deps_scheme \<Rightarrow> nat" where
  "schemeSize D = serOneByte D + serUInt256 D + serUInt256 D + serUInt256 D"

definition foundrySize :: "'a ledger_deps_scheme \<Rightarrow> foundry_output \<Rightarrow> nat go" where
  "foundrySize D x =
    andthen (ucsSize D (fo_UnlockConditions x)) (\<lambda>u.
    andthen (featsSize D (fo_Features x)) (\<lambda>f.
    andthen (featsSize D (fo_ImmutableFeatures x)) (\<lambda>i.
    Inr (serOneByte D + 8 + serUInt32 D + schemeSize D + u + f + i))))"

definition nftSize :: "'a ledger_deps_scheme \<Rightarrow> nft_output \<Rightarrow> nat go" where
  "nftSize D n =
    andthen (ucsSize D (no_UnlockConditions n)) (\<lambda>u.
    andthen (featsSize D (no_Features n)) (\<lambda>f.
    andthen (featsSize D (no_ImmutableFeatures n)) (\<lambda>i.
    Inr (serOneByte D + 8 + 8 + 32 + u + f + i))))"

definition delegationSize :: "'a ledger_deps_scheme \<Rightarrow> delegation_output \<Rightarrow> nat go" where
  "delegationSize D d =
    andthen (ucsSize D (do_UnlockConditions d)) (\<lambda>u.
    Inr (serOneByte D + 8 + 8 + 32 + serSmallType D + 32 + 4 + 4 + u))"

definition outSize :: "'a ledger_deps_scheme \<Rightarrow> ledger_output \<Rightarrow> nat go" where
  "outSize D out =
    (case out of BasicO x \<Rightarrow> basicSize D x | AccountO x \<Rightarrow> accountSize D x | AnchorO x \<Rightarrow> anchorSize D x
     | FoundryO x \<Rightarrow> foundrySize D x | NFTO x \<Rightarrow> nftSize D x | DelegationO x \<Rightarrow> delegationSize D x
     | ImplicitAccountO x \<Rightarrow> basicSize D x)"

definition outputsSize :: "'a ledger_deps_scheme \<Rightarrow> ledger_output list \<Rightarrow> nat go" where
  "outputsSize D outputs = sumG (outSize D) (serUInt16 D) outputs"

text \<open>The part of the score all outputs share: offset, data and unlock conditions.\<close>

definition dataScore :: "storage_score_structure \<Rightarrow> nat \<Rightarrow> u64" where
  "dataScore r n = factorMultiply (ssp_FactorData (sss_Parameters r)) (word_of_nat n)"

definition basicStorageScore ::
    "'a ledger_deps_scheme \<Rightarrow> storage_score_structure \<Rightarrow> basic_output \<Rightarrow> u64 go" where
  "basicStorageScore D r e =
    andthen (basicSize D e) (\<lambda>n.
    andthen (ucsStorageScore r (bo_UnlockConditions e)) (\<lambda>u.
    andthen (featsStorageScore r (bo_Features e)) (\<lambda>f.
    Inr (sss_OffsetOutput r + dataScore r n + u + f))))"

definition accountStorageScore ::
    "'a ledger_deps_scheme \<Rightarrow> storage_score_structure \<Rightarrow> account_output \<Rightarrow> u64 go" where
  "accountStorageScore D r a =
    andthen (accountSize D a) (\<lambda>n.
    andthen (ucsStorageScore r (ao_UnlockConditions a)) (\<lambda>u.
    andthen (featsStorageScore r (ao_Features a)) (\<lambda>f.
    andthen (featsStorageScore r (ao_ImmutableFeatures a)) (\<lambda>i.
    Inr (sss_OffsetOutput r + dataScore r n + u + f + i)))))"

definition anchorStorageScore ::
    "'a ledger_deps_scheme \<Rightarrow> storage_score_structure \<Rightarrow> anchor_output \<Rightarrow> u64 go" where
  "anchorStorageScore D r a =
    andthen (anchorSize D a) (\<lambda>n.
    andthen (ucsStorageScore r (an_UnlockConditions a)) (\<lambda>u.
    andthen (featsStorageScore r (an_Features a)) (\<lambda>f.
    andthen (featsStorageScore r (an_ImmutableFeatures a)) (\<lambda>i.
    Inr (sss_OffsetOutput r + dataScore r n + u + f + i)))))"

text \<open>The score of a token scheme is zero.\<close>

definition foundryStorageScore ::
    "'a ledger_deps_scheme \<Rightarrow> storage_score_structure \<Rightarrow> foundry_output \<Rightarrow> u64 go" where
  "foundryStorageScore D r x =
    andthen (foundrySize D x) (\<lambda>n.
    andthen (ucsStorageScore r (fo_UnlockConditions x)) (\<lambda>u.
    andthen (featsStorageScore r (fo_Features x)) (\<lambda>f.
    andthen (featsStorageScore r (fo_ImmutableFeatures x)) (\<lambda>i.
    Inr (sss_OffsetOutput r + dataScore r n + 0 + u + f + i)))))"

definition nftStorageScore ::
    "'a ledger_deps_scheme \<Rightarrow> storage_score_structure \<Rightarrow> nft_output \<Rightarrow> u64 go" where
  "nftStorageScore D r x =
    andthen (nftSize D x) (\<lambda>n.
    andthen (ucsStorageScore r (no_UnlockConditions x)) (\<lambda>u.
    andthen (featsStorageScore r (no_Features x)) (\<lambda>f.
    andthen (featsStorageScore r (no_ImmutableFeatures x)) (\<lambda>i.
    Inr (sss_OffsetOutput r + dataScore r n + u + f + i)))))"

definition delegationStorageScore ::
    "'a ledger_deps_scheme \<Rightarrow> storage_score_structure \<Rightarrow> delegation_output \<Rightarrow> u64 go" where
  "delegationStorageScore D r d =
    andthen (delegationSize D d) (\<lambda>n.
    andthen (ucsStorageScore r (do_UnlockConditions d)) (\<lambda>u.
    Inr (sss_OffsetOutput r + dataScore r n + ssp_OffsetDelegation (sss_Parameters r) + u)))"

definition outStorageScore ::
    "'a ledger_deps_scheme \<Rightarrow> storage_score_structure \<Rightarrow> ledger_output \<Rightarrow> u64 go" where
  "outStorageScore D r out =
    (case out of BasicO x \<Rightarrow> basicStorageScore D r x | AccountO x \<Rightarrow> accountStorageScore D r x
     | AnchorO x \<Rightarrow> anchorStorageScore D r x | FoundryO x \<Rightarrow> foundryStorageScore D r x
     | NFTO x \<Rightarrow> nftStorageScore D r x | DelegationO x \<Rightarrow> delegationStorageScore D r x
     | ImplicitAccountO x \<Rightarrow> basicStorageScore D r x)"

section \<open>Minimum deposits\<close>

text \<open>An output ID has 38 bytes, a block ID 36 and a slot index 4.\<close>

definition dummyAccount :: "bytes \<Rightarrow> bytes \<Rightarrow> account_output" where
  "dummyAccount a k =
    \<lparr>ao_Amount = 0, ao_Mana = 0, ao_AccountID = emptyID, ao_FoundryCounter = 0,
     ao_UnlockConditions = [AddressUC (Ed25519Address a)],
     ao_Features = [BlockIssuerF \<lparr>bif_ExpirySlot = 0, bif_BlockIssuerKeys = [k]\<rparr>],
     ao_ImmutableFeatures = []\<rparr>"

definition basicWithAddress :: "address \<Rightarrow> basic_output" where
  "basicWithAddress a =
    \<lparr>bo_Amount = 0, bo_Mana = 0, bo_UnlockConditions = [AddressUC a], bo_Features = []\<rparr>"

definition NewStorageScoreStructure ::
    "'a ledger_deps_scheme \<Rightarrow> storage_score_parameters \<Rightarrow> storage_score_structure go" where
  "NewStorageScoreStructure D p =
    (let dummyAddress = Ed25519Address (replicate 32 0);
         s = \<lparr>sss_Parameters = p, sss_OffsetImplicitAccountCreationAddress = 0, sss_OffsetOutput = 0\<rparr>
     in andthen (accountStorageScore D s (dummyAccount (replicate 32 0) (replicate 32 0)))
          (\<lambda>storageScoreAccountOutput.
        andthen (basicStorageScore D s (basicWithAddress dummyAddress)) (\<lambda>b.
        andthen (addrStorageScore s dummyAddress) (\<lambda>a.
        andthen (mustE (liftE (SafeSub64 D storageScoreAccountOutput (b - a)))) (\<lambda>off.
        let metadataOffset = factorMultiply (ssp_FactorData p) (38 + 36 + 4)
        in Inr (s\<lparr>sss_OffsetImplicitAccountCreationAddress := off,
                  sss_OffsetOutput := ssp_OffsetOutputOverhead p + metadataOffset\<rparr>))))))"

definition MinDeposit ::
    "'a ledger_deps_scheme \<Rightarrow> storage_score_structure \<Rightarrow> ledger_output \<Rightarrow> u64 go" where
  "MinDeposit D r out =
    andthen (outStorageScore D r out) (\<lambda>s. liftE (SafeMul64 D (ssp_StorageCost (sss_Parameters r)) s))"

definition CoversMinDeposit ::
    "'a ledger_deps_scheme \<Rightarrow> storage_score_structure \<Rightarrow> ledger_output \<Rightarrow> u64 \<Rightarrow> u64 go" where
  "CoversMinDeposit D r out amount =
    andthen (wrapE ''failed to compute min deposit'' (MinDeposit D r out)) (\<lambda>minDeposit.
    if amount < minDeposit
    then throw (Wrap (Sentinel ''ErrStorageDepositNotCovered'') ''expected at least %d, got %d'')
    else Inr minDeposit)"

definition MinStorageDepositForReturnOutput ::
    "'a ledger_deps_scheme \<Rightarrow> storage_score_structure \<Rightarrow> address \<Rightarrow> u64 go" where
  "MinStorageDepositForReturnOutput D r sender =
    andthen (basicStorageScore D r (basicWithAddress sender)) (\<lambda>s.
    liftE (SafeMul64 D (ssp_StorageCost (sss_Parameters r)) s))"

definition PotentialMana ::
    "'a ledger_deps_scheme \<Rightarrow> mana_decay_provider \<Rightarrow> storage_score_structure \<Rightarrow> ledger_output
     \<Rightarrow> u32 \<Rightarrow> u32 \<Rightarrow> u64 go" where
  "PotentialMana D p r out creationSlot targetSlot =
    andthen (wrapE ''failed to calculate min deposit for potential mana calculation'' (MinDeposit D r out))
      (\<lambda>minDeposit.
    case SafeSub64 D (outAmount out) minDeposit of
      Inl _ \<Rightarrow> Inr 0
    | Inr excessBaseTokens \<Rightarrow> GenerateManaAndDecayBySlots D p excessBaseTokens creationSlot targetSlot)"

section \<open>Lemmas\<close>

lemma sumG_simps [simp]:
  "sumG f s [] = Inr s" "sumG f s (x # xs) = andthen (f x) (\<lambda>n. sumG f (s + n) xs)"
  by (simp_all add: sumG_def andthen_assoc)

lemma scoreG_simps [simp]: "scoreG f [] = Inr 0" "scoreG f [x] = f x"
  by (simp_all add: scoreG_def andthen_assoc)

lemma factorMultiply_add: "factorMultiply f (a + b) = factorMultiply f a + factorMultiply f b"
  by (simp add: factorMultiply_def distrib_left)

text \<open>Loops that add up words do not depend on the order of the elements.\<close>

lemma scoreG_sum:
  "scoreG f xs = Inr t \<longleftrightarrow> (\<forall>x \<in> set xs. ok (f x)) \<and> t = (\<Sum>x\<leftarrow>xs. projr (f x))"
proof -
  have "foldG (\<lambda>s x. andthen (f x) (\<lambda>n. Inr (s + n))) s xs = Inr t
      \<longleftrightarrow> (\<forall>x \<in> set xs. ok (f x)) \<and> t = s + (\<Sum>x\<leftarrow>xs. projr (f x))" for s
  proof (induction xs arbitrary: s)
    case (Cons x xs)
    then show ?case by (cases "f x") (auto simp: add.assoc ok_iff)
  qed auto
  from this [of 0] show ?thesis by (simp add: scoreG_def)
qed

text \<open>An address can be stored unless it is a reference, which stands for a multi address in a block.\<close>

fun storable :: "address \<Rightarrow> bool" where
  "storable (MultiAddress as t) = list_all (\<lambda>(a, w). storable a) as"
| "storable (MultiAddressReference i) = False"
| "storable (RestrictedAddress a c) = storable a"
| "storable a = True"

lemma addrSize_ok: "storable a \<Longrightarrow> ok (addrSize D a)"
proof (induction a)
  case (MultiAddress as t)
  have "\<forall>(b, w) \<in> set as. ok (addrSize D b)" using MultiAddress by (fastforce simp: list_all_iff)
  then have "ok (foldG (\<lambda>s (a, w). andthen (addrSize D a) (\<lambda>n. Inr (s + (n + serOneByte D)))) s as)" for s
    by (induction as arbitrary: s) (auto simp: ok_iff)
  then show ?case by simp
next
  case (RestrictedAddress a c)
  then show ?case by (auto simp: ok_iff)
qed auto

lemma CoversMinDeposit_iff:
  assumes "safemath64 D"
  shows "CoversMinDeposit D r out amount = Inr m \<longleftrightarrow>
    (\<exists>s. outStorageScore D r out = Inr s \<and> unat m = unat (ssp_StorageCost (sss_Parameters r)) * unat s
       \<and> unat m \<le> unat amount)"
  by (auto simp: CoversMinDeposit_def MinDeposit_def andthen_eq_Inr checked_arith.mul_Inr_iff [OF assms]
      word_le_nat_alt not_less if_throw_eq_Inr)

lemma PotentialMana_uncovered:
  assumes "safemath64 D" "MinDeposit D r out = Inr m" "outAmount out < m"
  shows "PotentialMana D p r out c t = Inr 0"
proof -
  have "SafeSub64 D (outAmount out) m \<noteq> Inr x" for x
    using assms(3) by (auto simp: checked_arith.sub_Inr_iff [OF assms(1)] word_less_nat_alt)
  then show ?thesis using assms(2) by (cases "SafeSub64 D (outAmount out) m") (auto simp: PotentialMana_def)
qed

section \<open>The minimum deposit of an implicit account\<close>

lemma word_sum_of_unat: "unat (a :: 'w::len word) = unat b + unat c \<Longrightarrow> a = b + c"
proof -
  assume "unat a = unat b + unat c"
  then have "(word_of_nat (unat a) :: 'w word) = word_of_nat (unat b + unat c)" by simp
  then show "a = b + c" by simp
qed

definition demo_score :: storage_score_parameters where
  "demo_score = \<lparr>ssp_StorageCost = 100, ssp_FactorData = 1, ssp_OffsetOutputOverhead = 10,
     ssp_OffsetEd25519BlockIssuerKey = 100, ssp_OffsetStakingFeature = 100, ssp_OffsetDelegation = 100\<rparr>"

definition demo_structure :: storage_score_structure where
  "demo_structure = \<lparr>sss_Parameters = demo_score, sss_OffsetImplicitAccountCreationAddress = 176,
     sss_OffsetOutput = 88\<rparr>"

lemma demo_structure_new: "NewStorageScoreStructure ref_ledger demo_score = Inr demo_structure"
  by (simp add: NewStorageScoreStructure_def basicStorageScore_def accountStorageScore_def basicSize_def
      accountSize_def ucsSize_def featsSize_def ucSize_def featSize_def ucsStorageScore_def
      featsStorageScore_def ucStorageScore_def featStorageScore_def addrStorageScore_def dummyAccount_def
      basicWithAddress_def dataScore_def blockIssuerKeysSize_def blockIssuerKeysStorageScore_def Let_def
      demo_structure_def demo_score_def ref_sub_def factorMultiply_def)

end
