(* ===== verification/Merkle_Hasher.thy ===== *)
theory Merkle_Hasher
  imports Go_Prelude
begin

text \<open>
  Merkle trees over byte strings and inclusion proofs: merklehasher/merkle_hasher.go and
  merklehasher/merkle_proof.go.  The hash function is a parameter of every definition, as it is a
  parameter of the hasher; so is the encoding of the values (their method @\<open>Bytes\<close>).  The JSON and binary
  forms of a proof are left out.
\<close>

definition hashLeaf :: "(bytes \<Rightarrow> bytes) \<Rightarrow> bytes \<Rightarrow> bytes" where
  "hashLeaf H l = H (0 # l)"

definition hashNode :: "(bytes \<Rightarrow> bytes) \<Rightarrow> bytes \<Rightarrow> bytes \<Rightarrow> bytes" where
  "hashNode H l r = H (1 # l @ r)"

text \<open>@\<open>bits.Len\<close> of the standard library.\<close>

fun bitsLen :: "nat \<Rightarrow> nat" where
  "bitsLen n = (if n = 0 then 0 else Suc (bitsLen (n div 2)))"

declare bitsLen.simps [simp del]

lemma bitsLen_small [simp]: "bitsLen 0 = 0" "bitsLen (Suc 0) = 1"
  by (simp_all add: bitsLen.simps [of 0] bitsLen.simps [of "Suc 0"])

definition largestPowerOfTwo :: "nat \<Rightarrow> nat go" where
  "largestPowerOfTwo x =
    (if x < 2 then Inl (Panic ''invalid value'') else Inr (2 ^ (bitsLen (x - 1) - 1)))"

lemma bitsLen_bounds: "0 < n \<Longrightarrow> 0 < bitsLen n \<and> 2 ^ (bitsLen n - 1) \<le> n \<and> n < 2 ^ bitsLen n"
proof (induction n rule: bitsLen.induct)
  case (1 n)
  show ?case
  proof (cases "n div 2 = 0")
    case True
    with \<open>0 < n\<close> have "n = 1" by simp
    then show ?thesis by simp
  next
    case False
    with 1 have IH: "0 < bitsLen (n div 2)" "2 ^ (bitsLen (n div 2) - 1) \<le> n div 2"
      "n div 2 < 2 ^ bitsLen (n div 2)" by auto
    have p: "(2 :: nat) ^ bitsLen (n div 2) = 2 * 2 ^ (bitsLen (n div 2) - 1)"
      using IH(1) by (cases "bitsLen (n div 2)") auto
    have n: "2 * (n div 2) \<le> n" "n < 2 * (n div 2) + 2" by linarith+
    have "bitsLen n = Suc (bitsLen (n div 2))" using \<open>0 < n\<close> by (subst bitsLen.simps) simp
    moreover have "2 ^ bitsLen (n div 2) \<le> n" "n < 2 * 2 ^ bitsLen (n div 2)"
      using n IH p by linarith+
    ultimately show ?thesis by simp
  qed
qed

lemma largestPowerOfTwo_bounds:
  assumes "largestPowerOfTwo n = Inr k"
  shows "0 < k \<and> k < n \<and> n \<le> 2 * k"
proof -
  have n: "2 \<le> n" and k: "k = 2 ^ (bitsLen (n - 1) - 1)"
    using assms by (auto simp: largestPowerOfTwo_def split: if_splits)
  have b: "0 < bitsLen (n - 1)" "k \<le> n - 1" "n - 1 < 2 ^ bitsLen (n - 1)"
    using n bitsLen_bounds [of "n - 1"] by (simp_all add: k)
  moreover have "(2 :: nat) ^ bitsLen (n - 1) = 2 * k"
    unfolding k by (metis b(1) Suc_pred' power_Suc)
  ultimately have "k < n" "n \<le> 2 * k" using n by linarith+
  then show ?thesis by (simp add: k)
qed

function merkleHash :: "(bytes \<Rightarrow> bytes) \<Rightarrow> bytes list \<Rightarrow> bytes go" where
  "merkleHash H data =
    (if length data = 0 then Inr (H [])
     else if length data = 1 then Inr (hashLeaf H (data ! 0))
     else andthen (largestPowerOfTwo (length data)) (\<lambda>k.
          andthen (merkleHash H (take k data)) (\<lambda>l.
          andthen (merkleHash H (drop k data)) (\<lambda>r. Inr (hashNode H l r)))))"
  by pat_completeness auto
termination
  by (relation "measure (\<lambda>(H, data). length data)") (auto dest: largestPowerOfTwo_bounds)

definition HashValues :: "('v \<Rightarrow> bytes go) \<Rightarrow> (bytes \<Rightarrow> bytes) \<Rightarrow> 'v list \<Rightarrow> bytes go" where
  "HashValues enc H values = andthen (mapG enc values) (\<lambda>data. merkleHash H data)"

section \<open>Inclusion proofs\<close>

datatype merkle_hashable =
    ValueHash bytes
  | LeafHash bytes
  | ProofNode merkle_hashable merkle_hashable

function computeProof :: "(bytes \<Rightarrow> bytes) \<Rightarrow> bytes list \<Rightarrow> nat \<Rightarrow> merkle_hashable go" where
  "computeProof H data index =
    (if length data < 2 then andthen (nthG data 0) (\<lambda>leaf. Inr (ValueHash (hashLeaf H leaf)))
     else if length data = 2 then
       (if index = 0
        then Inr (ProofNode (ValueHash (hashLeaf H (data ! 0))) (LeafHash (hashLeaf H (data ! 1))))
        else Inr (ProofNode (LeafHash (hashLeaf H (data ! 0))) (ValueHash (hashLeaf H (data ! 1)))))
     else andthen (largestPowerOfTwo (length data)) (\<lambda>k.
       if index < k then
         andthen (computeProof H (take k data) index) (\<lambda>left.
         andthen (merkleHash H (drop k data)) (\<lambda>right. Inr (ProofNode left (LeafHash right))))
       else
         andthen (merkleHash H (take k data)) (\<lambda>left.
         andthen (computeProof H (drop k data) (index - k)) (\<lambda>right. Inr (ProofNode (LeafHash left) right)))))"
  by pat_completeness auto
termination
  by (relation "measure (\<lambda>(H, data, i). length data)") (auto dest: largestPowerOfTwo_bounds)

declare merkleHash.simps [simp del] computeProof.simps [simp del]

definition ComputeProofForIndex ::
    "('v \<Rightarrow> bytes go) \<Rightarrow> (bytes \<Rightarrow> bytes) \<Rightarrow> 'v list \<Rightarrow> nat \<Rightarrow> merkle_hashable go" where
  "ComputeProofForIndex enc H values index =
    (if length values < 1
     then throw (Errorf ''at least one item is needed to create an inclusion proof'')
     else if length values \<le> index
     then throw (Errorf ''index %d out of bounds for 'values' of len %d'')
     else andthen (mapG enc values) (\<lambda>data. computeProof H data index))"

text \<open>The loop of @\<open>ComputeProof\<close> encodes the values until it finds one with the wanted bytes.\<close>

fun findValue :: "('v \<Rightarrow> bytes go) \<Rightarrow> bytes \<Rightarrow> nat \<Rightarrow> 'v list \<Rightarrow> nat option go" where
  "findValue enc b i [] = Inr None"
| "findValue enc b i (v # vs) =
    andthen (enc v) (\<lambda>valueBytes. if b = valueBytes then Inr (Some i) else findValue enc b (Suc i) vs)"

definition ComputeProof ::
    "('v \<Rightarrow> bytes go) \<Rightarrow> (bytes \<Rightarrow> bytes) \<Rightarrow> 'v list \<Rightarrow> 'v \<Rightarrow> merkle_hashable go" where
  "ComputeProof enc H values valueToProof =
    andthen (enc valueToProof) (\<lambda>valueToProofBytes.
    andthen (findValue enc valueToProofBytes 0 values) (\<lambda>found.
    case found of
      None \<Rightarrow> throw (Wrap (Sentinel ''ErrProofValueNotFound'') ''value %s is not contained in the given values list'')
    | Some index \<Rightarrow> ComputeProofForIndex enc H values index))"

primrec proofHash :: "(bytes \<Rightarrow> bytes) \<Rightarrow> merkle_hashable \<Rightarrow> bytes" where
  "proofHash H (ValueHash h) = h"
| "proofHash H (LeafHash h) = h"
| "proofHash H (ProofNode l r) = hashNode H (proofHash H l) (proofHash H r)"

primrec containsValueHash :: "merkle_hashable \<Rightarrow> bytes \<Rightarrow> bool" where
  "containsValueHash (LeafHash h) hashedValue = False"
| "containsValueHash (ValueHash h) hashedValue = (hashedValue = h)"
| "containsValueHash (ProofNode l r) hashedValue =
    (containsValueHash r hashedValue \<or> containsValueHash l hashedValue)"

definition ContainsValue ::
    "('v \<Rightarrow> bytes go) \<Rightarrow> (bytes \<Rightarrow> bytes) \<Rightarrow> merkle_hashable \<Rightarrow> 'v \<Rightarrow> bool go" where
  "ContainsValue enc H p v =
    andthen (enc v) (\<lambda>valueBytes. Inr (containsValueHash p (hashLeaf H valueBytes)))"

section \<open>Completeness\<close>

lemma merkleHash_short [simp]: "merkleHash H [] = Inr (H [])" "merkleHash H [d] = Inr (hashLeaf H d)"
  by (simp_all add: merkleHash.simps [of H "[]"] merkleHash.simps [of H "[d]"])

lemma largestPowerOfTwo_defined: "2 \<le> n \<Longrightarrow> \<exists>k. largestPowerOfTwo n = Inr k \<and> 0 < k \<and> k < n"
  using largestPowerOfTwo_bounds [of n] by (auto simp: largestPowerOfTwo_def not_less)

text \<open>A tree with at least two leaves splits into two non-empty ones.\<close>

lemma merkleHash_split:
  assumes "largestPowerOfTwo (length data) = Inr k"
  shows "merkleHash H data =
    andthen (merkleHash H (take k data)) (\<lambda>l. andthen (merkleHash H (drop k data)) (\<lambda>r. Inr (hashNode H l r)))"
  using assms largestPowerOfTwo_bounds [OF assms] by (subst merkleHash.simps) auto

lemma merkleHash_total: "\<exists>h. merkleHash H data = Inr h"
proof (induction "length data" arbitrary: data rule: less_induct)
  case less
  consider "data = []" | d where "data = [d]" | "2 \<le> length data"
    by (cases data; cases "tl data") auto
  then show ?case
  proof cases
    case 3
    then obtain k where k: "largestPowerOfTwo (length data) = Inr k" "0 < k" "k < length data"
      using largestPowerOfTwo_defined by blast
    obtain l where l: "merkleHash H (take k data) = Inr l"
      using k less [of "take k data"] by auto
    obtain r where "merkleHash H (drop k data) = Inr r"
      using k less [OF _ , of "drop k data"] by fastforce
    with l show ?thesis by (simp add: merkleHash_split [OF k(1)])
  qed auto
qed

lemma computeProof_complete:
  assumes "index < length data"
  shows "\<exists>p. computeProof H data index = Inr p \<and> merkleHash H data = Inr (proofHash H p)
      \<and> containsValueHash p (hashLeaf H (data ! index))"
  using assms
proof (induction "length data" arbitrary: data index rule: less_induct)
  case less
  consider d where "data = [d]" | d e where "data = [d, e]" | "2 < length data"
    using less.prems by (cases data; cases "tl data"; cases "tl (tl data)") auto
  then show ?case
  proof cases
    case 1
    with less.prems show ?thesis by (simp add: computeProof.simps [of H "[d]"])
  next
    case 2
    have "largestPowerOfTwo (length [d, e]) = Inr 1"
      by (simp add: largestPowerOfTwo_def)
    from merkleHash_split [OF this, of H] 2
    have "merkleHash H data = Inr (hashNode H (hashLeaf H d) (hashLeaf H e))" by simp
    moreover have "index = 0 \<or> index = 1" using less.prems 2 by auto
    ultimately show ?thesis using 2 by (auto simp: computeProof.simps [of H "[d, e]"])
  next
    case 3
    then obtain k where k: "largestPowerOfTwo (length data) = Inr k" "0 < k" "k < length data"
      using largestPowerOfTwo_defined [of "length data"] by auto
    obtain hl hr where h: "merkleHash H (take k data) = Inr hl" "merkleHash H (drop k data) = Inr hr"
      using merkleHash_total by blast
    show ?thesis
    proof (cases "index < k")
      case True
      with less.hyps [of "take k data" index] k h
      obtain p where "computeProof H (take k data) index = Inr p" "hl = proofHash H p"
        "containsValueHash p (hashLeaf H (data ! index))" by auto
      with 3 k h True show ?thesis
        by (simp add: computeProof.simps [of H data] merkleHash_split [OF k(1)])
    next
      case False
      then have "index - k < length (drop k data)" "length (drop k data) < length data"
        using k less.prems by auto
      from less.hyps [OF this(2,1)] k h False less.prems
      obtain p where "computeProof H (drop k data) (index - k) = Inr p" "hr = proofHash H p"
        "containsValueHash p (hashLeaf H (data ! index))" by auto
      with 3 k h False show ?thesis
        by (simp add: computeProof.simps [of H data] merkleHash_split [OF k(1)])
    qed
  qed
qed

section \<open>Soundness\<close>

text \<open>The strings a proof check hashes, and the strings the root computation hashes.\<close>

primrec proofQueries :: "(bytes \<Rightarrow> bytes) \<Rightarrow> merkle_hashable \<Rightarrow> bytes set" where
  "proofQueries H (ValueHash h) = {}"
| "proofQueries H (LeafHash h) = {}"
| "proofQueries H (ProofNode l r) =
    {1 # proofHash H l @ proofHash H r} \<union> proofQueries H l \<union> proofQueries H r"

inductive treeQuery :: "(bytes \<Rightarrow> bytes) \<Rightarrow> bytes list \<Rightarrow> bytes \<Rightarrow> bool" for H where
  empty: "treeQuery H [] []"
| leaf: "treeQuery H [d] (0 # d)"
| node: "largestPowerOfTwo (length data) = Inr k \<Longrightarrow> merkleHash H (take k data) = Inr l \<Longrightarrow>
    merkleHash H (drop k data) = Inr r \<Longrightarrow> treeQuery H data (1 # l @ r)"
| left: "largestPowerOfTwo (length data) = Inr k \<Longrightarrow> treeQuery H (take k data) x \<Longrightarrow> treeQuery H data x"
| right: "largestPowerOfTwo (length data) = Inr k \<Longrightarrow> treeQuery H (drop k data) x \<Longrightarrow> treeQuery H data x"

text \<open>The hash of a list is the hash of one of its queries: the last one.\<close>

lemma merkleHash_query:
  obtains "data = []" "merkleHash H data = Inr (H [])" "treeQuery H data []"
  | d where "data = [d]" "merkleHash H data = Inr (H (0 # d))" "treeQuery H data (0 # d)"
  | k l r where "largestPowerOfTwo (length data) = Inr k" "merkleHash H (take k data) = Inr l"
      "merkleHash H (drop k data) = Inr r" "merkleHash H data = Inr (H (1 # l @ r))"
      "treeQuery H data (1 # l @ r)"
proof -
  consider "data = []" | d where "data = [d]" | "2 \<le> length data"
    by (cases data; cases "tl data") auto
  then show thesis
  proof cases
    case 1
    with that(1) show thesis by (simp add: treeQuery.empty)
  next
    case (2 d)
    with that(2) show thesis by (simp add: treeQuery.leaf hashLeaf_def)
  next
    case 3
    then obtain k where k: "largestPowerOfTwo (length data) = Inr k"
      using largestPowerOfTwo_defined by blast
    obtain l r where lr: "merkleHash H (take k data) = Inr l" "merkleHash H (drop k data) = Inr r"
      using merkleHash_total by blast
    with k that(3) [of k l r] show thesis
      by (simp add: merkleHash_split [OF k] hashNode_def treeQuery.node)
  qed
qed

lemma proofHash_length:
  assumes "\<And>b. length (H b) = N" "containsValueHash p (hashLeaf H v)"
  shows "length (proofHash H p) = N"
  using assms(2) assms(1) by (cases p) (auto simp: hashNode_def hashLeaf_def)

lemma merkleHash_length:
  assumes "\<And>b. length (H b) = N" "merkleHash H data = Inr h"
  shows "length h = N"
  by (rule merkleHash_query [of data H]) (use assms in \<open>auto simp: hashLeaf_def\<close>)

lemma merkle_sound_aux:
  assumes N: "\<And>b. length (H b) = N"
    and "inj_on H (insert (0 # v) (proofQueries H p \<union> {x. treeQuery H data x}))"
    and "merkleHash H data = Inr (proofHash H p)" "containsValueHash p (hashLeaf H v)"
  shows "v \<in> set data"
  using assms(2-)
proof (induction p arbitrary: data)
  case (ValueHash h)
  have h: "h = H (0 # v)" using ValueHash by (simp add: hashLeaf_def)
  have inj: "x = 0 # v" if "treeQuery H data x" "H x = H (0 # v)" for x
    using inj_onD [OF ValueHash.prems(1) that(2)] that(1) by simp
  show ?case
    by (rule merkleHash_query [of data H]) (use ValueHash.prems h inj in auto)
next
  case (ProofNode p q)
  let ?x = "1 # proofHash H p @ proofHash H q"
  have root: "merkleHash H data = Inr (H ?x)"
    using ProofNode.prems by (simp add: hashNode_def)
  have inj: "x = ?x" if "treeQuery H data x" "H x = H ?x" for x
    using inj_onD [OF ProofNode.prems(1) that(2)] that(1) by simp
  show ?case
  proof (rule merkleHash_query [of data H])
    fix k l r
    assume k: "largestPowerOfTwo (length data) = Inr k" and l: "merkleHash H (take k data) = Inr l"
      and r: "merkleHash H (drop k data) = Inr r"
      and d: "merkleHash H data = Inr (H (1 # l @ r))" and t: "treeQuery H data (1 # l @ r)"
    from d root inj [OF t] have app: "l @ r = proofHash H p @ proofHash H q" by simp
    have len: "length l = N" "length r = N"
      by (rule merkleHash_length [OF N l], rule merkleHash_length [OF N r])
    have sub: "{x. treeQuery H (take k data) x} \<subseteq> {x. treeQuery H data x}"
      "{x. treeQuery H (drop k data) x} \<subseteq> {x. treeQuery H data x}"
      using k by (auto intro: treeQuery.left treeQuery.right)
    have "containsValueHash p (hashLeaf H v) \<or> containsValueHash q (hashLeaf H v)"
      using ProofNode.prems(3) by auto
    then show "v \<in> set data"
    proof
      assume c: "containsValueHash p (hashLeaf H v)"
      then have "l = proofHash H p" using app len proofHash_length [OF N c] by simp
      moreover have "inj_on H (insert (0 # v) (proofQueries H p \<union> {x. treeQuery H (take k data) x}))"
        by (rule inj_on_subset [OF ProofNode.prems(1)]) (use sub in auto)
      ultimately have "v \<in> set (take k data)" using ProofNode.IH(1) c l by simp
      then show ?thesis by (rule in_set_takeD)
    next
      assume c: "containsValueHash q (hashLeaf H v)"
      then have "r = proofHash H q" using app len proofHash_length [OF N c] by (simp add: append_eq_append_conv)
      moreover have "inj_on H (insert (0 # v) (proofQueries H q \<union> {x. treeQuery H (drop k data) x}))"
        by (rule inj_on_subset [OF ProofNode.prems(1)]) (use sub in auto)
      ultimately have "v \<in> set (drop k data)" using ProofNode.IH(2) c r by simp
      then show ?thesis by (rule in_set_dropD)
    qed
  next
    fix d
    assume "merkleHash H data = Inr (H (0 # d))" "treeQuery H data (0 # d)"
    with inj [of "0 # d"] root show "v \<in> set data" by simp
  qed (use root inj [of "[]"] in auto)
qed simp

lemma compute_proof_complete:
  assumes "mapG enc values = Inr data" "index < length values"
  shows "\<exists>p. ComputeProofForIndex enc H values index = Inr p \<and> HashValues enc H values = Inr (proofHash H p)
    \<and> ContainsValue enc H p (values ! index) = Inr True"
proof -
  have l: "list_all2 (\<lambda>x y. enc x = Inr y) values data" using assms(1) by (simp add: mapG_iff)
  then have "length data = length values" "enc (values ! index) = Inr (data ! index)"
    using assms(2) by (auto simp: list_all2_conv_all_nth)
  with computeProof_complete [of index data H] assms show ?thesis
    by (auto simp: ComputeProofForIndex_def HashValues_def ContainsValue_def)
qed

text \<open>C36: for every value of a non-empty list the computed proof contains that value and hashes to the
  root of the tree over the list.\<close>

theorem merkle_proof_complete:
  assumes "mapG enc values = Inr data" "index < length values"
  shows "\<exists>p. ComputeProofForIndex enc H values index = Inr p \<and> HashValues enc H values = Inr (proofHash H p)
    \<and> ContainsValue enc H p (values ! index) = Inr True"
  using assms by (rule compute_proof_complete)

theorem merkle_proof_complete_witness:
  "\<exists>p. ComputeProofForIndex Inr ref_sum256 [[1], [2], [3]] 2 = Inr p
    \<and> ContainsValue Inr ref_sum256 p [3] = Inr True"
  using merkle_proof_complete [of Inr "[[1], [2], [3]]" "[[1], [2], [3]]" 2 ref_sum256] by auto

text \<open>C35: a proof that hashes to the root of a list and contains a value shows that the value is in the
  list, whatever the proof is made of, unless the check and the root computation hit a collision of the
  hash function among the strings they hash.\<close>

theorem merkle_proof_sound:
  assumes "\<And>b. length (H b) = N"
    and "merkleHash H data = Inr (proofHash H p)" "ContainsValue Inr H p v = Inr True"
    and "inj_on H (insert (0 # v) (proofQueries H p \<union> {x. treeQuery H data x}))"
  shows "v \<in> set data"
  using merkle_sound_aux [OF assms(1,4,2)] assms(3) by (simp add: ContainsValue_def)

text \<open>The queries of a tree with two leaves.\<close>

lemma treeQuery_single: "treeQuery H [d] x \<Longrightarrow> x = 0 # d"
  by (erule treeQuery.cases) (auto simp: largestPowerOfTwo_def)

lemma treeQuery_pair: "treeQuery H [d, e] x \<Longrightarrow> x \<in> {0 # d, 0 # e, 1 # H (0 # d) @ H (0 # e)}"
  by (erule treeQuery.cases)
    (auto simp: largestPowerOfTwo_def hashLeaf_def numeral_2_eq_2 dest: treeQuery_single)

theorem merkle_proof_sound_witness:
  "ContainsValue Inr ref_sum256 (ProofNode (LeafHash (ref_sum256 [0, 1])) (ValueHash (ref_sum256 [0, 2]))) [2]
     = Inr True \<and> [2 :: byte] \<in> set [[1], [2]]"
proof -
  let ?p = "ProofNode (LeafHash (ref_sum256 [0, 1])) (ValueHash (ref_sum256 [0, 2]))"
  have p: "largestPowerOfTwo (length [[1], [2] :: bytes]) = Inr 1" by (simp add: largestPowerOfTwo_def)
  have root: "merkleHash ref_sum256 [[1], [2]] = Inr (proofHash ref_sum256 ?p)"
    using merkleHash_split [OF p] by (simp add: hashLeaf_def)
  have c: "ContainsValue Inr ref_sum256 ?p [2] = Inr True" by (simp add: ContainsValue_def hashLeaf_def)
  have "inj_on ref_sum256 {[0, 2], [0, 1], 1 # ref_sum256 [0, 1] @ ref_sum256 [0, 2]}"
    by (simp add: ref_sum256_def)
  moreover have "insert (0 # [2]) (proofQueries ref_sum256 ?p \<union> {x. treeQuery ref_sum256 [[1], [2]] x})
      \<subseteq> {[0, 2], [0, 1], 1 # ref_sum256 [0, 1] @ ref_sum256 [0, 2]}"
    by (auto dest: treeQuery_pair)
  ultimately have "inj_on ref_sum256
      (insert (0 # [2]) (proofQueries ref_sum256 ?p \<union> {x. treeQuery ref_sum256 [[1], [2]] x}))"
    by (rule inj_on_subset)
  from merkle_proof_sound [where N = 32, OF _ root c this] c show ?thesis by (simp add: ref_sum256_def)
qed

end
