(* ===== verification/Ledger_Tx.thy ===== *)
theory Ledger_Tx
  imports Storage_Score Merkle_Hasher
begin

text \<open>
  Transactions: transaction.go, transaction_essence.go, signed_transaction.go, input*.go, allotment.go and
  the unlocks of unlock*.go, and the proofs of output IDs of output_id_proof.go.  The serialization of a
  transaction, an unlock and an output (@\<open>API.Encode\<close>, hive.go/serializer/serix) is a parameter.  The
  protocol parameters of the API are a record.
\<close>

section \<open>Inputs, allotments and unlocks\<close>

text \<open>The only input type is the UTXO input: a transaction ID and an output index.\<close>

record utxo_input =
  in_TransactionID :: bytes
  in_Index :: u16

definition inOutputID :: "utxo_input \<Rightarrow> bytes" where
  "inOutputID u = OutputIDFromTransactionIDAndIndex (in_TransactionID u) (in_Index u)"

datatype context_input =
    CommitmentInput bytes
  | BlockIssuanceCreditInput bytes
  | RewardInput u16

record mana_allotment =
  al_AccountID :: bytes
  al_Mana :: u64

definition allotmentsGet :: "mana_allotment list \<Rightarrow> bytes \<Rightarrow> u64" where
  "allotmentsGet a i = (case find (\<lambda>x. al_AccountID x = i) a of Some x \<Rightarrow> al_Mana x | None \<Rightarrow> 0)"

text \<open>A signature is absent when a library user built the unlock without one.\<close>

datatype unlock =
    SignatureUnlock "ed25519_signature option"
  | ReferenceUnlock u16
  | AccountUnlock u16
  | AnchorUnlock u16
  | NFTUnlock u16
  | MultiUnlock "unlock list"
  | EmptyUnlock

text \<open>The methods of a @\<open>ReferentialUnlock\<close>; None for the other unlocks.\<close>

definition ReferencedInputIndex :: "unlock \<Rightarrow> u16 option" where
  "ReferencedInputIndex u =
    (case u of ReferenceUnlock r \<Rightarrow> Some r | AccountUnlock r \<Rightarrow> Some r | AnchorUnlock r \<Rightarrow> Some r
     | NFTUnlock r \<Rightarrow> Some r | _ \<Rightarrow> None)"

definition Chainable :: "unlock \<Rightarrow> bool" where
  "Chainable u =
    (case u of AccountUnlock _ \<Rightarrow> True | AnchorUnlock _ \<Rightarrow> True | NFTUnlock _ \<Rightarrow> True | _ \<Rightarrow> False)"

definition SourceAllowed :: "unlock \<Rightarrow> address \<Rightarrow> bool" where
  "SourceAllowed u a =
    (case u of
       ReferenceUnlock _ \<Rightarrow> \<not> isChainAddress a
     | AccountUnlock _ \<Rightarrow> (case a of AccountAddress _ \<Rightarrow> True | _ \<Rightarrow> False)
     | AnchorUnlock _ \<Rightarrow> (case a of AnchorAddress _ \<Rightarrow> True | _ \<Rightarrow> False)
     | NFTUnlock _ \<Rightarrow> (case a of NFTAddress _ \<Rightarrow> True | _ \<Rightarrow> False)
     | _ \<Rightarrow> False)"

section \<open>Transactions\<close>

text \<open>The only payload of a transaction is tagged data.\<close>

record tagged_data =
  td_Tag :: bytes
  td_Data :: bytes

record transaction_essence =
  te_NetworkID :: u64
  te_CreationSlot :: u32
  te_ContextInputs :: "context_input list"
  te_Inputs :: "utxo_input list"
  te_Allotments :: "mana_allotment list"
  te_Capabilities :: bytes
  te_Payload :: "tagged_data option"

record transaction = transaction_essence +
  tx_Outputs :: "ledger_output list"

record signed_transaction =
  st_Transaction :: transaction
  st_Unlocks :: "unlock list"

text \<open>The protocol parameters and providers of the API the transaction is processed under.\<close>

record ledger_api =
  api_NetworkID :: u64
  api_TokenSupply :: u64
  api_ManaBitsCount :: nat
  api_MinCommittableAge :: u32
  api_MaxCommittableAge :: u32
  api_StakingUnbondingPeriod :: u32
  api_EpochNearingThreshold :: u32
  api_TimeProvider :: time_provider
  api_ManaDecayProvider :: mana_decay_provider
  api_StorageScoreStructure :: storage_score_structure

record tx_deps = ledger_deps +
  encEssence :: "transaction_essence \<Rightarrow> bytes go"
  encTransaction :: "transaction \<Rightarrow> bytes go"
  encUnlock :: "unlock \<Rightarrow> bytes go"
  encOutput :: "ledger_output \<Rightarrow> bytes go"

definition TransactionCommitment :: "'a tx_deps_scheme \<Rightarrow> transaction \<Rightarrow> bytes go" where
  "TransactionCommitment D t =
    andthen (wrapE ''failed to serialize transaction essence''
        (encEssence D (transaction_essence.truncate t)))
      (\<lambda>essenceBytes. Inr (sum256 D essenceBytes))"

definition OutputCommitment :: "'a tx_deps_scheme \<Rightarrow> transaction \<Rightarrow> bytes go" where
  "OutputCommitment D t = HashValues (encOutput D) (sum256 D) (tx_Outputs t)"

definition TransactionIDFromTransactionCommitmentAndOutputCommitment ::
    "'a deps_scheme \<Rightarrow> u32 \<Rightarrow> bytes \<Rightarrow> bytes \<Rightarrow> bytes" where
  "TransactionIDFromTransactionCommitmentAndOutputCommitment D slot transactionCommitment outputCommitment =
     sum256 D (transactionCommitment @ outputCommitment) @ le32 slot"

definition TransactionIDG :: "'a tx_deps_scheme \<Rightarrow> transaction \<Rightarrow> bytes go" where
  "TransactionIDG D t =
    andthen (wrapE ''failed to compute transaction commitment'' (TransactionCommitment D t))
      (\<lambda>transactionCommitment.
    andthen (wrapE ''failed to compute output commitment'' (OutputCommitment D t))
      (\<lambda>outputCommitment.
    Inr (TransactionIDFromTransactionCommitmentAndOutputCommitment D (te_CreationSlot t)
           transactionCommitment outputCommitment)))"

definition SigningMessage :: "'a tx_deps_scheme \<Rightarrow> transaction \<Rightarrow> bytes go" where
  "SigningMessage D t = andthen (encTransaction D t) (\<lambda>essenceBytes. Inr (sum256 D essenceBytes))"

definition txCommitmentInput :: "transaction \<Rightarrow> bytes option" where
  "txCommitmentInput t =
    (case find (\<lambda>i. case i of CommitmentInput _ \<Rightarrow> True | _ \<Rightarrow> False) (te_ContextInputs t) of
       Some (CommitmentInput c) \<Rightarrow> Some c | _ \<Rightarrow> None)"

definition BICInputs :: "transaction \<Rightarrow> bytes list" where
  "BICInputs t =
    List.map_filter (\<lambda>i. case i of BlockIssuanceCreditInput a \<Rightarrow> Some a | _ \<Rightarrow> None) (te_ContextInputs t)"

definition RewardInputs :: "transaction \<Rightarrow> u16 list" where
  "RewardInputs t =
    List.map_filter (\<lambda>i. case i of RewardInput n \<Rightarrow> Some n | _ \<Rightarrow> None) (te_ContextInputs t)"

definition OutputsSet :: "'a tx_deps_scheme \<Rightarrow> transaction \<Rightarrow> (bytes \<times> ledger_output) list go" where
  "OutputsSet D t =
    andthen (TransactionIDG D t) (\<lambda>txID.
    Inr (fold (\<lambda>(index, output) set1.
           AList.update (OutputIDFromTransactionIDAndIndex txID (word_of_nat index)) output set1)
         (List.enumerate 0 (tx_Outputs t)) []))"

section \<open>Proofs of output IDs\<close>

record output_id_proof =
  oip_Slot :: u32
  oip_OutputIndex :: u16
  oip_TransactionCommitment :: bytes
  oip_OutputCommitmentProof :: merkle_hashable

definition NewOutputIDProof ::
    "'a tx_deps_scheme \<Rightarrow> bytes \<Rightarrow> u32 \<Rightarrow> ledger_output list \<Rightarrow> u16 \<Rightarrow> output_id_proof go" where
  "NewOutputIDProof D txCommitment txCreationSlot outputs outputIndex1 =
    (if length outputs \<le> unat outputIndex1
     then throw (Errorf ''index %d out of bounds for outputs slice of len %d'')
     else andthen (wrapE ''failed to compute proof for index %d''
         (ComputeProofForIndex (encOutput D) (sum256 D) outputs (unat outputIndex1))) (\<lambda>p.
       Inr \<lparr>oip_Slot = txCreationSlot, oip_OutputIndex = outputIndex1,
            oip_TransactionCommitment = txCommitment, oip_OutputCommitmentProof = p\<rparr>))"

definition OutputIDProofFromTransaction ::
    "'a tx_deps_scheme \<Rightarrow> transaction \<Rightarrow> u16 \<Rightarrow> output_id_proof go" where
  "OutputIDProofFromTransaction D tx outputIndex1 =
    andthen (TransactionCommitment D tx) (\<lambda>transactionCommitment.
    NewOutputIDProof D transactionCommitment (te_CreationSlot tx) (tx_Outputs tx) outputIndex1)"

definition proofOutputID :: "'a tx_deps_scheme \<Rightarrow> output_id_proof \<Rightarrow> ledger_output \<Rightarrow> bytes go" where
  "proofOutputID D p output =
    andthen (wrapE ''failed to check if proof contains output''
        (ContainsValue (encOutput D) (sum256 D) (oip_OutputCommitmentProof p) output)) (\<lambda>contains.
    if \<not> contains then throw (Errorf ''proof does not contain the given output'')
    else
      let outputCommitment = proofHash (sum256 D) (oip_OutputCommitmentProof p)
      in Inr (OutputIDFromTransactionIDAndIndex
           (TransactionIDFromTransactionCommitmentAndOutputCommitment D (oip_Slot p)
              (oip_TransactionCommitment p) outputCommitment)
           (oip_OutputIndex p)))"

section \<open>Lemmas\<close>

text \<open>The slot of an identifier is its last four bytes.\<close>

lemma TransactionIDG_slot:
  assumes "TransactionIDG D t = Inr i" and "\<And>b. length (sum256 D b) = 32"
  shows "length i = 36 \<and> fromLE32 (drop 32 i) = te_CreationSlot t"
  using assms by (auto simp: TransactionIDG_def TransactionIDFromTransactionCommitmentAndOutputCommitment_def
      andthen_eq_Inr)

lemma ref_index_unlock:
  "Chainable u \<Longrightarrow> ReferencedInputIndex u \<noteq> None" "SourceAllowed u a \<Longrightarrow> ReferencedInputIndex u \<noteq> None"
  by (auto simp: Chainable_def SourceAllowed_def ReferencedInputIndex_def split: unlock.splits)

lemma SourceAllowed_chain:
  "SourceAllowed u a \<Longrightarrow> Chainable u \<longleftrightarrow> isChainAddress a"
  by (auto simp: SourceAllowed_def Chainable_def isChainAddress_def split: unlock.splits address.splits)

text \<open>The proof of an output ID made from a transaction gives, for the output at the index, the
  output ID the ledger gives that output.\<close>

theorem output_id_proof_correct:
  assumes "OutputIDProofFromTransaction D tx i = Inr p"
  shows "\<exists>txID. TransactionIDG D tx = Inr txID \<and> unat i < length (tx_Outputs tx)
    \<and> proofOutputID D p (tx_Outputs tx ! unat i) = Inr (OutputIDFromTransactionIDAndIndex txID i)"
proof -
  obtain c m where c: "TransactionCommitment D tx = Inr c" and i: "unat i < length (tx_Outputs tx)"
    and m: "ComputeProofForIndex (encOutput D) (sum256 D) (tx_Outputs tx) (unat i) = Inr m"
    and p: "p = \<lparr>oip_Slot = te_CreationSlot tx, oip_OutputIndex = i, oip_TransactionCommitment = c,
      oip_OutputCommitmentProof = m\<rparr>"
    using assms by (auto simp: OutputIDProofFromTransaction_def NewOutputIDProof_def andthen_eq_Inr
        if_throw_eq_Inr not_le)
  from m obtain data where "mapG (encOutput D) (tx_Outputs tx) = Inr data"
    by (auto simp: ComputeProofForIndex_def andthen_eq_Inr if_throw_eq_Inr)
  from compute_proof_complete [OF this i, of "sum256 D"] m
  have "HashValues (encOutput D) (sum256 D) (tx_Outputs tx) = Inr (proofHash (sum256 D) m)"
    "ContainsValue (encOutput D) (sum256 D) m (tx_Outputs tx ! unat i) = Inr True" by auto
  with c i p show ?thesis
    by (simp add: TransactionIDG_def OutputCommitment_def proofOutputID_def Let_def)
qed

text \<open>A closed instance for evaluation.\<close>

definition ref_tx_deps :: tx_deps where
  "ref_tx_deps = ledger_deps.extend ref_ledger
     \<lparr>encEssence = (\<lambda>e. Inr (le32 (te_CreationSlot e))), encTransaction = (\<lambda>t. Inr (le32 (te_CreationSlot t))),
      encUnlock = (\<lambda>u. Inr (case u of MultiUnlock us \<Rightarrow> [word_of_nat (length us)] | _ \<Rightarrow> [])),
      encOutput = (\<lambda>out. Inr (outType out # le32 (ucast (outAmount out))))\<rparr>"

lemma ref_tx_deps_sel [simp]:
  "SafeAdd64 ref_tx_deps = ref_add" "SafeSub64 ref_tx_deps = ref_sub" "SafeMul64 ref_tx_deps = ref_mul"
  "SafeAdd32 ref_tx_deps = ref_add" "SafeSub32 ref_tx_deps = ref_sub" "SafeMul32 ref_tx_deps = ref_mul"
  "sum256 ref_tx_deps = ref_sum256" "encAddr ref_tx_deps = ref_encAddr"
  "encCaps ref_tx_deps = (\<lambda>c. word_of_nat (length c) # c)" "edVerify ref_tx_deps = (\<lambda>pk msg s. s = pk @ msg)"
  "maxUint256 ref_tx_deps = 2 ^ 256 - 1"
  "serOneByte ref_tx_deps = 1" "serSmallType ref_tx_deps = 1" "serUInt16 ref_tx_deps = 2"
  "serUInt32 ref_tx_deps = 4" "serUInt256 ref_tx_deps = 32"
  "encEssence ref_tx_deps = (\<lambda>e. Inr (le32 (te_CreationSlot e)))"
  "encTransaction ref_tx_deps = (\<lambda>t. Inr (le32 (te_CreationSlot t)))"
  "encOutput ref_tx_deps = (\<lambda>out. Inr (outType out # le32 (ucast (outAmount out))))"
  "encUnlock ref_tx_deps = (\<lambda>u. Inr (case u of MultiUnlock us \<Rightarrow> [word_of_nat (length us)] | _ \<Rightarrow> []))"
  by (simp_all add: ref_tx_deps_def ref_ledger_def ref_deps_def ledger_deps.defs deps.defs)

definition demo_tx :: "ledger_output list \<Rightarrow> transaction" where
  "demo_tx outs = \<lparr>te_NetworkID = 1, te_CreationSlot = 20, te_ContextInputs = [], te_Inputs = [],
     te_Allotments = [], te_Capabilities = [], te_Payload = None, tx_Outputs = outs\<rparr>"

theorem output_id_proof_correct_witness:
  "\<exists>p. OutputIDProofFromTransaction ref_tx_deps (demo_tx [demo_basic [], demo_basic [TagF [1]]]) 1 = Inr p
    \<and> ok (proofOutputID ref_tx_deps p (demo_basic [TagF [1]]))"
proof -
  let ?outs = "[demo_basic [], demo_basic [TagF [1]]]"
  have "ok (OutputIDProofFromTransaction ref_tx_deps (demo_tx ?outs) 1)"
    by (simp add: OutputIDProofFromTransaction_def TransactionCommitment_def demo_tx_def NewOutputIDProof_def
        ComputeProofForIndex_def computeProof.simps [of ref_sum256 "[a, b]" for a b])
  then obtain p where p: "OutputIDProofFromTransaction ref_tx_deps (demo_tx ?outs) 1 = Inr p"
    by (auto simp: ok_iff)
  from output_id_proof_correct [OF this] show ?thesis by (auto simp: demo_tx_def p [unfolded demo_tx_def])
qed

end
