(* ===== verification/VM_Unlocks.thy ===== *)
theory VM_Unlocks
  imports Ledger_Tx
begin

text \<open>
  The unlocking of the inputs of a transaction: vm/vm.go, from @\<open>unlockedAddressesSet\<close> to @\<open>unlockOutput\<close>,
  and the inputs of the virtual machine in vm/types.go.  A signature unlock stores one pointer in two
  maps, and a later reference changes the pointee through one of them; the set of unlocked addresses
  therefore has an explicit heap of addresses and two maps into it.
\<close>

section \<open>Inputs of the virtual machine\<close>

record commitment =
  cm_ProtocolVersion :: u8
  cm_Slot :: u32
  cm_PreviousCommitmentID :: bytes
  cm_RootsID :: bytes
  cm_CumulativeWeight :: u64
  cm_ReferenceManaCost :: u64

record resolved_inputs =
  ri_InputSet :: "(bytes \<times> ledger_output) list"
  ri_BlockIssuanceCreditInputSet :: "bytes \<Rightarrow> int option"
  ri_CommitmentInput :: "commitment option"
  ri_RewardsInputSet :: "(chain_id \<times> u64) list"

section \<open>Unlocked addresses\<close>

record unlocked_address =
  ua_Address :: address
  ua_UnlockedAtInputIndex :: u16
  ua_ReferencedByInputIndex :: "u16 set"

record unlocked_addresses_set =
  us_heap :: "unlocked_address list"
  us_SignatureUnlockedAddrsByIndex :: "u16 \<Rightarrow> (nat \<times> ed25519_signature) option"
  us_UnlockedAddrsByAddrKey :: "bytes \<Rightarrow> nat option"

definition newUnlocked :: "address \<Rightarrow> u16 \<Rightarrow> unlocked_address" where
  "newUnlocked a inputIndex =
     \<lparr>ua_Address = a, ua_UnlockedAtInputIndex = inputIndex, ua_ReferencedByInputIndex = {}\<rparr>"

definition addReference :: "nat \<Rightarrow> u16 \<Rightarrow> unlocked_addresses_set \<Rightarrow> unlocked_addresses_set" where
  "addReference p inputIndex s =
     s\<lparr>us_heap := (us_heap s)[p := (us_heap s ! p)\<lparr>ua_ReferencedByInputIndex :=
          insert inputIndex (ua_ReferencedByInputIndex (us_heap s ! p))\<rparr>]\<rparr>"

definition addUnlocked ::
    "'a ledger_deps_scheme \<Rightarrow> address \<Rightarrow> u16 \<Rightarrow> unlocked_addresses_set \<Rightarrow> unlocked_addresses_set" where
  "addUnlocked D a inputIndex s =
     s\<lparr>us_heap := us_heap s @ [newUnlocked a inputIndex],
       us_UnlockedAddrsByAddrKey := (us_UnlockedAddrsByAddrKey s)(addrKey D a \<mapsto> length (us_heap s))\<rparr>"

text \<open>@\<open>SignatureUnlock\<close> of the set.  Without a signature the check asks a nil signature for its type.\<close>

definition SignatureUnlockS ::
    "'a ledger_deps_scheme \<Rightarrow> address \<Rightarrow> bytes \<Rightarrow> ed25519_signature option \<Rightarrow> u16 \<Rightarrow> bool
     \<Rightarrow> unlocked_addresses_set \<Rightarrow> unlocked_addresses_set go" where
  "SignatureUnlockS D addr essenceMsg sig inputIndex checkUnlockOnly s =
    (case sig of
       None \<Rightarrow> Inl (Panic ''nil pointer dereference'')
     | Some sg \<Rightarrow>
         andthen (wrapE ''input %d's address is not unlocked through its signature unlock''
             (addrUnlock D addr essenceMsg sg)) (\<lambda>_.
         if checkUnlockOnly then Inr s
         else
           let p = length (us_heap s); s' = addUnlocked D addr inputIndex s
           in Inr (s'\<lparr>us_SignatureUnlockedAddrsByIndex :=
                     (us_SignatureUnlockedAddrsByIndex s')(inputIndex \<mapsto> (p, sg))\<rparr>)))"

definition ReferentialUnlockNonDirectlyUnlockable ::
    "'a ledger_deps_scheme \<Rightarrow> address \<Rightarrow> u16 \<Rightarrow> u16 \<Rightarrow> bool
     \<Rightarrow> unlocked_addresses_set \<Rightarrow> unlocked_addresses_set go" where
  "ReferentialUnlockNonDirectlyUnlockable D owner inputIndex referencedInputIndex checkUnlockOnly s =
    (if isDirectUnlockable owner
     then throw (Errorf ''input %d's address is a directly unlockable address, but a non-directly unlockable address was expected'')
     else case us_UnlockedAddrsByAddrKey s (addrKey D owner) of
       None \<Rightarrow> throw (Errorf ''input %d's address was not previously unlocked by unlock %d'')
     | Some p \<Rightarrow>
         if ua_UnlockedAtInputIndex (us_heap s ! p) \<noteq> referencedInputIndex
         then throw (Errorf ''input %d references unlock %d but its address was unlocked by unlock %d instead'')
         else if checkUnlockOnly then Inr s
         else Inr (addReference p inputIndex s))"

definition ReferentialUnlockDirectlyUnlockable ::
    "'a ledger_deps_scheme \<Rightarrow> address \<Rightarrow> u16 \<Rightarrow> u16 \<Rightarrow> bool
     \<Rightarrow> unlocked_addresses_set \<Rightarrow> unlocked_addresses_set go" where
  "ReferentialUnlockDirectlyUnlockable D owner inputIndex referencedInputIndex checkUnlockOnly s =
    (case us_SignatureUnlockedAddrsByIndex s referencedInputIndex of
       None \<Rightarrow> throw (Errorf ''input %d's address was not previously unlocked by unlock %d'')
     | Some (p, sg) \<Rightarrow>
         if ua_UnlockedAtInputIndex (us_heap s ! p) \<noteq> referencedInputIndex
         then throw (Errorf ''input %d references unlock %d but its address was unlocked by unlock %d instead'')
         else if \<not> MatchesAddress D sg owner
         then throw (Errorf ''input %d's address is not unlocked through unlock %d'')
         else if checkUnlockOnly then Inr s
         else
           let s1 = addReference p inputIndex s
           in case us_UnlockedAddrsByAddrKey s1 (addrKey D owner) of
                Some _ \<Rightarrow> Inr s1
              | None \<Rightarrow> Inr (addUnlocked D owner inputIndex s1))"

text \<open>The loop of @\<open>MultiUnlock\<close> over the unlocks of the members; it adds up the weights at 16 bits.\<close>

definition multiUnlockStep ::
    "(address \<Rightarrow> unlock \<Rightarrow> 's \<Rightarrow> 's go) \<Rightarrow> u16 \<times> 's \<Rightarrow> (address \<times> u8) \<times> unlock \<Rightarrow> (u16 \<times> 's) go" where
  "multiUnlockStep unlockMember st member =
    (case (st, member) of ((cumulativeUnlockedWeight, s), ((a, weight), u)) \<Rightarrow>
       (case u of
          EmptyUnlock \<Rightarrow> Inr (cumulativeUnlockedWeight, s)
        | MultiUnlock _ \<Rightarrow> throw (Wrap (Sentinel ''ErrNestedMultiUnlock'') ''unlock at index %d.%d is invalid'')
        | _ \<Rightarrow> andthen (unlockMember a u s) (\<lambda>s'. Inr (cumulativeUnlockedWeight + ucast weight, s'))))"

definition multiUnlockLoop ::
    "(address \<Rightarrow> unlock \<Rightarrow> 's \<Rightarrow> 's go) \<Rightarrow> (address \<times> u8) list \<Rightarrow> unlock list \<Rightarrow> 's \<Rightarrow> (u16 \<times> 's) go" where
  "multiUnlockLoop unlockMember addresses unlocks s0 =
    foldG (multiUnlockStep unlockMember) (0, s0) (zip addresses unlocks)"

lemma multiUnlockLoop_cong [fundef_cong]:
  assumes "as = as'" "us = us'" "s = s'" "\<And>a u t. u \<in> set us' \<Longrightarrow> f a u t = g a u t"
  shows "multiUnlockLoop f as us s = multiUnlockLoop g as' us' s'"
proof -
  have "multiUnlockStep f st x = multiUnlockStep g st x" if x: "x \<in> set (zip as' us')" for st x
  proof -
    obtain a w u where "x = ((a, w), u)" by (metis prod.collapse)
    moreover from this x have "u \<in> set us'" by (auto dest: set_zip_rightD)
    ultimately show ?thesis by (cases u) (simp_all add: multiUnlockStep_def assms(4) split: prod.split)
  qed
  then show ?thesis
    unfolding multiUnlockLoop_def using assms(1-3) by (intro foldG_cong) auto
qed

definition MultiUnlockS ::
    "'a ledger_deps_scheme
     \<Rightarrow> (address \<Rightarrow> unlock \<Rightarrow> unlocked_addresses_set \<Rightarrow> unlocked_addresses_set go)
     \<Rightarrow> (address \<times> u8) list \<Rightarrow> u16 \<Rightarrow> unlock list \<Rightarrow> u16
     \<Rightarrow> unlocked_addresses_set \<Rightarrow> unlocked_addresses_set go" where
  "MultiUnlockS D unlockMember addresses threshold unlocks inputIndex s =
    (if length addresses \<noteq> length unlocks
     then throw (Wrap (Sentinel ''ErrMultiAddressLengthUnlockLengthMismatch'')
            ''input %d has a multi address (%T) but the amount of addresses does not match the unlocks %d != %d'')
     else andthen (multiUnlockLoop unlockMember addresses unlocks s) (\<lambda>(cumulativeUnlockedWeight, s').
       if cumulativeUnlockedWeight < threshold
       then throw (Wrap (Sentinel ''ErrMultiAddressUnlockThresholdNotReached'')
              ''input %d has a multi address but the threshold of valid unlocks was not reached %d < %d'')
       else Inr (addUnlocked D (MultiAddress addresses threshold) inputIndex s')))"

lemma MultiUnlockS_cong [fundef_cong]:
  assumes "as = as'" "us = us'" "s = s'" "t = t'" "i = i'" "\<And>a u r. u \<in> set us' \<Longrightarrow> f a u r = g a u r"
  shows "MultiUnlockS D f as t us i s = MultiUnlockS D g as' t' us' i' s'"
proof -
  have "multiUnlockLoop f as us s = multiUnlockLoop g as' us' s'"
    by (rule multiUnlockLoop_cong) (use assms in auto)
  then show ?thesis using assms by (simp add: MultiUnlockS_def)
qed

definition AddUnlockedChain ::
    "'a ledger_deps_scheme \<Rightarrow> address \<Rightarrow> u16 \<Rightarrow> unlocked_addresses_set \<Rightarrow> unlocked_addresses_set" where
  "AddUnlockedChain D chainAddr inputIndex s = addUnlocked D chainAddr inputIndex s"

section \<open>Unlocking an address\<close>

text \<open>The three kinds of owners, in the order of the type switch.  The members of a multi address are
  only checked, with the state left alone.\<close>

function unlockAddress ::
    "'a ledger_deps_scheme \<Rightarrow> bytes \<Rightarrow> u16 \<Rightarrow> bool \<Rightarrow> address \<Rightarrow> unlock
     \<Rightarrow> unlocked_addresses_set \<Rightarrow> unlocked_addresses_set go" where
  "unlockAddress D essenceMsgToSign inputIndex checkUnlockOnly owner u s =
    (if isChainAddress owner then
       (case ReferencedInputIndex u of
          None \<Rightarrow> throw (Wrap (Sentinel ''ErrChainAddressUnlockInvalid'')
                    ''input %d has a chain address of type %s but its corresponding unlock is of type %s'')
        | Some r \<Rightarrow>
            if \<not> Chainable u \<or> \<not> SourceAllowed u owner
            then throw (Wrap (Sentinel ''ErrChainAddressUnlockInvalid'')
                    ''input %d has a chain address of type %s but its corresponding unlock is of type %s'')
            else joinE (Sentinel ''ErrChainAddressUnlockInvalid'')
                   (ReferentialUnlockNonDirectlyUnlockable D owner inputIndex r checkUnlockOnly s))
     else if isDirectUnlockable owner then
       (case ReferencedInputIndex u of
          Some r \<Rightarrow>
            if Chainable u \<or> \<not> SourceAllowed u owner
            then throw (Wrap (Sentinel ''ErrDirectUnlockableAddressUnlockInvalid'')
                    ''input %d has a non-chain address of type %s but its corresponding unlock of type %s is chainable or not allowed'')
            else joinE (Sentinel ''ErrDirectUnlockableAddressUnlockInvalid'')
                   (ReferentialUnlockDirectlyUnlockable D owner inputIndex r checkUnlockOnly s)
        | None \<Rightarrow>
            (case u of
               SignatureUnlock sig \<Rightarrow>
                 if us_UnlockedAddrsByAddrKey s (addrKey D owner) \<noteq> None
                 then throw (Wrap (Sentinel ''ErrDirectUnlockableAddressUnlockInvalid'')
                        ''input %d's address is already unlocked through input %d's unlock but the input uses a non referential unlock of type %s'')
                 else joinE (Sentinel ''ErrDirectUnlockableAddressUnlockInvalid'')
                        (joinE (Sentinel ''ErrUnlockSignatureInvalid'')
                          (SignatureUnlockS D owner essenceMsgToSign sig inputIndex checkUnlockOnly s))
             | _ \<Rightarrow> throw (Wrap (Sentinel ''ErrDirectUnlockableAddressUnlockInvalid'')
                    ''input %d has a direct unlockable address of type %s but its corresponding unlock is of type %s'')))
     else
       (case owner of
          MultiAddress addresses threshold \<Rightarrow>
            (case ReferencedInputIndex u of
               Some r \<Rightarrow>
                 if Chainable u \<or> \<not> SourceAllowed u owner
                 then throw (Wrap (Sentinel ''ErrMultiAddressUnlockInvalid'')
                        ''input %d has a non-chain address of %s but its corresponding unlock of type %s is chainable or not allowed'')
                 else joinE (Sentinel ''ErrMultiAddressUnlockInvalid'')
                        (ReferentialUnlockNonDirectlyUnlockable D owner inputIndex r checkUnlockOnly s)
             | None \<Rightarrow>
                 (case u of
                    MultiUnlock unlocks \<Rightarrow>
                      if us_UnlockedAddrsByAddrKey s (addrKey D owner) \<noteq> None
                      then throw (Wrap (Sentinel ''ErrMultiAddressUnlockInvalid'')
                             ''input %d's address is already unlocked through input %d's unlock but the input uses a non referential unlock'')
                      else joinE (Sentinel ''ErrMultiAddressUnlockInvalid'')
                             (MultiUnlockS D (\<lambda>a v t. unlockAddress D essenceMsgToSign inputIndex True a v t)
                                addresses threshold unlocks inputIndex s)
                  | _ \<Rightarrow> throw (Wrap (Sentinel ''ErrMultiAddressUnlockInvalid'')
                         ''input %d has a multi address but its corresponding unlock is of type %s'')))
        | _ \<Rightarrow> Inl (Panic ''unknown address in semantic unlocks'')))"
  by pat_completeness auto
termination
  by (relation "measure (\<lambda>(D, m, i, c, a, u, s). size u)") (auto simp: size_list_estimation less_Suc_eq_le intro: size_list_estimation')

declare unlockAddress.simps [simp del]

section \<open>Unlocking an output\<close>

definition resolveUnderlyingAddress :: "address \<Rightarrow> address" where
  "resolveUnderlyingAddress addr = (case addr of RestrictedAddress a _ \<Rightarrow> a | _ \<Rightarrow> addr)"

text \<open>@\<open>Owner\<close> of the outputs whose owner does not depend on the transition: all but the anchor.\<close>

definition outOwner :: "ledger_output \<Rightarrow> address go" where
  "outOwner out =
    (case out of
       FoundryO x \<Rightarrow> foundryOwner x
     | AnchorO x \<Rightarrow> anchorOwner x None
     | _ \<Rightarrow> addressOwner (outUCs out))"

definition inputChainID :: "'a deps_scheme \<Rightarrow> chain_id \<Rightarrow> bytes \<Rightarrow> chain_id" where
  "inputChainID D c outputID =
    (if chainEmpty c
     then (case chainFromOutputID D c outputID of Some c' \<Rightarrow> c' | None \<Rightarrow> c) else c)"

definition addressToUnlock ::
    "'a ledger_deps_scheme \<Rightarrow> transaction \<Rightarrow> ledger_output option \<Rightarrow> nat \<Rightarrow> chain_set \<Rightarrow> address go" where
  "addressToUnlock D tx input inputIndex outChains =
    (case input of
       None \<Rightarrow> Inl (Panic ''unknown address output type in semantic unlocks: %T'')
     | Some (AnchorO x) \<Rightarrow>
         andthen (if an_AnchorID x = emptyID
                  then andthen (nthG (te_Inputs tx) inputIndex) (\<lambda>i.
                       Inr (inputChainID D (AnchorIDc (an_AnchorID x)) (inOutputID i)))
                  else Inr (AnchorIDc (an_AnchorID x))) (\<lambda>chainID.
         case map_of outChains chainID of
           None \<Rightarrow> anchorOwner x None
         | Some (AnchorO next1) \<Rightarrow> anchorOwner x (Some next1)
         | Some _ \<Rightarrow> throw (Sentinel ''ErrOwnerTransitionDependentOutputNextInvalid''))
     | Some out \<Rightarrow> outOwner out)"

definition checkExpiration ::
    "ledger_api \<Rightarrow> ledger_output \<Rightarrow> commitment option \<Rightarrow> address option go" where
  "checkExpiration api output commitmentInput =
    andthen (outUCSet output) (\<lambda>ucs1.
    if HasExpirationCondition ucs1 then
      (case commitmentInput of
         None \<Rightarrow> throw (Sentinel ''ErrExpirationCommitmentInputMissing'')
       | Some c \<Rightarrow>
           let pastBoundedSlotIndex = cm_Slot c + api_MaxCommittableAge api;
               futureBoundedSlotIndex = cm_Slot c + api_MinCommittableAge api
           in CheckExpirationCondition ucs1 futureBoundedSlotIndex pastBoundedSlotIndex)
    else Inr None)"

text \<open>The address an input has to be unlocked with, before a restricted address is resolved.\<close>

definition unlockTarget ::
    "'a ledger_deps_scheme \<Rightarrow> ledger_api \<Rightarrow> transaction \<Rightarrow> commitment option \<Rightarrow> ledger_output option
     \<Rightarrow> nat \<Rightarrow> chain_set \<Rightarrow> address go" where
  "unlockTarget D api tx commitmentInput input inputIndex outChains =
    andthen (wrapE ''unable to retrieve address to unlock of input %d''
        (addressToUnlock D tx input inputIndex outChains)) (\<lambda>ownerAddr.
    andthen (derefG input) (\<lambda>out.
    andthen (checkExpiration api out commitmentInput) (\<lambda>actualAddrToUnlock.
    Inr (case actualAddrToUnlock of Some a \<Rightarrow> a | None \<Rightarrow> ownerAddr))))"

definition unlockOutput ::
    "'a ledger_deps_scheme \<Rightarrow> ledger_api \<Rightarrow> transaction \<Rightarrow> commitment option \<Rightarrow> ledger_output option
     \<Rightarrow> unlock \<Rightarrow> nat \<Rightarrow> chain_set \<Rightarrow> bytes \<Rightarrow> unlocked_addresses_set \<Rightarrow> unlocked_addresses_set go" where
  "unlockOutput D api tx commitmentInput input u inputIndex outChains essenceMsgToSign s =
    andthen (unlockTarget D api tx commitmentInput input inputIndex outChains) (\<lambda>ownerAddr.
    unlockAddress D essenceMsgToSign (word_of_nat inputIndex) False
      (resolveUnderlyingAddress ownerAddr) u s)"

text \<open>After an input was unlocked, the address of its chain is unlocked too, unless it is an anchor that
  makes no state transition.\<close>

definition chainToUnlock ::
    "'a ledger_deps_scheme \<Rightarrow> transaction \<Rightarrow> ledger_output \<Rightarrow> nat \<Rightarrow> chain_set \<Rightarrow> address option go" where
  "chainToUnlock D tx input inputIndex outChains =
    andthen (outChainID D input) (\<lambda>cid.
    case cid of
      None \<Rightarrow> Inr None
    | Some c \<Rightarrow>
        if \<not> chainAddressable c then Inr None
        else andthen (if chainEmpty c
                      then andthen (nthG (te_Inputs tx) inputIndex) (\<lambda>i.
                           Inr (inputChainID D c (inOutputID i)))
                      else Inr c) (\<lambda>chainID.
             if (case input of
                   AnchorO currentAnchor \<Rightarrow>
                     (case map_of outChains chainID of
                        Some (AnchorO nextAnchor) \<Rightarrow> an_StateIndex currentAnchor + 1 = an_StateIndex nextAnchor
                      | _ \<Rightarrow> False)
                 | _ \<Rightarrow> True)
             then andthen (chainToAddress chainID) (\<lambda>a. Inr (Some a))
             else Inr None))"

definition validateUnlocksStep ::
    "'a ledger_deps_scheme \<Rightarrow> ledger_api \<Rightarrow> signed_transaction \<Rightarrow> commitment option \<Rightarrow> chain_set \<Rightarrow> bytes
     \<Rightarrow> unlocked_addresses_set \<Rightarrow> nat \<times> ledger_output option \<Rightarrow> unlocked_addresses_set go" where
  "validateUnlocksStep D api st commitmentInput outChains essenceMsgToSign s indexed =
    (case indexed of (inputIndex, input) \<Rightarrow>
     andthen (nthG (st_Unlocks st) inputIndex) (\<lambda>u.
     andthen (unlockOutput D api (st_Transaction st) commitmentInput input u inputIndex outChains
         essenceMsgToSign s) (\<lambda>s.
     andthen (derefG input) (\<lambda>out.
     andthen (chainToUnlock D (st_Transaction st) out inputIndex outChains) (\<lambda>chainAddr.
     Inr (case chainAddr of None \<Rightarrow> s | Some a \<Rightarrow> AddUnlockedChain D a (word_of_nat inputIndex) s))))))"

definition emptyUnlockedSet :: unlocked_addresses_set where
  "emptyUnlockedSet =
     \<lparr>us_heap = [], us_SignatureUnlockedAddrsByIndex = Map.empty, us_UnlockedAddrsByAddrKey = Map.empty\<rparr>"

type_synonym unlocked_addresses = "bytes \<Rightarrow> unlocked_address option"

text \<open>The result is the map by key with its pointers followed: nothing is mutated afterwards.\<close>

definition derefUnlocked :: "unlocked_addresses_set \<Rightarrow> unlocked_addresses" where
  "derefUnlocked s = (\<lambda>k. map_option (\<lambda>p. us_heap s ! p) (us_UnlockedAddrsByAddrKey s k))"

definition ValidateUnlocks ::
    "'a tx_deps_scheme \<Rightarrow> ledger_api \<Rightarrow> signed_transaction \<Rightarrow> resolved_inputs \<Rightarrow> unlocked_addresses go" where
  "ValidateUnlocks D api st resolvedInputs =
    (let inputs = map (\<lambda>i. map_of (ri_InputSet resolvedInputs) (inOutputID i))
           (te_Inputs (st_Transaction st))
     in andthen (mustE (TransactionIDG D (st_Transaction st))) (\<lambda>txID.
        andthen (mustE (SigningMessage D (st_Transaction st))) (\<lambda>essenceMsgToSign.
        andthen (OutputsChainOutputSet D (tx_Outputs (st_Transaction st)) txID) (\<lambda>outChains.
        andthen (foldG (validateUnlocksStep D api st (ri_CommitmentInput resolvedInputs)
             outChains essenceMsgToSign) emptyUnlockedSet (List.enumerate 0 inputs)) (\<lambda>s.
        Inr (derefUnlocked s))))))"

section \<open>Reading the unlocked addresses\<close>

definition UnlockedBy :: "unlocked_addresses \<Rightarrow> u16 \<Rightarrow> bytes \<Rightarrow> bool" where
  "UnlockedBy unlockedAddrs inputIndex addrKey1 =
    (case unlockedAddrs addrKey1 of
       None \<Rightarrow> False
     | Some unlockedAddr \<Rightarrow>
         if ua_UnlockedAtInputIndex unlockedAddr = inputIndex then True
         else inputIndex \<in> ua_ReferencedByInputIndex unlockedAddr)"

definition IsIssuerOnOutputUnlocked ::
    "'a ledger_deps_scheme \<Rightarrow> feature list \<Rightarrow> unlocked_addresses \<Rightarrow> unit go" where
  "IsIssuerOnOutputUnlocked D immFeatures unlockedAddrs =
    andthen (featsMustSet immFeatures) (\<lambda>immFeats.
    if immFeatures = [] then Inr ()
    else case ftIssuer immFeats of
      None \<Rightarrow> Inr ()
    | Some a \<Rightarrow>
        let issuer = resolveUnderlyingAddress a
        in if unlockedAddrs (addrKey D issuer) = None
           then throw (Sentinel ''ErrIssuerFeatureNotUnlocked'')
           else Inr ())"

section \<open>What it means that an address is authorized\<close>

text \<open>The signatures of an unlock, those inside of a multi unlock included.\<close>

fun unlockSignatures :: "unlock \<Rightarrow> ed25519_signature set" where
  "unlockSignatures (SignatureUnlock sig) = set_option sig"
| "unlockSignatures (MultiUnlock us) = (\<Union>u \<in> set us. unlockSignatures u)"
| "unlockSignatures _ = {}"

text \<open>The specification of unlocking: the keys of addresses for which the transaction carries the
  authority.  A direct address needs a verified signature of its public key, a multi address authorized
  members whose weights reach the threshold, the address of a chain that the output of the chain is
  spent by an authorized owner.  @\<open>spent\<close> relates the owners of the spent outputs to the addresses of
  their chains.  Being inductive, the definition leaves no room for circular references.\<close>

inductive authorized ::
    "'a ledger_deps_scheme \<Rightarrow> bytes \<Rightarrow> ed25519_signature set \<Rightarrow> (address \<times> address) set \<Rightarrow> bytes \<Rightarrow> bool"
  for D msg sigs spent where
  direct: "isDirectUnlockable a \<Longrightarrow> sg \<in> sigs \<Longrightarrow> MatchesAddress D sg a \<Longrightarrow>
    edVerify D (sigPublicKey sg) msg (sigSignature sg) \<Longrightarrow> authorized D msg sigs spent (addrKey D a)"
| multi: "mset ps \<subseteq># mset members \<Longrightarrow> (\<And>a w. (a, w) \<in> set ps \<Longrightarrow> authorized D msg sigs spent (addrKey D a)) \<Longrightarrow>
    unat threshold \<le> (\<Sum>(a, w)\<leftarrow>ps. unat w) \<Longrightarrow>
    authorized D msg sigs spent (addrKey D (MultiAddress members threshold))"
| chain: "(owner, c) \<in> spent \<Longrightarrow> authorized D msg sigs spent (addrKey D owner) \<Longrightarrow>
    authorized D msg sigs spent (addrKey D c)"

text \<open>The invariant of the set: every key in it is authorized, every signature in it was verified, and
  the pointers are valid.\<close>

definition set_ok ::
    "'a ledger_deps_scheme \<Rightarrow> bytes \<Rightarrow> ed25519_signature set \<Rightarrow> (address \<times> address) set
     \<Rightarrow> unlocked_addresses_set \<Rightarrow> bool" where
  "set_ok D msg sigs spent s \<longleftrightarrow>
    (\<forall>k p. us_UnlockedAddrsByAddrKey s k = Some p \<longrightarrow> p < length (us_heap s)
       \<and> addrKey D (ua_Address (us_heap s ! p)) = k \<and> authorized D msg sigs spent k)
    \<and> (\<forall>j p sg. us_SignatureUnlockedAddrsByIndex s j = Some (p, sg) \<longrightarrow> p < length (us_heap s)
       \<and> sg \<in> sigs \<and> edVerify D (sigPublicKey sg) msg (sigSignature sg))"

lemma set_ok_empty [simp]: "set_ok D msg sigs spent emptyUnlockedSet"
  by (simp add: set_ok_def emptyUnlockedSet_def)

lemma set_ok_addUnlocked:
  "set_ok D msg sigs spent s \<Longrightarrow> authorized D msg sigs spent (addrKey D a) \<Longrightarrow>
    set_ok D msg sigs spent (addUnlocked D a i s)"
  by (fastforce simp: set_ok_def addUnlocked_def newUnlocked_def nth_append)

lemma addReference_sel [simp]:
  "length (us_heap (addReference p i s)) = length (us_heap s)"
  "ua_Address (us_heap (addReference p i s) ! q) = ua_Address (us_heap s ! q)"
  "us_UnlockedAddrsByAddrKey (addReference p i s) = us_UnlockedAddrsByAddrKey s"
  "us_SignatureUnlockedAddrsByIndex (addReference p i s) = us_SignatureUnlockedAddrsByIndex s"
proof -
  show "ua_Address (us_heap (addReference p i s) ! q) = ua_Address (us_heap s ! q)"
    by (cases "p < length (us_heap s)"; cases "p = q")
      (simp_all add: addReference_def list_update_beyond not_less)
qed (simp_all add: addReference_def)

lemma set_ok_addReference:
  "set_ok D msg sigs spent s \<Longrightarrow> set_ok D msg sigs spent (addReference p i s)"
  by (auto simp: set_ok_def)

lemma addrUnlock_Inr:
  assumes "addrUnlock D a msg sg = Inr ()"
  shows "isDirectUnlockable a \<and> MatchesAddress D sg a \<and> edVerify D (sigPublicKey sg) msg (sigSignature sg)"
  using assms
  by (auto simp: addrUnlock_def sigValid_def Let_def isDirectUnlockable_def MatchesAddress_def throw_def
      Ed25519AddressFromPubKey_def ImplicitAccountCreationAddressFromPubKey_def
      split: address.splits if_splits)

lemma SignatureUnlockS_sound:
  assumes "SignatureUnlockS D a msg sig i c s = Inr s'" "set_ok D msg sigs spent s" "set_option sig \<subseteq> sigs"
  shows "set_ok D msg sigs spent s' \<and> authorized D msg sigs spent (addrKey D a) \<and> (c \<longrightarrow> s' = s)"
proof -
  obtain sg where sg: "sig = Some sg" and u: "addrUnlock D a msg sg = Inr ()"
    using assms(1) by (auto simp: SignatureUnlockS_def andthen_eq_Inr split: option.splits)
  note v = addrUnlock_Inr [OF u]
  have auth: "authorized D msg sigs spent (addrKey D a)"
    using v sg assms(3) by (auto intro: authorized.direct)
  let ?t = "addUnlocked D a i s"
  have "set_ok D msg sigs spent ?t" by (rule set_ok_addUnlocked [OF assms(2) auth])
  then have "set_ok D msg sigs spent (?t\<lparr>us_SignatureUnlockedAddrsByIndex :=
      (us_SignatureUnlockedAddrsByIndex ?t)(i \<mapsto> (length (us_heap s), sg))\<rparr>)"
    using v sg assms(3) by (auto simp: set_ok_def addUnlocked_def)
  with assms(1,2) sg u auth show ?thesis
    by (auto simp: SignatureUnlockS_def Let_def split: if_splits)
qed

lemma ReferentialNonDirect_sound:
  assumes "ReferentialUnlockNonDirectlyUnlockable D a i r c s = Inr s'" "set_ok D msg sigs spent s"
  shows "set_ok D msg sigs spent s' \<and> authorized D msg sigs spent (addrKey D a) \<and> (c \<longrightarrow> s' = s)"
proof -
  have "authorized D msg sigs spent (addrKey D a)"
    using assms by (auto simp: ReferentialUnlockNonDirectlyUnlockable_def throw_def set_ok_def
        split: if_splits option.splits)
  with assms set_ok_addReference [OF assms(2)] show ?thesis
    by (auto simp: ReferentialUnlockNonDirectlyUnlockable_def throw_def split: if_splits option.splits)
qed

lemma ReferentialDirect_sound:
  assumes "ReferentialUnlockDirectlyUnlockable D a i r c s = Inr s'" "set_ok D msg sigs spent s"
    and "isDirectUnlockable a"
  shows "set_ok D msg sigs spent s' \<and> authorized D msg sigs spent (addrKey D a) \<and> (c \<longrightarrow> s' = s)"
proof -
  obtain p sg where sg: "us_SignatureUnlockedAddrsByIndex s r = Some (p, sg)" and m: "MatchesAddress D sg a"
    using assms(1) by (auto simp: ReferentialUnlockDirectlyUnlockable_def throw_def split: option.splits if_splits)
  then have "sg \<in> sigs" "edVerify D (sigPublicKey sg) msg (sigSignature sg)"
    using assms(2) by (auto simp: set_ok_def)
  with m assms(3) have auth: "authorized D msg sigs spent (addrKey D a)"
    by (auto intro: authorized.direct)
  have "set_ok D msg sigs spent (addReference p i s)"
    "set_ok D msg sigs spent (addUnlocked D a i (addReference p i s))"
    using set_ok_addReference [OF assms(2)] set_ok_addUnlocked [OF _ auth] by blast+
  with assms(1,2) sg m auth show ?thesis
    by (auto simp: ReferentialUnlockDirectlyUnlockable_def throw_def Let_def split: if_splits option.splits)
qed

lemma multiUnlockStep_Inr:
  assumes "multiUnlockStep f (w, s) ((a, weight), u) = Inr (w', s')"
  obtains "w' = w" "s' = s" | "f a u s = Inr s'" "w' = w + ucast weight" "\<And>us. u \<noteq> MultiUnlock us"
  using assms by (cases u) (auto simp: multiUnlockStep_def andthen_eq_Inr throw_def)

lemma multiUnlockLoop_sound:
  assumes run: "multiUnlockLoop f members us s = Inr (w, s')" and len: "length members = length us"
    and mem: "\<And>a u s'. u \<in> set us \<Longrightarrow> (\<And>us. u \<noteq> MultiUnlock us) \<Longrightarrow> f a u s = Inr s' \<Longrightarrow>
      s' = s \<and> authorized D msg sigs spent (addrKey D a)"
  shows "s' = s \<and> (\<exists>ps. mset ps \<subseteq># mset members \<and>
    (\<forall>(a, w) \<in> set ps. authorized D msg sigs spent (addrKey D a)) \<and> unat w \<le> (\<Sum>(a, w)\<leftarrow>ps. unat w))"
proof -
  let ?P = "\<lambda>(zs :: ((address \<times> u8) \<times> unlock) list) (w :: u16, t). t = s \<and> (\<exists>ps. mset ps \<subseteq># mset (map fst zs) \<and>
    (\<forall>(a, w) \<in> set ps. authorized D msg sigs spent (addrKey D a)) \<and> unat w \<le> (\<Sum>(a, w)\<leftarrow>ps. unat w))"
  have "?P (zip members us) (w, s')"
  proof (rule foldG_prefix_invariant [where P = ?P])
    show "foldG (multiUnlockStep f) (0, s) (zip members us) = Inr (w, s')"
      using run by (simp add: multiUnlockLoop_def)
    show "?P [] (0, s)" by simp
    fix zs x st st'
    assume P: "?P zs st" and x: "x \<in> set (zip members us)" and step: "multiUnlockStep f st x = Inr st'"
    obtain v where st: "st = (v, s)" using P by (cases st) auto
    obtain a wt u where xx: "x = ((a, wt), u)" by (metis prod.collapse)
    obtain v' t where st': "st' = (v', t)" by (cases st')
    obtain ps where ps: "mset ps \<subseteq># mset (map fst zs)"
      "\<forall>(a, w) \<in> set ps. authorized D msg sigs spent (addrKey D a)" "unat v \<le> (\<Sum>(a, w)\<leftarrow>ps. unat w)"
      using P st by auto
    from step [unfolded st xx st'] show "?P (zs @ [x]) st'"
    proof (cases rule: multiUnlockStep_Inr)
      case 1
      moreover have "mset ps \<subseteq># mset (map fst (zs @ [x]))"
        using ps(1) subset_mset.order_trans [OF _ mset_subset_eq_add_left] by (auto simp: subseteq_mset_def le_SucI)
      ultimately show ?thesis using st' ps by auto
    next
      case 2
      have "u \<in> set us" using x xx by (auto dest: set_zip_rightD)
      with mem 2 have t: "t = s" and auth: "authorized D msg sigs spent (addrKey D a)" by blast+
      have "unat v' \<le> unat v + unat wt"
        using 2 unat_plus_if' [of v "ucast wt"] by (simp add: unat_ucast_up)
      then have "unat v' \<le> (\<Sum>(a, w)\<leftarrow>ps @ [(a, wt)]. unat w)" using ps(3) by simp
      moreover have "mset (ps @ [(a, wt)]) \<subseteq># mset (map fst (zs @ [x]))" using ps(1) xx by simp
      ultimately show ?thesis using st' t auth ps(2) by (auto intro!: exI [of _ "ps @ [(a, wt)]"])
    qed
  qed
  then show ?thesis using len by simp
qed

lemma MultiUnlockS_sound:
  assumes run: "MultiUnlockS D f members t us i s = Inr s'" and inv: "set_ok D msg sigs spent s"
    and mem: "\<And>a u s'. u \<in> set us \<Longrightarrow> (\<And>us. u \<noteq> MultiUnlock us) \<Longrightarrow> f a u s = Inr s' \<Longrightarrow>
      s' = s \<and> authorized D msg sigs spent (addrKey D a)"
  shows "set_ok D msg sigs spent s' \<and> authorized D msg sigs spent (addrKey D (MultiAddress members t))"
proof -
  obtain w r where len: "length members = length us" and r: "multiUnlockLoop f members us s = Inr (w, r)"
    and t: "t \<le> w" and s': "s' = addUnlocked D (MultiAddress members t) i r"
    using run by (auto simp: MultiUnlockS_def andthen_eq_Inr if_throw_eq_Inr not_less split: prod.splits)
  have "r = s \<and> (\<exists>ps. mset ps \<subseteq># mset members \<and>
    (\<forall>(a, w) \<in> set ps. authorized D msg sigs spent (addrKey D a)) \<and> unat w \<le> (\<Sum>(a, w)\<leftarrow>ps. unat w))"
    by (rule multiUnlockLoop_sound [OF r len]) (rule mem)
  then obtain ps where r: "r = s" and ps: "mset ps \<subseteq># mset members"
    "\<forall>(a, w) \<in> set ps. authorized D msg sigs spent (addrKey D a)" "unat w \<le> (\<Sum>(a, w)\<leftarrow>ps. unat w)"
    by blast
  have "unat t \<le> (\<Sum>(a, w)\<leftarrow>ps. unat w)" using t ps(3) by (simp add: word_le_nat_alt)
  with ps have "authorized D msg sigs spent (addrKey D (MultiAddress members t))"
    by (intro authorized.multi [of ps]) auto
  with inv s' r show ?thesis by (simp add: set_ok_addUnlocked)
qed

lemma unlockAddress_sound:
  assumes "unlockAddress D msg i c owner u s = Inr s'" "set_ok D msg sigs spent s" "unlockSignatures u \<subseteq> sigs"
    and "\<not> (c \<and> (\<exists>us. u = MultiUnlock us))"
  shows "set_ok D msg sigs spent s' \<and> authorized D msg sigs spent (addrKey D owner) \<and> (c \<longrightarrow> s' = s)"
  using assms
proof (induction "size u" arbitrary: c owner u s s' rule: less_induct)
  case less
  note run = less.prems(1) [unfolded unlockAddress.simps [of D msg i c owner u s]]
  consider (chain) r where "isChainAddress owner" "ReferentialUnlockNonDirectlyUnlockable D owner i r c s = Inr s'"
    | (ref) r where "isDirectUnlockable owner" "ReferentialUnlockDirectlyUnlockable D owner i r c s = Inr s'"
    | (sig) sig where "isDirectUnlockable owner" "u = SignatureUnlock sig" "SignatureUnlockS D owner msg sig i c s = Inr s'"
    | (mref) r where "ReferentialUnlockNonDirectlyUnlockable D owner i r c s = Inr s'"
    | (multi) members t us where "owner = MultiAddress members t" "u = MultiUnlock us"
      "MultiUnlockS D (unlockAddress D msg i True) members t us i s = Inr s'"
    using run by (auto simp: throw_def split: if_splits option.splits unlock.splits address.splits)
  then show ?case
  proof cases
    case chain
    then show ?thesis using ReferentialNonDirect_sound less.prems(2) by blast
  next
    case ref
    then show ?thesis using ReferentialDirect_sound less.prems(2) by blast
  next
    case sig
    with less.prems(3) have "set_option sig \<subseteq> sigs" by simp
    with sig show ?thesis using SignatureUnlockS_sound less.prems(2) by blast
  next
    case mref
    then show ?thesis using ReferentialNonDirect_sound less.prems(2) by blast
  next
    case multi
    have mem: "s2 = s \<and> authorized D msg sigs spent (addrKey D a)"
      if v: "v \<in> set us" "\<And>us. v \<noteq> MultiUnlock us" "unlockAddress D msg i True a v s = Inr s2" for a v s2
    proof -
      have "size v < size u" using v(1) multi(2) by (simp add: size_list_estimation' less_Suc_eq_le)
      moreover have "unlockSignatures v \<subseteq> sigs" using v(1) multi(2) less.prems(3) by auto
      ultimately show ?thesis using less.hyps [of v True a s s2] v(2,3) less.prems(2) by blast
    qed
    have "set_ok D msg sigs spent s' \<and> authorized D msg sigs spent (addrKey D owner)"
      unfolding multi(1) by (rule MultiUnlockS_sound [OF multi(3) less.prems(2)]) (rule mem)
    moreover have "\<not> c" using less.prems(4) multi(2) by auto
    ultimately show ?thesis by simp
  qed
qed

section \<open>Soundness of the unlocking\<close>

abbreviation txInputs :: "signed_transaction \<Rightarrow> resolved_inputs \<Rightarrow> ledger_output option list" where
  "txInputs st ri \<equiv> map (\<lambda>i. map_of (ri_InputSet ri) (inOutputID i)) (te_Inputs (st_Transaction st))"

text \<open>The owners of the outputs a transaction spends, with the chain addresses that unlocks.\<close>

definition spentChains ::
    "'a ledger_deps_scheme \<Rightarrow> ledger_api \<Rightarrow> signed_transaction \<Rightarrow> resolved_inputs \<Rightarrow> chain_set
     \<Rightarrow> (address \<times> address) set" where
  "spentChains D api st ri outChains =
    {(resolveUnderlyingAddress owner, c) | owner c i out.
       i < length (txInputs st ri) \<and> txInputs st ri ! i = Some out
       \<and> unlockTarget D api (st_Transaction st) (ri_CommitmentInput ri) (Some out) i outChains = Inr owner
       \<and> chainToUnlock D (st_Transaction st) out i outChains = Inr (Some c)}"

definition txSignatures :: "signed_transaction \<Rightarrow> ed25519_signature set" where
  "txSignatures st = (\<Union>u \<in> set (st_Unlocks st). unlockSignatures u)"

lemma validateUnlocksStep_sound:
  assumes step: "validateUnlocksStep D api st (ri_CommitmentInput ri) outChains msg s (i, inp) = Inr s'"
    and i: "i < length (txInputs st ri)" "inp = txInputs st ri ! i"
    and inv: "set_ok D msg (txSignatures st) (spentChains D api st ri outChains) s"
  shows "set_ok D msg (txSignatures st) (spentChains D api st ri outChains) s'
    \<and> (\<exists>owner. unlockTarget D api (st_Transaction st) (ri_CommitmentInput ri) inp i outChains = Inr owner
         \<and> authorized D msg (txSignatures st) (spentChains D api st ri outChains)
             (addrKey D (resolveUnderlyingAddress owner)))"
proof -
  let ?sp = "spentChains D api st ri outChains" and ?sg = "txSignatures st"
  obtain u owner t out ca where u: "i < length (st_Unlocks st)" "u = st_Unlocks st ! i"
    and owner: "unlockTarget D api (st_Transaction st) (ri_CommitmentInput ri) inp i outChains = Inr owner"
    and run: "unlockAddress D msg (word_of_nat i) False (resolveUnderlyingAddress owner) u s = Inr t"
    and out: "inp = Some out" and ca: "chainToUnlock D (st_Transaction st) out i outChains = Inr ca"
    and s': "s' = (case ca of None \<Rightarrow> t | Some a \<Rightarrow> AddUnlockedChain D a (word_of_nat i) t)"
    using step by (auto simp: validateUnlocksStep_def unlockOutput_def andthen_eq_Inr nthG_eq_Inr derefG_def
        split: option.splits)
  have "unlockSignatures u \<subseteq> ?sg" 
    unfolding txSignatures_def u(2) by (rule UN_upper) (rule nth_mem [OF u(1)])
  from unlockAddress_sound [OF run inv this]
  have ok: "set_ok D msg ?sg ?sp t"
    and auth: "authorized D msg ?sg ?sp (addrKey D (resolveUnderlyingAddress owner))" by simp_all
  have "set_ok D msg ?sg ?sp s'"
  proof (cases ca)
    case (Some a)
    have "(resolveUnderlyingAddress owner, a) \<in> ?sp"
      unfolding spentChains_def
      using i(1) i(2) [symmetric, unfolded out] owner [unfolded out] ca [unfolded Some] by blast
    with auth have "authorized D msg ?sg ?sp (addrKey D a)" by (rule authorized.chain [rotated])
    with ok Some s' show ?thesis by (simp add: AddUnlockedChain_def set_ok_addUnlocked)
  qed (use ok s' in simp)
  with owner auth show ?thesis by blast
qed

lemma ValidateUnlocks_sound:
  assumes "ValidateUnlocks D api st ri = Inr m"
  obtains txID msg outChains where "TransactionIDG D (st_Transaction st) = Inr txID"
    "SigningMessage D (st_Transaction st) = Inr msg"
    "OutputsChainOutputSet D (tx_Outputs (st_Transaction st)) txID = Inr outChains"
    "\<And>k ua. m k = Some ua \<Longrightarrow> addrKey D (ua_Address ua) = k
      \<and> authorized D msg (txSignatures st) (spentChains D api st ri outChains) k"
    "\<And>i. i < length (txInputs st ri) \<Longrightarrow> \<exists>owner.
      unlockTarget D api (st_Transaction st) (ri_CommitmentInput ri) (txInputs st ri ! i) i outChains = Inr owner
      \<and> authorized D msg (txSignatures st) (spentChains D api st ri outChains)
          (addrKey D (resolveUnderlyingAddress owner))"
proof -
  obtain txID msg outChains s where run: "TransactionIDG D (st_Transaction st) = Inr txID"
    "SigningMessage D (st_Transaction st) = Inr msg"
    "OutputsChainOutputSet D (tx_Outputs (st_Transaction st)) txID = Inr outChains"
    and loop: "foldG (validateUnlocksStep D api st (ri_CommitmentInput ri) outChains msg) emptyUnlockedSet
      (List.enumerate 0 (txInputs st ri)) = Inr s" and m: "m = derefUnlocked s"
    using assms by (auto simp: ValidateUnlocks_def andthen_eq_Inr)
  let ?A = "authorized D msg (txSignatures st) (spentChains D api st ri outChains)"
  let ?P = "\<lambda>(zs :: (nat \<times> ledger_output option) list) s. set_ok D msg (txSignatures st) (spentChains D api st ri outChains) s
    \<and> (\<forall>(i, inp) \<in> set zs. \<exists>owner.
        unlockTarget D api (st_Transaction st) (ri_CommitmentInput ri) inp i outChains = Inr owner
        \<and> ?A (addrKey D (resolveUnderlyingAddress owner)))"
  have P: "?P (List.enumerate 0 (txInputs st ri)) s"
  proof (rule foldG_prefix_invariant [where P = ?P, OF loop])
    fix zs x s s'
    assume P: "?P zs s" and x: "x \<in> set (List.enumerate 0 (txInputs st ri))"
      and step: "validateUnlocksStep D api st (ri_CommitmentInput ri) outChains msg s x = Inr s'"
    obtain i inp where xx: "x = (i, inp)" by (cases x)
    with x have i: "i < length (txInputs st ri)" "inp = txInputs st ri ! i"
      by (auto simp: in_set_enumerate_eq)
    from validateUnlocksStep_sound [OF step [unfolded xx] i] P show "?P (zs @ [x]) s'" by (simp add: xx)
  qed simp
  show thesis
  proof (rule that [OF run])
    show "addrKey D (ua_Address ua) = k \<and> ?A k" if "m k = Some ua" for k ua
      using that P by (auto simp: m derefUnlocked_def set_ok_def)
    show "\<exists>owner. unlockTarget D api (st_Transaction st) (ri_CommitmentInput ri) (txInputs st ri ! i) i outChains
        = Inr owner \<and> ?A (addrKey D (resolveUnderlyingAddress owner))" if i: "i < length (txInputs st ri)" for i
    proof -
      have "(i, txInputs st ri ! i) \<in> set (List.enumerate 0 (txInputs st ri))"
        using i by (simp add: in_set_enumerate_eq)
      with P show ?thesis by blast
    qed
  qed
qed

text \<open>C2: when the unlocks of a transaction validate, the address every input is locked to is authorized,
  that is backed by verified signatures of the transaction's signing message, and so is every address
  in the result, which is filed under its own key.\<close>

theorem unlocked_inputs_authorized:
  assumes "ValidateUnlocks D api st ri = Inr m"
  shows "\<exists>txID msg outChains. TransactionIDG D (st_Transaction st) = Inr txID
    \<and> SigningMessage D (st_Transaction st) = Inr msg
    \<and> OutputsChainOutputSet D (tx_Outputs (st_Transaction st)) txID = Inr outChains
    \<and> (\<forall>i < length (txInputs st ri). \<exists>owner.
         unlockTarget D api (st_Transaction st) (ri_CommitmentInput ri) (txInputs st ri ! i) i outChains = Inr owner
         \<and> authorized D msg (txSignatures st) (spentChains D api st ri outChains)
             (addrKey D (resolveUnderlyingAddress owner)))
    \<and> (\<forall>k ua. m k = Some ua \<longrightarrow> addrKey D (ua_Address ua) = k
         \<and> authorized D msg (txSignatures st) (spentChains D api st ri outChains) k)"
  by (rule ValidateUnlocks_sound [OF assms]) blast

text \<open>A transaction that spends one basic output with a signature.\<close>

definition demo_api :: ledger_api where
  "demo_api = \<lparr>api_NetworkID = 1, api_TokenSupply = 1000, api_ManaBitsCount = 63, api_MinCommittableAge = 10,
     api_MaxCommittableAge = 20, api_StakingUnbondingPeriod = 10, api_EpochNearingThreshold = 5,
     api_TimeProvider = demo_clock, api_ManaDecayProvider = demo_mana, api_StorageScoreStructure = demo_structure\<rparr>"

definition demo_owner :: address where
  "demo_owner = Ed25519Address (ref_sum256 [7])"

definition demo_input :: ledger_output where
  "demo_input = BasicO \<lparr>bo_Amount = 5, bo_Mana = 7, bo_UnlockConditions = [AddressUC demo_owner], bo_Features = []\<rparr>"

definition demo_signed :: "bytes \<Rightarrow> signed_transaction" where
  "demo_signed sg = \<lparr>st_Transaction = (demo_tx [demo_input])\<lparr>te_Inputs := [\<lparr>in_TransactionID = replicate 36 1, in_Index = 0\<rparr>]\<rparr>,
     st_Unlocks = [SignatureUnlock (Some \<lparr>sigPublicKey = [7], sigSignature = sg\<rparr>)]\<rparr>"

definition demo_resolved :: resolved_inputs where
  "demo_resolved = \<lparr>ri_InputSet = [(OutputIDFromTransactionIDAndIndex (replicate 36 1) 0, demo_input)],
     ri_BlockIssuanceCreditInputSet = Map.empty, ri_CommitmentInput = None, ri_RewardsInputSet = []\<rparr>"

lemma demo_tx_id: "\<exists>i. TransactionIDG ref_tx_deps (st_Transaction (demo_signed sg)) = Inr i"
  by (simp add: TransactionIDG_def TransactionCommitment_def OutputCommitment_def HashValues_def
      demo_signed_def demo_tx_def)

lemma demo_tx_chains [simp]:
  "OutputsChainOutputSet ref_tx_deps (tx_Outputs (st_Transaction (demo_signed sg))) i = Inr []"
  by (simp add: OutputsChainOutputSet_def chainSetStep_def outChainID_def demo_signed_def demo_tx_def demo_input_def)

lemma demo_tx_msg [simp]: "SigningMessage ref_tx_deps (st_Transaction (demo_signed sg)) = Inr (ref_sum256 (le32 20))"
  by (simp add: SigningMessage_def demo_signed_def demo_tx_def)

lemma demo_txInputs [simp]: "txInputs (demo_signed sg) demo_resolved = [Some demo_input]"
  by (simp add: demo_signed_def demo_resolved_def inOutputID_def)

lemma demo_target [simp]:
  "unlockTarget ref_tx_deps demo_api tx c (Some demo_input) n cs = Inr demo_owner"
  by (simp add: unlockTarget_def addressToUnlock_def demo_input_def outOwner_def addressOwner_def ucsMustSet_eq
      derefG_def ucAddress_def checkExpiration_def outUCSet_def HasExpirationCondition_def ucExpiration_def)

lemma demo_signature:
  "ok (unlockAddress ref_tx_deps msg 0 False demo_owner
     (SignatureUnlock (Some \<lparr>sigPublicKey = [7], sigSignature = 7 # msg\<rparr>)) emptyUnlockedSet)"
  by (subst unlockAddress.simps)
    (simp add: demo_owner_def isChainAddress_def isDirectUnlockable_def ReferencedInputIndex_def
      emptyUnlockedSet_def SignatureUnlockS_def addrUnlock_def sigValid_def Ed25519AddressFromPubKey_def Let_def)

lemma demo_unlocks:
  "\<exists>m. ValidateUnlocks ref_tx_deps demo_api (demo_signed (7 # ref_sum256 (le32 20))) demo_resolved = Inr m"
proof -
  obtain i s where "TransactionIDG ref_tx_deps (st_Transaction (demo_signed (7 # ref_sum256 (le32 20)))) = Inr i"
    and "unlockAddress ref_tx_deps (ref_sum256 (le32 20)) 0 False demo_owner
      (SignatureUnlock (Some \<lparr>sigPublicKey = [7], sigSignature = 7 # ref_sum256 (le32 20)\<rparr>)) emptyUnlockedSet = Inr s"
    using demo_tx_id demo_signature by (metis ok_iff)
  moreover have "st_Unlocks (demo_signed sg) = [SignatureUnlock (Some \<lparr>sigPublicKey = [7], sigSignature = sg\<rparr>)]" for sg
    by (simp add: demo_signed_def)
  moreover have "resolveUnderlyingAddress demo_owner = demo_owner" "chainToUnlock D tx demo_input n cs = Inr None"
    for D :: "tx_deps" and tx n cs
    by (simp_all add: resolveUnderlyingAddress_def demo_owner_def chainToUnlock_def demo_input_def outChainID_def)
  ultimately show ?thesis
    by (simp add: ValidateUnlocks_def validateUnlocksStep_def unlockOutput_def derefG_def del: list.map)
qed

theorem unlocked_inputs_authorized_witness:
  "\<exists>spent. authorized ref_tx_deps (ref_sum256 (le32 20)) (txSignatures (demo_signed (7 # ref_sum256 (le32 20))))
     spent (addrKey ref_tx_deps demo_owner)"
proof -
  obtain m where "ValidateUnlocks ref_tx_deps demo_api (demo_signed (7 # ref_sum256 (le32 20))) demo_resolved = Inr m"
    using demo_unlocks by blast
  from unlocked_inputs_authorized [OF this] show ?thesis
    by (auto simp: resolveUnderlyingAddress_def demo_owner_def simp del: list.map)
qed

end
