(* ===== verification/VM_Exec.thy ===== *)
theory VM_Exec
  imports VM_Unlocks
begin

text \<open>
  The execution functions of the virtual machine: vm/vm.go (the mana sums, the slot bounds and the
  @\<open>ExecFunc\<close>s) and vm/types.go.  An execution function takes the working set and gives it back, changed
  where the code writes to it.  The chain transition function of the machine is an argument of
  @\<open>ExecFuncChainTransitions\<close>, as it is a method of the machine passed to it.
\<close>

section \<open>The working set\<close>

record chain_output_with_ids =
  co_ChainID :: chain_id
  co_OutputID :: bytes
  co_Output :: ledger_output

record working_set =
  ws_UnlockedAddrs :: unlocked_addresses
  ws_UTXOInputs :: "ledger_output list"
  ws_UTXOInputsSet :: "(bytes \<times> ledger_output) list"
  ws_InputIDToInputIndex :: "bytes \<Rightarrow> u16 option"
  ws_Tx :: transaction
  ws_InChains :: "(chain_id \<times> chain_output_with_ids) list"
  ws_InNativeTokens :: "(bytes \<times> int) list"
  ws_OutChains :: chain_set
  ws_OutNativeTokens :: "(bytes \<times> int) list"
  ws_BIC :: "bytes \<Rightarrow> int option"
  ws_Commitment :: "commitment option"
  ws_Rewards :: "(chain_id \<times> u64) list"
  ws_TotalManaIn :: u64
  ws_TotalManaOut :: u64

definition PastBoundedSlotIndex :: "ledger_api \<Rightarrow> u32 \<Rightarrow> u32" where
  "PastBoundedSlotIndex api commitmentInputSlot = commitmentInputSlot + api_MaxCommittableAge api"

definition FutureBoundedSlotIndex :: "ledger_api \<Rightarrow> u32 \<Rightarrow> u32" where
  "FutureBoundedSlotIndex api commitmentInputSlot = commitmentInputSlot + api_MinCommittableAge api"

definition chainInputSetStep ::
    "'a ledger_deps_scheme \<Rightarrow> (chain_id \<times> chain_output_with_ids) list \<Rightarrow> bytes \<times> ledger_output
     \<Rightarrow> (chain_id \<times> chain_output_with_ids) list go" where
  "chainInputSetStep D set1 idInput =
    (case idInput of (utxoInputID, input) \<Rightarrow>
     andthen (outChainID D input) (\<lambda>cid.
     case cid of
       None \<Rightarrow> Inr set1
     | Some c \<Rightarrow>
         let chainID = inputChainID D c utxoInputID
         in if chainEmpty chainID
            then Inl (Panic ''output of type %s has empty chain ID but is not utxo dependable'')
            else Inr (AList.update chainID
                   \<lparr>co_ChainID = chainID, co_OutputID = utxoInputID, co_Output = input\<rparr> set1)))"

definition ChainInputSet ::
    "'a ledger_deps_scheme \<Rightarrow> (bytes \<times> ledger_output) list
     \<Rightarrow> (chain_id \<times> chain_output_with_ids) list go" where
  "ChainInputSet D inputSet = foldG (chainInputSetStep D) [] inputSet"

section \<open>Mana sums\<close>

definition addMana :: "'a deps_scheme \<Rightarrow> u64 \<Rightarrow> u64 \<Rightarrow> u64 go" where
  "addMana D a b = joinE (Sentinel ''ErrManaOverflow'') (liftE (SafeAdd64 D a b))"

definition totalManaInStep ::
    "'a ledger_deps_scheme \<Rightarrow> mana_decay_provider \<Rightarrow> storage_score_structure \<Rightarrow> u32
     \<Rightarrow> u64 \<Rightarrow> bytes \<times> ledger_output \<Rightarrow> u64 go" where
  "totalManaInStep D p r txCreationSlot totalIn idInput =
    (case idInput of (outputID, input) \<Rightarrow>
     andthen (wrapE ''stored mana calculation failed for input %s''
         (DecayManaBySlots p (outStoredMana input) (CreationSlot outputID) txCreationSlot)) (\<lambda>manaStored.
     andthen (addMana D totalIn manaStored) (\<lambda>totalIn.
     andthen (wrapE ''input %s potential mana calculation failed''
         (PotentialMana D p r input (CreationSlot outputID) txCreationSlot)) (\<lambda>manaPotential.
     addMana D totalIn manaPotential))))"

definition TotalManaIn ::
    "'a ledger_deps_scheme \<Rightarrow> mana_decay_provider \<Rightarrow> storage_score_structure \<Rightarrow> u32
     \<Rightarrow> (bytes \<times> ledger_output) list \<Rightarrow> (chain_id \<times> u64) list \<Rightarrow> u64 go" where
  "TotalManaIn D p r txCreationSlot inputSet rewards =
    andthen (foldG (totalManaInStep D p r txCreationSlot) 0 inputSet) (\<lambda>totalIn.
    foldG (addMana D) totalIn (map snd rewards))"

definition TotalManaOut ::
    "'a deps_scheme \<Rightarrow> ledger_output list \<Rightarrow> mana_allotment list \<Rightarrow> u64 go" where
  "TotalManaOut D outputs allotments =
    andthen (foldG (addMana D) 0 (map outStoredMana outputs)) (\<lambda>totalOut.
    foldG (addMana D) totalOut (map al_Mana allotments))"

section \<open>Execution functions\<close>

type_synonym exec_func = "working_set \<Rightarrow> working_set go"

definition RunVMFuncs :: "exec_func list \<Rightarrow> exec_func" where
  "RunVMFuncs execFuncs ws = foldG (\<lambda>ws f. f ws) ws execFuncs"

text \<open>A check leaves the working set alone.\<close>

definition check :: "(working_set \<Rightarrow> unit go) \<Rightarrow> exec_func" where
  "check f ws = andthen (f ws) (\<lambda>_. Inr ws)"

definition senderUnlocked ::
    "'a ledger_deps_scheme \<Rightarrow> unlocked_addresses \<Rightarrow> ledger_output \<Rightarrow> unit go" where
  "senderUnlocked D unlockedAddrs output =
    andthen (outFeatSet output) (\<lambda>fs.
    case ftSender fs of
      None \<Rightarrow> Inr ()
    | Some a \<Rightarrow>
        if unlockedAddrs (addrKey D (resolveUnderlyingAddress a)) = None
        then throw (Wrap (Sentinel ''ErrSenderFeatureNotUnlocked'') ''output %d'')
        else Inr ())"

definition ExecFuncSenderUnlocked :: "'a ledger_deps_scheme \<Rightarrow> exec_func" where
  "ExecFuncSenderUnlocked D =
     check (\<lambda>ws. allG (senderUnlocked D (ws_UnlockedAddrs ws)) (tx_Outputs (ws_Tx ws)))"

definition balancedMana :: "working_set \<Rightarrow> unit go" where
  "balancedMana ws =
    andthen (allG (\<lambda>outputID.
        if te_CreationSlot (ws_Tx ws) < CreationSlot outputID
        then throw (Wrap (Sentinel ''ErrInputCreationAfterTxCreation'')
               ''input %s has creation slot %d, tx creation slot %d'')
        else Inr ()) (map fst (ws_UTXOInputsSet ws))) (\<lambda>_.
    if ws_TotalManaIn ws < ws_TotalManaOut ws
    then throw (Wrap (Sentinel ''ErrInputOutputManaMismatch'') ''Mana in %d, Mana out %d'')
    else if ws_TotalManaOut ws < ws_TotalManaIn ws then
      (if CannotBurnMana (te_Capabilities (ws_Tx ws))
       then throw (Join (Sentinel ''ErrInputOutputManaMismatch'')
              (Wrap (Sentinel ''ErrTxCapabilitiesManaBurningNotAllowed'') ''Mana in %d, Mana out %d''))
       else Inr ())
    else Inr ())"

definition ExecFuncBalancedMana :: exec_func where
  "ExecFuncBalancedMana = check balancedMana"

text \<open>The sums of @\<open>ExecFuncBalancedBaseTokens\<close>: a missing entry of a Go map reads as zero.\<close>

definition sumAt :: "bytes \<Rightarrow> u64 \<Rightarrow> (bytes \<times> u64) list \<Rightarrow> (bytes \<times> u64) list" where
  "sumAt k amount sums =
    AList.update k ((case map_of sums k of Some v \<Rightarrow> v | None \<Rightarrow> 0) + amount) sums"

definition baseTokensInStep ::
    "'a ledger_deps_scheme \<Rightarrow> working_set \<Rightarrow> u64 \<times> (bytes \<times> u64) list \<Rightarrow> bytes \<times> ledger_output
     \<Rightarrow> (u64 \<times> (bytes \<times> u64) list) go" where
  "baseTokensInStep D ws acc idInput =
    (case (acc, idInput) of ((inSum, returns), (inputID, input)) \<Rightarrow>
     let inSum = inSum + outAmount input
     in andthen (outUCSet input) (\<lambda>ucs1.
        case ucStorageDepositReturn ucs1 of
          None \<Rightarrow> Inr (inSum, returns)
        | Some (a, amount) \<Rightarrow>
            let returnAddr = addrKey D a;
                inputIndex = (case ws_InputIDToInputIndex ws inputID of Some i \<Rightarrow> i | None \<Rightarrow> 0)
            in if UnlockedBy (ws_UnlockedAddrs ws) inputIndex returnAddr then Inr (inSum, returns)
               else Inr (inSum, sumAt returnAddr amount returns)))"

definition IsSimpleTransfer :: "basic_output \<Rightarrow> bool go" where
  "IsSimpleTransfer e =
    andthen (featsMustSet (bo_Features e)) (\<lambda>_.
    andthen (if bo_Features e = [] then ucsMustSet (bo_UnlockConditions e) else Inr Map.empty) (\<lambda>_.
    Inr (bo_Features e = [] \<and> length (bo_UnlockConditions e) = 1)))"

definition baseTokensOutStep ::
    "'a ledger_deps_scheme \<Rightarrow> u64 \<times> (bytes \<times> u64) list \<Rightarrow> ledger_output
     \<Rightarrow> (u64 \<times> (bytes \<times> u64) list) go" where
  "baseTokensOutStep D acc output =
    (case acc of (outSum, transfers) \<Rightarrow>
     let outAmount1 = outAmount output; outSum = outSum + outAmount1
     in case output of
          BasicO e \<Rightarrow>
            andthen (IsSimpleTransfer e) (\<lambda>simple.
            if simple
            then andthen (addressOwner (bo_UnlockConditions e)) (\<lambda>owner.
                 Inr (outSum, sumAt (addrKey D owner) outAmount1 transfers))
            else Inr (outSum, transfers))
        | _ \<Rightarrow> Inr (outSum, transfers))"

definition balancedBaseTokens :: "'a ledger_deps_scheme \<Rightarrow> working_set \<Rightarrow> unit go" where
  "balancedBaseTokens D ws =
    andthen (foldG (baseTokensInStep D ws) (0, []) (ws_UTXOInputsSet ws)) (\<lambda>(inSum, returns).
    andthen (foldG (baseTokensOutStep D) (0, []) (tx_Outputs (ws_Tx ws))) (\<lambda>(outSum, transfers).
    if inSum \<noteq> outSum
    then throw (Wrap (Sentinel ''ErrInputOutputBaseTokenMismatch'') ''in %d, out %d'')
    else allG (\<lambda>(addr, returnSum).
      case map_of transfers addr of
        None \<Rightarrow> throw (Wrap (Sentinel ''ErrReturnAmountNotFulFilled'')
                  ''return amount of %d not fulfilled as there is no output for address (serialized) %s'')
      | Some outSum \<Rightarrow>
          if outSum < returnSum
          then throw (Wrap (Sentinel ''ErrReturnAmountNotFulFilled'')
                 ''return amount of %d not fulfilled as output is only %d for address (serialized) %s'')
          else Inr ()) returns))"

definition ExecFuncBalancedBaseTokens :: "'a ledger_deps_scheme \<Rightarrow> exec_func" where
  "ExecFuncBalancedBaseTokens D = check (balancedBaseTokens D)"

definition timelockExpired ::
    "ledger_api \<Rightarrow> commitment option \<Rightarrow> bytes \<times> ledger_output \<Rightarrow> unit go" where
  "timelockExpired api commitment1 idInput =
    (case idInput of (inputID, input) \<Rightarrow>
     andthen (outUCSet input) (\<lambda>ucs1.
     if HasTimelockCondition ucs1 then
       (case commitment1 of
          None \<Rightarrow> throw (Sentinel ''ErrTimelockCommitmentInputMissing'')
        | Some c \<Rightarrow>
            wrapE ''timelock of input %s is not expired''
              (TimelocksExpired ucs1 (FutureBoundedSlotIndex api (cm_Slot c))))
     else Inr ()))"

definition ExecFuncTimelocks :: "ledger_api \<Rightarrow> exec_func" where
  "ExecFuncTimelocks api =
     check (\<lambda>ws. allG (timelockExpired api (ws_Commitment ws)) (ws_UTXOInputsSet ws))"

type_synonym chain_stvf =
  "working_set \<Rightarrow> chain_transition_type \<Rightarrow> chain_output_with_ids option \<Rightarrow> ledger_output option \<Rightarrow> unit go"

definition chainTransitions :: "chain_stvf \<Rightarrow> working_set \<Rightarrow> unit go" where
  "chainTransitions stvf ws =
    andthen (allG (\<lambda>(chainID, inputChain).
        case map_of (ws_OutChains ws) chainID of
          None \<Rightarrow> wrapE ''invalid destruction for %s %s'' (stvf ws TransDestroy (Some inputChain) None)
        | Some next1 \<Rightarrow> wrapE ''invalid transition for %s %s''
                         (stvf ws TransStateChange (Some inputChain) (Some next1))) (ws_InChains ws)) (\<lambda>_.
    allG (\<lambda>(chainID, outputChain).
        if map_of (ws_InChains ws) chainID \<noteq> None then Inr ()
        else wrapE ''invalid creation of %s %s'' (stvf ws TransGenesis None (Some outputChain)))
      (ws_OutChains ws))"

definition ExecFuncChainTransitions :: "chain_stvf \<Rightarrow> exec_func" where
  "ExecFuncChainTransitions stvf = check (chainTransitions stvf)"

definition nativeTokenInCheck :: "working_set \<Rightarrow> bytes \<times> int \<Rightarrow> unit go" where
  "nativeTokenInCheck ws idSum =
    (case idSum of (nativeTokenID, inSum) \<Rightarrow>
     if map_of (ws_OutChains ws) (FoundryIDc nativeTokenID) \<noteq> None then Inr ()
     else
       let outSum = map_of (ws_OutNativeTokens ws) nativeTokenID
       in if CannotBurnNativeTokens (te_Capabilities (ws_Tx ws)) \<and> (outSum = None \<or> outSum \<noteq> Some inSum)
          then throw (Wrap (Sentinel ''ErrTxCapabilitiesNativeTokenBurningNotAllowed'')
                 ''native token %s is less on output (%d) than input (%d) side but burning is not allowed in the transaction and the foundry is absent for melting'')
          else if (case outSum of Some n \<Rightarrow> inSum < n | None \<Rightarrow> False)
          then throw (Wrap (Sentinel ''ErrNativeTokenSumUnbalanced'')
                 ''native token %s is less on input (%d) than output (%d) side but the foundry is absent for minting'')
          else Inr ())"

definition nativeTokenOutCheck :: "working_set \<Rightarrow> bytes \<Rightarrow> unit go" where
  "nativeTokenOutCheck ws nativeTokenID =
    (if map_of (ws_OutChains ws) (FoundryIDc nativeTokenID) \<noteq> None then Inr ()
     else if map_of (ws_InNativeTokens ws) nativeTokenID = None
     then throw (Wrap (Sentinel ''ErrNativeTokenSumUnbalanced'')
            ''native token %s is new on the output side but the foundry is not transitioning'')
     else Inr ())"

definition ExecFuncBalancedNativeTokens :: "'a ledger_deps_scheme \<Rightarrow> exec_func" where
  "ExecFuncBalancedNativeTokens D ws =
    andthen (replaceE (Wrap (Sentinel ''ErrNativeTokenSetInvalid'') ''invalid input native token set: %w'')
        (NativeTokenSum D (ws_UTXOInputs ws))) (\<lambda>inSums.
    andthen (joinE (Sentinel ''ErrNativeTokenSetInvalid'')
        (NativeTokenSum D (tx_Outputs (ws_Tx ws)))) (\<lambda>outSums.
    let ws = ws\<lparr>ws_InNativeTokens := inSums, ws_OutNativeTokens := outSums\<rparr>
    in andthen (allG (nativeTokenInCheck ws) inSums) (\<lambda>_.
       andthen (allG (nativeTokenOutCheck ws) (map fst outSums)) (\<lambda>_. Inr ws))))"

definition implicitCreationStep :: "bool \<Rightarrow> ledger_output \<Rightarrow> bool go" where
  "implicitCreationStep has input =
    andthen (outUCSet input) (\<lambda>ucs1.
    case ucAddress ucs1 of
      None \<Rightarrow> Inr has
    | Some a \<Rightarrow>
        if outType input = 0 \<and> addrType a = 32 then
          (if has then throw (Sentinel ''ErrMultipleImplicitAccountCreationAddresses'') else Inr True)
        else Inr has)"

definition ExecFuncAtMostOneImplicitAccountCreationAddress :: exec_func where
  "ExecFuncAtMostOneImplicitAccountCreationAddress =
     check (\<lambda>ws. andthen (foldG implicitCreationStep False (ws_UTXOInputs ws)) (\<lambda>_. Inr ()))"

section \<open>Lemmas on the mana sums\<close>

lemma addMana_Inr:
  "safemath64 D \<Longrightarrow> addMana D a b = Inr c \<longleftrightarrow> unat c = unat a + unat b"
  by (simp add: addMana_def checked_arith.add_Inr_iff)

lemma foldG_addMana:
  assumes "safemath64 D"
  shows "foldG (addMana D) s xs = Inr t \<longleftrightarrow> unat t = unat s + (\<Sum>x\<leftarrow>xs. unat x)"
  using foldG_sum [of "addMana D" "\<lambda>x. Some (unat x)" s xs t] by (simp add: addMana_Inr [OF assms])

text \<open>The mana an input brings in, when it can be computed: stored and potential mana, decayed.\<close>

definition inputMana ::
    "'a ledger_deps_scheme \<Rightarrow> mana_decay_provider \<Rightarrow> storage_score_structure \<Rightarrow> u32
     \<Rightarrow> bytes \<times> ledger_output \<Rightarrow> nat option" where
  "inputMana D p r slot idInput =
    (case idInput of (outputID, input) \<Rightarrow>
     case DecayManaBySlots p (outStoredMana input) (CreationSlot outputID) slot of
       Inl _ \<Rightarrow> None
     | Inr a \<Rightarrow>
         (case PotentialMana D p r input (CreationSlot outputID) slot of
            Inl _ \<Rightarrow> None | Inr b \<Rightarrow> Some (unat a + unat b)))"

lemma totalManaInStep_Inr:
  assumes "safemath64 D"
  shows "totalManaInStep D p r slot s x = Inr t \<longleftrightarrow> (\<exists>n. inputMana D p r slot x = Some n \<and> unat t = unat s + n)"
proof -
  obtain i out where x: "x = (i, out)" by (cases x)
  let ?d = "DecayManaBySlots p (outStoredMana out) (CreationSlot i) slot"
  let ?m = "PotentialMana D p r out (CreationSlot i) slot"
  show ?thesis
  proof (cases "\<exists>a b. ?d = Inr a \<and> ?m = Inr b")
    case True
    then obtain a b where ab: "?d = Inr a" "?m = Inr b" by blast
    have "totalManaInStep D p r slot s x = Inr t \<longleftrightarrow>
        (\<exists>u :: u64. unat u = unat s + unat a \<and> unat t = unat u + unat b)"
      by (simp add: totalManaInStep_def x ab andthen_eq_Inr addMana_Inr [OF assms])
    also have "\<dots> \<longleftrightarrow> unat t = unat s + (unat a + unat b)"
    proof
      assume *: "unat t = unat s + (unat a + unat b)"
      then have "unat (s + a) = unat s + unat a"
        using unat_less_pow [of t] by (intro unat_add_small) simp
      with * show "\<exists>u :: u64. unat u = unat s + unat a \<and> unat t = unat u + unat b"
        by (intro exI [of _ "s + a"]) simp
    qed auto
    finally show ?thesis by (simp add: inputMana_def x ab)
  next
    case False
    then show ?thesis
      by (auto simp: totalManaInStep_def inputMana_def x andthen_eq_Inr split: sum.splits)
  qed
qed

lemma TotalManaIn_Inr:
  assumes "safemath64 D"
  shows "TotalManaIn D p r slot inputSet rewards = Inr t \<longleftrightarrow>
    (\<forall>x \<in> set inputSet. inputMana D p r slot x \<noteq> None)
    \<and> unat t = (\<Sum>x\<leftarrow>inputSet. the (inputMana D p r slot x)) + (\<Sum>w\<leftarrow>rewards. unat (snd w))"
proof -
  have "TotalManaIn D p r slot inputSet rewards = Inr t \<longleftrightarrow>
      (\<exists>u :: u64. (\<forall>x \<in> set inputSet. inputMana D p r slot x \<noteq> None)
        \<and> unat u = (\<Sum>x\<leftarrow>inputSet. the (inputMana D p r slot x))
        \<and> unat t = unat u + (\<Sum>w\<leftarrow>rewards. unat (snd w)))"
    by (auto simp: TotalManaIn_def andthen_eq_Inr foldG_addMana [OF assms]
        foldG_sum [OF totalManaInStep_Inr [OF assms]] comp_def)
  also have "\<dots> \<longleftrightarrow> (\<forall>x \<in> set inputSet. inputMana D p r slot x \<noteq> None)
      \<and> unat t = (\<Sum>x\<leftarrow>inputSet. the (inputMana D p r slot x)) + (\<Sum>w\<leftarrow>rewards. unat (snd w))"
  proof
    assume *: "(\<forall>x \<in> set inputSet. inputMana D p r slot x \<noteq> None)
      \<and> unat t = (\<Sum>x\<leftarrow>inputSet. the (inputMana D p r slot x)) + (\<Sum>w\<leftarrow>rewards. unat (snd w))"
    let ?n = "\<Sum>x\<leftarrow>inputSet. the (inputMana D p r slot x)"
    have "?n < 2 ^ LENGTH(64)" using * unat_less_pow [of t] by linarith
    then have "unat (word_of_nat ?n :: u64) = ?n" by (simp add: unat_of_nat)
    with * show "\<exists>u :: u64. (\<forall>x \<in> set inputSet. inputMana D p r slot x \<noteq> None)
        \<and> unat u = ?n \<and> unat t = unat u + (\<Sum>w\<leftarrow>rewards. unat (snd w))"
      by (intro exI [of _ "word_of_nat ?n"]) simp
  qed auto
  finally show ?thesis .
qed

lemma sum_list_permuted:
  "mset xs = mset ys \<Longrightarrow> (\<Sum>x\<leftarrow>xs. f x) = (\<Sum>x\<leftarrow>ys. (f x :: 'b::comm_monoid_add))"
  by (metis mset_map sum_mset_sum_list)

lemma TotalManaOut_Inr:
  assumes "safemath64 D"
  shows "TotalManaOut D outputs allotments = Inr t \<longleftrightarrow>
    unat t = (\<Sum>out\<leftarrow>outputs. unat (outStoredMana out)) + (\<Sum>a\<leftarrow>allotments. unat (al_Mana a))"
proof -
  let ?n = "\<Sum>out\<leftarrow>outputs. unat (outStoredMana out)"
  have "TotalManaOut D outputs allotments = Inr t \<longleftrightarrow>
      (\<exists>u :: u64. unat u = ?n \<and> unat t = unat u + (\<Sum>a\<leftarrow>allotments. unat (al_Mana a)))"
    by (simp add: TotalManaOut_def andthen_eq_Inr foldG_addMana [OF assms] comp_def)
  also have "\<dots> \<longleftrightarrow> unat t = ?n + (\<Sum>a\<leftarrow>allotments. unat (al_Mana a))"
  proof
    assume *: "unat t = ?n + (\<Sum>a\<leftarrow>allotments. unat (al_Mana a))"
    have "?n < 2 ^ LENGTH(64)" using * unat_less_pow [of t] by linarith
    then have "unat (word_of_nat ?n :: u64) = ?n" by (simp add: unat_of_nat)
    with * show "\<exists>u :: u64. unat u = ?n \<and> unat t = unat u + (\<Sum>a\<leftarrow>allotments. unat (al_Mana a))"
      by (intro exI [of _ "word_of_nat ?n"]) simp
  qed auto
  finally show ?thesis .
qed

text \<open>The mana on the input side is the exact sum of the decayed stored and potential mana of the
  inputs and of the rewards, or an error when one of these cannot be computed or the sum does not fit
  64 bits.  It does not depend on the order in which the maps of inputs and rewards are iterated.\<close>

theorem total_mana_in_exact:
  assumes "safemath64 D" and "mset inputSet = mset inputSet'" "mset rewards = mset rewards'"
  shows "(TotalManaIn D p r slot inputSet rewards = Inr t \<longleftrightarrow>
      (\<forall>x \<in> set inputSet. inputMana D p r slot x \<noteq> None)
      \<and> unat t = (\<Sum>x\<leftarrow>inputSet. the (inputMana D p r slot x)) + (\<Sum>w\<leftarrow>rewards. unat (snd w)))
    \<and> (TotalManaIn D p r slot inputSet rewards = Inr t \<longleftrightarrow>
       TotalManaIn D p r slot inputSet' rewards' = Inr t)"
  using sum_list_permuted [OF assms(2), of "\<lambda>x. the (inputMana D p r slot x)"]
    sum_list_permuted [OF assms(3), of "\<lambda>w. unat (snd w)"] mset_eq_setD [OF assms(2)]
  by (simp add: TotalManaIn_Inr [OF assms(1)])

theorem total_mana_in_exact_witness:
  "TotalManaIn ref_ledger demo_mana demo_structure 20 [] [(AccountIDc [1], 3), (AccountIDc [2], 4)] = Inr 7"
proof -
  have "unat (7 :: u64) = unat (3 :: u64) + unat (4 :: u64)" by simp
  with total_mana_in_exact [of ref_ledger "[]" "[]" "[(AccountIDc [1], 3), (AccountIDc [2], 4)]"
      "[(AccountIDc [2], 4), (AccountIDc [1], 3)]", OF ref_ledger_safemath(1)]
  show ?thesis by simp
qed

section \<open>Base tokens\<close>

lemma check_Inr [go_simps]: "check f ws = Inr ws' \<longleftrightarrow> f ws = Inr () \<and> ws' = ws"
  by (auto simp: check_def andthen_eq_Inr)

lemma unat_sum_list_small:
  "(\<Sum>x\<leftarrow>xs. unat (f x :: 'w::len word)) < 2 ^ LENGTH('w) \<Longrightarrow> unat (\<Sum>x\<leftarrow>xs. f x) = (\<Sum>x\<leftarrow>xs. unat (f x))"
proof (induction xs)
  case (Cons x xs)
  then have "unat (\<Sum>x\<leftarrow>xs. f x) = (\<Sum>x\<leftarrow>xs. unat (f x))" by simp
  with Cons.prems show ?case by (simp add: unat_add_small)
qed simp

definition sumOf :: "(bytes \<times> u64) list \<Rightarrow> bytes \<Rightarrow> u64" where
  "sumOf sums k = (case map_of sums k of Some v \<Rightarrow> v | None \<Rightarrow> 0)"

lemma sumOf_simps [simp]: "sumOf [] k = 0" "sumOf (sumAt j a s) k = (if k = j then sumOf s k + a else sumOf s k)"
  by (auto simp: sumOf_def sumAt_def update_conv')

text \<open>What an input demands to be returned to an address, and what an output returns to it.\<close>

definition returnDemand :: "'a ledger_deps_scheme \<Rightarrow> working_set \<Rightarrow> bytes \<Rightarrow> bytes \<times> ledger_output \<Rightarrow> u64" where
  "returnDemand D ws k idInput =
    (case outUCSet (snd idInput) of
       Inl _ \<Rightarrow> 0
     | Inr ucs1 \<Rightarrow>
         (case ucStorageDepositReturn ucs1 of
            None \<Rightarrow> 0
          | Some (a, amount) \<Rightarrow>
              if addrKey D a = k \<and> \<not> UnlockedBy (ws_UnlockedAddrs ws)
                   (case ws_InputIDToInputIndex ws (fst idInput) of Some i \<Rightarrow> i | None \<Rightarrow> 0) k
              then amount else 0))"

definition simpleTransfer :: "'a ledger_deps_scheme \<Rightarrow> bytes \<Rightarrow> ledger_output \<Rightarrow> u64" where
  "simpleTransfer D k out =
    (case out of
       BasicO e \<Rightarrow>
         (if IsSimpleTransfer e = Inr True \<and> (\<exists>owner. addressOwner (bo_UnlockConditions e) = Inr owner \<and> addrKey D owner = k)
          then bo_Amount e else 0)
     | _ \<Rightarrow> 0)"

lemma baseTokensInStep_Inr:
  assumes "baseTokensInStep D ws (s, r) x = Inr (s', r')"
  shows "s' = s + outAmount (snd x) \<and> sumOf r' k = sumOf r k + returnDemand D ws k x"
proof -
  obtain i out where x: "x = (i, out)" by (cases x)
  let ?i = "case ws_InputIDToInputIndex ws i of Some j \<Rightarrow> j | None \<Rightarrow> 0"
  obtain u where u: "outUCSet out = Inr u"
    using assms by (auto simp: baseTokensInStep_def x Let_def andthen_eq_Inr)
  show ?thesis
  proof (cases "ucStorageDepositReturn u")
    case None
    with assms u show ?thesis by (simp add: baseTokensInStep_def x returnDemand_def)
  next
    case (Some an)
    then obtain a n where an: "ucStorageDepositReturn u = Some (a, n)" by (cases an) auto
    show ?thesis
    proof (cases "UnlockedBy (ws_UnlockedAddrs ws) ?i (addrKey D a)")
      case True
      with assms u an show ?thesis by (auto simp: baseTokensInStep_def x returnDemand_def Let_def)
    next
      case False
      with assms u an have "s' = s + outAmount out \<and> r' = sumAt (addrKey D a) n r"
        by (simp add: baseTokensInStep_def x Let_def)
      with False u an show ?thesis by (auto simp: x returnDemand_def)
    qed
  qed
qed

lemma baseTokensOutStep_Inr:
  assumes "baseTokensOutStep D (s, r) out = Inr (s', r')"
  shows "s' = s + outAmount out \<and> sumOf r' k = sumOf r k + simpleTransfer D k out"
proof (cases out)
  case (BasicO e)
  then obtain b where b: "IsSimpleTransfer e = Inr b"
    using assms by (auto simp: baseTokensOutStep_def Let_def andthen_eq_Inr)
  show ?thesis
  proof (cases b)
    case True
    with assms BasicO b obtain a where a: "addressOwner (bo_UnlockConditions e) = Inr a"
      by (auto simp: baseTokensOutStep_def Let_def andthen_eq_Inr)
    with assms BasicO b True have "s' = s + bo_Amount e \<and> r' = sumAt (addrKey D a) (bo_Amount e) r"
      by (auto simp: baseTokensOutStep_def Let_def)
    with a b True BasicO show ?thesis by (auto simp: simpleTransfer_def)
  next
    case False
    with assms BasicO b show ?thesis by (simp add: baseTokensOutStep_def Let_def simpleTransfer_def)
  qed
qed (use assms in \<open>simp_all add: baseTokensOutStep_def Let_def simpleTransfer_def\<close>)

lemma baseTokensIn_fold:
  assumes "foldG (baseTokensInStep D ws) (0, []) xs = Inr (s, returns)"
  shows "s = (\<Sum>x\<leftarrow>xs. outAmount (snd x)) \<and> sumOf returns k = (\<Sum>x\<leftarrow>xs. returnDemand D ws k x)"
proof -
  let ?P = "\<lambda>zs (s, ret). s = (\<Sum>x\<leftarrow>zs. outAmount (snd x)) \<and> sumOf ret k = (\<Sum>x\<leftarrow>zs. returnDemand D ws k x)"
  have "?P xs (s, returns)"
  proof (rule foldG_prefix_invariant [where P = ?P, OF assms])
    fix zs x st st'
    assume "?P zs st" "baseTokensInStep D ws st x = Inr st'"
    then show "?P (zs @ [x]) st'"
      using baseTokensInStep_Inr [of D ws "fst st" "snd st" x "fst st'" "snd st'" k]
      by (cases st; cases st') simp
  qed simp
  then show ?thesis by simp
qed

lemma baseTokensOut_fold:
  assumes "foldG (baseTokensOutStep D) (0, []) outs = Inr (s, transfers)"
  shows "s = (\<Sum>x\<leftarrow>outs. outAmount x) \<and> sumOf transfers k = (\<Sum>x\<leftarrow>outs. simpleTransfer D k x)"
proof -
  let ?P = "\<lambda>zs (s, tr). s = (\<Sum>x\<leftarrow>zs. outAmount x) \<and> sumOf tr k = (\<Sum>x\<leftarrow>zs. simpleTransfer D k x)"
  have "?P outs (s, transfers)"
  proof (rule foldG_prefix_invariant [where P = ?P, OF assms])
    fix zs x st st'
    assume "?P zs st" "baseTokensOutStep D st x = Inr st'"
    then show "?P (zs @ [x]) st'"
      using baseTokensOutStep_Inr [of D "fst st" "snd st" x "fst st'" "snd st'" k]
      by (cases st; cases st') simp
  qed simp
  then show ?thesis by simp
qed

lemma balancedBaseTokens_Inr:
  assumes "balancedBaseTokens D ws = Inr ()"
  shows "(\<Sum>x\<leftarrow>ws_UTXOInputsSet ws. outAmount (snd x)) = (\<Sum>x\<leftarrow>tx_Outputs (ws_Tx ws). outAmount x)
    \<and> (\<Sum>x\<leftarrow>ws_UTXOInputsSet ws. returnDemand D ws k x) \<le> (\<Sum>x\<leftarrow>tx_Outputs (ws_Tx ws). simpleTransfer D k x)"
proof -
  obtain s ret tr where i: "foldG (baseTokensInStep D ws) (0, []) (ws_UTXOInputsSet ws) = Inr (s, ret)"
    and o: "foldG (baseTokensOutStep D) (0, []) (tx_Outputs (ws_Tx ws)) = Inr (s, tr)"
    and r: "\<forall>(a, n) \<in> set ret. \<exists>m. map_of tr a = Some m \<and> n \<le> m"
    using assms by (fastforce simp: balancedBaseTokens_def andthen_eq_Inr allG_iff if_throw_eq_Inr throw_def
        not_less split: option.splits if_splits)
  have "sumOf ret k \<le> sumOf tr k"
  proof (cases "map_of ret k")
    case (Some v)
    then have "(k, v) \<in> set ret" by (rule map_of_SomeD)
    with r Some show ?thesis by (auto simp: sumOf_def)
  qed (simp add: sumOf_def)
  with baseTokensIn_fold [OF i, of k] baseTokensOut_fold [OF o, of k] show ?thesis by simp
qed

lemma simpleTransfer_le: "simpleTransfer D k out \<le> outAmount out"
  by (cases out) (simp_all add: simpleTransfer_def)

text \<open>A transaction that passes the base token check moves exactly the base tokens it consumes into
  its outputs, and returns to every address, in simple transfers, at least what the storage deposit
  return conditions of the inputs that address did not unlock itself demand.  The sums are true sums:
  amounts are bounded by the token supply and demands by the amounts, as the syntactical rules have it.\<close>

theorem base_tokens_balanced:
  assumes "ExecFuncBalancedBaseTokens D ws = Inr ws'"
    and "(\<Sum>x\<leftarrow>ws_UTXOInputsSet ws. unat (outAmount (snd x))) < 2 ^ 64"
    and "(\<Sum>x\<leftarrow>tx_Outputs (ws_Tx ws). unat (outAmount x)) < 2 ^ 64"
    and "\<forall>x \<in> set (ws_UTXOInputsSet ws). returnDemand D ws k x \<le> outAmount (snd x)"
  shows "ws' = ws
    \<and> (\<Sum>x\<leftarrow>ws_UTXOInputsSet ws. unat (outAmount (snd x))) = (\<Sum>x\<leftarrow>tx_Outputs (ws_Tx ws). unat (outAmount x))
    \<and> (\<Sum>x\<leftarrow>ws_UTXOInputsSet ws. unat (returnDemand D ws k x))
        \<le> (\<Sum>x\<leftarrow>tx_Outputs (ws_Tx ws). unat (simpleTransfer D k x))"
proof -
  have b: "balancedBaseTokens D ws = Inr ()" and w: "ws' = ws"
    using assms(1) by (auto simp: ExecFuncBalancedBaseTokens_def check_Inr)
  let ?in = "ws_UTXOInputsSet ws" and ?out = "tx_Outputs (ws_Tx ws)"
  have d: "(\<Sum>x\<leftarrow>?in. unat (returnDemand D ws k x)) \<le> (\<Sum>x\<leftarrow>?in. unat (outAmount (snd x)))"
    by (rule sum_list_mono) (use assms(4) in \<open>simp add: word_le_nat_alt\<close>)
  have t: "(\<Sum>x\<leftarrow>?out. unat (simpleTransfer D k x)) \<le> (\<Sum>x\<leftarrow>?out. unat (outAmount x))"
    by (rule sum_list_mono) (use simpleTransfer_le in \<open>simp add: word_le_nat_alt\<close>)
  have "unat (\<Sum>x\<leftarrow>?in. outAmount (snd x)) = (\<Sum>x\<leftarrow>?in. unat (outAmount (snd x)))"
    "unat (\<Sum>x\<leftarrow>?out. outAmount x) = (\<Sum>x\<leftarrow>?out. unat (outAmount x))"
    "unat (\<Sum>x\<leftarrow>?in. returnDemand D ws k x) = (\<Sum>x\<leftarrow>?in. unat (returnDemand D ws k x))"
    "unat (\<Sum>x\<leftarrow>?out. simpleTransfer D k x) = (\<Sum>x\<leftarrow>?out. unat (simpleTransfer D k x))"
    using assms(2,3) d t by (simp_all add: unat_sum_list_small)
  with balancedBaseTokens_Inr [OF b, of k] w show ?thesis
    by (metis word_le_nat_alt)
qed

definition demo_ws :: "ledger_output list \<Rightarrow> ledger_output list \<Rightarrow> working_set" where
  "demo_ws ins outs = \<lparr>ws_UnlockedAddrs = Map.empty, ws_UTXOInputs = ins,
     ws_UTXOInputsSet = map (\<lambda>(i, x). (OutputIDFromTransactionIDAndIndex (replicate 36 1) (word_of_nat i), x))
        (List.enumerate 0 ins),
     ws_InputIDToInputIndex = Map.empty, ws_Tx = demo_tx outs, ws_InChains = [], ws_InNativeTokens = [],
     ws_OutChains = [], ws_OutNativeTokens = [], ws_BIC = Map.empty, ws_Commitment = None, ws_Rewards = [],
     ws_TotalManaIn = 7, ws_TotalManaOut = 7\<rparr>"

theorem base_tokens_balanced_witness:
  "ExecFuncBalancedBaseTokens ref_ledger (demo_ws [demo_basic []] [demo_basic []])
     = Inr (demo_ws [demo_basic []] [demo_basic []])"
proof -
  let ?ws = "demo_ws [demo_basic []] [demo_basic []]"
  have "ok (ExecFuncBalancedBaseTokens ref_ledger ?ws)"
    by (simp add: ExecFuncBalancedBaseTokens_def check_def balancedBaseTokens_def demo_ws_def demo_tx_def
        baseTokensInStep_def baseTokensOutStep_def demo_basic_def outUCSet_def ucsMustSet_eq featsMustSet_eq
        ucStorageDepositReturn_def IsSimpleTransfer_def addressOwner_def derefG_def ucAddress_def Let_def)
  then obtain ws' where w: "ExecFuncBalancedBaseTokens ref_ledger ?ws = Inr ws'" by (auto simp: ok_iff)
  have "returnDemand ref_ledger ?ws [] x = 0" if "x \<in> set (ws_UTXOInputsSet ?ws)" for x
    using that by (auto simp: demo_ws_def returnDemand_def demo_basic_def outUCSet_def ucsMustSet_eq
        ucStorageDepositReturn_def)
  then have "ws' = ?ws"
    using base_tokens_balanced [OF w, of "[]"] by (simp add: demo_ws_def demo_tx_def demo_basic_def)
  with w show ?thesis by simp
qed

section \<open>Native tokens, mana and implicit accounts\<close>

lemma native_tokens_Inr:
  assumes "ExecFuncBalancedNativeTokens D ws = Inr ws'" "map_of (ws_OutChains ws) (FoundryIDc i) = None"
  shows "(\<Sum>x\<leftarrow>tx_Outputs (ws_Tx ws). tokenAmount i x) \<le> (\<Sum>x\<leftarrow>ws_UTXOInputs ws. tokenAmount i x)
    \<and> (CannotBurnNativeTokens (te_Capabilities (ws_Tx ws)) \<longrightarrow>
        (\<Sum>x\<leftarrow>tx_Outputs (ws_Tx ws). tokenAmount i x) = (\<Sum>x\<leftarrow>ws_UTXOInputs ws. tokenAmount i x))"
proof -
  obtain inS outS where s: "NativeTokenSum D (ws_UTXOInputs ws) = Inr inS"
      "NativeTokenSum D (tx_Outputs (ws_Tx ws)) = Inr outS"
    and c1: "\<forall>x \<in> set inS. nativeTokenInCheck (ws\<lparr>ws_InNativeTokens := inS, ws_OutNativeTokens := outS\<rparr>) x = Inr ()"
    and c2: "\<forall>x \<in> set outS. nativeTokenOutCheck (ws\<lparr>ws_InNativeTokens := inS, ws_OutNativeTokens := outS\<rparr>) (fst x) = Inr ()"
    using assms(1) by (auto simp: ExecFuncBalancedNativeTokens_def Let_def andthen_eq_Inr allG_iff)
  note ns = NativeTokenSum_Inr(1) [OF s(1), of i, symmetric] NativeTokenSum_Inr(1) [OF s(2), of i, symmetric]
  have nn: "0 \<le> (\<Sum>x\<leftarrow>ws_UTXOInputs ws. tokenAmount i x)"
    using NativeTokenSum_Inr(4) [OF s(1), of i] by (intro sum_list_nonneg) auto
  show ?thesis
  proof (cases "map_of inS i")
    case None
    have "map_of outS i = None"
    proof (rule ccontr)
      assume "map_of outS i \<noteq> None"
      then obtain v where "(i, v) \<in> set outS" by (auto dest: map_of_SomeD)
      with c2 have "nativeTokenOutCheck (ws\<lparr>ws_InNativeTokens := inS, ws_OutNativeTokens := outS\<rparr>) i = Inr ()"
        by force
      with None assms(2) show False by (simp add: nativeTokenOutCheck_def)
    qed
    with None ns show ?thesis by (simp add: ValueOrBigInt0_def)
  next
    case (Some v)
    then have "(i, v) \<in> set inS" by (rule map_of_SomeD)
    with c1 have "nativeTokenInCheck (ws\<lparr>ws_InNativeTokens := inS, ws_OutNativeTokens := outS\<rparr>) (i, v) = Inr ()"
      by blast
    with Some ns assms(2) nn show ?thesis
      by (auto simp: nativeTokenInCheck_def ValueOrBigInt0_def Let_def throw_def not_less
          split: if_splits option.splits)
  qed
qed

text \<open>Without a foundry in the transaction no native token is created: for every token whose foundry
  is not among the output chains the outputs hold at most what the inputs hold, and exactly that when
  the transaction may not burn native tokens.\<close>

theorem native_tokens_not_created:
  assumes "ExecFuncBalancedNativeTokens D ws = Inr ws'" "map_of (ws_OutChains ws) (FoundryIDc i) = None"
  shows "(\<Sum>x\<leftarrow>tx_Outputs (ws_Tx ws). tokenAmount i x) \<le> (\<Sum>x\<leftarrow>ws_UTXOInputs ws. tokenAmount i x)
    \<and> (CannotBurnNativeTokens (te_Capabilities (ws_Tx ws)) \<longrightarrow>
        (\<Sum>x\<leftarrow>tx_Outputs (ws_Tx ws). tokenAmount i x) = (\<Sum>x\<leftarrow>ws_UTXOInputs ws. tokenAmount i x))"
  using assms by (rule native_tokens_Inr)

theorem native_tokens_not_created_witness:
  "ok (ExecFuncBalancedNativeTokens ref_ledger (demo_ws [demo_basic [NativeTokenF [9] 30]] [demo_basic [NativeTokenF [9] 30]]))
    \<and> (\<Sum>x\<leftarrow>[demo_basic [NativeTokenF [9] 30]]. tokenAmount [9] x) = 30"
proof -
  let ?ws = "demo_ws [demo_basic [NativeTokenF [9] 30]] [demo_basic [NativeTokenF [9] 30]]"
  have f: "outFeatSet (demo_basic fs) = featsMustSet fs" for fs
    by (simp add: outFeatSet_def demo_basic_def)
  have k: "ok (ExecFuncBalancedNativeTokens ref_ledger ?ws)"
    by (simp add: ExecFuncBalancedNativeTokens_def demo_ws_def demo_tx_def NativeTokenSum_def nativeTokenSumStep_def
        f featsMustSet_eq ftNativeToken_def Let_def nativeTokenInCheck_def nativeTokenOutCheck_def)
  then obtain ws' where "ExecFuncBalancedNativeTokens ref_ledger ?ws = Inr ws'" by (auto simp: ok_iff)
  from native_tokens_not_created [OF this, of "[9]"] k show ?thesis
    by (simp add: demo_ws_def demo_tx_def tokenAmount_def tokenOf_def f featsMustSet_eq ftNativeToken_def)
qed

lemma balancedMana_iff:
  "balancedMana ws = Inr () \<longleftrightarrow>
    (\<forall>i \<in> fst ` set (ws_UTXOInputsSet ws). CreationSlot i \<le> te_CreationSlot (ws_Tx ws))
    \<and> ws_TotalManaOut ws \<le> ws_TotalManaIn ws
    \<and> (CannotBurnMana (te_Capabilities (ws_Tx ws)) \<longrightarrow> ws_TotalManaOut ws = ws_TotalManaIn ws)"
  by (auto simp: balancedMana_def andthen_eq_Inr allG_iff throw_def not_less not_le)

text \<open>Whether an input is a basic output at an implicit account creation address.\<close>

definition isImplicitAccount :: "ledger_output \<Rightarrow> bool" where
  "isImplicitAccount out \<longleftrightarrow> outType out = 0
     \<and> (\<exists>ucs1 a. outUCSet out = Inr ucs1 \<and> ucAddress ucs1 = Some a \<and> addrType a = 32)"

lemma implicitCreation_fold:
  "foldG implicitCreationStep b xs = Inr c \<Longrightarrow>
    length (filter isImplicitAccount xs) + (if b then 1 else 0) \<le> 1"
proof (induction xs arbitrary: b)
  case (Cons x xs)
  then obtain d where d: "implicitCreationStep b x = Inr d" "foldG implicitCreationStep d xs = Inr c"
    by (auto simp: andthen_eq_Inr)
  have "d = (b \<or> isImplicitAccount x) \<and> \<not> (b \<and> isImplicitAccount x)"
    using d(1) by (auto simp: implicitCreationStep_def isImplicitAccount_def andthen_eq_Inr throw_def
        split: option.splits if_splits)
  with Cons.IH [OF d(2)] show ?case by (auto split: if_splits)
qed simp

lemma RunVMFuncs_Inr:
  "RunVMFuncs (f # fs) ws = Inr ws' \<longleftrightarrow> (\<exists>ws1. f ws = Inr ws1 \<and> RunVMFuncs fs ws1 = Inr ws')"
  "RunVMFuncs [] ws = Inr ws' \<longleftrightarrow> ws' = ws"
  by (auto simp: RunVMFuncs_def andthen_eq_Inr)

end
