(* ===== verification/Nova_STVF.thy ===== *)
theory Nova_STVF
  imports VM_Exec
begin

text \<open>
  The state transition validation functions of the Nova virtual machine: vm/nova/vm.go from @\<open>ChainSTVF\<close>
  on.  The pointer the code uses to report that a staking feature is removed is a result; whether an
  input, a next output or a commitment is nil is an option, and following a nil pointer panics.
\<close>

section \<open>Accounts\<close>

definition accountBlockIssuanceCreditLocked :: "chain_id \<Rightarrow> (bytes \<Rightarrow> int option) \<Rightarrow> unit go" where
  "accountBlockIssuanceCreditLocked chainID bicSet =
    (case chainID of
       AccountIDc accountID \<Rightarrow>
         (case bicSet accountID of
            None \<Rightarrow> throw (Sentinel ''ErrBlockIssuanceCreditInputMissing'')
          | Some bic \<Rightarrow> if bic < 0 then throw (Sentinel ''ErrAccountLocked'') else Inr ())
     | _ \<Rightarrow> throw (Wrap (Sentinel ''ErrBlockIssuanceCreditInputMissing'')
              ''cannot convert chain ID %s to account ID''))"

definition accountStakingGenesisValidation :: "ledger_api \<Rightarrow> working_set \<Rightarrow> staking_feature \<Rightarrow> unit go" where
  "accountStakingGenesisValidation api ws stakingFeat =
    (case ws_Commitment ws of
       None \<Rightarrow> Inl (Panic ''commitment input should be present for staking features'')
     | Some c \<Rightarrow>
         let pastBoundedSlot = PastBoundedSlotIndex api (cm_Slot c);
             pastBoundedEpoch = EpochFromSlot (api_TimeProvider api) pastBoundedSlot
         in if sf_StartEpoch stakingFeat \<noteq> pastBoundedEpoch
            then throw (Wrap (Sentinel ''ErrStakingStartEpochInvalid'') ''is %d, expected %d'')
            else
              let unbondingEpoch = pastBoundedEpoch + api_StakingUnbondingPeriod api
              in if sf_EndEpoch stakingFeat < unbondingEpoch
                 then throw (Wrap (Sentinel ''ErrStakingEndEpochTooEarly'') ''end epoch %d should be >= %d'')
                 else Inr ())"

definition accountStakingNonExpiredValidation ::
    "staking_feature \<Rightarrow> staking_feature option \<Rightarrow> u32 \<Rightarrow> unit go" where
  "accountStakingNonExpiredValidation currentStakingFeat nextStakingFeat earliestUnbondingEpoch =
    (case nextStakingFeat of
       None \<Rightarrow> throw (Sentinel ''ErrStakingFeatureRemovedBeforeUnbonding'')
     | Some next1 \<Rightarrow>
         if sf_StakedAmount currentStakingFeat \<noteq> sf_StakedAmount next1
            \<or> sf_FixedCost currentStakingFeat \<noteq> sf_FixedCost next1
            \<or> sf_StartEpoch currentStakingFeat \<noteq> sf_StartEpoch next1
         then throw (Sentinel ''ErrStakingFeatureModifiedBeforeUnbonding'')
         else if sf_EndEpoch currentStakingFeat \<noteq> sf_EndEpoch next1
                 \<and> sf_EndEpoch next1 < earliestUnbondingEpoch
         then throw (Wrap (Sentinel ''ErrStakingEndEpochTooEarly'')
                ''end epoch %d should be >= %d or the end epoch must match on input and output side'')
         else Inr ())"

text \<open>The result tells whether the staking feature is removed.\<close>

definition accountStakingExpiredValidation ::
    "ledger_api \<Rightarrow> working_set \<Rightarrow> staking_feature \<Rightarrow> staking_feature option \<Rightarrow> bool go" where
  "accountStakingExpiredValidation api ws currentStakingFeat nextStakingFeat =
    (case nextStakingFeat of
       None \<Rightarrow> Inr True
     | Some next1 \<Rightarrow>
         if \<not> stakingEqual currentStakingFeat next1
         then andthen (wrapE ''rewards claiming without removing the feature requires updating the feature''
                (accountStakingGenesisValidation api ws next1)) (\<lambda>_. Inr True)
         else Inr False)"

definition accountStakingSTVF ::
    "ledger_api \<Rightarrow> working_set \<Rightarrow> account_output \<Rightarrow> account_output \<Rightarrow> bool go" where
  "accountStakingSTVF api ws current next1 =
    andthen (featsMustSet (ao_Features current)) (\<lambda>curFeats.
    andthen (featsMustSet (ao_Features next1)) (\<lambda>nextFeats.
    case ftStaking curFeats of
      Some currentStakingFeat \<Rightarrow>
        (case ws_Commitment ws of
           None \<Rightarrow> throw (Sentinel ''ErrStakingCommitmentInputMissing'')
         | Some c \<Rightarrow>
             let pastBoundedSlot = PastBoundedSlotIndex api (cm_Slot c);
                 pastBoundedEpoch = EpochFromSlot (api_TimeProvider api) pastBoundedSlot;
                 futureBoundedSlot = FutureBoundedSlotIndex api (cm_Slot c);
                 futureBoundedEpoch = EpochFromSlot (api_TimeProvider api) futureBoundedSlot
             in if futureBoundedEpoch \<le> sf_EndEpoch currentStakingFeat
                then
                  let earliestUnbondingEpoch = pastBoundedEpoch + api_StakingUnbondingPeriod api
                  in andthen (accountStakingNonExpiredValidation currentStakingFeat (ftStaking nextFeats)
                         earliestUnbondingEpoch) (\<lambda>_. Inr False)
                else accountStakingExpiredValidation api ws currentStakingFeat (ftStaking nextFeats))
    | None \<Rightarrow>
        (case ftStaking nextFeats of
           Some nextStakingFeat \<Rightarrow>
             andthen (accountStakingGenesisValidation api ws nextStakingFeat) (\<lambda>_. Inr False)
         | None \<Rightarrow> Inr False)))"

text \<open>The loop counts the foundries of the account that the transaction creates.\<close>

definition countNewFoundriesStep ::
    "'a ledger_deps_scheme \<Rightarrow> working_set \<Rightarrow> bytes \<Rightarrow> u32 \<Rightarrow> ledger_output \<Rightarrow> u32 go" where
  "countNewFoundriesStep D ws nextAccountID seen output =
    (case output of
       FoundryO f \<Rightarrow>
         andthen (mustE (foundryID D f)) (\<lambda>i.
         if map_of (ws_InChains ws) (FoundryIDc i) \<noteq> None then Inr seen
         else andthen (foundryOwner f) (\<lambda>owner.
              case owner of
                AccountAddress a \<Rightarrow> if a \<noteq> nextAccountID then Inr seen else Inr (seen + 1)
              | _ \<Rightarrow> Inl (Panic ''interface conversion'')))
     | _ \<Rightarrow> Inr seen)"

definition accountFoundryCounterSTVF ::
    "'a ledger_deps_scheme \<Rightarrow> working_set \<Rightarrow> account_output \<Rightarrow> account_output \<Rightarrow> unit go" where
  "accountFoundryCounterSTVF D ws current next1 =
    (if ao_FoundryCounter next1 < ao_FoundryCounter current
     then throw (Wrap (Sentinel ''ErrAccountInvalidFoundryCounter'')
            ''foundry counter of next state is less than previous, in %d / out %d'')
     else if ao_FoundryCounter current = ao_FoundryCounter next1 then Inr ()
     else andthen (foldG (countNewFoundriesStep D ws (ao_AccountID next1)) 0 (tx_Outputs (ws_Tx ws))) (\<lambda>seen.
          if ao_FoundryCounter next1 - ao_FoundryCounter current \<noteq> seen
          then throw (Wrap (Sentinel ''ErrAccountInvalidFoundryCounter'')
                 ''%d new foundries were created but the account output's foundry counter changed by %d'')
          else Inr ()))"

text \<open>The mana check of @\<open>accountBlockIssuerSTVF\<close>: what is left of the mana on both sides once everything
  that belongs to the account was taken off.\<close>

definition manalockStep ::
    "'a ledger_deps_scheme \<Rightarrow> bytes \<Rightarrow> u32 \<Rightarrow> u64 \<Rightarrow> ledger_output \<Rightarrow> u64 go" where
  "manalockStep D accountID minManalockedSlot manaOut output =
    andthen (outUCSet output) (\<lambda>ucs1.
    if HasManalockCondition D ucs1 accountID minManalockedSlot
    then wrapE ''account %s manalocked output mana exceeds total remaining mana out''
           (liftE (SafeSub64 D manaOut (outStoredMana output)))
    else Inr manaOut)"

definition accountManaNotMoved ::
    "'a ledger_deps_scheme \<Rightarrow> ledger_api \<Rightarrow> working_set \<Rightarrow> ledger_output \<Rightarrow> bytes \<Rightarrow> account_output \<Rightarrow> u32
     \<Rightarrow> unit go" where
  "accountManaNotMoved D api ws current outputID next1 pastBoundedSlot =
    (let manaDecayProvider = api_ManaDecayProvider api;
         storageScoreStructure = api_StorageScoreStructure api;
         txSlot = te_CreationSlot (ws_Tx ws)
     in andthen (wrapE ''account %s stored mana calculation failed''
          (DecayManaBySlots manaDecayProvider (outStoredMana current) (CreationSlot outputID) txSlot))
          (\<lambda>manaStoredAccount.
        andthen (wrapE ''account %s stored mana in exceeds total remaining mana in''
          (liftE (SafeSub64 D (ws_TotalManaIn ws) manaStoredAccount))) (\<lambda>manaIn.
        andthen (wrapE ''account %s potential mana calculation failed''
          (PotentialMana D manaDecayProvider storageScoreStructure current (CreationSlot outputID) txSlot))
          (\<lambda>manaPotentialAccount.
        andthen (wrapE ''account %s potential mana in exceeds total remaining mana in''
          (liftE (SafeSub64 D manaIn manaPotentialAccount))) (\<lambda>manaIn.
        andthen (wrapE ''account %s stored mana out exceeds total remaining mana out''
          (liftE (SafeSub64 D (ws_TotalManaOut ws) (ao_Mana next1)))) (\<lambda>manaOut.
        andthen (wrapE ''account %s allotment exceeds total remaining mana out''
          (liftE (SafeSub64 D manaOut (allotmentsGet (te_Allotments (ws_Tx ws)) (ao_AccountID next1)))))
          (\<lambda>manaOut.
        andthen (foldG (manalockStep D (ao_AccountID next1) (pastBoundedSlot + api_MaxCommittableAge api))
             manaOut (tx_Outputs (ws_Tx ws))) (\<lambda>manaOut.
        if manaIn < manaOut
        then throw (Wrap (Sentinel ''ErrManaMovedOffBlockIssuerAccount'') ''mana in %d, mana out %d'')
        else Inr ()))))))))"

definition blockIssuerExpiryValid ::
    "block_issuer_feature option \<Rightarrow> block_issuer_feature option \<Rightarrow> u32 \<Rightarrow> u32 \<Rightarrow> unit go" where
  "blockIssuerExpiryValid currentBlockIssuerFeat nextBlockIssuerFeat commitmentInputSlot pastBoundedSlot =
    (if (case currentBlockIssuerFeat of Some cur \<Rightarrow> commitmentInputSlot \<le> bif_ExpirySlot cur | None \<Rightarrow> False)
     then
       (case nextBlockIssuerFeat of
          None \<Rightarrow> throw (Wrap (Sentinel ''ErrBlockIssuerNotExpired'') ''commitment slot: %d, expiry slot: %d'')
        | Some next1 \<Rightarrow>
            if Some (bif_ExpirySlot next1) \<noteq> map_option bif_ExpirySlot currentBlockIssuerFeat
               \<and> bif_ExpirySlot next1 < pastBoundedSlot
            then throw (Wrap (Sentinel ''ErrBlockIssuerExpiryTooEarly'') ''is %d, must be >= %d'')
            else Inr ())
     else
       (case nextBlockIssuerFeat of
          Some next1 \<Rightarrow>
            if bif_ExpirySlot next1 < pastBoundedSlot
            then throw (Wrap (Sentinel ''ErrBlockIssuerExpiryTooEarly'') ''is %d, must be >= %d'')
            else Inr ()
        | None \<Rightarrow> Inr ()))"

definition accountBlockIssuerSTVF ::
    "'a ledger_deps_scheme \<Rightarrow> ledger_api \<Rightarrow> working_set \<Rightarrow> chain_output_with_ids
     \<Rightarrow> block_issuer_feature option \<Rightarrow> account_output \<Rightarrow> unit go" where
  "accountBlockIssuerSTVF D api ws input currentBlockIssuerFeat next1 =
    andthen (featsMustSet (ao_Features next1)) (\<lambda>nextFeats.
    let nextBlockIssuerFeat = ftBlockIssuer nextFeats
    in if currentBlockIssuerFeat = None \<and> nextBlockIssuerFeat = None then Inr ()
       else case ws_Commitment ws of
         None \<Rightarrow> throw (Sentinel ''ErrBlockIssuerCommitmentInputMissing'')
       | Some c \<Rightarrow>
           let commitmentInputSlot = cm_Slot c;
               pastBoundedSlot = PastBoundedSlotIndex api commitmentInputSlot
           in andthen (blockIssuerExpiryValid currentBlockIssuerFeat nextBlockIssuerFeat
                  commitmentInputSlot pastBoundedSlot) (\<lambda>_.
              accountManaNotMoved D api ws (co_Output input) (co_OutputID input) next1 pastBoundedSlot))"

definition accountGenesisValid ::
    "'a ledger_deps_scheme \<Rightarrow> ledger_api \<Rightarrow> working_set \<Rightarrow> account_output \<Rightarrow> bool \<Rightarrow> unit go" where
  "accountGenesisValid D api ws next1 accountIDMustBeZeroed =
    (if accountIDMustBeZeroed \<and> ao_AccountID next1 \<noteq> emptyID
     then throw (Sentinel ''ErrNewChainOutputHasNonZeroedID'')
     else andthen (featsMustSet (ao_Features next1)) (\<lambda>feats1.
       andthen (case ftBlockIssuer feats1 of
           None \<Rightarrow> Inr ()
         | Some nextBlockIssuerFeat \<Rightarrow>
             (case ws_Commitment ws of
                None \<Rightarrow> Inl (Panic ''commitment input should be present for block issuer features'')
              | Some c \<Rightarrow>
                  if bif_ExpirySlot nextBlockIssuerFeat < PastBoundedSlotIndex api (cm_Slot c)
                  then throw (Wrap (Sentinel ''ErrBlockIssuerExpiryTooEarly'') ''is %d, must be >= %d'')
                  else Inr ())) (\<lambda>_.
       andthen (case ftStaking feats1 of
           None \<Rightarrow> Inr ()
         | Some stakingFeat \<Rightarrow> accountStakingGenesisValidation api ws stakingFeat) (\<lambda>_.
       IsIssuerOnOutputUnlocked D (ao_ImmutableFeatures next1) (ws_UnlockedAddrs ws)))))"

text \<open>The account transition functions get the chain output and the account it holds.\<close>

definition accountStateChangeValid ::
    "'a ledger_deps_scheme \<Rightarrow> ledger_api \<Rightarrow> working_set \<Rightarrow> chain_output_with_ids \<Rightarrow> account_output
     \<Rightarrow> account_output \<Rightarrow> bool go" where
  "accountStateChangeValid D api ws input current next1 =
    (if \<not> featsEqual D (ao_ImmutableFeatures current) (ao_ImmutableFeatures next1)
     then throw (Wrap (Sentinel ''ErrChainOutputImmutableFeaturesChanged'') ''old state %s, next state %s'')
     else andthen (featsMustSet (ao_Features current)) (\<lambda>curFeats.
       andthen (if ftBlockIssuer curFeats \<noteq> None
                then accountBlockIssuanceCreditLocked (co_ChainID input) (ws_BIC ws) else Inr ()) (\<lambda>_.
       andthen (accountStakingSTVF api ws current next1) (\<lambda>isRemovingStakingFeature.
       andthen (accountFoundryCounterSTVF D ws current next1) (\<lambda>_.
       andthen (accountBlockIssuerSTVF D api ws input (ftBlockIssuer curFeats) next1) (\<lambda>_.
       Inr isRemovingStakingFeature))))))"

definition accountDestructionValid ::
    "ledger_api \<Rightarrow> working_set \<Rightarrow> chain_output_with_ids \<Rightarrow> account_output \<Rightarrow> bool go" where
  "accountDestructionValid api ws input outputToDestroy =
    (if CannotDestroyAccountOutputs (te_Capabilities (ws_Tx ws))
     then throw (Sentinel ''ErrTxCapabilitiesAccountDestructionNotAllowed'')
     else andthen (featsMustSet (ao_Features outputToDestroy)) (\<lambda>feats1.
       andthen (case ftBlockIssuer feats1 of
           None \<Rightarrow> Inr ()
         | Some blockIssuerFeat \<Rightarrow>
             (case ws_Commitment ws of
                None \<Rightarrow> throw (Sentinel ''ErrBlockIssuerCommitmentInputMissing'')
              | Some c \<Rightarrow>
                  if cm_Slot c \<le> bif_ExpirySlot blockIssuerFeat
                  then throw (Wrap (Sentinel ''ErrBlockIssuerNotExpired'') ''commitment slot: %d, expiry slot: %d'')
                  else accountBlockIssuanceCreditLocked (co_ChainID input) (ws_BIC ws))) (\<lambda>_.
       case ftStaking feats1 of
         None \<Rightarrow> Inr False
       | Some stakingFeat \<Rightarrow>
           (case ws_Commitment ws of
              None \<Rightarrow> throw (Sentinel ''ErrStakingCommitmentInputMissing'')
            | Some c \<Rightarrow>
                let futureBoundedSlot = FutureBoundedSlotIndex api (cm_Slot c);
                    futureBoundedEpoch = EpochFromSlot (api_TimeProvider api) futureBoundedSlot
                in if futureBoundedEpoch \<le> sf_EndEpoch stakingFeat
                   then throw (Wrap (Sentinel ''ErrStakingFeatureRemovedBeforeUnbonding'')
                          ''future bounded epoch is %d, must be > %d'')
                   else Inr True))))"

text \<open>The type assertion on the input of an account transition.\<close>

definition asAccount :: "ledger_output \<Rightarrow> account_output go" where
  "asAccount out = (case out of AccountO a \<Rightarrow> Inr a | _ \<Rightarrow> Inl (Panic ''interface conversion''))"

definition accountSTVF ::
    "'a ledger_deps_scheme \<Rightarrow> ledger_api \<Rightarrow> working_set \<Rightarrow> chain_output_with_ids option
     \<Rightarrow> chain_transition_type \<Rightarrow> account_output option \<Rightarrow> unit go" where
  "accountSTVF D api ws input transType next1 =
    (let isClaimingRewards =
       (case input of None \<Rightarrow> False | Some i \<Rightarrow> map_of (ws_Rewards ws) (co_ChainID i) \<noteq> None)
     in andthen
       (case transType of
          TransGenesis \<Rightarrow>
            andthen (derefG next1) (\<lambda>n. andthen (accountGenesisValid D api ws n True) (\<lambda>_. Inr False))
        | TransStateChange \<Rightarrow>
            andthen (derefG input) (\<lambda>i. andthen (asAccount (co_Output i)) (\<lambda>current.
            andthen (derefG next1) (\<lambda>n. accountStateChangeValid D api ws i current n)))
        | TransDestroy \<Rightarrow>
            andthen (derefG input) (\<lambda>i. andthen (asAccount (co_Output i)) (\<lambda>current.
            accountDestructionValid api ws i current)))
       (\<lambda>isRemovingStakingFeature.
        if isClaimingRewards \<and> \<not> isRemovingStakingFeature
        then throw (Sentinel ''ErrStakingRewardClaimingInvalid'')
        else if \<not> isClaimingRewards \<and> isRemovingStakingFeature
        then throw (Sentinel ''ErrStakingRewardInputMissing'')
        else Inr ()))"

text \<open>For an implicit account there is a basic output on the input side and an account on the output side.\<close>

definition implicitAccountSTVF ::
    "'a ledger_deps_scheme \<Rightarrow> ledger_api \<Rightarrow> working_set \<Rightarrow> ledger_output \<Rightarrow> bytes
     \<Rightarrow> account_output option \<Rightarrow> chain_transition_type \<Rightarrow> unit go" where
  "implicitAccountSTVF D api ws implicitAccount outputID next1 transType =
    (if transType = TransDestroy then throw (Sentinel ''ErrImplicitAccountDestructionDisallowed'')
     else andthen (derefG next1) (\<lambda>n.
       let implicitAccountChainOutput =
             \<lparr>co_ChainID = AccountIDc (ao_AccountID n), co_OutputID = outputID, co_Output = implicitAccount\<rparr>
       in andthen (accountBlockIssuanceCreditLocked (co_ChainID implicitAccountChainOutput) (ws_BIC ws)) (\<lambda>_.
          let implicitAccountBlockIssuerFeature = \<lparr>bif_ExpirySlot = - 1, bif_BlockIssuerKeys = []\<rparr>
          in andthen (accountBlockIssuerSTVF D api ws implicitAccountChainOutput
                 (Some implicitAccountBlockIssuerFeature) n) (\<lambda>_.
             accountGenesisValid D api ws n False))))"

section \<open>Anchors\<close>

definition anchorGenesisValid ::
    "'a ledger_deps_scheme \<Rightarrow> working_set \<Rightarrow> anchor_output \<Rightarrow> bool \<Rightarrow> unit go" where
  "anchorGenesisValid D ws current anchorIDMustBeZeroed =
    (if anchorIDMustBeZeroed \<and> an_AnchorID current \<noteq> emptyID
     then throw (Join (Sentinel ''ErrAnchorInvalidStateTransition'') (Sentinel ''ErrNewChainOutputHasNonZeroedID''))
     else IsIssuerOnOutputUnlocked D (an_ImmutableFeatures current) (ws_UnlockedAddrs ws))"

definition anchorGovernanceSTVF ::
    "'a ledger_deps_scheme \<Rightarrow> anchor_output \<Rightarrow> anchor_output \<Rightarrow> unit go" where
  "anchorGovernanceSTVF D current next1 =
    (if an_Amount current \<noteq> an_Amount next1
     then throw (Wrap (Sentinel ''ErrAnchorInvalidGovernanceTransition'') ''amount changed, in %d / out %d '')
     else if an_StateIndex current \<noteq> an_StateIndex next1
     then throw (Wrap (Sentinel ''ErrAnchorInvalidGovernanceTransition'') ''state index changed, in %d / out %d'')
     else andthen (featsMustSet (an_Features current)) (\<lambda>curFeats.
       andthen (featsMustSet (an_Features next1)) (\<lambda>nextFeats.
       joinE (Sentinel ''ErrAnchorInvalidGovernanceTransition'') (FeatureUnchanged D 3 curFeats nextFeats))))"

definition anchorStateSTVF ::
    "'a ledger_deps_scheme \<Rightarrow> anchor_output \<Rightarrow> anchor_output \<Rightarrow> unit go" where
  "anchorStateSTVF D current next1 =
    andthen (anchorStateController current) (\<lambda>curCtrl.
    andthen (anchorStateController next1) (\<lambda>nextCtrl.
    if \<not> addrEqual D curCtrl nextCtrl
    then throw (Wrap (Sentinel ''ErrAnchorInvalidStateTransition'') ''state controller changed, in %s / out %s'')
    else andthen (anchorGovernor current) (\<lambda>curGov.
      andthen (anchorGovernor next1) (\<lambda>nextGov.
      if \<not> addrEqual D curGov nextGov
      then throw (Wrap (Sentinel ''ErrAnchorInvalidStateTransition'') ''governance controller changed, in %s / out %s'')
      else if an_StateIndex current + 1 \<noteq> an_StateIndex next1
      then throw (Wrap (Sentinel ''ErrAnchorInvalidStateTransition'')
             ''state index %d on the input side but %d on the output side'')
      else andthen (featsMustSet (an_Features current)) (\<lambda>curFeats.
        andthen (featsMustSet (an_Features next1)) (\<lambda>nextFeats.
        joinE (Sentinel ''ErrAnchorInvalidStateTransition'') (FeatureUnchanged D 2 curFeats nextFeats)))))))"

definition anchorStateChangeValid ::
    "'a ledger_deps_scheme \<Rightarrow> anchor_output \<Rightarrow> anchor_output \<Rightarrow> unit go" where
  "anchorStateChangeValid D current next1 =
    (let isGovTransition = (an_StateIndex current = an_StateIndex next1)
     in if \<not> featsEqual D (an_ImmutableFeatures current) (an_ImmutableFeatures next1)
        then throw (Join
               (Sentinel (if isGovTransition then ''ErrAnchorInvalidGovernanceTransition''
                          else ''ErrAnchorInvalidStateTransition''))
               (Wrap (Sentinel ''ErrChainOutputImmutableFeaturesChanged'') ''old state %s, next state %s''))
        else if isGovTransition then anchorGovernanceSTVF D current next1
        else anchorStateSTVF D current next1)"

definition anchorDestructionValid :: "working_set \<Rightarrow> unit go" where
  "anchorDestructionValid ws =
    (if CannotDestroyAnchorOutputs (te_Capabilities (ws_Tx ws))
     then throw (Join (Sentinel ''ErrAnchorInvalidStateTransition'')
            (Sentinel ''ErrTxCapabilitiesAnchorDestructionNotAllowed''))
     else Inr ())"

definition asAnchor :: "ledger_output \<Rightarrow> anchor_output go" where
  "asAnchor out = (case out of AnchorO a \<Rightarrow> Inr a | _ \<Rightarrow> Inl (Panic ''interface conversion''))"

definition anchorSTVF ::
    "'a ledger_deps_scheme \<Rightarrow> working_set \<Rightarrow> chain_output_with_ids option
     \<Rightarrow> chain_transition_type \<Rightarrow> anchor_output option \<Rightarrow> unit go" where
  "anchorSTVF D ws input transType next1 =
    (case transType of
       TransGenesis \<Rightarrow> andthen (derefG next1) (\<lambda>n. anchorGenesisValid D ws n True)
     | TransStateChange \<Rightarrow>
         andthen (derefG input) (\<lambda>i. andthen (asAnchor (co_Output i)) (\<lambda>current.
         andthen (derefG next1) (\<lambda>n. anchorStateChangeValid D current n)))
     | TransDestroy \<Rightarrow> anchorDestructionValid ws)"

section \<open>Foundries\<close>

text \<open>The loop over the outputs stops at the foundry itself; the Boolean tells whether it has.\<close>

definition foundrySerialStep ::
    "'a ledger_deps_scheme \<Rightarrow> working_set \<Rightarrow> foundry_output \<Rightarrow> bytes \<Rightarrow> bool \<Rightarrow> ledger_output \<Rightarrow> bool go" where
  "foundrySerialStep D ws current thisFoundryID stopped output =
    (if stopped then Inr True
     else case output of
       FoundryO other \<Rightarrow>
         andthen (foundryOwner other) (\<lambda>otherOwner.
         andthen (foundryOwner current) (\<lambda>owner.
         if \<not> addrEqual D otherOwner owner then Inr False
         else andthen (foundryID D other) (\<lambda>otherFoundryID.
           if map_of (ws_InChains ws) (FoundryIDc otherFoundryID) \<noteq> None then Inr False
           else if otherFoundryID = thisFoundryID then Inr True
           else if fo_SerialNumber current \<le> fo_SerialNumber other
           then throw (Wrap (Sentinel ''ErrFoundrySerialInvalid'')
                  ''new foundry output %s at index %d has bigger equal serial number than this foundry %s'')
           else Inr False)))
     | _ \<Rightarrow> Inr False)"

definition foundrySerialNumberValid ::
    "'a ledger_deps_scheme \<Rightarrow> working_set \<Rightarrow> foundry_output \<Rightarrow> account_output \<Rightarrow> account_output
     \<Rightarrow> bytes \<Rightarrow> unit go" where
  "foundrySerialNumberValid D ws current inAccount outAccount thisFoundryID =
    (let startSerial = ao_FoundryCounter inAccount; endIncSerial = ao_FoundryCounter outAccount
     in if fo_SerialNumber current \<le> startSerial \<or> endIncSerial < fo_SerialNumber current
        then throw (Wrap (Sentinel ''ErrFoundrySerialInvalid'')
               ''new foundry output %s's serial number %d is not between the foundry counter interval of [%d,%d)'')
        else andthen (foldG (foundrySerialStep D ws current thisFoundryID) False (tx_Outputs (ws_Tx ws))) (\<lambda>_.
             Inr ()))"

definition foundryGenesisValid ::
    "'a ledger_deps_scheme \<Rightarrow> working_set \<Rightarrow> foundry_output \<Rightarrow> bytes \<Rightarrow> (bytes \<times> int) list \<Rightarrow> unit go" where
  "foundryGenesisValid D ws current thisFoundryID outSums =
    andthen (mustE (foundryID D current)) (\<lambda>nativeTokenID.
    andthen (schemeStateTransition (fo_TokenScheme current) TransGenesis None 0
        (ValueOrBigInt0 outSums nativeTokenID)) (\<lambda>_.
    andthen (foundryOwner current) (\<lambda>owner.
    case owner of
      AccountAddress accountID \<Rightarrow>
        (case map_of (ws_InChains ws) (AccountIDc accountID) of
           None \<Rightarrow> throw (Wrap (Sentinel ''ErrFoundryTransitionWithoutAccount'')
                     ''missing input transitioning account output %s for new foundry output %s'')
         | Some inAccount \<Rightarrow>
             (case map_of (ws_OutChains ws) (AccountIDc accountID) of
                None \<Rightarrow> throw (Wrap (Sentinel ''ErrFoundryTransitionWithoutAccount'')
                          ''missing output transitioning account output %s for new foundry output %s'')
              | Some outAccount \<Rightarrow>
                  andthen (asAccount (co_Output inAccount)) (\<lambda>a.
                  andthen (asAccount outAccount) (\<lambda>b.
                  foundrySerialNumberValid D ws current a b thisFoundryID))))
    | _ \<Rightarrow> Inl (Panic ''interface conversion''))))"

definition foundryStateChangeValid ::
    "'a ledger_deps_scheme \<Rightarrow> foundry_output \<Rightarrow> foundry_output \<Rightarrow> (bytes \<times> int) list \<Rightarrow> (bytes \<times> int) list
     \<Rightarrow> unit go" where
  "foundryStateChangeValid D current next1 inSums outSums =
    (if \<not> featsEqual D (fo_ImmutableFeatures current) (fo_ImmutableFeatures next1)
     then throw (Wrap (Sentinel ''ErrChainOutputImmutableFeaturesChanged'') ''old state %s, next state %s'')
     else andthen (mustE (foundryID D current)) (\<lambda>currentID.
       andthen (mustE (foundryID D next1)) (\<lambda>nextID.
       if currentID \<noteq> nextID then Inl (Panic ''foundry IDs mismatch in state transition validation function'')
       else schemeStateTransition (fo_TokenScheme current) TransStateChange (Some (fo_TokenScheme next1))
              (ValueOrBigInt0 inSums currentID) (ValueOrBigInt0 outSums currentID))))"

definition foundryDestructionValid ::
    "'a ledger_deps_scheme \<Rightarrow> working_set \<Rightarrow> foundry_output \<Rightarrow> (bytes \<times> int) list \<Rightarrow> (bytes \<times> int) list
     \<Rightarrow> unit go" where
  "foundryDestructionValid D ws current inSums outSums =
    (if CannotDestroyFoundryOutputs (te_Capabilities (ws_Tx ws))
     then throw (Sentinel ''ErrTxCapabilitiesFoundryDestructionNotAllowed'')
     else andthen (mustE (foundryID D current)) (\<lambda>nativeTokenID.
       schemeStateTransition (fo_TokenScheme current) TransDestroy None
         (ValueOrBigInt0 inSums nativeTokenID) (ValueOrBigInt0 outSums nativeTokenID)))"

definition asFoundry :: "ledger_output \<Rightarrow> foundry_output go" where
  "asFoundry out = (case out of FoundryO f \<Rightarrow> Inr f | _ \<Rightarrow> Inl (Panic ''interface conversion''))"

definition foundrySTVF ::
    "'a ledger_deps_scheme \<Rightarrow> working_set \<Rightarrow> chain_output_with_ids option
     \<Rightarrow> chain_transition_type \<Rightarrow> foundry_output option \<Rightarrow> unit go" where
  "foundrySTVF D ws input transType next1 =
    (let inSums = ws_InNativeTokens ws; outSums = ws_OutNativeTokens ws
     in case transType of
       TransGenesis \<Rightarrow>
         andthen (derefG next1) (\<lambda>n. andthen (mustE (foundryID D n)) (\<lambda>i.
         foundryGenesisValid D ws n i outSums))
     | TransStateChange \<Rightarrow>
         andthen (derefG input) (\<lambda>i. andthen (asFoundry (co_Output i)) (\<lambda>current.
         andthen (derefG next1) (\<lambda>n. foundryStateChangeValid D current n inSums outSums)))
     | TransDestroy \<Rightarrow>
         andthen (derefG input) (\<lambda>i. andthen (asFoundry (co_Output i)) (\<lambda>current.
         foundryDestructionValid D ws current inSums outSums)))"

section \<open>NFTs\<close>

definition nftGenesisValid ::
    "'a ledger_deps_scheme \<Rightarrow> working_set \<Rightarrow> nft_output \<Rightarrow> unit go" where
  "nftGenesisValid D ws current =
    (if no_NFTID current \<noteq> emptyID then throw (Sentinel ''ErrNewChainOutputHasNonZeroedID'')
     else IsIssuerOnOutputUnlocked D (no_ImmutableFeatures current) (ws_UnlockedAddrs ws))"

definition nftStateChangeValid ::
    "'a ledger_deps_scheme \<Rightarrow> nft_output \<Rightarrow> nft_output \<Rightarrow> unit go" where
  "nftStateChangeValid D current next1 =
    (if \<not> featsEqual D (no_ImmutableFeatures current) (no_ImmutableFeatures next1)
     then throw (Wrap (Sentinel ''ErrChainOutputImmutableFeaturesChanged'') ''old state %s, next state %s'')
     else Inr ())"

definition nftDestructionValid :: "working_set \<Rightarrow> unit go" where
  "nftDestructionValid ws =
    (if CannotDestroyNFTOutputs (te_Capabilities (ws_Tx ws))
     then throw (Sentinel ''ErrTxCapabilitiesNFTDestructionNotAllowed'') else Inr ())"

definition asNFT :: "ledger_output \<Rightarrow> nft_output go" where
  "asNFT out = (case out of NFTO n \<Rightarrow> Inr n | _ \<Rightarrow> Inl (Panic ''interface conversion''))"

definition nftSTVF ::
    "'a ledger_deps_scheme \<Rightarrow> working_set \<Rightarrow> chain_output_with_ids option
     \<Rightarrow> chain_transition_type \<Rightarrow> nft_output option \<Rightarrow> unit go" where
  "nftSTVF D ws input transType next1 =
    (case transType of
       TransGenesis \<Rightarrow> andthen (derefG next1) (\<lambda>n. nftGenesisValid D ws n)
     | TransStateChange \<Rightarrow>
         andthen (derefG input) (\<lambda>i. andthen (asNFT (co_Output i)) (\<lambda>current.
         andthen (derefG next1) (\<lambda>n. nftStateChangeValid D current n)))
     | TransDestroy \<Rightarrow> nftDestructionValid ws)"

section \<open>Delegations\<close>

definition registrationSlot :: "ledger_api \<Rightarrow> u32 \<Rightarrow> u32" where
  "registrationSlot api epoch = EpochEnd (api_TimeProvider api) epoch - api_EpochNearingThreshold api"

definition delegationGenesisValid ::
    "ledger_api \<Rightarrow> working_set \<Rightarrow> delegation_output \<Rightarrow> unit go" where
  "delegationGenesisValid api ws current =
    (if do_DelegationID current \<noteq> emptyID then throw (Sentinel ''ErrNewChainOutputHasNonZeroedID'')
     else case ws_Commitment ws of
       None \<Rightarrow> throw (Sentinel ''ErrDelegationCommitmentInputMissing'')
     | Some c \<Rightarrow>
         let pastBoundedSlot = PastBoundedSlotIndex api (cm_Slot c);
             pastBoundedEpoch = EpochFromSlot (api_TimeProvider api) pastBoundedSlot;
             expectedStartEpoch =
               (if pastBoundedSlot \<le> registrationSlot api pastBoundedEpoch
                then pastBoundedEpoch + 1 else pastBoundedEpoch + 2)
         in if do_StartEpoch current \<noteq> expectedStartEpoch
            then throw (Wrap (Sentinel ''ErrDelegationStartEpochInvalid'') ''is %d, expected %d'')
            else if do_DelegatedAmount current \<noteq> do_Amount current
            then throw (Wrap (Sentinel ''ErrDelegationAmountMismatch'') ''delegated amount %d, amount %d'')
            else if do_EndEpoch current \<noteq> 0 then throw (Sentinel ''ErrDelegationEndEpochNotZero'')
            else Inr ())"

definition delegationStateChangeValid ::
    "'a ledger_deps_scheme \<Rightarrow> ledger_api \<Rightarrow> working_set \<Rightarrow> delegation_output \<Rightarrow> delegation_output \<Rightarrow> unit go" where
  "delegationStateChangeValid D api ws current next1 =
    (if do_DelegationID current \<noteq> emptyID
     then throw (Wrap (Sentinel ''ErrDelegationOutputTransitionedTwice'')
            ''delegation output can only be transitioned if it has a zeroed ID'')
     else if do_DelegatedAmount current \<noteq> do_DelegatedAmount next1
             \<or> \<not> addrEqual D (AccountAddress (do_ValidatorAddress current)) (AccountAddress (do_ValidatorAddress next1))
             \<or> do_StartEpoch current \<noteq> do_StartEpoch next1
     then throw (Sentinel ''ErrDelegationModified'')
     else case ws_Commitment ws of
       None \<Rightarrow> throw (Sentinel ''ErrDelegationCommitmentInputMissing'')
     | Some c \<Rightarrow>
         let futureBoundedSlot = FutureBoundedSlotIndex api (cm_Slot c);
             futureBoundedEpoch = EpochFromSlot (api_TimeProvider api) futureBoundedSlot;
             expectedEndEpoch =
               (if futureBoundedSlot \<le> registrationSlot api futureBoundedEpoch
                then futureBoundedEpoch else futureBoundedEpoch + 1)
         in if do_EndEpoch next1 \<noteq> expectedEndEpoch
            then throw (Wrap (Sentinel ''ErrDelegationEndEpochInvalid'') ''is %d, expected %d'')
            else Inr ())"

definition asDelegation :: "ledger_output \<Rightarrow> delegation_output go" where
  "asDelegation out = (case out of DelegationO d \<Rightarrow> Inr d | _ \<Rightarrow> Inl (Panic ''interface conversion''))"

definition delegationSTVF ::
    "'a ledger_deps_scheme \<Rightarrow> ledger_api \<Rightarrow> working_set \<Rightarrow> chain_output_with_ids option
     \<Rightarrow> chain_transition_type \<Rightarrow> delegation_output option \<Rightarrow> unit go" where
  "delegationSTVF D api ws input transType next1 =
    (case transType of
       TransGenesis \<Rightarrow> andthen (derefG next1) (\<lambda>n. delegationGenesisValid api ws n)
     | TransStateChange \<Rightarrow>
         andthen (derefG input) (\<lambda>i.
         if map_of (ws_Rewards ws) (co_ChainID i) \<noteq> None
         then throw (Wrap (Sentinel ''ErrDelegationRewardsClaimingInvalid'')
                ''cannot claim rewards during delegation output transition'')
         else andthen (asDelegation (co_Output i)) (\<lambda>current.
              andthen (derefG next1) (\<lambda>n. delegationStateChangeValid D api ws current n)))
     | TransDestroy \<Rightarrow>
         andthen (derefG input) (\<lambda>i.
         if map_of (ws_Rewards ws) (co_ChainID i) = None
         then throw (Wrap (Sentinel ''ErrDelegationRewardInputMissing'')
                ''cannot destroy delegation output without a rewards input'')
         else Inr ()))"

section \<open>The dispatcher\<close>

text \<open>@\<open>ChainSTVF\<close> dispatches on the state that makes the transition: the input, or the next output when
  the chain is created.  An implicit account can only be an input.\<close>

definition nextAs ::
    "string \<Rightarrow> (ledger_output \<Rightarrow> 'x option) \<Rightarrow> ledger_output option \<Rightarrow> 'x option go" where
  "nextAs msg as1 next1 =
    (case next1 of
       None \<Rightarrow> Inr None
     | Some out \<Rightarrow> (case as1 out of Some x \<Rightarrow> Inr (Some x) | None \<Rightarrow> throw (Errorf msg)))"

definition ChainSTVF :: "'a ledger_deps_scheme \<Rightarrow> ledger_api \<Rightarrow> chain_stvf" where
  "ChainSTVF D api ws transType input next1 =
    andthen (if transType \<noteq> TransGenesis then andthen (derefG input) (\<lambda>i. Inr (co_Output i))
             else derefG next1) (\<lambda>transitionState.
    case transitionState of
      AccountO _ \<Rightarrow>
        andthen (nextAs ''can only state transition to another account output''
            (\<lambda>out. case out of AccountO a \<Rightarrow> Some a | _ \<Rightarrow> None) next1) (\<lambda>nextAccount.
        accountSTVF D api ws input transType nextAccount)
    | ImplicitAccountO b \<Rightarrow>
        andthen (nextAs ''can only state transition implicit account to an account output''
            (\<lambda>out. case out of AccountO a \<Rightarrow> Some a | _ \<Rightarrow> None) next1) (\<lambda>nextAccount.
        andthen (derefG input) (\<lambda>i.
        wrapE ''transition failed for implicit account with output ID %s''
          (implicitAccountSTVF D api ws (ImplicitAccountO b) (co_OutputID i) nextAccount transType)))
    | AnchorO _ \<Rightarrow>
        andthen (nextAs ''can only state transition to another anchor output''
            (\<lambda>out. case out of AnchorO a \<Rightarrow> Some a | _ \<Rightarrow> None) next1) (\<lambda>nextAnchor.
        anchorSTVF D ws input transType nextAnchor)
    | FoundryO _ \<Rightarrow>
        andthen (nextAs ''can only state transition to another foundry output''
            (\<lambda>out. case out of FoundryO f \<Rightarrow> Some f | _ \<Rightarrow> None) next1) (\<lambda>nextFoundry.
        foundrySTVF D ws input transType nextFoundry)
    | NFTO _ \<Rightarrow>
        andthen (nextAs ''can only state transition to another NFT output''
            (\<lambda>out. case out of NFTO n \<Rightarrow> Some n | _ \<Rightarrow> None) next1) (\<lambda>nextNFT.
        nftSTVF D ws input transType nextNFT)
    | DelegationO _ \<Rightarrow>
        andthen (nextAs ''can only state transition to another Delegation output''
            (\<lambda>out. case out of DelegationO d \<Rightarrow> Some d | _ \<Rightarrow> None) next1) (\<lambda>nextDelegation.
        delegationSTVF D api ws input transType nextDelegation)
    | BasicO _ \<Rightarrow> Inl (Panic ''invalid output type %v passed to Nova virtual machine''))"

end
