(* ===== verification/Nova_VM.thy ===== *)
theory Nova_VM
  imports Nova_STVF
begin

text \<open>
  The entry points of the Nova virtual machine, vm/nova/vm.go up to @\<open>Execute\<close>: the construction of the
  working set from a transaction and its resolved inputs, and the execution of the list of functions.
  The maps the code iterates over are association lists whose keys are distinct.
\<close>

section \<open>The working set\<close>

definition constructInput :: "ledger_output \<Rightarrow> ledger_output go" where
  "constructInput out =
    (case out of
       BasicO basicOutput \<Rightarrow>
         andthen (ucsMustSet (bo_UnlockConditions basicOutput)) (\<lambda>ucs1.
         Inr (case ucAddress ucs1 of
                Some a \<Rightarrow> if addrType a = 32 then ImplicitAccountO basicOutput else out
              | None \<Rightarrow> out))
     | _ \<Rightarrow> Inr out)"

definition constructInputSet :: "(bytes \<times> ledger_output) list \<Rightarrow> (bytes \<times> ledger_output) list go" where
  "constructInputSet inputSet =
    mapG (\<lambda>(outputID, out). andthen (constructInput out) (\<lambda>o1. Inr (outputID, o1))) inputSet"

text \<open>The loop over the inputs of the transaction: the index of every input ID and the inputs in order.\<close>

definition workingInputStep ::
    "(bytes \<times> ledger_output) list \<Rightarrow> (bytes \<Rightarrow> u16 option) \<times> ledger_output list \<Rightarrow> nat \<times> utxo_input
     \<Rightarrow> ((bytes \<Rightarrow> u16 option) \<times> ledger_output list) go" where
  "workingInputStep utxoInputsSet acc indexed =
    (case (acc, indexed) of ((inputIDToInputIndex, utxoInputs), (inputIndex, txInput)) \<Rightarrow>
     let txInputID = inOutputID txInput;
         inputIDToInputIndex = inputIDToInputIndex(txInputID \<mapsto> word_of_nat inputIndex)
     in case map_of utxoInputsSet txInputID of
          None \<Rightarrow> Inl (Panic ''UTXO for input %d should be supplied %s'')
        | Some input \<Rightarrow> Inr (inputIDToInputIndex, utxoInputs @ [input]))"

definition NewVMParamsWorkingSet ::
    "'a tx_deps_scheme \<Rightarrow> ledger_api \<Rightarrow> transaction \<Rightarrow> resolved_inputs \<Rightarrow> working_set go" where
  "NewVMParamsWorkingSet D api t resolvedInputs =
    andthen (constructInputSet (ri_InputSet resolvedInputs)) (\<lambda>utxoInputsSet.
    andthen (foldG (workingInputStep utxoInputsSet) (Map.empty, []) (List.enumerate 0 (te_Inputs t)))
      (\<lambda>(inputIDToInputIndex, utxoInputs).
    andthen (mustE (TransactionIDG D t)) (\<lambda>txID.
    andthen (ChainInputSet D utxoInputsSet) (\<lambda>inChains.
    andthen (OutputsChainOutputSet D (tx_Outputs t) txID) (\<lambda>outChains.
    andthen (TotalManaIn D (api_ManaDecayProvider api) (api_StorageScoreStructure api) (te_CreationSlot t)
        utxoInputsSet (ri_RewardsInputSet resolvedInputs)) (\<lambda>totalManaIn.
    andthen (TotalManaOut D (tx_Outputs t) (te_Allotments t)) (\<lambda>totalManaOut.
    Inr \<lparr>ws_UnlockedAddrs = Map.empty, ws_UTXOInputs = utxoInputs, ws_UTXOInputsSet = utxoInputsSet,
         ws_InputIDToInputIndex = inputIDToInputIndex, ws_Tx = t, ws_InChains = inChains,
         ws_InNativeTokens = [], ws_OutChains = outChains, ws_OutNativeTokens = [],
         ws_BIC = ri_BlockIssuanceCreditInputSet resolvedInputs,
         ws_Commitment = ri_CommitmentInput resolvedInputs,
         ws_Rewards = ri_RewardsInputSet resolvedInputs,
         ws_TotalManaIn = totalManaIn, ws_TotalManaOut = totalManaOut\<rparr>)))))))"

section \<open>Execution\<close>

definition execList :: "'a ledger_deps_scheme \<Rightarrow> ledger_api \<Rightarrow> exec_func list" where
  "execList D api =
    [ExecFuncTimelocks api,
     ExecFuncSenderUnlocked D,
     ExecFuncBalancedBaseTokens D,
     ExecFuncBalancedNativeTokens D,
     ExecFuncChainTransitions (ChainSTVF D api),
     ExecFuncBalancedMana,
     ExecFuncAtMostOneImplicitAccountCreationAddress]"

definition Execute ::
    "'a tx_deps_scheme \<Rightarrow> ledger_api \<Rightarrow> transaction \<Rightarrow> resolved_inputs \<Rightarrow> unlocked_addresses
     \<Rightarrow> exec_func list \<Rightarrow> ledger_output list go" where
  "Execute D api t resolvedInputs unlockedAddrs execFunctions =
    andthen (wrapE ''failed to create working set'' (NewVMParamsWorkingSet D api t resolvedInputs)) (\<lambda>ws.
    let ws = ws\<lparr>ws_UnlockedAddrs := unlockedAddrs\<rparr>;
        execFunctions = (if execFunctions = [] then execList D api else execFunctions)
    in andthen (wrapE ''failed to execute transaction'' (RunVMFuncs execFunctions ws)) (\<lambda>_.
       Inr (tx_Outputs t)))"

section \<open>Lemmas on the working set\<close>

text \<open>Wrapping a basic output as an implicit account changes nothing that is summed up.\<close>

lemma constructInput_cases:
  assumes "constructInput out = Inr out'"
  obtains "out' = out" | b where "out = BasicO b" "out' = ImplicitAccountO b"
  using assms by (cases out) (auto simp: constructInput_def andthen_eq_Inr split: option.splits if_splits)

lemma constructInput_same:
  assumes "constructInput out = Inr out'"
  shows "outAmount out' = outAmount out" "outStoredMana out' = outStoredMana out"
    "tokenAmount i out' = tokenAmount i out" "inputMana D p r slot (j, out') = inputMana D p r slot (j, out)"
    "outUCSet out' = outUCSet out"
proof -
  have "out' = out \<or> (\<exists>b. out = BasicO b \<and> out' = ImplicitAccountO b)"
    using assms by (cases rule: constructInput_cases) auto
  then consider "out' = out" | b where "out = BasicO b" "out' = ImplicitAccountO b" by blast
  note same = this
  show "outAmount out' = outAmount out" "outStoredMana out' = outStoredMana out"
    by (cases rule: same; simp)+
  show "outUCSet out' = outUCSet out" by (cases rule: same) (simp_all add: outUCSet_def)
  have f: "outFeatSet out' = outFeatSet out" by (cases rule: same) (simp_all add: outFeatSet_def)
  show "tokenAmount i out' = tokenAmount i out" by (simp add: tokenAmount_def tokenOf_def f)
  have "outStorageScore D r out' = outStorageScore D r out" by (cases rule: same) (simp_all add: outStorageScore_def)
  then have "PotentialMana D p r out' (CreationSlot j) slot = PotentialMana D p r out (CreationSlot j) slot"
    by (cases rule: same) (simp_all add: PotentialMana_def MinDeposit_def)
  then show "inputMana D p r slot (j, out') = inputMana D p r slot (j, out)"
    by (cases rule: same) (simp_all add: inputMana_def cong: sum.case_cong)
qed

lemma constructInputSet_Inr:
  assumes "constructInputSet xs = Inr ys"
  shows "map fst ys = map fst xs" and "\<And>i. rel_option (\<lambda>x y. constructInput x = Inr y) (map_of xs i) (map_of ys i)"
    and "list_all2 (\<lambda>x y. fst y = fst x \<and> constructInput (snd x) = Inr (snd y)) xs ys"
proof -
  have l: "list_all2 (\<lambda>x y. fst y = fst x \<and> constructInput (snd x) = Inr (snd y)) xs ys"
    using assms unfolding constructInputSet_def mapG_iff
    by (rule list_all2_mono) (auto simp: andthen_eq_Inr)
  from l show "map fst ys = map fst xs"
    by (induction rule: list_all2_induct) auto
  from l show "rel_option (\<lambda>x y. constructInput x = Inr y) (map_of xs i) (map_of ys i)" for i
    by (induction rule: list_all2_induct) auto
  show "list_all2 (\<lambda>x y. fst y = fst x \<and> constructInput (snd x) = Inr (snd y)) xs ys" by (rule l)
qed

lemma constructInputSet_sum:
  assumes "constructInputSet xs = Inr ys" "\<And>i x y. constructInput x = Inr y \<Longrightarrow> f (i, y) = f (i, x)"
  shows "map f ys = map f xs"
  using constructInputSet_Inr(3) [OF assms(1)]
proof (induction rule: list_all2_induct)
  case (Cons x xs y ys)
  then show ?case using assms(2) [of "snd x" "snd y" "fst x"] by (metis list.map(2) prod.collapse)
qed simp

lemma workingInputStep_Inr:
  "workingInputStep s (m, us) x = Inr (m', us') \<longleftrightarrow>
    (\<exists>v. map_of s (inOutputID (snd x)) = Some v \<and> us' = us @ [v]
       \<and> m' = m(inOutputID (snd x) \<mapsto> word_of_nat (fst x)))"
  by (cases x) (auto simp: workingInputStep_def Let_def split: option.splits)

lemma workingInputs_Inr:
  assumes "foldG (workingInputStep s) (m, us) xs = Inr (m', us')"
  shows "\<exists>vs. us' = us @ vs \<and> list_all2 (\<lambda>x v. map_of s (inOutputID (snd x)) = Some v) xs vs"
  using assms
proof (induction xs arbitrary: m us)
  case (Cons x xs)
  then obtain v m1 where v: "map_of s (inOutputID (snd x)) = Some v"
      "foldG (workingInputStep s) (m1, us @ [v]) xs = Inr (m', us')"
    by (auto simp: workingInputStep_Inr andthen_eq_Inr)
  from Cons.IH [OF v(2)] obtain vs where
      "us' = (us @ [v]) @ vs" "list_all2 (\<lambda>x v. map_of s (inOutputID (snd x)) = Some v) xs vs" by blast
  with v(1) show ?case by (intro exI [of _ "v # vs"]) simp
qed simp

text \<open>What the parts of a new working set are.\<close>

lemma NewVMParamsWorkingSet_Inr:
  assumes "NewVMParamsWorkingSet D api t ri = Inr ws"
  shows "constructInputSet (ri_InputSet ri) = Inr (ws_UTXOInputsSet ws)"
    and "list_all2 (\<lambda>i v. map_of (ws_UTXOInputsSet ws) (inOutputID i) = Some v) (te_Inputs t) (ws_UTXOInputs ws)"
    and "ws_Tx ws = t" "ws_Commitment ws = ri_CommitmentInput ri" "ws_Rewards ws = ri_RewardsInputSet ri"
    and "ws_BIC ws = ri_BlockIssuanceCreditInputSet ri"
    and "ChainInputSet D (ws_UTXOInputsSet ws) = Inr (ws_InChains ws)"
    and "\<exists>txID. TransactionIDG D t = Inr txID \<and> OutputsChainOutputSet D (tx_Outputs t) txID = Inr (ws_OutChains ws)"
    and "TotalManaIn D (api_ManaDecayProvider api) (api_StorageScoreStructure api) (te_CreationSlot t)
      (ws_UTXOInputsSet ws) (ri_RewardsInputSet ri) = Inr (ws_TotalManaIn ws)"
    and "TotalManaOut D (tx_Outputs t) (te_Allotments t) = Inr (ws_TotalManaOut ws)"
proof -
  obtain ins m us txID inC outC a b where *: "constructInputSet (ri_InputSet ri) = Inr ins"
      "foldG (workingInputStep ins) (Map.empty, []) (List.enumerate 0 (te_Inputs t)) = Inr (m, us)"
      "TransactionIDG D t = Inr txID" "ChainInputSet D ins = Inr inC"
      "OutputsChainOutputSet D (tx_Outputs t) txID = Inr outC"
      "TotalManaIn D (api_ManaDecayProvider api) (api_StorageScoreStructure api) (te_CreationSlot t)
        ins (ri_RewardsInputSet ri) = Inr a"
      "TotalManaOut D (tx_Outputs t) (te_Allotments t) = Inr b"
    and ws: "ws = \<lparr>ws_UnlockedAddrs = Map.empty, ws_UTXOInputs = us, ws_UTXOInputsSet = ins,
         ws_InputIDToInputIndex = m, ws_Tx = t, ws_InChains = inC,
         ws_InNativeTokens = [], ws_OutChains = outC, ws_OutNativeTokens = [],
         ws_BIC = ri_BlockIssuanceCreditInputSet ri, ws_Commitment = ri_CommitmentInput ri,
         ws_Rewards = ri_RewardsInputSet ri, ws_TotalManaIn = a, ws_TotalManaOut = b\<rparr>"
    using assms by (auto simp: NewVMParamsWorkingSet_def andthen_eq_Inr)
  obtain vs where "us = vs"
      "list_all2 (\<lambda>x v. map_of ins (inOutputID (snd x)) = Some v) (List.enumerate 0 (te_Inputs t)) vs"
    using workingInputs_Inr [OF *(2)] by auto
  then have "list_all2 (\<lambda>i v. map_of ins (inOutputID i) = Some v) (map snd (List.enumerate 0 (te_Inputs t))) us"
    by (simp add: list_all2_map1 del: map_snd_enumerate)
  then show "list_all2 (\<lambda>i v. map_of (ws_UTXOInputsSet ws) (inOutputID i) = Some v) (te_Inputs t) (ws_UTXOInputs ws)"
    by (simp add: ws)
  show "constructInputSet (ri_InputSet ri) = Inr (ws_UTXOInputsSet ws)"
    "ws_Tx ws = t" "ws_Commitment ws = ri_CommitmentInput ri" "ws_Rewards ws = ri_RewardsInputSet ri"
    "ws_BIC ws = ri_BlockIssuanceCreditInputSet ri"
    "ChainInputSet D (ws_UTXOInputsSet ws) = Inr (ws_InChains ws)"
    "\<exists>txID. TransactionIDG D t = Inr txID \<and> OutputsChainOutputSet D (tx_Outputs t) txID = Inr (ws_OutChains ws)"
    "TotalManaIn D (api_ManaDecayProvider api) (api_StorageScoreStructure api) (te_CreationSlot t)
      (ws_UTXOInputsSet ws) (ri_RewardsInputSet ri) = Inr (ws_TotalManaIn ws)"
    "TotalManaOut D (tx_Outputs t) (te_Allotments t) = Inr (ws_TotalManaOut ws)"
    using * by (simp_all add: ws)
qed


text \<open>What an execution of the whole list has checked: @\<open>ws1\<close> is the working set with the unlocked
  addresses and @\<open>ws2\<close> the one after the native token sums were written to it.\<close>

lemma Execute_Inr:
  assumes "Execute D api t ri ua [] = Inr outs"
  obtains ws ws1 ws2 inS outS where "NewVMParamsWorkingSet D api t ri = Inr ws" "outs = tx_Outputs t"
    "ws1 = ws\<lparr>ws_UnlockedAddrs := ua\<rparr>"
    "ws2 = ws1\<lparr>ws_InNativeTokens := inS, ws_OutNativeTokens := outS\<rparr>"
    "\<forall>x \<in> set (ws_UTXOInputsSet ws). timelockExpired api (ws_Commitment ws) x = Inr ()"
    "\<forall>x \<in> set (tx_Outputs (ws_Tx ws)). senderUnlocked D ua x = Inr ()"
    "ExecFuncBalancedBaseTokens D ws1 = Inr ws1"
    "ExecFuncBalancedNativeTokens D ws1 = Inr ws2"
    "NativeTokenSum D (ws_UTXOInputs ws) = Inr inS" "NativeTokenSum D (tx_Outputs (ws_Tx ws)) = Inr outS"
    "chainTransitions (ChainSTVF D api) ws2 = Inr ()" "balancedMana ws = Inr ()"
    "\<exists>b. foldG implicitCreationStep False (ws_UTXOInputs ws) = Inr b"
proof -
  obtain ws wsE where n: "NewVMParamsWorkingSet D api t ri = Inr ws" and o: "outs = tx_Outputs t"
    and r: "RunVMFuncs (execList D api) (ws\<lparr>ws_UnlockedAddrs := ua\<rparr>) = Inr wsE"
    using assms by (auto simp: Execute_def andthen_eq_Inr Let_def)
  let ?ws1 = "ws\<lparr>ws_UnlockedAddrs := ua\<rparr>"
  obtain ws2 where c: "\<forall>x \<in> set (ws_UTXOInputsSet ws). timelockExpired api (ws_Commitment ws) x = Inr ()"
      "\<forall>x \<in> set (tx_Outputs (ws_Tx ws)). senderUnlocked D ua x = Inr ()"
      "ExecFuncBalancedBaseTokens D ?ws1 = Inr ?ws1" "ExecFuncBalancedNativeTokens D ?ws1 = Inr ws2"
      "chainTransitions (ChainSTVF D api) ws2 = Inr ()" "balancedMana ws2 = Inr ()"
      "\<exists>b. foldG implicitCreationStep False (ws_UTXOInputs ws2) = Inr b"
    using r by (auto simp: execList_def RunVMFuncs_Inr ExecFuncTimelocks_def ExecFuncSenderUnlocked_def
        ExecFuncBalancedBaseTokens_def ExecFuncChainTransitions_def ExecFuncBalancedMana_def
        ExecFuncAtMostOneImplicitAccountCreationAddress_def check_Inr allG_iff andthen_eq_Inr)
  from c(4) obtain inS outS where s: "NativeTokenSum D (ws_UTXOInputs ws) = Inr inS"
      "NativeTokenSum D (tx_Outputs (ws_Tx ws)) = Inr outS"
      "ws2 = ?ws1\<lparr>ws_InNativeTokens := inS, ws_OutNativeTokens := outS\<rparr>"
    by (auto simp: ExecFuncBalancedNativeTokens_def Let_def andthen_eq_Inr)
  have "balancedMana ws = Inr ()" using c(6) by (simp add: s(3) balancedMana_iff)
  with that [OF n o refl s(3) c(1) c(2) c(3) c(4) s(1) s(2) c(5)] c(7) show ?thesis by (simp add: s(3))
qed

end
