(* ===== verification/Nova_Ledger.thy ===== *)
theory Nova_Ledger
  imports Nova_VM
begin

text \<open>
  What the execution of a transaction guarantees to the ledger, proved from the execution functions and
  the state transition functions together: nothing is created, every lock is respected, every chain made
  a valid transition.
\<close>

section \<open>The outputs a transaction spends\<close>

text \<open>The caller resolves exactly the inputs of the transaction, each one once.\<close>

definition resolves :: "transaction \<Rightarrow> resolved_inputs \<Rightarrow> bool" where
  "resolves t ri \<longleftrightarrow> distinct (map inOutputID (te_Inputs t)) \<and> distinct (map fst (ri_InputSet ri))
     \<and> set (map inOutputID (te_Inputs t)) = set (map fst (ri_InputSet ri))"

definition spent :: "transaction \<Rightarrow> resolved_inputs \<Rightarrow> (bytes \<times> ledger_output) list" where
  "spent t ri = map (\<lambda>i. (inOutputID i, the (map_of (ri_InputSet ri) (inOutputID i)))) (te_Inputs t)"

lemma spent_mset:
  assumes "resolves t ri"
  shows "mset (spent t ri) = mset (ri_InputSet ri)"
proof -
  have d: "distinct (map fst (ri_InputSet ri))" and k: "set (map inOutputID (te_Inputs t)) = set (map fst (ri_InputSet ri))"
    using assms by (auto simp: resolves_def)
  have "distinct (map fst (spent t ri))"
    using assms by (simp add: spent_def resolves_def comp_def)
  then have "distinct (spent t ri)" by (simp add: distinct_map)
  moreover have "distinct (ri_InputSet ri)" using d by (simp add: distinct_map)
  moreover have "set (spent t ri) = set (ri_InputSet ri)"
  proof (rule set_eqI)
    fix x :: "bytes \<times> ledger_output"
    obtain i out where x: "x = (i, out)" by (cases x)
    have "x \<in> set (spent t ri) \<longleftrightarrow> i \<in> set (map inOutputID (te_Inputs t)) \<and> out = the (map_of (ri_InputSet ri) i)"
      by (auto simp: spent_def x)
    also have "\<dots> \<longleftrightarrow> x \<in> set (ri_InputSet ri)"
    proof -
      have "(i \<in> set (map fst (ri_InputSet ri)) \<and> out = the (map_of (ri_InputSet ri) i)) \<longleftrightarrow>
          map_of (ri_InputSet ri) i = Some out"
        by (cases "map_of (ri_InputSet ri) i") (auto simp: map_of_eq_None_iff dest: map_of_SomeD
            intro: rev_image_eqI)
      then show ?thesis unfolding k x using d by simp
    qed
    finally show "x \<in> set (spent t ri) \<longleftrightarrow> x \<in> set (ri_InputSet ri)" .
  qed
  ultimately show ?thesis by (simp add: set_eq_iff_mset_eq_distinct)
qed

text \<open>Sums over the working set are sums over the spent outputs.\<close>

lemma spent_sum:
  assumes "resolves t ri" "constructInputSet (ri_InputSet ri) = Inr ins"
    "\<And>i x y. constructInput x = Inr y \<Longrightarrow> f (i, y) = f (i, x)"
  shows "(\<Sum>x\<leftarrow>ins. f x) = (\<Sum>x\<leftarrow>spent t ri. (f x :: 'b::comm_monoid_add))"
proof -
  have "map f ins = map f (ri_InputSet ri)"
    by (rule constructInputSet_sum [OF assms(2)]) (rule assms(3))
  then show ?thesis using sum_list_permuted [OF spent_mset [OF assms(1)], of f] by simp
qed

lemma spent_ball:
  assumes "resolves t ri" "constructInputSet (ri_InputSet ri) = Inr ins"
    "\<And>i x y. constructInput x = Inr y \<Longrightarrow> P (i, y) = P (i, x)"
  shows "(\<forall>x \<in> set ins. P x) = (\<forall>x \<in> set (spent t ri). P x)"
proof -
  have "map P ins = map P (ri_InputSet ri)"
    by (rule constructInputSet_sum [OF assms(2)]) (rule assms(3))
  then have "P ` set ins = P ` set (ri_InputSet ri)" by (metis set_map)
  moreover have "set (ri_InputSet ri) = set (spent t ri)"
    using spent_mset [OF assms(1)] by (metis set_mset_mset)
  ultimately have i: "P ` set ins = P ` set (spent t ri)" by simp
  have "(\<forall>x \<in> S. P x) \<longleftrightarrow> False \<notin> P ` S" for S by auto
  then show ?thesis by (simp only: i)
qed

lemma spent_inputs_sum:
  assumes "constructInputSet (ri_InputSet ri) = Inr ins"
    "list_all2 (\<lambda>i v. map_of ins (inOutputID i) = Some v) (te_Inputs t) us"
    "\<And>x y. constructInput x = Inr y \<Longrightarrow> f y = f x"
  shows "(\<Sum>x\<leftarrow>us. f x) = (\<Sum>x\<leftarrow>spent t ri. (f (snd x) :: 'b::comm_monoid_add))"
proof -
  have "f v = f (the (map_of (ri_InputSet ri) (inOutputID i)))" if "map_of ins (inOutputID i) = Some v" for i v
    using constructInputSet_Inr(2) [OF assms(1), of "inOutputID i"] that assms(3)
    by (auto simp: option_rel_Some2)
  with assms(2) have "map f us = map (\<lambda>i. f (the (map_of (ri_InputSet ri) (inOutputID i)))) (te_Inputs t)"
    by (induction rule: list_all2_induct) auto
  then show ?thesis by (simp add: spent_def comp_def)
qed

section \<open>Conservation\<close>

lemma execute_base_tokens:
  assumes "Execute D api t ri ua [] = Inr outs" "resolves t ri"
    and "(\<Sum>x\<leftarrow>spent t ri. unat (outAmount (snd x))) < 2 ^ 64" "(\<Sum>x\<leftarrow>outs. unat (outAmount x)) < 2 ^ 64"
  shows "(\<Sum>x\<leftarrow>outs. unat (outAmount x)) = (\<Sum>x\<leftarrow>spent t ri. unat (outAmount (snd x)))"
proof -
  from assms(1) obtain ws where n: "NewVMParamsWorkingSet D api t ri = Inr ws" and o: "outs = tx_Outputs t"
    and b: "ExecFuncBalancedBaseTokens D (ws\<lparr>ws_UnlockedAddrs := ua\<rparr>) = Inr (ws\<lparr>ws_UnlockedAddrs := ua\<rparr>)"
    by (rule Execute_Inr) blast
  note w = NewVMParamsWorkingSet_Inr [OF n]
  have "(\<Sum>x\<leftarrow>ws_UTXOInputsSet ws. outAmount (snd x)) = (\<Sum>x\<leftarrow>outs. outAmount x)"
    using balancedBaseTokens_Inr [of D "ws\<lparr>ws_UnlockedAddrs := ua\<rparr>" "[]"] b
    by (simp add: ExecFuncBalancedBaseTokens_def check_Inr w(3) o)
  moreover have "(\<Sum>x\<leftarrow>ws_UTXOInputsSet ws. outAmount (snd x)) = (\<Sum>x\<leftarrow>spent t ri. outAmount (snd x))"
    by (rule spent_sum [OF assms(2) w(1)]) (simp add: constructInput_same)
  ultimately have "(\<Sum>x\<leftarrow>outs. outAmount x) = (\<Sum>x\<leftarrow>spent t ri. outAmount (snd x))" by simp
  then show ?thesis
    using unat_sum_list_small [of "\<lambda>x. outAmount (snd x)" "spent t ri"] unat_sum_list_small [of outAmount outs]
      assms(3,4) by simp
qed

text \<open>The mana on the input side of a transaction.\<close>

definition manaIn :: "'a tx_deps_scheme \<Rightarrow> ledger_api \<Rightarrow> transaction \<Rightarrow> resolved_inputs \<Rightarrow> nat" where
  "manaIn D api t ri =
    (\<Sum>x\<leftarrow>spent t ri. the (inputMana D (api_ManaDecayProvider api) (api_StorageScoreStructure api) (te_CreationSlot t) x))
    + (\<Sum>w\<leftarrow>ri_RewardsInputSet ri. unat (snd w))"

definition manaOut :: "transaction \<Rightarrow> nat" where
  "manaOut t = (\<Sum>x\<leftarrow>tx_Outputs t. unat (outStoredMana x)) + (\<Sum>a\<leftarrow>te_Allotments t. unat (al_Mana a))"

lemma working_mana:
  assumes "NewVMParamsWorkingSet D api t ri = Inr ws" "safemath64 D" "resolves t ri"
  shows "unat (ws_TotalManaIn ws) = manaIn D api t ri" "unat (ws_TotalManaOut ws) = manaOut t"
    "\<forall>x \<in> set (spent t ri). inputMana D (api_ManaDecayProvider api) (api_StorageScoreStructure api)
        (te_CreationSlot t) x \<noteq> None"
proof -
  note w = NewVMParamsWorkingSet_Inr [OF assms(1)]
  let ?m = "inputMana D (api_ManaDecayProvider api) (api_StorageScoreStructure api) (te_CreationSlot t)"
  have "(\<forall>x \<in> set (ws_UTXOInputsSet ws). ?m x \<noteq> None)
      \<and> unat (ws_TotalManaIn ws) = (\<Sum>x\<leftarrow>ws_UTXOInputsSet ws. the (?m x)) + (\<Sum>w\<leftarrow>ri_RewardsInputSet ri. unat (snd w))"
    using w(9) TotalManaIn_Inr [OF assms(2)] by blast
  moreover have "(\<Sum>x\<leftarrow>ws_UTXOInputsSet ws. the (?m x)) = (\<Sum>x\<leftarrow>spent t ri. the (?m x))"
    by (rule spent_sum [OF assms(3) w(1)]) (simp add: constructInput_same)
  moreover have "(\<forall>x \<in> set (ws_UTXOInputsSet ws). ?m x \<noteq> None) = (\<forall>x \<in> set (spent t ri). ?m x \<noteq> None)"
    by (rule spent_ball [OF assms(3) w(1)]) (simp add: constructInput_same)
  ultimately show "unat (ws_TotalManaIn ws) = manaIn D api t ri" "\<forall>x \<in> set (spent t ri). ?m x \<noteq> None"
    by (simp_all add: manaIn_def)
  show "unat (ws_TotalManaOut ws) = manaOut t"
    using w(10) by (simp add: TotalManaOut_Inr [OF assms(2)] manaOut_def)
qed

lemma execute_mana:
  assumes "Execute D api t ri ua [] = Inr outs" "resolves t ri" "safemath64 D"
  shows "manaOut t \<le> manaIn D api t ri"
    and "CannotBurnMana (te_Capabilities t) \<Longrightarrow> manaOut t = manaIn D api t ri"
    and "\<forall>x \<in> set (spent t ri). inputMana D (api_ManaDecayProvider api) (api_StorageScoreStructure api)
        (te_CreationSlot t) x \<noteq> None"
proof -
  from assms(1) obtain ws where n: "NewVMParamsWorkingSet D api t ri = Inr ws" and b: "balancedMana ws = Inr ()"
    by (rule Execute_Inr) blast
  note m = working_mana [OF n assms(3,2)]
  show "manaOut t \<le> manaIn D api t ri"
    "CannotBurnMana (te_Capabilities t) \<Longrightarrow> manaOut t = manaIn D api t ri"
    using b m(1,2) NewVMParamsWorkingSet_Inr(3) [OF n] by (auto simp: balancedMana_iff word_le_nat_alt)
  show "\<forall>x \<in> set (spent t ri). inputMana D (api_ManaDecayProvider api) (api_StorageScoreStructure api)
        (te_CreationSlot t) x \<noteq> None" by (rule m(3))
qed

lemma execute_native_tokens:
  assumes "Execute D api t ri ua [] = Inr outs"
    "TransactionIDG D t = Inr txID" "OutputsChainOutputSet D (tx_Outputs t) txID = Inr outChains"
    "map_of outChains (FoundryIDc i) = None"
  shows "(\<Sum>x\<leftarrow>outs. tokenAmount i x) \<le> (\<Sum>x\<leftarrow>spent t ri. tokenAmount i (snd x))
    \<and> (CannotBurnNativeTokens (te_Capabilities t) \<longrightarrow>
        (\<Sum>x\<leftarrow>outs. tokenAmount i x) = (\<Sum>x\<leftarrow>spent t ri. tokenAmount i (snd x)))"
proof -
  from assms(1) obtain ws ws2 where n: "NewVMParamsWorkingSet D api t ri = Inr ws" and o: "outs = tx_Outputs t"
    and b: "ExecFuncBalancedNativeTokens D (ws\<lparr>ws_UnlockedAddrs := ua\<rparr>) = Inr ws2"
    by (rule Execute_Inr) blast
  note w = NewVMParamsWorkingSet_Inr [OF n]
  have "(\<Sum>x\<leftarrow>ws_UTXOInputs ws. tokenAmount i x) = (\<Sum>x\<leftarrow>spent t ri. tokenAmount i (snd x))"
    by (rule spent_inputs_sum [OF w(1,2)]) (simp add: constructInput_same)
  moreover have "ws_OutChains ws = outChains" using w(8) assms(2,3) by simp
  ultimately show ?thesis
    using native_tokens_Inr [OF b, of i] assms(4) by (simp add: o w(3))
qed

text \<open>C1: an executed transaction conserves value.  Its outputs hold exactly the base tokens of the outputs
  it spends; the mana in its outputs and allotments is at most the decayed stored and potential mana of
  the spent outputs and the rewards, and exactly that when mana may not be burned; and no native token
  whose foundry is not in the transaction is created.\<close>

theorem execute_conserves:
  assumes "Execute D api t ri ua [] = Inr outs" "resolves t ri" "safemath64 D"
    and "(\<Sum>x\<leftarrow>spent t ri. unat (outAmount (snd x))) < 2 ^ 64" "(\<Sum>x\<leftarrow>outs. unat (outAmount x)) < 2 ^ 64"
    and "TransactionIDG D t = Inr txID" "OutputsChainOutputSet D (tx_Outputs t) txID = Inr outChains"
  shows "(\<Sum>x\<leftarrow>outs. unat (outAmount x)) = (\<Sum>x\<leftarrow>spent t ri. unat (outAmount (snd x)))
    \<and> manaOut t \<le> manaIn D api t ri
    \<and> (CannotBurnMana (te_Capabilities t) \<longrightarrow> manaOut t = manaIn D api t ri)
    \<and> (\<forall>i. map_of outChains (FoundryIDc i) = None \<longrightarrow>
         (\<Sum>x\<leftarrow>outs. tokenAmount i x) \<le> (\<Sum>x\<leftarrow>spent t ri. tokenAmount i (snd x)))"
  using execute_base_tokens [OF assms(1,2,4,5)] execute_mana(1,2) [OF assms(1-3)]
    execute_native_tokens [OF assms(1,6,7)] by blast

section \<open>Foundries and their tokens\<close>

text \<open>A chain filed under a foundry ID is the foundry with that ID, on both sides.\<close>

lemma inputChainID_foundry:
  "inputChainID D c i = FoundryIDc f \<longleftrightarrow> c = FoundryIDc f"
  by (cases c) (auto simp: inputChainID_def chainFromOutputID_def)

lemma outChainID_foundry:
  "outChainID D out = Inr (Some (FoundryIDc i)) \<longleftrightarrow> (\<exists>f. out = FoundryO f \<and> foundryID D f = Inr i)"
  by (cases out) (auto simp: outChainID_def andthen_eq_Inr mustE_eq_Inr)

lemma chain_inputs_origin:
  assumes "ChainInputSet D xs = Inr cs" "map_of cs c = Some co"
  shows "\<exists>d. outChainID D (co_Output co) = Inr (Some d) \<and> inputChainID D d (co_OutputID co) = c
    \<and> co_ChainID co = c \<and> (co_OutputID co, co_Output co) \<in> set xs"
proof -
  let ?P = "\<lambda>ys cs. \<forall>c co. map_of cs c = Some co \<longrightarrow> (\<exists>d. outChainID D (co_Output co) = Inr (Some d)
      \<and> inputChainID D d (co_OutputID co) = c \<and> co_ChainID co = c \<and> (co_OutputID co, co_Output co) \<in> set ys)"
  have "?P xs cs"
  proof (rule foldG_prefix_invariant [where P = ?P])
    show "foldG (chainInputSetStep D) [] xs = Inr cs" using assms(1) by (simp add: ChainInputSet_def)
    fix ys :: "(bytes \<times> ledger_output) list" and x s s'
    assume P: "?P ys s" and st: "chainInputSetStep D s x = Inr s'"
    obtain i out where x: "x = (i, out)" by (cases x)
    obtain cid where cid: "outChainID D out = Inr cid"
      using st by (auto simp: chainInputSetStep_def x andthen_eq_Inr)
    show "?P (ys @ [x]) s'"
    proof (cases cid)
      case None
      with st cid P show ?thesis by (force simp: chainInputSetStep_def x)
    next
      case (Some d)
      with st cid have "s' = AList.update (inputChainID D d i)
          \<lparr>co_ChainID = inputChainID D d i, co_OutputID = i, co_Output = out\<rparr> s"
        by (simp add: chainInputSetStep_def x Let_def split: if_splits)
      with P cid Some show ?thesis by (auto simp: update_conv' x split: if_splits)
    qed
  qed simp
  with assms(2) show ?thesis by blast
qed

lemma chain_outputs_origin:
  assumes "OutputsChainOutputSet D outs txID = Inr cs" "map_of cs c = Some out"
  shows "\<exists>d n. n < length outs \<and> outs ! n = out \<and> outChainID D out = Inr (Some d)
    \<and> inputChainID D d (OutputIDFromTransactionIDAndIndex txID (word_of_nat n)) = c"
proof -
  let ?P = "\<lambda>cs. \<forall>c out. map_of cs c = Some out \<longrightarrow> (\<exists>d n. n < length outs \<and> outs ! n = out
      \<and> outChainID D out = Inr (Some d)
      \<and> inputChainID D d (OutputIDFromTransactionIDAndIndex txID (word_of_nat n)) = c)"
  have "?P cs"
  proof (rule foldG_invariant [where P = ?P])
    show "foldG (chainSetStep D txID) [] (List.enumerate 0 outs) = Inr cs"
      using assms(1) by (simp add: OutputsChainOutputSet_def)
    fix s x s'
    assume x: "x \<in> set (List.enumerate 0 outs)" and P: "?P s" and st: "chainSetStep D txID s x = Inr s'"
    obtain n out where n1: "x = (n, out)" by (rule prod.exhaust)
    with x have n: "x = (n, out)" "n < length outs" "outs ! n = out" by (simp_all add: in_set_enumerate_eq)
    obtain cid where cid: "outChainID D out = Inr cid"
      using st by (auto simp: chainSetStep_def n andthen_eq_Inr)
    show "?P s'"
    proof (cases cid)
      case None
      with st cid P show ?thesis by (simp add: chainSetStep_def n)
    next
      case (Some d)
      with st cid have "s' = AList.update (inputChainID D d
          (OutputIDFromTransactionIDAndIndex txID (word_of_nat n))) out s"
        by (simp add: chainSetStep_def n Let_def inputChainID_def split: if_splits)
      with P cid Some n show ?thesis by (auto simp: update_conv')
    qed
  qed simp
  with assms(2) show ?thesis by blast
qed

lemma chain_foundries:
  "ChainInputSet D xs = Inr cs \<Longrightarrow> map_of cs (FoundryIDc i) = Some co \<Longrightarrow>
    \<exists>f. co_Output co = FoundryO f \<and> foundryID D f = Inr i"
  "OutputsChainOutputSet D outs txID = Inr os \<Longrightarrow> map_of os (FoundryIDc i) = Some out \<Longrightarrow>
    \<exists>f. out = FoundryO f \<and> foundryID D f = Inr i"
  using chain_inputs_origin [of D xs cs "FoundryIDc i" co] chain_outputs_origin [of D outs txID os "FoundryIDc i" out]
  by (auto simp: inputChainID_foundry outChainID_foundry)

text \<open>Every chain of an executed transaction made a valid transition, with the token sums in place.\<close>

lemma chainTransitions_Inr:
  assumes "chainTransitions stvf ws = Inr ()"
  shows "map_of (ws_InChains ws) c = Some co \<Longrightarrow> map_of (ws_OutChains ws) c = Some nx \<Longrightarrow>
      stvf ws TransStateChange (Some co) (Some nx) = Inr ()"
    and "map_of (ws_InChains ws) c = Some co \<Longrightarrow> map_of (ws_OutChains ws) c = None \<Longrightarrow>
      stvf ws TransDestroy (Some co) None = Inr ()"
    and "map_of (ws_InChains ws) c = None \<Longrightarrow> map_of (ws_OutChains ws) c = Some nx \<Longrightarrow>
      stvf ws TransGenesis None (Some nx) = Inr ()"
  using assms by (fastforce simp: chainTransitions_def andthen_eq_Inr allG_iff dest: map_of_SomeD)+

text \<open>The working set in which the transitions of an executed transaction were checked.\<close>

definition withSums :: "unlocked_addresses \<Rightarrow> working_set \<Rightarrow> working_set \<Rightarrow> bool" where
  "withSums ua ws ws2 \<longleftrightarrow> (\<exists>inS outS. ws2 = ws\<lparr>ws_UnlockedAddrs := ua, ws_InNativeTokens := inS,
       ws_OutNativeTokens := outS\<rparr>
     \<and> (\<forall>i. ValueOrBigInt0 inS i = (\<Sum>x\<leftarrow>ws_UTXOInputs ws. tokenAmount i x))
     \<and> (\<forall>i. ValueOrBigInt0 outS i = (\<Sum>x\<leftarrow>tx_Outputs (ws_Tx ws). tokenAmount i x)))"

lemma execute_transitions:
  assumes "Execute D api t ri ua [] = Inr outs" "NewVMParamsWorkingSet D api t ri = Inr ws"
  obtains ws2 where "withSums ua ws ws2" "chainTransitions (ChainSTVF D api) ws2 = Inr ()"
proof -
  from assms(1) obtain ws' inS outS where n: "NewVMParamsWorkingSet D api t ri = Inr ws'"
    and s: "NativeTokenSum D (ws_UTXOInputs ws') = Inr inS" "NativeTokenSum D (tx_Outputs (ws_Tx ws')) = Inr outS"
    and c: "chainTransitions (ChainSTVF D api)
      (ws'\<lparr>ws_UnlockedAddrs := ua\<rparr>\<lparr>ws_InNativeTokens := inS, ws_OutNativeTokens := outS\<rparr>) = Inr ()"
    by (rule Execute_Inr) blast
  have "ws' = ws" using n assms(2) by simp
  with NativeTokenSum_Inr(1) [OF s(1)] NativeTokenSum_Inr(1) [OF s(2)] c show ?thesis
    by (intro that) (auto simp: withSums_def)
qed

lemma foundry_transitions:
  "ChainSTVF D api ws TransStateChange (Some co) (Some nx) = Inr () \<Longrightarrow> co_Output co = FoundryO f \<Longrightarrow>
    foundryID D f = Inr i \<Longrightarrow>
    \<exists>g. nx = FoundryO g \<and> schemeStateTransition (fo_TokenScheme f) TransStateChange (Some (fo_TokenScheme g))
      (ValueOrBigInt0 (ws_InNativeTokens ws) i) (ValueOrBigInt0 (ws_OutNativeTokens ws) i) = Inr ()"
  "ChainSTVF D api ws TransDestroy (Some co) None = Inr () \<Longrightarrow> co_Output co = FoundryO f \<Longrightarrow>
    foundryID D f = Inr i \<Longrightarrow>
    schemeStateTransition (fo_TokenScheme f) TransDestroy None
      (ValueOrBigInt0 (ws_InNativeTokens ws) i) (ValueOrBigInt0 (ws_OutNativeTokens ws) i) = Inr ()"
  "ChainSTVF D api ws TransGenesis None (Some nx) = Inr () \<Longrightarrow> nx = FoundryO f \<Longrightarrow>
    foundryID D f = Inr i \<Longrightarrow>
    schemeStateTransition (fo_TokenScheme f) TransGenesis None 0 (ValueOrBigInt0 (ws_OutNativeTokens ws) i) = Inr ()"
  by (auto simp: ChainSTVF_def derefG_def nextAs_def foundrySTVF_def Let_def andthen_eq_Inr asFoundry_def
      foundryStateChangeValid_def foundryDestructionValid_def foundryGenesisValid_def if_throw_eq_Inr
      split: ledger_output.splits if_splits)

section \<open>A transaction that moves one basic output of the same slot\<close>

definition demo_id :: bytes where
  "demo_id = OutputIDFromTransactionIDAndIndex (replicate 32 1 @ le32 20) 0"

definition demo_move :: "ledger_output \<Rightarrow> transaction" where
  "demo_move out = (demo_tx [out])\<lparr>te_Inputs := [\<lparr>in_TransactionID = replicate 32 1 @ le32 20, in_Index = 0\<rparr>]\<rparr>"

definition demo_inputs :: "ledger_output \<Rightarrow> resolved_inputs" where
  "demo_inputs out = \<lparr>ri_InputSet = [(demo_id, out)], ri_BlockIssuanceCreditInputSet = Map.empty,
     ri_CommitmentInput = None, ri_RewardsInputSet = []\<rparr>"

lemma demo_inputs_commitment [simp]: "ri_CommitmentInput (demo_inputs out) = None"
  by (simp add: demo_inputs_def)

lemma demo_id_slot [simp]: "CreationSlot demo_id = 20"
  by (simp add: demo_id_def CreationSlot_def OutputIDFromTransactionIDAndIndex_def TransactionIDOf_def)

lemma demo_resolves [simp]: "resolves (demo_move out) (demo_inputs inp)"
  by (simp add: resolves_def demo_move_def demo_inputs_def inOutputID_def demo_id_def)

lemma demo_spent [simp]: "spent (demo_move out) (demo_inputs inp) = [(demo_id, inp)]"
  by (simp add: spent_def demo_move_def demo_inputs_def inOutputID_def demo_id_def)

lemma demo_decay [simp]: "DecayManaBySlots demo_mana v 20 20 = Inr v"
  by (simp add: DecayManaBySlots_def DecayManaByEpochs_def decay_def)

lemma demo_min_deposit: "\<exists>d. MinDeposit ref_tx_deps demo_structure demo_input = Inr d \<and> 5 < d"
  by (simp add: MinDeposit_def outStorageScore_def demo_input_def basicStorageScore_def basicSize_def
      ucsSize_def featsSize_def ucSize_def ucsStorageScore_def featsStorageScore_def ucStorageScore_def
      addrStorageScore_def dataScore_def demo_structure_def demo_score_def factorMultiply_def demo_owner_def
      ref_mul_def)

lemma demo_potential [simp]: "PotentialMana ref_tx_deps demo_mana demo_structure demo_input a b = Inr 0"
  using demo_min_deposit by (auto simp: PotentialMana_def ref_sub_def demo_input_def word_less_nat_alt)

lemma demo_input_mana [simp]:
  "inputMana ref_tx_deps demo_mana demo_structure 20 (demo_id, demo_input) = Some 7"
  by (simp add: inputMana_def) (simp add: demo_input_def)

lemma demo_api_sel [simp]:
  "api_TimeProvider demo_api = demo_clock" "api_ManaDecayProvider demo_api = demo_mana"
  "api_StorageScoreStructure demo_api = demo_structure"
  by (simp_all add: demo_api_def)

lemma demo_move_sel [simp]:
  "te_CreationSlot (demo_move out) = 20" "tx_Outputs (demo_move out) = [out]" "te_Allotments (demo_move out) = []"
  "te_Capabilities (demo_move out) = []"
  "te_Inputs (demo_move out) = [\<lparr>in_TransactionID = replicate 32 1 @ le32 20, in_Index = 0\<rparr>]"
  by (simp_all add: demo_move_def demo_tx_def)

lemma demo_move_id: "\<exists>i. TransactionIDG ref_tx_deps (demo_move out) = Inr i"
  by (simp add: TransactionIDG_def TransactionCommitment_def OutputCommitment_def HashValues_def demo_move_def demo_tx_def)

lemma demo_output_chains [simp]: "OutputsChainOutputSet ref_tx_deps [demo_input] i = Inr []"
  by (simp add: OutputsChainOutputSet_def chainSetStep_def outChainID_def demo_input_def)

lemma ref_tx_safemath [simp]: "safemath64 ref_tx_deps"
  by (simp add: refa.checked_arith_axioms)

lemma demo_input_sel [simp]: "outAmount demo_input = 5" "outStoredMana demo_input = 7"
  by (simp_all add: demo_input_def)

lemma demo_construct [simp]: "constructInputSet [(i, demo_input)] = Inr [(i, demo_input)]"
  by (simp add: constructInputSet_def constructInput_def demo_input_def ucsMustSet_eq ucAddress_def demo_owner_def)

lemma demo_total_in [simp]:
  "TotalManaIn ref_tx_deps demo_mana demo_structure 20 [(demo_id, demo_input)] [] = Inr 7"
  using TotalManaIn_Inr [OF ref_tx_safemath, of demo_mana demo_structure 20 "[(demo_id, demo_input)]" "[]" 7] by simp

lemma demo_total_out [simp]: "TotalManaOut ref_tx_deps [demo_input] [] = Inr 7"
  using TotalManaOut_Inr [OF ref_tx_safemath, of "[demo_input]" "[]" 7] by simp

lemma demo_chain_inputs [simp]: "ChainInputSet ref_tx_deps [(i, demo_input)] = Inr []"
  by (simp add: ChainInputSet_def chainInputSetStep_def outChainID_def demo_input_def)

definition demo_working :: working_set where
  "demo_working = \<lparr>ws_UnlockedAddrs = Map.empty, ws_UTXOInputs = [demo_input],
     ws_UTXOInputsSet = [(demo_id, demo_input)], ws_InputIDToInputIndex = [demo_id \<mapsto> 0],
     ws_Tx = demo_move demo_input, ws_InChains = [], ws_InNativeTokens = [], ws_OutChains = [],
     ws_OutNativeTokens = [], ws_BIC = Map.empty, ws_Commitment = None, ws_Rewards = [],
     ws_TotalManaIn = 7, ws_TotalManaOut = 7\<rparr>"

lemma demo_working_set:
  "NewVMParamsWorkingSet ref_tx_deps demo_api (demo_move demo_input) (demo_inputs demo_input) = Inr demo_working"
proof -
  obtain i where "TransactionIDG ref_tx_deps (demo_move demo_input) = Inr i" using demo_move_id by blast
  then show ?thesis
    by (simp add: NewVMParamsWorkingSet_def demo_inputs_def workingInputStep_def Let_def demo_working_def
        inOutputID_def flip: demo_id_def)
qed

lemma demo_input_sets [simp]:
  "outUCSet demo_input = Inr [0 \<mapsto> AddressUC demo_owner]" "outFeatSet demo_input = Inr Map.empty"
  by (simp_all add: outUCSet_def outFeatSet_def demo_input_def ucsMustSet_eq featsMustSet_eq)

lemma demo_base_out: "\<exists>tr. baseTokensOutStep ref_tx_deps (0, []) demo_input = Inr (5, tr)"
  by (simp add: baseTokensOutStep_def demo_input_def IsSimpleTransfer_def featsMustSet_eq ucsMustSet_eq
      addressOwner_def derefG_def ucAddress_def)

lemma demo_base_in [simp]: "baseTokensInStep ref_tx_deps ws (0, []) (i, demo_input) = Inr (5, [])"
  by (simp add: baseTokensInStep_def ucStorageDepositReturn_def)

lemma demo_base_balanced:
  "balancedBaseTokens ref_tx_deps (demo_working\<lparr>ws_UnlockedAddrs := ua\<rparr>) = Inr ()"
proof -
  obtain tr where "baseTokensOutStep ref_tx_deps (0, []) demo_input = Inr (5, tr)" using demo_base_out by blast
  then show ?thesis by (simp add: balancedBaseTokens_def demo_working_def)
qed

lemma demo_tokens [simp]: "NativeTokenSum ref_tx_deps [demo_input] = Inr []"
  by (simp add: NativeTokenSum_def nativeTokenSumStep_def ftNativeToken_def)

lemma demo_executes:
  "Execute ref_tx_deps demo_api (demo_move demo_input) (demo_inputs demo_input) ua [] = Inr [demo_input]"
proof -
  let ?ws = "demo_working\<lparr>ws_UnlockedAddrs := ua\<rparr>"
  have "ExecFuncTimelocks demo_api ?ws = Inr ?ws"
    by (simp add: ExecFuncTimelocks_def check_Inr timelockExpired_def demo_working_def HasTimelockCondition_def
        ucTimelock_def)
  moreover have "ExecFuncSenderUnlocked ref_tx_deps ?ws = Inr ?ws"
    by (simp add: ExecFuncSenderUnlocked_def check_Inr senderUnlocked_def demo_working_def ftSender_def)
  moreover have "ExecFuncBalancedBaseTokens ref_tx_deps ?ws = Inr ?ws"
    by (simp add: ExecFuncBalancedBaseTokens_def check_Inr demo_base_balanced)
  moreover have "ExecFuncBalancedNativeTokens ref_tx_deps ?ws = Inr ?ws"
    by (simp add: ExecFuncBalancedNativeTokens_def demo_working_def)
  moreover have "ExecFuncChainTransitions stvf ?ws = Inr ?ws" for stvf
    by (simp add: ExecFuncChainTransitions_def check_Inr chainTransitions_def demo_working_def)
  moreover have "ExecFuncBalancedMana ?ws = Inr ?ws"
    by (simp add: ExecFuncBalancedMana_def check_Inr balancedMana_def demo_working_def)
  moreover have "ExecFuncAtMostOneImplicitAccountCreationAddress ?ws = Inr ?ws"
    by (simp add: ExecFuncAtMostOneImplicitAccountCreationAddress_def check_Inr implicitCreationStep_def
        demo_working_def ucAddress_def demo_owner_def)
  ultimately show ?thesis
    by (simp add: Execute_def demo_working_set execList_def RunVMFuncs_def)
qed

theorem execute_conserves_witness:
  "(\<Sum>x\<leftarrow>[demo_input]. unat (outAmount x)) = (\<Sum>x\<leftarrow>spent (demo_move demo_input) (demo_inputs demo_input). unat (outAmount (snd x)))
    \<and> manaOut (demo_move demo_input) \<le> manaIn ref_tx_deps demo_api (demo_move demo_input) (demo_inputs demo_input)"
proof -
  obtain i where "TransactionIDG ref_tx_deps (demo_move demo_input) = Inr i" using demo_move_id by blast
  from execute_conserves [OF demo_executes demo_resolves ref_tx_safemath _ _ this, of "[]"] show ?thesis by simp
qed

text \<open>C4: an executed transaction changes the amount of a native token exactly as the foundry of the token
  records it: by the newly minted less the newly melted tokens when the foundry changes its state, under
  the same maximum supply; to the minted tokens when the foundry is created; and it burns what the
  foundry recorded as circulating when the foundry is destroyed.\<close>

theorem execute_token_supply:
  assumes "Execute D api t ri ua [] = Inr outs" "NewVMParamsWorkingSet D api t ri = Inr ws"
  shows "(map_of (ws_InChains ws) (FoundryIDc i) = Some co \<and> map_of (ws_OutChains ws) (FoundryIDc i) = Some nx \<longrightarrow>
      (\<exists>f g. co_Output co = FoundryO f \<and> nx = FoundryO g
        \<and> sts_MaximumSupply (fo_TokenScheme g) = sts_MaximumSupply (fo_TokenScheme f)
        \<and> (\<Sum>x\<leftarrow>outs. tokenAmount i x) - (\<Sum>x\<leftarrow>spent t ri. tokenAmount i (snd x)) =
            (sts_MintedTokens (fo_TokenScheme g) - sts_MintedTokens (fo_TokenScheme f))
            - (sts_MeltedTokens (fo_TokenScheme g) - sts_MeltedTokens (fo_TokenScheme f))))
    \<and> (map_of (ws_InChains ws) (FoundryIDc i) = None \<and> map_of (ws_OutChains ws) (FoundryIDc i) = Some nx \<longrightarrow>
      (\<exists>g. nx = FoundryO g \<and> sts_MeltedTokens (fo_TokenScheme g) = 0
        \<and> (\<Sum>x\<leftarrow>outs. tokenAmount i x) = sts_MintedTokens (fo_TokenScheme g)))
    \<and> (map_of (ws_InChains ws) (FoundryIDc i) = Some co \<and> map_of (ws_OutChains ws) (FoundryIDc i) = None \<longrightarrow>
      (\<exists>f. co_Output co = FoundryO f
        \<and> (\<Sum>x\<leftarrow>spent t ri. tokenAmount i (snd x)) - (\<Sum>x\<leftarrow>outs. tokenAmount i x) =
            sts_MintedTokens (fo_TokenScheme f) - sts_MeltedTokens (fo_TokenScheme f)))"
proof -
  from assms(1) have o: "outs = tx_Outputs t" by (rule Execute_Inr) blast
  note w = NewVMParamsWorkingSet_Inr [OF assms(2)]
  obtain ws2 where s: "withSums ua ws ws2" and c: "chainTransitions (ChainSTVF D api) ws2 = Inr ()"
    using execute_transitions [OF assms] .
  have sel: "ws_InChains ws2 = ws_InChains ws" "ws_OutChains ws2 = ws_OutChains ws" and
    inS: "ValueOrBigInt0 (ws_InNativeTokens ws2) i = (\<Sum>x\<leftarrow>ws_UTXOInputs ws. tokenAmount i x)" and
    outS: "ValueOrBigInt0 (ws_OutNativeTokens ws2) i = (\<Sum>x\<leftarrow>outs. tokenAmount i x)"
    using s by (auto simp: withSums_def o w(3))
  have inS': "ValueOrBigInt0 (ws_InNativeTokens ws2) i = (\<Sum>x\<leftarrow>spent t ri. tokenAmount i (snd x))"
    unfolding inS by (rule spent_inputs_sum [OF w(1,2)]) (simp add: constructInput_same)
  note tr = chainTransitions_Inr [OF c, unfolded sel, of "FoundryIDc i"]
  obtain txID where os: "OutputsChainOutputSet D (tx_Outputs t) txID = Inr (ws_OutChains ws)"
    using w(8) by blast
  note ft = foundry_transitions [where D = D and api = api and ws = ws2 and i = i, unfolded inS' outS]
  note origin = chain_foundries(1) [OF w(7), of i] chain_foundries(2) [OF os, of i]
  show ?thesis
    using tr ft origin
    by (fastforce simp: schemeStateTransition_def scheme_change_iff scheme_genesis_iff scheme_destruction_iff)
qed

text \<open>A foundry that mints 30 tokens.\<close>

definition demo_foundry :: "int \<Rightarrow> feature list \<Rightarrow> foundry_output" where
  "demo_foundry minted fs = \<lparr>fo_Amount = 5, fo_SerialNumber = 1,
     fo_TokenScheme = \<lparr>sts_MintedTokens = minted, sts_MeltedTokens = 0, sts_MaximumSupply = 100\<rparr>,
     fo_UnlockConditions = [ImmutableAccountUC [9]], fo_Features = fs, fo_ImmutableFeatures = []\<rparr>"

lemma demo_foundry_sel [simp]:
  "fo_Amount (demo_foundry n fs) = 5" "fo_Features (demo_foundry n fs) = fs" "fo_ImmutableFeatures (demo_foundry n fs) = []"
  "fo_UnlockConditions (demo_foundry n fs) = [ImmutableAccountUC [9]]"
  "fo_TokenScheme (demo_foundry n fs) = \<lparr>sts_MintedTokens = n, sts_MeltedTokens = 0, sts_MaximumSupply = 100\<rparr>"
  by (simp_all add: demo_foundry_def)

lemma FoundryIDFrom_eq:
  "length (encAddr D a) \<le> 34 \<Longrightarrow> FoundryIDFromAddressAndSerialNumberAndTokenScheme D a n ts =
    Inr ((take 38 (encAddr D a @ le32 n @ replicate 38 0))[37 := ts])"
  by (simp add: FoundryIDFromAddressAndSerialNumberAndTokenScheme_def Let_def)

lemma demo_foundry_ID: "\<exists>i. i \<noteq> replicate 38 0 \<and> (\<forall>n fs. foundryID ref_tx_deps (demo_foundry n fs) = Inr i)"
proof -
  let ?i = "(take 38 (encAddr ref_tx_deps (AccountAddress [9]) @ le32 1 @ replicate 38 0))[37 := 0]"
  have "?i ! 0 = 8" by (simp add: nth_append)
  moreover have "replicate 38 (0 :: u8) ! 0 = 0" by (rule nth_replicate) simp
  moreover have "(8 :: u8) \<noteq> 0" by simp
  ultimately have "?i \<noteq> replicate 38 0" by metis
  moreover have "foundryOwner (demo_foundry n fs) = Inr (AccountAddress [9])" "fo_SerialNumber (demo_foundry n fs) = 1" for n fs
    by (simp_all add: foundryOwner_def ucsMustSet_eq derefG_def ucImmutableAccount_def demo_foundry_def)
  then have "foundryID ref_tx_deps (demo_foundry n fs) = Inr ?i" for n fs
    using FoundryIDFrom_eq [of ref_tx_deps "AccountAddress [9]" 1 0] by (simp add: foundryID_def andthen_def)
  ultimately show ?thesis by blast
qed

definition demo_f0 :: ledger_output where "demo_f0 = FoundryO (demo_foundry 0 [])"

definition demo_f1 :: "bytes \<Rightarrow> ledger_output" where
  "demo_f1 i = FoundryO (demo_foundry 30 [NativeTokenF i 30])"

lemma demo_f_sel [simp]:
  "outAmount demo_f0 = 5" "outStoredMana demo_f0 = 0" "outAmount (demo_f1 i) = 5" "outStoredMana (demo_f1 i) = 0"
  "outUCSet demo_f0 = Inr [6 \<mapsto> ImmutableAccountUC [9]]"
  "outFeatSet demo_f0 = Inr Map.empty" "outFeatSet (demo_f1 i) = Inr [5 \<mapsto> NativeTokenF i 30]"
  "baseTokensOutStep ref_tx_deps (0, []) (demo_f1 i) = Inr (5, [])"
  "constructInputSet [(j, demo_f0)] = Inr [(j, demo_f0)]"
  by (simp_all add: demo_f0_def demo_f1_def outUCSet_def outFeatSet_def ucsMustSet_eq featsMustSet_eq
      baseTokensOutStep_def constructInputSet_def constructInput_def)

lemma demo_f_potential [simp]: "PotentialMana ref_tx_deps demo_mana demo_structure demo_f0 a b = Inr 0"
proof -
  have "\<exists>d. MinDeposit ref_tx_deps demo_structure demo_f0 = Inr d \<and> 5 < d"
    by (simp add: MinDeposit_def outStorageScore_def demo_f0_def foundryStorageScore_def foundrySize_def schemeSize_def
      ucsSize_def featsSize_def ucSize_def ucsStorageScore_def featsStorageScore_def ucStorageScore_def
      addrStorageScore_def dataScore_def demo_structure_def demo_score_def factorMultiply_def ref_mul_def)
  then show ?thesis by (auto simp: PotentialMana_def ref_sub_def word_less_nat_alt)
qed

lemma demo_f_mana [simp]:
  "TotalManaIn ref_tx_deps demo_mana demo_structure 20 [(demo_id, demo_f0)] [] = Inr 0"
  "TotalManaOut ref_tx_deps [demo_f1 i] [] = Inr 0"
  using TotalManaIn_Inr [OF ref_tx_safemath, of demo_mana demo_structure 20 "[(demo_id, demo_f0)]" "[]" 0]
    TotalManaOut_Inr [OF ref_tx_safemath, of "[demo_f1 i]" "[]" 0] by (simp_all add: inputMana_def)

definition demo_fws :: "bytes \<Rightarrow> working_set" where
  "demo_fws i = \<lparr>ws_UnlockedAddrs = Map.empty, ws_UTXOInputs = [demo_f0],
     ws_UTXOInputsSet = [(demo_id, demo_f0)], ws_InputIDToInputIndex = [demo_id \<mapsto> 0],
     ws_Tx = demo_move (demo_f1 i),
     ws_InChains = [(FoundryIDc i, \<lparr>co_ChainID = FoundryIDc i, co_OutputID = demo_id, co_Output = demo_f0\<rparr>)],
     ws_InNativeTokens = [], ws_OutChains = [(FoundryIDc i, demo_f1 i)],
     ws_OutNativeTokens = [], ws_BIC = Map.empty, ws_Commitment = None, ws_Rewards = [],
     ws_TotalManaIn = 0, ws_TotalManaOut = 0\<rparr>"

text \<open>The mana of the foundry depends on the parameters, and there must be none.\<close>

definition noManaIn :: "ledger_api \<Rightarrow> bool" where
  "noManaIn api \<longleftrightarrow> TotalManaIn ref_tx_deps (api_ManaDecayProvider api) (api_StorageScoreStructure api) 20
     [(demo_id, demo_f0)] [] = Inr 0"

lemma demo_f_working_set_of:
  assumes "i \<noteq> replicate 38 0" "\<forall>n fs. foundryID ref_tx_deps (demo_foundry n fs) = Inr i" "noManaIn api"
  shows "NewVMParamsWorkingSet ref_tx_deps api (demo_move (demo_f1 i)) (demo_inputs demo_f0) = Inr (demo_fws i)"
proof -
  obtain txID where t: "TransactionIDG ref_tx_deps (demo_move (demo_f1 i)) = Inr txID" using demo_move_id by blast
  have e: "inputChainID ref_tx_deps (FoundryIDc i) b = FoundryIDc i" for b by (simp add: inputChainID_foundry)
  have c: "ChainInputSet ref_tx_deps [(demo_id, demo_f0)] =
      Inr [(FoundryIDc i, \<lparr>co_ChainID = FoundryIDc i, co_OutputID = demo_id, co_Output = demo_f0\<rparr>)]"
    using assms by (simp add: ChainInputSet_def chainInputSetStep_def outChainID_def demo_f0_def e Let_def chainEmpty_def)
  have o: "OutputsChainOutputSet ref_tx_deps [demo_f1 i] txID = Inr [(FoundryIDc i, demo_f1 i)]"
    using assms by (simp add: OutputsChainOutputSet_def chainSetStep_def outChainID_def demo_f1_def chainEmpty_def Let_def)
  show ?thesis
    by (simp add: NewVMParamsWorkingSet_def demo_inputs_def workingInputStep_def Let_def demo_fws_def
        inOutputID_def t c o assms(3) [unfolded noManaIn_def] flip: demo_id_def)
qed

lemma demo_f_executes_of:
  assumes "i \<noteq> replicate 38 0" "\<forall>n fs. foundryID ref_tx_deps (demo_foundry n fs) = Inr i" "noManaIn api"
  shows "Execute ref_tx_deps api (demo_move (demo_f1 i)) (demo_inputs demo_f0) Map.empty [] = Inr [demo_f1 i]"
proof -
  let ?ws = "(demo_fws i)\<lparr>ws_UnlockedAddrs := Map.empty\<rparr>"
  let ?ws2 = "?ws\<lparr>ws_InNativeTokens := [], ws_OutNativeTokens := [(i, 30)]\<rparr>"
  have "ExecFuncTimelocks api ?ws = Inr ?ws"
    by (simp add: ExecFuncTimelocks_def check_Inr timelockExpired_def demo_fws_def HasTimelockCondition_def
        ucTimelock_def)
  moreover have "ExecFuncSenderUnlocked ref_tx_deps ?ws = Inr ?ws"
    by (simp add: ExecFuncSenderUnlocked_def check_Inr senderUnlocked_def demo_fws_def ftSender_def)
  moreover have "ExecFuncBalancedBaseTokens ref_tx_deps ?ws = Inr ?ws"
    by (simp add: ExecFuncBalancedBaseTokens_def check_Inr balancedBaseTokens_def demo_fws_def baseTokensInStep_def
        ucStorageDepositReturn_def)
  moreover have "ExecFuncBalancedNativeTokens ref_tx_deps ?ws = Inr ?ws2"
    by (simp add: ExecFuncBalancedNativeTokens_def demo_fws_def NativeTokenSum_def nativeTokenSumStep_def
        ftNativeToken_def nativeTokenOutCheck_def Let_def)
  moreover have "ExecFuncChainTransitions (ChainSTVF ref_tx_deps api) ?ws2 = Inr ?ws2"
    using assms(2) by (simp add: ExecFuncChainTransitions_def check_Inr chainTransitions_def demo_fws_def
        ChainSTVF_def derefG_def nextAs_def foundrySTVF_def demo_f0_def demo_f1_def asFoundry_def
        foundryStateChangeValid_def featsEqual_def schemeStateTransition_def scheme_change_iff
        ValueOrBigInt0_def Let_def)
  moreover have "ExecFuncBalancedMana ?ws2 = Inr ?ws2"
    by (simp add: ExecFuncBalancedMana_def check_Inr balancedMana_def demo_fws_def)
  moreover have "ExecFuncAtMostOneImplicitAccountCreationAddress ?ws2 = Inr ?ws2"
    by (simp add: ExecFuncAtMostOneImplicitAccountCreationAddress_def check_Inr implicitCreationStep_def
        demo_fws_def ucAddress_def)
  ultimately show ?thesis
    by (simp add: Execute_def demo_f_working_set_of [OF assms] execList_def RunVMFuncs_def)
qed

lemma demo_no_mana: "noManaIn demo_api"
  by (simp add: noManaIn_def)

lemmas demo_f_working_set = demo_f_working_set_of [OF _ _ demo_no_mana]
  and demo_f_executes = demo_f_executes_of [OF _ _ demo_no_mana]

theorem execute_token_supply_witness:
  "\<exists>i. ok (Execute ref_tx_deps demo_api (demo_move (demo_f1 i)) (demo_inputs demo_f0) Map.empty [])
    \<and> (\<Sum>x\<leftarrow>[demo_f1 i]. tokenAmount i x) - (\<Sum>x\<leftarrow>[(demo_id, demo_f0)]. tokenAmount i (snd x)) = 30"
proof -
  obtain i where i: "i \<noteq> replicate 38 0" "\<forall>n fs. foundryID ref_tx_deps (demo_foundry n fs) = Inr i"
    using demo_foundry_ID by blast
  have m: "map_of (ws_InChains (demo_fws i)) (FoundryIDc i) =
      Some \<lparr>co_ChainID = FoundryIDc i, co_OutputID = demo_id, co_Output = demo_f0\<rparr>"
    "map_of (ws_OutChains (demo_fws i)) (FoundryIDc i) = Some (demo_f1 i)"
    by (simp_all add: demo_fws_def)
  from execute_token_supply [OF demo_f_executes [OF i] demo_f_working_set [OF i], of i
      "\<lparr>co_ChainID = FoundryIDc i, co_OutputID = demo_id, co_Output = demo_f0\<rparr>" "demo_f1 i"]
  have "(\<Sum>x\<leftarrow>[demo_f1 i]. tokenAmount i x) - (\<Sum>x\<leftarrow>[(demo_id, demo_f0)]. tokenAmount i (snd x)) = 30"
    by (auto simp: m demo_f0_def demo_f1_def)
  with demo_f_executes [OF i] show ?thesis by (auto simp: ok_iff)
qed

section \<open>Locks and senders\<close>

text \<open>An output is spent no earlier than it was created and not before its timelock.\<close>

definition lockRespected ::
    "ledger_api \<Rightarrow> commitment option \<Rightarrow> transaction \<Rightarrow> bytes \<times> ledger_output \<Rightarrow> bool" where
  "lockRespected api commitment1 t idOut \<longleftrightarrow> CreationSlot (fst idOut) \<le> te_CreationSlot t
     \<and> (\<exists>ucs1. outUCSet (snd idOut) = Inr ucs1
        \<and> (\<forall>n. ucTimelock ucs1 = Some n \<longrightarrow> (\<exists>c. commitment1 = Some c \<and> n \<le> FutureBoundedSlotIndex api (cm_Slot c))))"

lemma constructInput_implicit:
  assumes "constructInput out = Inr out'"
  shows "isImplicitAccount out' = isImplicitAccount out"
proof -
  have "outType out' = outType out" using assms by (cases rule: constructInput_cases) auto
  then show ?thesis by (simp only: isImplicitAccount_def constructInput_same(5) [OF assms])
qed

lemma timelockExpired_Inr:
  "timelockExpired api c (i, out) = Inr () \<longleftrightarrow> (\<exists>ucs1. outUCSet out = Inr ucs1
     \<and> (\<forall>n. ucTimelock ucs1 = Some n \<longrightarrow> (\<exists>cm. c = Some cm \<and> n \<le> FutureBoundedSlotIndex api (cm_Slot cm))))"
proof (cases "outUCSet out")
  case (Inr ucs1)
  then show ?thesis
    by (cases "ucTimelock ucs1"; cases c) (auto simp: timelockExpired_def HasTimelockCondition_def TimelocksExpired_def throw_def not_less)
qed (simp add: timelockExpired_def)

lemma sum_list_if_length: "(\<Sum>x\<leftarrow>xs. if P x then 1 else 0 :: nat) = length (filter P xs)"
  by (induction xs) auto

text \<open>C3: a transaction whose unlocks validate and which is executed spends only outputs whose timelocks
  have expired at the future bounded slot of the commitment it refers to and which are not newer than the
  transaction, at most one of them at an implicit account creation address, and every sender its outputs
  name is authorized by the signatures of the transaction.\<close>

theorem executed_respects_locks:
  assumes "ValidateUnlocks D api st ri = Inr ua" "Execute D api (st_Transaction st) ri ua [] = Inr outs"
    "resolves (st_Transaction st) ri"
  shows "\<exists>txID msg outChains. TransactionIDG D (st_Transaction st) = Inr txID
    \<and> SigningMessage D (st_Transaction st) = Inr msg
    \<and> OutputsChainOutputSet D outs txID = Inr outChains
    \<and> (\<forall>out \<in> set outs. \<forall>fs a. outFeatSet out = Inr fs \<and> ftSender fs = Some a \<longrightarrow>
         authorized D msg (txSignatures st) (spentChains D api st ri outChains) (addrKey D (resolveUnderlyingAddress a)))
    \<and> (\<forall>x \<in> set (spent (st_Transaction st) ri). lockRespected api (ri_CommitmentInput ri) (st_Transaction st) x)
    \<and> length (filter (\<lambda>x. isImplicitAccount (snd x)) (spent (st_Transaction st) ri)) \<le> 1"
proof -
  obtain txID msg outChains where m: "TransactionIDG D (st_Transaction st) = Inr txID"
      "SigningMessage D (st_Transaction st) = Inr msg"
      "OutputsChainOutputSet D (tx_Outputs (st_Transaction st)) txID = Inr outChains"
    and a: "\<forall>k u. ua k = Some u \<longrightarrow> authorized D msg (txSignatures st) (spentChains D api st ri outChains) k"
    by (rule ValidateUnlocks_sound [OF assms(1)]) blast
  from assms(2) obtain ws where n: "NewVMParamsWorkingSet D api (st_Transaction st) ri = Inr ws"
    and o: "outs = tx_Outputs (st_Transaction st)"
    and tl: "\<forall>x \<in> set (ws_UTXOInputsSet ws). timelockExpired api (ws_Commitment ws) x = Inr ()"
    and se: "\<forall>x \<in> set (tx_Outputs (ws_Tx ws)). senderUnlocked D ua x = Inr ()"
    and b: "balancedMana ws = Inr ()" and im: "\<exists>b. foldG implicitCreationStep False (ws_UTXOInputs ws) = Inr b"
    by (rule Execute_Inr) blast
  note w = NewVMParamsWorkingSet_Inr [OF n]
  have s: "\<forall>out \<in> set outs. \<forall>fs a. outFeatSet out = Inr fs \<and> ftSender fs = Some a \<longrightarrow>
      authorized D msg (txSignatures st) (spentChains D api st ri outChains) (addrKey D (resolveUnderlyingAddress a))"
  proof (intro ballI allI impI)
    fix out fs sd assume out: "out \<in> set outs" and f: "outFeatSet out = Inr fs \<and> ftSender fs = Some sd"
    have "senderUnlocked D ua out = Inr ()" using se out by (simp add: o w(3))
    with f obtain u where "ua (addrKey D (resolveUnderlyingAddress sd)) = Some u"
      by (auto simp: senderUnlocked_def throw_def split: if_splits)
    with a show "authorized D msg (txSignatures st) (spentChains D api st ri outChains)
        (addrKey D (resolveUnderlyingAddress sd))" by blast
  qed
  have "\<forall>x \<in> set (ws_UTXOInputsSet ws). lockRespected api (ri_CommitmentInput ri) (st_Transaction st) x"
  proof
    fix x assume x: "x \<in> set (ws_UTXOInputsSet ws)"
    then have "timelockExpired (api) (ws_Commitment ws) (fst x, snd x) = Inr ()" using tl by simp
    moreover have "CreationSlot (fst x) \<le> te_CreationSlot (st_Transaction st)"
      using b x by (auto simp: balancedMana_iff w(3))
    ultimately show "lockRespected api (ri_CommitmentInput ri) (st_Transaction st) x"
      using timelockExpired_Inr [of api "ri_CommitmentInput ri" "fst x" "snd x"] by (simp add: lockRespected_def w(4))
  qed
  then have l: "\<forall>x \<in> set (spent (st_Transaction st) ri). lockRespected api (ri_CommitmentInput ri) (st_Transaction st) x"
    by (subst (asm) spent_ball [OF assms(3) w(1)]) (simp add: constructInput_same lockRespected_def)
  have "(\<Sum>x\<leftarrow>ws_UTXOInputs ws. if isImplicitAccount x then 1 else 0 :: nat) =
      (\<Sum>x\<leftarrow>spent (st_Transaction st) ri. if isImplicitAccount (snd x) then 1 else 0)"
    by (rule spent_inputs_sum [OF w(1,2)]) (simp add: constructInput_implicit)
  then have "length (filter (\<lambda>x. isImplicitAccount (snd x)) (spent (st_Transaction st) ri)) \<le> 1"
    using im implicitCreation_fold [of False "ws_UTXOInputs ws"] by (auto simp: sum_list_if_length)
  with m s l show ?thesis by (auto simp: o)
qed

text \<open>The moving transaction with the signature of the owner.\<close>

definition demo_signed_move :: signed_transaction where
  "demo_signed_move = \<lparr>st_Transaction = demo_move demo_input,
     st_Unlocks = [SignatureUnlock (Some \<lparr>sigPublicKey = [7], sigSignature = 7 # ref_sum256 (le32 20)\<rparr>)]\<rparr>"

lemma demo_move_unlocks:
  "\<exists>ua. ValidateUnlocks ref_tx_deps demo_api demo_signed_move (demo_inputs demo_input) = Inr ua"
proof -
  obtain i s where "TransactionIDG ref_tx_deps (demo_move demo_input) = Inr i"
    and "unlockAddress ref_tx_deps (ref_sum256 (le32 20)) 0 False demo_owner
      (SignatureUnlock (Some \<lparr>sigPublicKey = [7], sigSignature = 7 # ref_sum256 (le32 20)\<rparr>)) emptyUnlockedSet = Inr s"
    using demo_move_id demo_signature by (metis ok_iff)
  moreover have "resolveUnderlyingAddress demo_owner = demo_owner" "chainToUnlock D tx demo_input n cs = Inr None"
    for D :: "tx_deps" and tx n cs
    by (simp_all add: resolveUnderlyingAddress_def demo_owner_def chainToUnlock_def demo_input_def outChainID_def)
  moreover have "SigningMessage ref_tx_deps (demo_move demo_input) = Inr (ref_sum256 (le32 20))"
    by (simp add: SigningMessage_def)
  ultimately show ?thesis
    by (simp add: ValidateUnlocks_def demo_signed_move_def validateUnlocksStep_def unlockOutput_def derefG_def
        demo_inputs_def inOutputID_def flip: demo_id_def)
qed

theorem executed_respects_locks_witness:
  "\<exists>ua. ValidateUnlocks ref_tx_deps demo_api demo_signed_move (demo_inputs demo_input) = Inr ua
    \<and> lockRespected demo_api None (demo_move demo_input) (demo_id, demo_input)"
proof -
  obtain ua where u: "ValidateUnlocks ref_tx_deps demo_api demo_signed_move (demo_inputs demo_input) = Inr ua"
    using demo_move_unlocks by blast
  have t: "st_Transaction demo_signed_move = demo_move demo_input" by (simp add: demo_signed_move_def)
  have "Execute ref_tx_deps demo_api (st_Transaction demo_signed_move) (demo_inputs demo_input) ua [] = Inr [demo_input]"
    unfolding t by (rule demo_executes)
  from executed_respects_locks [OF u this] have "lockRespected demo_api None (demo_move demo_input) (demo_id, demo_input)"
    by (auto simp: t)
  with u show ?thesis by blast
qed

end
