(* ===== verification/Nova_Chains.thy ===== *)
theory Nova_Chains
  imports Nova_Ledger
begin

text \<open>
  What the state transition functions of vm/nova/vm.go guarantee for each kind of chain: the serial
  numbers of new foundries, the mana of block issuer accounts, staking and its rewards, the two kinds of
  anchor transitions, delegations, and the values that stay fixed over the life of a chain.
\<close>

section \<open>Foundries of an account\<close>

text \<open>The foundries of an account that a transaction creates, in the order of the outputs.\<close>

definition isNewFoundry :: "'a ledger_deps_scheme \<Rightarrow> working_set \<Rightarrow> bytes \<Rightarrow> foundry_output \<Rightarrow> bool" where
  "isNewFoundry D ws acc f \<longleftrightarrow> foundryOwner f = Inr (AccountAddress acc)
     \<and> (\<exists>i. foundryID D f = Inr i \<and> map_of (ws_InChains ws) (FoundryIDc i) = None)"

definition newFoundries :: "'a ledger_deps_scheme \<Rightarrow> working_set \<Rightarrow> bytes \<Rightarrow> ledger_output list \<Rightarrow> foundry_output list" where
  "newFoundries D ws acc outs =
    filter (isNewFoundry D ws acc) (concat (map (\<lambda>out. case out of FoundryO f \<Rightarrow> [f] | _ \<Rightarrow> []) outs))"

lemma newFoundries_simps [simp]:
  "newFoundries D ws acc [] = []"
  "newFoundries D ws acc (FoundryO f # outs) =
    (if isNewFoundry D ws acc f then [f] else []) @ newFoundries D ws acc outs"
  "newFoundries D ws acc (BasicO b # outs) = newFoundries D ws acc outs"
  "newFoundries D ws acc (AccountO a # outs) = newFoundries D ws acc outs"
  "newFoundries D ws acc (AnchorO x # outs) = newFoundries D ws acc outs"
  "newFoundries D ws acc (NFTO n # outs) = newFoundries D ws acc outs"
  "newFoundries D ws acc (DelegationO d # outs) = newFoundries D ws acc outs"
  "newFoundries D ws acc (ImplicitAccountO b # outs) = newFoundries D ws acc outs"
  by (simp_all add: newFoundries_def)

lemma countNewFoundriesStep_Inr:
  assumes "countNewFoundriesStep D ws acc k out = Inr k'"
  shows "k' = k + word_of_nat (length (newFoundries D ws acc [out]))"
proof (cases out)
  case (FoundryO f)
  then obtain i where i: "foundryID D f = Inr i" using assms by (auto simp: countNewFoundriesStep_def andthen_eq_Inr)
  obtain own where "foundryOwner f = Inr own" using i by (auto simp: foundryID_def andthen_eq_Inr)
  with assms i FoundryO show ?thesis
    by (cases own) (auto simp: countNewFoundriesStep_def isNewFoundry_def split: if_splits)
qed (use assms in \<open>simp_all add: countNewFoundriesStep_def\<close>)

lemma newFoundries_Cons: "newFoundries D ws acc (out # outs) = newFoundries D ws acc [out] @ newFoundries D ws acc outs"
  by (cases out) simp_all

lemma countNewFoundries_Inr:
  "foldG (countNewFoundriesStep D ws acc) k outs = Inr k' \<Longrightarrow>
    k' = k + word_of_nat (length (newFoundries D ws acc outs))"
proof (induction outs arbitrary: k)
  case (Cons out outs)
  then obtain k1 where "countNewFoundriesStep D ws acc k out = Inr k1"
      "foldG (countNewFoundriesStep D ws acc) k1 outs = Inr k'" by (auto simp: andthen_eq_Inr)
  with Cons.IH [of k1] show ?case
    by (subst newFoundries_Cons) (simp add: countNewFoundriesStep_Inr)
qed simp

lemma length_newFoundries: "length (newFoundries D ws acc outs) \<le> length outs"
proof (induction outs)
  case (Cons out outs)
  then show ?case by (cases out) auto
qed simp

lemma foundryCounter_Inr:
  assumes "accountFoundryCounterSTVF D ws a b = Inr ()" "length (tx_Outputs (ws_Tx ws)) < 2 ^ 32"
  shows "ao_FoundryCounter a \<le> ao_FoundryCounter b"
    and "ao_FoundryCounter a \<noteq> ao_FoundryCounter b \<Longrightarrow>
      unat (ao_FoundryCounter b) - unat (ao_FoundryCounter a)
        = length (newFoundries D ws (ao_AccountID b) (tx_Outputs (ws_Tx ws)))"
proof -
  show le: "ao_FoundryCounter a \<le> ao_FoundryCounter b"
    using assms(1) by (auto simp: accountFoundryCounterSTVF_def throw_def not_less split: if_splits)
  let ?n = "length (newFoundries D ws (ao_AccountID b) (tx_Outputs (ws_Tx ws)))"
  assume "ao_FoundryCounter a \<noteq> ao_FoundryCounter b"
  then have "ao_FoundryCounter b - ao_FoundryCounter a = word_of_nat ?n"
    using assms(1) countNewFoundries_Inr [of D ws "ao_AccountID b" 0 "tx_Outputs (ws_Tx ws)"]
    by (auto simp: accountFoundryCounterSTVF_def throw_def andthen_eq_Inr split: if_splits)
  then have "unat (ao_FoundryCounter b - ao_FoundryCounter a) = ?n"
    using assms(2) length_newFoundries [of D ws "ao_AccountID b" "tx_Outputs (ws_Tx ws)"]
    by (simp add: unat_of_nat)
  with le show "unat (ao_FoundryCounter b) - unat (ao_FoundryCounter a) = ?n"
    by (simp add: unat_sub_small)
qed

text \<open>The loop over the outputs: the new foundries of the account before a foundry have smaller serial
  numbers.\<close>

lemma foundryOwner_account: "foundryOwner f = Inr own \<Longrightarrow> \<exists>acc. own = AccountAddress acc"
  by (auto simp: foundryOwner_def andthen_eq_Inr)

lemma foundrySerialStep_stopped: "foldG (foundrySerialStep D ws f i) True outs = Inr True"
  by (induction outs) (simp_all add: foundrySerialStep_def)

lemma foundrySerialStep_Inr:
  assumes "foundrySerialStep D ws f i False out = Inr s" "foundryOwner f = Inr (AccountAddress acc)"
    and "\<forall>g. out = FoundryO g \<longrightarrow> foundryID D g \<noteq> Inr i"
  shows "\<not> s \<and> (\<forall>g \<in> set (newFoundries D ws acc [out]). fo_SerialNumber g < fo_SerialNumber f)"
proof (cases out)
  case (FoundryO g)
  then obtain own where own: "foundryOwner g = Inr own"
    using assms(1) by (auto simp: foundrySerialStep_def andthen_eq_Inr)
  then obtain acc' where "own = AccountAddress acc'" using foundryOwner_account by blast
  with own FoundryO assms show ?thesis
    by (auto simp: foundrySerialStep_def isNewFoundry_def andthen_eq_Inr throw_def not_le split: if_splits)
qed (use assms in \<open>auto simp: foundrySerialStep_def\<close>)

lemma foundrySerials_before:
  assumes "foldG (foundrySerialStep D ws f i) False (xs @ ys) = Inr s" "foundryOwner f = Inr (AccountAddress acc)"
    and "\<forall>g. FoundryO g \<in> set xs \<longrightarrow> foundryID D g \<noteq> Inr i"
  shows "\<forall>g \<in> set (newFoundries D ws acc xs). fo_SerialNumber g < fo_SerialNumber f"
  using assms(1,3)
proof (induction xs)
  case (Cons x xs)
  then obtain s1 where s1: "foundrySerialStep D ws f i False x = Inr s1"
      "foldG (foundrySerialStep D ws f i) s1 (xs @ ys) = Inr s" by (auto simp: andthen_eq_Inr)
  have "\<not> s1 \<and> (\<forall>g \<in> set (newFoundries D ws acc [x]). fo_SerialNumber g < fo_SerialNumber f)"
    by (rule foundrySerialStep_Inr [OF s1(1) assms(2)]) (use Cons.prems(2) in simp)
  with Cons.IH Cons.prems(2) s1(2) show ?case by (subst newFoundries_Cons) auto
qed simp

text \<open>Every foundry among the outputs is filed under its ID.\<close>

definition foundriesOf :: "ledger_output list \<Rightarrow> foundry_output list" where
  "foundriesOf outs = concat (map (\<lambda>out. case out of FoundryO f \<Rightarrow> [f] | _ \<Rightarrow> []) outs)"

lemma set_foundriesOf: "f \<in> set (foundriesOf outs) \<longleftrightarrow> FoundryO f \<in> set outs"
proof -
  have "f \<in> set (case out of FoundryO g \<Rightarrow> [g] | _ \<Rightarrow> []) \<longleftrightarrow> out = FoundryO f" for out
    by (cases out) auto
  then show ?thesis by (auto simp: foundriesOf_def)
qed

lemma newFoundries_eq: "newFoundries D ws acc outs = filter (isNewFoundry D ws acc) (foundriesOf outs)"
  by (simp add: newFoundries_def foundriesOf_def)

lemma foundry_filed:
  assumes "OutputsChainOutputSet D outs txID = Inr cs" "FoundryO f \<in> set outs" "foundryID D f = Inr i"
  shows "map_of cs (FoundryIDc i) \<noteq> None"
proof -
  let ?P = "\<lambda>ys s. \<forall>n. (n, FoundryO f) \<in> set ys \<longrightarrow> map_of s (FoundryIDc i) \<noteq> None"
  have "?P (List.enumerate 0 outs) cs"
  proof (rule foldG_prefix_invariant [where P = ?P])
    show "foldG (chainSetStep D txID) [] (List.enumerate 0 outs) = Inr cs"
      using assms(1) by (simp add: OutputsChainOutputSet_def)
    fix ys :: "(nat \<times> ledger_output) list" and x s s'
    assume P: "?P ys s" and st: "chainSetStep D txID s x = Inr s'"
    obtain n out where x: "x = (n, out)" by (rule prod.exhaust)
    show "?P (ys @ [x]) s'"
    proof (cases "out = FoundryO f")
      case True
      with st have "s' = AList.update (FoundryIDc i) out s"
        using assms(3) by (auto simp: chainSetStep_def x outChainID_def chainFromOutputID_def Let_def split: if_splits)
      then show ?thesis by (simp add: update_conv')
    next
      case False
      have "map_of s' (FoundryIDc i) \<noteq> None" if "map_of s (FoundryIDc i) \<noteq> None"
        using st that by (cases rule: chainSetStep_Inr [OF st [unfolded x]]) (auto simp: update_conv')
      with P False show ?thesis by (auto simp: x)
    qed
  qed simp
  moreover have "\<exists>n. (n, FoundryO f) \<in> set (List.enumerate 0 outs)"
    using assms(2) by (auto simp: in_set_enumerate_eq in_set_conv_nth [of _ outs])
  ultimately show ?thesis by blast
qed

text \<open>A strictly increasing list that fills an interval is that interval.\<close>

lemma sorted_interval:
  assumes "sorted_wrt (<) xs" "set xs \<subseteq> {m<..n}" "length xs = n - (m :: nat)"
  shows "xs = [Suc m..<Suc n]"
proof -
  have "card (set xs) = card {m<..n}"
    using assms(3) strict_sorted_iff assms(1) by (metis distinct_card card_greaterThanAtMost)
  with assms(2) have "set xs = {m<..n}" by (intro card_subset_eq) auto
  also have "\<dots> = set [Suc m..<Suc n]" by auto
  finally show ?thesis
    using assms(1) strict_sorted_equal [of xs "[Suc m..<Suc n]"] by (simp del: upt_Suc)
qed

text \<open>What the genesis of a foundry demands.\<close>

lemma foundry_genesis:
  assumes "ChainSTVF D api ws TransGenesis None (Some (FoundryO f)) = Inr ()" "foundryID D f = Inr i"
    and "foundryOwner f = Inr (AccountAddress acc)"
    and "map_of (ws_InChains ws) (AccountIDc acc) = Some co" "co_Output co = AccountO a"
    and "map_of (ws_OutChains ws) (AccountIDc acc) = Some (AccountO b)"
  shows "ao_FoundryCounter a < fo_SerialNumber f" "fo_SerialNumber f \<le> ao_FoundryCounter b"
    and "\<exists>s. foldG (foundrySerialStep D ws f i) False (tx_Outputs (ws_Tx ws)) = Inr s"
  using assms by (auto simp: ChainSTVF_def derefG_def nextAs_def foundrySTVF_def Let_def andthen_eq_Inr
      foundryGenesisValid_def asAccount_def foundrySerialNumberValid_def if_throw_eq_Inr throw_def
      split: if_splits)

lemma account_change:
  assumes "ChainSTVF D api ws TransStateChange (Some co) (Some (AccountO b)) = Inr ()" "co_Output co = AccountO a"
  shows "\<exists>r. accountStateChangeValid D api ws co a b = Inr r"
  using assms by (auto simp: ChainSTVF_def derefG_def nextAs_def accountSTVF_def Let_def andthen_eq_Inr asAccount_def)

text \<open>The new foundries of an account are numbered in the order of the outputs.\<close>

lemma new_foundries_sorted:
  assumes run: "\<And>f i. f \<in> set (newFoundries D ws acc outs) \<Longrightarrow> foundryID D f = Inr i \<Longrightarrow>
      \<exists>s. foldG (foundrySerialStep D ws f i) False outs = Inr s"
    and dist: "distinct (map (foundryID D) (foundriesOf outs))"
  shows "sorted_wrt (\<lambda>f g. fo_SerialNumber f < fo_SerialNumber g) (newFoundries D ws acc outs)"
proof -
  have "sorted_wrt (\<lambda>f g. fo_SerialNumber f < fo_SerialNumber g) (newFoundries D ws acc xs)"
    if "outs = xs @ ys" for xs ys
    using that
  proof (induction xs arbitrary: ys rule: rev_induct)
    case (snoc out xs)
    let ?N = "newFoundries D ws acc"
    have split: "?N (xs @ [out]) = ?N xs @ ?N [out]" by (simp add: newFoundries_eq foundriesOf_def)
    have "fo_SerialNumber g < fo_SerialNumber f" if g: "g \<in> set (?N xs)" and f: "f \<in> set (?N [out])" for f g
    proof -
      have o: "out = FoundryO f" "isNewFoundry D ws acc f"
        using f by (cases out; auto split: if_splits)+
      then obtain i where i: "foundryID D f = Inr i" "foundryOwner f = Inr (AccountAddress acc)"
        by (auto simp: isNewFoundry_def)
      have "f \<in> set (?N outs)" using f snoc.prems by (simp add: newFoundries_eq foundriesOf_def)
      then obtain s where "foldG (foundrySerialStep D ws f i) False (xs @ out # ys) = Inr s"
        using run [OF _ i(1)] snoc.prems by auto
      moreover have "foundryID D h \<noteq> Inr i" if "FoundryO h \<in> set xs" for h
      proof -
        have "foundryID D h \<in> set (map (foundryID D) (foundriesOf xs))"
          using that by (auto simp: set_foundriesOf)
        moreover have "distinct (map (foundryID D) (foundriesOf xs) @ map (foundryID D) (foundriesOf (out # ys)))"
          using dist snoc.prems by (simp add: foundriesOf_def)
        ultimately show ?thesis using o i by (auto simp: foundriesOf_def)
      qed
      ultimately show ?thesis using foundrySerials_before [of D ws f i xs "out # ys" s acc] i(2) g by blast
    qed
    moreover have "sorted_wrt (\<lambda>f g. fo_SerialNumber f < fo_SerialNumber g) (?N [out])"
      by (cases out) auto
    ultimately show ?case using snoc.IH [of "out # ys"] snoc.prems by (simp add: split sorted_wrt_append)
  qed simp
  from this [of outs "[]"] show ?thesis by simp
qed

text \<open>C5: the foundries that a transaction creates for an account, in the order of the outputs, carry
  exactly the serial numbers between the foundry counters of the account before and after, so no foundry
  ID is ever used twice and the counter is the number of foundries the account has created.\<close>

theorem new_foundry_serials:
  assumes "ExecFuncChainTransitions (ChainSTVF D api) ws = Inr ws'"
    and "OutputsChainOutputSet D (tx_Outputs (ws_Tx ws)) txID = Inr (ws_OutChains ws)"
    and "map_of (ws_InChains ws) (AccountIDc acc) = Some co" "co_Output co = AccountO a"
    and "map_of (ws_OutChains ws) (AccountIDc acc) = Some (AccountO b)" "ao_AccountID b = acc"
    and "length (tx_Outputs (ws_Tx ws)) < 2 ^ 32"
    and "distinct (map (foundryID D) (foundriesOf (tx_Outputs (ws_Tx ws))))"
  shows "map (\<lambda>f. unat (fo_SerialNumber f)) (newFoundries D ws acc (tx_Outputs (ws_Tx ws)))
    = [Suc (unat (ao_FoundryCounter a))..<Suc (unat (ao_FoundryCounter b))]"
proof -
  have tr: "chainTransitions (ChainSTVF D api) ws = Inr ()"
    using assms(1) by (simp add: ExecFuncChainTransitions_def check_Inr)
  note tr = chainTransitions_Inr [OF tr]
  let ?outs = "tx_Outputs (ws_Tx ws)"
  have gen: "ao_FoundryCounter a < fo_SerialNumber f \<and> fo_SerialNumber f \<le> ao_FoundryCounter b
      \<and> (\<forall>i. foundryID D f = Inr i \<longrightarrow> (\<exists>s. foldG (foundrySerialStep D ws f i) False ?outs = Inr s))"
    if f: "f \<in> set (newFoundries D ws acc ?outs)" for f
  proof -
    obtain i where i: "foundryID D f = Inr i" "foundryOwner f = Inr (AccountAddress acc)"
        "map_of (ws_InChains ws) (FoundryIDc i) = None"
      using f by (auto simp: newFoundries_eq isNewFoundry_def)
    have fo: "f \<in> set (foundriesOf ?outs)" using f by (auto simp: newFoundries_eq)
    then obtain nx where nx: "map_of (ws_OutChains ws) (FoundryIDc i) = Some nx"
      using foundry_filed [OF assms(2) _ i(1)] by (auto simp: set_foundriesOf)
    then obtain g where g: "nx = FoundryO g" "foundryID D g = Inr i" using chain_foundries(2) [OF assms(2)] by blast
    have "nx \<in> set ?outs" using chain_set_distinct(3) [OF assms(2)] map_of_SomeD [OF nx] by force
    then have "g = f" using assms(8) fo g i(1) by (metis distinct_map inj_onD set_foundriesOf)
    with tr(3) [OF i(3) nx] g have "ChainSTVF D api ws TransGenesis None (Some (FoundryO f)) = Inr ()" by simp
    from foundry_genesis [OF this i(1,2) assms(3-5)] i(1) show ?thesis by auto
  qed
  let ?xs = "map (\<lambda>f. unat (fo_SerialNumber f)) (newFoundries D ws acc ?outs)"
  have "sorted_wrt (\<lambda>f g. fo_SerialNumber f < fo_SerialNumber g) (newFoundries D ws acc ?outs)"
    by (rule new_foundries_sorted [OF _ assms(8)]) (use gen in blast)
  then have "sorted_wrt (<) ?xs" by (simp add: sorted_wrt_map word_less_nat_alt)
  moreover have sub: "set ?xs \<subseteq> {unat (ao_FoundryCounter a)<..unat (ao_FoundryCounter b)}"
    using gen by (auto simp: word_less_nat_alt word_le_nat_alt)
  moreover have "length ?xs = unat (ao_FoundryCounter b) - unat (ao_FoundryCounter a)"
  proof (cases "ao_FoundryCounter a = ao_FoundryCounter b")
    case True
    with sub show ?thesis by (simp add: subset_empty)
  next
    case False
    have "accountFoundryCounterSTVF D ws a b = Inr ()"
      using account_change [OF tr(1) [OF assms(3,5)] assms(4)]
      by (auto simp: accountStateChangeValid_def andthen_eq_Inr if_throw_eq_Inr)
    from foundryCounter_Inr(2) [OF this assms(7) False] show ?thesis by (simp add: assms(6))
  qed
  ultimately show ?thesis by (rule sorted_interval)
qed

text \<open>An account that creates its first foundry.\<close>

definition demo_account :: "u32 \<Rightarrow> account_output" where
  "demo_account n = \<lparr>ao_Amount = 5, ao_Mana = 0, ao_AccountID = [9], ao_FoundryCounter = n,
     ao_UnlockConditions = [AddressUC demo_owner], ao_Features = [], ao_ImmutableFeatures = []\<rparr>"

definition demo_creation :: "bytes \<Rightarrow> working_set" where
  "demo_creation i = (demo_ws [] [AccountO (demo_account 1), FoundryO (demo_foundry 0 [])])
     \<lparr>ws_InChains := [(AccountIDc [9], \<lparr>co_ChainID = AccountIDc [9], co_OutputID = demo_id, co_Output = AccountO (demo_account 0)\<rparr>)],
      ws_OutChains := [(AccountIDc [9], AccountO (demo_account 1)), (FoundryIDc i, FoundryO (demo_foundry 0 []))]\<rparr>"

lemma demo_creation_valid:
  assumes "foundryID ref_ledger (demo_foundry 0 []) = Inr i"
  shows "ExecFuncChainTransitions (ChainSTVF ref_ledger demo_api) (demo_creation i) = Inr (demo_creation i)"
proof -
  have own: "foundryOwner (demo_foundry 0 []) = Inr (AccountAddress [9])" "fo_SerialNumber (demo_foundry 0 []) = 1"
    by (simp_all add: foundryOwner_def ucsMustSet_eq derefG_def ucImmutableAccount_def) (simp add: demo_foundry_def)
  have a: "accountSTVF ref_ledger demo_api (demo_creation i)
      (Some \<lparr>co_ChainID = AccountIDc [9], co_OutputID = demo_id, co_Output = AccountO (demo_account 0)\<rparr>)
      TransStateChange (Some (demo_account 1)) = Inr ()"
    using own assms by (simp add: accountSTVF_def demo_creation_def demo_ws_def demo_tx_def derefG_def asAccount_def
        accountStateChangeValid_def demo_account_def featsEqual_def featsMustSet_eq ftBlockIssuer_def
        accountStakingSTVF_def ftStaking_def accountFoundryCounterSTVF_def countNewFoundriesStep_def
        accountBlockIssuerSTVF_def Let_def)
  have f: "foundrySTVF ref_ledger (demo_creation i) None TransGenesis (Some (demo_foundry 0 [])) = Inr ()"
    using own assms by (simp add: foundrySTVF_def derefG_def foundryGenesisValid_def schemeStateTransition_def
        scheme_genesis_iff ValueOrBigInt0_def demo_creation_def demo_ws_def demo_tx_def asAccount_def
        foundrySerialNumberValid_def demo_account_def foundrySerialStep_def Let_def)
  show ?thesis
    using a f by (simp add: ExecFuncChainTransitions_def check_Inr chainTransitions_def demo_creation_def
        ChainSTVF_def derefG_def nextAs_def)
qed

theorem new_foundry_serials_witness:
  "\<exists>i. map (\<lambda>f. unat (fo_SerialNumber f)) (newFoundries ref_ledger (demo_creation i) [9]
      [AccountO (demo_account 1), FoundryO (demo_foundry 0 [])]) = [1]"
proof -
  obtain i where i: "i \<noteq> replicate 38 0" "foundryID ref_tx_deps (demo_foundry 0 []) = Inr i"
    using demo_foundry_ID by blast
  have "foundryID ref_ledger (demo_foundry 0 []) = foundryID ref_tx_deps (demo_foundry 0 [])"
    by (simp add: foundryID_def FoundryIDFromAddressAndSerialNumberAndTokenScheme_def)
  with i(2) have f: "foundryID ref_ledger (demo_foundry 0 []) = Inr i" by simp
  have tx: "tx_Outputs (ws_Tx (demo_creation i)) = [AccountO (demo_account 1), FoundryO (demo_foundry 0 [])]"
    by (simp add: demo_creation_def demo_ws_def demo_tx_def)
  have e: "[9] \<noteq> emptyID" by (auto dest!: arg_cong [where f = length])
  have "OutputsChainOutputSet ref_ledger (tx_Outputs (ws_Tx (demo_creation i))) [] = Inr (ws_OutChains (demo_creation i))"
    using f i(1) unfolding tx by (simp add: OutputsChainOutputSet_def chainSetStep_def outChainID_def chainEmpty_def
        chainBytes_def demo_account_def Let_def demo_creation_def e)
  note os = this
  have c: "map_of (ws_InChains (demo_creation i)) (AccountIDc [9]) =
      Some \<lparr>co_ChainID = AccountIDc [9], co_OutputID = demo_id, co_Output = AccountO (demo_account 0)\<rparr>"
    "map_of (ws_OutChains (demo_creation i)) (AccountIDc [9]) = Some (AccountO (demo_account 1))"
    by (simp_all add: demo_creation_def)
  have a: "ao_AccountID (demo_account n) = [9]" "ao_FoundryCounter (demo_account n) = n" for n
    by (simp_all add: demo_account_def)
  have "map (\<lambda>f. unat (fo_SerialNumber f)) (newFoundries ref_ledger (demo_creation i) [9]
      (tx_Outputs (ws_Tx (demo_creation i)))) =
      [Suc (unat (ao_FoundryCounter (demo_account 0)))..<Suc (unat (ao_FoundryCounter (demo_account 1)))]"
    by (rule new_foundry_serials [OF demo_creation_valid [OF f] os c(1) _ c(2) a(1)])
      (simp_all add: tx foundriesOf_def)
  then show ?thesis by (intro exI [of _ i]) (simp only: tx a, simp)
qed

end
