(* ===== verification/Syntax_Validators.thy ===== *)
theory Syntax_Validators
  imports Byte_Order
begin

text \<open>
  The validation of slices, syntax_validator.go.  An element validation function of the code is a
  closure that may keep variables between its calls; here it takes the variables and returns them
  updated.  Several functions called on each element in turn are one validator over the product of their
  variables.  The locale @\<open>key_order\<close> states what makes a @\<open>Compare\<close> method sort by a key.
\<close>

type_synonym ('s, 'x) validator = "'s \<Rightarrow> nat \<Rightarrow> 'x \<Rightarrow> 's go"

definition plain :: "(nat \<Rightarrow> 'x \<Rightarrow> unit go) \<Rightarrow> (unit, 'x) validator" where
  "plain f = (\<lambda>_ i x. f i x)"

definition thenAlso :: "('s, 'x) validator \<Rightarrow> ('t, 'x) validator \<Rightarrow> ('s \<times> 't, 'x) validator" where
  "thenAlso f g = (\<lambda>(s, t) i x. andthen (f s i x) (\<lambda>s. andthen (g t i x) (\<lambda>t. Inr (s, t))))"

definition SliceValidator :: "('s, 'x) validator \<Rightarrow> 's \<Rightarrow> 'x list \<Rightarrow> unit go" where
  "SliceValidator f s elements =
    andthen (foldG (\<lambda>s (i, element). f s i element) s (List.enumerate 0 elements)) (\<lambda>_. Inr ())"

definition SliceValidatorMapper ::
    "('u \<Rightarrow> 'x) \<Rightarrow> ('s, 'x) validator \<Rightarrow> 's \<Rightarrow> 'u list \<Rightarrow> unit go" where
  "SliceValidatorMapper mapper f s elements =
    andthen (foldG (\<lambda>s (i, element). f s i (mapper element)) s (List.enumerate 0 elements)) (\<lambda>_. Inr ())"

text \<open>The variable @\<open>prev\<close>; the index of the previous element is only part of the messages.\<close>

definition LexicalOrderAndUniquenessValidator :: "('x \<Rightarrow> 'x \<Rightarrow> int) \<Rightarrow> ('x option, 'x) validator" where
  "LexicalOrderAndUniquenessValidator cmp prev i next1 =
    (case prev of
       None \<Rightarrow> Inr (Some next1)
     | Some p \<Rightarrow>
         if cmp p next1 = 1
         then throw (Wrap (Sentinel ''ErrArrayValidationOrderViolatesLexicalOrder'')
                ''element %d should have been before element %d'')
         else if cmp p next1 = 0
         then throw (Wrap (Sentinel ''ErrArrayValidationViolatesUniqueness'')
                ''element %d and element %d are duplicates'')
         else Inr (Some next1))"

text \<open>@\<open>cmp.Compare\<close> of the standard library on ordered values.\<close>

definition cmpCompare :: "'k::linorder \<Rightarrow> 'k \<Rightarrow> int" where
  "cmpCompare a b = (if a < b then - 1 else if a = b then 0 else 1)"

section \<open>Lemmas\<close>

named_theorems validator_iffs "which slices a validator accepts"

lemma foldG_map: "foldG f s (map g xs) = foldG (\<lambda>s x. f s (g x)) s xs"
  by (induction xs arbitrary: s) simp_all

lemma SliceValidatorMapper_eq: "SliceValidatorMapper g f s xs = SliceValidator f s (map g xs)"
proof -
  have "List.enumerate n (map g xs) = map (\<lambda>(i, x). (i, g x)) (List.enumerate n xs)" for n
    by (induction xs arbitrary: n) simp_all
  then show ?thesis
    by (simp add: SliceValidatorMapper_def SliceValidator_def foldG_map case_prod_beta')
qed

lemma foldG_both:
  "foldG (\<lambda>(s, t) x. andthen (f s x) (\<lambda>s. andthen (g t x) (\<lambda>t. Inr (s, t)))) (s, t) xs = Inr (s', t')
    \<longleftrightarrow> foldG f s xs = Inr s' \<and> foldG g t xs = Inr t'"
  by (induction xs arbitrary: s t) (auto simp: andthen_eq_Inr)

text \<open>A list of validators accepts what each of them accepts.\<close>

lemma thenAlso_accepts [validator_iffs]:
  "SliceValidator (thenAlso f g) (s, t) xs = Inr ()
    \<longleftrightarrow> SliceValidator f s xs = Inr () \<and> SliceValidator g t xs = Inr ()"
proof -
  let ?f = "\<lambda>s (i, x). f s i x" and ?g = "\<lambda>t (i, x). g t i x"
  have "(\<lambda>s (i, element). thenAlso f g s i element)
      = (\<lambda>(s, t) x. andthen (?f s x) (\<lambda>s. andthen (?g t x) (\<lambda>t. Inr (s, t))))"
    by (auto simp: thenAlso_def fun_eq_iff)
  then show ?thesis
    using foldG_both [of ?f ?g s t "List.enumerate 0 xs"] by (auto simp: SliceValidator_def andthen_eq_Inr)
qed

lemma plain_accepts [validator_iffs]:
  "SliceValidator (plain f) u xs = Inr () \<longleftrightarrow> (\<forall>i < length xs. f i (xs ! i) = Inr ())"
proof -
  have "foldG (\<lambda>s (i, element). plain f s i element) u (List.enumerate n ys) = Inr ()
      \<longleftrightarrow> (\<forall>i < length ys. f (n + i) (ys ! i) = Inr ())" for n ys u
  proof (induction ys arbitrary: n u)
    case (Cons y ys)
    have split: "(\<forall>i < Suc k. P i) \<longleftrightarrow> P 0 \<and> (\<forall>i < k. P (Suc i))" for k P
      by (auto simp: less_Suc_eq_0_disj)
    show ?case by (simp add: andthen_eq_Inr Cons.IH [unfolded plain_def] plain_def split)
  qed simp
  from this [where n = 0] show ?thesis by (simp add: SliceValidator_def andthen_eq_Inr)
qed

text \<open>A check that does not look at the index.\<close>

lemma plain_all:
  "(\<And>i x. f i x = g x) \<Longrightarrow> SliceValidator (plain f) u xs = Inr () \<longleftrightarrow> (\<forall>x \<in> set xs. g x = Inr ())"
  by (auto simp: plain_accepts all_set_conv_all_nth)

lemma SliceValidator_Nil [simp]: "SliceValidator f s [] = Inr ()"
  by (simp add: SliceValidator_def)

text \<open>A validator that panics on no element.\<close>

lemma foldG_not_panic:
  "(\<And>s x. x \<in> set xs \<Longrightarrow> \<not> is_panic (f s x)) \<Longrightarrow> \<not> is_panic (foldG f s xs)"
  by (induction xs arbitrary: s) (simp_all add: not_panic_andthen)

lemma SliceValidator_not_panic:
  assumes "\<And>s i x. x \<in> set xs \<Longrightarrow> \<not> is_panic (f s i x)"
  shows "\<not> is_panic (SliceValidator f s xs)"
  unfolding SliceValidator_def
  by (rule not_panic_andthen, rule foldG_not_panic)
    (use assms in \<open>auto simp: in_set_enumerate_eq\<close>)

lemma thenAlso_not_panic:
  "(\<And>s. \<not> is_panic (f s i x)) \<Longrightarrow> (\<And>t. \<not> is_panic (g t i x)) \<Longrightarrow> \<not> is_panic (thenAlso f g st i x)"
  by (cases st) (simp add: thenAlso_def not_panic_andthen)

text \<open>A validator that keeps a running sum below a bound.\<close>

lemma bounded_sum_accepts:
  fixes f :: "('w::len word, 'x) validator"
  assumes step: "\<And>s i x t. f s i x = Inr t \<longleftrightarrow> g x \<and> unat t = unat s + n x \<and> unat t \<le> M"
    and M: "M < 2 ^ LENGTH('w)" and s: "unat s \<le> M"
  shows "SliceValidator f s xs = Inr () \<longleftrightarrow> (\<forall>x \<in> set xs. g x) \<and> unat s + (\<Sum>x\<leftarrow>xs. n x) \<le> M"
proof -
  have "(\<exists>t. foldG (\<lambda>s (i, x). f s i x) s (List.enumerate k ys) = Inr t)
      \<longleftrightarrow> (\<forall>x \<in> set ys. g x) \<and> unat s + (\<Sum>x\<leftarrow>ys. n x) \<le> M" if "unat s \<le> M" for k ys s
    using that
  proof (induction ys arbitrary: k s)
    case (Cons y ys)
    show ?case
    proof
      assume "\<exists>t. foldG (\<lambda>s (i, x). f s i x) s (List.enumerate k (y # ys)) = Inr t"
      then obtain u t where "f s k y = Inr u" "foldG (\<lambda>s (i, x). f s i x) u (List.enumerate (Suc k) ys) = Inr t"
        by (auto simp: andthen_eq_Inr)
      with Cons.IH [of u "Suc k"]
      show "(\<forall>x \<in> set (y # ys). g x) \<and> unat s + (\<Sum>x\<leftarrow>y # ys. n x) \<le> M" by (auto simp: step)
    next
      assume *: "(\<forall>x \<in> set (y # ys). g x) \<and> unat s + (\<Sum>x\<leftarrow>y # ys. n x) \<le> M"
      then have "unat s + n y < 2 ^ LENGTH('w)" using M by simp
      then have u: "unat (word_of_nat (unat s + n y) :: 'w word) = unat s + n y"
        by (simp only: unat_of_nat take_bit_nat_eq_self mod_less)
      then have "f s k y = Inr (word_of_nat (unat s + n y))" using * by (simp add: step)
      moreover have "\<exists>t. foldG (\<lambda>s (i, x). f s i x) (word_of_nat (unat s + n y)) (List.enumerate (Suc k) ys) = Inr t"
        using Cons.IH [of "word_of_nat (unat s + n y)" "Suc k"] * u by simp
      ultimately show "\<exists>t. foldG (\<lambda>s (i, x). f s i x) s (List.enumerate k (y # ys)) = Inr t" by simp
    qed
  qed simp
  from this [OF s, of 0 xs] show ?thesis by (simp add: SliceValidator_def andthen_eq_Inr)
qed

text \<open>A validator that collects the keys it sees and refuses a repeated one.\<close>

lemma distinct_keys_accepts:
  assumes step: "\<And>seen i x t. f seen i x = Inr t \<longleftrightarrow>
      (\<exists>k. key x = Inr k \<and> (case k of None \<Rightarrow> t = seen | Some c \<Rightarrow> c \<notin> set seen \<and> t = c # seen))"
  shows "SliceValidator f [] xs = Inr () \<longleftrightarrow>
    (\<forall>x \<in> set xs. ok (key x)) \<and> distinct (List.map_filter (\<lambda>x. projr (key x)) xs)"
proof -
  have "(\<exists>t. foldG (\<lambda>s (i, x). f s i x) seen (List.enumerate n ys) = Inr t)
      \<longleftrightarrow> (\<forall>x \<in> set ys. ok (key x)) \<and> distinct (List.map_filter (\<lambda>x. projr (key x)) ys)
        \<and> set seen \<inter> set (List.map_filter (\<lambda>x. projr (key x)) ys) = {}" for n ys seen
  proof (induction ys arbitrary: n seen)
    case Nil
    show ?case by (simp add: map_filter_simps)
  next
    case (Cons y ys)
    show ?case
    proof (cases "key y")
      case (Inl e)
      then show ?thesis by (simp add: andthen_eq_Inr step)
    next
      case (Inr k)
      then have "f seen n y = Inr t \<longleftrightarrow>
          (case k of None \<Rightarrow> t = seen | Some c \<Rightarrow> c \<notin> set seen \<and> t = c # seen)" for t
        by (simp add: step)
      then show ?thesis
        using Inr Cons.IH by (cases k) (auto simp: andthen_eq_Inr map_filter_simps)
    qed
  qed
  from this [of "[]" 0 xs] show ?thesis by (simp add: SliceValidator_def andthen_eq_Inr)
qed

section \<open>Comparison by a key\<close>

locale key_order =
  fixes compare :: "'x \<Rightarrow> 'x \<Rightarrow> int" and key :: "'x \<Rightarrow> 'k::linorder"
  assumes compare_key: "compare a b = cmpCompare (key a) (key b)"
begin

lemma step_Inr:
  "LexicalOrderAndUniquenessValidator compare prev i x = Inr s
    \<longleftrightarrow> s = Some x \<and> (\<forall>p \<in> set_option prev. key p < key x)"
  by (auto simp: LexicalOrderAndUniquenessValidator_def compare_key cmpCompare_def split: option.splits if_splits)

lemma accepts:
  "SliceValidator (LexicalOrderAndUniquenessValidator compare) None xs = Inr ()
    \<longleftrightarrow> sorted_wrt (<) (map key xs)"
proof -
  have "(\<exists>s. foldG (\<lambda>s (i, x). LexicalOrderAndUniquenessValidator compare s i x) prev
        (List.enumerate n ys) = Inr s)
      \<longleftrightarrow> sorted_wrt (<) (map key ys) \<and> (\<forall>p \<in> set_option prev. \<forall>y \<in> set ys. key p < key y)"
    for n prev ys
  proof (induction ys arbitrary: n prev)
    case (Cons y ys)
    then show ?case by (auto simp: andthen_eq_Inr step_Inr intro: less_trans)
  qed simp
  from this [of None 0 xs] show ?thesis by (simp add: SliceValidator_def andthen_eq_Inr)
qed

lemma accepts_distinct:
  "SliceValidator (LexicalOrderAndUniquenessValidator compare) None xs = Inr () \<Longrightarrow> distinct (map key xs)"
  by (auto simp: accepts strict_sorted_iff)

lemma not_panic: "\<not> is_panic (LexicalOrderAndUniquenessValidator compare prev i x)"
  by (auto simp: LexicalOrderAndUniquenessValidator_def split: option.splits)

end

lemma bytesCompare_cmp: "bytesCompare a b = cmpCompare a b"
  by (simp add: bytesCompare_def cmpCompare_def)

end
