(* ===== verification/Output_Rules.thy ===== *)
theory Output_Rules
  imports Output_Syntax
begin

text \<open>
  What the syntactical validation of outputs promises: order and uniqueness of conditions, features and
  chains, bounds of the amounts, and that no output sits at an address that cannot receive it.
\<close>

interpretation uc_order: key_order ucCompare ucType
  by unfold_locales (simp add: ucCompare_def)

interpretation feat_order: key_order featCompare featType
  by unfold_locales (simp add: featCompare_def)

lemma distinct_of_sorted: "sorted_wrt (<) (xs :: 'a::linorder list) \<Longrightarrow> distinct xs"
  by (simp add: strict_sorted_iff)

lemma deposit_step_iff:
  assumes "safemath64 D"
  shows "OutputsSyntacticalDepositAmount D api s i out = Inr t \<longleftrightarrow>
    (outAmount out \<noteq> 0 \<and> ok (CoversMinDeposit D (api_StorageScoreStructure api) out (outAmount out))
      \<and> (\<exists>u. outUCSet out = Inr u \<and>
           returnDepositCheck D (api_StorageScoreStructure api) (outAmount out) (ucStorageDepositReturn u) = Inr ()))
    \<and> unat t = unat s + unat (outAmount out) \<and> unat t \<le> unat (api_TokenSupply api)"
  by (auto simp: OutputsSyntacticalDepositAmount_def Let_def andthen_eq_Inr if_throw_eq_Inr ok_iff not_less
      checked_arith.add_Inr_iff [OF assms] word_le_nat_alt)

lemma deposits_accepted:
  assumes "safemath64 D"
  shows "SliceValidator (OutputsSyntacticalDepositAmount D api) 0 outs = Inr () \<longleftrightarrow>
    (\<forall>out \<in> set outs. outAmount out \<noteq> 0
      \<and> ok (CoversMinDeposit D (api_StorageScoreStructure api) out (outAmount out))
      \<and> (\<exists>u. outUCSet out = Inr u \<and>
           returnDepositCheck D (api_StorageScoreStructure api) (outAmount out) (ucStorageDepositReturn u) = Inr ()))
    \<and> (\<Sum>out\<leftarrow>outs. unat (outAmount out)) \<le> unat (api_TokenSupply api)"
  using bounded_sum_accepts [where f = "OutputsSyntacticalDepositAmount D api" and s = 0 and xs = outs,
      OF deposit_step_iff [OF assms] unat_less_pow]
  by simp

lemma mana_accepted:
  assumes "safemath64 D"
  shows "SliceValidator (OutputsSyntacticalStoredMana D m) 0 outs = Inr () \<longleftrightarrow>
    (\<Sum>out\<leftarrow>outs. unat (outStoredMana out)) \<le> unat m"
proof -
  have "OutputsSyntacticalStoredMana D m s i out = Inr t \<longleftrightarrow>
      True \<and> unat t = unat s + unat (outStoredMana out) \<and> unat t \<le> unat m" for s i out t
    by (auto simp: OutputsSyntacticalStoredMana_def andthen_eq_Inr if_throw_eq_Inr not_less
        checked_arith.add_Inr_iff [OF assms] word_le_nat_alt)
  from bounded_sum_accepts [where f = "OutputsSyntacticalStoredMana D m" and s = 0 and xs = outs, OF this unat_less_pow]
  show ?thesis by simp
qed

text \<open>The chains that have an ID on the output side.\<close>

definition namedChain :: "'a ledger_deps_scheme \<Rightarrow> ledger_output \<Rightarrow> chain_id option" where
  "namedChain D out =
    (case outChainID D out of Inr (Some c) \<Rightarrow> if chainEmpty c then None else Some c | _ \<Rightarrow> None)"

lemma chains_accepted:
  "SliceValidator (OutputsSyntacticalChainConstrainedOutputUniqueness D) [] outs = Inr () \<longleftrightarrow>
    (\<forall>out \<in> set outs. ok (outChainID D out)) \<and> distinct (List.map_filter (namedChain D) outs)"
proof -
  let ?key = "\<lambda>out. andthen (outChainID D out) (\<lambda>cid.
    Inr (case cid of Some c \<Rightarrow> if chainEmpty c then None else Some c | None \<Rightarrow> None))"
  have "OutputsSyntacticalChainConstrainedOutputUniqueness D seen i out = Inr t \<longleftrightarrow>
      (\<exists>k. ?key out = Inr k \<and> (case k of None \<Rightarrow> t = seen | Some c \<Rightarrow> c \<notin> set seen \<and> t = c # seen))"
    for seen i out t
  proof (cases "outChainID D out")
    case (Inr cid)
    then show ?thesis
      by (cases cid) (auto simp: OutputsSyntacticalChainConstrainedOutputUniqueness_def if_throw_eq_Inr)
  qed (simp add: OutputsSyntacticalChainConstrainedOutputUniqueness_def)
  note iff = distinct_keys_accepts [where f = "OutputsSyntacticalChainConstrainedOutputUniqueness D" and key = ?key,
      OF this, of outs]
  have "List.map_filter (\<lambda>out. projr (?key out)) outs = List.map_filter (namedChain D) outs"
    if "\<forall>out \<in> set outs. ok (outChainID D out)"
    using that
    by (induction outs) (auto simp: map_filter_simps namedChain_def ok_iff split: option.splits)
  moreover have "ok (?key out) = ok (outChainID D out)" for out by (simp add: ok_andthen) (simp add: ok_iff)
  ultimately show ?thesis using iff by auto
qed

lemma types_accepted:
  "OutputsSyntacticalUnlockConditionLexicalOrderAndUniqueness i out = Inr () \<Longrightarrow>
     distinct (map ucType (outUCs out))"
  by (cases out; simp add: OutputsSyntacticalUnlockConditionLexicalOrderAndUniqueness_def
      uc_order.accepts_distinct)

lemma feature_types_accepted:
  "OutputsSyntacticalFeaturesLexicalOrderAndUniqueness i out = Inr () \<Longrightarrow>
     distinct (map featType (outFeatures out))
     \<and> (\<forall>fs. outImmutableFeatures out = Some fs \<longrightarrow> distinct (map featType fs))"
  by (cases out; auto simp: OutputsSyntacticalFeaturesLexicalOrderAndUniqueness_def Let_def andthen_eq_Inr
      dest: feat_order.accepts_distinct)

lemma SyntacticallyValidateOutputs_iff:
  assumes "safemath64 D"
  shows "SyntacticallyValidateOutputs D api m c outs = Inr () \<longleftrightarrow>
    (\<Sum>out\<leftarrow>outs. unat (outAmount out)) \<le> unat (api_TokenSupply api)
    \<and> (\<Sum>out\<leftarrow>outs. unat (outStoredMana out)) \<le> unat m
    \<and> distinct (List.map_filter (namedChain D) outs)
    \<and> (\<forall>out \<in> set outs.
        ok (outChainID D out)
      \<and> outAmount out \<noteq> 0
      \<and> ok (CoversMinDeposit D (api_StorageScoreStructure api) out (outAmount out))
      \<and> (\<exists>u. outUCSet out = Inr u \<and>
           returnDepositCheck D (api_StorageScoreStructure api) (outAmount out) (ucStorageDepositReturn u) = Inr ())
      \<and> OutputsSyntacticalUnlockConditionLexicalOrderAndUniqueness 0 out = Inr ()
      \<and> OutputsSyntacticalFeaturesLexicalOrderAndUniqueness 0 out = Inr ()
      \<and> OutputsSyntacticalMetadataFeatureMaxSize D 0 out = Inr ()
      \<and> OutputsSyntacticalExpirationAndTimelock 0 out = Inr ()
      \<and> OutputsSyntacticalNativeTokens 0 out = Inr ()
      \<and> OutputsSyntacticalFoundry D 0 out = Inr ()
      \<and> OutputsSyntacticalAccount 0 out = Inr ()
      \<and> OutputsSyntacticalAnchor 0 out = Inr ()
      \<and> OutputsSyntacticalNFT 0 out = Inr ()
      \<and> OutputsSyntacticalDelegation 0 out = Inr ()
      \<and> OutputsSyntacticalAddressRestrictions 0 out = Inr ()
      \<and> OutputsSyntacticalImplicitAccountCreationAddress 0 out = Inr ()
      \<and> OutputsSyntacticalCommitmentInput c 0 out = Inr ())"
proof -
  have i:
    "OutputsSyntacticalUnlockConditionLexicalOrderAndUniqueness i = OutputsSyntacticalUnlockConditionLexicalOrderAndUniqueness 0"
    "OutputsSyntacticalFeaturesLexicalOrderAndUniqueness i = OutputsSyntacticalFeaturesLexicalOrderAndUniqueness 0"
    "OutputsSyntacticalMetadataFeatureMaxSize D i = OutputsSyntacticalMetadataFeatureMaxSize D 0"
    "OutputsSyntacticalExpirationAndTimelock i = OutputsSyntacticalExpirationAndTimelock 0"
    "OutputsSyntacticalNativeTokens i = OutputsSyntacticalNativeTokens 0"
    "OutputsSyntacticalFoundry D i = OutputsSyntacticalFoundry D 0"
    "OutputsSyntacticalAccount i = OutputsSyntacticalAccount 0"
    "OutputsSyntacticalAnchor i = OutputsSyntacticalAnchor 0"
    "OutputsSyntacticalNFT i = OutputsSyntacticalNFT 0"
    "OutputsSyntacticalDelegation i = OutputsSyntacticalDelegation 0"
    "OutputsSyntacticalAddressRestrictions i = OutputsSyntacticalAddressRestrictions 0"
    "OutputsSyntacticalImplicitAccountCreationAddress i = OutputsSyntacticalImplicitAccountCreationAddress 0"
    "OutputsSyntacticalCommitmentInput c i = OutputsSyntacticalCommitmentInput c 0" for i
    by (simp_all add: fun_eq_iff OutputsSyntacticalUnlockConditionLexicalOrderAndUniqueness_def
        OutputsSyntacticalFeaturesLexicalOrderAndUniqueness_def OutputsSyntacticalMetadataFeatureMaxSize_def
        OutputsSyntacticalExpirationAndTimelock_def OutputsSyntacticalNativeTokens_def
        OutputsSyntacticalFoundry_def OutputsSyntacticalAccount_def OutputsSyntacticalAnchor_def
        OutputsSyntacticalNFT_def OutputsSyntacticalDelegation_def OutputsSyntacticalAddressRestrictions_def
        OutputsSyntacticalImplicitAccountCreationAddress_def OutputsSyntacticalCommitmentInput_def)
  show ?thesis
    unfolding SyntacticallyValidateOutputs_def outputValidators_def thenAlso_accepts
      deposits_accepted [OF assms] mana_accepted [OF assms] chains_accepted
      plain_all [where g = "OutputsSyntacticalUnlockConditionLexicalOrderAndUniqueness 0", OF fun_cong [OF i(1)]]
      plain_all [where g = "OutputsSyntacticalFeaturesLexicalOrderAndUniqueness 0", OF fun_cong [OF i(2)]]
      plain_all [where g = "OutputsSyntacticalMetadataFeatureMaxSize D 0", OF fun_cong [OF i(3)]]
      plain_all [where g = "OutputsSyntacticalExpirationAndTimelock 0", OF fun_cong [OF i(4)]]
      plain_all [where g = "OutputsSyntacticalNativeTokens 0", OF fun_cong [OF i(5)]]
      plain_all [where g = "OutputsSyntacticalFoundry D 0", OF fun_cong [OF i(6)]]
      plain_all [where g = "OutputsSyntacticalAccount 0", OF fun_cong [OF i(7)]]
      plain_all [where g = "OutputsSyntacticalAnchor 0", OF fun_cong [OF i(8)]]
      plain_all [where g = "OutputsSyntacticalNFT 0", OF fun_cong [OF i(9)]]
      plain_all [where g = "OutputsSyntacticalDelegation 0", OF fun_cong [OF i(10)]]
      plain_all [where g = "OutputsSyntacticalAddressRestrictions 0", OF fun_cong [OF i(11)]]
      plain_all [where g = "OutputsSyntacticalImplicitAccountCreationAddress 0", OF fun_cong [OF i(12)]]
      plain_all [where g = "OutputsSyntacticalCommitmentInput c 0", OF fun_cong [OF i(13)]]
    by blast
qed

section \<open>Bounds\<close>

text \<open>What an accepted list of outputs gives for each of its outputs.\<close>

lemma accepted_output:
  assumes "safemath64 D" "SyntacticallyValidateOutputs D api m c outs = Inr ()" "out \<in> set outs"
  shows "\<exists>u fs. outUCSet out = Inr u \<and> ucsSet (outUCs out) = Inr u
    \<and> outFeatSet out = Inr fs \<and> featsSet (outFeatures out) = Inr fs"
proof -
  note iff = SyntacticallyValidateOutputs_iff [OF assms(1), THEN iffD1, OF assms(2)]
  have "distinct (map ucType (outUCs out))" "distinct (map featType (outFeatures out))"
    using iff assms(3) types_accepted feature_types_accepted by blast+
  then show ?thesis
    by (simp add: outUCSet_def outFeatSet_def ucsMustSet_eq featsMustSet_eq ucsSet_def featsSet_def sliceSet_eq)
qed

text \<open>C15: the outputs of an accepted list stay together within the token supply and the largest mana
  value, each holds at least its storage deposit, and what an output has to return lies between the
  storage deposit of the output that returns it and its own amount.\<close>

theorem validated_outputs_bounds:
  assumes "safemath64 D" "SyntacticallyValidateOutputs D api m c outs = Inr ()"
  shows "(\<Sum>out\<leftarrow>outs. unat (outAmount out)) \<le> unat (api_TokenSupply api)
    \<and> (\<Sum>out\<leftarrow>outs. unat (outStoredMana out)) \<le> unat m
    \<and> (\<forall>out \<in> set outs. outAmount out \<noteq> 0
        \<and> (\<exists>s. outStorageScore D (api_StorageScoreStructure api) out = Inr s
            \<and> unat (ssp_StorageCost (sss_Parameters (api_StorageScoreStructure api))) * unat s
                \<le> unat (outAmount out))
        \<and> (\<forall>a n. StorageDepositReturnUC a n \<in> set (outUCs out) \<longrightarrow> n \<le> outAmount out
            \<and> (\<exists>s. basicStorageScore D (api_StorageScoreStructure api) (basicWithAddress a) = Inr s
                \<and> unat (ssp_StorageCost (sss_Parameters (api_StorageScoreStructure api))) * unat s \<le> unat n)))"
    (is "?A \<and> ?M \<and> (\<forall>out \<in> set outs. ?P out)")
proof -
  note iff = SyntacticallyValidateOutputs_iff [OF assms(1), THEN iffD1, OF assms(2)]
  have "?P out" if out: "out \<in> set outs" for out
  proof (intro conjI allI impI)
    note o = iff [THEN conjunct2, THEN conjunct2, THEN conjunct2, rule_format, OF out]
    show "outAmount out \<noteq> 0" using o by blast
    show "\<exists>s. outStorageScore D (api_StorageScoreStructure api) out = Inr s
            \<and> unat (ssp_StorageCost (sss_Parameters (api_StorageScoreStructure api))) * unat s
                \<le> unat (outAmount out)"
      using o CoversMinDeposit_iff [OF assms(1)] by (auto simp: ok_iff)
    fix a n assume s: "StorageDepositReturnUC a n \<in> set (outUCs out)"
    obtain u where u: "outUCSet out = Inr u" "ucsSet (outUCs out) = Inr u"
      using accepted_output [OF assms out] by blast
    have "ucStorageDepositReturn u = Some (a, n)" using ucAccessors(4) [OF u(2)] s by simp
    then have "returnDepositCheck D (api_StorageScoreStructure api) (outAmount out) (Some (a, n)) = Inr ()"
      using o u by auto
    then show "n \<le> outAmount out"
      and "\<exists>s. basicStorageScore D (api_StorageScoreStructure api) (basicWithAddress a) = Inr s
                \<and> unat (ssp_StorageCost (sss_Parameters (api_StorageScoreStructure api))) * unat s \<le> unat n"
      by (auto simp: returnDepositCheck_def MinStorageDepositForReturnOutput_def andthen_eq_Inr if_throw_eq_Inr
          not_less checked_arith.mul_Inr_iff [OF assms(1)] word_le_nat_alt)
  qed
  with iff show ?thesis by blast
qed

section \<open>Restricted addresses\<close>

text \<open>What an output brings that an address may refuse, and the addresses that can come to control it.\<close>

fun carries :: "ledger_output \<Rightarrow> capability \<Rightarrow> bool" where
  "carries out CapNativeTokens = (\<exists>i n. NativeTokenF i n \<in> set (outFeatures out))"
| "carries out CapMana = (outStoredMana out \<noteq> 0)"
| "carries out CapTimelock = (\<exists>s. TimelockUC s \<in> set (outUCs out))"
| "carries out CapExpiration = (\<exists>a s. ExpirationUC a s \<in> set (outUCs out))"
| "carries out CapStorageDepositReturn = (\<exists>a n. StorageDepositReturnUC a n \<in> set (outUCs out))"
| "carries out CapAccountOutputs = (outType out = 1)"
| "carries out CapAnchorOutputs = (outType out = 2)"
| "carries out CapNFTOutputs = (outType out = 4)"
| "carries out CapDelegationOutputs = (outType out = 5)"

definition controls :: "address \<Rightarrow> ledger_output \<Rightarrow> bool" where
  "controls a out \<longleftrightarrow> AddressUC a \<in> set (outUCs out) \<or> StateControllerAddressUC a \<in> set (outUCs out)
     \<or> GovernorAddressUC a \<in> set (outUCs out) \<or> (\<exists>s. ExpirationUC a s \<in> set (outUCs out))"

lemma restrict1_iff: "restrict1 a c p e = Inr () \<longleftrightarrow> cannotReceive a c = Some True \<longrightarrow> p = Inr False"
proof (cases p)
  case (Inr b)
  then show ?thesis by (cases b) (simp_all add: restrict1_def)
qed (simp add: restrict1_def)

lemma checkAddressRestrictions_iff:
  assumes "outUCSet out = Inr u" "ucsSet (outUCs out) = Inr u" "outFeatSet out = Inr fs" "featsSet (outFeatures out) = Inr fs"
  shows "checkAddressRestrictions out a = Inr () \<longleftrightarrow>
    (\<forall>cap. cannotReceive a cap = Some True \<longrightarrow> \<not> carries out cap)"
proof -
  have all: "(\<forall>cap. P cap) \<longleftrightarrow> P CapNativeTokens \<and> P CapMana \<and> P CapTimelock \<and> P CapExpiration
      \<and> P CapStorageDepositReturn \<and> P CapAccountOutputs \<and> P CapAnchorOutputs \<and> P CapNFTOutputs
      \<and> P CapDelegationOutputs" for P
    by (metis capability.exhaust)
  note acc = ucAccessors [OF assms(2)]
  have p: "HasTimelockCondition u \<longleftrightarrow> carries out CapTimelock"
    "HasExpirationCondition u \<longleftrightarrow> carries out CapExpiration"
    "HasStorageDepositReturnCondition u \<longleftrightarrow> carries out CapStorageDepositReturn"
    "HasNativeTokenFeature fs \<longleftrightarrow> carries out CapNativeTokens"
    by (simp_all add: HasTimelockCondition_def HasExpirationCondition_def HasStorageDepositReturnCondition_def acc
        ftAccessors(4) [OF assms(4)])
  show ?thesis
    by (simp add: checkAddressRestrictions_def andthen_eq_Inr restrict1_iff assms(1,3) p all del: carries.simps(1,3-5))
qed

lemma addressRestrictions_accepted:
  assumes "outUCSet out = Inr u" "ucsSet (outUCs out) = Inr u" "outFeatSet out = Inr fs" "featsSet (outFeatures out) = Inr fs"
  shows "OutputsSyntacticalAddressRestrictions i out = Inr () \<longleftrightarrow>
    (\<forall>a cap. controls a out \<longrightarrow> cannotReceive a cap = Some True \<longrightarrow> \<not> carries out cap)"
proof -
  have r: "restrictedBy out x = Inr () \<longleftrightarrow>
      (\<forall>a \<in> set_option x. \<forall>cap. cannotReceive a cap = Some True \<longrightarrow> \<not> carries out cap)" for x
    by (cases x) (simp_all add: restrictedBy_def checkAddressRestrictions_iff [OF assms])
  have e: "a \<in> set_option (map_option fst (ucExpiration u)) \<longleftrightarrow> (\<exists>s. ExpirationUC a s \<in> set (outUCs out))" for a
    using ucAccessors(3) [OF assms(2)] by (cases "ucExpiration u") (auto simp: ucAccessors(3) [OF assms(2), symmetric])
  have "OutputsSyntacticalAddressRestrictions i out = Inr () \<longleftrightarrow>
      restrictedBy out (ucAddress u) = Inr () \<and> restrictedBy out (ucStateControllerAddress u) = Inr ()
      \<and> restrictedBy out (ucGovernorAddress u) = Inr () \<and> restrictedBy out (map_option fst (ucExpiration u)) = Inr ()"
    by (simp add: OutputsSyntacticalAddressRestrictions_def assms(1) andthen_eq_Inr)
  also have "\<dots> \<longleftrightarrow> (\<forall>a cap. controls a out \<longrightarrow> cannotReceive a cap = Some True \<longrightarrow> \<not> carries out cap)"
    unfolding r Ball_def e controls_def by (auto simp: ucAccessors [OF assms(2)] elem_set)
  finally show ?thesis .
qed

lemma restricted_outputs:
  assumes "safemath64 D" "SyntacticallyValidateOutputs D api m c outs = Inr ()"
    and "out \<in> set outs" "controls a out"
  shows "(cannotReceive a cap = Some True \<longrightarrow> \<not> carries out cap)
    \<and> (addrType a = 32 \<longrightarrow> ((\<exists>x. out = BasicO x) \<or> (\<exists>x. out = FoundryO x))
        \<and> \<not> carries out CapTimelock \<and> \<not> carries out CapExpiration \<and> \<not> carries out CapStorageDepositReturn)"
proof -
  note iff = SyntacticallyValidateOutputs_iff [OF assms(1), THEN iffD1, OF assms(2)]
  obtain u fs where u: "outUCSet out = Inr u" "ucsSet (outUCs out) = Inr u"
    and fs: "outFeatSet out = Inr fs" "featsSet (outFeatures out) = Inr fs"
    using accepted_output [OF assms(1,2,3)] by blast
  have 1: "cannotReceive a cap = Some True \<Longrightarrow> \<not> carries out cap" for cap
    using iff assms(3,4) addressRestrictions_accepted [OF u fs] by blast
  have implicit: "cannotReceive a cap = Some True" if "addrType a = 32" "cap \<noteq> CapNativeTokens" "cap \<noteq> CapMana" for cap
    using that by (cases a; cases cap; simp add: cannotReceive_def)
  have i: "OutputsSyntacticalImplicitAccountCreationAddress 0 out = Inr ()" using iff assms(3) by blast
  have "(\<exists>x. out = BasicO x) \<or> (\<exists>x. out = FoundryO x)" if "addrType a = 32"
  proof (cases out)
    case (AccountO x)
    then show ?thesis using 1 [OF implicit [OF that, of CapAccountOutputs]] by simp
  next
    case (AnchorO x)
    then show ?thesis using 1 [OF implicit [OF that, of CapAnchorOutputs]] by simp
  next
    case (NFTO x)
    then show ?thesis using 1 [OF implicit [OF that, of CapNFTOutputs]] by simp
  next
    case (DelegationO x)
    then show ?thesis using 1 [OF implicit [OF that, of CapDelegationOutputs]] by simp
  next
    case (ImplicitAccountO x)
    then show ?thesis using i by (simp add: OutputsSyntacticalImplicitAccountCreationAddress_def)
  qed simp_all
  moreover have "\<not> carries out CapTimelock \<and> \<not> carries out CapExpiration \<and> \<not> carries out CapStorageDepositReturn"
    if "addrType a = 32"
    using 1 [OF implicit [OF that, of CapTimelock]] 1 [OF implicit [OF that, of CapExpiration]]
      1 [OF implicit [OF that, of CapStorageDepositReturn]]
    by (simp del: carries.simps)
  ultimately show ?thesis using 1 by blast
qed

section \<open>Chains\<close>

text \<open>What is asked of the single chain outputs.\<close>

definition chainOutputFit :: "'a ledger_deps_scheme \<Rightarrow> ledger_output \<Rightarrow> bool" where
  "chainOutputFit D out =
    (case out of
       AccountO a \<Rightarrow>
         (ao_AccountID a = emptyID \<longrightarrow> ao_FoundryCounter a = 0)
         \<and> AddressUC (AccountAddress (ao_AccountID a)) \<notin> set (ao_UnlockConditions a)
         \<and> (\<forall>s. StakingF s \<in> set (ao_Features a) \<longrightarrow>
              sf_StakedAmount s \<le> ao_Amount a \<and> (\<exists>b. BlockIssuerF b \<in> set (ao_Features a)))
     | AnchorO a \<Rightarrow>
         (if an_AnchorID a = emptyID then an_StateIndex a = 0
          else StateControllerAddressUC (AnchorAddress (an_AnchorID a)) \<notin> set (an_UnlockConditions a)
             \<and> GovernorAddressUC (AnchorAddress (an_AnchorID a)) \<notin> set (an_UnlockConditions a))
     | FoundryO f \<Rightarrow>
         0 < sts_MaximumSupply (fo_TokenScheme f)
         \<and> sts_MeltedTokens (fo_TokenScheme f) \<le> sts_MintedTokens (fo_TokenScheme f)
         \<and> sts_MintedTokens (fo_TokenScheme f) - sts_MeltedTokens (fo_TokenScheme f) \<le> sts_MaximumSupply (fo_TokenScheme f)
         \<and> (\<forall>i n. NativeTokenF i n \<in> set (fo_Features f) \<longrightarrow> foundryID D f = Inr i)
     | NFTO n \<Rightarrow>
         no_NFTID n \<noteq> emptyID \<longrightarrow> AddressUC (NFTAddress (no_NFTID n)) \<notin> set (no_UnlockConditions n)
     | DelegationO d \<Rightarrow> do_ValidatorAddress d \<noteq> emptyID
     | _ \<Rightarrow> True)"

lemma owner_Inr:
  assumes "ucsSet ucs1 = Inr u" "addressOwner ucs1 = Inr a"
  shows "AddressUC b \<in> set ucs1 \<longleftrightarrow> a = b"
proof -
  have "ucAddress u = Some a"
    using assms by (cases "ucAddress u") (auto simp: addressOwner_def ucsMustSet_Inr andthen_eq_Inr derefG_def)
  then show ?thesis using ucAccessors(1) [OF assms(1), of b] by auto
qed

lemma account_accepted:
  assumes "ucsSet (ao_UnlockConditions a) = Inr u" "featsSet (ao_Features a) = Inr fs"
    and "OutputsSyntacticalAccount i (AccountO a) = Inr ()"
  shows "chainOutputFit D (AccountO a)"
proof -
  have fs: "outFeatSet (AccountO a) = Inr fs" using assms(2) by (simp add: outFeatSet_def featsMustSet_Inr)
  obtain owner1 where o: "addressOwner (ao_UnlockConditions a) = Inr owner1"
      "owner1 \<noteq> AccountAddress (ao_AccountID a)"
    and e: "ao_AccountID a = emptyID \<longrightarrow> ao_FoundryCounter a = 0"
    and s: "(case ftStaking fs of None \<Rightarrow> True
      | Some s \<Rightarrow> sf_StakedAmount s \<le> ao_Amount a \<and> ftBlockIssuer fs \<noteq> None)"
    using assms(3)
    by (cases "ftStaking fs")
      (auto simp: OutputsSyntacticalAccount_def fs andthen_eq_Inr if_throw_eq_Inr not_less)
  have "sf_StakedAmount s \<le> ao_Amount a \<and> (\<exists>b. BlockIssuerF b \<in> set (ao_Features a))"
    if "StakingF s \<in> set (ao_Features a)" for s
  proof -
    have "ftStaking fs = Some s" using that ftAccessors(3) [OF assms(2)] by simp
    with s have "sf_StakedAmount s \<le> ao_Amount a" "ftBlockIssuer fs \<noteq> None" by simp_all
    then show ?thesis using ftAccessors(2) [OF assms(2)] by (cases "ftBlockIssuer fs") auto
  qed
  with o e show ?thesis by (simp add: chainOutputFit_def owner_Inr [OF assms(1) o(1)])
qed

lemma anchor_accepted:
  assumes "ucsSet (an_UnlockConditions a) = Inr u" "OutputsSyntacticalAnchor i (AnchorO a) = Inr ()"
  shows "chainOutputFit D (AnchorO a)"
proof (cases "an_AnchorID a = emptyID")
  case True
  then show ?thesis using assms(2)
    by (simp add: chainOutputFit_def OutputsSyntacticalAnchor_def if_throw_eq_Inr)
next
  case False
  then obtain s g where "anchorStateController a = Inr s" "s \<noteq> AnchorAddress (an_AnchorID a)"
      "anchorGovernor a = Inr g" "g \<noteq> AnchorAddress (an_AnchorID a)"
    using assms(2) by (auto simp: OutputsSyntacticalAnchor_def andthen_eq_Inr if_throw_eq_Inr)
  moreover have "ucsMustSet (an_UnlockConditions a) = Inr u" using assms(1) by (simp add: ucsMustSet_Inr)
  ultimately have "ucStateControllerAddress u = Some s" "ucGovernorAddress u = Some g"
    by (auto simp: anchorStateController_def anchorGovernor_def derefG_def split: option.splits)
  then show ?thesis
    using False \<open>s \<noteq> _\<close> \<open>g \<noteq> _\<close>
    by (simp add: chainOutputFit_def ucAccessors(5,6) [OF assms(1), symmetric])
qed

lemma foundry_accepted:
  assumes "featsSet (fo_Features f) = Inr fs" "OutputsSyntacticalFoundry D i (FoundryO f) = Inr ()"
  shows "chainOutputFit D (FoundryO f)"
proof -
  have fs: "outFeatSet (FoundryO f) = Inr fs" using assms(1) by (simp add: outFeatSet_def featsMustSet_Inr)
  have s: "schemeSyntacticalValidation (fo_TokenScheme f) = Inr ()"
    and n: "(case ftNativeToken fs of None \<Rightarrow> Inr () | Some (nativeTokenID, _) \<Rightarrow>
             andthen (foundryID D f) (\<lambda>fID. if fID \<noteq> nativeTokenID
             then throw (Wrap (Sentinel ''ErrFoundryIDNativeTokenIDMismatch'')
                    ''output %d, FoundryID: %s, NativeTokenID: %s'')
             else Inr ())) = Inr ()"
    using assms(2) by (simp_all add: OutputsSyntacticalFoundry_def fs andthen_eq_Inr)
  have "foundryID D f = Inr j" if "NativeTokenF j k \<in> set (fo_Features f)" for j k
  proof -
    have "ftNativeToken fs = Some (j, k)" using that ftAccessors(1) [OF assms(1)] by simp
    with n show ?thesis by (auto simp: andthen_eq_Inr split: if_splits)
  qed
  with s show ?thesis by (auto simp: chainOutputFit_def schemeSyntacticalValidation_def Let_def throw_def split: if_splits)
qed

lemma nft_accepted:
  assumes "ucsSet (no_UnlockConditions n) = Inr u" "OutputsSyntacticalNFT i (NFTO n) = Inr ()"
  shows "chainOutputFit D (NFTO n)"
  using assms(2) owner_Inr [OF assms(1)]
  by (auto simp: chainOutputFit_def OutputsSyntacticalNFT_def andthen_eq_Inr if_throw_eq_Inr split: if_splits)

text \<open>C16: in an accepted list of outputs no chain appears twice, a new account and a new anchor start at
  zero, no chain output is owned by its own chain address, a staked amount is covered and comes with a
  block issuer, a foundry holds only its own token within its maximum supply, and a delegation names a
  validator.\<close>

theorem validated_chain_outputs:
  assumes "safemath64 D" "SyntacticallyValidateOutputs D api m c outs = Inr ()"
  shows "distinct (List.map_filter (namedChain D) outs) \<and> (\<forall>out \<in> set outs. chainOutputFit D out)"
proof -
  note iff = SyntacticallyValidateOutputs_iff [OF assms(1), THEN iffD1, OF assms(2)]
  have "chainOutputFit D out" if out: "out \<in> set outs" for out
  proof -
    note o = iff [THEN conjunct2, THEN conjunct2, THEN conjunct2, rule_format, OF out]
    obtain u fs where sets: "ucsSet (outUCs out) = Inr u" "featsSet (outFeatures out) = Inr fs"
      using accepted_output [OF assms out] by blast
    show ?thesis
    proof (cases out)
      case (AccountO a)
      with sets o show ?thesis using account_accepted [of a u fs 0 D] by simp
    next
      case (AnchorO a)
      with sets o show ?thesis using anchor_accepted [of a u 0 D] by simp
    next
      case (FoundryO f)
      with sets o show ?thesis using foundry_accepted [of f fs D 0] by simp
    next
      case (NFTO n)
      with sets o show ?thesis using nft_accepted [of n u 0 D] by simp
    next
      case (DelegationO d)
      with o show ?thesis by (simp add: chainOutputFit_def OutputsSyntacticalDelegation_def if_throw_eq_Inr)
    qed (simp_all add: chainOutputFit_def)
  qed
  with iff show ?thesis by blast
qed

end
