(* ===== verification/Output_Types.thy ===== *)
theory Output_Types
  imports Output_Rules VM_Unlocks
begin

text \<open>
  Outputs as the decoder hands them over.  The array rules and the types api_v3.go registers for the
  unlock conditions and features of each output type are tables here; that a decoded output obeys them
  is what hive.go/serializer/serix documents.  The theorem of this theory is the type soundness of the
  validation: on decoded outputs it does not crash, and the methods of an accepted output are total.
\<close>

record array_rules =
  ar_Min :: nat
  ar_Max :: nat
  ar_MustOccur :: "u8 list"
  ar_Types :: "u8 list"

text \<open>Unlock conditions: 0 address, 1 storage deposit return, 2 timelock, 3 expiration, 4 state
  controller, 5 governor, 6 immutable account.\<close>

definition unlockCondArrRules :: "ledger_output \<Rightarrow> array_rules" where
  "unlockCondArrRules out =
    (case out of
       BasicO _ \<Rightarrow> \<lparr>ar_Min = 1, ar_Max = 4, ar_MustOccur = [0], ar_Types = [0, 1, 2, 3]\<rparr>
     | AccountO _ \<Rightarrow> \<lparr>ar_Min = 1, ar_Max = 1, ar_MustOccur = [0], ar_Types = [0]\<rparr>
     | AnchorO _ \<Rightarrow> \<lparr>ar_Min = 2, ar_Max = 2, ar_MustOccur = [4, 5], ar_Types = [4, 5]\<rparr>
     | FoundryO _ \<Rightarrow> \<lparr>ar_Min = 1, ar_Max = 1, ar_MustOccur = [6], ar_Types = [6]\<rparr>
     | NFTO _ \<Rightarrow> \<lparr>ar_Min = 1, ar_Max = 4, ar_MustOccur = [0], ar_Types = [0, 1, 2, 3]\<rparr>
     | DelegationO _ \<Rightarrow> \<lparr>ar_Min = 1, ar_Max = 1, ar_MustOccur = [0], ar_Types = [0]\<rparr>
     | ImplicitAccountO _ \<Rightarrow> \<lparr>ar_Min = 0, ar_Max = 0, ar_MustOccur = [], ar_Types = []\<rparr>)"

text \<open>Features: 0 sender, 1 issuer, 2 metadata, 3 state metadata, 4 tag, 5 native token, 6 block issuer,
  7 staking.\<close>

definition featBlocksArrRules :: "ledger_output \<Rightarrow> array_rules" where
  "featBlocksArrRules out =
    (case out of
       BasicO _ \<Rightarrow> \<lparr>ar_Min = 0, ar_Max = 4, ar_MustOccur = [], ar_Types = [0, 2, 4, 5]\<rparr>
     | AccountO _ \<Rightarrow> \<lparr>ar_Min = 0, ar_Max = 4, ar_MustOccur = [], ar_Types = [0, 2, 6, 7]\<rparr>
     | AnchorO _ \<Rightarrow> \<lparr>ar_Min = 0, ar_Max = 2, ar_MustOccur = [], ar_Types = [2, 3]\<rparr>
     | FoundryO _ \<Rightarrow> \<lparr>ar_Min = 0, ar_Max = 2, ar_MustOccur = [], ar_Types = [2, 5]\<rparr>
     | NFTO _ \<Rightarrow> \<lparr>ar_Min = 0, ar_Max = 3, ar_MustOccur = [], ar_Types = [0, 2, 4]\<rparr>
     | _ \<Rightarrow> \<lparr>ar_Min = 0, ar_Max = 0, ar_MustOccur = [], ar_Types = []\<rparr>)"

definition immFeatBlocksArrRules :: "ledger_output \<Rightarrow> array_rules" where
  "immFeatBlocksArrRules out =
    (case out of
       FoundryO _ \<Rightarrow> \<lparr>ar_Min = 0, ar_Max = 1, ar_MustOccur = [], ar_Types = [2]\<rparr>
     | _ \<Rightarrow> \<lparr>ar_Min = 0, ar_Max = 2, ar_MustOccur = [], ar_Types = [1, 2]\<rparr>)"

definition obeys :: "('x \<Rightarrow> u8) \<Rightarrow> array_rules \<Rightarrow> 'x list \<Rightarrow> bool" where
  "obeys ty r xs \<longleftrightarrow> ar_Min r \<le> length xs \<and> length xs \<le> ar_Max r
     \<and> list_all (\<lambda>t. t \<in> ty ` set xs) (ar_MustOccur r) \<and> list_all (\<lambda>x. ty x \<in> set (ar_Types r)) xs"

text \<open>The validators registered for unlock conditions.\<close>

definition unlockConditionValidator :: "unlock_condition \<Rightarrow> unit go" where
  "unlockConditionValidator c =
    (case c of
       StorageDepositReturnUC a _ \<Rightarrow> disallowImplicitAccountCreationAddress a
     | ExpirationUC a _ \<Rightarrow> disallowImplicitAccountCreationAddress a
     | StateControllerAddressUC a \<Rightarrow> disallowImplicitAccountCreationAddress a
     | GovernorAddressUC a \<Rightarrow> disallowImplicitAccountCreationAddress a
     | _ \<Rightarrow> Inr ())"

text \<open>The addresses in conditions and features.  A multi address reference is no registered type.\<close>

definition ucAddresses :: "unlock_condition \<Rightarrow> address list" where
  "ucAddresses c =
    (case c of AddressUC a \<Rightarrow> [a] | StorageDepositReturnUC a _ \<Rightarrow> [a] | ExpirationUC a _ \<Rightarrow> [a]
     | StateControllerAddressUC a \<Rightarrow> [a] | GovernorAddressUC a \<Rightarrow> [a] | _ \<Rightarrow> [])"

definition featAddresses :: "feature \<Rightarrow> address list" where
  "featAddresses f = (case f of SenderF a \<Rightarrow> [a] | IssuerF a \<Rightarrow> [a] | _ \<Rightarrow> [])"

definition immutableFeatures :: "ledger_output \<Rightarrow> feature list" where
  "immutableFeatures out = (case outImmutableFeatures out of None \<Rightarrow> [] | Some fs \<Rightarrow> fs)"

definition decoded :: "ledger_output \<Rightarrow> bool" where
  "decoded out \<longleftrightarrow>
     (\<forall>x. out \<noteq> ImplicitAccountO x)
     \<and> obeys ucType (unlockCondArrRules out) (outUCs out)
     \<and> obeys featType (featBlocksArrRules out) (outFeatures out)
     \<and> obeys featType (immFeatBlocksArrRules out) (immutableFeatures out)
     \<and> list_all (\<lambda>c. unlockConditionValidator c = Inr () \<and> list_all storable (ucAddresses c)
          \<and> (case c of ImmutableAccountUC a \<Rightarrow> length a = 32 | _ \<Rightarrow> True)) (outUCs out)
     \<and> list_all (\<lambda>f. list_all storable (featAddresses f)) (outFeatures out @ immutableFeatures out)"

text \<open>The methods of an output that the ledger calls and that can crash.\<close>

definition methodsTotal :: "'a ledger_deps_scheme \<Rightarrow> storage_score_structure \<Rightarrow> ledger_output \<Rightarrow> bool" where
  "methodsTotal D r out \<longleftrightarrow>
     ok (outUCSet out) \<and> ok (outFeatSet out) \<and> ok (featsMustSet (immutableFeatures out))
     \<and> ok (outChainID D out) \<and> ok (outSize D out) \<and> ok (outStorageScore D r out)
     \<and> (case out of
          BasicO x \<Rightarrow> ok (addressOwner (bo_UnlockConditions x))
        | AccountO x \<Rightarrow> ok (addressOwner (ao_UnlockConditions x))
        | AnchorO x \<Rightarrow> ok (anchorStateController x) \<and> ok (anchorGovernor x)
        | FoundryO x \<Rightarrow> ok (foundryOwner x)
        | NFTO x \<Rightarrow> ok (addressOwner (no_UnlockConditions x))
        | DelegationO x \<Rightarrow> ok (addressOwner (do_UnlockConditions x))
        | ImplicitAccountO x \<Rightarrow> False)"

section \<open>Sizes and scores exist\<close>

lemma sumG_ok: "(\<And>x. x \<in> set xs \<Longrightarrow> ok (f x)) \<Longrightarrow> ok (sumG f s xs)"
  proof (induction xs arbitrary: s)
  case (Cons x xs)
  then show ?case by (cases "f x") (fastforce simp: ok_iff)+
qed simp

lemma scoreG_ok: "(\<And>x. x \<in> set xs \<Longrightarrow> ok (f x)) \<Longrightarrow> ok (scoreG f xs)"
  using scoreG_sum [of f xs] by (auto simp: ok_iff)

lemma addrStorageScore_ok: "storable a \<Longrightarrow> ok (addrStorageScore r a)"
  by (cases a) (simp_all add: addrStorageScore_def)

lemma uc_ok:
  assumes "list_all storable (ucAddresses c)"
  shows "ok (ucSize D c)" "ok (ucStorageScore r c)"
  using assms by (cases c; simp add: ucSize_def ucStorageScore_def ucAddresses_def ok_andthen addrSize_ok
      addrStorageScore_ok addrSize_ok [unfolded ok_iff])+

lemma feat_ok:
  assumes "list_all storable (featAddresses f)"
  shows "ok (featSize D f)" "ok (featStorageScore r f)"
  using assms by (cases f; simp add: featSize_def featStorageScore_def featAddresses_def ok_andthen addrSize_ok
      addrStorageScore_ok addrSize_ok [unfolded ok_iff])+

lemma sizes_ok:
  assumes "decoded out"
  shows "ok (outSize D out)" "ok (outStorageScore D r out)"
proof -
  have u: "ok (ucsSize D (outUCs out))" "ok (ucsStorageScore r (outUCs out))"
    using assms by (auto simp: ucsSize_def ucsStorageScore_def decoded_def list_all_iff
        intro!: sumG_ok scoreG_ok uc_ok)
  have f: "ok (featsSize D (outFeatures out))" "ok (featsStorageScore r (outFeatures out))"
    "ok (featsSize D (immutableFeatures out))" "ok (featsStorageScore r (immutableFeatures out))"
    using assms by (auto simp: featsSize_def featsStorageScore_def decoded_def list_all_iff
        intro!: sumG_ok scoreG_ok feat_ok)
  obtain n1 n2 n3 where n: "ucsSize D (outUCs out) = Inr n1" "featsSize D (outFeatures out) = Inr n2"
      "featsSize D (immutableFeatures out) = Inr n3"
    using u f by (auto simp: ok_iff)
  obtain s1 s2 s3 where s: "ucsStorageScore r (outUCs out) = Inr s1" "featsStorageScore r (outFeatures out) = Inr s2"
      "featsStorageScore r (immutableFeatures out) = Inr s3"
    using u f by (auto simp: ok_iff)
  show "ok (outSize D out)"
    using n by (cases out) (simp_all add: outSize_def basicSize_def accountSize_def anchorSize_def foundrySize_def
        nftSize_def delegationSize_def immutableFeatures_def)
  show "ok (outStorageScore D r out)"
    using n s by (cases out) (simp_all add: outStorageScore_def basicStorageScore_def accountStorageScore_def
        anchorStorageScore_def foundryStorageScore_def nftStorageScore_def delegationStorageScore_def
        basicSize_def accountSize_def anchorSize_def foundrySize_def nftSize_def delegationSize_def
        immutableFeatures_def)
qed

section \<open>Decoded outputs\<close>

lemma must_occur: "obeys ty r xs \<Longrightarrow> t \<in> set (ar_MustOccur r) \<Longrightarrow> \<exists>x \<in> set xs. ty x = t"
  by (auto simp: obeys_def list_all_iff)

text \<open>The owner conditions of a decoded output are there, so its owner methods return.\<close>

lemma decoded_owners:
  assumes "decoded out" "outUCSet out = Inr u"
  shows "case out of
      BasicO x \<Rightarrow> ok (addressOwner (bo_UnlockConditions x))
    | AccountO x \<Rightarrow> ok (addressOwner (ao_UnlockConditions x))
    | AnchorO x \<Rightarrow> ok (anchorStateController x) \<and> ok (anchorGovernor x)
    | FoundryO x \<Rightarrow> ok (foundryOwner x)
    | NFTO x \<Rightarrow> ok (addressOwner (no_UnlockConditions x))
    | DelegationO x \<Rightarrow> ok (addressOwner (do_UnlockConditions x))
    | ImplicitAccountO x \<Rightarrow> False"
    and "(\<exists>x. out = AccountO x) \<or> (\<exists>x. out = NFTO x) \<or> (\<exists>x. out = DelegationO x) \<Longrightarrow> ucAddress u \<noteq> None"
proof -
  have set1: "ucsSet (outUCs out) = Inr u" and must1: "ucsMustSet (outUCs out) = Inr u"
    using assms(2) by (simp_all add: outUCSet_def ucsMustSet_Inr)
  have rules: "obeys ucType (unlockCondArrRules out) (outUCs out)" using assms(1) by (simp add: decoded_def)
  note acc = ucAccessors [OF set1]
  have addr: "\<exists>a. ucAddress u = Some a" if "0 \<in> set (ar_MustOccur (unlockCondArrRules out))"
    using must_occur [OF rules that] acc(1) by (auto simp: ucType_eq_iff)
  have imm: "\<exists>a. ucImmutableAccount u = Some a" if "6 \<in> set (ar_MustOccur (unlockCondArrRules out))"
    using must_occur [OF rules that] acc(7) by (auto simp: ucType_eq_iff)
  have st: "\<exists>a. ucStateControllerAddress u = Some a" if "4 \<in> set (ar_MustOccur (unlockCondArrRules out))"
    using must_occur [OF rules that] acc(6) by (auto simp: ucType_eq_iff)
  have gov: "\<exists>a. ucGovernorAddress u = Some a" if "5 \<in> set (ar_MustOccur (unlockCondArrRules out))"
    using must_occur [OF rules that] acc(5) by (auto simp: ucType_eq_iff)
  have own: "ok (addressOwner (outUCs out))" if "\<exists>a. ucAddress u = Some a"
    using that must1 by (auto simp: addressOwner_def derefG_def)
  show "case out of
      BasicO x \<Rightarrow> ok (addressOwner (bo_UnlockConditions x))
    | AccountO x \<Rightarrow> ok (addressOwner (ao_UnlockConditions x))
    | AnchorO x \<Rightarrow> ok (anchorStateController x) \<and> ok (anchorGovernor x)
    | FoundryO x \<Rightarrow> ok (foundryOwner x)
    | NFTO x \<Rightarrow> ok (addressOwner (no_UnlockConditions x))
    | DelegationO x \<Rightarrow> ok (addressOwner (do_UnlockConditions x))
    | ImplicitAccountO x \<Rightarrow> False"
  proof (cases out)
    case (AnchorO x)
    with st gov must1 show ?thesis
      by (auto simp: unlockCondArrRules_def anchorStateController_def anchorGovernor_def derefG_def)
  next
    case (FoundryO x)
    with imm must1 show ?thesis by (auto simp: unlockCondArrRules_def foundryOwner_def derefG_def)
  next
    case (ImplicitAccountO x)
    with assms(1) show ?thesis by (simp add: decoded_def)
  qed (use addr own in \<open>simp_all add: unlockCondArrRules_def\<close>)
  show "ucAddress u \<noteq> None"
    if "(\<exists>x. out = AccountO x) \<or> (\<exists>x. out = NFTO x) \<or> (\<exists>x. out = DelegationO x)"
    using addr that by (auto simp: unlockCondArrRules_def)
qed

text \<open>The serialization of an account address is its type and its 32 bytes.\<close>

abbreviation account_bytes :: "'a ledger_deps_scheme \<Rightarrow> bool" where
  "account_bytes D \<equiv> \<forall>a. length a = 32 \<longrightarrow> length (encAddr D (AccountAddress a)) = 33"

lemma foundryID_ok:
  assumes "account_bytes D" "decoded (FoundryO x)" "outUCSet (FoundryO x) = Inr u"
  shows "ok (foundryID D x)"
proof -
  have set1: "ucsSet (fo_UnlockConditions x) = Inr u" "ucsMustSet (fo_UnlockConditions x) = Inr u"
    using assms(3) by (simp_all add: outUCSet_def ucsMustSet_Inr)
  obtain a where a: "foundryOwner x = Inr a" using decoded_owners(1) [OF assms(2,3)] by (auto simp: ok_iff)
  then obtain b where b: "a = AccountAddress b" "ucImmutableAccount u = Some b"
    using set1(2) by (auto simp: foundryOwner_def andthen_eq_Inr derefG_def split: option.splits)
  then have "ImmutableAccountUC b \<in> set (fo_UnlockConditions x)" using ucAccessors(7) [OF set1(1)] by simp
  then have "length b = 32" using assms(2) by (auto simp: decoded_def list_all_iff)
  with a b assms(1) show ?thesis
    by (simp add: foundryID_def FoundryIDFromAddressAndSerialNumberAndTokenScheme_def)
qed

lemma ok_not_panic: "ok m \<Longrightarrow> \<not> is_panic m"
  by (auto simp: ok_iff)

lemma chainID_ok:
  assumes "account_bytes D" "decoded out" "outUCSet out = Inr u"
  shows "ok (outChainID D out)"
proof (cases out)
  case (FoundryO x)
  then have "ok (foundryID D x)" using foundryID_ok [OF assms(1)] assms(2,3) by simp
  with FoundryO show ?thesis by (auto simp: outChainID_def ok_iff)
qed (simp_all add: outChainID_def)

section \<open>No validator crashes\<close>

lemma is_panic_andthen: "is_panic (andthen m f) \<longleftrightarrow> is_panic m \<or> (\<exists>x. m = Inr x \<and> is_panic (f x))"
  by (cases m) (auto simp: is_panic_def)

lemma is_panic_if: "is_panic (if c then m else n) \<longleftrightarrow> c \<and> is_panic m \<or> \<not> c \<and> is_panic n"
  by simp

lemma order_calm:
  assumes "decoded out"
  shows "\<not> is_panic (OutputsSyntacticalUnlockConditionLexicalOrderAndUniqueness i out)"
    and "\<not> is_panic (OutputsSyntacticalFeaturesLexicalOrderAndUniqueness i out)"
proof -
  have u: "\<not> is_panic (SliceValidator (LexicalOrderAndUniquenessValidator ucCompare) None f)" for f
    by (rule SliceValidator_not_panic) (rule uc_order.not_panic)
  have f: "\<not> is_panic (SliceValidator (LexicalOrderAndUniquenessValidator featCompare) None f)" for f
    by (rule SliceValidator_not_panic) (rule feat_order.not_panic)
  show "\<not> is_panic (OutputsSyntacticalUnlockConditionLexicalOrderAndUniqueness i out)"
    using assms u by (cases out) (simp_all add: OutputsSyntacticalUnlockConditionLexicalOrderAndUniqueness_def decoded_def)
  show "\<not> is_panic (OutputsSyntacticalFeaturesLexicalOrderAndUniqueness i out)"
    using assms f by (cases out)
      (simp_all add: OutputsSyntacticalFeaturesLexicalOrderAndUniqueness_def decoded_def Let_def is_panic_andthen)
qed

lemma return_calm: "storable a \<Longrightarrow> \<not> is_panic (MinStorageDepositForReturnOutput D r a)"
proof -
  assume "storable a"
  then have "ok (basicStorageScore D r (basicWithAddress a))"
    using addrSize_ok [of a D] addrStorageScore_ok [of a r]
    by (auto simp: basicStorageScore_def basicWithAddress_def basicSize_def ucsSize_def featsSize_def
        ucsStorageScore_def featsStorageScore_def ucSize_def ucStorageScore_def ok_iff)
  then show ?thesis by (auto simp: MinStorageDepositForReturnOutput_def ok_iff)
qed

lemma deposit_calm:
  assumes "decoded out" "outUCSet out = Inr u"
  shows "\<not> is_panic (OutputsSyntacticalDepositAmount D api s i out)"
proof -
  let ?r = "api_StorageScoreStructure api"
  have c: "\<not> is_panic (CoversMinDeposit D ?r out a)" for a
    using sizes_ok(2) [OF assms(1), of D ?r]
    by (auto simp: CoversMinDeposit_def MinDeposit_def ok_iff is_panic_andthen)
  have "storable a" if "ucStorageDepositReturn u = Some (a, n)" for a n
  proof -
    have "ucsSet (outUCs out) = Inr u" using assms(2) by (simp add: outUCSet_def ucsMustSet_Inr)
    from ucAccessors(4) [OF this, of a n] that have "StorageDepositReturnUC a n \<in> set (outUCs out)" by simp
    then show ?thesis using assms(1) by (auto simp: decoded_def list_all_iff ucAddresses_def)
  qed
  then have d: "\<not> is_panic (returnDepositCheck D ?r a (ucStorageDepositReturn u))" for a
    by (cases "ucStorageDepositReturn u")
      (auto simp: returnDepositCheck_def is_panic_andthen is_panic_if return_calm)
  show ?thesis
    by (auto simp: OutputsSyntacticalDepositAmount_def Let_def assms(2) is_panic_andthen c d)
qed

lemma single_calm:
  assumes "decoded out" "outUCSet out = Inr u" "outFeatSet out = Inr fs"
    and "account_bytes D"
  shows "\<not> is_panic (OutputsSyntacticalMetadataFeatureMaxSize D i out)"
    "\<not> is_panic (OutputsSyntacticalExpirationAndTimelock i out)"
    "\<not> is_panic (OutputsSyntacticalNativeTokens i out)"
    "\<not> is_panic (OutputsSyntacticalStoredMana D m s i out)"
    "\<not> is_panic (OutputsSyntacticalChainConstrainedOutputUniqueness D seen i out)"
    "\<not> is_panic (OutputsSyntacticalFoundry D i out)"
    "\<not> is_panic (OutputsSyntacticalAccount i out)"
    "\<not> is_panic (OutputsSyntacticalAnchor i out)"
    "\<not> is_panic (OutputsSyntacticalNFT i out)"
    "\<not> is_panic (OutputsSyntacticalDelegation i out)"
    "\<not> is_panic (OutputsSyntacticalAddressRestrictions i out)"
    "\<not> is_panic (OutputsSyntacticalImplicitAccountCreationAddress i out)"
    "\<not> is_panic (OutputsSyntacticalCommitmentInput c i out)"
proof -
  note own = decoded_owners [OF assms(1,2)]
  have meta: "\<not> is_panic (metadataCheck D x)" for x
    by (cases x) (simp_all add: metadataCheck_def checkMaxSize_def)
  show "\<not> is_panic (OutputsSyntacticalMetadataFeatureMaxSize D i out)"
    by (simp add: OutputsSyntacticalMetadataFeatureMaxSize_def assms(3) is_panic_andthen meta)
  show "\<not> is_panic (OutputsSyntacticalExpirationAndTimelock i out)"
    by (simp add: OutputsSyntacticalExpirationAndTimelock_def assms(2))
  show "\<not> is_panic (OutputsSyntacticalNativeTokens i out)"
    by (auto simp: OutputsSyntacticalNativeTokens_def assms(3) split: option.split)
  show "\<not> is_panic (OutputsSyntacticalStoredMana D m s i out)"
    by (auto simp: OutputsSyntacticalStoredMana_def is_panic_andthen)
  show "\<not> is_panic (OutputsSyntacticalChainConstrainedOutputUniqueness D seen i out)"
    using ok_not_panic [OF chainID_ok [OF assms(4,1,2)]]
    by (auto simp: OutputsSyntacticalChainConstrainedOutputUniqueness_def is_panic_andthen split: option.splits)
  show "\<not> is_panic (OutputsSyntacticalFoundry D i out)"
  proof (cases out)
    case (FoundryO x)
    have "\<not> is_panic (schemeSyntacticalValidation t)" for t
      by (simp add: schemeSyntacticalValidation_def Let_def)
    moreover have "\<not> is_panic (foundryID D x)"
      using foundryID_ok [OF assms(4)] assms(1,2) FoundryO by (simp add: ok_not_panic)
    ultimately show ?thesis
      using FoundryO assms(3)
      by (auto simp: OutputsSyntacticalFoundry_def is_panic_andthen split: option.splits)
  qed (simp_all add: OutputsSyntacticalFoundry_def)
  show "\<not> is_panic (OutputsSyntacticalAccount i out)"
  proof (cases out)
    case (AccountO x)
    have "\<not> is_panic (addressOwner (ao_UnlockConditions x))" using own(1) AccountO by (simp add: ok_not_panic)
    then show ?thesis
      using assms(3) AccountO
      by (auto simp: OutputsSyntacticalAccount_def is_panic_andthen split: option.splits)
  qed (simp_all add: OutputsSyntacticalAccount_def)
  show "\<not> is_panic (OutputsSyntacticalAnchor i out)"
  proof (cases out)
    case (AnchorO x)
    have "\<not> is_panic (anchorStateController x)" "\<not> is_panic (anchorGovernor x)"
      using own(1) AnchorO by (simp_all add: ok_not_panic)
    then show ?thesis
      using AnchorO by (auto simp: OutputsSyntacticalAnchor_def is_panic_andthen)
  qed (simp_all add: OutputsSyntacticalAnchor_def)
  show "\<not> is_panic (OutputsSyntacticalNFT i out)"
  proof (cases out)
    case (NFTO x)
    have "\<not> is_panic (addressOwner (no_UnlockConditions x))" using own(1) NFTO by (simp add: ok_not_panic)
    then show ?thesis using NFTO by (auto simp: OutputsSyntacticalNFT_def is_panic_andthen)
  qed (simp_all add: OutputsSyntacticalNFT_def)
  show "\<not> is_panic (OutputsSyntacticalDelegation i out)"
    by (cases out) (simp_all add: OutputsSyntacticalDelegation_def)
  have r: "\<not> is_panic p \<Longrightarrow> \<not> is_panic (restrict1 a cap p e)" for a cap p e
    by (auto simp: restrict1_def is_panic_andthen)
  have "\<not> is_panic (checkAddressRestrictions out a)" for a
    unfolding checkAddressRestrictions_def assms(2,3) andthen_Inr
    by (intro not_panic_andthen r) simp_all
  then have "\<not> is_panic (restrictedBy out x)" for x by (cases x) (simp_all add: restrictedBy_def)
  then show "\<not> is_panic (OutputsSyntacticalAddressRestrictions i out)"
    by (auto simp: OutputsSyntacticalAddressRestrictions_def assms(2) is_panic_andthen)
  show "\<not> is_panic (OutputsSyntacticalImplicitAccountCreationAddress i out)"
  proof (cases out)
    case (AnchorO x)
    have "\<not> is_panic (anchorStateController x)" "\<not> is_panic (anchorGovernor x)"
      using own(1) AnchorO by (simp_all add: ok_not_panic)
    then show ?thesis
      using AnchorO by (auto simp: OutputsSyntacticalImplicitAccountCreationAddress_def Let_def is_panic_andthen)
  next
    case (ImplicitAccountO x)
    then show ?thesis using assms(1) by (simp add: decoded_def)
  qed (use own(2) assms(2) in \<open>auto simp: OutputsSyntacticalImplicitAccountCreationAddress_def Let_def derefG_def is_panic_if\<close>)
  show "\<not> is_panic (OutputsSyntacticalCommitmentInput c i out)"
    by (simp add: OutputsSyntacticalCommitmentInput_def assms(3))
qed

lemma thenAlso_calm:
  "\<not> is_panic (f (fst st) i x) \<Longrightarrow> (\<And>s. f (fst st) i x = Inr s \<Longrightarrow> \<not> is_panic (g (snd st) i x))
    \<Longrightarrow> \<not> is_panic (thenAlso f g st i x)"
  by (cases st) (auto simp: thenAlso_def is_panic_andthen)

lemma validators_calm:
  assumes "decoded out" and len: "account_bytes D"
  shows "\<not> is_panic (outputValidators D api m c st i out)"
  unfolding outputValidators_def
proof (rule thenAlso_calm)
  show "\<not> is_panic (plain OutputsSyntacticalUnlockConditionLexicalOrderAndUniqueness (fst st) i out)"
    by (simp add: plain_def order_calm [OF assms(1)])
  fix s assume "plain OutputsSyntacticalUnlockConditionLexicalOrderAndUniqueness (fst st) i out = Inr s"
  then have "distinct (map ucType (outUCs out))" using types_accepted by (simp add: plain_def)
  then obtain u where u: "outUCSet out = Inr u" by (simp add: outUCSet_def ucsMustSet_eq)
  show "\<not> is_panic (thenAlso (plain OutputsSyntacticalFeaturesLexicalOrderAndUniqueness)
    (thenAlso (plain (OutputsSyntacticalMetadataFeatureMaxSize D))
    (thenAlso (OutputsSyntacticalDepositAmount D api)
    (thenAlso (plain OutputsSyntacticalExpirationAndTimelock)
    (thenAlso (plain OutputsSyntacticalNativeTokens)
    (thenAlso (OutputsSyntacticalStoredMana D m)
    (thenAlso (OutputsSyntacticalChainConstrainedOutputUniqueness D)
    (thenAlso (plain (OutputsSyntacticalFoundry D))
    (thenAlso (plain OutputsSyntacticalAccount)
    (thenAlso (plain OutputsSyntacticalAnchor)
    (thenAlso (plain OutputsSyntacticalNFT)
    (thenAlso (plain OutputsSyntacticalDelegation)
    (thenAlso (plain OutputsSyntacticalAddressRestrictions)
    (thenAlso (plain OutputsSyntacticalImplicitAccountCreationAddress)
    (plain (OutputsSyntacticalCommitmentInput c))))))))))))))) (snd st) i out)"
  proof (rule thenAlso_calm, goal_cases)
    case 1
    show ?case by (simp add: plain_def order_calm [OF assms(1)])
  next
    case (2 s')
    then have "distinct (map featType (outFeatures out))" using feature_types_accepted by (simp add: plain_def)
    then obtain fs where fs: "outFeatSet out = Inr fs" by (simp add: outFeatSet_def featsMustSet_eq)
    note calm1 = single_calm [OF assms(1) u fs len] deposit_calm [OF assms(1) u]
    show ?case
      by (intro thenAlso_calm) (simp_all add: plain_def calm1)
  qed
qed

text \<open>C13: on outputs that obey the serialization rules the syntactical validation returns, with nil or
  an error, and never crashes; and the methods of every output it accepts return as well: the sets of
  its conditions and features, its owners, its chain ID, its size and its storage score.\<close>

theorem validated_outputs_typed:
  assumes "\<forall>out \<in> set outs. decoded out" and "\<forall>a. length a = 32 \<longrightarrow> length (encAddr D (AccountAddress a)) = 33"
  shows "\<not> is_panic (SyntacticallyValidateOutputs D api m c outs)
    \<and> (safemath64 D \<longrightarrow> SyntacticallyValidateOutputs D api m c outs = Inr ()
        \<longrightarrow> (\<forall>out \<in> set outs. methodsTotal D r out))"
proof (intro conjI impI ballI)
  show "\<not> is_panic (SyntacticallyValidateOutputs D api m c outs)"
    unfolding SyntacticallyValidateOutputs_def
    by (rule SliceValidator_not_panic) (use assms in \<open>simp add: validators_calm\<close>)
  fix out assume acc: "safemath64 D" "SyntacticallyValidateOutputs D api m c outs = Inr ()" and out: "out \<in> set outs"
  obtain u fs where u: "outUCSet out = Inr u" "outFeatSet out = Inr fs"
    using accepted_output [OF acc out] by blast
  have d: "decoded out" using assms(1) out by simp
  have "\<forall>fs. outImmutableFeatures out = Some fs \<longrightarrow> distinct (map featType fs)"
    using SyntacticallyValidateOutputs_iff [OF acc(1), THEN iffD1, OF acc(2)] out feature_types_accepted by blast
  then have "ok (featsMustSet (immutableFeatures out))"
    by (cases "outImmutableFeatures out") (simp_all add: immutableFeatures_def featsMustSet_eq)
  with u d show "methodsTotal D r out"
    using sizes_ok [OF d, of D] chainID_ok [OF assms(2) d u(1)] decoded_owners(1) [OF d u(1)]
    by (simp add: methodsTotal_def)
qed

section \<open>An accepted list of outputs\<close>

text \<open>A basic output that has to return a deposit, one at a restricted address, and an account.\<close>

definition syntax_api :: ledger_api where
  "syntax_api = demo_api\<lparr>api_TokenSupply := 10000000\<rparr>"

definition demo_returning :: ledger_output where
  "demo_returning = BasicO \<lparr>bo_Amount = 1000000, bo_Mana = 7,
     bo_UnlockConditions = [AddressUC (Ed25519Address [1]), StorageDepositReturnUC (Ed25519Address [2]) 100000],
     bo_Features = []\<rparr>"

definition demo_restricted :: ledger_output where
  "demo_restricted = BasicO \<lparr>bo_Amount = 1000000, bo_Mana = 0,
     bo_UnlockConditions = [AddressUC (RestrictedAddress (Ed25519Address [1]) [])], bo_Features = []\<rparr>"

definition demo_acct :: ledger_output where
  "demo_acct = AccountO \<lparr>ao_Amount = 1000000, ao_Mana = 5, ao_AccountID = replicate 32 3, ao_FoundryCounter = 2,
     ao_UnlockConditions = [AddressUC (Ed25519Address [1])], ao_Features = [], ao_ImmutableFeatures = []\<rparr>"

definition demo_outputs :: "ledger_output list" where
  "demo_outputs = [demo_returning, demo_restricted, demo_acct]"

lemmas output_syntax_defs = OutputsSyntacticalUnlockConditionLexicalOrderAndUniqueness_def
  OutputsSyntacticalFeaturesLexicalOrderAndUniqueness_def OutputsSyntacticalMetadataFeatureMaxSize_def
  OutputsSyntacticalExpirationAndTimelock_def OutputsSyntacticalNativeTokens_def
  OutputsSyntacticalFoundry_def OutputsSyntacticalAccount_def OutputsSyntacticalAnchor_def
  OutputsSyntacticalNFT_def OutputsSyntacticalDelegation_def OutputsSyntacticalAddressRestrictions_def
  OutputsSyntacticalImplicitAccountCreationAddress_def OutputsSyntacticalCommitmentInput_def

lemmas score_defs = MinStorageDepositForReturnOutput_def CoversMinDeposit_def MinDeposit_def outStorageScore_def
  basicStorageScore_def accountStorageScore_def basicSize_def accountSize_def basicWithAddress_def dataScore_def
  ucsSize_def featsSize_def ucSize_def featSize_def ucsStorageScore_def featsStorageScore_def
  ucStorageScore_def featStorageScore_def addrStorageScore_def factorMultiply_def demo_structure_def demo_score_def

lemma demo_outputs_accepted_by:
  assumes sel: "SafeAdd64 D = ref_add" "SafeSub64 D = ref_sub" "SafeMul64 D = ref_mul"
    "serOneByte D = 1" "serSmallType D = 1" "serUInt16 D = 2" "serUInt32 D = 4" and m: "12 \<le> unat m"
  shows "SyntacticallyValidateOutputs D syntax_api m c demo_outputs = Inr ()"
proof -
  have safe: "safemath64 D" using sel refa.checked_arith_axioms by simp
  have r: "api_StorageScoreStructure syntax_api = demo_structure" by (simp add: syntax_api_def demo_api_def)
  note outs = demo_returning_def demo_restricted_def demo_acct_def
  note sets = outUCSet_def outFeatSet_def ucsMustSet_eq featsMustSet_eq ucAddress_def ucStorageDepositReturn_def
    ucStateControllerAddress_def ucGovernorAddress_def ucExpiration_def ucTimelock_def ftNativeToken_def
    ftStaking_def ftBlockIssuer_def ftMetadata_def ftStateMetadata_def addressOwner_def derefG_def
  have order: "OutputsSyntacticalUnlockConditionLexicalOrderAndUniqueness 0 out = Inr ()"
    "OutputsSyntacticalFeaturesLexicalOrderAndUniqueness 0 out = Inr ()" if "out \<in> set demo_outputs" for out
    using that by (auto simp: demo_outputs_def outs output_syntax_defs uc_order.accepts Let_def)
  have single: "OutputsSyntacticalMetadataFeatureMaxSize D 0 out = Inr ()
      \<and> OutputsSyntacticalExpirationAndTimelock 0 out = Inr () \<and> OutputsSyntacticalNativeTokens 0 out = Inr ()
      \<and> OutputsSyntacticalFoundry D 0 out = Inr () \<and> OutputsSyntacticalAccount 0 out = Inr ()
      \<and> OutputsSyntacticalAnchor 0 out = Inr () \<and> OutputsSyntacticalNFT 0 out = Inr ()
      \<and> OutputsSyntacticalDelegation 0 out = Inr () \<and> OutputsSyntacticalCommitmentInput c 0 out = Inr ()
      \<and> OutputsSyntacticalImplicitAccountCreationAddress 0 out = Inr ()"
    if "out \<in> set demo_outputs" for out
    using that by (auto simp: demo_outputs_def outs output_syntax_defs sets metadataCheck_def Let_def)
  have restrictions: "OutputsSyntacticalAddressRestrictions 0 out = Inr ()" if "out \<in> set demo_outputs" for out
    using that by (auto simp: demo_outputs_def outs output_syntax_defs sets restrictedBy_def
        checkAddressRestrictions_def restrict1_def cannotReceive_def HasTimelockCondition_def
        HasExpirationCondition_def HasStorageDepositReturnCondition_def HasNativeTokenFeature_def)
  have deposits: "outAmount out \<noteq> 0 \<and> ok (CoversMinDeposit D demo_structure out (outAmount out))
      \<and> (\<exists>u. outUCSet out = Inr u \<and>
           returnDepositCheck D demo_structure (outAmount out) (ucStorageDepositReturn u) = Inr ())"
    if "out \<in> set demo_outputs" for out
    using that by (auto simp: demo_outputs_def outs sets returnDepositCheck_def score_defs scoreG_def ref_mul_def sel)
  have chains: "ok (outChainID D out)" if "out \<in> set demo_outputs" for out
    using that by (auto simp: demo_outputs_def outs outChainID_def)
  have named: "distinct (List.map_filter (namedChain D) demo_outputs)"
    by (simp add: demo_outputs_def outs namedChain_def outChainID_def map_filter_simps)
  have "(\<Sum>out\<leftarrow>demo_outputs. unat (outAmount out)) \<le> unat (api_TokenSupply syntax_api)"
    "(\<Sum>out\<leftarrow>demo_outputs. unat (outStoredMana out)) \<le> unat m"
    using m by (simp_all add: demo_outputs_def outs syntax_api_def)
  with order single restrictions deposits chains named show ?thesis
    unfolding SyntacticallyValidateOutputs_iff [OF safe] r by blast
qed

lemma demo_outputs_accepted: "SyntacticallyValidateOutputs ref_ledger syntax_api 1000 False demo_outputs = Inr ()"
  by (rule demo_outputs_accepted_by) simp_all

lemma demo_outputs_decoded: "\<forall>out \<in> set demo_outputs. decoded out"
  by (simp add: demo_outputs_def demo_returning_def demo_restricted_def demo_acct_def decoded_def obeys_def
      unlockCondArrRules_def featBlocksArrRules_def immFeatBlocksArrRules_def immutableFeatures_def
      unlockConditionValidator_def disallowImplicitAccountCreationAddress_def ucAddresses_def)

theorem validated_outputs_bounds_witness:
  "(\<Sum>out\<leftarrow>demo_outputs. unat (outAmount out)) \<le> 10000000"
  using validated_outputs_bounds [OF ref_ledger_safemath(1) demo_outputs_accepted] by (simp add: syntax_api_def)

lemma foundry_uncontrolled: "controls a out \<Longrightarrow> out = FoundryO x \<Longrightarrow> \<not> decoded out"
  by (auto simp: decoded_def obeys_def unlockCondArrRules_def controls_def list_all_iff)

text \<open>C14: in an accepted list of outputs no address that can come to control an output refuses what the
  output carries, and an implicit account creation address only owns basic outputs, without a timelock,
  an expiration or a storage deposit return.  That it owns no foundry is due to the decoder, which admits no
  other unlock condition of a foundry than its immutable account.\<close>

theorem validated_outputs_restrictions:
  assumes "safemath64 D" "SyntacticallyValidateOutputs D api m c outs = Inr ()"
    and "out \<in> set outs" "controls a out"
  shows "(cannotReceive a cap = Some True \<longrightarrow> \<not> carries out cap)
    \<and> (addrType a = 32 \<longrightarrow> ((\<exists>x. out = BasicO x) \<or> (\<exists>x. out = FoundryO x \<and> \<not> decoded out))
        \<and> \<not> carries out CapTimelock \<and> \<not> carries out CapExpiration \<and> \<not> carries out CapStorageDepositReturn)"
proof -
  have "(\<exists>x. out = FoundryO x) \<longrightarrow> \<not> decoded out" using foundry_uncontrolled [OF assms(4)] by blast
  with restricted_outputs [OF assms, of cap] show ?thesis by blast
qed

theorem validated_outputs_restrictions_witness:
  "\<not> carries demo_restricted CapMana"
proof -
  have "demo_restricted \<in> set demo_outputs" by (simp add: demo_outputs_def)
  moreover have "controls (RestrictedAddress (Ed25519Address [1]) []) demo_restricted"
    by (simp add: controls_def demo_restricted_def)
  ultimately show ?thesis
    using validated_outputs_restrictions [OF ref_ledger_safemath(1) demo_outputs_accepted,
        of demo_restricted "RestrictedAddress (Ed25519Address [1]) []" CapMana]
    by (simp add: cannotReceive_def maskCannotReceive_def)
qed

theorem validated_chain_outputs_witness: "chainOutputFit ref_ledger demo_acct"
  using validated_chain_outputs [OF ref_ledger_safemath(1) demo_outputs_accepted] by (simp add: demo_outputs_def)

theorem validated_outputs_typed_witness: "methodsTotal ref_ledger demo_structure demo_acct"
  using validated_outputs_typed [OF demo_outputs_decoded, of ref_ledger syntax_api 1000 False demo_structure]
    demo_outputs_accepted ref_ledger_safemath(1) by (simp add: demo_outputs_def)

end
