(* ===== verification/Token_Ledger.thy ===== *)
theory Token_Ledger
  imports Nova_Chains Output_Types
begin

text \<open>
  The native tokens of one foundry over the life of the ledger: the outputs the ledger holds are changed by
  executed transactions (vm/nova/vm.go), whose foundries pass through the token scheme
  (token_scheme_simple.go), and whose outputs passed the syntactical validation (output.go).  The counters
  of the foundry are related to the tokens in the ledger and to the tokens burned behind its back.
\<close>

section \<open>Foundries and their tokens in the ledger\<close>

definition isFoundry :: "'a ledger_deps_scheme \<Rightarrow> bytes \<Rightarrow> ledger_output \<Rightarrow> bool" where
  "isFoundry D i out = (case out of FoundryO f \<Rightarrow> foundryID D f = Inr i | _ \<Rightarrow> False)"

lemma isFoundry_iff: "isFoundry D i out \<longleftrightarrow> (\<exists>f. out = FoundryO f \<and> foundryID D f = Inr i)"
  by (cases out) (auto simp: isFoundry_def)

definition foundries :: "'a ledger_deps_scheme \<Rightarrow> bytes \<Rightarrow> ledger_output multiset \<Rightarrow> ledger_output multiset" where
  "foundries D i L = filter_mset (isFoundry D i) L"

definition circulating :: "bytes \<Rightarrow> ledger_output multiset \<Rightarrow> int" where
  "circulating i L = (\<Sum>out\<in>#L. tokenAmount i out)"

lemma foundries_add: "foundries D i (L + M) = foundries D i L + foundries D i M"
  by (simp add: foundries_def)

lemma circulating_add: "circulating i (L + M) = circulating i L + circulating i M"
  by (simp add: circulating_def)

lemma circulating_sub: "M \<subseteq># L \<Longrightarrow> circulating i (L - M) = circulating i L - circulating i M"
  using circulating_add [of i "L - M" M] by simp

lemma circulating_mset: "circulating i (mset outs) = (\<Sum>out\<leftarrow>outs. tokenAmount i out)"
  by (simp add: circulating_def flip: sum_mset_sum_list)

lemma circulating_nonneg: "\<forall>out \<in># L. 0 \<le> tokenAmount i out \<Longrightarrow> 0 \<le> circulating i L"
  unfolding circulating_def by (induction L) auto

text \<open>The books of a token: the ledger holds at most one foundry with its ID, whose counters account for
  the tokens in the ledger and the burned ones; without the foundry there is no token.\<close>

definition booksKept :: "'a ledger_deps_scheme \<Rightarrow> bytes \<Rightarrow> int \<Rightarrow> ledger_output multiset \<Rightarrow> bool" where
  "booksKept D i burned L \<longleftrightarrow> 0 \<le> burned \<and> (\<forall>out \<in># L. 0 \<le> tokenAmount i out)
     \<and> (foundries D i L = {#} \<and> circulating i L = 0 \<and> burned = 0
        \<or> (\<exists>f. foundries D i L = {#FoundryO f#}
             \<and> circulating i L + burned = sts_MintedTokens (fo_TokenScheme f) - sts_MeltedTokens (fo_TokenScheme f)
             \<and> circulating i L + burned \<le> sts_MaximumSupply (fo_TokenScheme f)))"

text \<open>The ledger: a transaction takes the outputs it spends and puts its own in.  Its outputs passed the
  syntactical validation, and a foundry it creates (one it does not spend) is not there already, which is
  what the serial numbers of the foundries of an account are for.  Tokens that a transaction does not pass on
  while their foundry is not part of it are burned.\<close>

definition spentOutputs :: "transaction \<Rightarrow> resolved_inputs \<Rightarrow> ledger_output multiset" where
  "spentOutputs t ri = mset (map snd (spent t ri))"

inductive token_ledger :: "'a tx_deps_scheme \<Rightarrow> bytes \<Rightarrow> int \<Rightarrow> ledger_output multiset \<Rightarrow> bool"
  for D :: "'a tx_deps_scheme" and i where
  start: "booksKept D i 0 L \<Longrightarrow> token_ledger D i 0 L"
| transact: "token_ledger D i burned L \<Longrightarrow> Execute D api t ri ua [] = Inr outs \<Longrightarrow> resolves t ri \<Longrightarrow>
    spentOutputs t ri \<subseteq># L \<Longrightarrow> SyntacticallyValidateOutputs D api m c outs = Inr () \<Longrightarrow>
    (foundries D i (spentOutputs t ri) = {#} \<Longrightarrow> foundries D i (mset outs) \<noteq> {#} \<Longrightarrow> foundries D i L = {#}) \<Longrightarrow>
    token_ledger D i
      (if foundries D i (spentOutputs t ri) = {#} \<and> foundries D i (mset outs) = {#}
       then burned + (circulating i (spentOutputs t ri) - circulating i (mset outs)) else burned)
      (L - spentOutputs t ri + mset outs)"

section \<open>What one transaction does to the foundries and tokens\<close>

lemma input_foundry_filed:
  assumes "ChainInputSet D xs = Inr cs" "(k, FoundryO f) \<in> set xs" "foundryID D f = Inr i"
  shows "map_of cs (FoundryIDc i) \<noteq> None"
proof -
  let ?P = "\<lambda>ys s. (k, FoundryO f) \<in> set ys \<longrightarrow> map_of s (FoundryIDc i) \<noteq> None"
  have "?P xs cs"
  proof (rule foldG_prefix_invariant [where P = ?P])
    show "foldG (chainInputSetStep D) [] xs = Inr cs" using assms(1) by (simp add: ChainInputSet_def)
    fix ys :: "(bytes \<times> ledger_output) list" and x s s'
    assume P: "?P ys s" and st: "chainInputSetStep D s x = Inr s'"
    obtain l out where x: "x = (l, out)" by (cases x)
    show "?P (ys @ [x]) s'"
    proof (cases "out = FoundryO f")
      case True
      have "inputChainID D (FoundryIDc i) l = FoundryIDc i" by (simp add: inputChainID_foundry)
      with st True have "map_of s' (FoundryIDc i) \<noteq> None"
        using assms(3) by (auto simp: chainInputSetStep_def x outChainID_def Let_def update_conv' split: if_splits)
      then show ?thesis by simp
    next
      case False
      have "map_of s' (FoundryIDc i) \<noteq> None" if "map_of s (FoundryIDc i) \<noteq> None"
        using st that by (auto simp: chainInputSetStep_def x andthen_eq_Inr Let_def update_conv' split: option.splits if_splits)
      with P False show ?thesis by (auto simp: x)
    qed
  qed simp
  with assms(2) show ?thesis by blast
qed

lemma constructInput_foundry: "constructInput x = Inr y \<Longrightarrow> (y = FoundryO f) = (x = FoundryO f)"
  by (cases rule: constructInput_cases) auto

text \<open>The foundries among the spent outputs are those filed as chains on the input side.\<close>

lemma spent_foundries:
  assumes "NewVMParamsWorkingSet D api t ri = Inr ws" "resolves t ri"
  shows "map_of (ws_InChains ws) (FoundryIDc i) = None \<Longrightarrow> foundries D i (spentOutputs t ri) = {#}"
    and "map_of (ws_InChains ws) (FoundryIDc i) = Some co \<Longrightarrow>
      \<exists>f. co_Output co = FoundryO f \<and> foundryID D f = Inr i \<and> FoundryO f \<in># foundries D i (spentOutputs t ri)"
proof -
  note w = NewVMParamsWorkingSet_Inr [OF assms(1)]
  have same: "(\<exists>x \<in> set (ws_UTXOInputsSet ws). snd x = FoundryO f) \<longleftrightarrow> FoundryO f \<in># spentOutputs t ri" for f
  proof -
    have "(\<forall>x \<in> set (ws_UTXOInputsSet ws). snd x \<noteq> FoundryO f) = (\<forall>x \<in> set (spent t ri). snd x \<noteq> FoundryO f)"
      by (rule spent_ball [OF assms(2) w(1)]) (simp add: constructInput_foundry)
    moreover have "FoundryO f \<in># spentOutputs t ri \<longleftrightarrow> \<not> (\<forall>x \<in> set (spent t ri). snd x \<noteq> FoundryO f)"
      by (force simp: spentOutputs_def)
    ultimately show ?thesis by blast
  qed
  show "foundries D i (spentOutputs t ri) = {#}" if n: "map_of (ws_InChains ws) (FoundryIDc i) = None"
  proof (rule ccontr)
    assume "foundries D i (spentOutputs t ri) \<noteq> {#}"
    then obtain x where "x \<in># foundries D i (spentOutputs t ri)" by blast
    then obtain f where f: "FoundryO f \<in># spentOutputs t ri" "foundryID D f = Inr i"
      by (auto simp: foundries_def isFoundry_iff)
    then obtain k where "(k, FoundryO f) \<in> set (ws_UTXOInputsSet ws)" using same [of f] by force
    from input_foundry_filed [OF w(7) this f(2)] n show False by blast
  qed
  show "\<exists>f. co_Output co = FoundryO f \<and> foundryID D f = Inr i \<and> FoundryO f \<in># foundries D i (spentOutputs t ri)"
    if n: "map_of (ws_InChains ws) (FoundryIDc i) = Some co"
  proof -
    obtain f where f: "co_Output co = FoundryO f" "foundryID D f = Inr i" using chain_foundries(1) [OF w(7) n] by blast
    have "(co_OutputID co, FoundryO f) \<in> set (ws_UTXOInputsSet ws)" using chain_inputs_origin [OF w(7) n] f(1) by auto
    with same have "FoundryO f \<in># spentOutputs t ri" by force
    with f show ?thesis by (auto simp: foundries_def isFoundry_iff)
  qed
qed

text \<open>A validated list of outputs has at most one foundry of each ID, filed as a chain on the output side.\<close>

lemma namedChain_foundry:
  "namedChain D out = Some (FoundryIDc i) \<longleftrightarrow> isFoundry D i out \<and> \<not> chainEmpty (FoundryIDc i)"
  using outChainID_foundry [of D out i]
  by (auto simp: namedChain_def isFoundry_iff split: sum.splits option.splits)

lemma single_foundry:
  assumes "distinct (List.map_filter (namedChain D) outs)" "\<not> chainEmpty (FoundryIDc i)"
  shows "size (foundries D i (mset outs)) \<le> 1"
  using assms(1)
proof (induction outs)
  case (Cons out outs)
  have d: "distinct (List.map_filter (namedChain D) outs)"
    using Cons.prems by (auto simp: map_filter_simps split: option.splits)
  have "foundries D i (mset outs) = {#}" if o: "isFoundry D i out"
  proof (rule ccontr)
    assume "foundries D i (mset outs) \<noteq> {#}"
    then obtain x where "x \<in># foundries D i (mset outs)" by blast
    then have "FoundryIDc i \<in> set (List.map_filter (namedChain D) outs)"
      using namedChain_foundry [of D x i] assms(2)
      by (auto simp: foundries_def map_filter_def intro!: rev_image_eqI [of x])
    then show False using Cons.prems namedChain_foundry [of D out i] o assms(2) by (simp add: map_filter_simps)
  qed
  with Cons.IH [OF d] show ?case by (simp add: foundries_def)
qed (simp add: foundries_def)

lemma output_foundries:
  assumes "OutputsChainOutputSet D outs txID = Inr cs" "distinct (List.map_filter (namedChain D) outs)"
  shows "map_of cs (FoundryIDc i) = None \<Longrightarrow> foundries D i (mset outs) = {#}"
    and "map_of cs (FoundryIDc i) = Some x \<Longrightarrow>
      \<exists>g. x = FoundryO g \<and> foundryID D g = Inr i \<and> foundries D i (mset outs) = {#FoundryO g#}"
proof -
  show "foundries D i (mset outs) = {#}" if n: "map_of cs (FoundryIDc i) = None"
    using foundry_filed [OF assms(1)] n by (force simp: foundries_def isFoundry_iff)
  show "\<exists>g. x = FoundryO g \<and> foundryID D g = Inr i \<and> foundries D i (mset outs) = {#FoundryO g#}"
    if n: "map_of cs (FoundryIDc i) = Some x"
  proof -
    obtain g where g: "x = FoundryO g" "foundryID D g = Inr i" using chain_foundries(2) [OF assms(1) n] by blast
    have "FoundryIDc i \<in> fst ` set cs" using n by (auto dest: map_of_SomeD intro: rev_image_eqI)
    then have "\<not> chainEmpty (FoundryIDc i)" using chain_set_distinct(2) [OF assms(1)] by blast
    from single_foundry [OF assms(2) this] have "size (foundries D i (mset outs)) \<le> 1" .
    moreover have "x \<in> set outs" using chain_set_distinct(3) [OF assms(1)] n by (force dest: map_of_SomeD)
    then have "x \<in># foundries D i (mset outs)" using g by (auto simp: foundries_def isFoundry_iff)
    ultimately have "foundries D i (mset outs) = {#x#}" by (auto dest!: multi_member_split)
    with g show ?thesis by blast
  qed
qed

text \<open>The foundry with an ID on either side of a transaction, seen through the chains of the working set.\<close>

lemma foundry_sides:
  assumes n: "NewVMParamsWorkingSet D api t ri = Inr ws" and r: "resolves t ri"
    and v: "safemath64 D" "SyntacticallyValidateOutputs D api m c (tx_Outputs t) = Inr ()"
  shows "foundries D i (spentOutputs t ri) = {#} \<Longrightarrow> map_of (ws_InChains ws) (FoundryIDc i) = None"
    and "foundries D i (spentOutputs t ri) = {#FoundryO f#} \<Longrightarrow>
      \<exists>co. map_of (ws_InChains ws) (FoundryIDc i) = Some co \<and> co_Output co = FoundryO f \<and> foundryID D f = Inr i"
    and "foundries D i (mset (tx_Outputs t)) = {#} \<Longrightarrow> map_of (ws_OutChains ws) (FoundryIDc i) = None"
    and "foundries D i (mset (tx_Outputs t)) = {#FoundryO g#} \<Longrightarrow>
      map_of (ws_OutChains ws) (FoundryIDc i) = Some (FoundryO g) \<and> foundryID D g = Inr i"
    and "foundries D i (mset (tx_Outputs t)) = {#} \<or> (\<exists>g. foundries D i (mset (tx_Outputs t)) = {#FoundryO g#})"
proof -
  obtain txID where os: "OutputsChainOutputSet D (tx_Outputs t) txID = Inr (ws_OutChains ws)"
    using NewVMParamsWorkingSet_Inr(8) [OF n] by blast
  have chains: "distinct (List.map_filter (namedChain D) (tx_Outputs t))"
    using SyntacticallyValidateOutputs_iff [OF v(1), THEN iffD1, OF v(2)] by blast
  note fin = spent_foundries [OF n r, of i] and fout = output_foundries [OF os chains, of i]
  show "foundries D i (spentOutputs t ri) = {#} \<Longrightarrow> map_of (ws_InChains ws) (FoundryIDc i) = None"
    using fin(2) by (cases "map_of (ws_InChains ws) (FoundryIDc i)") auto
  show "foundries D i (spentOutputs t ri) = {#FoundryO f#} \<Longrightarrow>
      \<exists>co. map_of (ws_InChains ws) (FoundryIDc i) = Some co \<and> co_Output co = FoundryO f \<and> foundryID D f = Inr i"
    using fin by (cases "map_of (ws_InChains ws) (FoundryIDc i)") auto
  show "foundries D i (mset (tx_Outputs t)) = {#} \<Longrightarrow> map_of (ws_OutChains ws) (FoundryIDc i) = None"
    using fout(2) by (cases "map_of (ws_OutChains ws) (FoundryIDc i)") auto
  show "foundries D i (mset (tx_Outputs t)) = {#FoundryO g#} \<Longrightarrow>
      map_of (ws_OutChains ws) (FoundryIDc i) = Some (FoundryO g) \<and> foundryID D g = Inr i"
    using fout by (cases "map_of (ws_OutChains ws) (FoundryIDc i)") auto
  show "foundries D i (mset (tx_Outputs t)) = {#} \<or> (\<exists>g. foundries D i (mset (tx_Outputs t)) = {#FoundryO g#})"
    using fout by (cases "map_of (ws_OutChains ws) (FoundryIDc i)") blast+
qed

text \<open>The token scheme of the foundry saw exactly the tokens of the transaction; without the foundry tokens
  can only disappear.\<close>

lemma transaction_tokens:
  fixes i :: bytes
  assumes ex: "Execute D api t ri ua [] = Inr outs" and r: "resolves t ri"
    and v: "safemath64 D" "SyntacticallyValidateOutputs D api m c outs = Inr ()"
  defines "inp \<equiv> circulating i (spentOutputs t ri)" and "out \<equiv> circulating i (mset outs)"
  shows "\<forall>x \<in> set outs. 0 \<le> tokenAmount i x"
    and "foundries D i (mset outs) = {#} \<or> (\<exists>g. foundries D i (mset outs) = {#FoundryO g#})"
    and "foundries D i (spentOutputs t ri) = {#} \<Longrightarrow> foundries D i (mset outs) = {#} \<Longrightarrow> out \<le> inp"
    and "foundries D i (spentOutputs t ri) = {#} \<Longrightarrow> foundries D i (mset outs) = {#FoundryO g#} \<Longrightarrow>
      schemeStateTransition (fo_TokenScheme g) TransGenesis None 0 out = Inr ()"
    and "foundries D i (spentOutputs t ri) = {#FoundryO f#} \<Longrightarrow> foundries D i (mset outs) = {#FoundryO g#} \<Longrightarrow>
      schemeStateTransition (fo_TokenScheme f) TransStateChange (Some (fo_TokenScheme g)) inp out = Inr ()"
    and "foundries D i (spentOutputs t ri) = {#FoundryO f#} \<Longrightarrow> foundries D i (mset outs) = {#} \<Longrightarrow>
      schemeStateTransition (fo_TokenScheme f) TransDestroy None inp out = Inr ()"
proof -
  from ex obtain ws outS where n: "NewVMParamsWorkingSet D api t ri = Inr ws" and o: "outs = tx_Outputs t"
    and sm: "NativeTokenSum D (tx_Outputs (ws_Tx ws)) = Inr outS"
    by (rule Execute_Inr) blast
  note w = NewVMParamsWorkingSet_Inr [OF n]
  show "\<forall>x \<in> set outs. 0 \<le> tokenAmount i x" using NativeTokenSum_Inr(4) [OF sm] by (simp add: w(3) o)
  obtain txID where tx: "TransactionIDG D t = Inr txID" and os: "OutputsChainOutputSet D (tx_Outputs t) txID = Inr (ws_OutChains ws)"
    using w(8) by blast
  note sides = foundry_sides [OF n r v(1) v(2) [unfolded o], of i, folded o]
  show "foundries D i (mset outs) = {#} \<or> (\<exists>g. foundries D i (mset outs) = {#FoundryO g#})" by (rule sides(5))
  have out: "out = (\<Sum>x\<leftarrow>outs. tokenAmount i x)" by (simp add: out_def circulating_mset)
  have inp: "inp = (\<Sum>x\<leftarrow>spent t ri. tokenAmount i (snd x))"
    by (simp add: inp_def spentOutputs_def circulating_mset comp_def del: mset_map)
  show "out \<le> inp" if "foundries D i (mset outs) = {#}" "foundries D i (spentOutputs t ri) = {#}"
    using execute_native_tokens [OF ex tx os sides(3) [OF that(1)]] by (simp add: inp out)
  obtain ws2 where ws2: "withSums ua ws ws2" and c: "chainTransitions (ChainSTVF D api) ws2 = Inr ()"
    using execute_transitions [OF ex n] .
  have sel: "ws_InChains ws2 = ws_InChains ws" "ws_OutChains ws2 = ws_OutChains ws" and
    inS: "ValueOrBigInt0 (ws_InNativeTokens ws2) i = (\<Sum>x\<leftarrow>ws_UTXOInputs ws. tokenAmount i x)" and
    outS: "ValueOrBigInt0 (ws_OutNativeTokens ws2) i = out"
    using ws2 by (auto simp: withSums_def o w(3) out)
  have inS: "ValueOrBigInt0 (ws_InNativeTokens ws2) i = inp"
    unfolding inS inp by (rule spent_inputs_sum [OF w(1,2)]) (simp add: constructInput_same)
  note tr = chainTransitions_Inr [OF c, unfolded sel, of "FoundryIDc i"]
  note ft = foundry_transitions [where D = D and api = api and ws = ws2 and i = i, unfolded inS outS]
  show "schemeStateTransition (fo_TokenScheme g) TransGenesis None 0 out = Inr ()"
    if "foundries D i (spentOutputs t ri) = {#}" "foundries D i (mset outs) = {#FoundryO g#}"
    using ft(3) tr(3) sides(1) sides(4) that by blast
  show "schemeStateTransition (fo_TokenScheme f) TransStateChange (Some (fo_TokenScheme g)) inp out = Inr ()"
    if "foundries D i (spentOutputs t ri) = {#FoundryO f#}" "foundries D i (mset outs) = {#FoundryO g#}"
    using ft(1) tr(1) sides(2) [OF that(1)] sides(4) [OF that(2)] by fastforce
  show "schemeStateTransition (fo_TokenScheme f) TransDestroy None inp out = Inr ()"
    if "foundries D i (spentOutputs t ri) = {#FoundryO f#}" "foundries D i (mset outs) = {#}"
    using ft(2) tr(2) sides(2) [OF that(1)] sides(3) [OF that(2)] by blast
qed


section \<open>The books are kept\<close>

lemma scheme_of_validated:
  assumes "safemath64 D" "SyntacticallyValidateOutputs D api m c outs = Inr ()" "FoundryO g \<in> set outs"
  shows "sts_MintedTokens (fo_TokenScheme g) - sts_MeltedTokens (fo_TokenScheme g) \<le> sts_MaximumSupply (fo_TokenScheme g)"
proof -
  have o: "OutputsSyntacticalFoundry D 0 (FoundryO g) = Inr ()"
    using SyntacticallyValidateOutputs_iff [OF assms(1), THEN iffD1, OF assms(2)] assms(3) by blast
  obtain fs where "featsSet (outFeatures (FoundryO g)) = Inr fs"
    using accepted_output [OF assms] by blast
  from foundry_accepted [of g fs D 0] this o show ?thesis by (simp add: chainOutputFit_def)
qed

text \<open>Taking outputs out of the ledger and putting others in.\<close>

lemma exchange:
  assumes sub: "M \<subseteq># L" and L: "\<forall>x \<in># L. 0 \<le> tokenAmount i x" and N: "\<forall>x \<in># N. 0 \<le> tokenAmount i x"
  shows "\<forall>x \<in># L - M + N. 0 \<le> tokenAmount i x"
    and "0 \<le> circulating i M" and "0 \<le> circulating i N" and "circulating i M \<le> circulating i L"
    and "circulating i (L - M + N) = circulating i L - circulating i M + circulating i N"
    and "foundries D i (L - M + N) = foundries D i L - foundries D i M + foundries D i N"
    and "foundries D i M \<subseteq># foundries D i L"
proof -
  show "\<forall>x \<in># L - M + N. 0 \<le> tokenAmount i x" using L N by (auto dest: in_diffD)
  show "0 \<le> circulating i N" using N by (rule circulating_nonneg)
  show "0 \<le> circulating i M" using circulating_nonneg [of M i] L sub by (auto dest: mset_subset_eqD)
  have rest: "0 \<le> circulating i (L - M)" by (rule circulating_nonneg) (use L in \<open>auto dest: in_diffD\<close>)
  show "circulating i M \<le> circulating i L"
    "circulating i (L - M + N) = circulating i L - circulating i M + circulating i N"
    using rest sub by (simp_all only: circulating_add circulating_sub diff_ge_0_iff_ge)
  show "foundries D i (L - M + N) = foundries D i L - foundries D i M + foundries D i N"
    "foundries D i M \<subseteq># foundries D i L"
    using sub by (simp_all add: foundries_def multiset_filter_mono)
qed

text \<open>The counting behind the invariant.\<close>

lemma books_step:
  assumes books: "booksKept D i burned L" and sub: "M \<subseteq># L"
    and pos: "\<forall>x \<in># N. 0 \<le> tokenAmount i x"
    and out: "foundries D i N = {#} \<or> (\<exists>g. foundries D i N = {#FoundryO g#}
      \<and> sts_MintedTokens (fo_TokenScheme g) - sts_MeltedTokens (fo_TokenScheme g) \<le> sts_MaximumSupply (fo_TokenScheme g))"
    and burn: "foundries D i M = {#} \<Longrightarrow> foundries D i N = {#} \<Longrightarrow> circulating i N \<le> circulating i M"
    and create: "\<And>g. foundries D i M = {#} \<Longrightarrow> foundries D i N = {#FoundryO g#} \<Longrightarrow>
      schemeStateTransition (fo_TokenScheme g) TransGenesis None 0 (circulating i N) = Inr () \<and> foundries D i L = {#}"
    and change: "\<And>f g. foundries D i M = {#FoundryO f#} \<Longrightarrow> foundries D i N = {#FoundryO g#} \<Longrightarrow>
      schemeStateTransition (fo_TokenScheme f) TransStateChange (Some (fo_TokenScheme g))
        (circulating i M) (circulating i N) = Inr ()"
    and destroy: "\<And>f. foundries D i M = {#FoundryO f#} \<Longrightarrow> foundries D i N = {#} \<Longrightarrow>
      schemeStateTransition (fo_TokenScheme f) TransDestroy None (circulating i M) (circulating i N) = Inr ()"
  shows "booksKept D i
      (if foundries D i M = {#} \<and> foundries D i N = {#} then burned + (circulating i M - circulating i N) else burned)
      (L - M + N)"
proof -
  have L: "\<forall>x \<in># L. 0 \<le> tokenAmount i x" using books by (simp add: booksKept_def)
  note x = exchange [OF sub L pos]
  note nonneg = x(1) and M = x(2) and N = x(3) and sums = x(5) x(4) and sets = x(6) [of D] x(7) [of D]
  note defs = schemeStateTransition_def scheme_genesis_iff scheme_change_iff scheme_destruction_iff
  consider (none) "foundries D i L = {#}" "circulating i L = 0" "burned = 0"
    | (one) f where "foundries D i L = {#FoundryO f#}"
       "circulating i L + burned = sts_MintedTokens (fo_TokenScheme f) - sts_MeltedTokens (fo_TokenScheme f)"
       "circulating i L + burned \<le> sts_MaximumSupply (fo_TokenScheme f)"
    using books by (auto simp: booksKept_def)
  then show ?thesis
  proof cases
    case none
    have M0: "foundries D i M = {#}" "circulating i M = 0" using sets(2) sums(2) none M by simp_all
    from out show ?thesis
    proof (elim disjE exE conjE)
      assume "foundries D i N = {#}"
      with burn M0 N none nonneg show ?thesis by (simp add: booksKept_def sets sums)
    next
      fix g assume g: "foundries D i N = {#FoundryO g#}"
        "sts_MintedTokens (fo_TokenScheme g) - sts_MeltedTokens (fo_TokenScheme g) \<le> sts_MaximumSupply (fo_TokenScheme g)"
      with create [OF M0(1) g(1)] M0 none nonneg show ?thesis by (simp add: booksKept_def sets sums defs)
    qed
  next
    case (one f)
    have b: "0 \<le> burned" using books by (simp add: booksKept_def)
    have "foundries D i M = {#} \<or> foundries D i M = {#FoundryO f#}"
      using sets(2) one(1) by (auto simp: subset_mset.le_less dest: mset_subset_size)
    then consider (absent) "foundries D i M = {#}" "foundries D i N = {#}"
      | (keep) g where "foundries D i M = {#FoundryO f#}" "foundries D i N = {#FoundryO g#}"
        "sts_MintedTokens (fo_TokenScheme g) - sts_MeltedTokens (fo_TokenScheme g) \<le> sts_MaximumSupply (fo_TokenScheme g)"
      | (gone) "foundries D i M = {#FoundryO f#}" "foundries D i N = {#}"
    proof -
      have "foundries D i N = {#}" if "foundries D i M = {#}" using out create [OF that] one(1) by auto
      then show thesis using that out \<open>foundries D i M = {#} \<or> _\<close> by blast
    qed
    then show ?thesis
    proof cases
      case absent
      with burn one b nonneg show ?thesis by (simp add: booksKept_def sets sums)
    next
      case keep
      with change [OF keep(1,2)] one b nonneg show ?thesis by (simp add: booksKept_def sets sums defs)
    next
      case gone
      have "circulating i M - circulating i N = circulating i L + burned"
        using destroy [OF gone] one(2) by (simp add: defs)
      with sums(2) N b have "circulating i L - circulating i M + circulating i N = 0 \<and> burned = 0" by linarith
      with gone one nonneg show ?thesis by (simp add: booksKept_def sets sums(1))
    qed
  qed
qed

lemma token_ledger_books:
  assumes "token_ledger D i burned L" "safemath64 D"
  shows "booksKept D i burned L"
  using assms(1)
proof (induction rule: token_ledger.induct)
  case (transact burned L api t ri ua outs m c)
  note t = transaction_tokens [OF transact.hyps(2,3) assms(2) transact.hyps(5)]
  show ?case
  proof (rule books_step [OF transact.IH transact.hyps(4)])
    show "foundries D i (mset outs) = {#} \<or> (\<exists>g. foundries D i (mset outs) = {#FoundryO g#}
      \<and> sts_MintedTokens (fo_TokenScheme g) - sts_MeltedTokens (fo_TokenScheme g) \<le> sts_MaximumSupply (fo_TokenScheme g))"
    proof -
      have "FoundryO g \<in> set outs" if "foundries D i (mset outs) = {#FoundryO g#}" for g
        using that [THEN arg_cong, of set_mset] by (auto simp: foundries_def)
      with t(2) scheme_of_validated [OF assms(2) transact.hyps(5)] show ?thesis by blast
    qed
    show "schemeStateTransition (fo_TokenScheme g) TransGenesis None 0 (circulating i (mset outs)) = Inr ()
        \<and> foundries D i L = {#}"
      if "foundries D i (spentOutputs t ri) = {#}" "foundries D i (mset outs) = {#FoundryO g#}" for g
      using t(4) [OF that] transact.hyps(6) that by simp
  qed (use t(1) in simp, rule t(3), assumption+, rule t(5), assumption+, rule t(6), assumption+)
qed

text \<open>C32: at every point of the life of the ledger, for the tokens of every foundry: the ledger holds at
  most one foundry with the ID, the tokens it holds and the tokens that were burned by transactions without
  the foundry are together its minted less its melted tokens, within its maximum supply, and once the foundry
  is gone no token is left (and none was burned: burning makes the destruction of the foundry impossible).
  The ledger starts with such books, for instance with neither the foundry nor a token, and every
  transaction is executed on unspent outputs, has validated outputs and creates no foundry whose ID is taken.\<close>

theorem token_supply_invariant:
  assumes "token_ledger D i burned L" "safemath64 D"
  shows "0 \<le> burned \<and> 0 \<le> circulating i L
    \<and> (foundries D i L = {#} \<and> circulating i L = 0 \<and> burned = 0
       \<or> (\<exists>f. foundries D i L = {#FoundryO f#}
            \<and> circulating i L = sts_MintedTokens (fo_TokenScheme f) - sts_MeltedTokens (fo_TokenScheme f) - burned
            \<and> sts_MintedTokens (fo_TokenScheme f) - sts_MeltedTokens (fo_TokenScheme f)
                \<le> sts_MaximumSupply (fo_TokenScheme f)))"
proof -
  note b = token_ledger_books [OF assms]
  from b have "0 \<le> circulating i L" by (intro circulating_nonneg) (simp add: booksKept_def)
  with b show ?thesis by (auto simp: booksKept_def)
qed

text \<open>A ledger that holds a foundry without tokens, which then mints 30.\<close>

definition free_api :: ledger_api where
  "free_api = demo_api\<lparr>api_StorageScoreStructure :=
     demo_structure\<lparr>sss_Parameters := demo_score\<lparr>ssp_StorageCost := 0\<rparr>\<rparr>\<rparr>"

lemma free_deposits:
  "MinDeposit ref_tx_deps (api_StorageScoreStructure free_api) demo_f0 = Inr 0"
  "MinDeposit ref_tx_deps (api_StorageScoreStructure free_api) (demo_f1 i) = Inr 0"
  by (simp_all add: free_api_def MinDeposit_def outStorageScore_def demo_f0_def demo_f1_def foundryStorageScore_def
      foundrySize_def schemeSize_def ucsSize_def featsSize_def ucSize_def featSize_def ucsStorageScore_def
      featsStorageScore_def ucStorageScore_def featStorageScore_def addrStorageScore_def dataScore_def
      demo_structure_def demo_score_def factorMultiply_def ref_mul_def)

lemma free_no_mana: "noManaIn free_api"
proof -
  have "PotentialMana ref_tx_deps demo_mana (api_StorageScoreStructure free_api) demo_f0 20 20 = Inr 0"
    by (simp add: PotentialMana_def free_deposits ref_sub_def GenerateManaAndDecayBySlots_def generateMana_def Let_def)
  then show ?thesis
    using TotalManaIn_Inr [OF ref_tx_safemath, of demo_mana "api_StorageScoreStructure free_api" 20 "[(demo_id, demo_f0)]" "[]" 0]
    by (simp add: noManaIn_def inputMana_def free_api_def)
qed

lemma demo_f1_accepted:
  assumes "\<forall>n fs. foundryID ref_tx_deps (demo_foundry n fs) = Inr i"
  shows "SyntacticallyValidateOutputs ref_tx_deps free_api 1000 False [demo_f1 i] = Inr ()"
proof -
  note f = demo_f1_def demo_foundry_def
  note sets = outUCSet_def outFeatSet_def ucsMustSet_eq featsMustSet_eq ucAddress_def ucStorageDepositReturn_def
    ucStateControllerAddress_def ucGovernorAddress_def ucExpiration_def ucTimelock_def ftNativeToken_def
    ftStaking_def ftBlockIssuer_def ftMetadata_def ftStateMetadata_def
  have id: "foundryID ref_tx_deps (demo_foundry 30 [NativeTokenF i 30]) = Inr i" using assms by blast
  have one: "OutputsSyntacticalUnlockConditionLexicalOrderAndUniqueness 0 (demo_f1 i) = Inr ()"
    "OutputsSyntacticalFeaturesLexicalOrderAndUniqueness 0 (demo_f1 i) = Inr ()"
    "OutputsSyntacticalMetadataFeatureMaxSize ref_tx_deps 0 (demo_f1 i) = Inr ()"
    "OutputsSyntacticalExpirationAndTimelock 0 (demo_f1 i) = Inr ()"
    "OutputsSyntacticalNativeTokens 0 (demo_f1 i) = Inr ()"
    "OutputsSyntacticalAccount 0 (demo_f1 i) = Inr ()"
    "OutputsSyntacticalAnchor 0 (demo_f1 i) = Inr ()" "OutputsSyntacticalNFT 0 (demo_f1 i) = Inr ()"
    "OutputsSyntacticalDelegation 0 (demo_f1 i) = Inr ()"
    "OutputsSyntacticalCommitmentInput False 0 (demo_f1 i) = Inr ()"
    "OutputsSyntacticalImplicitAccountCreationAddress 0 (demo_f1 i) = Inr ()"
    "OutputsSyntacticalAddressRestrictions 0 (demo_f1 i) = Inr ()"
    by (simp_all add: f output_syntax_defs sets metadataCheck_def Let_def restrictedBy_def uc_order.accepts
        feat_order.accepts)
  have foundry: "OutputsSyntacticalFoundry ref_tx_deps 0 (demo_f1 i) = Inr ()"
    using id by (simp add: demo_f1_def OutputsSyntacticalFoundry_def sets scheme_syntax_iff)
  have deposit: "ok (CoversMinDeposit ref_tx_deps (api_StorageScoreStructure free_api) (demo_f1 i) (outAmount (demo_f1 i)))
      \<and> (\<exists>u. outUCSet (demo_f1 i) = Inr u \<and> returnDepositCheck ref_tx_deps (api_StorageScoreStructure free_api)
          (outAmount (demo_f1 i)) (ucStorageDepositReturn u) = Inr ())"
    by (simp add: CoversMinDeposit_def free_deposits returnDepositCheck_def) (simp add: demo_f1_def sets)
  have chain: "ok (outChainID ref_tx_deps (demo_f1 i))"
    using id by (simp add: demo_f1_def outChainID_def)
  show ?thesis
    unfolding SyntacticallyValidateOutputs_iff [OF ref_tx_safemath] using one foundry deposit chain
    by (simp add: free_api_def demo_api_def map_filter_simps split: option.splits)
qed

theorem token_supply_invariant_witness:
  "\<exists>i f. foundries ref_tx_deps i {#demo_f1 i#} = {#FoundryO f#}
    \<and> circulating i {#demo_f1 i#} = sts_MintedTokens (fo_TokenScheme f) - sts_MeltedTokens (fo_TokenScheme f)
    \<and> circulating i {#demo_f1 i#} = 30"
proof -
  obtain i where i: "i \<noteq> replicate 38 0" "\<forall>n fs. foundryID ref_tx_deps (demo_foundry n fs) = Inr i"
    using demo_foundry_ID by blast
  have fs: "foundries ref_tx_deps i {#demo_f0#} = {#demo_f0#}" "foundries ref_tx_deps i {#demo_f1 i#} = {#demo_f1 i#}"
    using i(2) by (simp_all add: foundries_def isFoundry_iff demo_f0_def demo_f1_def)
  have tokens: "tokenAmount i demo_f0 = 0" "tokenAmount i (demo_f1 i) = 30"
    by (simp_all add: tokenAmount_def tokenOf_def ftNativeToken_def)
  have "booksKept ref_tx_deps i 0 {#demo_f0#}"
    using fs(1) tokens(1) by (simp add: booksKept_def circulating_def) (simp add: demo_f0_def)
  then have "token_ledger ref_tx_deps i 0 {#demo_f0#}" by (rule start)
  moreover have sp: "spentOutputs (demo_move (demo_f1 i)) (demo_inputs demo_f0) = {#demo_f0#}"
    by (simp add: spentOutputs_def)
  ultimately have "token_ledger ref_tx_deps i 0 {#demo_f1 i#}"
    using transact [where i = i and burned = 0 and L = "{#demo_f0#}", OF _ demo_f_executes_of [OF i free_no_mana] demo_resolves
        _ demo_f1_accepted [OF i(2)]] fs by simp
  from token_supply_invariant [OF this ref_tx_safemath] obtain f where
    "foundries ref_tx_deps i {#demo_f1 i#} = {#FoundryO f#}"
    "circulating i {#demo_f1 i#} = sts_MintedTokens (fo_TokenScheme f) - sts_MeltedTokens (fo_TokenScheme f)"
    using fs(2) by auto
  moreover have "circulating i {#demo_f1 i#} = 30" using tokens(2) by (simp add: circulating_def)
  ultimately show ?thesis by blast
qed

end
