(* ===== verification/Address_Rules.thy ===== *)
theory Address_Rules
  imports Addresses Bitmask_Caps Syntax_Validators
begin

text \<open>
  The validators and array rules api_common.go registers for addresses: which addresses may be nested in a
  multi address or a restricted address, the weights and the threshold, and the order of the members.
\<close>

text \<open>The type switch over a member.  A multi address reference is no case of it.\<close>

definition checkMember :: "address \<Rightarrow> unit go" where
  "checkMember a =
    (case a of
       Ed25519Address _ \<Rightarrow> Inr ()
     | AccountAddress _ \<Rightarrow> Inr ()
     | NFTAddress _ \<Rightarrow> Inr ()
     | AnchorAddress _ \<Rightarrow> Inr ()
     | ImplicitAccountCreationAddress _ \<Rightarrow> throw (Wrap (Sentinel ''ErrInvalidNestedAddressType'')
         ''address with index %d is an implicit account creation address inside a multi address'')
     | MultiAddress _ _ \<Rightarrow> throw (Wrap (Sentinel ''ErrInvalidNestedAddressType'')
         ''address with index %d is a multi address inside a multi address'')
     | RestrictedAddress _ _ \<Rightarrow> throw (Wrap (Sentinel ''ErrInvalidNestedAddressType'')
         ''address with index %d is a restricted address inside a multi address'')
     | MultiAddressReference _ \<Rightarrow>
         Inl (Panic ''address with index %d has an unknown address type (%T) inside a multi address''))"

definition multiMemberStep :: "u16 \<Rightarrow> address \<times> u8 \<Rightarrow> u16 go" where
  "multiMemberStep cumulativeWeight m =
    (case m of (a, weight) \<Rightarrow>
       andthen (checkMember a) (\<lambda>_.
       if weight = 0
       then throw (Wrap (Sentinel ''ErrMultiAddressWeightInvalid'') ''address with index %d needs to have at least weight=1'')
       else Inr (cumulativeWeight + ucast weight)))"

definition multiAddressValidatorFunc :: "(address \<times> u8) list \<Rightarrow> u16 \<Rightarrow> unit go" where
  "multiAddressValidatorFunc addresses threshold =
    andthen (foldG multiMemberStep 0 addresses) (\<lambda>cumulativeWeight.
    if cumulativeWeight < threshold
    then throw (Wrap (Sentinel ''ErrMultiAddressThresholdInvalid'')
           ''the threshold value exceeds the cumulative weight of all addresses (%d>%d)'')
    else if threshold < 1
    then throw (Wrap (Sentinel ''ErrMultiAddressThresholdInvalid'') ''multi addresses need to have at least threshold=1'')
    else Inr ())"

definition restrictedAddressValidatorFunc :: "address \<Rightarrow> bytes \<Rightarrow> unit go" where
  "restrictedAddressValidatorFunc a allowedCapabilities =
    (case BitMaskNonTrailingZeroBytesValidatorFunc allowedCapabilities of
       Inl (Err e) \<Rightarrow> throw (Wrap (Join (Sentinel ''ErrInvalidRestrictedAddress'') e) ''invalid allowed capabilities bitmask: %w'')
     | Inl f \<Rightarrow> Inl f
     | Inr _ \<Rightarrow>
        (case a of
           ImplicitAccountCreationAddress _ \<Rightarrow> throw (Wrap (Sentinel ''ErrInvalidNestedAddressType'')
             ''underlying address is an implicit account creation address inside a restricted address'')
         | RestrictedAddress _ _ \<Rightarrow> throw (Wrap (Sentinel ''ErrInvalidNestedAddressType'')
             ''underlying address is a restricted address inside a restricted address'')
         | MultiAddressReference _ \<Rightarrow>
             Inl (Panic ''underlying address of the restricted address is of unknown address type (%T)'')
         | _ \<Rightarrow> Inr ()))"

definition withWeightCompare :: "'a ledger_deps_scheme \<Rightarrow> address \<times> u8 \<Rightarrow> address \<times> u8 \<Rightarrow> int" where
  "withWeightCompare D a other = bytesCompare (addrID D (fst a)) (addrID D (fst other))"

definition addressesWithWeightValidator :: "'a ledger_deps_scheme \<Rightarrow> (address \<times> u8) list \<Rightarrow> unit go" where
  "addressesWithWeightValidator D addresses =
    SliceValidator (LexicalOrderAndUniquenessValidator (withWeightCompare D)) None addresses"

definition addressesWithWeightArrRules :: "(address \<times> u8) list \<Rightarrow> bool" where
  "addressesWithWeightArrRules addresses \<longleftrightarrow> 2 \<le> length addresses \<and> length addresses \<le> 10"

definition addressCapabilitiesMaxLen :: "bytes \<Rightarrow> bool" where
  "addressCapabilitiesMaxLen c \<longleftrightarrow> length c \<le> 2"

section \<open>Accepted addresses\<close>

interpretation weight_order: key_order "withWeightCompare D" "\<lambda>m. addrID D (fst m)"
  for D :: "'a ledger_deps_scheme"
  by unfold_locales (simp add: withWeightCompare_def bytesCompare_cmp)

definition plainAddress :: "address \<Rightarrow> bool" where
  "plainAddress a \<longleftrightarrow> (case a of Ed25519Address _ \<Rightarrow> True | AccountAddress _ \<Rightarrow> True | NFTAddress _ \<Rightarrow> True
     | AnchorAddress _ \<Rightarrow> True | _ \<Rightarrow> False)"

lemma checkMember_iff: "checkMember a = Inr () \<longleftrightarrow> plainAddress a"
  by (cases a) (simp_all add: checkMember_def plainAddress_def throw_def)

text \<open>The sum of at most 256 weights fits into its type, so the array rules keep it exact.\<close>

lemma members_fold:
  assumes "unat c + 255 * length ms < 2 ^ 16"
  shows "foldG multiMemberStep c ms = Inr w \<longleftrightarrow>
    list_all (\<lambda>(a, n). plainAddress a \<and> n \<noteq> 0) ms \<and> unat w = unat c + (\<Sum>(a, n)\<leftarrow>ms. unat n)"
  using assms
proof (induction ms arbitrary: c)
  case Nil
  then show ?case by (auto simp: word_eq_iff_unat)
next
  case (Cons m ms)
  obtain a n where m: "m = (a, n)" by (cases m)
  have n: "unat n \<le> 255" using unsigned_less [of n, where 'a = nat] by simp
  have u: "unat (c + ucast n) = unat c + unat n"
    using Cons.prems n by (simp add: unat_ucast_ups unat_word_ariths unat_ucast_up)
  have "unat (c + ucast n) + 255 * length ms < 2 ^ 16" using Cons.prems n u by simp
  from Cons.IH [OF this] show ?case
    by (auto simp: m multiMemberStep_def andthen_eq_Inr checkMember_iff throw_def u)
qed

text \<open>A multi address that the array rules admit is accepted exactly when its members are Ed25519 or chain
  addresses with positive weights, in strictly ascending order of their IDs, and the threshold is positive
  and within the sum of the weights, which does not wrap.\<close>

theorem multi_address_accepted:
  assumes "addressesWithWeightArrRules ms"
  shows "multiAddressValidatorFunc ms t = Inr () \<and> addressesWithWeightValidator D ms = Inr () \<longleftrightarrow>
    list_all (\<lambda>(a, n). plainAddress a \<and> n \<noteq> 0) ms \<and> 1 \<le> unat t \<and> unat t \<le> (\<Sum>(a, n)\<leftarrow>ms. unat n)
    \<and> sorted_wrt (<) (map (\<lambda>m. addrID D (fst m)) ms)"
proof -
  let ?sum = "\<Sum>(a, n)\<leftarrow>ms. unat n"
  have len: "255 * length ms < 2 ^ 16" using assms by (simp add: addressesWithWeightArrRules_def)
  have bound: "?sum \<le> 255 * length ms"
  proof (induction ms)
    case (Cons m ms)
    then show ?case using unsigned_less [of "snd m", where 'a = nat] by (cases m) simp
  qed simp
  then have fits: "unat (word_of_nat ?sum :: u16) = ?sum" using len by (simp add: unat_of_nat)
  have "multiAddressValidatorFunc ms t = Inr () \<longleftrightarrow>
      (\<exists>w. foldG multiMemberStep 0 ms = Inr w \<and> \<not> w < t \<and> \<not> t < 1)"
    by (auto simp: multiAddressValidatorFunc_def andthen_eq_Inr if_throw_eq_Inr)
  also have "\<dots> \<longleftrightarrow> list_all (\<lambda>(a, n). plainAddress a \<and> n \<noteq> 0) ms \<and> 1 \<le> unat t \<and> unat t \<le> ?sum"
    using members_fold [of 0 ms] len fits by (auto simp: word_less_nat_alt not_less)
  finally show ?thesis by (auto simp: addressesWithWeightValidator_def weight_order.accepts)
qed

theorem restricted_address_accepted:
  "restrictedAddressValidatorFunc a c = Inr () \<longleftrightarrow>
    trimmed c \<and> (plainAddress a \<or> (\<exists>ms t. a = MultiAddress ms t))"
proof (cases "BitMaskNonTrailingZeroBytesValidatorFunc c")
  case (Inl f)
  then have "\<not> trimmed c" by (simp flip: validator_iff)
  with Inl show ?thesis by (auto simp: restrictedAddressValidatorFunc_def throw_def split: fault.splits)
next
  case (Inr u)
  then have "trimmed c" by (simp flip: validator_iff)
  with Inr show ?thesis
    by (cases a) (simp_all add: restrictedAddressValidatorFunc_def plainAddress_def throw_def)
qed

end
