(* ===== verification/Key_Slices.thy ===== *)
theory Key_Slices
  imports Byte_Order
begin

text \<open>
  Block issuer keys as Go slices: block_issuer_key.go with the arrays behind the slices.  A slice is an array
  and a length; the rest of the array is spare capacity.  The clone of a block issuer feature
  (feat_blockissuer.go) has the slice of the original, so two slices share one array.  On the level of
  values @\<open>Add\<close> and @\<open>Remove\<close> are @\<open>keysAdd\<close> and @\<open>keysRemove\<close>; here it is shown what they do to the other
  slice.  How much spare capacity a new array gets is a choice of the Go runtime, the argument @\<open>spare\<close>.
\<close>

record key_heap =
  kh_arrays :: "nat \<Rightarrow> bytes list"
  kh_next :: nat

record key_slice =
  ks_array :: nat
  ks_len :: nat

definition readKeys :: "key_heap \<Rightarrow> key_slice \<Rightarrow> bytes list" where
  "readKeys h s = take (ks_len s) (kh_arrays h (ks_array s))"

definition slice_ok :: "key_heap \<Rightarrow> key_slice \<Rightarrow> bool" where
  "slice_ok h s \<longleftrightarrow> ks_array s < kh_next h \<and> ks_len s \<le> length (kh_arrays h (ks_array s))"

definition writeArray :: "nat \<Rightarrow> bytes list \<Rightarrow> key_heap \<Rightarrow> key_heap" where
  "writeArray a xs h = h\<lparr>kh_arrays := (kh_arrays h)(a := xs)\<rparr>"

text \<open>@\<open>append\<close> of one key: in place when there is capacity, in a new array otherwise.\<close>

definition appendKey :: "(nat \<Rightarrow> nat) \<Rightarrow> key_heap \<Rightarrow> key_slice \<Rightarrow> bytes \<Rightarrow> key_heap \<times> key_slice" where
  "appendKey spare h s key =
    (let a = kh_arrays h (ks_array s); n = ks_len s
     in if n < length a then (writeArray (ks_array s) (a[n := key]) h, s\<lparr>ks_len := n + 1\<rparr>)
        else (writeArray (kh_next h) (take n a @ key # replicate (spare n) []) h\<lparr>kh_next := kh_next h + 1\<rparr>,
              \<lparr>ks_array = kh_next h, ks_len = n + 1\<rparr>))"

definition sortKeys :: "key_heap \<Rightarrow> key_slice \<Rightarrow> key_heap" where
  "sortKeys h s =
    (let a = kh_arrays h (ks_array s)
     in writeArray (ks_array s) (sort (take (ks_len s) a) @ drop (ks_len s) a) h)"

definition keysAddIn :: "(nat \<Rightarrow> nat) \<Rightarrow> key_heap \<Rightarrow> key_slice \<Rightarrow> bytes \<Rightarrow> key_heap \<times> key_slice" where
  "keysAddIn spare h s key =
    (if list_ex (\<lambda>k. k = key) (readKeys h s) then (h, s)
     else case appendKey spare h s key of (h', s') \<Rightarrow> (sortKeys h' s', s'))"

fun indexOfKey :: "bytes list \<Rightarrow> bytes \<Rightarrow> nat option" where
  "indexOfKey [] key = None"
| "indexOfKey (k # ks) key = (if k = key then Some 0 else map_option Suc (indexOfKey ks key))"

text \<open>@\<open>append(keys[:idx], keys[idx+1:]...)\<close> copies the keys behind the removed one a place to the front; the
  last place of the old slice keeps its key.\<close>

definition keysRemoveIn :: "key_heap \<Rightarrow> key_slice \<Rightarrow> bytes \<Rightarrow> key_heap \<times> key_slice" where
  "keysRemoveIn h s key =
    (case indexOfKey (readKeys h s) key of
       None \<Rightarrow> (h, s)
     | Some idx \<Rightarrow>
         let a = kh_arrays h (ks_array s); n = ks_len s;
             moved = take idx a @ take (n - idx - 1) (drop (idx + 1) a) @ drop (n - 1) a;
             s' = s\<lparr>ks_len := n - 1\<rparr>
         in (sortKeys (writeArray (ks_array s) moved h) s', s'))"

text \<open>@\<open>BlockIssuerFeature.Clone\<close> copies the slice, not its array.\<close>

definition cloneBlockIssuerKeys :: "key_slice \<Rightarrow> key_slice" where
  "cloneBlockIssuerKeys s = s"

section \<open>The slice that is changed\<close>

lemma indexOfKey_dropFirst:
  "dropFirst ks key = map_option (\<lambda>i. take i ks @ drop (i + 1) ks) (indexOfKey ks key)"
  by (induction ks) (auto split: option.splits)

lemma indexOfKey_less: "indexOfKey ks key = Some i \<Longrightarrow> i < length ks"
  by (induction ks arbitrary: i) (auto split: if_splits)

lemma indexOfKey_member: "key \<in> set ks \<Longrightarrow> \<exists>i. indexOfKey ks key = Some i"
  by (induction ks) auto

lemma writeArray_sel [simp]:
  "kh_arrays (writeArray a xs h) b = (if b = a then xs else kh_arrays h b)"
  "kh_next (writeArray a xs h) = kh_next h"
  by (simp_all add: writeArray_def)

text \<open>Sorting the first @\<open>m\<close> places of the array of a slice, seen through a slice of @\<open>n\<close> places.\<close>

lemma read_sorted:
  assumes "m \<le> length xs" "m \<le> n" "kh_arrays h a = xs"
  shows "readKeys (sortKeys h \<lparr>ks_array = a, ks_len = m\<rparr>) \<lparr>ks_array = a, ks_len = n\<rparr>
    = sort (take m xs) @ take (n - m) (drop m xs)"
  using assms by (simp add: readKeys_def sortKeys_def Let_def min_def)

lemma slice_eta: "s = \<lparr>ks_array = ks_array s, ks_len = ks_len s\<rparr>"
  by simp

text \<open>What @\<open>Remove\<close> leaves in the array.\<close>

lemma removed_array:
  assumes "n \<le> length xs" "idx < n"
  shows "take (n - 1) (take idx xs @ take (n - idx - 1) (drop (idx + 1) xs) @ drop (n - 1) xs)
      = take idx (take n xs) @ drop (idx + 1) (take n xs)"
    and "take 1 (drop (n - 1) (take idx xs @ take (n - idx - 1) (drop (idx + 1) xs) @ drop (n - 1) xs))
      = [last (take n xs)]"
proof -
  have len: "length (take idx xs @ take (n - idx - 1) (drop (idx + 1) xs)) = n - 1"
    using assms by simp
  have "take (n - 1) (take idx xs @ take (n - idx - 1) (drop (idx + 1) xs) @ drop (n - 1) xs)
      = take idx xs @ take (n - idx - 1) (drop (idx + 1) xs)"
    using len by (metis append.assoc append_eq_conv_conj)
  also have "\<dots> = take idx (take n xs) @ drop (idx + 1) (take n xs)"
    using assms by (simp add: drop_take min_def)
  finally show "take (n - 1) (take idx xs @ take (n - idx - 1) (drop (idx + 1) xs) @ drop (n - 1) xs)
      = take idx (take n xs) @ drop (idx + 1) (take n xs)" .
  have "drop (n - 1) (take idx xs @ take (n - idx - 1) (drop (idx + 1) xs) @ drop (n - 1) xs) = drop (n - 1) xs"
    using len by (metis append.assoc append_eq_conv_conj)
  moreover have "take 1 (drop (n - 1) xs) = [xs ! (n - 1)]"
    using assms by (simp add: take_Suc_conv_app_nth [of 0, simplified] hd_drop_conv_nth take_Suc)
  moreover have "take n xs \<noteq> []" using assms by auto
  then have "last (take n xs) = xs ! (n - 1)"
    using assms by (simp add: last_conv_nth min_def)
  ultimately show "take 1 (drop (n - 1) (take idx xs @ take (n - idx - 1) (drop (idx + 1) xs) @ drop (n - 1) xs))
      = [last (take n xs)]" by simp
qed

lemma remove_reads:
  assumes "slice_ok h s" "key \<in> set (readKeys h s)" "keysRemoveIn h s key = (h', s')"
  shows "readKeys h' s' = keysRemove (readKeys h s) key"
    and "readKeys h' s = keysRemove (readKeys h s) key @ [last (readKeys h s)]"
proof -
  obtain idx where idx: "indexOfKey (readKeys h s) key = Some idx"
    using indexOfKey_member [OF assms(2)] by blast
  define xs where "xs = kh_arrays h (ks_array s)"
  define n where "n = ks_len s"
  define ys where "ys = take idx xs @ take (n - idx - 1) (drop (idx + 1) xs) @ drop (n - 1) xs"
  have n: "n \<le> length xs" using assms(1) by (simp add: slice_ok_def xs_def n_def)
  have read: "readKeys h s = take n xs" by (simp add: readKeys_def xs_def n_def)
  have less: "idx < n" using indexOfKey_less [OF idx] n by (simp add: read)
  have removed: "keysRemove (readKeys h s) key = sort (take (n - 1) ys)"
    using idx removed_array(1) [OF n less] by (simp add: keysRemove_def indexOfKey_dropFirst read ys_def)
  have len: "n - 1 \<le> length ys" using n less by (simp add: ys_def)
  let ?g = "writeArray (ks_array s) ys h"
  have s': "s' = \<lparr>ks_array = ks_array s, ks_len = n - 1\<rparr>" and h': "h' = sortKeys ?g s'"
    using assms(3) by (auto simp: keysRemoveIn_def idx Let_def xs_def n_def ys_def)
  show "readKeys h' s' = keysRemove (readKeys h s) key"
    using read_sorted [OF len, of "n - 1" ?g "ks_array s"] by (simp add: removed h' s')
  have "s = \<lparr>ks_array = ks_array s, ks_len = n\<rparr>" by (simp add: n_def)
  then have "readKeys h' s = sort (take (n - 1) ys) @ take (n - (n - 1)) (drop (n - 1) ys)"
    using read_sorted [OF len, of n ?g "ks_array s"] by (metis diff_le_self h' s' writeArray_sel(1))
  moreover have "n - (n - 1) = 1" using less by simp
  ultimately show "readKeys h' s = keysRemove (readKeys h s) key @ [last (readKeys h s)]"
    using removed_array(2) [OF n less, folded ys_def] by (simp only: removed) (simp only: read)
qed

lemma add_reads:
  assumes "slice_ok h s" "key \<notin> set (readKeys h s)" "keysAddIn spare h s key = (h', s')"
  shows "readKeys h' s' = keysAdd (readKeys h s) key"
    and "readKeys h' s = (if ks_len s < length (kh_arrays h (ks_array s))
           then take (ks_len s) (keysAdd (readKeys h s) key) else readKeys h s)"
proof -
  define xs where "xs = kh_arrays h (ks_array s)"
  define n where "n = ks_len s"
  have n: "n \<le> length xs" and a: "ks_array s < kh_next h" using assms(1) by (simp_all add: slice_ok_def xs_def n_def)
  have read: "readKeys h s = take n xs" by (simp add: readKeys_def xs_def n_def)
  have added: "keysAdd (readKeys h s) key = sort (take n xs @ [key])"
    using assms(2) by (simp add: keysAdd_def list_ex_iff read)
  have s: "s = \<lparr>ks_array = ks_array s, ks_len = n\<rparr>" by (simp add: n_def)
  have step: "appendKey spare h s key = (g, s') \<Longrightarrow> h' = sortKeys g s'" for g
    using assms(2,3) by (auto simp: keysAddIn_def list_ex_iff split: prod.splits)
  have "readKeys h' s' = keysAdd (readKeys h s) key \<and> readKeys h' s = (if n < length xs
           then take n (keysAdd (readKeys h s) key) else readKeys h s)"
  proof (cases "n < length xs")
    case True
    let ?g = "writeArray (ks_array s) (xs[n := key]) h" and ?s = "\<lparr>ks_array = ks_array s, ks_len = n + 1\<rparr>"
    have app: "appendKey spare h s key = (?g, ?s)"
      using True s by (simp add: appendKey_def Let_def xs_def n_def)
    then have s': "s' = ?s" and h': "h' = sortKeys ?g ?s"
      using assms(2,3) by (auto simp: keysAddIn_def list_ex_iff)
    have t: "take (n + 1) (xs[n := key]) = take n xs @ [key]"
      using True by (simp add: take_Suc_conv_app_nth)
    have "readKeys h' s' = sort (take n xs @ [key])"
      using read_sorted [of "n + 1" "xs[n := key]" "n + 1" ?g "ks_array s"] True t by (simp add: s' h')
    moreover have "readKeys h' s = take n (readKeys h' s')"
      by (simp add: readKeys_def s' n_def)
    ultimately show ?thesis using True by (simp add: added)
  next
    case False
    let ?g = "writeArray (kh_next h) (take n xs @ key # replicate (spare n) []) h\<lparr>kh_next := kh_next h + 1\<rparr>"
    let ?s = "\<lparr>ks_array = kh_next h, ks_len = n + 1\<rparr>"
    have app: "appendKey spare h s key = (?g, ?s)"
      using False by (simp add: appendKey_def Let_def xs_def n_def)
    then have s': "s' = ?s" and h': "h' = sortKeys ?g ?s"
      using assms(2,3) by (auto simp: keysAddIn_def list_ex_iff)
    have "take (n + 1) (take n xs @ key # replicate (spare n) []) = take n xs @ [key]"
      using n by simp
    then have "readKeys h' s' = sort (take n xs @ [key])"
      using read_sorted [of "n + 1" "take n xs @ key # replicate (spare n) []" "n + 1" ?g "kh_next h"] n
      by (simp add: s' h')
    moreover have "readKeys h' s = readKeys h s"
      using a by (simp add: readKeys_def h' sortKeys_def Let_def)
    ultimately show ?thesis using False by (simp add: added)
  qed
  then show "readKeys h' s' = keysAdd (readKeys h s) key"
    "readKeys h' s = (if ks_len s < length (kh_arrays h (ks_array s))
           then take (ks_len s) (keysAdd (readKeys h s) key) else readKeys h s)"
    by (simp_all add: n_def xs_def)
qed

text \<open>Slices of other arrays keep their keys.\<close>

lemma others_unchanged:
  assumes "slice_ok h t" "ks_array t \<noteq> ks_array s"
  shows "keysRemoveIn h s key = (h', s') \<Longrightarrow> readKeys h' t = readKeys h t"
    and "keysAddIn spare h s key = (h', s') \<Longrightarrow> readKeys h' t = readKeys h t"
  using assms
  by (auto simp: keysRemoveIn_def keysAddIn_def appendKey_def sortKeys_def readKeys_def slice_ok_def Let_def
      split: option.splits if_splits)

text \<open>C31: @\<open>Remove\<close> and @\<open>Add\<close> on the keys of a cloned block issuer feature compute on the clone what they
  compute on values, but the original shares the array: after a @\<open>Remove\<close> it has lost the key as well and
  carries its last key once more, and after an @\<open>Add\<close> into spare capacity it has the first of the new keys.
  Slices of other arrays are not affected.\<close>

theorem shared_block_issuer_keys:
  assumes "slice_ok h s"
  shows "(\<forall>h' c. key \<in> set (readKeys h s) \<longrightarrow> keysRemoveIn h (cloneBlockIssuerKeys s) key = (h', c)
      \<longrightarrow> readKeys h' c = keysRemove (readKeys h s) key
        \<and> readKeys h' s = keysRemove (readKeys h s) key @ [last (readKeys h s)])
    \<and> (\<forall>h' c. key \<notin> set (readKeys h s) \<longrightarrow> keysAddIn spare h (cloneBlockIssuerKeys s) key = (h', c)
      \<longrightarrow> readKeys h' c = keysAdd (readKeys h s) key
        \<and> readKeys h' s = (if ks_len s < length (kh_arrays h (ks_array s))
            then take (ks_len s) (keysAdd (readKeys h s) key) else readKeys h s))
    \<and> (\<forall>h' c t. slice_ok h t \<longrightarrow> ks_array t \<noteq> ks_array s
      \<longrightarrow> keysRemoveIn h (cloneBlockIssuerKeys s) key = (h', c) \<or> keysAddIn spare h (cloneBlockIssuerKeys s) key = (h', c)
      \<longrightarrow> readKeys h' t = readKeys h t)"
  unfolding cloneBlockIssuerKeys_def
proof (intro conjI allI impI)
  fix h' c assume "key \<in> set (readKeys h s)" "keysRemoveIn h s key = (h', c)"
  from remove_reads [OF assms this] show "readKeys h' c = keysRemove (readKeys h s) key"
    "readKeys h' s = keysRemove (readKeys h s) key @ [last (readKeys h s)]" .
next
  fix h' c assume "key \<notin> set (readKeys h s)" "keysAddIn spare h s key = (h', c)"
  from add_reads [OF assms this] show "readKeys h' c = keysAdd (readKeys h s) key"
    "readKeys h' s = (if ks_len s < length (kh_arrays h (ks_array s))
       then take (ks_len s) (keysAdd (readKeys h s) key) else readKeys h s)" .
next
  fix h' c t
  assume "slice_ok h t" "ks_array t \<noteq> ks_array s"
    and "keysRemoveIn h s key = (h', c) \<or> keysAddIn spare h s key = (h', c)"
  then show "readKeys h' t = readKeys h t" using others_unchanged(1) [of h t s key h' c] others_unchanged(2) [of h t s spare key h' c] by blast
qed

theorem shared_block_issuer_keys_witness:
  "\<exists>h s h' c. slice_ok h s \<and> readKeys h s = [[1], [2], [3]]
     \<and> keysRemoveIn h (cloneBlockIssuerKeys s) [1] = (h', c)
     \<and> readKeys h' c = [[2], [3]] \<and> readKeys h' s = [[2], [3], [3]]"
proof -
  let ?h = "\<lparr>kh_arrays = (\<lambda>_. [[1], [2], [3]]), kh_next = 2\<rparr>" and ?s = "\<lparr>ks_array = 0, ks_len = 3\<rparr>"
  have sl: "slice_ok ?h ?s" and rd: "readKeys ?h ?s = [[1], [2], [3]]"
    by (simp_all add: slice_ok_def readKeys_def)
  obtain h' c where r: "keysRemoveIn ?h (cloneBlockIssuerKeys ?s) [1] = (h', c)" by (cases "keysRemoveIn ?h (cloneBlockIssuerKeys ?s) [1]")
  have "keysRemove [[1], [2], [3]] [1] = [[2], [3]]" by (simp add: keysRemove_def)
  with conjunct1 [OF shared_block_issuer_keys [OF sl, of "[1]"]] r
  have "readKeys h' c = [[2], [3]] \<and> readKeys h' ?s = [[2], [3], [3]]" by (simp add: rd)
  with sl rd r show ?thesis by blast
qed


end
