(* ===== verification/Unlock_Syntax.thy ===== *)
theory Unlock_Syntax
  imports Syntax_Validators Ledger_Tx
begin

text \<open>
  The syntactical validation of the unlocks of a transaction, unlock.go.  The closure's maps are a
  record; the referential unlock stored for an index is never nil, so only its presence is kept.  The
  serialization of a multi unlock is the parameter @\<open>encUnlock\<close>.
\<close>

record unlocks_seen =
  seenSignatureUnlocks :: "u16 set"
  seenReferentialUnlocks :: "u16 set"
  seenSignerUIDs :: "bytes \<Rightarrow> nat option"
  seenSignerUIDsInMultiUnlocks :: "bytes \<Rightarrow> nat option"
  seenMultiUnlocks :: "u16 set"
  seenMultiUnlockBytes :: "bytes \<Rightarrow> nat option"

definition nothingSeen :: unlocks_seen where
  "nothingSeen = \<lparr>seenSignatureUnlocks = {}, seenReferentialUnlocks = {}, seenSignerUIDs = Map.empty,
     seenSignerUIDsInMultiUnlocks = Map.empty, seenMultiUnlocks = {}, seenMultiUnlockBytes = Map.empty\<rparr>"

definition signatureUnlockStep ::
    "'a deps_scheme \<Rightarrow> unlocks_seen \<Rightarrow> nat \<Rightarrow> ed25519_signature option \<Rightarrow> unlocks_seen go" where
  "signatureUnlockStep D s index signature =
    (case signature of
       None \<Rightarrow> throw (Wrap (Sentinel ''ErrSignatureUnlockHasNilSignature'') ''signature at unlock index %d is nil'')
     | Some sig \<Rightarrow>
         let signerUID = SignerUID D sig
         in if seenSignerUIDs s signerUID \<noteq> None
            then throw (Wrap (Sentinel ''ErrSignatureUnlockNotUnique'')
                   ''signature unlock block at index %d is the same as %d'')
            else if seenSignerUIDsInMultiUnlocks s signerUID \<noteq> None
            then throw (Wrap (Sentinel ''ErrSignatureUnlockNotUnique'')
                   ''signature unlock block at index %d is the same as in multi unlock at index %d'')
            else Inr (s\<lparr>seenSignatureUnlocks := insert (word_of_nat index) (seenSignatureUnlocks s),
                        seenSignerUIDs := (seenSignerUIDs s)(signerUID \<mapsto> index)\<rparr>))"

definition referentialUnlockStep ::
    "unlocks_seen \<Rightarrow> nat \<Rightarrow> u16 \<Rightarrow> bool \<Rightarrow> unlocks_seen go" where
  "referentialUnlockStep s index referenced chainable =
    (let s' = s\<lparr>seenReferentialUnlocks := insert (word_of_nat index) (seenReferentialUnlocks s)\<rparr>
     in if referenced \<in> seenReferentialUnlocks s
        then (if \<not> chainable
              then throw (Wrap (Sentinel ''ErrReferentialUnlockInvalid'')
                     ''unlock at index %d references existing referential unlock %d but it does not support chaining'')
              else Inr s')
        else if referenced \<notin> seenSignatureUnlocks s \<and> referenced \<notin> seenMultiUnlocks s
        then throw (Wrap (Sentinel ''ErrReferentialUnlockInvalid'') ''unlock at index %d references non existent unlock %d'')
        else Inr s')"

text \<open>One element of a multi unlock.\<close>

definition subUnlockStep ::
    "'a deps_scheme \<Rightarrow> nat \<Rightarrow> unlocks_seen \<Rightarrow> unlock \<Rightarrow> unlocks_seen go" where
  "subUnlockStep D index s subU =
    (case subU of
       SignatureUnlock None \<Rightarrow>
         throw (Wrap (Sentinel ''ErrSignatureUnlockHasNilSignature'') ''unlock at index %d.%d is nil'')
     | SignatureUnlock (Some sig) \<Rightarrow>
         let signerUID = SignerUID D sig
         in if seenSignerUIDs s signerUID \<noteq> None
            then throw (Wrap (Sentinel ''ErrSignatureUnlockNotUnique'')
                   ''signature unlock block at index %d.%d is the same as %d'')
            else Inr (s\<lparr>seenSignerUIDsInMultiUnlocks := (seenSignerUIDsInMultiUnlocks s)(signerUID \<mapsto> index)\<rparr>)
     | MultiUnlock _ \<Rightarrow> throw (Wrap (Sentinel ''ErrNestedMultiUnlock'') ''unlock at index %d.%d is invalid'')
     | EmptyUnlock \<Rightarrow> Inr s
     | _ \<Rightarrow>
         (case ReferencedInputIndex subU of
            None \<Rightarrow> Inr s
          | Some referenced \<Rightarrow>
              if referenced \<in> seenReferentialUnlocks s
              then (if \<not> Chainable subU
                    then throw (Wrap (Sentinel ''ErrReferentialUnlockInvalid'')
                           ''%d.%d references existing referential unlock %d but it does not support chaining'')
                    else Inr s)
              else if referenced \<notin> seenSignatureUnlocks s
              then throw (Wrap (Sentinel ''ErrReferentialUnlockInvalid'') ''%d.%d references non existent unlock %d'')
              else Inr s))"

definition multiUnlockStepS ::
    "'a tx_deps_scheme \<Rightarrow> unlocks_seen \<Rightarrow> nat \<Rightarrow> unlock \<Rightarrow> unlock list \<Rightarrow> unlocks_seen go" where
  "multiUnlockStepS D s index u unlocks =
    andthen (wrapE ''unable to serialize multi unlock block at index %d for dup check'' (encUnlock D u))
      (\<lambda>multiUnlockBytes.
    if seenMultiUnlockBytes s multiUnlockBytes \<noteq> None
    then throw (Wrap (Sentinel ''ErrMultiUnlockNotUnique'') ''multi unlock block at index %d is the same as %d'')
    else andthen (foldG (subUnlockStep D index) s unlocks) (\<lambda>s.
      Inr (s\<lparr>seenMultiUnlocks := insert (word_of_nat index) (seenMultiUnlocks s),
             seenMultiUnlockBytes := (seenMultiUnlockBytes s)(multiUnlockBytes \<mapsto> index)\<rparr>)))"

definition SignaturesUniqueAndReferenceUnlocksValidator ::
    "'a tx_deps_scheme \<Rightarrow> (unlocks_seen, unlock) validator" where
  "SignaturesUniqueAndReferenceUnlocksValidator D s index u =
    (case u of
       SignatureUnlock signature \<Rightarrow> signatureUnlockStep D s index signature
     | MultiUnlock unlocks \<Rightarrow> multiUnlockStepS D s index u unlocks
     | EmptyUnlock \<Rightarrow> throw (Wrap (Sentinel ''ErrEmptyUnlockOutsideMultiUnlock'') ''unlock at index %d is invalid'')
     | ReferenceUnlock r \<Rightarrow> referentialUnlockStep s index r (Chainable u)
     | AccountUnlock r \<Rightarrow> referentialUnlockStep s index r (Chainable u)
     | AnchorUnlock r \<Rightarrow> referentialUnlockStep s index r (Chainable u)
     | NFTUnlock r \<Rightarrow> referentialUnlockStep s index r (Chainable u))"

text \<open>@\<open>ValidateUnlocks\<close> with its only validator.\<close>

definition ValidateUnlocksSyntax :: "'a tx_deps_scheme \<Rightarrow> unlock list \<Rightarrow> unit go" where
  "ValidateUnlocksSyntax D unlocks =
     SliceValidator (SignaturesUniqueAndReferenceUnlocksValidator D) nothingSeen unlocks"

section \<open>What the maps hold\<close>

text \<open>The kinds of unlocks, and the signers in them.\<close>

definition isMulti :: "unlock \<Rightarrow> bool" where
  "isMulti u = (case u of MultiUnlock _ \<Rightarrow> True | _ \<Rightarrow> False)"

definition isSig :: "unlock \<Rightarrow> bool" where
  "isSig u = (case u of SignatureUnlock _ \<Rightarrow> True | _ \<Rightarrow> False)"

definition isRef :: "unlock \<Rightarrow> bool" where
  "isRef u = (ReferencedInputIndex u \<noteq> None)"

fun signersOf :: "'a deps_scheme \<Rightarrow> unlock \<Rightarrow> bytes list" where
  "signersOf D (SignatureUnlock (Some sig)) = [SignerUID D sig]"
| "signersOf D _ = []"

fun membersOf :: "unlock \<Rightarrow> unlock list" where
  "membersOf (MultiUnlock us) = us"
| "membersOf _ = []"

text \<open>An unlock may reference an earlier signature or multi unlock, or an earlier reference if it is
  chainable; a member of a multi unlock may not reference a multi unlock.\<close>

definition refersBack :: "unlock list \<Rightarrow> unlock \<Rightarrow> bool \<Rightarrow> bool" where
  "refersBack ys u multi \<longleftrightarrow>
    (case ReferencedInputIndex u of None \<Rightarrow> True
     | Some r \<Rightarrow> unat r < length ys
        \<and> (isSig (ys ! unat r) \<or> multi \<and> isMulti (ys ! unat r) \<or> isRef (ys ! unat r) \<and> Chainable u))"

definition memberFit :: "unlock list \<Rightarrow> unlock \<Rightarrow> bool" where
  "memberFit ys v \<longleftrightarrow> (\<forall>us. v \<noteq> MultiUnlock us) \<and> v \<noteq> SignatureUnlock None \<and> refersBack ys v False"

definition unlockFit :: "unlock list \<Rightarrow> unlock \<Rightarrow> bool" where
  "unlockFit ys u \<longleftrightarrow> u \<noteq> EmptyUnlock \<and> u \<noteq> SignatureUnlock None \<and> refersBack ys u True
     \<and> (\<forall>v \<in> set (membersOf u). memberFit ys v)"

definition multiBytes :: "'a tx_deps_scheme \<Rightarrow> unlock \<Rightarrow> bytes option" where
  "multiBytes D u = (case u of MultiUnlock _ \<Rightarrow> (case encUnlock D u of Inr b \<Rightarrow> Some b | Inl _ \<Rightarrow> None) | _ \<Rightarrow> None)"

definition outerSigners :: "'a deps_scheme \<Rightarrow> unlock list \<Rightarrow> bytes list" where
  "outerSigners D ys = concat (map (signersOf D) ys)"

definition innerSigners :: "'a deps_scheme \<Rightarrow> unlock list \<Rightarrow> bytes list" where
  "innerSigners D ys = concat (map (signersOf D) (concat (map membersOf ys)))"

text \<open>The state after a prefix of the unlocks.\<close>

definition seenInv :: "'a tx_deps_scheme \<Rightarrow> unlock list \<Rightarrow> unlocks_seen \<Rightarrow> bool" where
  "seenInv D ys s \<longleftrightarrow>
     seenSignatureUnlocks s = word_of_nat ` {i. i < length ys \<and> isSig (ys ! i)}
   \<and> seenReferentialUnlocks s = word_of_nat ` {i. i < length ys \<and> isRef (ys ! i)}
   \<and> seenMultiUnlocks s = word_of_nat ` {i. i < length ys \<and> isMulti (ys ! i)}
   \<and> dom (seenSignerUIDs s) = set (outerSigners D ys)
   \<and> dom (seenSignerUIDsInMultiUnlocks s) = set (innerSigners D ys)
   \<and> dom (seenMultiUnlockBytes s) = set (List.map_filter (multiBytes D) ys)
   \<and> distinct (outerSigners D ys)
   \<and> set (outerSigners D ys) \<inter> set (innerSigners D ys) = {}
   \<and> distinct (List.map_filter (multiBytes D) ys)
   \<and> (\<forall>i < length ys. unlockFit (take i ys) (ys ! i))"

lemma SliceValidator_prefix_invariant:
  assumes run: "SliceValidator f s xs = Inr ()" and init: "P [] s"
    and step: "\<And>ys x s s'. P ys s \<Longrightarrow> length ys < length xs \<Longrightarrow> f s (length ys) x = Inr s' \<Longrightarrow> P (ys @ [x]) s'"
  shows "\<exists>s'. P xs s'"
proof -
  have "foldG (\<lambda>s (i, x). f s i x) s (List.enumerate (length ys) zs) = Inr s' \<Longrightarrow> P ys s
      \<Longrightarrow> length ys + length zs = length xs \<Longrightarrow> P (ys @ zs) s'" for ys zs s s'
  proof (induction zs arbitrary: ys s)
    case (Cons z zs)
    then obtain t where t: "f s (length ys) z = Inr t"
        "foldG (\<lambda>s (i, x). f s i x) t (List.enumerate (length (ys @ [z])) zs) = Inr s'"
      by (auto simp: andthen_eq_Inr)
    have "P (ys @ [z]) t" using step [OF Cons.prems(2) _ t(1)] Cons.prems(3) by simp
    from Cons.IH [OF t(2) this] Cons.prems(3) show ?case by simp
  qed simp
  from this [of s "[]" xs] run init show ?thesis by (auto simp: SliceValidator_def andthen_eq_Inr)
qed

lemma indices_mem:
  assumes "n \<le> 65536"
  shows "(r :: u16) \<in> word_of_nat ` {i. i < n \<and> Q i} \<longleftrightarrow> unat r < n \<and> Q (unat r)"
proof
  assume "r \<in> word_of_nat ` {i. i < n \<and> Q i}"
  then obtain i where i: "r = word_of_nat i" "i < n" "Q i" by blast
  then have "unat r = i" using assms by (simp add: unat_of_nat)
  with i show "unat r < n \<and> Q (unat r)" by simp
next
  assume "unat r < n \<and> Q (unat r)"
  then show "r \<in> word_of_nat ` {i. i < n \<and> Q i}" by (intro image_eqI [of _ _ "unat r"]) simp_all
qed

lemma indices_snoc:
  "word_of_nat ` {i. i < length (ys @ [u]) \<and> Q ((ys @ [u]) ! i)}
    = (if Q u then insert (word_of_nat (length ys)) else id) (word_of_nat ` {i. i < length ys \<and> Q (ys ! i)})"
proof -
  have "{i. i < length (ys @ [u]) \<and> Q ((ys @ [u]) ! i)}
      = (if Q u then insert (length ys) else id) {i. i < length ys \<and> Q (ys ! i)}"
    by (auto simp: nth_append less_Suc_eq)
  then show ?thesis by simp
qed

lemma seen_mem:
  assumes "seenInv D ys s" "length ys \<le> 65536"
  shows "r \<in> seenSignatureUnlocks s \<longleftrightarrow> unat r < length ys \<and> isSig (ys ! unat r)"
    "r \<in> seenReferentialUnlocks s \<longleftrightarrow> unat r < length ys \<and> isRef (ys ! unat r)"
    "r \<in> seenMultiUnlocks s \<longleftrightarrow> unat r < length ys \<and> isMulti (ys ! unat r)"
  using assms indices_mem [OF assms(2)] by (simp_all add: seenInv_def)

text \<open>A prefix that grows by an unlock without signers and serialization.\<close>

lemma snoc_simps [simp]:
  "outerSigners D (ys @ [u]) = outerSigners D ys @ signersOf D u"
  "innerSigners D (ys @ [u]) = innerSigners D ys @ concat (map (signersOf D) (membersOf u))"
  "List.map_filter g (zs @ [z]) = List.map_filter g zs @ (case g z of None \<Rightarrow> [] | Some b \<Rightarrow> [b])"
  by (simp_all add: outerSigners_def innerSigners_def map_filter_def split: option.split)

lemma fit_snoc:
  "(\<forall>i < length (ys @ [u]). unlockFit (take i (ys @ [u])) ((ys @ [u]) ! i))
    \<longleftrightarrow> (\<forall>i < length ys. unlockFit (take i ys) (ys ! i)) \<and> unlockFit ys u"
  by (auto simp: nth_append less_Suc_eq)

lemma signature_step:
  assumes "seenInv D ys s" "signatureUnlockStep D s (length ys) sig = Inr s'"
  shows "seenInv D (ys @ [SignatureUnlock sig]) s'"
proof (cases sig)
  case None
  then show ?thesis using assms(2) by (simp add: signatureUnlockStep_def)
next
  case (Some sg)
  let ?u = "SignatureUnlock (Some sg)" and ?k = "SignerUID D sg"
  have "?k \<notin> dom (seenSignerUIDs s)" "?k \<notin> dom (seenSignerUIDsInMultiUnlocks s)"
    and s': "s' = s\<lparr>seenSignatureUnlocks := insert (word_of_nat (length ys)) (seenSignatureUnlocks s),
                    seenSignerUIDs := (seenSignerUIDs s)(?k \<mapsto> length ys)\<rparr>"
    using assms(2) Some by (simp_all add: signatureUnlockStep_def Let_def domIff if_throw_eq_Inr)
  then have new: "?k \<notin> set (outerSigners D ys)" "?k \<notin> set (innerSigners D ys)"
    using assms(1) by (simp_all add: seenInv_def)
  have kind: "isSig ?u" "\<not> isRef ?u" "\<not> isMulti ?u" "multiBytes D ?u = None"
    by (simp_all add: isSig_def isRef_def isMulti_def ReferencedInputIndex_def multiBytes_def)
  have fit: "unlockFit ys ?u" by (simp add: unlockFit_def refersBack_def ReferencedInputIndex_def)
  show ?thesis
    using assms(1) new fit unfolding Some seenInv_def indices_snoc fit_snoc
    by (auto simp: s' kind)
qed

lemma referential_step:
  assumes "seenInv D ys s" "length ys \<le> 65536" "ReferencedInputIndex u = Some r"
    and "referentialUnlockStep s (length ys) r (Chainable u) = Inr s'"
  shows "seenInv D (ys @ [u]) s'"
proof -
  note mem = seen_mem [OF assms(1,2)]
  have s': "s' = s\<lparr>seenReferentialUnlocks := insert (word_of_nat (length ys)) (seenReferentialUnlocks s)\<rparr>"
    and refs: "unat r < length ys \<and> (isSig (ys ! unat r) \<or> isMulti (ys ! unat r) \<or> isRef (ys ! unat r) \<and> Chainable u)"
    using assms(4) by (auto simp: referentialUnlockStep_def Let_def mem throw_def split: if_splits)
  have kind: "\<not> isSig u" "isRef u" "\<not> isMulti u" "multiBytes D u = None" "signersOf D u = []" "membersOf u = []"
      "u \<noteq> EmptyUnlock" "u \<noteq> SignatureUnlock None"
    using assms(3) by (auto simp: isSig_def isRef_def isMulti_def ReferencedInputIndex_def multiBytes_def split: unlock.splits)
  have fit: "unlockFit ys u"
    using refs kind assms(3) by (auto simp: unlockFit_def refersBack_def)
  show ?thesis
    using assms(1) fit unfolding seenInv_def indices_snoc fit_snoc by (simp add: s' kind)
qed

lemma sub_step:
  assumes "seenInv D ys s" "length ys \<le> 65536" and "subUnlockStep D index t v = Inr t'"
    and t: "t = s\<lparr>seenSignerUIDsInMultiUnlocks := m\<rparr>"
  shows "\<exists>m'. t' = s\<lparr>seenSignerUIDsInMultiUnlocks := m'\<rparr> \<and> dom m' = dom m \<union> set (signersOf D v)
    \<and> set (signersOf D v) \<inter> dom (seenSignerUIDs s) = {} \<and> memberFit ys v"
proof -
  note mem = seen_mem [OF assms(1,2)]
  have ref: ?thesis if v: "ReferencedInputIndex v = Some r" for r
  proof -
    have "t' = t" and "unat r < length ys \<and> (isSig (ys ! unat r) \<or> isRef (ys ! unat r) \<and> Chainable v)"
      and "signersOf D v = []" "\<forall>us. v \<noteq> MultiUnlock us" "v \<noteq> SignatureUnlock None"
      using assms(3) v
      by (cases v; auto simp: subUnlockStep_def ReferencedInputIndex_def t mem throw_def split: if_splits)+
    with v show ?thesis by (auto simp: t memberFit_def refersBack_def)
  qed
  show ?thesis
  proof (cases v)
    case (SignatureUnlock sig)
    then show ?thesis using assms(3)
      by (cases sig) (auto simp: subUnlockStep_def t Let_def memberFit_def refersBack_def ReferencedInputIndex_def
          throw_def split: if_splits)
  next
    case (MultiUnlock us)
    then show ?thesis using assms(3) by (simp add: subUnlockStep_def)
  next
    case EmptyUnlock
    then show ?thesis using assms(3)
      by (auto simp: subUnlockStep_def t memberFit_def refersBack_def ReferencedInputIndex_def)
  qed (use ref in \<open>simp_all add: ReferencedInputIndex_def\<close>)
qed

lemma multi_step:
  assumes inv: "seenInv D ys s" "length ys \<le> 65536"
    and run: "multiUnlockStepS D s (length ys) (MultiUnlock us) us = Inr s'"
  shows "seenInv D (ys @ [MultiUnlock us]) s'"
proof -
  let ?u = "MultiUnlock us"
  obtain b t where b: "encUnlock D ?u = Inr b" "seenMultiUnlockBytes s b = None"
    and t: "foldG (subUnlockStep D (length ys)) s us = Inr t"
    and s': "s' = t\<lparr>seenMultiUnlocks := insert (word_of_nat (length ys)) (seenMultiUnlocks t),
             seenMultiUnlockBytes := (seenMultiUnlockBytes t)(b \<mapsto> length ys)\<rparr>"
    using run by (auto simp: multiUnlockStepS_def andthen_eq_Inr if_throw_eq_Inr)
  let ?P = "\<lambda>vs t. \<exists>m. t = s\<lparr>seenSignerUIDsInMultiUnlocks := m\<rparr>
    \<and> dom m = dom (seenSignerUIDsInMultiUnlocks s) \<union> set (concat (map (signersOf D) vs))
    \<and> set (concat (map (signersOf D) vs)) \<inter> dom (seenSignerUIDs s) = {} \<and> (\<forall>v \<in> set vs. memberFit ys v)"
  have "?P us t"
  proof (rule foldG_prefix_invariant [where P = ?P, OF t])
    show "?P [] s" by (intro exI [of _ "seenSignerUIDsInMultiUnlocks s"]) simp
    fix vs v t t' assume P: "?P vs t" and st: "subUnlockStep D (length ys) t v = Inr t'"
    then obtain m where m: "t = s\<lparr>seenSignerUIDsInMultiUnlocks := m\<rparr>"
        "dom m = dom (seenSignerUIDsInMultiUnlocks s) \<union> set (concat (map (signersOf D) vs))"
        "set (concat (map (signersOf D) vs)) \<inter> dom (seenSignerUIDs s) = {}" "\<forall>v \<in> set vs. memberFit ys v"
      by blast
    from sub_step [OF inv st m(1)] obtain m' where "t' = s\<lparr>seenSignerUIDsInMultiUnlocks := m'\<rparr>"
        "dom m' = dom m \<union> set (signersOf D v)" "set (signersOf D v) \<inter> dom (seenSignerUIDs s) = {}" "memberFit ys v"
      by blast
    with m show "?P (vs @ [v]) t'" by (intro exI [of _ m']) auto
  qed
  then obtain m where m: "t = s\<lparr>seenSignerUIDsInMultiUnlocks := m\<rparr>"
      "dom m = dom (seenSignerUIDsInMultiUnlocks s) \<union> set (concat (map (signersOf D) us))"
      "set (concat (map (signersOf D) us)) \<inter> dom (seenSignerUIDs s) = {}" "\<forall>v \<in> set us. memberFit ys v"
    by blast
  have kind: "\<not> isSig ?u" "\<not> isRef ?u" "isMulti ?u" "multiBytes D ?u = Some b" "signersOf D ?u = []"
    using b by (simp_all add: isSig_def isRef_def isMulti_def ReferencedInputIndex_def multiBytes_def)
  have fit: "unlockFit ys ?u"
    using m(4) by (simp add: unlockFit_def refersBack_def ReferencedInputIndex_def)
  have "b \<notin> dom (seenMultiUnlockBytes s)" using b(2) by (simp add: domIff)
  then have new: "b \<notin> set (List.map_filter (multiBytes D) ys)" using inv(1) by (simp add: seenInv_def)
  show ?thesis
    using inv(1) fit m(2,3) new unfolding seenInv_def indices_snoc fit_snoc
    by (auto simp: s' m(1) kind)
qed

lemma unlocks_invariant:
  assumes "ValidateUnlocksSyntax D us = Inr ()" "length us \<le> 65536"
  shows "\<exists>s. seenInv D us s"
proof (rule SliceValidator_prefix_invariant [where P = "seenInv D"])
  show "SliceValidator (SignaturesUniqueAndReferenceUnlocksValidator D) nothingSeen us = Inr ()"
    using assms(1) by (simp add: ValidateUnlocksSyntax_def)
  show "seenInv D [] nothingSeen"
    by (simp add: seenInv_def nothingSeen_def outerSigners_def innerSigners_def map_filter_simps)
  fix ys u s s'
  assume inv: "seenInv D ys s" and len: "length ys < length us"
    and st: "SignaturesUniqueAndReferenceUnlocksValidator D s (length ys) u = Inr s'"
  have l: "length ys \<le> 65536" using len assms(2) by simp
  have ref: "seenInv D (ys @ [u]) s'"
    if "ReferencedInputIndex u = Some r" "referentialUnlockStep s (length ys) r (Chainable u) = Inr s'" for r
    using referential_step [OF inv l that] .
  show "seenInv D (ys @ [u]) s'"
  proof (cases u)
    case (SignatureUnlock sig)
    with st signature_step [OF inv] show ?thesis by (simp add: SignaturesUniqueAndReferenceUnlocksValidator_def)
  next
    case (MultiUnlock vs)
    with st multi_step [OF inv l] show ?thesis by (simp add: SignaturesUniqueAndReferenceUnlocksValidator_def)
  next
    case EmptyUnlock
    with st show ?thesis by (simp add: SignaturesUniqueAndReferenceUnlocksValidator_def)
  qed (use st ref in \<open>simp_all add: SignaturesUniqueAndReferenceUnlocksValidator_def ReferencedInputIndex_def\<close>)
qed

section \<open>Following references\<close>

text \<open>Following the references from unlock @\<open>i\<close> arrives at the signature or multi unlock @\<open>j\<close> after
  @\<open>n\<close> steps.\<close>

inductive leads :: "unlock list \<Rightarrow> nat \<Rightarrow> nat \<Rightarrow> nat \<Rightarrow> bool" where
  here: "i < length us \<Longrightarrow> isSig (us ! i) \<or> isMulti (us ! i) \<Longrightarrow> leads us i 0 i"
| step: "i < length us \<Longrightarrow> ReferencedInputIndex (us ! i) = Some r \<Longrightarrow> leads us (unat r) n j
    \<Longrightarrow> leads us i (Suc n) j"

inductive_simps leads_simps: "leads us i n j"

lemma sources_are_no_references: "isSig u \<or> isMulti u \<Longrightarrow> ReferencedInputIndex u = None"
  by (cases u) (simp_all add: isSig_def isMulti_def ReferencedInputIndex_def)

lemma leads_unique: "leads us i n j \<Longrightarrow> leads us i n' j' \<Longrightarrow> n = n' \<and> j = j'"
proof (induction arbitrary: n' j' rule: leads.induct)
  case (here i us)
  then show ?case using sources_are_no_references by (auto simp: leads_simps [of us i])
next
  case (step i us r n j)
  from step.prems show ?case
  proof (cases rule: leads.cases)
    case here
    with step.hyps sources_are_no_references show ?thesis by auto
  next
    case (step r' m)
    with step.hyps step.IH show ?thesis by auto
  qed
qed

lemma fit_of_accepted:
  assumes "ValidateUnlocksSyntax D us = Inr ()" "length us \<le> 65536" "i < length us"
  shows "unlockFit (take i us) (us ! i)"
  using unlocks_invariant [OF assms(1,2)] assms(3) by (auto simp: seenInv_def)

lemma leads_exists:
  assumes "ValidateUnlocksSyntax D us = Inr ()" "length us \<le> 65536" "i < length us"
  shows "\<exists>n j. leads us i n j \<and> n + j \<le> i"
  using assms(3)
proof (induction i rule: less_induct)
  case (less i)
  have fit: "unlockFit (take i us) (us ! i)" using fit_of_accepted [OF assms(1,2) less.prems] .
  show ?case
  proof (cases "ReferencedInputIndex (us ! i)")
    case None
    with fit have "isSig (us ! i) \<or> isMulti (us ! i)"
      by (cases "us ! i") (simp_all add: ReferencedInputIndex_def isSig_def isMulti_def unlockFit_def)
    with less.prems have "leads us i 0 i" by (rule leads.here)
    then show ?thesis by (intro exI [of _ 0] exI [of _ i]) simp
  next
    case (Some r)
    then have r: "unat r < i" using fit less.prems by (simp add: unlockFit_def refersBack_def)
    then obtain n j where "leads us (unat r) n j" "n + j \<le> unat r"
      using less.IH [OF r] less.prems by auto
    with Some r less.prems show ?thesis
      by (intro exI [of _ "Suc n"] exI [of _ j]) (auto intro: leads.step)
  qed
qed

text \<open>C27: in an accepted list of unlocks, following references from any unlock comes to an end: after at
  most as many steps as the index it started from it arrives at exactly one signature or multi unlock,
  which is not later.  A reference that does not support chaining gets there in one step, and the members
  of a multi unlock that are references end at an earlier signature or multi unlock too.\<close>

theorem unlock_references_end:
  assumes "ValidateUnlocksSyntax D us = Inr ()" "length us \<le> 65536" "i < length us"
  shows "(\<exists>!(n, j). leads us i n j) \<and> (\<exists>n j. leads us i n j \<and> n + j \<le> i
      \<and> (\<not> Chainable (us ! i) \<longrightarrow> n \<le> 1))
    \<and> (\<forall>v \<in> set (membersOf (us ! i)). \<forall>r. ReferencedInputIndex v = Some r \<longrightarrow>
         unat r < i \<and> (\<exists>n j. leads us (unat r) n j \<and> n + j \<le> unat r)
         \<and> (\<not> Chainable v \<longrightarrow> isSig (us ! unat r)))"
proof (intro conjI ballI allI impI)
  obtain n j where nj: "leads us i n j" "n + j \<le> i" using leads_exists [OF assms] by blast
  show "\<exists>!(n, j). leads us i n j"
  proof (rule ex1I [of _ "(n, j)"])
    show "case (n, j) of (n, j) \<Rightarrow> leads us i n j" using nj(1) by simp
    show "x = (n, j)" if "case x of (n, j) \<Rightarrow> leads us i n j" for x
      using leads_unique [OF nj(1), of "fst x" "snd x"] that by (simp add: case_prod_beta prod_eq_iff)
  qed
  have fit: "unlockFit (take i us) (us ! i)" using fit_of_accepted [OF assms] .
  have "n \<le> 1" if "\<not> Chainable (us ! i)"
    using nj(1)
  proof (cases rule: leads.cases)
    case (step r m)
    then have r: "unat r < i" "isSig (us ! unat r) \<or> isMulti (us ! unat r)"
      using fit that assms(3) by (auto simp: unlockFit_def refersBack_def)
    then have "leads us (unat r) 0 (unat r)" using assms(3) by (intro leads.here) simp_all
    with leads_unique [OF step(4)] have "m = 0" by blast
    with step(1) show ?thesis by simp
  qed simp
  with nj show "\<exists>n j. leads us i n j \<and> n + j \<le> i \<and> (\<not> Chainable (us ! i) \<longrightarrow> n \<le> 1)" by blast
  fix v r assume v: "v \<in> set (membersOf (us ! i))" "ReferencedInputIndex v = Some r"
  then have m: "memberFit (take i us) v" using fit by (simp add: unlockFit_def)
  with v(2) assms(3) show r: "unat r < i" by (simp add: memberFit_def refersBack_def)
  with assms show "\<exists>n j. leads us (unat r) n j \<and> n + j \<le> unat r" by (intro leads_exists) simp_all
  show "isSig (us ! unat r)" if "\<not> Chainable v"
    using m v(2) r that assms(3) by (simp add: memberFit_def refersBack_def)
qed

text \<open>C28: in an accepted list of unlocks no signer signs twice outside of multi unlocks, none of these
  signers signs inside of one, multi unlocks are pairwise different and not nested, and every signature
  is present.\<close>

theorem unlock_signers_unique:
  assumes "ValidateUnlocksSyntax D us = Inr ()" "length us \<le> 65536"
  shows "distinct (outerSigners D us) \<and> set (outerSigners D us) \<inter> set (innerSigners D us) = {}
    \<and> distinct (List.map_filter (multiBytes D) us)
    \<and> (\<forall>u \<in> set us. u \<noteq> EmptyUnlock \<and> u \<noteq> SignatureUnlock None
        \<and> (\<forall>v \<in> set (membersOf u). v \<noteq> SignatureUnlock None \<and> (\<forall>vs. v \<noteq> MultiUnlock vs)))"
proof (intro conjI)
  obtain s where s: "seenInv D us s" using unlocks_invariant [OF assms] by blast
  then show "distinct (outerSigners D us)" "set (outerSigners D us) \<inter> set (innerSigners D us) = {}"
    "distinct (List.map_filter (multiBytes D) us)" by (simp_all add: seenInv_def)
  show "\<forall>u \<in> set us. u \<noteq> EmptyUnlock \<and> u \<noteq> SignatureUnlock None
        \<and> (\<forall>v \<in> set (membersOf u). v \<noteq> SignatureUnlock None \<and> (\<forall>vs. v \<noteq> MultiUnlock vs))"
  proof
    fix u assume "u \<in> set us"
    then obtain i where "i < length us" "u = us ! i" by (auto simp: in_set_conv_nth)
    then have "unlockFit (take i us) u" using fit_of_accepted [OF assms] by simp
    then show "u \<noteq> EmptyUnlock \<and> u \<noteq> SignatureUnlock None
        \<and> (\<forall>v \<in> set (membersOf u). v \<noteq> SignatureUnlock None \<and> (\<forall>vs. v \<noteq> MultiUnlock vs))"
      by (auto simp: unlockFit_def memberFit_def)
  qed
qed

text \<open>A signature, an account unlock by it, a chained NFT unlock, and a multi unlock.\<close>

definition demo_unlocks :: "unlock list" where
  "demo_unlocks =
    [SignatureUnlock (Some \<lparr>sigPublicKey = [1], sigSignature = []\<rparr>), AccountUnlock 0, NFTUnlock 1, ReferenceUnlock 0,
     MultiUnlock [SignatureUnlock (Some \<lparr>sigPublicKey = [2], sigSignature = []\<rparr>), NFTUnlock 2, EmptyUnlock]]"

lemma demo_unlocks_accepted: "ValidateUnlocksSyntax ref_tx_deps demo_unlocks = Inr ()"
  by (simp add: ValidateUnlocksSyntax_def demo_unlocks_def SliceValidator_def
      SignaturesUniqueAndReferenceUnlocksValidator_def signatureUnlockStep_def referentialUnlockStep_def
      multiUnlockStepS_def subUnlockStep_def ReferencedInputIndex_def Chainable_def nothingSeen_def SignerUID_def
      Let_def ref_sum256_def)

theorem unlock_references_end_witness: "\<exists>n j. leads demo_unlocks 2 n j \<and> n + j \<le> 2"
  using unlock_references_end [OF demo_unlocks_accepted, of 2] by (auto simp: demo_unlocks_def)

theorem unlock_signers_unique_witness: "distinct (outerSigners ref_tx_deps demo_unlocks)"
  using unlock_signers_unique [OF demo_unlocks_accepted] by (simp add: demo_unlocks_def)

end
