(* ===== verification/Tx_Syntax.thy ===== *)
theory Tx_Syntax
  imports Output_Types Unlock_Syntax "HOL-Library.Product_Lexorder"
begin

text \<open>
  The syntactical validation of transactions: input.go, input_context.go, allotment.go,
  transaction_essence.go, transaction.go and signed_transaction.go.  The limits on the number of
  elements are array rules of the serialization, not part of these functions.
\<close>

section \<open>Inputs\<close>

definition InputsSyntacticalUnique :: "(bytes list, utxo_input) validator" where
  "InputsSyntacticalUnique utxoSet index input =
    (let k = inOutputID input
     in if k \<in> set utxoSet
        then throw (Wrap (Sentinel ''ErrInputUTXORefsNotUnique'') ''input %d and %d share the same referenced UTXO index'')
        else Inr (k # utxoSet))"

text \<open>@\<open>RefUTXOIndexMin\<close> is 0 and @\<open>RefUTXOIndexMax\<close> is 127.\<close>

definition InputsSyntacticalIndicesWithinBounds :: "nat \<Rightarrow> utxo_input \<Rightarrow> unit go" where
  "InputsSyntacticalIndicesWithinBounds index input =
    (if 127 < in_Index input then throw (Wrap (Sentinel ''ErrRefUTXOIndexInvalid'') ''input %d'')
     else Inr ())"

section \<open>Context inputs\<close>

definition ctxType :: "context_input \<Rightarrow> u8" where
  "ctxType c = (case c of CommitmentInput _ \<Rightarrow> 0 | BlockIssuanceCreditInput _ \<Rightarrow> 1 | RewardInput _ \<Rightarrow> 2)"

text \<open>@\<open>Compare\<close> of the three types: commitment inputs by type only, the others by type and then by
  account ID or index.\<close>

definition ctxCompare :: "context_input \<Rightarrow> context_input \<Rightarrow> int" where
  "ctxCompare c other =
    (let typeCompare = cmpCompare (ctxType c) (ctxType other)
     in case c of
          CommitmentInput _ \<Rightarrow> typeCompare
        | BlockIssuanceCreditInput a \<Rightarrow>
            (if typeCompare \<noteq> 0 then typeCompare
             else case other of BlockIssuanceCreditInput b \<Rightarrow> bytesCompare a b | _ \<Rightarrow> 0)
        | RewardInput i \<Rightarrow>
            (if typeCompare \<noteq> 0 then typeCompare
             else case other of RewardInput j \<Rightarrow> cmpCompare i j | _ \<Rightarrow> 0))"

definition ContextInputsRewardInputMaxIndex :: "u16 \<Rightarrow> nat \<Rightarrow> context_input \<Rightarrow> unit go" where
  "ContextInputsRewardInputMaxIndex inputsCount index input =
    (case input of
       RewardInput utxoIndex \<Rightarrow>
         if inputsCount \<le> utxoIndex
         then throw (Wrap (Sentinel ''ErrInputRewardIndexExceedsMaxInputsCount'')
                ''reward input %d references index %d which is equal or greater than the inputs count %d'')
         else Inr ()
     | _ \<Rightarrow> Inr ())"

definition ContextInputsCommitmentInputRequirement :: "(bool, context_input) validator" where
  "ContextInputsCommitmentInputRequirement seenCommitmentInput index input =
    (case input of
       CommitmentInput _ \<Rightarrow> Inr True
     | BlockIssuanceCreditInput _ \<Rightarrow>
         if \<not> seenCommitmentInput
         then throw (Wrap (Sentinel ''ErrCommitmentInputMissing'')
                ''block issuance credit input at index %d requires a commitment input'')
         else Inr seenCommitmentInput
     | RewardInput _ \<Rightarrow>
         if \<not> seenCommitmentInput
         then throw (Wrap (Sentinel ''ErrCommitmentInputMissing'')
                ''reward input at index %d requires a commitment input'')
         else Inr seenCommitmentInput)"

section \<open>Allotments\<close>

definition allotmentCompare :: "mana_allotment \<Rightarrow> mana_allotment \<Rightarrow> int" where
  "allotmentCompare a other = bytesCompare (al_AccountID a) (al_AccountID other)"

definition allotmentMaxManaValidator :: "'a deps_scheme \<Rightarrow> u64 \<Rightarrow> (u64, mana_allotment) validator" where
  "allotmentMaxManaValidator D maxManaValue sum1 index next1 =
    andthen (joinE (Sentinel ''ErrMaxManaExceeded'')
        (wrapE ''allotment mana sum calculation failed at allotment %d'' (liftE (SafeAdd64 D sum1 (al_Mana next1)))))
      (\<lambda>sum1.
    if maxManaValue < sum1
    then throw (Wrap (Sentinel ''ErrMaxManaExceeded'') ''sum of allotted mana exceeds max value with allotment %d'')
    else Inr sum1)"

section \<open>Transactions\<close>

text \<open>The largest mana value, @\<open>1 << BitsCount - 1\<close> at 64 bits.\<close>

definition maxManaValue :: "ledger_api \<Rightarrow> u64" where
  "maxManaValue api = push_bit (api_ManaBitsCount api) 1 - 1"

definition syntacticallyValidateEssence ::
    "'a tx_deps_scheme \<Rightarrow> ledger_api \<Rightarrow> transaction \<Rightarrow> unit go" where
  "syntacticallyValidateEssence D api u =
    andthen (joinE (Sentinel ''ErrTxEssenceCapabilitiesInvalid'')
        (BitMaskNonTrailingZeroBytesValidatorFunc (te_Capabilities u))) (\<lambda>_.
    if te_NetworkID u \<noteq> api_NetworkID api
    then throw (Wrap (Sentinel ''ErrTxEssenceNetworkIDInvalid'') ''expected %d (%s), got %d'')
    else andthen (SliceValidatorMapper (\<lambda>x. x)
        (thenAlso InputsSyntacticalUnique (plain InputsSyntacticalIndicesWithinBounds)) ([], ()) (te_Inputs u)) (\<lambda>_.
      let inputsCount = word_of_nat (length (te_Inputs u))
      in andthen (SliceValidatorMapper (\<lambda>x. x)
          (thenAlso (LexicalOrderAndUniquenessValidator ctxCompare)
            (thenAlso (plain (ContextInputsRewardInputMaxIndex inputsCount))
              ContextInputsCommitmentInputRequirement)) (None, (), False) (te_ContextInputs u)) (\<lambda>_.
        SliceValidator
          (thenAlso (LexicalOrderAndUniquenessValidator allotmentCompare)
            (allotmentMaxManaValidator D (maxManaValue api))) (None, 0) (te_Allotments u))))"

definition SyntacticallyValidate ::
    "'a tx_deps_scheme \<Rightarrow> ledger_api \<Rightarrow> transaction \<Rightarrow> unit go" where
  "SyntacticallyValidate D api t =
    andthen (syntacticallyValidateEssence D api t) (\<lambda>_.
      let hasCommitmentInput = (txCommitmentInput t \<noteq> None)
      in SyntacticallyValidateOutputs D api (maxManaValue api) hasCommitmentInput (tx_Outputs t))"

definition signedSyntacticallyValidate ::
    "'a tx_deps_scheme \<Rightarrow> ledger_api \<Rightarrow> signed_transaction \<Rightarrow> unit go" where
  "signedSyntacticallyValidate D api t =
    (let inputs = te_Inputs (st_Transaction t)
     in if length (st_Unlocks t) \<noteq> length inputs
        then throw (Wrap (Sentinel ''ErrInputUnlockCountMismatch'') ''unlock count %d does not match inputs count %d'')
        else andthen (wrapE ''transaction is invalid'' (SyntacticallyValidate D api (st_Transaction t))) (\<lambda>_.
          wrapE ''invalid unlocks'' (ValidateUnlocksSyntax D (st_Unlocks t))))"

section \<open>What is accepted\<close>

definition ctxKey :: "context_input \<Rightarrow> u8 \<times> bytes \<times> u16" where
  "ctxKey c = (case c of CommitmentInput _ \<Rightarrow> (0, [], 0) | BlockIssuanceCreditInput a \<Rightarrow> (1, a, 0)
     | RewardInput i \<Rightarrow> (2, [], i))"

lemma type_order: "\<not> (2 :: u8) \<le> 1"
  by (simp add: word_le_nat_alt)

interpretation ctx_order: key_order ctxCompare ctxKey
  by unfold_locales
    (auto simp: type_order ctxCompare_def ctxKey_def ctxType_def cmpCompare_def bytesCompare_def Let_def less_prod_def
      split: context_input.splits)

interpretation allotment_order: key_order allotmentCompare al_AccountID
  by unfold_locales (simp add: allotmentCompare_def bytesCompare_cmp)

lemma inputs_accepted:
  "SliceValidator InputsSyntacticalUnique [] xs = Inr () \<longleftrightarrow> distinct (map inOutputID xs)"
proof -
  have "InputsSyntacticalUnique seen i x = Inr t \<longleftrightarrow>
      (\<exists>k. Inr (Some (inOutputID x)) = (Inr k :: bytes option go)
        \<and> (case k of None \<Rightarrow> t = seen | Some c \<Rightarrow> c \<notin> set seen \<and> t = c # seen))" for seen i x t
    by (auto simp: InputsSyntacticalUnique_def Let_def if_throw_eq_Inr)
  from distinct_keys_accepts [where f = InputsSyntacticalUnique and key = "\<lambda>x. Inr (Some (inOutputID x))", OF this, of xs]
  show ?thesis by (simp add: map_filter_def comp_def)
qed

lemma allotments_accepted:
  assumes "safemath64 D"
  shows "SliceValidator (allotmentMaxManaValidator D m) 0 xs = Inr () \<longleftrightarrow> (\<Sum>a\<leftarrow>xs. unat (al_Mana a)) \<le> unat m"
proof -
  have "allotmentMaxManaValidator D m s i a = Inr t \<longleftrightarrow>
      True \<and> unat t = unat s + unat (al_Mana a) \<and> unat t \<le> unat m" for s i a t
    by (auto simp: allotmentMaxManaValidator_def andthen_eq_Inr if_throw_eq_Inr not_less
        checked_arith.add_Inr_iff [OF assms] word_le_nat_alt)
  from bounded_sum_accepts [where f = "allotmentMaxManaValidator D m" and s = 0 and xs = xs, OF this unat_less_pow]
  show ?thesis by simp
qed

definition isCommitment :: "context_input \<Rightarrow> bool" where
  "isCommitment c = (case c of CommitmentInput _ \<Rightarrow> True | _ \<Rightarrow> False)"

lemma requirement_accepted:
  "SliceValidator ContextInputsCommitmentInputRequirement False xs = Inr ()
    \<longleftrightarrow> (xs = [] \<or> isCommitment (hd xs))"
proof -
  have all: "\<exists>t. foldG (\<lambda>s (i, x). ContextInputsCommitmentInputRequirement s i x) True (List.enumerate n ys) = Inr t" for n ys
  proof (induction ys arbitrary: n)
    case (Cons y ys)
    then show ?case by (cases y) (simp_all add: ContextInputsCommitmentInputRequirement_def)
  qed auto
  show ?thesis
  proof (cases xs)
    case (Cons x ys)
    then show ?thesis using all [of 1 ys]
      by (cases x) (auto simp: SliceValidator_def ContextInputsCommitmentInputRequirement_def isCommitment_def)
  qed simp
qed

lemma essence_iff:
  assumes "safemath64 D"
  shows "syntacticallyValidateEssence D api t = Inr () \<longleftrightarrow>
    trimmed (te_Capabilities t) \<and> te_NetworkID t = api_NetworkID api
    \<and> distinct (map inOutputID (te_Inputs t)) \<and> (\<forall>i \<in> set (te_Inputs t). in_Index i \<le> 127)
    \<and> sorted_wrt (<) (map ctxKey (te_ContextInputs t))
    \<and> (\<forall>c \<in> set (te_ContextInputs t). \<forall>r. c = RewardInput r \<longrightarrow> r < word_of_nat (length (te_Inputs t)))
    \<and> (te_ContextInputs t = [] \<or> isCommitment (hd (te_ContextInputs t)))
    \<and> sorted_wrt (<) (map al_AccountID (te_Allotments t))
    \<and> (\<Sum>a\<leftarrow>te_Allotments t. unat (al_Mana a)) \<le> unat (maxManaValue api)"
proof -
  have b: "SliceValidator (plain InputsSyntacticalIndicesWithinBounds) () xs = Inr ()
      \<longleftrightarrow> (\<forall>i \<in> set xs. in_Index i \<le> 127)" for xs
    using plain_all [of InputsSyntacticalIndicesWithinBounds "InputsSyntacticalIndicesWithinBounds 0" "()" xs]
    by (simp add: InputsSyntacticalIndicesWithinBounds_def if_throw_eq_Inr not_less)
  have r: "SliceValidator (plain (ContextInputsRewardInputMaxIndex n)) () xs = Inr ()
      \<longleftrightarrow> (\<forall>c \<in> set xs. \<forall>r. c = RewardInput r \<longrightarrow> r < n)" for n xs
  proof -
    have "ContextInputsRewardInputMaxIndex n 0 c = Inr () \<longleftrightarrow> (\<forall>r. c = RewardInput r \<longrightarrow> r < n)" for c
      by (cases c) (simp_all add: ContextInputsRewardInputMaxIndex_def if_throw_eq_Inr not_le)
    then show ?thesis
      using plain_all [of "ContextInputsRewardInputMaxIndex n" "ContextInputsRewardInputMaxIndex n 0" "()" xs]
      by (simp add: ContextInputsRewardInputMaxIndex_def)
  qed
  show ?thesis
    by (simp add: syntacticallyValidateEssence_def andthen_eq_Inr if_throw_eq_Inr validator_iff Let_def
        SliceValidatorMapper_eq thenAlso_accepts inputs_accepted b r requirement_accepted ctx_order.accepts
        allotment_order.accepts allotments_accepted [OF assms] conj_assoc)
qed

text \<open>The commitment input is the first context input and the only one.\<close>

lemma single_commitment:
  assumes "sorted_wrt (<) (map ctxKey cs)" "cs = [] \<or> isCommitment (hd cs)"
  shows "\<forall>i < length cs. isCommitment (cs ! i) \<longleftrightarrow> i = 0"
proof (intro allI impI)
  fix i assume i: "i < length cs"
  have hd: "isCommitment (cs ! 0)" using assms(2) i by (cases cs) auto
  show "isCommitment (cs ! i) \<longleftrightarrow> i = 0"
  proof (cases "i = 0")
    case False
    then have "ctxKey (cs ! 0) < ctxKey (cs ! i)" using assms(1) i by (simp add: sorted_wrt_iff_nth_less)
    then have "\<not> isCommitment (cs ! i)" using hd
      by (auto simp: isCommitment_def ctxKey_def split: context_input.splits)
    with False show ?thesis by simp
  qed (use hd in simp)
qed

text \<open>C17: exactly these signed transactions are accepted: the network is ours, the capabilities end in a
  set byte, no output is spent twice, the context inputs are in strict order, with the commitment input
  in front of all others and rewards claimed only for inputs that exist, no account gets two allotments,
  the allotments stay within the largest mana value, the outputs are accepted under the presence of
  the commitment input, there is an unlock for each input and the unlocks are accepted.  A reward input must name an index below the number of inputs; the comment
  of @\<open>ContextInputsRewardInputMaxIndex\<close> (input_context.go) admits an index up to the maximum inputs count, and
  the name of the error it returns says the same.\<close>

theorem signed_transaction_accepted:
  assumes "safemath64 D"
  shows "signedSyntacticallyValidate D api st = Inr () \<longleftrightarrow>
    (let t = st_Transaction st in
      trimmed (te_Capabilities t) \<and> te_NetworkID t = api_NetworkID api
    \<and> distinct (map inOutputID (te_Inputs t)) \<and> (\<forall>i \<in> set (te_Inputs t). in_Index i \<le> 127)
    \<and> sorted_wrt (<) (map ctxKey (te_ContextInputs t))
    \<and> (\<forall>i < length (te_ContextInputs t). isCommitment (te_ContextInputs t ! i) \<longleftrightarrow> i = 0)
    \<and> (\<forall>r. RewardInput r \<in> set (te_ContextInputs t) \<longrightarrow> r < word_of_nat (length (te_Inputs t)))
    \<and> sorted_wrt (<) (map al_AccountID (te_Allotments t))
    \<and> (\<Sum>a\<leftarrow>te_Allotments t. unat (al_Mana a)) \<le> unat (maxManaValue api)
    \<and> SyntacticallyValidateOutputs D api (maxManaValue api) (te_ContextInputs t \<noteq> []) (tx_Outputs t) = Inr ()
    \<and> length (st_Unlocks st) = length (te_Inputs t)
    \<and> ValidateUnlocksSyntax D (st_Unlocks st) = Inr ())"
proof -
  let ?t = "st_Transaction st"
  let ?cs = "te_ContextInputs ?t"
  have c: "txCommitmentInput ?t \<noteq> None \<longleftrightarrow> ?cs \<noteq> []" if "?cs = [] \<or> isCommitment (hd ?cs)"
    using that by (cases ?cs)
      (auto simp: txCommitmentInput_def isCommitment_def split: context_input.splits)
  have first: "?cs = [] \<or> isCommitment (hd ?cs)"
    if "\<forall>i < length ?cs. isCommitment (?cs ! i) \<longleftrightarrow> i = 0"
    using that by (cases ?cs) auto
  have run: "signedSyntacticallyValidate D api st = Inr () \<longleftrightarrow>
      length (st_Unlocks st) = length (te_Inputs ?t) \<and> syntacticallyValidateEssence D api ?t = Inr ()
      \<and> SyntacticallyValidateOutputs D api (maxManaValue api) (txCommitmentInput ?t \<noteq> None) (tx_Outputs ?t) = Inr ()
      \<and> ValidateUnlocksSyntax D (st_Unlocks st) = Inr ()"
    by (simp add: signedSyntacticallyValidate_def SyntacticallyValidate_def Let_def if_throw_eq_Inr andthen_eq_Inr
        conj_assoc)
  show ?thesis (is "?L \<longleftrightarrow> ?R")
  proof
    assume ?L
    note r = run [THEN iffD1, OF this]
    note e = essence_iff [OF assms, THEN iffD1, OF r [THEN conjunct2, THEN conjunct1]]
    then have k: "?cs = [] \<or> isCommitment (hd ?cs)" and o: "sorted_wrt (<) (map ctxKey ?cs)" by blast+
    show ?R unfolding Let_def using e r c [OF k] single_commitment [OF o k] by auto
  next
    assume R: ?R
    then have k: "?cs = [] \<or> isCommitment (hd ?cs)" using first unfolding Let_def by blast
    show ?L unfolding run essence_iff [OF assms] using R c [OF k] k unfolding Let_def by auto
  qed
qed

text \<open>Five inputs, a commitment input with a reward claim, two allotments.\<close>

definition syntax_tx :: transaction where
  "syntax_tx = (demo_tx demo_outputs)\<lparr>
     te_Inputs := map (\<lambda>i. \<lparr>in_TransactionID = replicate 36 1, in_Index = i\<rparr>) [0, 1, 2, 3, 4],
     te_ContextInputs := [CommitmentInput [9], BlockIssuanceCreditInput [3], RewardInput 1],
     te_Allotments := [\<lparr>al_AccountID = [1], al_Mana = 10\<rparr>, \<lparr>al_AccountID = [2], al_Mana = 20\<rparr>],
     te_Capabilities := [1]\<rparr>"

lemma syntax_tx_fits:
  "unat (maxManaValue syntax_api) = 2 ^ 63 - 1"
  "trimmed (te_Capabilities syntax_tx)" "te_NetworkID syntax_tx = api_NetworkID syntax_api"
  "distinct (map inOutputID (te_Inputs syntax_tx))" "\<forall>i \<in> set (te_Inputs syntax_tx). in_Index i \<le> 127"
  "sorted_wrt (<) (map ctxKey (te_ContextInputs syntax_tx))"
  "\<forall>i < length (te_ContextInputs syntax_tx). isCommitment (te_ContextInputs syntax_tx ! i) \<longleftrightarrow> i = 0"
  "\<forall>r. RewardInput r \<in> set (te_ContextInputs syntax_tx) \<longrightarrow> r < word_of_nat (length (te_Inputs syntax_tx))"
  "sorted_wrt (<) (map al_AccountID (te_Allotments syntax_tx))"
  "(\<Sum>a\<leftarrow>te_Allotments syntax_tx. unat (al_Mana a)) \<le> 30"
  "length (te_Inputs syntax_tx) = 5" "length demo_unlocks = 5"
proof -
  show "distinct (map inOutputID (te_Inputs syntax_tx))"
    by (simp add: syntax_tx_def inOutputID_def OutputIDFromTransactionIDAndIndex_def le16_def)
  show "\<forall>i < length (te_ContextInputs syntax_tx). isCommitment (te_ContextInputs syntax_tx ! i) \<longleftrightarrow> i = 0"
    by (auto simp: syntax_tx_def isCommitment_def less_Suc_eq numeral_3_eq_3)
qed (simp_all add: maxManaValue_def syntax_tx_def demo_tx_def syntax_api_def demo_api_def trimmed_def demo_unlocks_def
    ctxKey_def less_prod_def word_less_nat_alt word_le_nat_alt)

theorem signed_transaction_accepted_witness:
  "signedSyntacticallyValidate ref_tx_deps syntax_api \<lparr>st_Transaction = syntax_tx, st_Unlocks = demo_unlocks\<rparr> = Inr ()"
proof -
  have outs: "SyntacticallyValidateOutputs ref_tx_deps syntax_api (maxManaValue syntax_api) c demo_outputs = Inr ()" for c
    by (rule demo_outputs_accepted_by) (simp_all add: syntax_tx_fits(1))
  have "tx_Outputs syntax_tx = demo_outputs" by (simp add: syntax_tx_def demo_tx_def)
  moreover have "safemath64 ref_tx_deps" by (simp add: refa.checked_arith_axioms)
  ultimately show ?thesis
    unfolding signed_transaction_accepted [OF \<open>safemath64 ref_tx_deps\<close>]
    using syntax_tx_fits demo_unlocks_accepted outs by (simp add: Let_def)
qed

end
