(* ===== verification/Work_Score.thy ===== *)
theory Work_Score
  imports Tx_Syntax
begin

text \<open>
  The work score of a payload, workscore.go, and the methods @\<open>WorkScore\<close> and @\<open>Size\<close> of everything a
  signed transaction is made of.  A work score is a 32 bit number whose additions and multiplications are
  checked; sizes are natural numbers.  The two sizes of hive.go/serializer that were not needed before
  are parameters.  The theorems give the exact score of a transaction and compare it with
  @\<open>MaxBlockWork\<close>, the bound the node configures its block scheduler with.
\<close>

record work_deps = tx_deps +
  serTypeDenotation :: nat
  serPayloadLength :: nat

record work_score_parameters =
  wsp_DataByte :: u32
  wsp_Block :: u32
  wsp_Input :: u32
  wsp_ContextInput :: u32
  wsp_Output :: u32
  wsp_NativeToken :: u32
  wsp_Staking :: u32
  wsp_BlockIssuer :: u32
  wsp_Allotment :: u32
  wsp_SignatureEd25519 :: u32

section \<open>Arithmetic\<close>

primrec workAdd :: "'a deps_scheme \<Rightarrow> u32 \<Rightarrow> u32 list \<Rightarrow> go_error + u32" where
  "workAdd D result [] = Inr result"
| "workAdd D result (workScore # ins) =
     (case SafeAdd32 D result workScore of
        Inl err \<Rightarrow> Inl (Wrap err ''failed to calculate WorkScore'')
      | Inr result \<Rightarrow> workAdd D result ins)"

text \<open>The argument is a Go @\<open>int\<close>, converted to 32 bits.\<close>

definition workMultiply :: "'a deps_scheme \<Rightarrow> u32 \<Rightarrow> int \<Rightarrow> go_error + u32" where
  "workMultiply D w n =
     (case SafeMul32 D w (word_of_int n) of
        Inl err \<Rightarrow> Inl (Wrap err ''failed to calculate WorkScore'')
      | Inr result \<Rightarrow> Inr result)"

text \<open>The loop the slices share: add the scores of the elements, stop at the first error.\<close>

definition workSum :: "'a deps_scheme \<Rightarrow> ('x \<Rightarrow> u32 go) \<Rightarrow> 'x list \<Rightarrow> u32 go" where
  "workSum D f xs = foldG (\<lambda>s x. andthen (f x) (\<lambda>n. liftE (workAdd D s [n]))) 0 xs"

lemma workSum_cong [fundef_cong]:
  "D = D' \<Longrightarrow> xs = ys \<Longrightarrow> (\<And>x. x \<in> set ys \<Longrightarrow> f x = g x) \<Longrightarrow> workSum D f xs = workSum D' g ys"
  unfolding workSum_def by (rule foldG_cong) auto

lemma sumG_cong [fundef_cong]:
  "s = t \<Longrightarrow> xs = ys \<Longrightarrow> (\<And>x. x \<in> set ys \<Longrightarrow> f x = g x) \<Longrightarrow> sumG f s xs = sumG g t ys"
  unfolding sumG_def by (rule foldG_cong) auto

section \<open>Limits\<close>

text \<open>Identifiers have 32 bytes, those with a slot index 36.\<close>

definition BlockHeaderLength :: "'a ledger_deps_scheme \<Rightarrow> nat" where
  "BlockHeaderLength D = serOneByte D + 8 + 8 + 36 + 4 + 32"

definition BasicBlockSizeEmptyParentsAndEmptyPayload :: "'a work_deps_scheme \<Rightarrow> nat" where
  "BasicBlockSizeEmptyParentsAndEmptyPayload D =
     serOneByte D + serOneByte D + serOneByte D + serOneByte D + serTypeDenotation D + 8"

definition Ed25519SignatureSerializedBytesSize :: "'a ledger_deps_scheme \<Rightarrow> nat" where
  "Ed25519SignatureSerializedBytesSize D = serSmallType D + 32 + 64"

definition MaxBlockSize :: nat where
  "MaxBlockSize = 32768"

definition MaxPayloadSize :: "'a work_deps_scheme \<Rightarrow> int" where
  "MaxPayloadSize D = int MaxBlockSize - int (BlockHeaderLength D)
     - int (BasicBlockSizeEmptyParentsAndEmptyPayload D) - 36 - int (Ed25519SignatureSerializedBytesSize D)"

text \<open>The closure @\<open>addWorkScore\<close> of @\<open>MaxBlockWork\<close> with the variables it captures: the last error and the
  sum.  After an error the sum goes on from zero.\<close>

definition addWorkScore ::
    "'a deps_scheme \<Rightarrow> u32 \<times> int \<Rightarrow> go_error option \<times> u32 \<Rightarrow> go_error option \<times> u32" where
  "addWorkScore D a st =
    (let (workScore, amount) = a; (innerErr, maxBlockWork) = st;
         (result, innerErr) = (case workMultiply D workScore amount of Inl err \<Rightarrow> (0, Some err) | Inr r \<Rightarrow> (r, innerErr))
     in case workAdd D maxBlockWork [result] of
          Inl err \<Rightarrow> (Some err, 0)
        | Inr m \<Rightarrow> (innerErr, m))"

definition blockWorkFactors :: "'a work_deps_scheme \<Rightarrow> work_score_parameters \<Rightarrow> (u32 \<times> int) list" where
  "blockWorkFactors D w =
    [(wsp_DataByte w, MaxPayloadSize D), (wsp_Block w, 1), (wsp_Input w, 128), (wsp_ContextInput w, 128),
     (wsp_Output w, 128), (wsp_NativeToken w, 128), (wsp_Staking w, 128), (wsp_BlockIssuer w, 128),
     (wsp_Allotment w, 128), (wsp_SignatureEd25519 w, 128 * 10)]"

definition MaxBlockWork :: "'a work_deps_scheme \<Rightarrow> work_score_parameters \<Rightarrow> u32 go" where
  "MaxBlockWork D w =
    (let (innerErr, maxBlockWork) = fold (addWorkScore D) (blockWorkFactors D w) (None, 0)
     in case innerErr of Some err \<Rightarrow> throw err | None \<Rightarrow> Inr maxBlockWork)"

section \<open>Outputs\<close>

text \<open>No unlock condition costs work on creation.\<close>

definition ucWorkScore :: "work_score_parameters \<Rightarrow> unlock_condition \<Rightarrow> u32 go" where
  "ucWorkScore w c = Inr 0"

definition ucsWorkScore :: "'a deps_scheme \<Rightarrow> work_score_parameters \<Rightarrow> unlock_condition list \<Rightarrow> u32 go" where
  "ucsWorkScore D w f = workSum D (ucWorkScore w) f"

definition featWorkScore :: "work_score_parameters \<Rightarrow> feature \<Rightarrow> u32 go" where
  "featWorkScore w c =
    (case c of
       BlockIssuerF _ \<Rightarrow> Inr (wsp_BlockIssuer w)
     | NativeTokenF _ _ \<Rightarrow> Inr (wsp_NativeToken w)
     | StakingF _ \<Rightarrow> Inr (wsp_Staking w)
     | _ \<Rightarrow> Inr 0)"

definition featsWorkScore :: "'a deps_scheme \<Rightarrow> work_score_parameters \<Rightarrow> feature list \<Rightarrow> u32 go" where
  "featsWorkScore D w f = workSum D (featWorkScore w) f"

definition schemeWorkScore :: "work_score_parameters \<Rightarrow> simple_token_scheme \<Rightarrow> u32 go" where
  "schemeWorkScore w s = Inr (wsp_NativeToken w)"

definition basicWorkScore :: "'a deps_scheme \<Rightarrow> work_score_parameters \<Rightarrow> basic_output \<Rightarrow> u32 go" where
  "basicWorkScore D w e =
    andthen (ucsWorkScore D w (bo_UnlockConditions e)) (\<lambda>workScoreConditions.
    andthen (featsWorkScore D w (bo_Features e)) (\<lambda>workScoreFeatures.
    liftE (workAdd D (wsp_Output w) [workScoreConditions, workScoreFeatures])))"

definition accountWorkScore :: "'a deps_scheme \<Rightarrow> work_score_parameters \<Rightarrow> account_output \<Rightarrow> u32 go" where
  "accountWorkScore D w a =
    andthen (ucsWorkScore D w (ao_UnlockConditions a)) (\<lambda>workScoreConditions.
    andthen (featsWorkScore D w (ao_Features a)) (\<lambda>workScoreFeatures.
    andthen (featsWorkScore D w (ao_ImmutableFeatures a)) (\<lambda>workScoreImmutableFeatures.
    liftE (workAdd D (wsp_Output w) [workScoreConditions, workScoreFeatures, workScoreImmutableFeatures]))))"

definition anchorWorkScore :: "'a deps_scheme \<Rightarrow> work_score_parameters \<Rightarrow> anchor_output \<Rightarrow> u32 go" where
  "anchorWorkScore D w a =
    andthen (ucsWorkScore D w (an_UnlockConditions a)) (\<lambda>workScoreConditions.
    andthen (featsWorkScore D w (an_Features a)) (\<lambda>workScoreFeatures.
    andthen (featsWorkScore D w (an_ImmutableFeatures a)) (\<lambda>workScoreImmutableFeatures.
    liftE (workAdd D (wsp_Output w) [workScoreConditions, workScoreFeatures, workScoreImmutableFeatures]))))"

definition foundryWorkScore :: "'a deps_scheme \<Rightarrow> work_score_parameters \<Rightarrow> foundry_output \<Rightarrow> u32 go" where
  "foundryWorkScore D w x =
    andthen (schemeWorkScore w (fo_TokenScheme x)) (\<lambda>workScoreTokenScheme.
    andthen (ucsWorkScore D w (fo_UnlockConditions x)) (\<lambda>workScoreConditions.
    andthen (featsWorkScore D w (fo_Features x)) (\<lambda>workScoreFeatures.
    andthen (featsWorkScore D w (fo_ImmutableFeatures x)) (\<lambda>workScoreImmutableFeatures.
    liftE (workAdd D (wsp_Output w)
      [workScoreTokenScheme, workScoreConditions, workScoreFeatures, workScoreImmutableFeatures])))))"

definition nftWorkScore :: "'a deps_scheme \<Rightarrow> work_score_parameters \<Rightarrow> nft_output \<Rightarrow> u32 go" where
  "nftWorkScore D w n =
    andthen (ucsWorkScore D w (no_UnlockConditions n)) (\<lambda>workScoreConditions.
    andthen (featsWorkScore D w (no_Features n)) (\<lambda>workScoreFeatures.
    andthen (featsWorkScore D w (no_ImmutableFeatures n)) (\<lambda>workScoreImmutableFeatures.
    liftE (workAdd D (wsp_Output w) [workScoreConditions, workScoreFeatures, workScoreImmutableFeatures]))))"

definition delegationWorkScore :: "'a deps_scheme \<Rightarrow> work_score_parameters \<Rightarrow> delegation_output \<Rightarrow> u32 go" where
  "delegationWorkScore D w d =
    andthen (ucsWorkScore D w (do_UnlockConditions d)) (\<lambda>workScoreConditions.
    liftE (workAdd D (wsp_Output w) [workScoreConditions]))"

definition outWorkScore :: "'a deps_scheme \<Rightarrow> work_score_parameters \<Rightarrow> ledger_output \<Rightarrow> u32 go" where
  "outWorkScore D w out =
    (case out of BasicO x \<Rightarrow> basicWorkScore D w x | AccountO x \<Rightarrow> accountWorkScore D w x
     | AnchorO x \<Rightarrow> anchorWorkScore D w x | FoundryO x \<Rightarrow> foundryWorkScore D w x
     | NFTO x \<Rightarrow> nftWorkScore D w x | DelegationO x \<Rightarrow> delegationWorkScore D w x
     | ImplicitAccountO x \<Rightarrow> basicWorkScore D w x)"

definition outputsWorkScore :: "'a deps_scheme \<Rightarrow> work_score_parameters \<Rightarrow> ledger_output list \<Rightarrow> u32 go" where
  "outputsWorkScore D w outputs = workSum D (outWorkScore D w) outputs"

section \<open>Inputs, allotments and unlocks\<close>

definition inputSize :: "'a ledger_deps_scheme \<Rightarrow> utxo_input \<Rightarrow> nat go" where
  "inputSize D u = Inr (serSmallType D + 36 + serUInt16 D)"

definition inputsSize :: "'a ledger_deps_scheme \<Rightarrow> utxo_input list \<Rightarrow> nat go" where
  "inputsSize D xs = sumG (inputSize D) (serUInt16 D) xs"

definition inputWorkScore :: "work_score_parameters \<Rightarrow> utxo_input \<Rightarrow> u32 go" where
  "inputWorkScore w u = Inr (wsp_Input w)"

definition inputsWorkScore :: "'a deps_scheme \<Rightarrow> work_score_parameters \<Rightarrow> utxo_input list \<Rightarrow> u32 go" where
  "inputsWorkScore D w xs = workSum D (inputWorkScore w) xs"

definition ctxSize :: "'a ledger_deps_scheme \<Rightarrow> context_input \<Rightarrow> nat go" where
  "ctxSize D c =
    (case c of
       CommitmentInput _ \<Rightarrow> Inr (serOneByte D + 36)
     | BlockIssuanceCreditInput _ \<Rightarrow> Inr (serOneByte D + 32)
     | RewardInput _ \<Rightarrow> Inr (serOneByte D + serUInt16 D))"

definition ctxsSize :: "'a ledger_deps_scheme \<Rightarrow> context_input list \<Rightarrow> nat go" where
  "ctxsSize D xs = sumG (ctxSize D) (serUInt16 D) xs"

definition ctxWorkScore :: "work_score_parameters \<Rightarrow> context_input \<Rightarrow> u32 go" where
  "ctxWorkScore w c = Inr (wsp_ContextInput w)"

definition ctxsWorkScore :: "'a deps_scheme \<Rightarrow> work_score_parameters \<Rightarrow> context_input list \<Rightarrow> u32 go" where
  "ctxsWorkScore D w xs = workSum D (ctxWorkScore w) xs"

definition allotmentsSize :: "'a ledger_deps_scheme \<Rightarrow> mana_allotment list \<Rightarrow> nat" where
  "allotmentsSize D a = serUInt16 D + length a * (32 + 8)"

definition allotmentsWorkScore :: "'a deps_scheme \<Rightarrow> work_score_parameters \<Rightarrow> mana_allotment list \<Rightarrow> u32 go" where
  "allotmentsWorkScore D w a = liftE (workMultiply D (wsp_Allotment w) (int (length a)))"

text \<open>A call of a method of a nil signature panics.\<close>

definition sigSize :: "'a ledger_deps_scheme \<Rightarrow> ed25519_signature option \<Rightarrow> nat go" where
  "sigSize D s =
    (case s of None \<Rightarrow> Inl (Panic ''nil pointer'') | Some _ \<Rightarrow> Inr (serSmallType D + 32 + 64))"

definition sigWorkScore :: "work_score_parameters \<Rightarrow> ed25519_signature option \<Rightarrow> u32 go" where
  "sigWorkScore w s =
    (case s of None \<Rightarrow> Inl (Panic ''nil pointer'') | Some _ \<Rightarrow> Inr (wsp_SignatureEd25519 w))"

fun unlockSize :: "'a ledger_deps_scheme \<Rightarrow> unlock \<Rightarrow> nat go" where
  "unlockSize D (SignatureUnlock s) = andthen (sigSize D s) (\<lambda>n. Inr (serOneByte D + n))"
| "unlockSize D (MultiUnlock us) = sumG (unlockSize D) (serSmallType D + serSmallType D) us"
| "unlockSize D EmptyUnlock = Inr (serSmallType D)"
| "unlockSize D (ReferenceUnlock _) = Inr (serSmallType D + serUInt16 D)"
| "unlockSize D (AccountUnlock _) = Inr (serSmallType D + serUInt16 D)"
| "unlockSize D (AnchorUnlock _) = Inr (serSmallType D + serUInt16 D)"
| "unlockSize D (NFTUnlock _) = Inr (serSmallType D + serUInt16 D)"

definition unlocksSize :: "'a ledger_deps_scheme \<Rightarrow> unlock list \<Rightarrow> nat go" where
  "unlocksSize D xs = sumG (unlockSize D) (serUInt16 D) xs"

fun unlockWorkScore :: "'a deps_scheme \<Rightarrow> work_score_parameters \<Rightarrow> unlock \<Rightarrow> u32 go" where
  "unlockWorkScore D w (SignatureUnlock s) = sigWorkScore w s"
| "unlockWorkScore D w (MultiUnlock us) = workSum D (unlockWorkScore D w) us"
| "unlockWorkScore D w _ = Inr 0"

definition unlocksWorkScore :: "'a deps_scheme \<Rightarrow> work_score_parameters \<Rightarrow> unlock list \<Rightarrow> u32 go" where
  "unlocksWorkScore D w xs = workSum D (unlockWorkScore D w) xs"

section \<open>Payloads\<close>

definition capabilitiesSize :: "'a ledger_deps_scheme \<Rightarrow> bytes \<Rightarrow> nat" where
  "capabilitiesSize D bm = serSmallType D + length bm"

definition taggedDataSize :: "'a ledger_deps_scheme \<Rightarrow> tagged_data \<Rightarrow> nat" where
  "taggedDataSize D u =
     serSmallType D + serOneByte D + length (td_Tag u) + serUInt32 D + length (td_Data u)"

text \<open>With a payload its length prefix is not counted.\<close>

definition essenceSize :: "'a work_deps_scheme \<Rightarrow> 'b transaction_essence_scheme \<Rightarrow> nat go" where
  "essenceSize D u =
    (let payloadSize = (case te_Payload u of None \<Rightarrow> serPayloadLength D | Some p \<Rightarrow> taggedDataSize D p)
     in andthen (ctxsSize D (te_ContextInputs u)) (\<lambda>c.
        andthen (inputsSize D (te_Inputs u)) (\<lambda>i.
        Inr (8 + 4 + c + i + allotmentsSize D (te_Allotments u) + capabilitiesSize D (te_Capabilities u)
          + payloadSize))))"

definition txSize :: "'a work_deps_scheme \<Rightarrow> transaction \<Rightarrow> nat go" where
  "txSize D t =
    andthen (essenceSize D t) (\<lambda>e. andthen (outputsSize D (tx_Outputs t)) (\<lambda>n. Inr (e + n)))"

definition signedSize :: "'a work_deps_scheme \<Rightarrow> signed_transaction \<Rightarrow> nat go" where
  "signedSize D t =
    andthen (txSize D (st_Transaction t)) (\<lambda>n.
    andthen (unlocksSize D (st_Unlocks t)) (\<lambda>u. Inr (serSmallType D + n + u)))"

definition essenceWorkScore ::
    "'a deps_scheme \<Rightarrow> work_score_parameters \<Rightarrow> 'b transaction_essence_scheme \<Rightarrow> u32 go" where
  "essenceWorkScore D w u =
    andthen (ctxsWorkScore D w (te_ContextInputs u)) (\<lambda>workScoreContextInputs.
    andthen (inputsWorkScore D w (te_Inputs u)) (\<lambda>workScoreInputs.
    andthen (allotmentsWorkScore D w (te_Allotments u)) (\<lambda>workScoreAllotments.
    liftE (workAdd D workScoreContextInputs [workScoreInputs, workScoreAllotments]))))"

definition txWorkScore :: "'a deps_scheme \<Rightarrow> work_score_parameters \<Rightarrow> transaction \<Rightarrow> u32 go" where
  "txWorkScore D w t =
    andthen (essenceWorkScore D w t) (\<lambda>workscoreTransactionEssence.
    andthen (outputsWorkScore D w (tx_Outputs t)) (\<lambda>workScoreOutputs.
    liftE (workAdd D workscoreTransactionEssence [workScoreOutputs])))"

definition signedWorkScore ::
    "'a work_deps_scheme \<Rightarrow> work_score_parameters \<Rightarrow> signed_transaction \<Rightarrow> u32 go" where
  "signedWorkScore D w t =
    andthen (signedSize D t) (\<lambda>n.
    andthen (liftE (workMultiply D (wsp_DataByte w) (int n))) (\<lambda>workScoreSignedTransactionData.
    andthen (txWorkScore D w (st_Transaction t)) (\<lambda>workScoreTransaction.
    andthen (unlocksWorkScore D w (st_Unlocks t)) (\<lambda>workScoreUnlocks.
    liftE (workAdd D (wsp_Block w) [workScoreSignedTransactionData, workScoreTransaction, workScoreUnlocks])))))"

text \<open>Tagged data and candidacy announcements cost the block and their bytes.\<close>

definition taggedDataWorkScore :: "'a ledger_deps_scheme \<Rightarrow> work_score_parameters \<Rightarrow> tagged_data \<Rightarrow> u32 go" where
  "taggedDataWorkScore D w u =
    andthen (liftE (workMultiply D (wsp_DataByte w) (int (taggedDataSize D u)))) (\<lambda>workScoreData.
    liftE (workAdd D (wsp_Block w) [workScoreData]))"

definition candidacySize :: nat where
  "candidacySize = 1"

definition candidacyWorkScore :: "'a deps_scheme \<Rightarrow> work_score_parameters \<Rightarrow> u32 go" where
  "candidacyWorkScore D w =
    andthen (liftE (workMultiply D (wsp_DataByte w) (int candidacySize))) (\<lambda>workScoreData.
    liftE (workAdd D (wsp_Block w) [workScoreData]))"

section \<open>Exact costs\<close>

text \<open>@\<open>costs m P k\<close>: the call succeeds exactly when @\<open>P\<close> holds and the number @\<open>k\<close> fits, and then returns it.\<close>

definition costs :: "u32 go \<Rightarrow> bool \<Rightarrow> nat \<Rightarrow> bool" where
  "costs m P k \<longleftrightarrow> (\<forall>s. m = Inr s \<longleftrightarrow> P \<and> unat s = k)"

lemma costsD: "costs m P k \<Longrightarrow> m = Inr s \<Longrightarrow> P \<and> unat s = k"
  unfolding costs_def by blast

lemma costs_succeeds: "costs m P k \<Longrightarrow> P \<Longrightarrow> unat s = k \<Longrightarrow> m = Inr s"
  unfolding costs_def by blast

lemma costs_Inr: "costs (Inr a) True (unat a)"
  by (auto simp: costs_def word_eq_iff_unat)

lemma costs_panic: "costs (Inl e) False k"
  by (simp add: costs_def)

lemma unat_exists:
  assumes "k \<le> unat (t :: 'w::len word)"
  obtains n :: "'w::len word" where "unat n = k"
proof
  have "k < 2 ^ LENGTH('w)" using assms unat_less_pow [of t] by linarith
  then show "unat (word_of_nat k :: 'w word) = k" by (simp add: unat_of_nat)
qed

lemma costs_bind:
  assumes "costs m P k" "\<And>x. costs (f x) Q (unat x + j)"
  shows "costs (andthen m f) (P \<and> Q) (k + j)"
  unfolding costs_def
proof (intro allI iffI)
  fix s assume "andthen m f = Inr s"
  then obtain x where "m = Inr x" "f x = Inr s" by (auto simp: andthen_eq_Inr)
  then show "(P \<and> Q) \<and> unat s = k + j"
    using costsD [OF assms(1), of x] costsD [OF assms(2), of x s] by simp
next
  fix s :: u32 assume r: "(P \<and> Q) \<and> unat s = k + j"
  then have "k \<le> unat s" by simp
  then obtain x :: u32 where "unat x = k" by (rule unat_exists)
  with r have m: "m = Inr x" and f: "f x = Inr s"
    by (auto intro: costs_succeeds [OF assms(1)] costs_succeeds [OF assms(2)])
  show "andthen m f = Inr s" by (simp only: m f andthen_Inr)
qed

lemma costs_eq: "costs m P k \<Longrightarrow> P = Q \<Longrightarrow> k = j \<Longrightarrow> costs m Q j"
  by simp

lemma costs_bindI:
  "costs m P k \<Longrightarrow> (\<And>x. costs (f x) Q (unat x + j)) \<Longrightarrow> R = (P \<and> Q) \<Longrightarrow> n = k + j \<Longrightarrow> costs (andthen m f) R n"
  using costs_bind by simp

lemma workAdd_exact:
  assumes "safemath32 D"
  shows "workAdd D r xs = Inr s \<longleftrightarrow> unat s = unat r + (\<Sum>x\<leftarrow>xs. unat x)"
proof (induction xs arbitrary: r)
  case Nil
  show ?case by (auto simp: word_eq_iff_unat)
next
  case (Cons x xs)
  have "workAdd D r (x # xs) = Inr s \<longleftrightarrow> (\<exists>t. SafeAdd32 D r x = Inr t \<and> workAdd D t xs = Inr s)"
    by (simp split: sum.splits)
  also have "\<dots> \<longleftrightarrow> (\<exists>t :: u32. unat t = unat r + unat x \<and> unat s = unat t + (\<Sum>x\<leftarrow>xs. unat x))"
    by (simp add: Cons.IH checked_arith.add_Inr_iff [OF assms])
  also have "\<dots> \<longleftrightarrow> unat s = unat r + (\<Sum>x\<leftarrow>x # xs. unat x)" (is "?L = ?R")
  proof
    assume ?R
    then have "unat r + unat x \<le> unat s" by simp
    then obtain t :: u32 where "unat t = unat r + unat x" by (rule unat_exists)
    with \<open>?R\<close> show ?L by (intro exI [of _ t]) simp
  qed auto
  finally show ?case .
qed

declare workAdd.simps [simp del]

lemma workMultiply_exact:
  assumes "safemath32 D" "0 \<le> n" "n < 2 ^ 32"
  shows "workMultiply D w n = Inr s \<longleftrightarrow> unat s = unat w * nat n"
proof -
  have "unat (word_of_int n :: u32) = nat n"
    using assms(2,3) by (simp add: unat_eq_nat_uint uint_word_of_int)
  moreover have "workMultiply D w n = Inr s \<longleftrightarrow> SafeMul32 D w (word_of_int n) = Inr s"
    by (simp add: workMultiply_def split: sum.splits)
  ultimately show ?thesis by (simp add: checked_arith.mul_Inr_iff [OF assms(1)])
qed

lemma costs_mult:
  "safemath32 D \<Longrightarrow> 0 \<le> n \<Longrightarrow> n < 2 ^ 32 \<Longrightarrow> costs (liftE (workMultiply D w n)) True (unat w * nat n)"
  by (simp add: costs_def workMultiply_exact)

lemma costs_add: "safemath32 D \<Longrightarrow> costs (liftE (workAdd D r xs)) True (unat r + (\<Sum>x\<leftarrow>xs. unat x))"
  by (simp add: costs_def workAdd_exact)

text \<open>The shapes of the methods: evaluate up to four parts, then add.\<close>

lemma costs_add1:
  assumes D: "safemath32 D" and "costs a P i"
  shows "costs (andthen a (\<lambda>x. liftE (workAdd D r [x]))) P (unat r + i)"
  by (rule costs_bindI [OF assms(2) costs_eq [OF costs_add [OF D] refl]]) simp_all

lemma costs_add2:
  assumes D: "safemath32 D" and "costs a P i" "costs b Q j"
  shows "costs (andthen a (\<lambda>x. andthen b (\<lambda>y. liftE (workAdd D r [x, y])))) (P \<and> Q) (unat r + i + j)"
  by (rule costs_bindI [OF assms(2) costs_bindI [OF assms(3) costs_eq [OF costs_add [OF D] refl] refl]]) simp_all

lemma costs_add3:
  assumes D: "safemath32 D" and "costs a P i" "costs b Q j" "costs c R k"
  shows "costs (andthen a (\<lambda>x. andthen b (\<lambda>y. andthen c (\<lambda>z. liftE (workAdd D r [x, y, z])))))
    (P \<and> Q \<and> R) (unat r + i + j + k)"
  by (rule costs_bindI [OF assms(2) costs_bindI [OF assms(3) costs_bindI [OF assms(4)
    costs_eq [OF costs_add [OF D] refl] refl] refl]]) simp_all

lemma costs_sum:
  assumes D: "safemath32 D" and step: "\<And>x. x \<in> set xs \<Longrightarrow> costs (f x) (P x) (g x)"
  shows "costs (workSum D f xs) (\<forall>x \<in> set xs. P x) (\<Sum>x\<leftarrow>xs. g x)"
proof -
  have "costs (foldG (\<lambda>s x. andthen (f x) (\<lambda>n. liftE (workAdd D s [n]))) s xs) (\<forall>x \<in> set xs. P x)
      (unat s + (\<Sum>x\<leftarrow>xs. g x))" for s
    using step
  proof (induction xs arbitrary: s)
    case Nil
    show ?case using costs_Inr [of s] by simp
  next
    case (Cons x xs)
    have hd: "costs (andthen (f x) (\<lambda>n. liftE (workAdd D s [n]))) (P x) (unat s + g x)"
      by (rule costs_add1 [OF D]) (simp add: Cons.prems)
    have tl: "costs (foldG (\<lambda>s x. andthen (f x) (\<lambda>n. liftE (workAdd D s [n]))) t xs) (\<forall>x \<in> set xs. P x)
        (unat t + (\<Sum>x\<leftarrow>xs. g x))" for t
      using Cons by simp
    from costs_bind [OF hd tl] show ?case by (simp add: add.assoc)
  qed
  from this [of 0] show ?thesis by (simp add: workSum_def)
qed

section \<open>The cost of a transaction\<close>

definition featWork :: "work_score_parameters \<Rightarrow> feature \<Rightarrow> nat" where
  "featWork w c = (case c of BlockIssuerF _ \<Rightarrow> unat (wsp_BlockIssuer w) | NativeTokenF _ _ \<Rightarrow> unat (wsp_NativeToken w)
     | StakingF _ \<Rightarrow> unat (wsp_Staking w) | _ \<Rightarrow> 0)"

definition outWork :: "work_score_parameters \<Rightarrow> ledger_output \<Rightarrow> nat" where
  "outWork w out = unat (wsp_Output w) + (case out of FoundryO _ \<Rightarrow> unat (wsp_NativeToken w) | _ \<Rightarrow> 0)
     + (\<Sum>f\<leftarrow>outFeatures out. featWork w f)
     + (case out of DelegationO _ \<Rightarrow> 0 | _ \<Rightarrow> (\<Sum>f\<leftarrow>immutableFeatures out. featWork w f))"

fun sigCount :: "unlock \<Rightarrow> nat" where
  "sigCount (SignatureUnlock s) = 1"
| "sigCount (MultiUnlock us) = (\<Sum>u\<leftarrow>us. sigCount u)"
| "sigCount _ = 0"

fun hasSignatures :: "unlock \<Rightarrow> bool" where
  "hasSignatures (SignatureUnlock s) = (s \<noteq> None)"
| "hasSignatures (MultiUnlock us) = (\<forall>u \<in> set us. hasSignatures u)"
| "hasSignatures _ = True"

definition txWork :: "work_score_parameters \<Rightarrow> signed_transaction \<Rightarrow> nat" where
  "txWork w st = (let t = st_Transaction st in
     unat (wsp_ContextInput w) * length (te_ContextInputs t) + unat (wsp_Input w) * length (te_Inputs t)
     + unat (wsp_Allotment w) * length (te_Allotments t) + (\<Sum>out\<leftarrow>tx_Outputs t. outWork w out)
     + unat (wsp_SignatureEd25519 w) * (\<Sum>u\<leftarrow>st_Unlocks st. sigCount u))"

lemma ucs_cost: "safemath32 D \<Longrightarrow> costs (ucsWorkScore D w cs) True 0"
  unfolding ucsWorkScore_def
  using costs_sum [of D cs "ucWorkScore w" "\<lambda>_. True" "\<lambda>_. 0"] costs_Inr [of 0] by (simp add: ucWorkScore_def)

lemma feats_cost: "safemath32 D \<Longrightarrow> costs (featsWorkScore D w fs) True (\<Sum>f\<leftarrow>fs. featWork w f)"
  unfolding featsWorkScore_def
  using costs_sum [of D fs "featWorkScore w" "\<lambda>_. True" "featWork w"] costs_Inr costs_Inr [of 0]
  by (simp add: featWorkScore_def featWork_def split: feature.splits)

lemma out_cost:
  assumes "safemath32 D"
  shows "costs (outWorkScore D w out) True (outWork w out)"
proof -
  note [simp] = outWorkScore_def outWork_def immutableFeatures_def
  note u = ucs_cost [OF assms] and f = feats_cost [OF assms]
  show ?thesis
  proof (cases out)
    case (BasicO x)
    then show ?thesis using costs_add2 [OF assms u f] by (simp add: basicWorkScore_def)
  next
    case (AccountO x)
    then show ?thesis using costs_add3 [OF assms u f f] by (simp add: accountWorkScore_def)
  next
    case (AnchorO x)
    then show ?thesis using costs_add3 [OF assms u f f] by (simp add: anchorWorkScore_def)
  next
    case (FoundryO x)
    have "costs (andthen (ucsWorkScore D w cs) (\<lambda>x. andthen (featsWorkScore D w j) (\<lambda>y.
          andthen (featsWorkScore D w i) (\<lambda>z. liftE (workAdd D (wsp_Output w) [wsp_NativeToken w, x, y, z]))))) True
        (unat (wsp_Output w) + unat (wsp_NativeToken w) + (\<Sum>f\<leftarrow>j. featWork w f) + (\<Sum>f\<leftarrow>i. featWork w f))" for cs i j
      by (rule costs_bindI [OF u costs_bindI [OF f costs_bindI [OF f costs_eq [OF costs_add [OF assms] refl] refl] refl]])
        simp_all
    from this FoundryO show ?thesis
      by (simp add: foundryWorkScore_def schemeWorkScore_def)
  next
    case (NFTO x)
    then show ?thesis using costs_add3 [OF assms u f f] by (simp add: nftWorkScore_def)
  next
    case (DelegationO x)
    then show ?thesis using costs_add1 [OF assms u] by (simp add: delegationWorkScore_def)
  next
    case (ImplicitAccountO x)
    then show ?thesis using costs_add2 [OF assms u f] by (simp add: basicWorkScore_def)
  qed
qed

lemma unlock_cost:
  assumes "safemath32 D"
  shows "costs (unlockWorkScore D w u) (hasSignatures u) (unat (wsp_SignatureEd25519 w) * sigCount u)"
proof (induction u)
  case (SignatureUnlock s)
  then show ?case using costs_Inr by (cases s) (simp_all add: sigWorkScore_def costs_panic)
next
  case (MultiUnlock us)
  from costs_sum [OF assms this] show ?case by (simp add: sum_list_const_mult)
qed (use costs_Inr [of 0] in simp_all)

lemma const_cost:
  assumes "safemath32 D" "\<And>x. f x = Inr c"
  shows "costs (workSum D f xs) True (unat c * length xs)"
  using costs_sum [OF assms(1), of xs f "\<lambda>_. True" "\<lambda>_. unat c"] costs_Inr
  by (simp add: assms(2) sum_list_triv mult.commute)

text \<open>A size exists only if no signature is missing.\<close>

lemma sumG_elements: "sumG f s xs = Inr n \<Longrightarrow> x \<in> set xs \<Longrightarrow> ok (f x)"
  by (induction xs arbitrary: s) (auto simp: sumG_def andthen_eq_Inr ok_iff)

lemma unlockSize_signed: "ok (unlockSize D u) \<Longrightarrow> hasSignatures u"
proof (induction u)
  case (SignatureUnlock s)
  then show ?case by (auto simp: ok_iff andthen_eq_Inr sigSize_def split: option.splits)
next
  case (MultiUnlock us)
  have "ok (unlockSize D u)" if "u \<in> set us" for u
    using MultiUnlock.prems that sumG_elements by (auto simp: ok_iff [of "sumG f s xs" for f s xs])
  with MultiUnlock.IH show ?case by simp
qed simp_all

lemma tx_cost:
  assumes D: "safemath32 D" and len: "length (te_Allotments t) < 2 ^ 32"
  shows "costs (txWorkScore D w t) True
    (unat (wsp_ContextInput w) * length (te_ContextInputs t) + unat (wsp_Input w) * length (te_Inputs t)
     + unat (wsp_Allotment w) * length (te_Allotments t) + (\<Sum>out\<leftarrow>tx_Outputs t. outWork w out))"
proof -
  have c: "costs (ctxsWorkScore D w xs) True (unat (wsp_ContextInput w) * length xs)" for xs
    unfolding ctxsWorkScore_def by (rule const_cost [OF D]) (simp add: ctxWorkScore_def)
  have i: "costs (inputsWorkScore D w xs) True (unat (wsp_Input w) * length xs)" for xs
    unfolding inputsWorkScore_def by (rule const_cost [OF D]) (simp add: inputWorkScore_def)
  have a: "costs (allotmentsWorkScore D w (te_Allotments t)) True (unat (wsp_Allotment w) * length (te_Allotments t))"
    using costs_mult [OF D, of "int (length (te_Allotments t))"] len by (simp add: allotmentsWorkScore_def)
  have o: "costs (outputsWorkScore D w outs) True (\<Sum>out\<leftarrow>outs. outWork w out)" for outs
    unfolding outputsWorkScore_def using costs_sum [OF D out_cost [OF D]] by simp
  have e: "costs (essenceWorkScore D w t) True (unat (wsp_ContextInput w) * length (te_ContextInputs t)
      + unat (wsp_Input w) * length (te_Inputs t) + unat (wsp_Allotment w) * length (te_Allotments t))"
    unfolding essenceWorkScore_def
    by (rule costs_bindI [OF c costs_bindI [OF i costs_bindI [OF a costs_eq [OF costs_add [OF D] refl] refl] refl]])
      simp_all
  show ?thesis unfolding txWorkScore_def
    by (rule costs_bindI [OF e costs_bindI [OF o costs_eq [OF costs_add [OF D] refl] refl]]) simp_all
qed

lemma signed_cost:
  assumes D: "safemath32 D" and n: "signedSize D st = Inr n" "n < 2 ^ 32"
    and len: "length (te_Allotments (st_Transaction st)) < 2 ^ 32"
  shows "costs (signedWorkScore D w st) True (unat (wsp_Block w) + unat (wsp_DataByte w) * n + txWork w st)"
proof -
  from n(1) have "\<forall>u \<in> set (st_Unlocks st). hasSignatures u"
    by (auto simp: signedSize_def unlocksSize_def andthen_eq_Inr dest: sumG_elements unlockSize_signed)
  then have u: "costs (unlocksWorkScore D w (st_Unlocks st)) True
      (unat (wsp_SignatureEd25519 w) * (\<Sum>u\<leftarrow>st_Unlocks st. sigCount u))"
    unfolding unlocksWorkScore_def using costs_sum [OF D, of "st_Unlocks st" "unlockWorkScore D w", OF unlock_cost [OF D]]
    by (simp add: sum_list_const_mult)
  have d: "costs (liftE (workMultiply D (wsp_DataByte w) (int n))) True (unat (wsp_DataByte w) * n)"
    using costs_mult [OF D, of "int n"] n(2) by simp
  show ?thesis unfolding signedWorkScore_def n(1) andthen_Inr
    by (rule costs_bindI [OF d costs_bindI [OF tx_cost [OF D len] costs_bindI [OF u
        costs_eq [OF costs_add [OF D] refl] refl] refl]])
      (simp_all add: txWork_def Let_def)
qed

text \<open>C29: the work score of a signed transaction is the sum of the block offset, its bytes, inputs, context
  inputs, allotments, outputs with their features and token schemes, and signatures, each at its price;
  it is an error exactly when that sum does not fit into 32 bits.\<close>

theorem work_score_exact:
  assumes "safemath32 D" "signedSize D st = Inr n" "n < 2 ^ 32"
    and "length (te_Allotments (st_Transaction st)) < 2 ^ 32"
  shows "signedWorkScore D w st = Inr s \<longleftrightarrow>
    unat s = unat (wsp_Block w) + unat (wsp_DataByte w) * n + txWork w st"
  using costs_succeeds [OF signed_cost [OF assms]] costsD [OF signed_cost [OF assms]] by blast

section \<open>The largest score\<close>

lemma addWorkScore_exact:
  assumes D: "safemath32 D" and n: "\<forall>(a, n) \<in> set fs. 0 \<le> n \<and> n < 2 ^ 32"
  shows "fold (addWorkScore D) fs (e, r) = (None, m) \<longleftrightarrow>
    e = None \<and> unat m = unat r + (\<Sum>(a, n)\<leftarrow>fs. unat a * nat n)"
  using n
proof (induction fs arbitrary: e r)
  case Nil
  show ?case by (auto simp: word_eq_iff_unat)
next
  case (Cons x fs)
  obtain a n where x: "x = (a, n)" by force
  have n: "0 \<le> n" "n < 2 ^ 32" using Cons.prems x by auto
  have step: "addWorkScore D (a, n) (e, r) = (None, t) \<longleftrightarrow> e = None \<and> unat t = unat r + unat a * nat n" for t
  proof -
    have "addWorkScore D (a, n) (e, r) = (None, t) \<longleftrightarrow>
        e = None \<and> (\<exists>k. workMultiply D a n = Inr k \<and> workAdd D r [k] = Inr t)"
      by (auto simp: addWorkScore_def Let_def split: sum.splits)
    also have "\<dots> \<longleftrightarrow> e = None \<and> (\<exists>k :: u32. unat k = unat a * nat n \<and> unat t = unat r + unat k)"
      by (simp add: workMultiply_exact [OF D n] workAdd_exact [OF D])
    also have "\<dots> \<longleftrightarrow> e = None \<and> unat t = unat r + unat a * nat n"
    proof -
      have "\<exists>k :: u32. unat k = unat a * nat n \<and> unat t = unat r + unat k" if t: "unat t = unat r + unat a * nat n"
      proof -
        from t have "unat a * nat n \<le> unat t" by simp
        then obtain k :: u32 where "unat k = unat a * nat n" by (rule unat_exists)
        with t show ?thesis by (intro exI [of _ k]) simp
      qed
      then show ?thesis by auto
    qed
    finally show ?thesis .
  qed
  obtain e' t where s: "addWorkScore D (a, n) (e, r) = (e', t)" by force
  have "fold (addWorkScore D) (x # fs) (e, r) = (None, m) \<longleftrightarrow>
      e' = None \<and> unat m = unat t + (\<Sum>(a, n)\<leftarrow>fs. unat a * nat n)"
    using Cons by (simp add: x s)
  also have "\<dots> \<longleftrightarrow> e = None \<and> unat m = unat r + (\<Sum>(a, n)\<leftarrow>x # fs. unat a * nat n)"
  proof
    assume *: "e' = None \<and> unat m = unat t + (\<Sum>(a, n)\<leftarrow>fs. unat a * nat n)"
    then show "e = None \<and> unat m = unat r + (\<Sum>(a, n)\<leftarrow>x # fs. unat a * nat n)"
      using step [of t] s by (simp add: x)
  next
    assume *: "e = None \<and> unat m = unat r + (\<Sum>(a, n)\<leftarrow>x # fs. unat a * nat n)"
    then have "unat r + unat a * nat n \<le> unat m" by (simp add: x)
    then obtain t' :: u32 where t': "unat t' = unat r + unat a * nat n" by (rule unat_exists)
    with * step [of t'] s show "e' = None \<and> unat m = unat t + (\<Sum>(a, n)\<leftarrow>fs. unat a * nat n)"
      by (simp add: x)
  qed
  finally show ?case .
qed

lemma MaxBlockWork_exact:
  assumes D: "safemath32 D" and "0 \<le> MaxPayloadSize D"
  shows "MaxBlockWork D w = Inr m \<longleftrightarrow>
    unat m = unat (wsp_DataByte w) * nat (MaxPayloadSize D) + unat (wsp_Block w) + 128 * unat (wsp_Input w)
      + 128 * unat (wsp_ContextInput w) + 128 * unat (wsp_Output w) + 128 * unat (wsp_NativeToken w)
      + 128 * unat (wsp_Staking w) + 128 * unat (wsp_BlockIssuer w) + 128 * unat (wsp_Allotment w)
      + 1280 * unat (wsp_SignatureEd25519 w)"
proof -
  have "MaxPayloadSize D < 2 ^ 32" by (simp add: MaxPayloadSize_def MaxBlockSize_def)
  then have f: "\<forall>(a, n) \<in> set (blockWorkFactors D w). 0 \<le> n \<and> n < 2 ^ 32"
    using assms(2) by (simp add: blockWorkFactors_def)
  have "MaxBlockWork D w = Inr m \<longleftrightarrow> fold (addWorkScore D) (blockWorkFactors D w) (None, 0) = (None, m)"
    by (auto simp: MaxBlockWork_def split: prod.splits option.splits)
  also have "\<dots> \<longleftrightarrow> unat m = (\<Sum>(a, n)\<leftarrow>blockWorkFactors D w. unat a * nat n)"
    using addWorkScore_exact [OF D f, of None 0 m] by simp
  also have "(\<Sum>(a, n)\<leftarrow>blockWorkFactors D w. unat a * nat n) = unat (wsp_DataByte w) * nat (MaxPayloadSize D)
      + unat (wsp_Block w) + 128 * unat (wsp_Input w)
      + 128 * unat (wsp_ContextInput w) + 128 * unat (wsp_Output w) + 128 * unat (wsp_NativeToken w)
      + 128 * unat (wsp_Staking w) + 128 * unat (wsp_BlockIssuer w) + 128 * unat (wsp_Allotment w)
      + 1280 * unat (wsp_SignatureEd25519 w)"
    by (simp add: blockWorkFactors_def)
  finally show ?thesis .
qed

end
