(* ===== verification/Work_Bound.thy ===== *)
theory Work_Bound
  imports Work_Score
begin

text \<open>
  How the work score of a signed transaction compares with @\<open>MaxBlockWork\<close>, which its comment calls an
  overestimation of the score of any block.  It bounds every accepted transaction without foundries
  that carry a native token; each such foundry can add the price of one native token, because the token
  scheme is charged as one.  A concrete transaction exceeds the bound.
\<close>

section \<open>Limits of the serialization\<close>

text \<open>The array rules api_v3.go registers for the lists of a transaction; a multi unlock has at most ten
  members (unlock_multi.go).\<close>

definition txListRules :: "signed_transaction \<Rightarrow> bool" where
  "txListRules st \<longleftrightarrow> (let t = st_Transaction st in
       0 \<le> length (te_ContextInputs t) \<and> length (te_ContextInputs t) \<le> 128
     \<and> 1 \<le> length (te_Inputs t) \<and> length (te_Inputs t) \<le> 128
     \<and> 1 \<le> length (tx_Outputs t) \<and> length (tx_Outputs t) \<le> 128
     \<and> 0 \<le> length (te_Allotments t) \<and> length (te_Allotments t) \<le> 128
     \<and> 1 \<le> length (st_Unlocks st) \<and> length (st_Unlocks st) \<le> 128)"

definition multiUnlockRule :: "unlock \<Rightarrow> bool" where
  "multiUnlockRule u \<longleftrightarrow> (case u of MultiUnlock us \<Rightarrow> 2 \<le> length us \<and> length us \<le> 10 | _ \<Rightarrow> True)"

definition decodedTx :: "signed_transaction \<Rightarrow> bool" where
  "decodedTx st \<longleftrightarrow> txListRules st \<and> list_all decoded (tx_Outputs (st_Transaction st))
     \<and> list_all multiUnlockRule (st_Unlocks st)"

section \<open>Bounds of the parts\<close>

definition isNativeToken :: "feature \<Rightarrow> bool" where
  "isNativeToken f = (case f of NativeTokenF _ _ \<Rightarrow> True | _ \<Rightarrow> False)"

definition tokenFoundry :: "ledger_output \<Rightarrow> bool" where
  "tokenFoundry out = (case out of FoundryO x \<Rightarrow> list_ex isNativeToken (fo_Features x) | _ \<Rightarrow> False)"

definition typeWork :: "work_score_parameters \<Rightarrow> u8 \<Rightarrow> nat" where
  "typeWork w t = (if t = 5 then unat (wsp_NativeToken w) else if t = 6 then unat (wsp_BlockIssuer w)
     else if t = 7 then unat (wsp_Staking w) else 0)"

lemma featWork_type: "featWork w f = typeWork w (featType f)"
  by (cases f) (simp_all add: featWork_def typeWork_def)

lemma featWork_sum:
  assumes "distinct (map featType fs)"
  shows "(\<Sum>f\<leftarrow>fs. featWork w f) = (\<Sum>t \<in> featType ` set fs. typeWork w t)"
proof -
  have "(\<Sum>f\<leftarrow>fs. featWork w f) = sum_list (map (typeWork w) (map featType fs))"
    by (simp add: featWork_type [abs_def] comp_def)
  also have "\<dots> = (\<Sum>t \<in> set (map featType fs). typeWork w t)"
    by (rule sum_list_distinct_conv_sum_set [OF assms])
  finally show ?thesis by simp
qed

lemma featWork_bound:
  assumes "distinct (map featType fs)"
  shows "(\<Sum>f\<leftarrow>fs. featWork w f) \<le> unat (wsp_NativeToken w) + unat (wsp_BlockIssuer w) + unat (wsp_Staking w)"
proof -
  have "(\<Sum>t \<in> featType ` set fs. typeWork w t) = (\<Sum>t \<in> featType ` set fs \<inter> {5, 6, 7}. typeWork w t)"
    by (rule sum.mono_neutral_right) (auto simp: typeWork_def)
  also have "\<dots> \<le> (\<Sum>t \<in> {5, 6, 7}. typeWork w t)" by (rule sum_mono2) auto
  also have "\<dots> = unat (wsp_NativeToken w) + unat (wsp_BlockIssuer w) + unat (wsp_Staking w)"
    by (simp add: typeWork_def)
  finally show ?thesis by (simp add: featWork_sum [OF assms])
qed

lemma immutable_free:
  assumes "decoded out"
  shows "(\<Sum>f\<leftarrow>immutableFeatures out. featWork w f) = 0"
proof -
  have "featWork w f = 0" if "f \<in> set (immutableFeatures out)" for f
    using assms that by (auto simp: decoded_def obeys_def list_all_iff immFeatBlocksArrRules_def featWork_type typeWork_def
        split: ledger_output.splits)
  then show ?thesis by simp
qed

lemma foundry_features:
  assumes "decoded (FoundryO x)" "\<not> tokenFoundry (FoundryO x)"
  shows "(\<Sum>f\<leftarrow>fo_Features x. featWork w f) = 0"
proof -
  have "featWork w f = 0" if "f \<in> set (fo_Features x)" for f
  proof -
    have "featType f \<in> {2, 5}" using assms(1) that
      by (auto simp: decoded_def obeys_def list_all_iff featBlocksArrRules_def)
    moreover have "featType f \<noteq> 5" using assms(2) that
      by (auto simp: tokenFoundry_def list_ex_iff isNativeToken_def)
    ultimately have "featType f = 2" by simp
    then show ?thesis by (auto simp: featWork_def)
  qed
  then show ?thesis by simp
qed

lemma outWork_bound:
  assumes "decoded out" "distinct (map featType (outFeatures out))"
  shows "outWork w out \<le> unat (wsp_Output w) + unat (wsp_NativeToken w) + unat (wsp_BlockIssuer w)
    + unat (wsp_Staking w) + (if tokenFoundry out then unat (wsp_NativeToken w) else 0)"
proof -
  have run: "outWork w out = unat (wsp_Output w) + (case out of FoundryO _ \<Rightarrow> unat (wsp_NativeToken w) | _ \<Rightarrow> 0)
     + (\<Sum>f\<leftarrow>outFeatures out. featWork w f)"
    unfolding outWork_def immutable_free [OF assms(1)] by (simp split: ledger_output.split)
  note feats = featWork_bound [OF assms(2), of w]
  show ?thesis
  proof (cases out)
    case (FoundryO x)
    show ?thesis
    proof (cases "tokenFoundry out")
      case True
      with feats show ?thesis by (simp add: run [unfolded FoundryO] FoundryO)
    next
      case False
      have zero: "(\<Sum>f\<leftarrow>fo_Features x. featWork w f) = 0"
        using foundry_features assms(1) False unfolding FoundryO by blast
      show ?thesis using False by (simp add: run [unfolded FoundryO] FoundryO zero)
    qed
  qed (use run feats in \<open>simp_all add: tokenFoundry_def\<close>)
qed

lemma outputs_bound:
  assumes "\<forall>out \<in> set outs. decoded out \<and> distinct (map featType (outFeatures out))"
  shows "(\<Sum>out\<leftarrow>outs. outWork w out) \<le> length outs * (unat (wsp_Output w) + unat (wsp_NativeToken w)
      + unat (wsp_BlockIssuer w) + unat (wsp_Staking w))
    + length (filter tokenFoundry outs) * unat (wsp_NativeToken w)"
  using assms
proof (induction outs)
  case (Cons out outs)
  then show ?case using outWork_bound [of out w] by (auto simp: algebra_simps)
qed simp

text \<open>The members of an accepted multi unlock hold one signature at most.\<close>

lemma member_signatures: "(\<forall>us. v \<noteq> MultiUnlock us) \<Longrightarrow> sigCount v \<le> 1"
  by (cases v) simp_all

lemma unlock_signatures:
  assumes "unlockFit ys u" "multiUnlockRule u"
  shows "sigCount u \<le> 10"
proof (cases u)
  case (MultiUnlock us)
  have "sigCount v \<le> 1" if "v \<in> set us" for v
    by (rule member_signatures) (use assms(1) MultiUnlock that in \<open>auto simp: unlockFit_def memberFit_def\<close>)
  then have "(\<Sum>v\<leftarrow>us. sigCount v) \<le> (\<Sum>v\<leftarrow>us. 1)" by (rule sum_list_mono)
  then have "(\<Sum>v\<leftarrow>us. sigCount v) \<le> length us" by (simp add: sum_list_triv)
  with MultiUnlock assms(2) show ?thesis by (simp add: multiUnlockRule_def)
qed simp_all

lemma signatures_bound:
  assumes "ValidateUnlocksSyntax D us = Inr ()" "length us \<le> 128" "list_all multiUnlockRule us"
  shows "(\<Sum>u\<leftarrow>us. sigCount u) \<le> 1280"
proof -
  have "sigCount u \<le> 10" if u: "u \<in> set us" for u
  proof -
    from u obtain i where i: "i < length us" "u = us ! i" by (auto simp: in_set_conv_nth)
    have "length us \<le> 65536" using assms(2) by simp
    from fit_of_accepted [OF assms(1) this i(1)] show ?thesis
      using assms(3) u i(2) by (auto simp: list_all_iff intro: unlock_signatures)
  qed
  then have "(\<Sum>u\<leftarrow>us. sigCount u) \<le> (\<Sum>u\<leftarrow>us. 10)" by (intro sum_list_mono) simp
  also have "\<dots> \<le> 1280" using assms(2) by (simp add: sum_list_triv)
  finally show ?thesis .
qed

section \<open>The bound\<close>

definition tokenFoundries :: "signed_transaction \<Rightarrow> nat" where
  "tokenFoundries st = length (filter tokenFoundry (tx_Outputs (st_Transaction st)))"

lemma txWork_bound:
  assumes D: "safemath64 D" "safemath32 D" and m: "MaxBlockWork D w = Inr m"
    and acc: "signedSyntacticallyValidate D api st = Inr ()" and dec: "decodedTx st"
    and n: "int n \<le> MaxPayloadSize D"
  shows "unat (wsp_Block w) + unat (wsp_DataByte w) * n + txWork w st
    \<le> unat m + tokenFoundries st * unat (wsp_NativeToken w)"
proof -
  let ?t = "st_Transaction st"
  have outs: "SyntacticallyValidateOutputs D api (maxManaValue api) (txCommitmentInput ?t \<noteq> None) (tx_Outputs ?t) = Inr ()"
    and us: "ValidateUnlocksSyntax D (st_Unlocks st) = Inr ()"
    using acc by (auto simp: signedSyntacticallyValidate_def SyntacticallyValidate_def Let_def andthen_eq_Inr if_throw_eq_Inr)
  have "\<forall>out \<in> set (tx_Outputs ?t). distinct (map featType (outFeatures out))"
    using SyntacticallyValidateOutputs_iff [OF D(1), THEN iffD1, OF outs] feature_types_accepted by blast
  then have o: "(\<Sum>out\<leftarrow>tx_Outputs ?t. outWork w out) \<le> length (tx_Outputs ?t) * (unat (wsp_Output w)
      + unat (wsp_NativeToken w) + unat (wsp_BlockIssuer w) + unat (wsp_Staking w))
      + tokenFoundries st * unat (wsp_NativeToken w)"
    unfolding tokenFoundries_def by (intro outputs_bound) (use dec in \<open>simp add: decodedTx_def list_all_iff\<close>)
  have len: "length (te_ContextInputs ?t) \<le> 128" "length (te_Inputs ?t) \<le> 128" "length (tx_Outputs ?t) \<le> 128"
    "length (te_Allotments ?t) \<le> 128" "length (st_Unlocks st) \<le> 128"
    using dec by (simp_all add: decodedTx_def txListRules_def Let_def)
  have s: "(\<Sum>u\<leftarrow>st_Unlocks st. sigCount u) \<le> 1280"
    using signatures_bound [OF us] len dec by (simp add: decodedTx_def)
  have pos: "0 \<le> MaxPayloadSize D" using n by simp
  note m' = MaxBlockWork_exact [OF D(2) pos, THEN iffD1, OF m]
  have "unat (wsp_DataByte w) * n \<le> unat (wsp_DataByte w) * nat (MaxPayloadSize D)"
    using n by (intro mult_le_mono2) simp
  moreover have c: "unat a * k \<le> j * unat a" if "k \<le> j" for a :: u32 and j k
    using that by simp
  have "unat (wsp_ContextInput w) * length (te_ContextInputs ?t) \<le> 128 * unat (wsp_ContextInput w)"
    "unat (wsp_Input w) * length (te_Inputs ?t) \<le> 128 * unat (wsp_Input w)"
    "unat (wsp_Allotment w) * length (te_Allotments ?t) \<le> 128 * unat (wsp_Allotment w)"
    "unat (wsp_SignatureEd25519 w) * (\<Sum>u\<leftarrow>st_Unlocks st. sigCount u) \<le> 1280 * unat (wsp_SignatureEd25519 w)"
    by (rule c, rule len s)+
  moreover have "length (tx_Outputs ?t) * (unat (wsp_Output w) + unat (wsp_NativeToken w)
      + unat (wsp_BlockIssuer w) + unat (wsp_Staking w))
      \<le> 128 * unat (wsp_Output w) + 128 * unat (wsp_NativeToken w)
        + 128 * unat (wsp_BlockIssuer w) + 128 * unat (wsp_Staking w)"
    using mult_le_mono1 [OF len(3), of "unat (wsp_Output w) + unat (wsp_NativeToken w)
      + unat (wsp_BlockIssuer w) + unat (wsp_Staking w)"] by (simp only: distrib_left)
  ultimately show ?thesis using o unfolding txWork_def Let_def m' by linarith
qed

text \<open>C30: the work score of an accepted transaction of at most the largest payload size stays within
  @\<open>MaxBlockWork\<close> and is no error, unless foundries in it carry native tokens; each of these adds at most
  the price of a native token.\<close>

theorem max_block_work_bounds:
  assumes "safemath64 D" "safemath32 D" "MaxBlockWork D w = Inr m"
    and "signedSyntacticallyValidate D api st = Inr ()" "decodedTx st"
    and "signedSize D st = Inr n" "int n \<le> MaxPayloadSize D"
  shows "(\<forall>s. signedWorkScore D w st = Inr s \<longrightarrow> unat s \<le> unat m + tokenFoundries st * unat (wsp_NativeToken w))
    \<and> (tokenFoundries st = 0 \<longrightarrow> (\<exists>s. signedWorkScore D w st = Inr s \<and> s \<le> m))"
proof -
  note bound = txWork_bound [OF assms(1-5,7)]
  have "MaxPayloadSize D < 2 ^ 32" by (simp add: MaxPayloadSize_def MaxBlockSize_def)
  then have "int n < 2 ^ 32" using assms(7) by linarith
  then have n: "n < 2 ^ 32" by simp
  have "length (te_Allotments (st_Transaction st)) \<le> 128"
    using assms(5) by (simp add: decodedTx_def txListRules_def Let_def)
  then have "length (te_Allotments (st_Transaction st)) < 2 ^ 32" by simp
  note exact = signed_cost [OF assms(2,6) n this, of w]
  have "\<exists>s. signedWorkScore D w st = Inr s \<and> s \<le> m" if "tokenFoundries st = 0"
  proof -
    have le: "unat (wsp_Block w) + unat (wsp_DataByte w) * n + txWork w st \<le> unat m" using bound that by simp
    then obtain s :: u32 where "unat s = unat (wsp_Block w) + unat (wsp_DataByte w) * n + txWork w st"
      by (rule unat_exists)
    with le costs_succeeds [OF exact TrueI this] show ?thesis by (auto simp: word_le_nat_alt)
  qed
  then show ?thesis using costsD [OF exact] bound by auto
qed

section \<open>Concrete transactions\<close>

definition ref_work_deps :: work_deps where
  "ref_work_deps = tx_deps.extend ref_tx_deps \<lparr>serTypeDenotation = 4, serPayloadLength = 4\<rparr>"

lemma ref_work_deps_sel [simp]:
  "SafeAdd64 ref_work_deps = ref_add" "SafeSub64 ref_work_deps = ref_sub" "SafeMul64 ref_work_deps = ref_mul"
  "SafeAdd32 ref_work_deps = ref_add" "SafeSub32 ref_work_deps = ref_sub" "SafeMul32 ref_work_deps = ref_mul"
  "sum256 ref_work_deps = ref_sum256" "encAddr ref_work_deps = ref_encAddr"
  "maxUint256 ref_work_deps = 2 ^ 256 - 1"
  "serOneByte ref_work_deps = 1" "serSmallType ref_work_deps = 1" "serUInt16 ref_work_deps = 2"
  "serUInt32 ref_work_deps = 4" "serUInt256 ref_work_deps = 32"
  "encUnlock ref_work_deps = (\<lambda>u. Inr (case u of MultiUnlock us \<Rightarrow> [word_of_nat (length us)] | _ \<Rightarrow> []))"
  "serTypeDenotation ref_work_deps = 4" "serPayloadLength ref_work_deps = 4"
  by (simp_all add: ref_work_deps_def ref_tx_deps_def ref_ledger_def ref_deps_def tx_deps.defs ledger_deps.defs deps.defs)

lemma ref_work_safe: "safemath64 ref_work_deps" "safemath32 ref_work_deps"
  by (simp_all add: refa.checked_arith_axioms)

lemma ref_MaxPayloadSize: "MaxPayloadSize ref_work_deps = 32530"
  by (simp add: MaxPayloadSize_def MaxBlockSize_def BlockHeaderLength_def
      BasicBlockSizeEmptyParentsAndEmptyPayload_def Ed25519SignatureSerializedBytesSize_def)

lemma ref_unlocks_accepted: "ValidateUnlocksSyntax ref_work_deps demo_unlocks = Inr ()"
  by (simp add: ValidateUnlocksSyntax_def demo_unlocks_def SliceValidator_def
      SignaturesUniqueAndReferenceUnlocksValidator_def signatureUnlockStep_def referentialUnlockStep_def
      multiUnlockStepS_def subUnlockStep_def ReferencedInputIndex_def Chainable_def nothingSeen_def SignerUID_def
      Let_def ref_sum256_def)

text \<open>The demonstration transaction with other outputs is accepted if the outputs are.\<close>

definition signedWith :: "ledger_output list \<Rightarrow> signed_transaction" where
  "signedWith outs = \<lparr>st_Transaction = syntax_tx\<lparr>tx_Outputs := outs\<rparr>, st_Unlocks = demo_unlocks\<rparr>"

lemma signedWith_accepted:
  assumes "\<And>c. SyntacticallyValidateOutputs ref_work_deps syntax_api (maxManaValue syntax_api) c outs = Inr ()"
  shows "signedSyntacticallyValidate ref_work_deps syntax_api (signedWith outs) = Inr ()"
proof -
  have "te_ContextInputs syntax_tx = [] \<or> isCommitment (hd (te_ContextInputs syntax_tx))"
    by (simp add: syntax_tx_def isCommitment_def)
  then have "syntacticallyValidateEssence ref_work_deps syntax_api (syntax_tx\<lparr>tx_Outputs := outs\<rparr>) = Inr ()"
    unfolding essence_iff [OF ref_work_safe(1)] using syntax_tx_fits by auto
  then show ?thesis
    using syntax_tx_fits(11,12) assms ref_unlocks_accepted
    by (simp add: signedSyntacticallyValidate_def SyntacticallyValidate_def signedWith_def Let_def)
qed

lemma signedWith_decoded:
  assumes "1 \<le> length outs" "length outs \<le> 128" "\<forall>out \<in> set outs. decoded out"
  shows "decodedTx (signedWith outs)"
  using assms by (simp add: decodedTx_def txListRules_def signedWith_def Let_def list_all_iff syntax_tx_def demo_tx_def
      multiUnlockRule_def demo_unlocks_def)

lemma sumG_const: "f x = Inr k \<Longrightarrow> sumG f s (replicate n x) = Inr (s + n * k)"
  by (induction n arbitrary: s) (simp_all add: sumG_def)

lemma sumG_same: "(\<And>x. x \<in> set xs \<Longrightarrow> f x = Inr k) \<Longrightarrow> sumG f s xs = Inr (s + length xs * k)"
  by (induction xs arbitrary: s) (simp_all add: sumG_def)

lemma signedWith_size:
  "outputsSize ref_work_deps outs = Inr k \<Longrightarrow> signedSize ref_work_deps (signedWith outs) = Inr (586 + k)"
  by (simp add: signedSize_def txSize_def essenceSize_def signedWith_def syntax_tx_def demo_tx_def ctxsSize_def
      ctxSize_def inputsSize_def inputSize_def allotmentsSize_def capabilitiesSize_def unlocksSize_def sumG_def
      demo_unlocks_def sigSize_def)

definition unit_prices :: work_score_parameters where
  "unit_prices = \<lparr>wsp_DataByte = 1, wsp_Block = 1, wsp_Input = 1, wsp_ContextInput = 1, wsp_Output = 1,
     wsp_NativeToken = 1, wsp_Staking = 1, wsp_BlockIssuer = 1, wsp_Allotment = 1, wsp_SignatureEd25519 = 1\<rparr>"

lemma demo_outputs_size: "outputsSize ref_work_deps demo_outputs = Inr 242"
  by (simp add: outputsSize_def demo_outputs_def demo_returning_def demo_restricted_def demo_acct_def outSize_def
      basicSize_def accountSize_def ucsSize_def featsSize_def ucSize_def featSize_def sumG_def)

theorem work_score_exact_witness: "signedWorkScore ref_work_deps unit_prices (signedWith demo_outputs) = Inr 844"
proof -
  have "length (te_Allotments (st_Transaction (signedWith demo_outputs))) < 2 ^ 32"
    by (simp add: signedWith_def syntax_tx_def)
  then show ?thesis
    using work_score_exact [OF ref_work_safe(2) signedWith_size [OF demo_outputs_size], of unit_prices 844]
    by (simp add: signedWith_def syntax_tx_def demo_tx_def txWork_def unit_prices_def outWork_def immutableFeatures_def
        demo_outputs_def demo_returning_def demo_restricted_def demo_acct_def demo_unlocks_def)
qed

lemma unit_bound: "MaxBlockWork ref_work_deps unit_prices = Inr 34707"
  using MaxBlockWork_exact [OF ref_work_safe(2), of unit_prices 34707]
  by (simp add: ref_MaxPayloadSize unit_prices_def)

theorem max_block_work_bounds_witness:
  "\<exists>s. signedWorkScore ref_work_deps unit_prices (signedWith demo_outputs) = Inr s \<and> s \<le> 34707"
proof -
  have outs: "SyntacticallyValidateOutputs ref_work_deps syntax_api (maxManaValue syntax_api) c demo_outputs = Inr ()" for c
    by (rule demo_outputs_accepted_by) (simp_all add: syntax_tx_fits(1))
  have len: "1 \<le> length demo_outputs" "length demo_outputs \<le> 128" by (simp_all add: demo_outputs_def)
  have "tokenFoundries (signedWith demo_outputs) = 0"
    by (simp add: tokenFoundries_def signedWith_def demo_outputs_def demo_returning_def demo_restricted_def demo_acct_def
        tokenFoundry_def)
  then show ?thesis
    using max_block_work_bounds [OF ref_work_safe unit_bound signedWith_accepted [OF outs]
        signedWith_decoded [OF len demo_outputs_decoded] signedWith_size [OF demo_outputs_size]]
    by (simp add: ref_MaxPayloadSize)
qed

text \<open>128 foundries of one account, each holding its own native token.\<close>

definition tokenFoundryNo :: "nat \<Rightarrow> ledger_output" where
  "tokenFoundryNo i = FoundryO \<lparr>fo_Amount = 50000, fo_SerialNumber = word_of_nat i,
     fo_TokenScheme = \<lparr>sts_MintedTokens = 10, sts_MeltedTokens = 0, sts_MaximumSupply = 100\<rparr>,
     fo_UnlockConditions = [ImmutableAccountUC (replicate 32 9)],
     fo_Features = [NativeTokenF (8 # replicate 32 9 @ le32 (word_of_nat i) @ [0]) 10], fo_ImmutableFeatures = []\<rparr>"

definition manyFoundries :: "ledger_output list" where
  "manyFoundries = map tokenFoundryNo [0..<128]"

definition token_price :: work_score_parameters where
  "token_price = \<lparr>wsp_DataByte = 0, wsp_Block = 0, wsp_Input = 0, wsp_ContextInput = 0, wsp_Output = 0,
     wsp_NativeToken = 1, wsp_Staking = 0, wsp_BlockIssuer = 0, wsp_Allotment = 0, wsp_SignatureEd25519 = 0\<rparr>"

lemma tokenFoundry_ID:
  "FoundryIDFromAddressAndSerialNumberAndTokenScheme ref_work_deps (AccountAddress (replicate 32 9)) n 0
    = Inr (8 # replicate 32 9 @ le32 n @ [0])"
  by (simp add: FoundryIDFromAddressAndSerialNumberAndTokenScheme_def Let_def le32_def eval_nat_numeral)

lemma manyFoundries_accepted:
  "SyntacticallyValidateOutputs ref_work_deps syntax_api (maxManaValue syntax_api) c manyFoundries = Inr ()"
proof -
  have r: "api_StorageScoreStructure syntax_api = demo_structure" by (simp add: syntax_api_def demo_api_def)
  note sets = outUCSet_def outFeatSet_def ucsMustSet_eq featsMustSet_eq ucAddress_def ucStorageDepositReturn_def
    ucStateControllerAddress_def ucGovernorAddress_def ucExpiration_def ucTimelock_def ftNativeToken_def
    ftStaking_def ftBlockIssuer_def ftMetadata_def ftStateMetadata_def foundryOwner_def derefG_def ucImmutableAccount_def
  have id: "outChainID ref_work_deps (tokenFoundryNo i)
      = Inr (Some (FoundryIDc (8 # replicate 32 9 @ le32 (word_of_nat i) @ [0])))" for i
    by (simp add: tokenFoundryNo_def outChainID_def foundryID_def sets tokenFoundry_ID)
  have one: "OutputsSyntacticalUnlockConditionLexicalOrderAndUniqueness 0 (tokenFoundryNo i) = Inr ()"
    "OutputsSyntacticalFeaturesLexicalOrderAndUniqueness 0 (tokenFoundryNo i) = Inr ()"
    "OutputsSyntacticalMetadataFeatureMaxSize ref_work_deps 0 (tokenFoundryNo i) = Inr ()"
    "OutputsSyntacticalExpirationAndTimelock 0 (tokenFoundryNo i) = Inr ()"
    "OutputsSyntacticalNativeTokens 0 (tokenFoundryNo i) = Inr ()"
    "OutputsSyntacticalFoundry ref_work_deps 0 (tokenFoundryNo i) = Inr ()"
    "OutputsSyntacticalAccount 0 (tokenFoundryNo i) = Inr ()"
    "OutputsSyntacticalAnchor 0 (tokenFoundryNo i) = Inr ()" "OutputsSyntacticalNFT 0 (tokenFoundryNo i) = Inr ()"
    "OutputsSyntacticalDelegation 0 (tokenFoundryNo i) = Inr ()"
    "OutputsSyntacticalCommitmentInput c 0 (tokenFoundryNo i) = Inr ()"
    "OutputsSyntacticalImplicitAccountCreationAddress 0 (tokenFoundryNo i) = Inr ()"
    "OutputsSyntacticalAddressRestrictions 0 (tokenFoundryNo i) = Inr ()" for i
    by (simp_all add: tokenFoundryNo_def output_syntax_defs sets metadataCheck_def Let_def restrictedBy_def
        uc_order.accepts feat_order.accepts foundryID_def tokenFoundry_ID scheme_syntax_iff)
  have deposit: "ok (CoversMinDeposit ref_work_deps demo_structure (tokenFoundryNo i) (outAmount (tokenFoundryNo i)))
      \<and> (\<exists>u. outUCSet (tokenFoundryNo i) = Inr u \<and>
           returnDepositCheck ref_work_deps demo_structure (outAmount (tokenFoundryNo i)) (ucStorageDepositReturn u) = Inr ())" for i
    by (simp add: tokenFoundryNo_def sets returnDepositCheck_def score_defs foundryStorageScore_def foundrySize_def
        schemeSize_def scoreG_def sumG_def ref_mul_def word_le_nat_alt)
  have rep: "replicate 38 (0 :: u8) = 0 # replicate 37 0" by (simp add: eval_nat_numeral)
  have named: "namedChain ref_work_deps (tokenFoundryNo i)
      = Some (FoundryIDc (8 # replicate 32 9 @ le32 (word_of_nat i) @ [0]))" for i
    by (simp add: namedChain_def id chainEmpty_def rep)
  have serial: "le32 (word_of_nat i) = le32 (word_of_nat j) \<longleftrightarrow> i = j" if "i < 128" "j < 128" for i j :: nat
  proof
    assume "le32 (word_of_nat i) = le32 (word_of_nat j)"
    then have "(word_of_nat i :: u32) = word_of_nat j" by (metis fromLE_le(2))
    then have "unat (word_of_nat i :: u32) = unat (word_of_nat j :: u32)" by simp
    then show "i = j" using that by (simp add: unat_of_nat)
  qed simp
  have "distinct (List.map_filter (namedChain ref_work_deps) manyFoundries)"
    by (auto simp: manyFoundries_def map_filter_def named comp_def distinct_map inj_on_def serial)
  moreover have "(\<Sum>out\<leftarrow>manyFoundries. unat (outAmount out)) \<le> unat (api_TokenSupply syntax_api)"
    "(\<Sum>out\<leftarrow>manyFoundries. unat (outStoredMana out)) \<le> unat m" for m :: u64
    by (simp_all add: manyFoundries_def tokenFoundryNo_def comp_def sum_list_triv syntax_api_def)
  moreover have "outAmount (tokenFoundryNo i) \<noteq> 0" "ok (outChainID ref_work_deps (tokenFoundryNo i))" for i
    by (simp_all add: id) (simp add: tokenFoundryNo_def)
  ultimately show ?thesis
    unfolding SyntacticallyValidateOutputs_iff [OF ref_work_safe(1)] r using one deposit
    by (auto simp: manyFoundries_def)
qed

lemma manyFoundries_decoded: "\<forall>out \<in> set manyFoundries. decoded out"
  by (simp add: manyFoundries_def tokenFoundryNo_def decoded_def obeys_def unlockCondArrRules_def featBlocksArrRules_def
      immFeatBlocksArrRules_def immutableFeatures_def unlockConditionValidator_def ucAddresses_def featAddresses_def)

lemma manyFoundries_size: "outputsSize ref_work_deps manyFoundries = Inr 27906"
proof -
  have "outSize ref_work_deps out = Inr 218" if "out \<in> set manyFoundries" for out
    using that by (auto simp: manyFoundries_def tokenFoundryNo_def outSize_def foundrySize_def ucsSize_def featsSize_def
        ucSize_def featSize_def sumG_def schemeSize_def)
  from sumG_same [where xs = manyFoundries and s = 2, OF this] show ?thesis by (simp add: outputsSize_def manyFoundries_def)
qed

text \<open>The comment at @\<open>MaxBlockWork\<close> does not hold: with a price only on native tokens, an accepted
  transaction of 128 foundries that fits into a block costs twice the bound.\<close>

theorem max_block_work_exceeded:
  "MaxBlockWork ref_work_deps token_price = Inr 128
   \<and> signedSyntacticallyValidate ref_work_deps syntax_api (signedWith manyFoundries) = Inr ()
   \<and> decodedTx (signedWith manyFoundries)
   \<and> signedSize ref_work_deps (signedWith manyFoundries) = Inr 28492 \<and> 28492 \<le> MaxPayloadSize ref_work_deps
   \<and> signedWorkScore ref_work_deps token_price (signedWith manyFoundries) = Inr 256"
proof (intro conjI)
  show size: "signedSize ref_work_deps (signedWith manyFoundries) = Inr 28492"
    using signedWith_size [OF manyFoundries_size] by simp
  show "MaxBlockWork ref_work_deps token_price = Inr 128"
    using MaxBlockWork_exact [OF ref_work_safe(2), of token_price 128]
    by (simp add: ref_MaxPayloadSize token_price_def)
  show "28492 \<le> MaxPayloadSize ref_work_deps" by (simp add: ref_MaxPayloadSize)
  show "signedSyntacticallyValidate ref_work_deps syntax_api (signedWith manyFoundries) = Inr ()"
    by (rule signedWith_accepted [OF manyFoundries_accepted])
  show "decodedTx (signedWith manyFoundries)"
    by (rule signedWith_decoded) (simp_all add: manyFoundries_decoded, simp_all add: manyFoundries_def)
  have len: "length (te_Allotments (st_Transaction (signedWith manyFoundries))) < 2 ^ 32"
    by (simp add: signedWith_def syntax_tx_def)
  have "outWork token_price (tokenFoundryNo i) = 2" for i
    by (simp add: outWork_def tokenFoundryNo_def token_price_def featWork_def immutableFeatures_def)
  then have "txWork token_price (signedWith manyFoundries) = 256"
    by (simp add: txWork_def signedWith_def manyFoundries_def comp_def sum_list_triv) (simp add: token_price_def)
  with costs_succeeds [OF signed_cost [OF ref_work_safe(2) size _ len, of token_price] TrueI, of 256]
  show "signedWorkScore ref_work_deps token_price (signedWith manyFoundries) = Inr 256"
    by (simp add: token_price_def)
qed

end
