(* ===== verification/Protocol_Params.thy ===== *)
theory Protocol_Params
  imports Work_Bound
begin

text \<open>
  The parameters of the protocol, api_protocol_parameters.go, api_v3_protocol_parameters.go and rmc.go, and the
  API object built from them, api_v3.go.  The record @\<open>protocol_parameters\<close> is the embedded struct
  @\<open>basicProtocolParameters\<close>; the cached bytes, hash and network identifier of @\<open>V3ProtocolParameters\<close>
  are recomputed.  A network name is the list of its bytes.  The functions that derive decay factors and
  reward rates with floating point numbers are left out; they only serve genesis snapshots.
\<close>

section \<open>The parameters\<close>

record congestion_control_parameters =
  cc_MinReferenceManaCost :: u64
  cc_Increase :: u64
  cc_Decrease :: u64
  cc_IncreaseThreshold :: u32
  cc_DecreaseThreshold :: u32
  cc_SchedulerRate :: u32
  cc_MaxBufferSize :: u32
  cc_MaxValidationBufferSize :: u32

record version_signaling_parameters =
  vs_WindowSize :: u8
  vs_WindowTargetRatio :: u8
  vs_ActivationOffset :: u8

record protocol_parameters =
  pp_Version :: u8
  pp_NetworkName :: bytes
  pp_Bech32HRP :: bytes
  pp_StorageScoreParameters :: storage_score_parameters
  pp_WorkScoreParameters :: work_score_parameters
  pp_ManaParameters :: mana_parameters
  pp_TokenSupply :: u64
  pp_GenesisSlot :: u32
  pp_GenesisUnixTimestamp :: int
  pp_SlotDurationInSeconds :: u8
  pp_SlotsPerEpochExponent :: u8
  pp_StakingUnbondingPeriod :: u32
  pp_ValidationBlocksPerSlot :: u8
  pp_PunishmentEpochs :: u32
  pp_LivenessThresholdLowerBoundInSeconds :: u16
  pp_LivenessThresholdUpperBoundInSeconds :: u16
  pp_MinCommittableAge :: u32
  pp_MaxCommittableAge :: u32
  pp_EpochNearingThreshold :: u32
  pp_CongestionControlParameters :: congestion_control_parameters
  pp_VersionSignalingParameters :: version_signaling_parameters
  pp_RewardsParameters :: rewards_parameters
  pp_TargetCommitteeSize :: u8
  pp_ChainSwitchingThreshold :: u8

section \<open>Equality\<close>

definition storageScoreParametersEquals :: "storage_score_parameters \<Rightarrow> storage_score_parameters \<Rightarrow> bool" where
  "storageScoreParametersEquals r other \<longleftrightarrow>
     ssp_StorageCost r = ssp_StorageCost other
     \<and> ssp_FactorData r = ssp_FactorData other
     \<and> ssp_OffsetOutputOverhead r = ssp_OffsetOutputOverhead other
     \<and> ssp_OffsetEd25519BlockIssuerKey r = ssp_OffsetEd25519BlockIssuerKey other
     \<and> ssp_OffsetStakingFeature r = ssp_OffsetStakingFeature other
     \<and> ssp_OffsetDelegation r = ssp_OffsetDelegation other"

definition workScoreParametersEquals :: "work_score_parameters \<Rightarrow> work_score_parameters \<Rightarrow> bool" where
  "workScoreParametersEquals w other \<longleftrightarrow>
     wsp_DataByte w = wsp_DataByte other
     \<and> wsp_Block w = wsp_Block other
     \<and> wsp_Input w = wsp_Input other
     \<and> wsp_ContextInput w = wsp_ContextInput other
     \<and> wsp_Output w = wsp_Output other
     \<and> wsp_NativeToken w = wsp_NativeToken other
     \<and> wsp_Staking w = wsp_Staking other
     \<and> wsp_BlockIssuer w = wsp_BlockIssuer other
     \<and> wsp_Allotment w = wsp_Allotment other
     \<and> wsp_SignatureEd25519 w = wsp_SignatureEd25519 other"

definition manaParametersEquals :: "mana_parameters \<Rightarrow> mana_parameters \<Rightarrow> bool" where
  "manaParametersEquals m other \<longleftrightarrow>
     mp_BitsCount m = mp_BitsCount other
     \<and> mp_GenerationRate m = mp_GenerationRate other
     \<and> mp_GenerationRateExponent m = mp_GenerationRateExponent other
     \<and> mp_DecayFactors m = mp_DecayFactors other
     \<and> mp_DecayFactorsExponent m = mp_DecayFactorsExponent other
     \<and> mp_DecayFactorEpochsSum m = mp_DecayFactorEpochsSum other
     \<and> mp_DecayFactorEpochsSumExponent m = mp_DecayFactorEpochsSumExponent other
     \<and> mp_AnnualDecayFactorPercentage m = mp_AnnualDecayFactorPercentage other"

definition congestionControlEquals ::
    "congestion_control_parameters \<Rightarrow> congestion_control_parameters \<Rightarrow> bool" where
  "congestionControlEquals c other \<longleftrightarrow>
     cc_MinReferenceManaCost c = cc_MinReferenceManaCost other
     \<and> cc_Increase c = cc_Increase other
     \<and> cc_Decrease c = cc_Decrease other
     \<and> cc_IncreaseThreshold c = cc_IncreaseThreshold other
     \<and> cc_DecreaseThreshold c = cc_DecreaseThreshold other
     \<and> cc_SchedulerRate c = cc_SchedulerRate other
     \<and> cc_MaxBufferSize c = cc_MaxBufferSize other
     \<and> cc_MaxValidationBufferSize c = cc_MaxValidationBufferSize other"

definition versionSignalingEquals ::
    "version_signaling_parameters \<Rightarrow> version_signaling_parameters \<Rightarrow> bool" where
  "versionSignalingEquals s signaling \<longleftrightarrow>
     vs_WindowSize s = vs_WindowSize signaling
     \<and> vs_WindowTargetRatio s = vs_WindowTargetRatio signaling
     \<and> vs_ActivationOffset s = vs_ActivationOffset signaling"

definition rewardsParametersEquals :: "rewards_parameters \<Rightarrow> rewards_parameters \<Rightarrow> bool" where
  "rewardsParametersEquals r other \<longleftrightarrow>
     rp_ProfitMarginExponent r = rp_ProfitMarginExponent other
     \<and> rp_BootstrappingDuration r = rp_BootstrappingDuration other
     \<and> rp_RewardToGenerationRatio r = rp_RewardToGenerationRatio other
     \<and> rp_InitialTargetRewardsRate r = rp_InitialTargetRewardsRate other
     \<and> rp_FinalTargetRewardsRate r = rp_FinalTargetRewardsRate other
     \<and> rp_PoolCoefficientExponent r = rp_PoolCoefficientExponent other
     \<and> rp_RetentionPeriod r = rp_RetentionPeriod other"

definition protocolParametersEquals :: "protocol_parameters \<Rightarrow> protocol_parameters \<Rightarrow> bool" where
  "protocolParametersEquals b other \<longleftrightarrow>
     pp_Version b = pp_Version other
     \<and> pp_NetworkName b = pp_NetworkName other
     \<and> pp_Bech32HRP b = pp_Bech32HRP other
     \<and> storageScoreParametersEquals (pp_StorageScoreParameters b) (pp_StorageScoreParameters other)
     \<and> workScoreParametersEquals (pp_WorkScoreParameters b) (pp_WorkScoreParameters other)
     \<and> manaParametersEquals (pp_ManaParameters b) (pp_ManaParameters other)
     \<and> pp_TokenSupply b = pp_TokenSupply other
     \<and> pp_GenesisSlot b = pp_GenesisSlot other
     \<and> pp_GenesisUnixTimestamp b = pp_GenesisUnixTimestamp other
     \<and> pp_SlotDurationInSeconds b = pp_SlotDurationInSeconds other
     \<and> pp_SlotsPerEpochExponent b = pp_SlotsPerEpochExponent other
     \<and> pp_StakingUnbondingPeriod b = pp_StakingUnbondingPeriod other
     \<and> pp_ValidationBlocksPerSlot b = pp_ValidationBlocksPerSlot other
     \<and> pp_PunishmentEpochs b = pp_PunishmentEpochs other
     \<and> pp_LivenessThresholdLowerBoundInSeconds b = pp_LivenessThresholdLowerBoundInSeconds other
     \<and> pp_LivenessThresholdUpperBoundInSeconds b = pp_LivenessThresholdUpperBoundInSeconds other
     \<and> pp_MinCommittableAge b = pp_MinCommittableAge other
     \<and> pp_MaxCommittableAge b = pp_MaxCommittableAge other
     \<and> pp_EpochNearingThreshold b = pp_EpochNearingThreshold other
     \<and> congestionControlEquals (pp_CongestionControlParameters b) (pp_CongestionControlParameters other)
     \<and> versionSignalingEquals (pp_VersionSignalingParameters b) (pp_VersionSignalingParameters other)
     \<and> rewardsParametersEquals (pp_RewardsParameters b) (pp_RewardsParameters other)
     \<and> pp_TargetCommitteeSize b = pp_TargetCommitteeSize other
     \<and> pp_ChainSwitchingThreshold b = pp_ChainSwitchingThreshold other"

section \<open>Options\<close>

definition WithVersion :: "u8 \<Rightarrow> protocol_parameters \<Rightarrow> protocol_parameters" where
  "WithVersion version p = p\<lparr>pp_Version := version\<rparr>"

definition WithStorageOptions ::
    "u64 \<Rightarrow> u8 \<Rightarrow> u64 \<Rightarrow> u64 \<Rightarrow> u64 \<Rightarrow> u64 \<Rightarrow> protocol_parameters \<Rightarrow> protocol_parameters" where
  "WithStorageOptions storageCost factorData offsetOutputOverhead offsetEd25519BlockIssuerKey
      offsetStakingFeature offsetDelegation p =
     p\<lparr>pp_StorageScoreParameters := \<lparr>
        ssp_StorageCost = storageCost,
        ssp_FactorData = factorData,
        ssp_OffsetOutputOverhead = offsetOutputOverhead,
        ssp_OffsetEd25519BlockIssuerKey = offsetEd25519BlockIssuerKey,
        ssp_OffsetStakingFeature = offsetStakingFeature,
        ssp_OffsetDelegation = offsetDelegation\<rparr>\<rparr>"

definition WithWorkScoreOptions ::
    "u32 \<Rightarrow> u32 \<Rightarrow> u32 \<Rightarrow> u32 \<Rightarrow> u32 \<Rightarrow> u32 \<Rightarrow> u32 \<Rightarrow> u32 \<Rightarrow> u32 \<Rightarrow> u32
     \<Rightarrow> protocol_parameters \<Rightarrow> protocol_parameters" where
  "WithWorkScoreOptions dataByte block inp contextInput outp nativeToken staking blockIssuer allotment
      signatureEd25519 p =
     p\<lparr>pp_WorkScoreParameters := \<lparr>
        wsp_DataByte = dataByte,
        wsp_Block = block,
        wsp_Input = inp,
        wsp_ContextInput = contextInput,
        wsp_Output = outp,
        wsp_NativeToken = nativeToken,
        wsp_Staking = staking,
        wsp_BlockIssuer = blockIssuer,
        wsp_Allotment = allotment,
        wsp_SignatureEd25519 = signatureEd25519\<rparr>\<rparr>"

definition WithSupplyOptions ::
    "u64 \<Rightarrow> u8 \<Rightarrow> u8 \<Rightarrow> u8 \<Rightarrow> u8 \<Rightarrow> u8 \<Rightarrow> u8 \<Rightarrow> protocol_parameters \<Rightarrow> protocol_parameters" where
  "WithSupplyOptions baseTokenSupply bitsCount generationRate generationRateExponent decayFactorsExponent
      decayFactorEpochsSumExponent annualDecayFactorPercentage p =
     p\<lparr>pp_TokenSupply := baseTokenSupply,
       pp_ManaParameters := (pp_ManaParameters p)\<lparr>
         mp_BitsCount := bitsCount,
         mp_GenerationRate := generationRate,
         mp_GenerationRateExponent := generationRateExponent,
         mp_DecayFactorsExponent := decayFactorsExponent,
         mp_DecayFactorEpochsSumExponent := decayFactorEpochsSumExponent,
         mp_AnnualDecayFactorPercentage := annualDecayFactorPercentage\<rparr>\<rparr>"

definition WithTimeProviderOptions ::
    "u32 \<Rightarrow> int \<Rightarrow> u8 \<Rightarrow> u8 \<Rightarrow> protocol_parameters \<Rightarrow> protocol_parameters" where
  "WithTimeProviderOptions genesisSlot genesisTimestamp slotDurationInSeconds slotsPerEpochExponent p =
     p\<lparr>pp_GenesisSlot := genesisSlot,
       pp_GenesisUnixTimestamp := genesisTimestamp,
       pp_SlotDurationInSeconds := slotDurationInSeconds,
       pp_SlotsPerEpochExponent := slotsPerEpochExponent\<rparr>"

definition WithLivenessOptions ::
    "u16 \<Rightarrow> u16 \<Rightarrow> u32 \<Rightarrow> u32 \<Rightarrow> u32 \<Rightarrow> protocol_parameters \<Rightarrow> protocol_parameters" where
  "WithLivenessOptions lower upper minCommittableAge maxCommittableAge epochNearingThreshold p =
     p\<lparr>pp_LivenessThresholdLowerBoundInSeconds := lower,
       pp_LivenessThresholdUpperBoundInSeconds := upper,
       pp_MinCommittableAge := minCommittableAge,
       pp_MaxCommittableAge := maxCommittableAge,
       pp_EpochNearingThreshold := epochNearingThreshold\<rparr>"

definition WithCongestionControlOptions ::
    "u64 \<Rightarrow> u64 \<Rightarrow> u64 \<Rightarrow> u32 \<Rightarrow> u32 \<Rightarrow> u32 \<Rightarrow> u32 \<Rightarrow> u32 \<Rightarrow> protocol_parameters \<Rightarrow> protocol_parameters" where
  "WithCongestionControlOptions minReferenceManaCost rmcIncrease rmcDecrease rmcIncreaseThreshold
      rmcDecreaseThreshold schedulerRate maxBufferSize maxValBufferSize p =
     p\<lparr>pp_CongestionControlParameters := (pp_CongestionControlParameters p)\<lparr>
        cc_MinReferenceManaCost := minReferenceManaCost,
        cc_Increase := rmcIncrease,
        cc_Decrease := rmcDecrease,
        cc_IncreaseThreshold := rmcIncreaseThreshold,
        cc_DecreaseThreshold := rmcDecreaseThreshold,
        cc_SchedulerRate := schedulerRate,
        cc_MaxBufferSize := maxBufferSize,
        cc_MaxValidationBufferSize := maxValBufferSize\<rparr>\<rparr>"

definition WithStakingOptions :: "u32 \<Rightarrow> u8 \<Rightarrow> u32 \<Rightarrow> protocol_parameters \<Rightarrow> protocol_parameters" where
  "WithStakingOptions unbondingPeriod validationBlocksPerSlot punishmentEpochs p =
     p\<lparr>pp_StakingUnbondingPeriod := unbondingPeriod,
       pp_ValidationBlocksPerSlot := validationBlocksPerSlot,
       pp_PunishmentEpochs := punishmentEpochs\<rparr>"

definition WithVersionSignalingOptions :: "u8 \<Rightarrow> u8 \<Rightarrow> u8 \<Rightarrow> protocol_parameters \<Rightarrow> protocol_parameters" where
  "WithVersionSignalingOptions windowSize windowTargetRatio activationOffset p =
     p\<lparr>pp_VersionSignalingParameters := \<lparr>
        vs_WindowSize = windowSize,
        vs_WindowTargetRatio = windowTargetRatio,
        vs_ActivationOffset = activationOffset\<rparr>\<rparr>"

definition WithRewardsOptions :: "u8 \<Rightarrow> u8 \<Rightarrow> u8 \<Rightarrow> u16 \<Rightarrow> protocol_parameters \<Rightarrow> protocol_parameters" where
  "WithRewardsOptions profitMarginExponent poolCoefficientExponent rewardToGenerationRatio retentionPeriod p =
     p\<lparr>pp_RewardsParameters := (pp_RewardsParameters p)\<lparr>
        rp_ProfitMarginExponent := profitMarginExponent,
        rp_RewardToGenerationRatio := rewardToGenerationRatio,
        rp_PoolCoefficientExponent := poolCoefficientExponent,
        rp_RetentionPeriod := retentionPeriod\<rparr>\<rparr>"

definition WithTargetCommitteeSize :: "u8 \<Rightarrow> protocol_parameters \<Rightarrow> protocol_parameters" where
  "WithTargetCommitteeSize targetCommitteeSize p = p\<lparr>pp_TargetCommitteeSize := targetCommitteeSize\<rparr>"

definition WithNetworkOptions :: "bytes \<Rightarrow> bytes \<Rightarrow> protocol_parameters \<Rightarrow> protocol_parameters" where
  "WithNetworkOptions networkName hrp p = p\<lparr>pp_NetworkName := networkName, pp_Bech32HRP := hrp\<rparr>"

definition WithChainSwitchingThreshold :: "u8 \<Rightarrow> protocol_parameters \<Rightarrow> protocol_parameters" where
  "WithChainSwitchingThreshold chainSwitchingThreshold p =
     p\<lparr>pp_ChainSwitchingThreshold := chainSwitchingThreshold\<rparr>"

section \<open>Sanity checks\<close>

text \<open>The factors of the products are @\<open>uint32\<close> values, so both products wrap around; so does the shift.\<close>

definition timeSanityCheck :: "protocol_parameters \<Rightarrow> unit go" where
  "timeSanityCheck p =
    (if pp_LivenessThresholdUpperBoundInSeconds p < pp_LivenessThresholdLowerBoundInSeconds p
     then Inl (Panic ''LivenessThresholdLowerBoundInSeconds must be less than or equal to LivenessThresholdUpperBoundInSeconds'')
     else if pp_MinCommittableAge p * ucast (pp_SlotDurationInSeconds p) \<le> ucast (pp_LivenessThresholdUpperBoundInSeconds p)
     then Inl (Panic ''LivenessThresholdUpperBoundInSeconds must be strictly less than MinCommittableAge * SlotDurationInSeconds'')
     else if pp_MaxCommittableAge p \<le> pp_MinCommittableAge p
     then Inl (Panic ''MinCommittableAge must be strictly less than MaxCommittableAge'')
     else if pp_EpochNearingThreshold p \<le> pp_MaxCommittableAge p
     then Inl (Panic ''MaxCommittableAge must be strictly less than EpochNearingThreshold'')
     else if push_bit (unat (pp_SlotsPerEpochExponent p)) 1 \<le> pp_EpochNearingThreshold p
     then Inl (Panic ''Epoch duration in slots must be strictly greater than EpochNearingThreshold'')
     else Inr ())"

definition congestionControlSanityCheck :: "protocol_parameters \<Rightarrow> unit go" where
  "congestionControlSanityCheck p =
    (let cc = pp_CongestionControlParameters p;
         slotRate = ucast (pp_SlotDurationInSeconds p) * cc_SchedulerRate cc
     in if slotRate < cc_IncreaseThreshold cc
        then Inl (Panic ''IncreaseThreshold must be less than or equal to SchedulerRate*SlotDurationInSeconds'')
        else if slotRate < cc_DecreaseThreshold cc
        then Inl (Panic ''DecreaseThreshold must be less than or equal to SchedulerRate*SlotDurationInSeconds'')
        else if cc_IncreaseThreshold cc < cc_DecreaseThreshold cc
        then Inl (Panic ''DecreaseThreshold must be less than or equal to IncreaseThreshold'')
        else Inr ())"

text \<open>The constructor.  What it computes with floating point numbers are parameters: the functions that derive
  the decay factors, their sum, the bootstrapping duration and the two reward rates, and the checks of the mana
  supply and of staking.\<close>

record float_functions =
  deriveManaDecayFactors :: "u8 \<Rightarrow> u8 \<Rightarrow> u8 \<Rightarrow> u8 \<Rightarrow> u32 list"
  deriveManaDecayFactorEpochsSum :: "u8 \<Rightarrow> u8 \<Rightarrow> u8 \<Rightarrow> u8 \<Rightarrow> u32"
  deriveBootstrappingDuration :: "u8 \<Rightarrow> u8 \<Rightarrow> u8 \<Rightarrow> u32"
  deriveTargetRewardsRates :: "protocol_parameters \<Rightarrow> (u64 \<times> u64) go"
  manaSupplySanityCheck :: "protocol_parameters \<Rightarrow> unit go"
  stakingSanityCheck :: "protocol_parameters \<Rightarrow> unit go"

definition zeroParameters :: protocol_parameters where
  "zeroParameters =
     \<lparr>pp_Version = 0, pp_NetworkName = [], pp_Bech32HRP = [],
      pp_StorageScoreParameters = \<lparr>ssp_StorageCost = 0, ssp_FactorData = 0, ssp_OffsetOutputOverhead = 0,
        ssp_OffsetEd25519BlockIssuerKey = 0, ssp_OffsetStakingFeature = 0, ssp_OffsetDelegation = 0\<rparr>,
      pp_WorkScoreParameters = \<lparr>wsp_DataByte = 0, wsp_Block = 0, wsp_Input = 0, wsp_ContextInput = 0,
        wsp_Output = 0, wsp_NativeToken = 0, wsp_Staking = 0, wsp_BlockIssuer = 0, wsp_Allotment = 0,
        wsp_SignatureEd25519 = 0\<rparr>,
      pp_ManaParameters = \<lparr>mp_BitsCount = 0, mp_GenerationRate = 0, mp_GenerationRateExponent = 0,
        mp_DecayFactors = [], mp_DecayFactorsExponent = 0, mp_DecayFactorEpochsSum = 0,
        mp_DecayFactorEpochsSumExponent = 0, mp_AnnualDecayFactorPercentage = 0\<rparr>,
      pp_TokenSupply = 0, pp_GenesisSlot = 0, pp_GenesisUnixTimestamp = 0, pp_SlotDurationInSeconds = 0,
      pp_SlotsPerEpochExponent = 0, pp_StakingUnbondingPeriod = 0, pp_ValidationBlocksPerSlot = 0,
      pp_PunishmentEpochs = 0, pp_LivenessThresholdLowerBoundInSeconds = 0,
      pp_LivenessThresholdUpperBoundInSeconds = 0, pp_MinCommittableAge = 0, pp_MaxCommittableAge = 0,
      pp_EpochNearingThreshold = 0,
      pp_CongestionControlParameters = \<lparr>cc_MinReferenceManaCost = 0, cc_Increase = 0, cc_Decrease = 0,
        cc_IncreaseThreshold = 0, cc_DecreaseThreshold = 0, cc_SchedulerRate = 0, cc_MaxBufferSize = 0,
        cc_MaxValidationBufferSize = 0\<rparr>,
      pp_VersionSignalingParameters = \<lparr>vs_WindowSize = 0, vs_WindowTargetRatio = 0, vs_ActivationOffset = 0\<rparr>,
      pp_RewardsParameters = \<lparr>rp_ProfitMarginExponent = 0, rp_BootstrappingDuration = 0,
        rp_RewardToGenerationRatio = 0, rp_InitialTargetRewardsRate = 0, rp_FinalTargetRewardsRate = 0,
        rp_PoolCoefficientExponent = 0, rp_RetentionPeriod = 0\<rparr>,
      pp_TargetCommitteeSize = 0, pp_ChainSwitchingThreshold = 0\<rparr>"

definition defaultOptions :: "int \<Rightarrow> (protocol_parameters \<Rightarrow> protocol_parameters) list" where
  "defaultOptions now =
     [WithVersion 3,
      WithNetworkOptions (map of_char ''testnet'') (map of_char ''rms''),
      WithStorageOptions 100 1 10 100 100 100,
      WithWorkScoreOptions 500 110000 7500 40000 90000 50000 40000 70000 5000 15000,
      WithTimeProviderOptions 0 now 10 13,
      WithLivenessOptions 15 30 10 20 60,
      WithSupplyOptions 1813620509061365 63 1 17 32 21 70,
      WithCongestionControlOptions 1 1 1 400000000 250000000 50000000 1000 100,
      WithStakingOptions 10 10 10,
      WithVersionSignalingOptions 7 5 7,
      WithRewardsOptions 8 11 2 384,
      WithTargetCommitteeSize 32,
      WithChainSwitchingThreshold 3]"

definition deriveParameters :: "float_functions \<Rightarrow> protocol_parameters \<Rightarrow> protocol_parameters go" where
  "deriveParameters F p =
    (let m = pp_ManaParameters p;
         annual = mp_AnnualDecayFactorPercentage m;
         exponent = pp_SlotsPerEpochExponent p;
         duration = pp_SlotDurationInSeconds p;
         p = p\<lparr>pp_ManaParameters := m\<lparr>
               mp_DecayFactors := deriveManaDecayFactors F annual exponent duration (mp_DecayFactorsExponent m),
               mp_DecayFactorEpochsSum :=
                 deriveManaDecayFactorEpochsSum F annual exponent duration (mp_DecayFactorEpochsSumExponent m)\<rparr>,
             pp_RewardsParameters := (pp_RewardsParameters p)\<lparr>
               rp_BootstrappingDuration := deriveBootstrappingDuration F annual exponent duration\<rparr>\<rparr>
     in andthen (deriveTargetRewardsRates F p) (\<lambda>(initialRate, finalRate).
        Inr (p\<lparr>pp_RewardsParameters := (pp_RewardsParameters p)\<lparr>
               rp_InitialTargetRewardsRate := initialRate, rp_FinalTargetRewardsRate := finalRate\<rparr>\<rparr>)))"

definition NewV3SnapshotProtocolParameters ::
    "float_functions \<Rightarrow> int \<Rightarrow> (protocol_parameters \<Rightarrow> protocol_parameters) list \<Rightarrow> protocol_parameters go" where
  "NewV3SnapshotProtocolParameters F now opts =
    andthen (deriveParameters F (fold (\<lambda>f p. f p) (defaultOptions now @ opts) zeroParameters)) (\<lambda>p.
    andthen (manaSupplySanityCheck F p) (\<lambda>_.
    andthen (timeSanityCheck p) (\<lambda>_.
    andthen (congestionControlSanityCheck p) (\<lambda>_.
    andthen (stakingSanityCheck F p) (\<lambda>_. Inr p)))))"

section \<open>Derived values\<close>

definition NetworkIDFromString :: "'a deps_scheme \<Rightarrow> bytes \<Rightarrow> u64" where
  "NetworkIDFromString D networkIDStr =
    (let h = sum256 D networkIDStr
     in fold (\<lambda>i n. n OR push_bit (8 * i) (ucast (h ! i))) [0..<8] 0)"

definition paramsNetworkID :: "'a deps_scheme \<Rightarrow> protocol_parameters \<Rightarrow> u64" where
  "paramsNetworkID D p = NetworkIDFromString D (pp_NetworkName p)"

definition ParamEpochDurationInSlots :: "protocol_parameters \<Rightarrow> u32" where
  "ParamEpochDurationInSlots p = push_bit (unat (pp_SlotsPerEpochExponent p)) 1"

text \<open>Durations in nanoseconds.\<close>

definition LivenessThresholdLowerBound :: "protocol_parameters \<Rightarrow> int" where
  "LivenessThresholdLowerBound p = i64 (uint (pp_LivenessThresholdLowerBoundInSeconds p) * 1000000000)"

definition LivenessThresholdUpperBound :: "protocol_parameters \<Rightarrow> int" where
  "LivenessThresholdUpperBound p = i64 (uint (pp_LivenessThresholdUpperBoundInSeconds p) * 1000000000)"

section \<open>The API\<close>

record v3_api =
  v3_protocolParameters :: protocol_parameters
  v3_timeProvider :: time_provider
  v3_manaDecayProvider :: mana_decay_provider
  v3_livenessThresholdDuration :: int
  v3_storageScoreStructure :: storage_score_structure
  v3_maxBlockWork :: u32

definition V3API :: "'a work_deps_scheme \<Rightarrow> protocol_parameters \<Rightarrow> v3_api go" where
  "V3API D p =
    (let timeProvider = NewTimeProvider (pp_GenesisSlot p) (pp_GenesisUnixTimestamp p)
           (uint (pp_SlotDurationInSeconds p)) (pp_SlotsPerEpochExponent p)
     in andthen (mustE (MaxBlockWork D (pp_WorkScoreParameters p))) (\<lambda>maxBlockWork.
        andthen (NewStorageScoreStructure D (pp_StorageScoreParameters p)) (\<lambda>storageScoreStructure.
        Inr \<lparr>v3_protocolParameters = p,
             v3_timeProvider = timeProvider,
             v3_manaDecayProvider = NewManaDecayProvider timeProvider (pp_SlotsPerEpochExponent p) (pp_ManaParameters p),
             v3_livenessThresholdDuration = 0,
             v3_storageScoreStructure = storageScoreStructure,
             v3_maxBlockWork = maxBlockWork\<rparr>)))"

definition v3Version :: "v3_api \<Rightarrow> u8" where
  "v3Version v = pp_Version (v3_protocolParameters v)"

definition v3Equals :: "v3_api \<Rightarrow> v3_api \<Rightarrow> bool" where
  "v3Equals v other = protocolParametersEquals (v3_protocolParameters v) (v3_protocolParameters other)"

text \<open>What the virtual machine reads of an API.\<close>

definition ledgerAPI :: "'a deps_scheme \<Rightarrow> v3_api \<Rightarrow> ledger_api" where
  "ledgerAPI D v =
    (let p = v3_protocolParameters v in
     \<lparr>api_NetworkID = paramsNetworkID D p,
      api_TokenSupply = pp_TokenSupply p,
      api_ManaBitsCount = unat (mp_BitsCount (pp_ManaParameters p)),
      api_MinCommittableAge = pp_MinCommittableAge p,
      api_MaxCommittableAge = pp_MaxCommittableAge p,
      api_StakingUnbondingPeriod = pp_StakingUnbondingPeriod p,
      api_EpochNearingThreshold = pp_EpochNearingThreshold p,
      api_TimeProvider = v3_timeProvider v,
      api_ManaDecayProvider = v3_manaDecayProvider v,
      api_StorageScoreStructure = v3_storageScoreStructure v\<rparr>)"

section \<open>Properties\<close>

lemma sub_equals:
  "storageScoreParametersEquals r r' \<longleftrightarrow> r = r'" "workScoreParametersEquals w w' \<longleftrightarrow> w = w'"
  "manaParametersEquals m m' \<longleftrightarrow> m = m'" "congestionControlEquals c c' \<longleftrightarrow> c = c'"
  "versionSignalingEquals s s' \<longleftrightarrow> s = s'" "rewardsParametersEquals t t' \<longleftrightarrow> t = t'"
  by (auto simp: storageScoreParametersEquals_def workScoreParametersEquals_def manaParametersEquals_def
      congestionControlEquals_def versionSignalingEquals_def rewardsParametersEquals_def)

text \<open>Two sets of protocol parameters are equal for Equals exactly when they agree in every field.\<close>

theorem parameters_equal: "protocolParametersEquals p q \<longleftrightarrow> p = q"
  by (auto simp: protocolParametersEquals_def sub_equals)

lemma V3API_fields:
  assumes "V3API D p = Inr v"
  shows "v3_protocolParameters v = p" "v3_livenessThresholdDuration v = 0"
    "v3_timeProvider v = NewTimeProvider (pp_GenesisSlot p) (pp_GenesisUnixTimestamp p)
       (uint (pp_SlotDurationInSeconds p)) (pp_SlotsPerEpochExponent p)"
  using assms by (auto simp: V3API_def Let_def andthen_eq_Inr)

lemma exp_u32:
  "32 \<le> n \<Longrightarrow> (2 :: u32) ^ n = 0" "n < 32 \<Longrightarrow> unat ((2 :: u32) ^ n) = 2 ^ n"
proof -
  show "32 \<le> n \<Longrightarrow> (2 :: u32) ^ n = 0" by simp
  assume "n < 32"
  then have "(2 :: nat) ^ n < 2 ^ 32" by (intro power_strict_increasing) auto
  then have "unat (word_of_nat (2 ^ n) :: u32) = 2 ^ n" by (intro of_nat_inverse [OF refl]) simp
  then show "unat ((2 :: u32) ^ n) = 2 ^ n" by (simp only: of_nat_power of_nat_numeral)
qed

lemma mult_no_less: "unat (a * b :: 'w::len word) \<le> unat a * unat b"
  by (simp add: unat_word_ariths)

text \<open>C18: The parameters the constructor makes give a working API: although its checks multiply and shift
  @\<open>uint32\<close> values that wrap around, they ensure that the ages are ordered below the length of an epoch, that
  the liveness thresholds lie within the time a slot needs to be committed, that the thresholds of the congestion
  control are within what the scheduler handles in a slot, and that the clock of the API is sane, so that the
  conversions between times, slots and epochs are exact.\<close>

theorem sane_parameters:
  assumes new: "NewV3SnapshotProtocolParameters F now opts = Inr p"
    and "\<bar>pp_GenesisUnixTimestamp p\<bar> < 2 ^ 61" "V3API D p = Inr v"
  shows "clock_ok (v3_timeProvider v)
    \<and> unat (tp_epochDurationSlots (v3_timeProvider v)) = 2 ^ unat (pp_SlotsPerEpochExponent p)
    \<and> pp_MinCommittableAge p < pp_MaxCommittableAge p \<and> pp_MaxCommittableAge p < pp_EpochNearingThreshold p
    \<and> unat (pp_EpochNearingThreshold p) < 2 ^ unat (pp_SlotsPerEpochExponent p)
    \<and> LivenessThresholdLowerBound p \<le> LivenessThresholdUpperBound p
    \<and> unat (pp_LivenessThresholdUpperBoundInSeconds p)
        < unat (pp_MinCommittableAge p) * unat (pp_SlotDurationInSeconds p)
    \<and> (let cc = pp_CongestionControlParameters p in
       cc_DecreaseThreshold cc \<le> cc_IncreaseThreshold cc
       \<and> unat (cc_IncreaseThreshold cc) \<le> unat (pp_SlotDurationInSeconds p) * unat (cc_SchedulerRate cc))"
proof -
  have "timeSanityCheck p = Inr ()" "congestionControlSanityCheck p = Inr ()"
    using new by (auto simp: NewV3SnapshotProtocolParameters_def andthen_eq_Inr)
  note assms = this assms(2-)
  let ?dur = "ucast (pp_SlotDurationInSeconds p) :: u32" and ?e = "unat (pp_SlotsPerEpochExponent p)"
  have time: "pp_LivenessThresholdLowerBoundInSeconds p \<le> pp_LivenessThresholdUpperBoundInSeconds p"
    "ucast (pp_LivenessThresholdUpperBoundInSeconds p) < pp_MinCommittableAge p * ?dur"
    "pp_MinCommittableAge p < pp_MaxCommittableAge p" "pp_MaxCommittableAge p < pp_EpochNearingThreshold p"
    "pp_EpochNearingThreshold p < push_bit ?e 1"
    using assms(1) by (auto simp: timeSanityCheck_def not_le not_less split: if_splits)
  have dur: "unat ?dur = unat (pp_SlotDurationInSeconds p)" by simp
  have e: "?e < 32"
    using time(5) exp_u32(1) [of ?e] by (cases "?e < 32") auto
  have upper: "unat (pp_LivenessThresholdUpperBoundInSeconds p)
      < unat (pp_MinCommittableAge p) * unat (pp_SlotDurationInSeconds p)"
    using time(2) mult_no_less [of "pp_MinCommittableAge p" ?dur] by (simp add: word_less_nat_alt)
  then have "0 < pp_SlotDurationInSeconds p" by (cases "pp_SlotDurationInSeconds p = 0") (auto simp: word_neq_0_conv)
  then have "0 < uint (pp_SlotDurationInSeconds p)" by (simp add: word_less_def)
  moreover have "uint (pp_SlotDurationInSeconds p) < 2 ^ 30"
    using uint_lt2p [of "pp_SlotDurationInSeconds p"] by simp
  ultimately have "clock_ok (v3_timeProvider v)"
    using assms(3) e by (simp add: V3API_fields [OF assms(4)] clock_ok_New)
  moreover have "unat (tp_epochDurationSlots (v3_timeProvider v)) = 2 ^ ?e"
    by (simp add: V3API_fields [OF assms(4)] NewTimeProvider_def exp_u32 e)
  moreover have "LivenessThresholdLowerBound p \<le> LivenessThresholdUpperBound p"
  proof -
    have "i64 (uint (w :: u16) * 1000000000) = uint w * 1000000000" for w
      using uint_lt2p [of w] by (intro i64_id) (auto simp: order_trans [OF _ mult_nonneg_nonneg])
    then show ?thesis
      using time(1) by (simp add: LivenessThresholdLowerBound_def LivenessThresholdUpperBound_def word_le_def)
  qed
  moreover have "let cc = pp_CongestionControlParameters p in
      cc_DecreaseThreshold cc \<le> cc_IncreaseThreshold cc
      \<and> unat (cc_IncreaseThreshold cc) \<le> unat (pp_SlotDurationInSeconds p) * unat (cc_SchedulerRate cc)"
    using assms(2) mult_no_less [of ?dur "cc_SchedulerRate (pp_CongestionControlParameters p)"]
    by (auto simp: congestionControlSanityCheck_def Let_def not_less word_le_nat_alt split: if_splits)
  moreover have "unat (pp_EpochNearingThreshold p) < 2 ^ ?e"
    using time(5) exp_u32 e by (simp add: word_less_nat_alt)
  ultimately show ?thesis using time upper by blast
qed

text \<open>The parameters of the test network, with the derived values replaced by constants.\<close>

definition demo_floats :: float_functions where
  "demo_floats = \<lparr>deriveManaDecayFactors = (\<lambda>_ _ _ _. [4290000000]),
     deriveManaDecayFactorEpochsSum = (\<lambda>_ _ _ _. 2262417561),
     deriveBootstrappingDuration = (\<lambda>_ _ _. 1154), deriveTargetRewardsRates = (\<lambda>_. Inr (616067521149261, 226702563632670)),
     manaSupplySanityCheck = (\<lambda>_. Inr ()), stakingSanityCheck = (\<lambda>_. Inr ())\<rparr>"

definition demo_parameters :: protocol_parameters where
  "demo_parameters = projr (NewV3SnapshotProtocolParameters demo_floats 1695275822 [])"

lemma demo_parameters: "NewV3SnapshotProtocolParameters demo_floats 1695275822 [] = Inr demo_parameters"
  by code_simp

lemma demo_parameters_costs:
  "pp_StorageScoreParameters demo_parameters = demo_score"
  "pp_WorkScoreParameters demo_parameters = \<lparr>wsp_DataByte = 500, wsp_Block = 110000, wsp_Input = 7500,
     wsp_ContextInput = 40000, wsp_Output = 90000, wsp_NativeToken = 50000, wsp_Staking = 40000,
     wsp_BlockIssuer = 70000, wsp_Allotment = 5000, wsp_SignatureEd25519 = 15000\<rparr>"
  by code_simp+

definition demo_v3 :: v3_api where
  "demo_v3 =
    (let p = demo_parameters;
         timeProvider = NewTimeProvider (pp_GenesisSlot p) (pp_GenesisUnixTimestamp p)
           (uint (pp_SlotDurationInSeconds p)) (pp_SlotsPerEpochExponent p)
     in \<lparr>v3_protocolParameters = p, v3_timeProvider = timeProvider,
         v3_manaDecayProvider = NewManaDecayProvider timeProvider (pp_SlotsPerEpochExponent p) (pp_ManaParameters p),
         v3_livenessThresholdDuration = 0, v3_storageScoreStructure = demo_structure, v3_maxBlockWork = 74295000\<rparr>)"

lemma demo_v3_api:
  assumes "safemath32 D" "SafeSub64 D = ref_sub" "MaxPayloadSize D = 32530" "serOneByte D = 1"
    "serSmallType D = 1" "serUInt16 D = 2" "serUInt32 D = 4"
  shows "V3API D demo_parameters = Inr demo_v3"
proof -
  have "MaxBlockWork D (pp_WorkScoreParameters demo_parameters) = Inr 74295000"
    using MaxBlockWork_exact [OF assms(1), of "pp_WorkScoreParameters demo_parameters" 74295000]
    by (simp add: assms demo_parameters_costs)
  moreover have "NewStorageScoreStructure D demo_score = Inr demo_structure"
    by (simp add: assms NewStorageScoreStructure_def basicStorageScore_def accountStorageScore_def basicSize_def
      accountSize_def ucsSize_def featsSize_def ucSize_def featSize_def ucsStorageScore_def
      featsStorageScore_def ucStorageScore_def featStorageScore_def addrStorageScore_def dummyAccount_def
      basicWithAddress_def dataScore_def blockIssuerKeysSize_def blockIssuerKeysStorageScore_def Let_def
      demo_structure_def demo_score_def ref_sub_def factorMultiply_def)
  ultimately show ?thesis by (simp add: V3API_def Let_def demo_parameters_costs(1) demo_v3_def)
qed

lemma demo_v3: "V3API ref_work_deps demo_parameters = Inr demo_v3"
  by (rule demo_v3_api) (simp_all add: ref_work_safe(2) [simplified] ref_MaxPayloadSize)

theorem sane_parameters_witness:
  "clock_ok (v3_timeProvider demo_v3)
    \<and> unat (tp_epochDurationSlots (v3_timeProvider demo_v3)) = 2 ^ unat (pp_SlotsPerEpochExponent demo_parameters)"
proof -
  have "\<bar>pp_GenesisUnixTimestamp demo_parameters\<bar> < 2 ^ 61" by code_simp
  from sane_parameters [OF demo_parameters this demo_v3] show ?thesis by blast
qed

end
