(* ===== verification/Api_Provider.thy ===== *)
theory Api_Provider
  imports Protocol_Params
begin

text \<open>
  The provider that hands out the API of each epoch while the protocol is upgraded,
  api_epoch_based_provider.go with api_protocol_epoch_versions.go, and the provider of a single version,
  api_single_version_provider.go.  The provider is a state machine: protocol parameters and versions are added
  in any order, the committed slot advances.  Each method holds the mutex from its first to its last line, so
  the steps of concurrent callers are interleaved as whole calls.  A panic ends the run.
\<close>

section \<open>Versions and the epochs they start in\<close>

record epoch_version =
  ev_Version :: u8
  ev_StartEpoch :: u32

record protocol_epoch_versions =
  versionsPerEpoch :: "epoch_version list"
  knownVersions :: "u8 \<Rightarrow> u32 option"

definition NewProtocolEpochVersions :: protocol_epoch_versions where
  "NewProtocolEpochVersions = \<lparr>versionsPerEpoch = [], knownVersions = Map.empty\<rparr>"

text \<open>The loop runs from the end of the slice.\<close>

fun lastStarted :: "u32 \<Rightarrow> epoch_version list \<Rightarrow> u8 go" where
  "lastStarted epoch [] = Inl (Panic ''could not find a protocol version for epoch %d'')"
| "lastStarted epoch (v # vs) = (if ev_StartEpoch v \<le> epoch then Inr (ev_Version v) else lastStarted epoch vs)"

definition VersionForEpoch :: "protocol_epoch_versions \<Rightarrow> u32 \<Rightarrow> u8 go" where
  "VersionForEpoch p epoch = lastStarted epoch (rev (versionsPerEpoch p))"

text \<open>No version is in the slice twice, so the order does not depend on the sorting algorithm.\<close>

definition versionsAdd :: "protocol_epoch_versions \<Rightarrow> u8 \<Rightarrow> u32 \<Rightarrow> protocol_epoch_versions" where
  "versionsAdd p version epoch =
    (case knownVersions p version of
       Some _ \<Rightarrow> p
     | None \<Rightarrow>
         let vs = versionsPerEpoch p @ [\<lparr>ev_Version = version, ev_StartEpoch = epoch\<rparr>]
         in p\<lparr>versionsPerEpoch := sort_key ev_Version vs, knownVersions := (knownVersions p)(version \<mapsto> epoch)\<rparr>)"

definition EpochForVersion :: "protocol_epoch_versions \<Rightarrow> u8 \<Rightarrow> u32 option" where
  "EpochForVersion p version = knownVersions p version"

definition epochVersionBytes :: "epoch_version \<Rightarrow> bytes" where
  "epochVersionBytes v = [ev_Version v] @ le32 (ev_StartEpoch v)"

definition epochVersionsBytes :: "protocol_epoch_versions \<Rightarrow> bytes" where
  "epochVersionsBytes p = concat (map epochVersionBytes (versionsPerEpoch p))"

section \<open>The provider\<close>

text \<open>The encoder of the parameters and the stream writers of hive.go are parameters.\<close>

record provider_deps = work_deps +
  encParameters :: "protocol_parameters \<Rightarrow> bytes go"
  writeVersion :: "u8 \<Rightarrow> bytes go"
  writeEpoch :: "u32 \<Rightarrow> bytes go"
  writeIdentifier :: "bytes \<Rightarrow> bytes go"

definition paramsHash :: "'a provider_deps_scheme \<Rightarrow> protocol_parameters \<Rightarrow> bytes go" where
  "paramsHash D p = andthen (encParameters D p) (\<lambda>bytes. Inr (sum256 D bytes))"

record epoch_provider =
  protocolParametersByVersion :: "u8 \<Rightarrow> protocol_parameters option"
  futureProtocolParametersByVersion :: "u8 \<Rightarrow> bytes option"
  protocolVersions :: protocol_epoch_versions
  latestAPI :: "v3_api option"
  committedAPI :: "v3_api option"
  committedSlot :: u32
  apiForMissingVersion :: "(protocol_parameters \<Rightarrow> v3_api go) option"

definition NewEpochBasedProvider :: "(protocol_parameters \<Rightarrow> v3_api go) option \<Rightarrow> epoch_provider" where
  "NewEpochBasedProvider callback =
     \<lparr>protocolParametersByVersion = Map.empty, futureProtocolParametersByVersion = Map.empty,
      protocolVersions = NewProtocolEpochVersions, latestAPI = None, committedAPI = None, committedSlot = 0,
      apiForMissingVersion = callback\<rparr>"

definition withVersion :: "u8 \<Rightarrow> v3_api option \<Rightarrow> v3_api option" where
  "withVersion version a = (case a of None \<Rightarrow> None | Some v \<Rightarrow> if v3Version v = version then Some v else None)"

definition apiForVersion :: "'a provider_deps_scheme \<Rightarrow> epoch_provider \<Rightarrow> u8 \<Rightarrow> v3_api go" where
  "apiForVersion D e version =
    (case withVersion version (latestAPI e) of Some a \<Rightarrow> Inr a
     | None \<Rightarrow> case withVersion version (committedAPI e) of Some a \<Rightarrow> Inr a
     | None \<Rightarrow> case protocolParametersByVersion e version of
         None \<Rightarrow> throw (Errorf ''protocol parameters for version %d are not set'')
       | Some protocolParams \<Rightarrow>
           if pp_Version protocolParams = 3 then V3API D protocolParams
           else case apiForMissingVersion e of
               Some callback \<Rightarrow> callback protocolParams
             | None \<Rightarrow> throw (Errorf ''no api available for parameters with version %d''))"

definition updateCommittedAPI :: "'a provider_deps_scheme \<Rightarrow> epoch_provider \<Rightarrow> u32 \<Rightarrow> epoch_provider go" where
  "updateCommittedAPI D e slot =
    (case latestAPI e of
       None \<Rightarrow> Inr e
     | Some a \<Rightarrow>
         andthen (VersionForEpoch (protocolVersions e) (EpochFromSlot (v3_timeProvider a) slot)) (\<lambda>version.
         if (case committedAPI e of None \<Rightarrow> True | Some c \<Rightarrow> pp_Version (v3_protocolParameters c) < version)
         then andthen (mustE (apiForVersion D e version)) (\<lambda>c. Inr (e\<lparr>committedAPI := Some c\<rparr>))
         else Inr e))"

definition SetCommittedSlot :: "'a provider_deps_scheme \<Rightarrow> epoch_provider \<Rightarrow> u32 \<Rightarrow> epoch_provider go" where
  "SetCommittedSlot D e slot = updateCommittedAPI D (e\<lparr>committedSlot := slot\<rparr>) slot"

definition AddProtocolParameters ::
    "'a provider_deps_scheme \<Rightarrow> epoch_provider \<Rightarrow> protocol_parameters \<Rightarrow> epoch_provider go" where
  "AddProtocolParameters D e protocolParameters =
    (let version = pp_Version protocolParameters;
         e = e\<lparr>protocolParametersByVersion := (protocolParametersByVersion e)(version \<mapsto> protocolParameters),
               futureProtocolParametersByVersion := (futureProtocolParametersByVersion e)(version := None)\<rparr>
     in if (case latestAPI e of None \<Rightarrow> True | Some a \<Rightarrow> v3Version a < version)
        then andthen (mustE (apiForVersion D e version)) (\<lambda>a. Inr (e\<lparr>latestAPI := Some a\<rparr>))
        else Inr e)"

definition AddVersion :: "'a provider_deps_scheme \<Rightarrow> epoch_provider \<Rightarrow> u8 \<Rightarrow> u32 \<Rightarrow> epoch_provider go" where
  "AddVersion D e version epoch =
     updateCommittedAPI D (e\<lparr>protocolVersions := versionsAdd (protocolVersions e) version epoch\<rparr>) (committedSlot e)"

definition AddProtocolParametersAtEpoch ::
    "'a provider_deps_scheme \<Rightarrow> epoch_provider \<Rightarrow> protocol_parameters \<Rightarrow> u32 \<Rightarrow> epoch_provider go" where
  "AddProtocolParametersAtEpoch D e protocolParameters epoch =
     andthen (AddProtocolParameters D e protocolParameters) (\<lambda>e.
     AddVersion D e (pp_Version protocolParameters) epoch)"

definition AddFutureVersion :: "epoch_provider \<Rightarrow> u8 \<Rightarrow> bytes \<Rightarrow> u32 \<Rightarrow> epoch_provider" where
  "AddFutureVersion e version protocolParamsHash epoch =
     e\<lparr>protocolVersions := versionsAdd (protocolVersions e) version epoch,
       futureProtocolParametersByVersion := (futureProtocolParametersByVersion e)(version \<mapsto> protocolParamsHash)\<rparr>"

section \<open>Queries\<close>

definition derefAPI :: "v3_api option \<Rightarrow> v3_api go" where
  "derefAPI a = (case a of None \<Rightarrow> Inl (Panic ''nil pointer dereference'') | Some v \<Rightarrow> Inr v)"

definition APIForEpoch :: "'a provider_deps_scheme \<Rightarrow> epoch_provider \<Rightarrow> u32 \<Rightarrow> v3_api go" where
  "APIForEpoch D e epoch =
     andthen (VersionForEpoch (protocolVersions e) epoch) (\<lambda>version. mustE (apiForVersion D e version))"

definition APIForSlot :: "'a provider_deps_scheme \<Rightarrow> epoch_provider \<Rightarrow> u32 \<Rightarrow> v3_api go" where
  "APIForSlot D e slot =
     andthen (derefAPI (latestAPI e)) (\<lambda>a.
     andthen (VersionForEpoch (protocolVersions e) (EpochFromSlot (v3_timeProvider a) slot)) (\<lambda>version.
     mustE (apiForVersion D e version)))"

definition APIForTime :: "'a provider_deps_scheme \<Rightarrow> epoch_provider \<Rightarrow> int \<Rightarrow> v3_api go" where
  "APIForTime D e t =
     andthen (derefAPI (latestAPI e)) (\<lambda>a.
     andthen (SlotFromTime (v3_timeProvider a) t) (\<lambda>slot.
     andthen (VersionForEpoch (protocolVersions e) (EpochFromSlot (v3_timeProvider a) slot)) (\<lambda>version.
     mustE (apiForVersion D e version))))"

definition VersionForSlot :: "epoch_provider \<Rightarrow> u32 \<Rightarrow> u8 go" where
  "VersionForSlot e slot =
     andthen (derefAPI (latestAPI e)) (\<lambda>a.
     VersionForEpoch (protocolVersions e) (EpochFromSlot (v3_timeProvider a) slot))"

definition ProtocolParametersHash :: "'a provider_deps_scheme \<Rightarrow> epoch_provider \<Rightarrow> u8 \<Rightarrow> bytes go" where
  "ProtocolParametersHash D e version =
    (case protocolParametersByVersion e version of
       Some params \<Rightarrow> mustE (paramsHash D params)
     | None \<Rightarrow> (case futureProtocolParametersByVersion e version of
         Some h \<Rightarrow> Inr h | None \<Rightarrow> Inr (replicate 32 0)))"

definition versionHash :: "'a provider_deps_scheme \<Rightarrow> epoch_provider \<Rightarrow> u8 \<Rightarrow> bytes go" where
  "versionHash D e version =
    (case protocolParametersByVersion e version of
       Some params \<Rightarrow> wrapE ''failed to get protocol parameters hash'' (paramsHash D params)
     | None \<Rightarrow> (case futureProtocolParametersByVersion e version of
         Some h \<Rightarrow> Inr h | None \<Rightarrow> throw (Errorf ''protocol parameters for version %d are not set'')))"

definition VersionsAndProtocolParametersHash :: "'a provider_deps_scheme \<Rightarrow> epoch_provider \<Rightarrow> bytes go" where
  "VersionsAndProtocolParametersHash D e =
     andthen (foldG (\<lambda>byteBuffer v.
         andthen (wrapE ''failed to write Version'' (writeVersion D (ev_Version v))) (\<lambda>b1.
         andthen (wrapE ''failed to write StartEpoch'' (writeEpoch D (ev_StartEpoch v))) (\<lambda>b2.
         andthen (versionHash D e (ev_Version v)) (\<lambda>h.
         andthen (wrapE ''failed to write protocol parameters hash bytes'' (writeIdentifier D h)) (\<lambda>b3.
         Inr (byteBuffer @ b1 @ b2 @ b3))))))
       [] (versionsPerEpoch (protocolVersions e))) (\<lambda>byteBuffer. Inr (sum256 D byteBuffer))"

section \<open>Versions\<close>

text \<open>The slice holds the known versions in ascending order.\<close>

definition versions_ok :: "protocol_epoch_versions \<Rightarrow> bool" where
  "versions_ok p \<longleftrightarrow> sorted (map ev_Version (versionsPerEpoch p)) \<and> distinct (map ev_Version (versionsPerEpoch p))
     \<and> knownVersions p = map_of (map (\<lambda>v. (ev_Version v, ev_StartEpoch v)) (versionsPerEpoch p))"

lemma versions_ok_New: "versions_ok NewProtocolEpochVersions"
  by (simp add: versions_ok_def NewProtocolEpochVersions_def)

lemma versions_ok_Add:
  assumes "versions_ok p"
  shows "versions_ok (versionsAdd p version epoch)"
proof (cases "knownVersions p version")
  case None
  let ?v = "\<lparr>ev_Version = version, ev_StartEpoch = epoch\<rparr>" and ?kv = "\<lambda>v. (ev_Version v, ev_StartEpoch v)"
  let ?vs = "versionsPerEpoch p @ [?v]"
  have new: "version \<notin> ev_Version ` set (versionsPerEpoch p)"
    using None assms by (auto simp: versions_ok_def map_of_eq_None_iff image_image)
  have sorted: "sorted (map ev_Version (sort_key ev_Version ?vs))" by (rule sorted_sort_key)
  have dist: "distinct (map ev_Version ?vs)" using assms new by (auto simp: versions_ok_def)
  have perm: "mset (map ev_Version (sort_key ev_Version ?vs)) = mset (map ev_Version ?vs)"
    by (metis mset_map mset_sort)
  have dist': "distinct (map ev_Version (sort_key ev_Version ?vs))"
    using dist perm mset_eq_imp_distinct_iff by blast
  have "map_of (map ?kv (sort_key ev_Version ?vs)) = map_of (map ?kv ?vs)"
  proof (rule map_of_inject_set [THEN iffD2])
    show "distinct (map fst (map ?kv (sort_key ev_Version ?vs)))" using dist' by (simp add: comp_def)
    show "distinct (map fst (map ?kv ?vs))" using dist by (simp add: comp_def)
  qed simp
  also have "map_of (map ?kv ?vs) = (map_of (map ?kv (versionsPerEpoch p)))(version \<mapsto> epoch)"
  proof -
    have "map_of (map ?kv (versionsPerEpoch p)) version = None"
      using new by (auto simp: map_of_eq_None_iff image_image)
    then show ?thesis by (auto simp: map_add_def fun_eq_iff split: option.splits)
  qed
  finally show ?thesis
    using None sorted dist' assms by (simp add: versionsAdd_def versions_ok_def Let_def)
qed (use assms in \<open>simp add: versionsAdd_def\<close>)

lemma lastStarted_rev:
  assumes "sorted (map ev_Version vs)" "distinct (map ev_Version vs)"
  shows "lastStarted epoch (rev vs) = Inr n \<longleftrightarrow>
    (\<exists>v \<in> set vs. ev_Version v = n \<and> ev_StartEpoch v \<le> epoch)
    \<and> (\<forall>v \<in> set vs. ev_StartEpoch v \<le> epoch \<longrightarrow> ev_Version v \<le> n)"
  using assms
proof (induction vs rule: rev_induct)
  case (snoc v vs)
  then show ?case by (auto simp: sorted_append)
qed simp

lemma lastStarted_panic:
  "\<not> (\<exists>n. lastStarted epoch vs = Inr n) \<longleftrightarrow> (\<forall>v \<in> set vs. \<not> ev_StartEpoch v \<le> epoch)"
  by (induction vs) auto

lemma VersionForEpoch_iff:
  assumes "versions_ok p"
  shows "VersionForEpoch p epoch = Inr n \<longleftrightarrow>
    (\<exists>e. knownVersions p n = Some e \<and> e \<le> epoch)
    \<and> (\<forall>m e. knownVersions p m = Some e \<and> e \<le> epoch \<longrightarrow> m \<le> n)"
proof -
  let ?vs = "versionsPerEpoch p"
  have dist: "distinct (map ev_Version ?vs)" and sorted: "sorted (map ev_Version ?vs)"
    and known: "knownVersions p = map_of (map (\<lambda>v. (ev_Version v, ev_StartEpoch v)) ?vs)"
    using assms by (auto simp: versions_ok_def)
  have "knownVersions p m = Some e \<longleftrightarrow> (\<exists>v \<in> set ?vs. ev_Version v = m \<and> ev_StartEpoch v = e)" for m e
    unfolding known using dist by (subst map_of_eq_Some_iff) (auto simp: comp_def)
  then show ?thesis
    unfolding VersionForEpoch_def lastStarted_rev [OF sorted dist] by (simp; blast)
qed

lemma versionsAdd_known:
  "knownVersions (versionsAdd p version epoch) =
     (if knownVersions p version = None then (knownVersions p)(version \<mapsto> epoch) else knownVersions p)"
  by (auto simp: versionsAdd_def Let_def split: option.splits)

definition addVersions :: "(u8 \<times> u32) list \<Rightarrow> protocol_epoch_versions" where
  "addVersions vs = foldl (\<lambda>p (version, epoch). versionsAdd p version epoch) NewProtocolEpochVersions vs"

lemma addVersions_snoc: "addVersions (vs @ [(version, epoch)]) = versionsAdd (addVersions vs) version epoch"
  by (simp add: addVersions_def)

lemma addVersions_known: "versions_ok (addVersions vs) \<and> knownVersions (addVersions vs) = map_of vs"
proof (induction vs rule: rev_induct)
  case Nil
  show ?case using versions_ok_New by (simp add: addVersions_def NewProtocolEpochVersions_def)
next
  case (snoc v vs)
  obtain version epoch where v: "v = (version, epoch)" by (cases v)
  have "map_of (vs @ [(version, epoch)])
      = (if map_of vs version = None then (map_of vs)(version \<mapsto> epoch) else map_of vs)"
    by (auto simp: map_add_def fun_eq_iff split: option.splits)
  then show ?case
    using snoc versions_ok_Add by (simp add: v addVersions_snoc versionsAdd_known)
qed

text \<open>Whatever versions were added in whatever order, VersionForEpoch finds the highest version that has started
  by the epoch, where the first start epoch given for a version counts; it panics exactly when no version has
  started yet.\<close>

theorem version_for_epoch:
  "(VersionForEpoch (addVersions vs) epoch = Inr n \<longleftrightarrow>
     n \<in> {m. \<exists>e. map_of vs m = Some e \<and> e \<le> epoch} \<and> n = Max {m. \<exists>e. map_of vs m = Some e \<and> e \<le> epoch})
   \<and> (is_panic (VersionForEpoch (addVersions vs) epoch) \<longleftrightarrow> {m. \<exists>e. map_of vs m = Some e \<and> e \<le> epoch} = {})"
proof -
  let ?S = "{m. \<exists>e. map_of vs m = Some e \<and> e \<le> epoch}"
  have fin: "finite ?S"
    by (rule finite_subset [of _ "dom (map_of vs)"]) (auto simp: finite_dom_map_of)
  have iff: "VersionForEpoch (addVersions vs) epoch = Inr n \<longleftrightarrow> n \<in> ?S \<and> (\<forall>m \<in> ?S. m \<le> n)" for n
    using VersionForEpoch_iff [of "addVersions vs" epoch n] addVersions_known [of vs] by (simp; blast)
  have max: "n \<in> ?S \<and> (\<forall>m \<in> ?S. m \<le> n) \<longleftrightarrow> n \<in> ?S \<and> n = Max ?S" for n
  proof
    assume "n \<in> ?S \<and> (\<forall>m \<in> ?S. m \<le> n)"
    then show "n \<in> ?S \<and> n = Max ?S" using Max_eqI [OF fin, of n] by blast
  next
    assume n: "n \<in> ?S \<and> n = Max ?S"
    then have "\<forall>m \<in> ?S. m \<le> n" using Max_ge [OF fin] by blast
    with n show "n \<in> ?S \<and> (\<forall>m \<in> ?S. m \<le> n)" by blast
  qed
  have "is_panic (VersionForEpoch (addVersions vs) epoch) \<longleftrightarrow> \<not> (\<exists>n. VersionForEpoch (addVersions vs) epoch = Inr n)"
  proof -
    have "is_panic (lastStarted epoch us) \<or> (\<exists>n. lastStarted epoch us = Inr n)" for us
      by (induction us) (auto split: if_splits)
    then show ?thesis by (auto simp: VersionForEpoch_def)
  qed
  moreover have "(\<exists>n. n \<in> ?S \<and> (\<forall>m \<in> ?S. m \<le> n)) \<longleftrightarrow> ?S \<noteq> {}"
    unfolding max using Max_in [OF fin] by blast
  ultimately show ?thesis unfolding iff max by (simp only:) blast
qed

section \<open>Runs of the provider\<close>

datatype provider_event =
    CommitSlot u32
  | NewParameters protocol_parameters
  | NewVersion u8 u32
  | FutureVersion u8 bytes u32

primrec runEvent :: "'a provider_deps_scheme \<Rightarrow> epoch_provider \<Rightarrow> provider_event \<Rightarrow> epoch_provider go" where
  "runEvent D e (CommitSlot slot) = SetCommittedSlot D e slot"
| "runEvent D e (NewParameters p) = AddProtocolParameters D e p"
| "runEvent D e (NewVersion version epoch) = AddVersion D e version epoch"
| "runEvent D e (FutureVersion version h epoch) = Inr (AddFutureVersion e version h epoch)"

inductive provider_run :: "'a provider_deps_scheme \<Rightarrow> epoch_provider \<Rightarrow> epoch_provider \<Rightarrow> bool" for D where
  run_done: "provider_run D e e"
| run_step: "provider_run D e e' \<Longrightarrow> runEvent D e' ev = Inr e'' \<Longrightarrow> provider_run D e e''"

text \<open>The callback makes an API of the version of the parameters.\<close>

definition callback_ok :: "(protocol_parameters \<Rightarrow> v3_api go) option \<Rightarrow> bool" where
  "callback_ok cb \<longleftrightarrow> (\<forall>f p a. cb = Some f \<longrightarrow> f p = Inr a \<longrightarrow> v3_protocolParameters a = p)"

definition provider_ok :: "epoch_provider \<Rightarrow> bool" where
  "provider_ok e \<longleftrightarrow> versions_ok (protocolVersions e) \<and> callback_ok (apiForMissingVersion e)
     \<and> (\<forall>v p. protocolParametersByVersion e v = Some p \<longrightarrow> pp_Version p = v)
     \<and> (case latestAPI e of
          None \<Rightarrow> dom (protocolParametersByVersion e) = {} \<and> committedAPI e = None
        | Some a \<Rightarrow> v3Version a \<in> dom (protocolParametersByVersion e)
            \<and> (\<forall>v \<in> dom (protocolParametersByVersion e). v \<le> v3Version a))
     \<and> (\<forall>c. committedAPI e = Some c \<longrightarrow> v3Version c \<in> dom (protocolParametersByVersion e)
          \<and> v3Version c \<in> dom (knownVersions (protocolVersions e)))"

lemma provider_ok_New: "callback_ok cb \<Longrightarrow> provider_ok (NewEpochBasedProvider cb)"
  by (simp add: provider_ok_def NewEpochBasedProvider_def versions_ok_New)

lemma withVersion_Some: "withVersion v a = Some b \<longleftrightarrow> a = Some b \<and> v3Version b = v"
  by (auto simp: withVersion_def split: option.splits if_splits)

lemma apiForVersion_version:
  assumes "callback_ok (apiForMissingVersion e)"
    and "\<forall>v p. protocolParametersByVersion e v = Some p \<longrightarrow> pp_Version p = v"
    and "apiForVersion D e version = Inr a"
  shows "v3Version a = version"
    "latestAPI e = Some a \<or> committedAPI e = Some a \<or> protocolParametersByVersion e version = Some (v3_protocolParameters a)"
  using assms
  by (auto simp: apiForVersion_def withVersion_Some v3Version_def callback_ok_def dest: V3API_fields(1)
      split: option.splits if_splits)

lemma updateCommittedAPI_fields:
  assumes "updateCommittedAPI D e slot = Inr e'"
  shows "protocolParametersByVersion e' = protocolParametersByVersion e" "protocolVersions e' = protocolVersions e"
    "latestAPI e' = latestAPI e" "apiForMissingVersion e' = apiForMissingVersion e" "committedSlot e' = committedSlot e"
  using assms by (auto simp: updateCommittedAPI_def andthen_eq_Inr split: option.splits if_splits)

lemma updateCommittedAPI_committed:
  assumes "updateCommittedAPI D e slot = Inr e'"
  shows "committedAPI e' = committedAPI e \<or>
    (\<exists>a version c. latestAPI e = Some a
      \<and> VersionForEpoch (protocolVersions e) (EpochFromSlot (v3_timeProvider a) slot) = Inr version
      \<and> (\<forall>d. committedAPI e = Some d \<longrightarrow> v3Version d < version)
      \<and> apiForVersion D e version = Inr c \<and> committedAPI e' = Some c)"
proof (cases "latestAPI e")
  case (Some a)
  then obtain version where v: "VersionForEpoch (protocolVersions e) (EpochFromSlot (v3_timeProvider a) slot) = Inr version"
    using assms by (auto simp: updateCommittedAPI_def andthen_eq_Inr)
  show ?thesis
  proof (cases "case committedAPI e of None \<Rightarrow> True | Some c \<Rightarrow> pp_Version (v3_protocolParameters c) < version")
    case True
    then obtain c where "apiForVersion D e version = Inr c" "e' = e\<lparr>committedAPI := Some c\<rparr>"
      using assms Some v by (auto simp: updateCommittedAPI_def andthen_eq_Inr)
    with Some v True show ?thesis by (auto simp: v3Version_def)
  next
    case False
    then show ?thesis using assms Some v by (auto simp: updateCommittedAPI_def)
  qed
qed (use assms in \<open>simp add: updateCommittedAPI_def\<close>)

lemma provider_ok_version:
  assumes ok: "provider_ok e" and a: "apiForVersion D e version = Inr a"
  shows "v3Version a = version" "version \<in> dom (protocolParametersByVersion e)"
proof -
  have cb: "callback_ok (apiForMissingVersion e)"
    and keys: "\<forall>v p. protocolParametersByVersion e v = Some p \<longrightarrow> pp_Version p = v"
    using ok by (auto simp: provider_ok_def)
  note api = apiForVersion_version [OF cb keys a]
  show v: "v3Version a = version" by (rule api(1))
  from api(2) show "version \<in> dom (protocolParametersByVersion e)"
    using ok v by (auto simp: provider_ok_def)
qed

lemma provider_ok_update:
  assumes ok: "provider_ok e" and up: "updateCommittedAPI D e slot = Inr e'"
  shows "provider_ok e'"
proof -
  note fields = updateCommittedAPI_fields [OF up]
  consider "committedAPI e' = committedAPI e" | version a c where "latestAPI e = Some a"
    "VersionForEpoch (protocolVersions e) (EpochFromSlot (v3_timeProvider a) slot) = Inr version"
    "apiForVersion D e version = Inr c" "committedAPI e' = Some c"
    using updateCommittedAPI_committed [OF up] by blast
  then show ?thesis
  proof cases
    case 1
    then show ?thesis using ok fields by (simp add: provider_ok_def split: option.splits)
  next
    case (2 version a c)
    have vs: "versions_ok (protocolVersions e)" using ok by (simp add: provider_ok_def)
    have "version \<in> dom (knownVersions (protocolVersions e))"
      using VersionForEpoch_iff [OF vs, THEN iffD1, OF 2(2)] by blast
    then show ?thesis
      using ok fields 2(1,4) provider_ok_version [OF ok 2(3)] by (simp add: provider_ok_def)
  qed
qed

lemma provider_ok_versions:
  assumes "provider_ok e"
  shows "provider_ok (e\<lparr>protocolVersions := versionsAdd (protocolVersions e) version epoch\<rparr>)"
  using assms versions_ok_Add [of "protocolVersions e"]
  by (cases "latestAPI e") (auto simp: provider_ok_def versionsAdd_known)

lemma provider_ok_parameters:
  assumes ok: "provider_ok e" and run: "AddProtocolParameters D e p = Inr e'"
  shows "provider_ok e'"
proof -
  define e0 where "e0 = e\<lparr>protocolParametersByVersion := (protocolParametersByVersion e)(pp_Version p \<mapsto> p),
    futureProtocolParametersByVersion := (futureProtocolParametersByVersion e)(pp_Version p := None)\<rparr>"
  have keys: "callback_ok (apiForMissingVersion e0)"
    "\<forall>v q. protocolParametersByVersion e0 v = Some q \<longrightarrow> pp_Version q = v"
    using ok by (auto simp: provider_ok_def e0_def)
  show ?thesis
  proof (cases "case latestAPI e of None \<Rightarrow> True | Some a \<Rightarrow> v3Version a < pp_Version p")
    case True
    then obtain a where a: "apiForVersion D e0 (pp_Version p) = Inr a" and e': "e' = e0\<lparr>latestAPI := Some a\<rparr>"
      using run by (auto simp: AddProtocolParameters_def Let_def e0_def andthen_eq_Inr split: option.splits)
    have "v3Version a = pp_Version p" by (rule apiForVersion_version(1) [OF keys a])
    moreover have "\<forall>v \<in> dom (protocolParametersByVersion e). v \<le> pp_Version p"
      using ok True by (cases "latestAPI e") (simp_all add: provider_ok_def, meson order.strict_implies_order order.trans)
    ultimately show ?thesis
      using ok by (auto simp: e' e0_def provider_ok_def split: option.splits)
  next
    case False
    then have "e' = e0" using run by (auto simp: AddProtocolParameters_def Let_def e0_def split: option.splits)
    with False ok show ?thesis by (auto simp: e0_def provider_ok_def split: option.splits)
  qed
qed

lemma provider_ok_event:
  assumes "provider_ok e" "runEvent D e ev = Inr e'"
  shows "provider_ok e'"
proof (cases ev)
  case (CommitSlot slot)
  have "provider_ok (e\<lparr>committedSlot := slot\<rparr>)" using assms(1) by (cases "latestAPI e") (auto simp: provider_ok_def)
  then show ?thesis using assms(2) provider_ok_update by (simp add: CommitSlot SetCommittedSlot_def)
next
  case (FutureVersion version h epoch)
  have "provider_ok (e\<lparr>protocolVersions := versionsAdd (protocolVersions e) version epoch\<rparr>)"
    by (rule provider_ok_versions [OF assms(1)])
  then show ?thesis
    using assms(2) by (cases "latestAPI e") (auto simp: FutureVersion AddFutureVersion_def provider_ok_def)
next
  case (NewVersion version epoch)
  with assms(2) show ?thesis
    using provider_ok_update [OF provider_ok_versions [OF assms(1)]] by (simp add: AddVersion_def)
qed (use assms provider_ok_parameters in auto)

lemma provider_ok_run: "provider_run D e e' \<Longrightarrow> provider_ok e \<Longrightarrow> provider_ok e'"
  by (induction rule: provider_run.induct) (auto intro: provider_ok_event)

lemma committed_event:
  assumes "provider_ok e" "runEvent D e ev = Inr e'" "committedAPI e = Some c"
  shows "\<exists>c'. committedAPI e' = Some c' \<and> v3Version c \<le> v3Version c'"
proof -
  have "\<exists>c'. committedAPI e' = Some c' \<and> v3Version c \<le> v3Version c'"
    if up: "updateCommittedAPI D e1 slot = Inr e'" and e1: "provider_ok e1" "committedAPI e1 = Some c" for e1 slot
    using updateCommittedAPI_committed [OF up]
  proof (elim disjE exE conjE)
    fix a version d assume "apiForVersion D e1 version = Inr d" "committedAPI e' = Some d"
      "\<forall>d. committedAPI e1 = Some d \<longrightarrow> v3Version d < version"
    then show ?thesis using e1 provider_ok_version(1) [OF e1(1), of D version d] by (intro exI [of _ d]) auto
  qed (use e1 in simp)
  moreover have "provider_ok (e\<lparr>committedSlot := slot\<rparr>)" for slot
    using assms(1) by (cases "latestAPI e") (auto simp: provider_ok_def)
  ultimately show ?thesis
    using assms provider_ok_versions [OF assms(1)]
    by (cases ev) (auto simp: SetCommittedSlot_def AddVersion_def AddFutureVersion_def AddProtocolParameters_def
        Let_def andthen_eq_Inr split: if_splits)
qed

lemma committed_run:
  "provider_run D e e' \<Longrightarrow> provider_ok e \<Longrightarrow> committedAPI e = Some c \<Longrightarrow>
     \<exists>c'. committedAPI e' = Some c' \<and> v3Version c \<le> v3Version c'"
proof (induction arbitrary: c rule: provider_run.induct)
  case (run_step e e' ev e'')
  then obtain c' where "committedAPI e' = Some c'" "v3Version c \<le> v3Version c'" by blast
  moreover have "provider_ok e'" using run_step provider_ok_run by blast
  ultimately show ?case using committed_event run_step(2) order.trans by metis
qed simp

text \<open>C23: The upgrade takes effect: when a provider that was filled by any sequence of calls is told a committed
  slot, and the version of that slot's epoch can be served, the call returns; from then on, after any further
  calls, the committed API is at least of the version that had started, and its version never decreases.\<close>

theorem committed_version_progresses:
  assumes "callback_ok cb" "provider_run D (NewEpochBasedProvider cb) e"
    and "VersionForSlot e slot = Inr version" "apiForVersion D e version = Inr a"
  shows "\<exists>e1 c. SetCommittedSlot D e slot = Inr e1 \<and> committedAPI e1 = Some c \<and> version \<le> v3Version c
    \<and> (\<forall>e2. provider_run D e1 e2 \<longrightarrow>
         (\<exists>c2. committedAPI e2 = Some c2 \<and> v3Version c \<le> v3Version c2))"
proof -
  have ok: "provider_ok e" using provider_ok_run [OF assms(2) provider_ok_New [OF assms(1)]] .
  let ?e = "e\<lparr>committedSlot := slot\<rparr>"
  obtain l where l: "latestAPI e = Some l"
    "VersionForEpoch (protocolVersions e) (EpochFromSlot (v3_timeProvider l) slot) = Inr version"
    using assms(3) by (auto simp: VersionForSlot_def derefAPI_def andthen_eq_Inr split: option.splits)
  have api: "apiForVersion D ?e version = Inr a" using assms(4) by (simp add: apiForVersion_def cong: option.case_cong if_cong)
  have ok': "provider_ok ?e" using ok l by (auto simp: provider_ok_def)
  have "\<exists>e1 c. SetCommittedSlot D e slot = Inr e1 \<and> committedAPI e1 = Some c \<and> version \<le> v3Version c"
  proof (cases "case committedAPI e of None \<Rightarrow> True | Some c \<Rightarrow> pp_Version (v3_protocolParameters c) < version")
    case True
    then have "SetCommittedSlot D e slot = Inr (?e\<lparr>committedAPI := Some a\<rparr>)"
      using l api by (simp add: SetCommittedSlot_def updateCommittedAPI_def)
    then show ?thesis using provider_ok_version(1) [OF ok' api] by auto
  next
    case False
    then obtain c where "committedAPI e = Some c" "version \<le> v3Version c"
      by (auto simp: v3Version_def split: option.splits)
    then show ?thesis using l False by (simp add: SetCommittedSlot_def updateCommittedAPI_def)
  qed
  then obtain e1 c where e1: "SetCommittedSlot D e slot = Inr e1" "committedAPI e1 = Some c" "version \<le> v3Version c"
    by blast
  then have "provider_ok e1" using ok' provider_ok_update by (simp add: SetCommittedSlot_def)
  with e1 committed_run show ?thesis by blast
qed

text \<open>C24: In every state a provider can reach, the API for an epoch has exactly the version of that epoch, which is a
  version whose parameters were added; the API of the highest version with parameters is the latest one, and a
  committed API is of a version that was announced.\<close>

theorem provider_versions:
  assumes "callback_ok cb" "provider_run D (NewEpochBasedProvider cb) e"
  shows "(APIForEpoch D e epoch = Inr a \<longrightarrow>
      VersionForEpoch (protocolVersions e) epoch = Inr (v3Version a)
      \<and> v3Version a \<in> dom (protocolParametersByVersion e))
    \<and> (latestAPI e = Some a \<longrightarrow> v3Version a \<in> dom (protocolParametersByVersion e)
        \<and> (\<forall>v \<in> dom (protocolParametersByVersion e). v \<le> v3Version a))
    \<and> (committedAPI e = Some a \<longrightarrow> v3Version a \<in> dom (protocolParametersByVersion e)
        \<and> EpochForVersion (protocolVersions e) (v3Version a) \<noteq> None)"
proof -
  have ok: "provider_ok e" using provider_ok_run [OF assms(2) provider_ok_New [OF assms(1)]] .
  have "VersionForEpoch (protocolVersions e) epoch = Inr (v3Version a)
      \<and> v3Version a \<in> dom (protocolParametersByVersion e)" if "APIForEpoch D e epoch = Inr a"
    using that provider_ok_version [OF ok, of D] unfolding APIForEpoch_def andthen_eq_Inr mustE_eq_Inr by metis
  moreover have "v3Version a \<in> dom (protocolParametersByVersion e)
      \<and> (\<forall>v \<in> dom (protocolParametersByVersion e). v \<le> v3Version a)" if "latestAPI e = Some a"
    using ok that by (simp add: provider_ok_def)
  moreover have "v3Version a \<in> dom (protocolParametersByVersion e)
      \<and> EpochForVersion (protocolVersions e) (v3Version a) \<noteq> None" if "committedAPI e = Some a"
    using ok that by (auto simp: provider_ok_def EpochForVersion_def)
  ultimately show ?thesis by blast
qed

section \<open>The interface of providers\<close>

text \<open>What the callers of an APIProvider rely on: all of its answers come from the epochs.\<close>

locale api_provider =
  fixes forEpoch :: "u32 \<Rightarrow> v3_api go" and forSlot :: "u32 \<Rightarrow> v3_api go" and forTime :: "int \<Rightarrow> v3_api go"
    and clock :: time_provider
  assumes slot_law: "forSlot slot = forEpoch (EpochFromSlot clock slot)"
    and time_law: "SlotFromTime clock t = Inr slot \<Longrightarrow> forTime t = forSlot slot"
begin

lemma same_epoch: "EpochFromSlot clock s = EpochFromSlot clock s' \<Longrightarrow> forSlot s = forSlot s'"
  by (simp add: slot_law)

lemma same_slot:
  "SlotFromTime clock t = Inr slot \<Longrightarrow> SlotFromTime clock t' = Inr slot \<Longrightarrow> forTime t = forTime t'"
  by (simp add: time_law)

lemma before_genesis:
  assumes "t < tp_genesisTime clock"
  shows "forTime t = forEpoch 0"
proof -
  have "timeSub t (tp_genesisTime clock) < 0" using assms by (simp add: timeSub_def)
  then have "SlotFromTime clock t = Inr (tp_genesisSlot clock)" by (simp add: SlotFromTime_def)
  then show ?thesis by (simp add: time_law slot_law EpochFromSlot_def)
qed

end

text \<open>The provider of a single version gives the same API for every version, slot, epoch and time.\<close>

definition singleForVersion :: "v3_api \<Rightarrow> u8 \<Rightarrow> v3_api go" where
  "singleForVersion api version = Inr api"

definition singleForTime :: "v3_api \<Rightarrow> int \<Rightarrow> v3_api go" where
  "singleForTime api t = Inr api"

definition singleForSlot :: "v3_api \<Rightarrow> u32 \<Rightarrow> v3_api go" where
  "singleForSlot api slot = Inr api"

definition singleForEpoch :: "v3_api \<Rightarrow> u32 \<Rightarrow> v3_api go" where
  "singleForEpoch api epoch = Inr api"

interpretation single: api_provider "singleForEpoch api" "singleForSlot api" "singleForTime api" "v3_timeProvider api"
  for api
  by unfold_locales (simp_all add: singleForSlot_def singleForEpoch_def singleForTime_def)

definition latestClock :: "epoch_provider \<Rightarrow> time_provider" where
  "latestClock e = (case latestAPI e of Some a \<Rightarrow> v3_timeProvider a | None \<Rightarrow> NewTimeProvider 0 0 0 0)"

text \<open>A provider without parameters answers no query about slots or times, so its epochs count only once there is
  a latest API.\<close>

interpretation epochs: api_provider
  "\<lambda>epoch. andthen (derefAPI (latestAPI e)) (\<lambda>_. APIForEpoch D e epoch)" "APIForSlot D e"
  "APIForTime D e" "latestClock e"
  for D e
  by unfold_locales
    (simp_all add: APIForSlot_def APIForEpoch_def APIForTime_def derefAPI_def latestClock_def split: option.splits)

text \<open>Slots of one epoch get one API, and a time before the genesis gets the API of epoch 0.\<close>

lemma api_same_epoch:
  "EpochFromSlot (latestClock e) s = EpochFromSlot (latestClock e) s' \<Longrightarrow> APIForSlot D e s = APIForSlot D e s'"
  by (rule epochs.same_epoch)

lemma api_before_genesis:
  assumes "latestAPI e = Some a" "t < tp_genesisTime (v3_timeProvider a)"
  shows "APIForTime D e t = APIForEpoch D e 0"
proof -
  have "t < tp_genesisTime (latestClock e)" using assms by (simp add: latestClock_def)
  from epochs.before_genesis [OF this] show ?thesis using assms(1) by (simp add: derefAPI_def)
qed

section \<open>A concrete run\<close>

definition ref_provider_deps :: provider_deps where
  "ref_provider_deps = work_deps.extend ref_work_deps
     \<lparr>encParameters = (\<lambda>p. Inr (pp_NetworkName p)), writeVersion = (\<lambda>v. Inr [v]),
      writeEpoch = (\<lambda>e. Inr (le32 e)), writeIdentifier = Inr\<rparr>"

lemma demo_v3_provider: "V3API ref_provider_deps demo_parameters = Inr demo_v3"
  by (rule demo_v3_api)
    (simp_all add: ref_provider_deps_def work_deps.defs ref_work_safe(2) [simplified] MaxPayloadSize_def
      MaxBlockSize_def BlockHeaderLength_def BasicBlockSizeEmptyParentsAndEmptyPayload_def
      Ed25519SignatureSerializedBytesSize_def)

lemma demo_version: "pp_Version demo_parameters = 3" "v3Version demo_v3 = 3"
proof -
  show "pp_Version demo_parameters = 3" by code_simp
  then show "v3Version demo_v3 = 3" by (simp add: v3Version_def demo_v3_def Let_def)
qed

text \<open>The test network from its first epoch on.\<close>

definition demo_provider :: epoch_provider where
  "demo_provider =
     \<lparr>protocolParametersByVersion = [3 \<mapsto> demo_parameters], futureProtocolParametersByVersion = Map.empty,
      protocolVersions = \<lparr>versionsPerEpoch = [\<lparr>ev_Version = 3, ev_StartEpoch = 0\<rparr>], knownVersions = [3 \<mapsto> 0]\<rparr>,
      latestAPI = Some demo_v3, committedAPI = Some demo_v3, committedSlot = 0, apiForMissingVersion = None\<rparr>"

lemma demo_provider_setup:
  "AddProtocolParametersAtEpoch ref_provider_deps (NewEpochBasedProvider None) demo_parameters 0 = Inr demo_provider"
  by (simp add: AddProtocolParametersAtEpoch_def AddProtocolParameters_def AddVersion_def NewEpochBasedProvider_def
      Let_def demo_version apiForVersion_def withVersion_def demo_v3_provider updateCommittedAPI_def versionsAdd_def
      NewProtocolEpochVersions_def VersionForEpoch_def demo_provider_def)

lemma demo_provider_run: "provider_run ref_provider_deps (NewEpochBasedProvider None) demo_provider"
proof -
  obtain e where "AddProtocolParameters ref_provider_deps (NewEpochBasedProvider None) demo_parameters = Inr e"
    "AddVersion ref_provider_deps e (pp_Version demo_parameters) 0 = Inr demo_provider"
    using demo_provider_setup by (auto simp: AddProtocolParametersAtEpoch_def andthen_eq_Inr)
  then show ?thesis
    by (intro run_step [where e' = e and ev = "NewVersion 3 0",
          OF run_step [where ev = "NewParameters demo_parameters", OF run_done]])
      (simp_all add: demo_version)
qed

lemma demo_provider_serves:
  "VersionForEpoch (protocolVersions demo_provider) epoch = Inr 3"
  "apiForVersion ref_provider_deps demo_provider 3 = Inr demo_v3"
  by (simp_all add: demo_provider_def VersionForEpoch_def apiForVersion_def withVersion_def demo_version)

theorem committed_version_progresses_witness:
  "\<exists>e1 c. SetCommittedSlot ref_provider_deps demo_provider 9000 = Inr e1 \<and> committedAPI e1 = Some c
     \<and> 3 \<le> v3Version c"
proof -
  have "VersionForSlot demo_provider 9000 = Inr 3"
    using demo_provider_serves(1) by (simp add: VersionForSlot_def derefAPI_def demo_provider_def)
  from committed_version_progresses [OF _ demo_provider_run this demo_provider_serves(2)]
  show ?thesis by (auto simp: callback_ok_def)
qed

theorem provider_versions_witness: "3 \<in> dom (protocolParametersByVersion demo_provider)"
proof -
  have "APIForEpoch ref_provider_deps demo_provider 7 = Inr demo_v3"
    by (simp add: APIForEpoch_def demo_provider_serves)
  with provider_versions [OF _ demo_provider_run, where a = demo_v3 and epoch = 7] show ?thesis
    by (auto simp: callback_ok_def demo_version)
qed

text \<open>Parameters that replace those of the latest version are reported by @\<open>ProtocolParameters\<close>, while
  @\<open>APIForVersion\<close> keeps serving the API made of the old ones.\<close>

theorem stale_parameters:
  assumes "latestAPI e = Some a" "v3_protocolParameters a = p" "pp_Version q = pp_Version p" "q \<noteq> p"
  shows "\<exists>e'. AddProtocolParameters D e q = Inr e' \<and> protocolParametersByVersion e' (pp_Version p) = Some q
    \<and> apiForVersion D e' (pp_Version p) = Inr a \<and> v3_protocolParameters a \<noteq> q"
  using assms by (auto simp: AddProtocolParameters_def Let_def v3Version_def apiForVersion_def withVersion_def)

end
