(* ===== verification/Blocks.thy ===== *)
theory Blocks
  imports Work_Bound
begin

text \<open>
  Blocks and attestations: block.go and attestation.go.  A block carries a header, a basic or validation
  body and a signature; an attestation carries the header, the hash of the body and the signature, and
  stands for the block in the proofs of a slot's commitment.  The encodings of hive.go/serializer/serix
  are parameters; that a struct is encoded as the concatenation of its fields is stated as the locale
  @\<open>block_encoding\<close>.  A block ID is the hash of the header, the body and the signature followed by the
  slot in little endian order.  Decoding and the text forms are not modelled.
\<close>

section \<open>Data\<close>

record block_header =
  bh_ProtocolVersion :: u8
  bh_NetworkID :: u64
  bh_IssuingTime :: int
  bh_SlotCommitmentID :: bytes
  bh_LatestFinalizedSlot :: u32
  bh_IssuerID :: bytes

datatype app_payload =
    TaggedDataP tagged_data
  | SignedTransactionP signed_transaction
  | CandidacyAnnouncementP

record basic_block_body =
  bb_StrongParents :: "bytes list"
  bb_WeakParents :: "bytes list"
  bb_ShallowLikeParents :: "bytes list"
  bb_Payload :: "app_payload option"
  bb_MaxBurnedMana :: u64

record validation_block_body =
  vb_StrongParents :: "bytes list"
  vb_WeakParents :: "bytes list"
  vb_ShallowLikeParents :: "bytes list"
  vb_HighestSupportedVersion :: u8
  vb_ProtocolParametersHash :: bytes

datatype block_body =
    BasicBody basic_block_body
  | ValidationBody validation_block_body

record block =
  bl_Header :: block_header
  bl_Body :: block_body
  bl_Signature :: "ed25519_signature option"

record attestation =
  att_Header :: block_header
  att_BodyHash :: bytes
  att_Signature :: "ed25519_signature option"

text \<open>What blocks ask of the protocol parameters beyond what transactions do.\<close>

record block_api = ledger_api +
  api_Version :: u8
  api_GenesisSlot :: u32
  api_WorkScoreParameters :: work_score_parameters

record block_deps = work_deps +
  encHeader :: "block_header \<Rightarrow> bytes go"
  encBasicBody :: "basic_block_body \<Rightarrow> bytes go"
  encValidationBody :: "validation_block_body \<Rightarrow> bytes go"
  encSignature :: "ed25519_signature option \<Rightarrow> bytes go"
  encBlock :: "block \<Rightarrow> bytes go"

section \<open>Identifiers and signing messages\<close>

text \<open>The slot of a block, commitment or transaction ID is behind its 32 byte identifier.\<close>

definition idSlot :: "bytes \<Rightarrow> u32" where
  "idSlot i = fromLE32 (drop 32 i)"

definition NewBlockID :: "u32 \<Rightarrow> bytes \<Rightarrow> bytes" where
  "NewBlockID slot idBytes = idBytes @ le32 slot"

definition headerHash :: "'a block_deps_scheme \<Rightarrow> block_header \<Rightarrow> bytes go" where
  "headerHash D b =
    andthen (wrapE ''failed to serialize block header'' (encHeader D b)) (\<lambda>headerBytes.
    Inr (sum256 D headerBytes))"

definition basicBodyHash :: "'a block_deps_scheme \<Rightarrow> basic_block_body \<Rightarrow> bytes go" where
  "basicBodyHash D b =
    andthen (wrapE ''failed to serialize basic block'' (encBasicBody D b)) (\<lambda>blockBytes.
    Inr (sum256 D blockBytes))"

definition validationBodyHash :: "'a block_deps_scheme \<Rightarrow> validation_block_body \<Rightarrow> bytes go" where
  "validationBodyHash D b =
    andthen (wrapE ''failed to serialize validation block'' (encValidationBody D b)) (\<lambda>blockBytes.
    Inr (sum256 D blockBytes))"

definition bodyHash :: "'a block_deps_scheme \<Rightarrow> block_body \<Rightarrow> bytes go" where
  "bodyHash D b = (case b of BasicBody x \<Rightarrow> basicBodyHash D x | ValidationBody x \<Rightarrow> validationBodyHash D x)"

definition blockIdentifier :: "'a deps_scheme \<Rightarrow> bytes \<Rightarrow> bytes \<Rightarrow> bytes \<Rightarrow> bytes" where
  "blockIdentifier D hHash bHash signatureBytes = sum256 D (hHash @ bHash @ signatureBytes)"

definition BlockIdentifierFromBlockBytes :: "'a ledger_deps_scheme \<Rightarrow> bytes \<Rightarrow> bytes go" where
  "BlockIdentifierFromBlockBytes D blockBytes =
    (if length blockBytes < BlockHeaderLength D + Ed25519SignatureSerializedBytesSize D
     then throw (Errorf ''not enough block bytes'')
     else
       let len = length blockBytes;
           hHash = sum256 D (take (BlockHeaderLength D) blockBytes);
           bHash = sum256 D (drop (BlockHeaderLength D)
             (take (len - Ed25519SignatureSerializedBytesSize D) blockBytes));
           signatureBytes = drop (len - Ed25519SignatureSerializedBytesSize D) blockBytes
       in Inr (blockIdentifier D hHash bHash signatureBytes))"

definition blockSlot :: "'p block_api_scheme \<Rightarrow> block_header \<Rightarrow> u32 go" where
  "blockSlot api h = SlotFromTime (api_TimeProvider api) (bh_IssuingTime h)"

definition IDWithBlockIdentifier :: "'p block_api_scheme \<Rightarrow> block \<Rightarrow> bytes \<Rightarrow> bytes go" where
  "IDWithBlockIdentifier api b identifier =
    andthen (blockSlot api (bl_Header b)) (\<lambda>slot. Inr (NewBlockID slot identifier))"

definition blockID :: "'a block_deps_scheme \<Rightarrow> 'p block_api_scheme \<Rightarrow> block \<Rightarrow> bytes go" where
  "blockID D api b =
    andthen (wrapE ''failed to compute blockID'' (encBlock D b)) (\<lambda>data.
    andthen (wrapE ''failed to compute blockID'' (BlockIdentifierFromBlockBytes D data)) (\<lambda>i.
    IDWithBlockIdentifier api b i))"

definition blockSigningMessage :: "bytes \<Rightarrow> bytes \<Rightarrow> bytes" where
  "blockSigningMessage hHash bHash = hHash @ bHash"

definition signingMessageOf :: "'a block_deps_scheme \<Rightarrow> block \<Rightarrow> bytes go" where
  "signingMessageOf D b =
    andthen (headerHash D (bl_Header b)) (\<lambda>hHash.
    andthen (bodyHash D (bl_Body b)) (\<lambda>bHash.
    Inr (blockSigningMessage hHash bHash)))"

text \<open>The signer (address_signer.go) is an argument.  A missing signature is not an Ed25519 signature, and its type is asked for in the error message.\<close>

definition blockSign ::
    "'a block_deps_scheme \<Rightarrow> (address \<Rightarrow> bytes \<Rightarrow> ed25519_signature go) \<Rightarrow> block \<Rightarrow> address
     \<Rightarrow> ed25519_signature go" where
  "blockSign D sign b addr = andthen (signingMessageOf D b) (\<lambda>signMsg. sign addr signMsg)"

definition blockVerifySignature :: "'a block_deps_scheme \<Rightarrow> block \<Rightarrow> bool go" where
  "blockVerifySignature D b =
    andthen (signingMessageOf D b) (\<lambda>signingMessage.
    case bl_Signature b of
      None \<Rightarrow> Inl (Panic ''nil pointer'')
    | Some edSig \<Rightarrow>
        if sigPublicKey edSig = replicate 32 0
        then throw (Errorf ''ed25519 public key must not be empty'')
        else Inr (edVerify D (sigPublicKey edSig) signingMessage (sigSignature edSig)))"

section \<open>Attestations\<close>

definition NewAttestation :: "'a block_deps_scheme \<Rightarrow> block \<Rightarrow> attestation go" where
  "NewAttestation D b =
    andthen (mustE (bodyHash D (bl_Body b))) (\<lambda>h.
    Inr \<lparr>att_Header = bl_Header b, att_BodyHash = h, att_Signature = bl_Signature b\<rparr>)"

definition attestationSlot :: "'p block_api_scheme \<Rightarrow> attestation \<Rightarrow> u32 go" where
  "attestationSlot api a = SlotFromTime (api_TimeProvider api) (bh_IssuingTime (att_Header a))"

definition attestationBlockID :: "'a block_deps_scheme \<Rightarrow> 'p block_api_scheme \<Rightarrow> attestation \<Rightarrow> bytes go" where
  "attestationBlockID D api a =
    andthen (wrapE ''failed to create blockID'' (encSignature D (att_Signature a))) (\<lambda>signatureBytes.
    andthen (wrapE ''failed to create blockID'' (headerHash D (att_Header a))) (\<lambda>hHash.
    let i = blockIdentifier D hHash (att_BodyHash a) signatureBytes
    in andthen (attestationSlot api a) (\<lambda>slot. Inr (NewBlockID slot i))))"

definition attestationSigningMessage :: "'a block_deps_scheme \<Rightarrow> attestation \<Rightarrow> bytes go" where
  "attestationSigningMessage D a =
    andthen (wrapE ''failed to create signing message'' (headerHash D (att_Header a))) (\<lambda>hHash.
    Inr (blockSigningMessage hHash (att_BodyHash a)))"

definition attestationVerifySignature :: "'a block_deps_scheme \<Rightarrow> attestation \<Rightarrow> bool go" where
  "attestationVerifySignature D a =
    andthen (attestationSigningMessage D a) (\<lambda>signingMessage.
    case att_Signature a of
      None \<Rightarrow> Inl (Panic ''nil pointer'')
    | Some edSig \<Rightarrow> Inr (edVerify D (sigPublicKey edSig) signingMessage (sigSignature edSig)))"

text \<open>The arguments are pointers.\<close>

definition attestationCompare :: "attestation option \<Rightarrow> attestation option \<Rightarrow> int" where
  "attestationCompare a other =
    (case (a, other) of
       (None, None) \<Rightarrow> 0
     | (None, _) \<Rightarrow> - 1
     | (_, None) \<Rightarrow> 1
     | (Some x, Some y) \<Rightarrow>
         let slotX = idSlot (bh_SlotCommitmentID (att_Header x));
             slotY = idSlot (bh_SlotCommitmentID (att_Header y))
         in if slotY < slotX then 1
            else if slotX < slotY then - 1
            else if bh_IssuingTime (att_Header y) < bh_IssuingTime (att_Header x) then 1
            else if bh_IssuingTime (att_Header x) < bh_IssuingTime (att_Header y) then - 1
            else bytesCompare (att_BodyHash x) (att_BodyHash y))"

section \<open>Parents, sizes and costs\<close>

definition StrongParentIDs :: "block_body \<Rightarrow> bytes list" where
  "StrongParentIDs b = (case b of BasicBody x \<Rightarrow> bb_StrongParents x | ValidationBody x \<Rightarrow> vb_StrongParents x)"

definition WeakParentIDs :: "block_body \<Rightarrow> bytes list" where
  "WeakParentIDs b = (case b of BasicBody x \<Rightarrow> bb_WeakParents x | ValidationBody x \<Rightarrow> vb_WeakParents x)"

definition ShallowLikeParentIDs :: "block_body \<Rightarrow> bytes list" where
  "ShallowLikeParentIDs b =
    (case b of BasicBody x \<Rightarrow> bb_ShallowLikeParents x | ValidationBody x \<Rightarrow> vb_ShallowLikeParents x)"

datatype parents_type = UndefinedParentType | StrongParentType | WeakParentType | ShallowLikeParentType

definition blockParents :: "block \<Rightarrow> bytes list" where
  "blockParents b =
    StrongParentIDs (bl_Body b) @ WeakParentIDs (bl_Body b) @ ShallowLikeParentIDs (bl_Body b)"

definition ParentsWithType :: "block \<Rightarrow> (bytes \<times> parents_type) list" where
  "ParentsWithType b =
    map (\<lambda>i. (i, StrongParentType)) (StrongParentIDs (bl_Body b))
    @ map (\<lambda>i. (i, WeakParentType)) (WeakParentIDs (bl_Body b))
    @ map (\<lambda>i. (i, ShallowLikeParentType)) (ShallowLikeParentIDs (bl_Body b))"

definition payloadSize :: "'a work_deps_scheme \<Rightarrow> app_payload \<Rightarrow> nat go" where
  "payloadSize D p =
    (case p of TaggedDataP u \<Rightarrow> Inr (taggedDataSize D u) | SignedTransactionP t \<Rightarrow> signedSize D t
     | CandidacyAnnouncementP \<Rightarrow> Inr candidacySize)"

definition payloadWorkScore :: "'a work_deps_scheme \<Rightarrow> work_score_parameters \<Rightarrow> app_payload \<Rightarrow> u32 go" where
  "payloadWorkScore D w p =
    (case p of TaggedDataP u \<Rightarrow> taggedDataWorkScore D w u | SignedTransactionP t \<Rightarrow> signedWorkScore D w t
     | CandidacyAnnouncementP \<Rightarrow> candidacyWorkScore D w)"

definition basicBodySize :: "'a work_deps_scheme \<Rightarrow> basic_block_body \<Rightarrow> nat go" where
  "basicBodySize D b =
    andthen (case bb_Payload b of None \<Rightarrow> Inr 0 | Some p \<Rightarrow> payloadSize D p) (\<lambda>pSize.
    Inr (BasicBlockSizeEmptyParentsAndEmptyPayload D + length (bb_StrongParents b) * 36
      + length (bb_WeakParents b) * 36 + length (bb_ShallowLikeParents b) * 36 + pSize))"

definition validationBodySize :: "'a work_deps_scheme \<Rightarrow> validation_block_body \<Rightarrow> nat" where
  "validationBodySize D b =
    serOneByte D + serOneByte D + length (vb_StrongParents b) * 36
      + serOneByte D + length (vb_WeakParents b) * 36
      + serOneByte D + length (vb_ShallowLikeParents b) * 36 + serOneByte D + 32"

definition bodySize :: "'a work_deps_scheme \<Rightarrow> block_body \<Rightarrow> nat go" where
  "bodySize D b = (case b of BasicBody x \<Rightarrow> basicBodySize D x | ValidationBody x \<Rightarrow> Inr (validationBodySize D x))"

definition blockSize :: "'a work_deps_scheme \<Rightarrow> block \<Rightarrow> nat go" where
  "blockSize D b =
    andthen (bodySize D (bl_Body b)) (\<lambda>n.
    andthen (sigSize D (bl_Signature b)) (\<lambda>s. Inr (BlockHeaderLength D + n + s)))"

definition basicBodyWorkScore :: "'a work_deps_scheme \<Rightarrow> work_score_parameters \<Rightarrow> basic_block_body \<Rightarrow> u32 go" where
  "basicBodyWorkScore D w b =
    (case bb_Payload b of Some p \<Rightarrow> payloadWorkScore D w p | None \<Rightarrow> Inr (wsp_Block w))"

definition bodyWorkScore :: "'a work_deps_scheme \<Rightarrow> work_score_parameters \<Rightarrow> block_body \<Rightarrow> u32 go" where
  "bodyWorkScore D w b = (case b of BasicBody x \<Rightarrow> basicBodyWorkScore D w x | ValidationBody _ \<Rightarrow> Inr 0)"

definition blockWorkScore :: "'a work_deps_scheme \<Rightarrow> 'p block_api_scheme \<Rightarrow> block \<Rightarrow> u32 go" where
  "blockWorkScore D api b = bodyWorkScore D (api_WorkScoreParameters api) (bl_Body b)"

definition blockManaCost :: "'a work_deps_scheme \<Rightarrow> 'p block_api_scheme \<Rightarrow> block \<Rightarrow> u64 \<Rightarrow> u64 go" where
  "blockManaCost D api b rmc =
    andthen (wrapE ''failed to calculate block workscore'' (blockWorkScore D api b)) (\<lambda>workScore.
    wrapE ''failed to calculate block mana cost'' (ManaCost D rmc workScore))"

section \<open>Syntactical validation\<close>

text \<open>The slot arithmetic wraps around.\<close>

definition basicBodyValidate ::
    "'p block_api_scheme \<Rightarrow> block \<Rightarrow> basic_block_body \<Rightarrow> unit go" where
  "basicBodyValidate api bl b =
    (case bb_Payload b of
       Some (SignedTransactionP signedTransaction) \<Rightarrow>
         andthen (blockSlot api (bl_Header bl)) (\<lambda>slot.
         if slot < te_CreationSlot (st_Transaction signedTransaction)
         then throw (Wrap (Sentinel ''ErrTransactionCreationSlotTooRecent'')
                ''transaction creation slot %d exceeds block slot %d'')
         else case txCommitmentInput (st_Transaction signedTransaction) of
           None \<Rightarrow> Inr ()
         | Some cInput \<Rightarrow>
             let cInputSlot = idSlot cInput
             in if 0 < cInputSlot \<and> slot < cInputSlot + api_MinCommittableAge api
                then throw (Wrap (Sentinel ''ErrCommitmentInputTooRecent'')
                       ''block at slot %d with commitment input to slot %d, min committable age %d'')
                else if cInputSlot + api_MaxCommittableAge api < slot
                then throw (Wrap (Sentinel ''ErrCommitmentInputTooOld'')
                       ''block at slot %d with commitment input to slot %d, max committable age %d'')
                else if idSlot (bh_SlotCommitmentID (bl_Header bl)) < cInputSlot
                then throw (Wrap (Sentinel ''ErrCommitmentInputNewerThanCommitment'')
                       ''transaction in a block contains CommitmentInput to slot %d while max allowed is %d'')
                else Inr ())
     | _ \<Rightarrow> Inr ())"

definition validationBodyValidate :: "block \<Rightarrow> validation_block_body \<Rightarrow> unit go" where
  "validationBodyValidate bl b =
    (if vb_HighestSupportedVersion b < bh_ProtocolVersion (bl_Header bl)
     then throw (Wrap (Sentinel ''ErrHighestSupportedVersionTooSmall'')
            ''highest supported version %d, block header protocol version %d'')
     else Inr ())"

definition bodyValidate :: "'p block_api_scheme \<Rightarrow> block \<Rightarrow> unit go" where
  "bodyValidate api bl =
    (case bl_Body bl of BasicBody b \<Rightarrow> basicBodyValidate api bl b | ValidationBody b \<Rightarrow> validationBodyValidate bl b)"

text \<open>The weak parents and the set of all other parents.\<close>

definition weakParentsCheck :: "block_body \<Rightarrow> unit go" where
  "weakParentsCheck b =
    (if 0 < length (WeakParentIDs b)
     then let nonWeakParents = set (StrongParentIDs b @ ShallowLikeParentIDs b)
          in allG (\<lambda>parent. if parent \<in> nonWeakParents
               then throw (Wrap (Sentinel ''ErrWeakParentsInvalid'')
                      ''weak parents (%s) cannot have common elements with strong parents (%s) or shallow likes (%s)'')
               else Inr ()) (WeakParentIDs b)
     else Inr ())"

definition commitmentAgeCheck :: "'p block_api_scheme \<Rightarrow> block_header \<Rightarrow> unit go" where
  "commitmentAgeCheck api h =
    (let commitmentSlot = idSlot (bh_SlotCommitmentID h)
     in andthen (blockSlot api h) (\<lambda>slot.
        if api_GenesisSlot api < commitmentSlot \<and> slot < commitmentSlot + api_MinCommittableAge api
        then throw (Wrap (Sentinel ''ErrCommitmentTooRecent'')
               ''block at slot %d committing to slot %d, min committable age %d'')
        else if commitmentSlot + api_MaxCommittableAge api < slot
        then throw (Wrap (Sentinel ''ErrCommitmentTooOld'')
               ''block at slot %d committing to slot %d, max committable age %d'')
        else Inr ()))"

definition blockValidate :: "'a work_deps_scheme \<Rightarrow> 'p block_api_scheme \<Rightarrow> block \<Rightarrow> unit go" where
  "blockValidate D api b =
    andthen (blockSize D b) (\<lambda>size1.
    if MaxBlockSize < size1
    then throw (Wrap (Sentinel ''ErrBlockMaxSizeExceeded'') ''max size of a block is %d but got %d bytes'')
    else if api_Version api \<noteq> bh_ProtocolVersion (bl_Header b)
    then throw (Wrap (Sentinel ''ErrInvalidBlockVersion'')
           ''mismatched protocol version: expected %d, got %d in block'')
    else if bh_NetworkID (bl_Header b) \<noteq> api_NetworkID api
    then throw (Wrap (Sentinel ''ErrBlockNetworkIDInvalid'') ''expected %d (%s), got %d'')
    else andthen (weakParentsCheck (bl_Body b)) (\<lambda>_.
      andthen (commitmentAgeCheck api (bl_Header b)) (\<lambda>_. bodyValidate api b)))"

section \<open>Identities\<close>

text \<open>The encoding of a block is that of its header, body and signature in this order, the first and the
  last have a fixed length, and a digest has 32 bytes.\<close>

definition encBody :: "'a block_deps_scheme \<Rightarrow> block_body \<Rightarrow> bytes go" where
  "encBody D b = (case b of BasicBody x \<Rightarrow> encBasicBody D x | ValidationBody x \<Rightarrow> encValidationBody D x)"

definition fieldwise :: "'a block_deps_scheme \<Rightarrow> bool" where
  "fieldwise D \<longleftrightarrow>
     (\<forall>b x. encBlock D b = Inr x \<longleftrightarrow> (\<exists>h d s. encHeader D (bl_Header b) = Inr h \<and> encBody D (bl_Body b) = Inr d
        \<and> encSignature D (bl_Signature b) = Inr s \<and> x = h @ d @ s))
     \<and> (\<forall>h x. encHeader D h = Inr x \<longrightarrow> length x = BlockHeaderLength D)
     \<and> (\<forall>g x. encSignature D g = Inr x \<longrightarrow> length x = Ed25519SignatureSerializedBytesSize D)
     \<and> (\<forall>m. length (sum256 D m) = 32)"

lemma bodyHash_Inr: "bodyHash D b = Inr k \<longleftrightarrow> (\<exists>d. encBody D b = Inr d \<and> k = sum256 D d)"
  by (cases b) (auto simp: bodyHash_def encBody_def basicBodyHash_def validationBodyHash_def andthen_eq_Inr)

lemma headerHash_Inr: "headerHash D b = Inr k \<longleftrightarrow> (\<exists>d. encHeader D b = Inr d \<and> k = sum256 D d)"
  by (auto simp: headerHash_def andthen_eq_Inr)

lemma identifier_of_fields:
  assumes "length h = BlockHeaderLength D" "length s = Ed25519SignatureSerializedBytesSize D"
  shows "BlockIdentifierFromBlockBytes D (h @ d @ s) = Inr (blockIdentifier D (sum256 D h) (sum256 D d) s)"
  using assms by (simp add: BlockIdentifierFromBlockBytes_def Let_def)

lemma blockID_Inr:
  assumes "fieldwise D"
  shows "blockID D api b = Inr i \<longleftrightarrow> (\<exists>h d s slot. encHeader D (bl_Header b) = Inr h \<and> encBody D (bl_Body b) = Inr d
    \<and> encSignature D (bl_Signature b) = Inr s \<and> blockSlot api (bl_Header b) = Inr slot
    \<and> i = NewBlockID slot (blockIdentifier D (sum256 D h) (sum256 D d) s))"
proof -
  note fields = assms [unfolded fieldwise_def, THEN conjunct1, rule_format]
  have len: "encHeader D h = Inr x \<Longrightarrow> length x = BlockHeaderLength D"
    "encSignature D g = Inr x \<Longrightarrow> length x = Ed25519SignatureSerializedBytesSize D" for h g x
    using assms by (simp_all add: fieldwise_def)
  have "BlockIdentifierFromBlockBytes D (h @ d @ s) = Inr (blockIdentifier D (sum256 D h) (sum256 D d) s)"
    if "encHeader D (bl_Header b) = Inr h" "encSignature D (bl_Signature b) = Inr s" for h d s
    using that len identifier_of_fields by blast
  then show ?thesis
    by (auto simp: blockID_def IDWithBlockIdentifier_def andthen_eq_Inr fields)
qed

text \<open>C26: the attestation made from a block has the block's ID, and it verifies with the same result unless
  the public key of the block is empty: the block rejects such a key, the attestation does not look.\<close>

theorem attestation_stands_for_block:
  assumes "fieldwise D" "NewAttestation D b = Inr a"
  shows "(attestationBlockID D api a = Inr i \<longleftrightarrow> blockID D api b = Inr i)
    \<and> (\<forall>g. bl_Signature b = Some g \<longrightarrow>
          (blockVerifySignature D b = Inr v \<longleftrightarrow>
             sigPublicKey g \<noteq> replicate 32 0 \<and> attestationVerifySignature D a = Inr v))"
proof -
  obtain d where d: "encBody D (bl_Body b) = Inr d"
    and a: "a = \<lparr>att_Header = bl_Header b, att_BodyHash = sum256 D d, att_Signature = bl_Signature b\<rparr>"
    using assms(2) by (auto simp: NewAttestation_def andthen_eq_Inr bodyHash_Inr)
  have h: "bodyHash D (bl_Body b) = Inr (sum256 D d)" using d by (auto simp: bodyHash_Inr)
  have "attestationBlockID D api a = Inr i \<longleftrightarrow> blockID D api b = Inr i"
    unfolding blockID_Inr [OF assms(1)] using d
    by (auto simp: attestationBlockID_def a andthen_eq_Inr headerHash_Inr Let_def attestationSlot_def blockSlot_def)
  moreover have "blockVerifySignature D b = Inr v \<longleftrightarrow>
      sigPublicKey g \<noteq> replicate 32 0 \<and> attestationVerifySignature D a = Inr v" if "bl_Signature b = Some g" for g
    using that h by (auto simp: attestationVerifySignature_def blockVerifySignature_def signingMessageOf_def
        attestationSigningMessage_def a andthen_eq_Inr headerHash_Inr blockSigningMessage_def)
  ultimately show ?thesis by auto
qed

text \<open>Two blocks with the same ID have the same encoding and lie in the same slot, unless the hash
  function collides on what the two computations hash.\<close>

theorem block_id_binds:
  assumes D: "fieldwise D" and i: "blockID D api b = Inr i" "blockID D api b' = Inr i"
    and e: "encHeader D (bl_Header b) = Inr h" "encBody D (bl_Body b) = Inr d" "encSignature D (bl_Signature b) = Inr s"
    and e': "encHeader D (bl_Header b') = Inr h'" "encBody D (bl_Body b') = Inr d'" "encSignature D (bl_Signature b') = Inr s'"
    and inj: "inj_on (sum256 D) {h, d, sum256 D h @ sum256 D d @ s, h', d', sum256 D h' @ sum256 D d' @ s'}"
  shows "encBlock D b = encBlock D b' \<and> blockSlot api (bl_Header b) = blockSlot api (bl_Header b')
    \<and> idSlot i = projr (blockSlot api (bl_Header b))"
proof -
  have len: "length (sum256 D m) = 32" for m using D by (simp add: fieldwise_def)
  obtain slot where s: "blockSlot api (bl_Header b) = Inr slot"
    and i1: "i = NewBlockID slot (blockIdentifier D (sum256 D h) (sum256 D d) s)"
    using i(1) e by (auto simp: blockID_Inr [OF D])
  obtain slot' where s': "blockSlot api (bl_Header b') = Inr slot'"
    and i2: "i = NewBlockID slot' (blockIdentifier D (sum256 D h') (sum256 D d') s')"
    using i(2) e' by (auto simp: blockID_Inr [OF D])
  have "blockIdentifier D (sum256 D h) (sum256 D d) s = blockIdentifier D (sum256 D h') (sum256 D d') s'
      \<and> le32 slot = le32 slot'"
    using i1 i2 by (simp add: NewBlockID_def blockIdentifier_def len)
  then have hash: "sum256 D (sum256 D h @ sum256 D d @ s) = sum256 D (sum256 D h' @ sum256 D d' @ s')"
    and slots: "slot = slot'"
    by (simp_all add: blockIdentifier_def) (metis fromLE_le(2))
  have "sum256 D h @ sum256 D d @ s = sum256 D h' @ sum256 D d' @ s'"
    by (rule inj_onD [OF inj hash]) simp_all
  then have "sum256 D h = sum256 D h'" "sum256 D d = sum256 D d'" "s = s'" by (simp_all add: len)
  then have "h = h'" "d = d'" "s = s'"
    by (auto intro: inj_onD [OF inj])
  moreover have "encBlock D b = Inr (h @ d @ s)" "encBlock D b' = Inr (h' @ d' @ s')"
    using D e e' by (auto simp: fieldwise_def)
  ultimately show ?thesis using s s' slots i1
    by (simp add: idSlot_def NewBlockID_def blockIdentifier_def len)
qed

section \<open>Accepted blocks\<close>

text \<open>A commitment to slot @\<open>c\<close> may be used at @\<open>slot\<close> when it is at least the minimum and at most the maximum
  committable age old, or not older than the genesis @\<open>g\<close> and at most the maximum age old.\<close>

definition ageFits :: "'p block_api_scheme \<Rightarrow> nat \<Rightarrow> u32 \<Rightarrow> u32 \<Rightarrow> bool" where
  "ageFits api g slot c \<longleftrightarrow>
     (unat c \<le> g \<or> unat c + unat (api_MinCommittableAge api) \<le> unat slot)
     \<and> unat slot \<le> unat c + unat (api_MaxCommittableAge api)"

definition noWrap :: "'p block_api_scheme \<Rightarrow> u32 \<Rightarrow> bool" where
  "noWrap api c \<longleftrightarrow> unat c + unat (api_MinCommittableAge api) < 2 ^ 32 \<and> unat c + unat (api_MaxCommittableAge api) < 2 ^ 32"

lemma age_words:
  assumes "noWrap api c"
  shows "slot < c + api_MinCommittableAge api \<longleftrightarrow> unat slot < unat c + unat (api_MinCommittableAge api)"
    "c + api_MaxCommittableAge api < slot \<longleftrightarrow> unat c + unat (api_MaxCommittableAge api) < unat slot"
  using assms by (simp_all add: noWrap_def word_less_nat_alt unat_add_small)

text \<open>What a body promises: a transaction is not younger than the block, and the commitment it builds on
  fits the block and is not newer than the block's own.\<close>

definition bodyFits :: "'p block_api_scheme \<Rightarrow> u32 \<Rightarrow> block \<Rightarrow> bool" where
  "bodyFits api slot bl \<longleftrightarrow>
    (case bl_Body bl of
       ValidationBody b \<Rightarrow> bh_ProtocolVersion (bl_Header bl) \<le> vb_HighestSupportedVersion b
     | BasicBody b \<Rightarrow>
         (\<forall>st. bb_Payload b = Some (SignedTransactionP st) \<longrightarrow>
            te_CreationSlot (st_Transaction st) \<le> slot
            \<and> (\<forall>c. txCommitmentInput (st_Transaction st) = Some c \<longrightarrow>
                 ageFits api 0 slot (idSlot c) \<and> idSlot c \<le> idSlot (bh_SlotCommitmentID (bl_Header bl)))))"

definition commitmentInputOf :: "block \<Rightarrow> bytes option" where
  "commitmentInputOf bl =
    (case bl_Body bl of
       BasicBody b \<Rightarrow> (case bb_Payload b of Some (SignedTransactionP st) \<Rightarrow> txCommitmentInput (st_Transaction st) | _ \<Rightarrow> None)
     | ValidationBody _ \<Rightarrow> None)"

lemma weakParents_iff:
  "weakParentsCheck b = Inr () \<longleftrightarrow> set (WeakParentIDs b) \<inter> set (StrongParentIDs b @ ShallowLikeParentIDs b) = {}"
  by (auto simp: weakParentsCheck_def Let_def allG_iff if_throw_eq_Inr)

lemma commitmentAge_iff:
  assumes "noWrap api (idSlot (bh_SlotCommitmentID h))" "blockSlot api h = Inr slot"
  shows "commitmentAgeCheck api h = Inr () \<longleftrightarrow> ageFits api (unat (api_GenesisSlot api)) slot (idSlot (bh_SlotCommitmentID h))"
proof -
  have g: "api_GenesisSlot api < idSlot (bh_SlotCommitmentID h)
      \<longleftrightarrow> \<not> unat (idSlot (bh_SlotCommitmentID h)) \<le> unat (api_GenesisSlot api)"
    by (simp add: word_less_nat_alt not_le)
  show ?thesis
    by (auto simp: commitmentAgeCheck_def Let_def assms(2) if_throw_eq_Inr age_words [OF assms(1)] ageFits_def g not_less)
qed

lemma bodyValidate_iff:
  assumes "blockSlot api (bl_Header bl) = Inr slot" "\<forall>c. commitmentInputOf bl = Some c \<longrightarrow> noWrap api (idSlot c)"
  shows "bodyValidate api bl = Inr () \<longleftrightarrow> bodyFits api slot bl"
proof (cases "bl_Body bl")
  case (BasicBody b)
  show ?thesis
  proof (cases "bb_Payload b")
    case (Some p)
    show ?thesis
    proof (cases p)
      case (SignedTransactionP st)
      show ?thesis
      proof (cases "txCommitmentInput (st_Transaction st)")
        case None
        with BasicBody Some SignedTransactionP show ?thesis
          by (auto simp: bodyValidate_def basicBodyValidate_def bodyFits_def assms(1) if_throw_eq_Inr)
      next
        case c: (Some c)
        with BasicBody Some SignedTransactionP assms(2) have n: "noWrap api (idSlot c)" by (simp add: commitmentInputOf_def)
        have z: "0 < idSlot c \<longleftrightarrow> \<not> unat (idSlot c) \<le> 0" by (simp add: word_less_nat_alt)
        show ?thesis using BasicBody Some SignedTransactionP c
          by (auto simp: bodyValidate_def basicBodyValidate_def bodyFits_def assms(1) if_throw_eq_Inr Let_def
              age_words [OF n] ageFits_def z not_less)
      qed
    qed (use BasicBody Some in \<open>simp_all add: bodyValidate_def basicBodyValidate_def bodyFits_def\<close>)
  qed (use BasicBody in \<open>simp_all add: bodyValidate_def basicBodyValidate_def bodyFits_def\<close>)
next
  case (ValidationBody b)
  then show ?thesis
    by (auto simp: bodyValidate_def validationBodyValidate_def bodyFits_def if_throw_eq_Inr)
qed

text \<open>C25: as long as no slot is so late that the addition of a committable age wraps around, a block is accepted
  exactly when it fits the size limit, carries the version and network of the API, its weak parents are
  disjoint from all others, its commitment has a committable age, and its body fits: a transaction was
  not created after the block and builds on a commitment of a committable age that is not newer than the
  block's own, a validation body supports the version of the block.  A commitment to the genesis slot is
  never too recent for the block itself, but for the transaction only a commitment to slot 0 is exempt,
  where the comment in the code (block.go) means the genesis: with a genesis slot above zero the commitment
  input is held to the minimum age (@\<open>genesis_commitment_input\<close>).\<close>

theorem block_accepted:
  assumes "blockSize D b = Inr n" "blockSlot api (bl_Header b) = Inr slot"
    and "noWrap api (idSlot (bh_SlotCommitmentID (bl_Header b)))"
    and "\<forall>c. commitmentInputOf b = Some c \<longrightarrow> noWrap api (idSlot c)"
  shows "blockValidate D api b = Inr () \<longleftrightarrow>
    n \<le> 32768 \<and> bh_ProtocolVersion (bl_Header b) = api_Version api \<and> bh_NetworkID (bl_Header b) = api_NetworkID api
    \<and> set (WeakParentIDs (bl_Body b)) \<inter> set (StrongParentIDs (bl_Body b) @ ShallowLikeParentIDs (bl_Body b)) = {}
    \<and> ageFits api (unat (api_GenesisSlot api)) slot (idSlot (bh_SlotCommitmentID (bl_Header b)))
    \<and> bodyFits api slot b"
  unfolding blockValidate_def assms(1) andthen_Inr
  by (auto simp: if_throw_eq_Inr andthen_eq_Inr weakParents_iff commitmentAge_iff [OF assms(3,2)]
      bodyValidate_iff [OF assms(2,4)] MaxBlockSize_def not_less)

text \<open>A commitment to the genesis passes as the commitment of a block but not as the commitment input of the
  transaction in it, if the genesis slot is not zero: the body compares with 0 where the block compares
  with the genesis slot.\<close>

theorem genesis_commitment_input:
  assumes "0 < api_GenesisSlot api" "idSlot (bh_SlotCommitmentID (bl_Header bl)) = api_GenesisSlot api"
    and "blockSlot api (bl_Header bl) = Inr slot" "noWrap api (api_GenesisSlot api)"
    and "unat slot < unat (api_GenesisSlot api) + unat (api_MinCommittableAge api)"
    and "unat slot \<le> unat (api_GenesisSlot api) + unat (api_MaxCommittableAge api)"
    and "bb_Payload b = Some (SignedTransactionP st)" "te_CreationSlot (st_Transaction st) \<le> slot"
    and "txCommitmentInput (st_Transaction st) = Some (bh_SlotCommitmentID (bl_Header bl))"
  shows "commitmentAgeCheck api (bl_Header bl) = Inr ()
    \<and> (\<exists>e. basicBodyValidate api bl b = Inl (Err e) \<and> isErr e ''ErrCommitmentInputTooRecent'')"
  using assms by (simp add: commitmentAgeCheck_def basicBodyValidate_def Let_def age_words throw_def not_less [symmetric])

section \<open>A block\<close>

text \<open>The digest of the closed instance starts with the length of the message.\<close>

definition length_sum256 :: "bytes \<Rightarrow> bytes" where
  "length_sum256 b = word_of_nat (length b) # take 31 (b @ replicate 31 0)"

definition ref_block_deps :: block_deps where
  "ref_block_deps = work_deps.extend (ref_work_deps\<lparr>sum256 := length_sum256\<rparr>)
     \<lparr>encHeader = (\<lambda>h. Inr (take 89 (bh_ProtocolVersion h # bh_SlotCommitmentID h @ replicate 89 0))),
      encBasicBody = (\<lambda>b. Inr (0 # concat (bb_StrongParents b))),
      encValidationBody = (\<lambda>b. Inr (1 # concat (vb_StrongParents b))),
      encSignature = (\<lambda>g. Inr (take 97 (0 # (case g of Some e \<Rightarrow> sigPublicKey e @ sigSignature e | None \<Rightarrow> []) @ replicate 97 0))),
      encBlock = (\<lambda>b. Inr (take 89 (bh_ProtocolVersion (bl_Header b) # bh_SlotCommitmentID (bl_Header b) @ replicate 89 0)
        @ (case bl_Body b of BasicBody x \<Rightarrow> 0 # concat (bb_StrongParents x) | ValidationBody x \<Rightarrow> 1 # concat (vb_StrongParents x))
        @ take 97 (0 # (case bl_Signature b of Some e \<Rightarrow> sigPublicKey e @ sigSignature e | None \<Rightarrow> []) @ replicate 97 0)))\<rparr>"

lemma ref_block_deps_sel [simp]:
  "sum256 ref_block_deps = length_sum256" "serOneByte ref_block_deps = 1" "serSmallType ref_block_deps = 1"
  "serUInt16 ref_block_deps = 2" "serPayloadLength ref_block_deps = 4" "serUInt32 ref_block_deps = 4" "serTypeDenotation ref_block_deps = 4"
  "SafeMul32 ref_block_deps = ref_mul" "SafeAdd32 ref_block_deps = ref_add"
  "edVerify ref_block_deps = (\<lambda>pk msg s. s = pk @ msg)"
  "encHeader ref_block_deps = (\<lambda>h. Inr (take 89 (bh_ProtocolVersion h # bh_SlotCommitmentID h @ replicate 89 0)))"
  "encBasicBody ref_block_deps = (\<lambda>b. Inr (0 # concat (bb_StrongParents b)))"
  "encValidationBody ref_block_deps = (\<lambda>b. Inr (1 # concat (vb_StrongParents b)))"
  "encSignature ref_block_deps
     = (\<lambda>g. Inr (take 97 (0 # (case g of Some e \<Rightarrow> sigPublicKey e @ sigSignature e | None \<Rightarrow> []) @ replicate 97 0)))"
  by (simp_all add: ref_block_deps_def ref_work_deps_def ref_tx_deps_def ref_ledger_def ref_deps_def work_deps.defs
      tx_deps.defs ledger_deps.defs deps.defs)

lemma ref_fieldwise: "fieldwise ref_block_deps"
proof -
  have b: "encBlock ref_block_deps b = (case (encHeader ref_block_deps (bl_Header b), encBody ref_block_deps (bl_Body b),
      encSignature ref_block_deps (bl_Signature b)) of (Inr h, Inr d, Inr s) \<Rightarrow> Inr (h @ d @ s) | _ \<Rightarrow> Inl NoReturn)" for b
    by (simp add: ref_block_deps_def work_deps.defs encBody_def split: block_body.split)
  show ?thesis unfolding fieldwise_def b
    by (auto simp: BlockHeaderLength_def Ed25519SignatureSerializedBytesSize_def length_sum256_def encBody_def
        split: block_body.split)
qed

definition demo_header :: block_header where
  "demo_header = \<lparr>bh_ProtocolVersion = 3, bh_NetworkID = 1, bh_IssuingTime = 1600000245000000000,
     bh_SlotCommitmentID = replicate 32 7 @ le32 10, bh_LatestFinalizedSlot = 5, bh_IssuerID = replicate 32 1\<rparr>"

definition demo_payload :: signed_transaction where
  "demo_payload = \<lparr>st_Transaction = syntax_tx\<lparr>te_ContextInputs := [CommitmentInput (replicate 32 8 @ le32 9)]\<rparr>,
     st_Unlocks = demo_unlocks\<rparr>"

definition demo_block :: "u32 \<Rightarrow> block" where
  "demo_block finalized = \<lparr>bl_Header = demo_header\<lparr>bh_LatestFinalizedSlot := finalized\<rparr>,
     bl_Body = BasicBody \<lparr>bb_StrongParents = [replicate 36 1, replicate 36 2], bb_WeakParents = [replicate 36 3],
       bb_ShallowLikeParents = [], bb_Payload = Some (SignedTransactionP demo_payload), bb_MaxBurnedMana = 9\<rparr>,
     bl_Signature = Some \<lparr>sigPublicKey = replicate 32 4, sigSignature = replicate 64 5\<rparr>\<rparr>"

definition demo_block_api :: block_api where
  "demo_block_api = ledger_api.extend syntax_api
     \<lparr>api_Version = 3, api_GenesisSlot = 0, api_WorkScoreParameters = unit_prices\<rparr>"

lemma demo_block_slot [simp]: "blockSlot demo_block_api (bl_Header (demo_block f)) = Inr 25"
  by (simp add: blockSlot_def demo_block_def demo_header_def demo_block_api_def syntax_api_def demo_api_def
      ledger_api.defs SlotFromTime_def timeSub_def quotG_def demo_clock_def NewTimeProvider_def unixTime_def
      signed_divide_int_def)

lemma idSlot_of [simp]: "length i = 32 \<Longrightarrow> idSlot (i @ le32 n) = n"
  by (simp add: idSlot_def)

theorem attestation_stands_for_block_witness:
  "\<exists>a. NewAttestation ref_block_deps (demo_block 5) = Inr a
     \<and> attestationBlockID ref_block_deps demo_block_api a = blockID ref_block_deps demo_block_api (demo_block 5)"
proof -
  obtain a where a: "NewAttestation ref_block_deps (demo_block 5) = Inr a"
    by (simp add: NewAttestation_def demo_block_def bodyHash_def basicBodyHash_def)
  have "\<exists>i. blockID ref_block_deps demo_block_api (demo_block 5) = Inr i"
    by (simp add: blockID_Inr [OF ref_fieldwise] encBody_def) (simp add: demo_block_def)
  then obtain i where "blockID ref_block_deps demo_block_api (demo_block 5) = Inr i" by blast
  with a attestation_stands_for_block [OF ref_fieldwise a, where api = demo_block_api and i = i] show ?thesis by auto
qed

theorem block_id_binds_witness:
  "encBlock ref_block_deps (demo_block 5) = encBlock ref_block_deps (demo_block 6)"
proof -
  let ?h = "take 89 (3 # (replicate 32 7 @ le32 10) @ replicate 89 0)"
  let ?d = "0 # concat [replicate 36 1, replicate 36 2]"
  let ?s = "take 97 (0 # (replicate 32 4 @ replicate 64 5) @ replicate 97 0)"
  have e: "encHeader ref_block_deps (bl_Header (demo_block f)) = Inr ?h"
    "encBody ref_block_deps (bl_Body (demo_block f)) = Inr ?d"
    "encSignature ref_block_deps (bl_Signature (demo_block f)) = Inr ?s" for f
    by (simp_all add: demo_block_def demo_header_def encBody_def)
  have i: "blockID ref_block_deps demo_block_api (demo_block f) = Inr (NewBlockID 25
      (blockIdentifier ref_block_deps (sum256 ref_block_deps ?h) (sum256 ref_block_deps ?d) ?s))" for f
    unfolding blockID_Inr [OF ref_fieldwise] using e demo_block_slot by blast
  have "inj_on length_sum256 {?h, ?d, length_sum256 ?h @ length_sum256 ?d @ ?s}"
    by (auto simp: inj_on_def length_sum256_def)
  then have "inj_on (sum256 ref_block_deps) {?h, ?d, sum256 ref_block_deps ?h @ sum256 ref_block_deps ?d @ ?s,
      ?h, ?d, sum256 ref_block_deps ?h @ sum256 ref_block_deps ?d @ ?s}"
    by (simp add: insert_commute)
  from block_id_binds [OF ref_fieldwise i i e e this] show ?thesis by simp
qed

theorem block_accepted_witness: "blockValidate ref_block_deps demo_block_api (demo_block 5) = Inr ()"
proof -
  have outs: "outputsSize ref_block_deps demo_outputs = Inr 242"
    by (simp add: outputsSize_def demo_outputs_def demo_returning_def demo_restricted_def demo_acct_def outSize_def
        basicSize_def accountSize_def ucsSize_def featsSize_def ucSize_def featSize_def sumG_def)
  have "tx_Outputs syntax_tx = demo_outputs" by (simp add: syntax_tx_def demo_tx_def)
  then have "signedSize ref_block_deps demo_payload = Inr 792"
    by (simp add: signedSize_def txSize_def outs demo_payload_def)
      (simp add: essenceSize_def syntax_tx_def demo_tx_def ctxsSize_def ctxSize_def inputsSize_def inputSize_def
        allotmentsSize_def capabilitiesSize_def unlocksSize_def sumG_def demo_unlocks_def sigSize_def)
  then have size: "blockSize ref_block_deps (demo_block 5) = Inr 1102"
    by (simp add: blockSize_def bodySize_def basicBodySize_def payloadSize_def demo_block_def sigSize_def
        BlockHeaderLength_def BasicBlockSizeEmptyParentsAndEmptyPayload_def)
  have c: "commitmentInputOf (demo_block 5) = Some (replicate 32 8 @ le32 9)"
    by (simp add: demo_block_def commitmentInputOf_def demo_payload_def txCommitmentInput_def)
  have w: "noWrap demo_block_api (idSlot (bh_SlotCommitmentID (bl_Header (demo_block 5))))"
    "\<forall>c. commitmentInputOf (demo_block 5) = Some c \<longrightarrow> noWrap demo_block_api (idSlot c)"
    unfolding c by (simp_all add: noWrap_def demo_block_def demo_header_def demo_block_api_def syntax_api_def
        demo_api_def ledger_api.defs)
  have fits: "bodyFits demo_block_api 25 (demo_block 5)"
    by (simp add: bodyFits_def demo_block_def demo_payload_def txCommitmentInput_def ageFits_def demo_header_def
        demo_block_api_def syntax_api_def demo_api_def ledger_api.defs syntax_tx_def demo_tx_def word_le_nat_alt)
  show ?thesis
    unfolding block_accepted [OF size demo_block_slot w]
    using fits by (simp add: ageFits_def) (simp add: demo_block_def demo_header_def demo_block_api_def syntax_api_def
        demo_api_def ledger_api.defs WeakParentIDs_def StrongParentIDs_def ShallowLikeParentIDs_def)
qed

end
