(* ===== verification/Slot_Commitments.thy ===== *)
theory Slot_Commitments
  imports Blocks
begin

text \<open>
  The commitment of a slot, commitment.go, and the eight roots it commits to, commitment_roots.go.  The
  roots are the leaves of a Merkle tree whose hash is the roots ID; a proof for one of them is checked
  against that ID.  The order of attestations, by which a node picks the better of two, is an instance of
  the orders the validators use.
\<close>

section \<open>Commitments\<close>

record commitment_deps = block_deps +
  encCommitment :: "commitment \<Rightarrow> bytes go"

definition NewCommitment :: "u8 \<Rightarrow> u32 \<Rightarrow> bytes \<Rightarrow> bytes \<Rightarrow> u64 \<Rightarrow> u64 \<Rightarrow> commitment" where
  "NewCommitment version slot prevID rootsID cumulativeWeight rmc =
     \<lparr>cm_ProtocolVersion = version, cm_Slot = slot, cm_PreviousCommitmentID = prevID, cm_RootsID = rootsID,
      cm_CumulativeWeight = cumulativeWeight, cm_ReferenceManaCost = rmc\<rparr>"

definition NewCommitmentID :: "u32 \<Rightarrow> bytes \<Rightarrow> bytes" where
  "NewCommitmentID slot idBytes = idBytes @ le32 slot"

definition CommitmentIDRepresentingData :: "'a deps_scheme \<Rightarrow> u32 \<Rightarrow> bytes \<Rightarrow> bytes" where
  "CommitmentIDRepresentingData D slot data = NewCommitmentID slot (sum256 D data)"

definition commitmentID :: "'a commitment_deps_scheme \<Rightarrow> commitment \<Rightarrow> bytes go" where
  "commitmentID D c =
    andthen (wrapE ''failed to serialize commitment'' (encCommitment D c)) (\<lambda>data.
    Inr (CommitmentIDRepresentingData D (cm_Slot c) data))"

definition commitmentMustID :: "'a commitment_deps_scheme \<Rightarrow> commitment \<Rightarrow> bytes go" where
  "commitmentMustID D c = mustE (commitmentID D c)"

definition commitmentEquals :: "'a commitment_deps_scheme \<Rightarrow> commitment \<Rightarrow> commitment \<Rightarrow> bool go" where
  "commitmentEquals D c other =
    andthen (commitmentMustID D c) (\<lambda>i.
    andthen (commitmentMustID D other) (\<lambda>j.
    Inr (i = j \<and> cm_ProtocolVersion c = cm_ProtocolVersion other \<and> cm_Slot c = cm_Slot other
      \<and> cm_PreviousCommitmentID c = cm_PreviousCommitmentID other \<and> cm_RootsID c = cm_RootsID other
      \<and> cm_CumulativeWeight c = cm_CumulativeWeight other
      \<and> cm_ReferenceManaCost c = cm_ReferenceManaCost other)))"

definition commitmentSize :: "'a ledger_deps_scheme \<Rightarrow> nat" where
  "commitmentSize D = serOneByte D + 4 + 36 + 32 + 8 + 8"

section \<open>Roots\<close>

record roots =
  ro_TangleRoot :: bytes
  ro_StateMutationRoot :: bytes
  ro_StateRoot :: bytes
  ro_AccountRoot :: bytes
  ro_AttestationsRoot :: bytes
  ro_CommitteeRoot :: bytes
  ro_RewardsRoot :: bytes
  ro_ProtocolParametersHash :: bytes

definition NewRoots :: "bytes \<Rightarrow> bytes \<Rightarrow> bytes \<Rightarrow> bytes \<Rightarrow> bytes \<Rightarrow> bytes \<Rightarrow> bytes \<Rightarrow> bytes \<Rightarrow> roots" where
  "NewRoots tangleRoot stateMutationRoot attestationsRoot stateRoot accountRoot committeeRoot rewardsRoot
      protocolParametersHash =
     \<lparr>ro_TangleRoot = tangleRoot, ro_StateMutationRoot = stateMutationRoot, ro_StateRoot = stateRoot,
      ro_AccountRoot = accountRoot, ro_AttestationsRoot = attestationsRoot, ro_CommitteeRoot = committeeRoot,
      ro_RewardsRoot = rewardsRoot, ro_ProtocolParametersHash = protocolParametersHash\<rparr>"

definition rootValues :: "roots \<Rightarrow> bytes list" where
  "rootValues r =
    [ro_TangleRoot r, ro_StateMutationRoot r, ro_StateRoot r, ro_AccountRoot r, ro_AttestationsRoot r,
     ro_CommitteeRoot r, ro_RewardsRoot r, ro_ProtocolParametersHash r]"

definition rootsID :: "'a deps_scheme \<Rightarrow> roots \<Rightarrow> bytes go" where
  "rootsID D r = mustE (HashValues Inr (sum256 D) (rootValues r))"

definition AttestationsProof :: "'a deps_scheme \<Rightarrow> roots \<Rightarrow> merkle_hashable go" where
  "AttestationsProof D r = mustE (ComputeProofForIndex Inr (sum256 D) (rootValues r) 4)"

definition TangleProof :: "'a deps_scheme \<Rightarrow> roots \<Rightarrow> merkle_hashable go" where
  "TangleProof D r = mustE (ComputeProofForIndex Inr (sum256 D) (rootValues r) 0)"

definition MutationProof :: "'a deps_scheme \<Rightarrow> roots \<Rightarrow> merkle_hashable go" where
  "MutationProof D r = mustE (ComputeProofForIndex Inr (sum256 D) (rootValues r) 1)"

definition VerifyProof :: "'a deps_scheme \<Rightarrow> merkle_hashable \<Rightarrow> bytes \<Rightarrow> bytes \<Rightarrow> bool go" where
  "VerifyProof D proof proofedRoot treeRoot =
    andthen (mustE (ContainsValue Inr (sum256 D) proof proofedRoot)) (\<lambda>contains.
    if \<not> contains then Inr False
    else Inr (treeRoot = proofHash (sum256 D) proof))"

section \<open>What a proof shows\<close>

lemma proof_of_root:
  assumes "index < length (rootValues r)"
  shows "\<exists>p i. ComputeProofForIndex Inr (sum256 D) (rootValues r) index = Inr p \<and> rootsID D r = Inr i
    \<and> VerifyProof D p (rootValues r ! index) i = Inr True"
proof -
  have "mapG Inr (rootValues r) = Inr (rootValues r)" by (simp add: mapG_iff list_all2_refl)
  from compute_proof_complete [OF this assms, of "sum256 D"] show ?thesis
    by (auto simp: rootsID_def VerifyProof_def)
qed

text \<open>A proof accepted against the roots ID shows one of the eight roots, unless the check and the computation
  of the ID meet a collision of the hash function.\<close>

lemma root_proof_sound:
  assumes "\<And>m. length (sum256 D m) = 32" "rootsID D r = Inr i" "VerifyProof D p x i = Inr True"
    and "inj_on (sum256 D) (insert (0 # x) (proofQueries (sum256 D) p \<union> {y. treeQuery (sum256 D) (rootValues r) y}))"
  shows "x \<in> set (rootValues r)"
proof -
  have id: "mapG Inr (rootValues r) = Inr (rootValues r)" by (simp add: mapG_iff list_all2_refl)
  have c: "containsValueHash p (hashLeaf (sum256 D) x)" and h: "i = proofHash (sum256 D) p"
    using assms(3) by (auto simp: VerifyProof_def andthen_eq_Inr ContainsValue_def split: if_splits)
  have "merkleHash (sum256 D) (rootValues r) = Inr (proofHash (sum256 D) p)"
    using assms(2) h id by (auto simp: rootsID_def HashValues_def)
  from merkle_sound_aux [OF assms(1,4) this c] show ?thesis .
qed

text \<open>The roots ID and the proofs for the tangle, state mutation and attestations root always exist, and
  each proof is accepted for its root and the roots ID.\<close>

theorem root_proofs:
  "\<exists>i. rootsID D r = Inr i
    \<and> (\<exists>p. TangleProof D r = Inr p \<and> VerifyProof D p (ro_TangleRoot r) i = Inr True)
    \<and> (\<exists>p. MutationProof D r = Inr p \<and> VerifyProof D p (ro_StateMutationRoot r) i = Inr True)
    \<and> (\<exists>p. AttestationsProof D r = Inr p \<and> VerifyProof D p (ro_AttestationsRoot r) i = Inr True)"
proof -
  have i: "0 < length (rootValues r)" "1 < length (rootValues r)" "4 < length (rootValues r)"
    by (simp_all add: rootValues_def)
  have v: "rootValues r ! 0 = ro_TangleRoot r" "rootValues r ! 1 = ro_StateMutationRoot r"
    "rootValues r ! 4 = ro_AttestationsRoot r"
    by (simp_all add: rootValues_def)
  show ?thesis
    using proof_of_root [OF i(1), of D] proof_of_root [OF i(2), of D] proof_of_root [OF i(3), of D]
    by (auto simp: TangleProof_def MutationProof_def AttestationsProof_def v v(2) [simplified])
qed

text \<open>Equality of commitments compares the identifiers and all fields, which amounts to the fields.\<close>

lemma commitmentEquals_iff:
  assumes "encCommitment D c = Inr x" "encCommitment D c' = Inr y"
  shows "commitmentEquals D c c' = Inr (c = c')"
proof (cases "c = c'")
  case True
  with assms show ?thesis by (simp add: commitmentEquals_def commitmentMustID_def commitmentID_def)
next
  case False
  then have "\<not> (cm_ProtocolVersion c = cm_ProtocolVersion c' \<and> cm_Slot c = cm_Slot c'
      \<and> cm_PreviousCommitmentID c = cm_PreviousCommitmentID c' \<and> cm_RootsID c = cm_RootsID c'
      \<and> cm_CumulativeWeight c = cm_CumulativeWeight c' \<and> cm_ReferenceManaCost c = cm_ReferenceManaCost c')"
    by auto
  with assms False show ?thesis
    by (simp add: commitmentEquals_def commitmentMustID_def commitmentID_def)
qed

section \<open>The order of attestations\<close>

text \<open>No attestation is less than any; then the slot of the commitment, the issuing time and the hash of the
  body decide.\<close>

definition attestationKey :: "attestation option \<Rightarrow> nat \<times> u32 \<times> int \<times> bytes" where
  "attestationKey a =
    (case a of None \<Rightarrow> (0, 0, 0, [])
     | Some x \<Rightarrow> (1, idSlot (bh_SlotCommitmentID (att_Header x)), bh_IssuingTime (att_Header x), att_BodyHash x))"

interpretation attestation_order: key_order attestationCompare attestationKey
  by unfold_locales
    (auto simp: attestationCompare_def attestationKey_def cmpCompare_def bytesCompare_def less_prod_def Let_def
      split: option.split)

end
