(* ===== verification/Address_Signer.thy ===== *)
theory Address_Signer
  imports Addresses
begin

text \<open>
  The signer of addresses, address_signer.go: the interface as a record of its methods, the implementation
  that holds private keys in memory, and the contract between a signer and the checks of signatures as a
  locale.  Ed25519 key derivation and signing are parameters; the map of keys is from the key string of an
  address to a value that is a private key or anything else.
\<close>

record ed25519_keys =
  edPublic :: "bytes \<Rightarrow> bytes"
  edSign :: "bytes \<Rightarrow> bytes \<Rightarrow> bytes"

record address_signer =
  SignerUIDForAddress :: "address \<Rightarrow> bytes go"
  signFor :: "address \<Rightarrow> bytes \<Rightarrow> ed25519_signature go"
  EmptySignatureForAddress :: "address \<Rightarrow> ed25519_signature go"

datatype key_value = Ed25519PrivateKey bytes | OtherKey

record address_keys =
  ak_Address :: address
  ak_Keys :: key_value

section \<open>Address keys\<close>

definition NewAddressKeysForEd25519Address :: "bytes \<Rightarrow> bytes \<Rightarrow> address_keys" where
  "NewAddressKeysForEd25519Address a prvKey = \<lparr>ak_Address = Ed25519Address a, ak_Keys = Ed25519PrivateKey prvKey\<rparr>"

definition NewAddressKeysForImplicitAccountCreationAddress :: "bytes \<Rightarrow> bytes \<Rightarrow> address_keys" where
  "NewAddressKeysForImplicitAccountCreationAddress a prvKey =
     \<lparr>ak_Address = ImplicitAccountCreationAddress a, ak_Keys = Ed25519PrivateKey prvKey\<rparr>"

definition NewAddressKeysForRestrictedEd25519Address :: "address \<Rightarrow> bytes \<Rightarrow> bytes \<Rightarrow> address_keys go" where
  "NewAddressKeysForRestrictedEd25519Address underlying caps prvKey =
    (case underlying of
       Ed25519Address _ \<Rightarrow>
         Inr \<lparr>ak_Address = RestrictedAddress underlying caps, ak_Keys = Ed25519PrivateKey prvKey\<rparr>
     | ImplicitAccountCreationAddress _ \<Rightarrow>
         Inl (Panic ''ImplicitAccountCreationAddress is not allowed in restricted addresses'')
     | _ \<Rightarrow> Inl (Panic ''address type %T is not supported in the address signer since it only handles addresses backed by keypairs''))"

section \<open>The signer in memory\<close>

type_synonym key_map = "bytes \<Rightarrow> key_value option"

definition NewInMemoryAddressSigner :: "'a ledger_deps_scheme \<Rightarrow> address_keys list \<Rightarrow> key_map" where
  "NewInMemoryAddressSigner D addrKeys = fold (\<lambda>c m. m(addrKey D (ak_Address c) \<mapsto> ak_Keys c)) addrKeys Map.empty"

definition NewInMemoryAddressSignerFromEd25519PrivateKeys ::
    "ed25519_keys \<Rightarrow> 'a ledger_deps_scheme \<Rightarrow> bytes list \<Rightarrow> key_map" where
  "NewInMemoryAddressSignerFromEd25519PrivateKeys K D privKeys =
     NewInMemoryAddressSigner D (concat (map (\<lambda>privKey.
       let h = sum256 D (edPublic K privKey)
       in [NewAddressKeysForEd25519Address h privKey, NewAddressKeysForImplicitAccountCreationAddress h privKey])
       privKeys))"

definition privateKeyForEd25519Address :: "'a ledger_deps_scheme \<Rightarrow> key_map \<Rightarrow> address \<Rightarrow> bytes go" where
  "privateKeyForEd25519Address D s edAddr =
    (case s (addrKey D edAddr) of
       None \<Rightarrow> throw (Wrap (Sentinel ''ErrAddressKeysNotMapped'') ''can't sign message for Ed25519 address: %w'')
     | Some (Ed25519PrivateKey prvKey) \<Rightarrow> Inr prvKey
     | Some OtherKey \<Rightarrow> throw (Wrap (Sentinel ''ErrAddressKeysWrongType'')
         ''Ed25519 address needs to have a %T private key mapped but got %T''))"

definition privateKeyForAddress :: "'a ledger_deps_scheme \<Rightarrow> key_map \<Rightarrow> address \<Rightarrow> bytes go" where
  "privateKeyForAddress D s addr =
    (case addr of
       Ed25519Address _ \<Rightarrow> privateKeyForEd25519Address D s addr
     | RestrictedAddress underlyingAddr _ \<Rightarrow>
         (case underlyingAddr of
            Ed25519Address _ \<Rightarrow> privateKeyForEd25519Address D s underlyingAddr
          | _ \<Rightarrow> Inl (Panic ''underlying address type %T in restricted address is not supported in the address signer since it only handles addresses backed by keypairs''))
     | ImplicitAccountCreationAddress _ \<Rightarrow> privateKeyForEd25519Address D s addr
     | _ \<Rightarrow> Inl (Panic ''address type %T is not supported in the address signer since it only handles addresses backed by keypairs''))"

definition memSignerUID :: "ed25519_keys \<Rightarrow> 'a ledger_deps_scheme \<Rightarrow> key_map \<Rightarrow> address \<Rightarrow> bytes go" where
  "memSignerUID K D s addr =
    andthen (wrapE ''can't get private key for address: %w'' (privateKeyForAddress D s addr)) (\<lambda>prvKey.
    Inr (sum256 D (edPublic K prvKey)))"

definition memSign :: "ed25519_keys \<Rightarrow> 'a ledger_deps_scheme \<Rightarrow> key_map \<Rightarrow> address \<Rightarrow> bytes \<Rightarrow> ed25519_signature go" where
  "memSign K D s addr msg =
    andthen (wrapE ''can't sign message for address'' (privateKeyForAddress D s addr)) (\<lambda>prvKey.
    Inr \<lparr>sigPublicKey = edPublic K prvKey, sigSignature = edSign K prvKey msg\<rparr>)"

definition memEmptySignature :: "address \<Rightarrow> ed25519_signature go" where
  "memEmptySignature addr =
    (let e = \<lparr>sigPublicKey = replicate 32 0, sigSignature = replicate 64 0\<rparr>
     in case addr of
       Ed25519Address _ \<Rightarrow> Inr e
     | RestrictedAddress underlyingAddr _ \<Rightarrow>
         (case underlyingAddr of
            Ed25519Address _ \<Rightarrow> Inr e
          | _ \<Rightarrow> Inl (Panic ''underlying address type %T in restricted address is not supported in the address signer since it only handles addresses backed by keypairs''))
     | ImplicitAccountCreationAddress _ \<Rightarrow> Inr e
     | _ \<Rightarrow> Inl (Panic ''address type %T is not supported in the address signer since it only handles addresses backed by keypairs''))"

definition memSigner :: "ed25519_keys \<Rightarrow> 'a ledger_deps_scheme \<Rightarrow> key_map \<Rightarrow> address_signer" where
  "memSigner K D s = \<lparr>SignerUIDForAddress = memSignerUID K D s, signFor = memSign K D s,
     EmptySignatureForAddress = memEmptySignature\<rparr>"

section \<open>The contract of a signer\<close>

text \<open>The identifier of the signer is the one the validator of unlocks computes from the signature, so equal
  identifiers mean equal signers, a signature opens every direct unlockable address it was asked for, and the
  signature of a signer belongs to each of its addresses.\<close>

locale signer =
  fixes D :: "'a ledger_deps_scheme" and uid :: "address \<Rightarrow> bytes go" and sgn :: "address \<Rightarrow> bytes \<Rightarrow> ed25519_signature go"
    and good :: "address \<Rightarrow> bool"
  assumes uid_law: "uid a = Inr u \<Longrightarrow> sgn a msg = Inr sig \<Longrightarrow> SignerUID D sig = u"
    and open_law: "good a \<Longrightarrow> sgn a msg = Inr sig \<Longrightarrow> addrUnlock D a msg sig = Inr ()"
    and match_law: "good a \<Longrightarrow> uid a = Inr u \<Longrightarrow> SignerUID D sig = u \<Longrightarrow> MatchesAddress D sig a"
begin

lemma signatures_distinct:
  "uid a = Inr u \<Longrightarrow> uid b = Inr v \<Longrightarrow> u \<noteq> v \<Longrightarrow> sgn a m = Inr s \<Longrightarrow> sgn b n = Inr t \<Longrightarrow> s \<noteq> t"
  using uid_law by metis

end

text \<open>The keys in memory are well formed when each is stored under the address of its public key.\<close>

definition keys_ok :: "ed25519_keys \<Rightarrow> 'a ledger_deps_scheme \<Rightarrow> key_map \<Rightarrow> bool" where
  "keys_ok K D s \<longleftrightarrow> (\<forall>h p.
     (s (addrKey D (Ed25519Address h)) = Some (Ed25519PrivateKey p) \<longrightarrow> h = sum256 D (edPublic K p))
     \<and> (s (addrKey D (ImplicitAccountCreationAddress h)) = Some (Ed25519PrivateKey p) \<longrightarrow> h = sum256 D (edPublic K p)))"

definition ed25519_correct :: "ed25519_keys \<Rightarrow> 'a ledger_deps_scheme \<Rightarrow> bool" where
  "ed25519_correct K D \<longleftrightarrow> (\<forall>p msg. edVerify D (edPublic K p) msg (edSign K p msg))"

lemma privateKey_direct:
  assumes "keys_ok K D s" "isDirectUnlockable a" "privateKeyForAddress D s a = Inr p"
  shows "a = Ed25519Address (sum256 D (edPublic K p)) \<or> a = ImplicitAccountCreationAddress (sum256 D (edPublic K p))"
  using assms
  by (cases a) (auto simp: privateKeyForAddress_def privateKeyForEd25519Address_def keys_ok_def isDirectUnlockable_def
      split: option.splits key_value.splits)

lemma memSign_opens:
  assumes "ed25519_correct K D" "keys_ok K D s" "isDirectUnlockable a" "memSign K D s a msg = Inr sig"
  shows "addrUnlock D a msg sig = Inr ()"
proof -
  obtain p where p: "privateKeyForAddress D s a = Inr p"
    and sig: "sig = \<lparr>sigPublicKey = edPublic K p, sigSignature = edSign K p msg\<rparr>"
    using assms(4) by (auto simp: memSign_def andthen_eq_Inr)
  from privateKey_direct [OF assms(2,3) p] show ?thesis
    using assms(1) by (auto simp: sig addrUnlock_def sigValid_def Ed25519AddressFromPubKey_def ed25519_correct_def Let_def)
qed

interpretation mem: signer D "memSignerUID K D s" "memSign K D s"
    "\<lambda>a. ed25519_correct K D \<and> keys_ok K D s \<and> isDirectUnlockable a"
  for K :: ed25519_keys and D :: "'a ledger_deps_scheme" and s
proof
  fix a u msg sig
  assume "memSignerUID K D s a = Inr u" "memSign K D s a msg = Inr sig"
  then show "SignerUID D sig = u"
    by (auto simp: memSignerUID_def memSign_def andthen_eq_Inr SignerUID_def)
next
  fix a u sig
  assume a: "ed25519_correct K D \<and> keys_ok K D s \<and> isDirectUnlockable a" and u: "memSignerUID K D s a = Inr u" "SignerUID D sig = u"
  then obtain p where p: "privateKeyForAddress D s a = Inr p" "sum256 D (edPublic K p) = u"
    by (auto simp: memSignerUID_def andthen_eq_Inr)
  have "a = Ed25519Address (sum256 D (edPublic K p)) \<or> a = ImplicitAccountCreationAddress (sum256 D (edPublic K p))"
    using privateKey_direct [OF _ _ p(1), of K] a by blast
  with u(2) p(2) show "MatchesAddress D sig a"
    by (auto simp: MatchesAddress_def SignerUID_def Ed25519AddressFromPubKey_def ImplicitAccountCreationAddressFromPubKey_def)
qed (use memSign_opens in blast)

text \<open>A signer made from private keys is well formed, when the keys of addresses are distinct.\<close>

lemma keys_ok_fold:
  assumes "\<forall>c \<in> set cs. \<exists>p. ak_Keys c = Ed25519PrivateKey p
      \<and> (ak_Address c = Ed25519Address (sum256 D (edPublic K p))
         \<or> ak_Address c = ImplicitAccountCreationAddress (sum256 D (edPublic K p)))"
    and "inj_on (addrKey D) {a. isDirectUnlockable a}" and "keys_ok K D m"
  shows "keys_ok K D (fold (\<lambda>c m. m(addrKey D (ak_Address c) \<mapsto> ak_Keys c)) cs m)"
  using assms(1,3)
proof (induction cs arbitrary: m)
  case (Cons c cs)
  obtain p where p: "ak_Keys c = Ed25519PrivateKey p" and a: "ak_Address c = Ed25519Address (sum256 D (edPublic K p))
      \<or> ak_Address c = ImplicitAccountCreationAddress (sum256 D (edPublic K p))"
    using Cons.prems(1) by auto
  have same: "addrKey D b = addrKey D (ak_Address c) \<Longrightarrow> b = ak_Address c" if "isDirectUnlockable b" for b
    using inj_onD [OF assms(2), of b "ak_Address c"] that a by (auto simp: isDirectUnlockable_def)
  have "keys_ok K D (m(addrKey D (ak_Address c) \<mapsto> ak_Keys c))"
    unfolding keys_ok_def
  proof (intro allI conjI impI)
    fix h q
    { assume "(m(addrKey D (ak_Address c) \<mapsto> ak_Keys c)) (addrKey D (Ed25519Address h)) = Some (Ed25519PrivateKey q)"
      then show "h = sum256 D (edPublic K q)"
        using Cons.prems(2) a p same [of "Ed25519Address h"]
        by (auto simp: keys_ok_def isDirectUnlockable_def split: if_splits) }
    assume "(m(addrKey D (ak_Address c) \<mapsto> ak_Keys c)) (addrKey D (ImplicitAccountCreationAddress h)) = Some (Ed25519PrivateKey q)"
    then show "h = sum256 D (edPublic K q)"
      using Cons.prems(2) a p same [of "ImplicitAccountCreationAddress h"]
      by (auto simp: keys_ok_def isDirectUnlockable_def split: if_splits)
  qed
  moreover have "\<forall>c \<in> set cs. \<exists>p. ak_Keys c = Ed25519PrivateKey p
      \<and> (ak_Address c = Ed25519Address (sum256 D (edPublic K p))
         \<or> ak_Address c = ImplicitAccountCreationAddress (sum256 D (edPublic K p)))"
    using Cons.prems(1) by simp
  ultimately show ?case using Cons.IH unfolding fold_simps by blast
qed simp

lemma keys_ok_private:
  assumes "inj_on (addrKey D) {a. isDirectUnlockable a}"
  shows "keys_ok K D (NewInMemoryAddressSignerFromEd25519PrivateKeys K D ps)"
  unfolding NewInMemoryAddressSignerFromEd25519PrivateKeys_def NewInMemoryAddressSigner_def
  by (rule keys_ok_fold [OF _ assms])
    (auto simp: keys_ok_def Let_def NewAddressKeysForEd25519Address_def NewAddressKeysForImplicitAccountCreationAddress_def)

text \<open>Keys registered for a restricted address are stored under its key, but looked up under the key of the
  address inside of it.\<close>

theorem restricted_keys_not_found:
  assumes "NewAddressKeysForRestrictedEd25519Address (Ed25519Address h) caps p = Inr k"
    and "addrKey D (RestrictedAddress (Ed25519Address h) caps) \<noteq> addrKey D (Ed25519Address h)"
  shows "memSign K D (NewInMemoryAddressSigner D [k]) (RestrictedAddress (Ed25519Address h) caps) msg
    = throw (Wrap (Wrap (Sentinel ''ErrAddressKeysNotMapped'') ''can't sign message for Ed25519 address: %w'')
        ''can't sign message for address'')"
  using assms
  by (auto simp: NewAddressKeysForRestrictedEd25519Address_def NewInMemoryAddressSigner_def memSign_def
      privateKeyForAddress_def privateKeyForEd25519Address_def throw_def)

end
