(* ===== verification/Block_Builder.thy ===== *)
theory Block_Builder
  imports Slot_Commitments Address_Signer
begin

text \<open>
  The builders of basic and validation blocks, builder/block_builder.go.  A builder keeps the block under
  construction and the first error; once there is an error its methods leave it alone.  The body in the
  block is the builder's own body (one pointer), so the state has it once.  The time of creation is an
  argument.  What both kinds of builders promise is proved once, in a locale over the kind of body.
\<close>

record builder_api = block_api +
  api_MinReferenceManaCost :: u64

record 'b block_builder =
  bu_Header :: block_header
  bu_Body :: 'b
  bu_Signature :: "ed25519_signature option"
  bu_err :: "go_error option"

type_synonym basic_block_builder = "basic_block_body block_builder"
type_synonym validation_block_builder = "validation_block_body block_builder"

section \<open>Steps of a builder\<close>

text \<open>Every method starts with the test for an earlier error.\<close>

definition setHeader :: "(block_header \<Rightarrow> block_header) \<Rightarrow> 'b block_builder \<Rightarrow> 'b block_builder" where
  "setHeader f b = (if bu_err b \<noteq> None then b else b\<lparr>bu_Header := f (bu_Header b)\<rparr>)"

definition setBody :: "('b \<Rightarrow> 'b) \<Rightarrow> 'b block_builder \<Rightarrow> 'b block_builder" where
  "setBody f b = (if bu_err b \<noteq> None then b else b\<lparr>bu_Body := f (bu_Body b)\<rparr>)"

text \<open>A call that fails is remembered in the builder; one that panics is not caught.\<close>

definition recordErr :: "'b block_builder \<Rightarrow> 'x go \<Rightarrow> ('x \<Rightarrow> 'b block_builder) \<Rightarrow> 'b block_builder go" where
  "recordErr b m f =
    (case m of Inr x \<Rightarrow> Inr (f x) | Inl (Err e) \<Rightarrow> Inr (b\<lparr>bu_err := Some e\<rparr>) | Inl p \<Rightarrow> Inl p)"

definition protocolBlock :: "('b \<Rightarrow> block_body) \<Rightarrow> 'b block_builder \<Rightarrow> block" where
  "protocolBlock body b = \<lparr>bl_Header = bu_Header b, bl_Body = body (bu_Body b), bl_Signature = bu_Signature b\<rparr>"

definition emptySignature :: ed25519_signature where
  "emptySignature = \<lparr>sigPublicKey = replicate 32 0, sigSignature = replicate 64 0\<rparr>"

definition signBlock ::
    "'a block_deps_scheme \<Rightarrow> ('b \<Rightarrow> block_body) \<Rightarrow> string \<Rightarrow> bytes \<Rightarrow> (address \<Rightarrow> bytes \<Rightarrow> ed25519_signature go)
     \<Rightarrow> address \<Rightarrow> 'b block_builder \<Rightarrow> 'b block_builder go" where
  "signBlock D body msg accountID addrSigner addr b =
    (if bu_err b \<noteq> None then Inr b
     else let b' = b\<lparr>bu_Header := (bu_Header b)\<lparr>bh_IssuerID := accountID\<rparr>\<rparr>
          in recordErr b' (wrapE msg (blockSign D addrSigner (protocolBlock body b') addr))
               (\<lambda>edSig. b'\<lparr>bu_Signature := Some edSig\<rparr>))"

section \<open>Basic blocks\<close>

definition NewBasicBlockBuilder :: "'p block_api_scheme \<Rightarrow> int \<Rightarrow> basic_block_builder" where
  "NewBasicBlockBuilder api now =
    \<lparr>bu_Header = \<lparr>bh_ProtocolVersion = api_Version api, bh_NetworkID = api_NetworkID api, bh_IssuingTime = now,
       bh_SlotCommitmentID = replicate 36 0, bh_LatestFinalizedSlot = 0, bh_IssuerID = replicate 32 0\<rparr>,
     bu_Body = \<lparr>bb_StrongParents = [], bb_WeakParents = [], bb_ShallowLikeParents = [], bb_Payload = None,
       bb_MaxBurnedMana = 0\<rparr>,
     bu_Signature = Some emptySignature, bu_err = None\<rparr>"

definition sortBasic :: "basic_block_body \<Rightarrow> basic_block_body" where
  "sortBasic x = x\<lparr>bb_ShallowLikeParents := sort (bb_ShallowLikeParents x), bb_WeakParents := sort (bb_WeakParents x),
     bb_StrongParents := sort (bb_StrongParents x)\<rparr>"

text \<open>Build returns the builder it sorted, and the block or the error.\<close>

definition basicBuild :: "basic_block_builder \<Rightarrow> basic_block_builder \<times> block go" where
  "basicBuild b =
    (let b' = b\<lparr>bu_Body := sortBasic (bu_Body b)\<rparr>
     in (b', case bu_err b' of Some e \<Rightarrow> throw e | None \<Rightarrow> Inr (protocolBlock BasicBody b')))"

definition basicProtocolVersion :: "u8 \<Rightarrow> basic_block_builder \<Rightarrow> basic_block_builder" where
  "basicProtocolVersion version = setHeader (\<lambda>h. h\<lparr>bh_ProtocolVersion := version\<rparr>)"

definition basicIssuingTime :: "int \<Rightarrow> basic_block_builder \<Rightarrow> basic_block_builder" where
  "basicIssuingTime t = setHeader (\<lambda>h. h\<lparr>bh_IssuingTime := t\<rparr>)"

definition basicSlotCommitmentID :: "bytes \<Rightarrow> basic_block_builder \<Rightarrow> basic_block_builder" where
  "basicSlotCommitmentID c = setHeader (\<lambda>h. h\<lparr>bh_SlotCommitmentID := c\<rparr>)"

definition basicLatestFinalizedSlot :: "u32 \<Rightarrow> basic_block_builder \<Rightarrow> basic_block_builder" where
  "basicLatestFinalizedSlot slot = setHeader (\<lambda>h. h\<lparr>bh_LatestFinalizedSlot := slot\<rparr>)"

definition basicSignWithSigner ::
    "'a block_deps_scheme \<Rightarrow> bytes \<Rightarrow> (address \<Rightarrow> bytes \<Rightarrow> ed25519_signature go) \<Rightarrow> address
     \<Rightarrow> basic_block_builder \<Rightarrow> basic_block_builder go" where
  "basicSignWithSigner D accountID addrSigner addr b =
     signBlock D BasicBody ''failed to sign basic block'' accountID addrSigner addr b"

text \<open>The signer with the one key, and the address of that key.\<close>

definition keySigner :: "ed25519_keys \<Rightarrow> 'a ledger_deps_scheme \<Rightarrow> bytes \<Rightarrow> key_map" where
  "keySigner K D privKey =
    NewInMemoryAddressSigner D [NewAddressKeysForEd25519Address (sum256 D (edPublic K privKey)) privKey]"

definition basicSign ::
    "ed25519_keys \<Rightarrow> 'a block_deps_scheme \<Rightarrow> bytes \<Rightarrow> bytes \<Rightarrow> basic_block_builder \<Rightarrow> basic_block_builder go" where
  "basicSign K D accountID privKey b =
    (let ed25519Address = Ed25519AddressFromPubKey D (edPublic K privKey)
     in basicSignWithSigner D accountID (memSign K D (keySigner K D privKey)) ed25519Address b)"

definition basicStrongParents :: "bytes list \<Rightarrow> basic_block_builder \<Rightarrow> basic_block_builder" where
  "basicStrongParents parents = setBody (\<lambda>x. x\<lparr>bb_StrongParents := RemoveDupsAndSort parents\<rparr>)"

definition basicWeakParents :: "bytes list \<Rightarrow> basic_block_builder \<Rightarrow> basic_block_builder" where
  "basicWeakParents parents = setBody (\<lambda>x. x\<lparr>bb_WeakParents := RemoveDupsAndSort parents\<rparr>)"

definition basicShallowLikeParents :: "bytes list \<Rightarrow> basic_block_builder \<Rightarrow> basic_block_builder" where
  "basicShallowLikeParents parents = setBody (\<lambda>x. x\<lparr>bb_ShallowLikeParents := RemoveDupsAndSort parents\<rparr>)"

definition basicPayload :: "app_payload option \<Rightarrow> basic_block_builder \<Rightarrow> basic_block_builder" where
  "basicPayload payload = setBody (\<lambda>x. x\<lparr>bb_Payload := payload\<rparr>)"

definition basicMaxBurnedMana :: "u64 \<Rightarrow> basic_block_builder \<Rightarrow> basic_block_builder" where
  "basicMaxBurnedMana maxBurnedMana = setBody (\<lambda>x. x\<lparr>bb_MaxBurnedMana := maxBurnedMana\<rparr>)"

definition CalculateAndSetMaxBurnedMana ::
    "'a work_deps_scheme \<Rightarrow> 'p block_api_scheme \<Rightarrow> u64 \<Rightarrow> basic_block_builder \<Rightarrow> basic_block_builder go" where
  "CalculateAndSetMaxBurnedMana D api rmc b =
    (if bu_err b \<noteq> None then Inr b
     else recordErr b (wrapE ''failed to calculate mana cost'' (blockManaCost D api (protocolBlock BasicBody b) rmc))
            (\<lambda>burnedMana. b\<lparr>bu_Body := (bu_Body b)\<lparr>bb_MaxBurnedMana := burnedMana\<rparr>\<rparr>))"

section \<open>Validation blocks\<close>

definition NewEmptyCommitment :: "'p builder_api_scheme \<Rightarrow> commitment" where
  "NewEmptyCommitment api =
    \<lparr>cm_ProtocolVersion = api_Version api, cm_Slot = api_GenesisSlot api, cm_PreviousCommitmentID = replicate 36 0,
     cm_RootsID = replicate 32 0, cm_CumulativeWeight = 0, cm_ReferenceManaCost = api_MinReferenceManaCost api\<rparr>"

definition NewValidationBlockBuilder ::
    "'a commitment_deps_scheme \<Rightarrow> 'p builder_api_scheme \<Rightarrow> int \<Rightarrow> validation_block_builder go" where
  "NewValidationBlockBuilder D api now =
    andthen (commitmentMustID D (NewEmptyCommitment api)) (\<lambda>c.
    Inr \<lparr>bu_Header = \<lparr>bh_ProtocolVersion = api_Version api, bh_NetworkID = api_NetworkID api, bh_IssuingTime = now,
       bh_SlotCommitmentID = c, bh_LatestFinalizedSlot = 0, bh_IssuerID = replicate 32 0\<rparr>,
     bu_Body = \<lparr>vb_StrongParents = [], vb_WeakParents = [], vb_ShallowLikeParents = [], vb_HighestSupportedVersion = 0,
       vb_ProtocolParametersHash = replicate 32 0\<rparr>,
     bu_Signature = Some emptySignature, bu_err = None\<rparr>)"

definition sortValidation :: "validation_block_body \<Rightarrow> validation_block_body" where
  "sortValidation x = x\<lparr>vb_ShallowLikeParents := sort (vb_ShallowLikeParents x),
     vb_WeakParents := sort (vb_WeakParents x), vb_StrongParents := sort (vb_StrongParents x)\<rparr>"

definition validationBuild :: "validation_block_builder \<Rightarrow> validation_block_builder \<times> block go" where
  "validationBuild b =
    (let b' = b\<lparr>bu_Body := sortValidation (bu_Body b)\<rparr>
     in (b', case bu_err b' of Some e \<Rightarrow> throw e | None \<Rightarrow> Inr (protocolBlock ValidationBody b')))"

definition validationProtocolVersion :: "u8 \<Rightarrow> validation_block_builder \<Rightarrow> validation_block_builder" where
  "validationProtocolVersion version = setHeader (\<lambda>h. h\<lparr>bh_ProtocolVersion := version\<rparr>)"

definition validationIssuingTime :: "int \<Rightarrow> validation_block_builder \<Rightarrow> validation_block_builder" where
  "validationIssuingTime t = setHeader (\<lambda>h. h\<lparr>bh_IssuingTime := t\<rparr>)"

definition validationSlotCommitmentID :: "bytes \<Rightarrow> validation_block_builder \<Rightarrow> validation_block_builder" where
  "validationSlotCommitmentID c = setHeader (\<lambda>h. h\<lparr>bh_SlotCommitmentID := c\<rparr>)"

definition validationLatestFinalizedSlot :: "u32 \<Rightarrow> validation_block_builder \<Rightarrow> validation_block_builder" where
  "validationLatestFinalizedSlot slot = setHeader (\<lambda>h. h\<lparr>bh_LatestFinalizedSlot := slot\<rparr>)"

definition validationSignWithSigner ::
    "'a block_deps_scheme \<Rightarrow> bytes \<Rightarrow> (address \<Rightarrow> bytes \<Rightarrow> ed25519_signature go) \<Rightarrow> address
     \<Rightarrow> validation_block_builder \<Rightarrow> validation_block_builder go" where
  "validationSignWithSigner D accountID addrSigner addr b =
     signBlock D ValidationBody ''failed to sign validation block'' accountID addrSigner addr b"

definition validationSign ::
    "ed25519_keys \<Rightarrow> 'a block_deps_scheme \<Rightarrow> bytes \<Rightarrow> bytes \<Rightarrow> validation_block_builder
     \<Rightarrow> validation_block_builder go" where
  "validationSign K D accountID privKey b =
    (let ed25519Address = Ed25519AddressFromPubKey D (edPublic K privKey)
     in validationSignWithSigner D accountID (memSign K D (keySigner K D privKey)) ed25519Address b)"

definition validationStrongParents :: "bytes list \<Rightarrow> validation_block_builder \<Rightarrow> validation_block_builder" where
  "validationStrongParents parents = setBody (\<lambda>x. x\<lparr>vb_StrongParents := RemoveDupsAndSort parents\<rparr>)"

definition validationWeakParents :: "bytes list \<Rightarrow> validation_block_builder \<Rightarrow> validation_block_builder" where
  "validationWeakParents parents = setBody (\<lambda>x. x\<lparr>vb_WeakParents := RemoveDupsAndSort parents\<rparr>)"

definition validationShallowLikeParents :: "bytes list \<Rightarrow> validation_block_builder \<Rightarrow> validation_block_builder" where
  "validationShallowLikeParents parents = setBody (\<lambda>x. x\<lparr>vb_ShallowLikeParents := RemoveDupsAndSort parents\<rparr>)"

definition HighestSupportedVersion :: "u8 \<Rightarrow> validation_block_builder \<Rightarrow> validation_block_builder" where
  "HighestSupportedVersion version = setBody (\<lambda>x. x\<lparr>vb_HighestSupportedVersion := version\<rparr>)"

definition setProtocolParametersHash :: "bytes \<Rightarrow> validation_block_builder \<Rightarrow> validation_block_builder" where
  "setProtocolParametersHash hash = setBody (\<lambda>x. x\<lparr>vb_ProtocolParametersHash := hash\<rparr>)"

section \<open>The states of a builder\<close>

inductive basic_built :: "'a commitment_deps_scheme \<Rightarrow> 'p builder_api_scheme \<Rightarrow> basic_block_builder \<Rightarrow> bool"
  for D :: "'a commitment_deps_scheme" and api :: "'p builder_api_scheme" where
  new: "basic_built D api (NewBasicBlockBuilder api now)"
| version: "basic_built D api b \<Longrightarrow> basic_built D api (basicProtocolVersion v b)"
| issuing: "basic_built D api b \<Longrightarrow> basic_built D api (basicIssuingTime t b)"
| commitment: "basic_built D api b \<Longrightarrow> basic_built D api (basicSlotCommitmentID c b)"
| finalized: "basic_built D api b \<Longrightarrow> basic_built D api (basicLatestFinalizedSlot s b)"
| sign: "basic_built D api b \<Longrightarrow> basicSignWithSigner D i sg a b = Inr b' \<Longrightarrow> basic_built D api b'"
| strong: "basic_built D api b \<Longrightarrow> basic_built D api (basicStrongParents ps b)"
| weak: "basic_built D api b \<Longrightarrow> basic_built D api (basicWeakParents ps b)"
| shallow: "basic_built D api b \<Longrightarrow> basic_built D api (basicShallowLikeParents ps b)"
| payload: "basic_built D api b \<Longrightarrow> basic_built D api (basicPayload p b)"
| burned: "basic_built D api b \<Longrightarrow> basic_built D api (basicMaxBurnedMana m b)"
| cost: "basic_built D api b \<Longrightarrow> CalculateAndSetMaxBurnedMana D api rmc b = Inr b' \<Longrightarrow> basic_built D api b'"
| build: "basic_built D api b \<Longrightarrow> basic_built D api (fst (basicBuild b))"

inductive validation_built ::
    "'a commitment_deps_scheme \<Rightarrow> 'p builder_api_scheme \<Rightarrow> validation_block_builder \<Rightarrow> bool"
  for D :: "'a commitment_deps_scheme" and api :: "'p builder_api_scheme" where
  new: "NewValidationBlockBuilder D api now = Inr b \<Longrightarrow> validation_built D api b"
| version: "validation_built D api b \<Longrightarrow> validation_built D api (validationProtocolVersion v b)"
| issuing: "validation_built D api b \<Longrightarrow> validation_built D api (validationIssuingTime t b)"
| commitment: "validation_built D api b \<Longrightarrow> validation_built D api (validationSlotCommitmentID c b)"
| finalized: "validation_built D api b \<Longrightarrow> validation_built D api (validationLatestFinalizedSlot s b)"
| sign: "validation_built D api b \<Longrightarrow> validationSignWithSigner D i sg a b = Inr b' \<Longrightarrow> validation_built D api b'"
| strong: "validation_built D api b \<Longrightarrow> validation_built D api (validationStrongParents ps b)"
| weak: "validation_built D api b \<Longrightarrow> validation_built D api (validationWeakParents ps b)"
| shallow: "validation_built D api b \<Longrightarrow> validation_built D api (validationShallowLikeParents ps b)"
| highest: "validation_built D api b \<Longrightarrow> validation_built D api (HighestSupportedVersion v b)"
| hash: "validation_built D api b \<Longrightarrow> validation_built D api (setProtocolParametersHash h b)"
| build: "validation_built D api b \<Longrightarrow> validation_built D api (fst (validationBuild b))"

text \<open>In every state the parents are in strictly ascending order.\<close>

definition parentsSorted :: "block_body \<Rightarrow> bool" where
  "parentsSorted b \<longleftrightarrow> sorted_wrt (<) (StrongParentIDs b) \<and> sorted_wrt (<) (WeakParentIDs b)
     \<and> sorted_wrt (<) (ShallowLikeParentIDs b)"

lemma sort_strict: "sorted_wrt (<) xs \<Longrightarrow> sort xs = (xs :: bytes list)"
  by (simp add: sorted_sort_id strict_sorted_iff)

lemma recordErr_cases:
  assumes "recordErr b m f = Inr b'"
  obtains x where "m = Inr x" "b' = f x" | e where "m = Inl (Err e)" "b' = b\<lparr>bu_err := Some e\<rparr>"
  using assms by (auto simp: recordErr_def split: sum.splits fault.splits)

lemma signBlock_body: "signBlock D body msg i sg a b = Inr b' \<Longrightarrow> bu_Body b' = bu_Body b"
  by (auto simp: signBlock_def Let_def split: if_splits elim: recordErr_cases)

lemma basic_parents: "basic_built D api b \<Longrightarrow> parentsSorted (BasicBody (bu_Body b))"
proof (induction rule: basic_built.induct)
  case (sign b i sg a b')
  then show ?case by (simp add: basicSignWithSigner_def signBlock_body)
next
  case (cost b rmc b')
  then show ?case
    by (auto simp: CalculateAndSetMaxBurnedMana_def parentsSorted_def StrongParentIDs_def WeakParentIDs_def
        ShallowLikeParentIDs_def split: if_splits elim: recordErr_cases)
next
  case (build b)
  then show ?case
    by (simp add: basicBuild_def sortBasic_def parentsSorted_def StrongParentIDs_def WeakParentIDs_def
        ShallowLikeParentIDs_def Let_def sort_strict)
qed (auto simp: NewBasicBlockBuilder_def basicProtocolVersion_def basicIssuingTime_def basicSlotCommitmentID_def
    basicLatestFinalizedSlot_def basicStrongParents_def basicWeakParents_def basicShallowLikeParents_def
    basicPayload_def basicMaxBurnedMana_def setHeader_def setBody_def parentsSorted_def StrongParentIDs_def
    WeakParentIDs_def ShallowLikeParentIDs_def RemoveDupsAndSort_spec)

lemma validation_parents: "validation_built D api b \<Longrightarrow> parentsSorted (ValidationBody (bu_Body b))"
proof (induction rule: validation_built.induct)
  case (sign b i sg a b')
  then show ?case by (simp add: validationSignWithSigner_def signBlock_body)
next
  case (build b)
  then show ?case
    by (simp add: validationBuild_def sortValidation_def parentsSorted_def StrongParentIDs_def WeakParentIDs_def
        ShallowLikeParentIDs_def Let_def sort_strict)
qed (auto simp: NewValidationBlockBuilder_def andthen_eq_Inr validationProtocolVersion_def validationIssuingTime_def
    validationSlotCommitmentID_def validationLatestFinalizedSlot_def validationStrongParents_def
    validationWeakParents_def validationShallowLikeParents_def HighestSupportedVersion_def setProtocolParametersHash_def
    setHeader_def setBody_def parentsSorted_def StrongParentIDs_def WeakParentIDs_def ShallowLikeParentIDs_def
    RemoveDupsAndSort_spec)

section \<open>What both builders promise\<close>

text \<open>The law: Build sorts nothing that is not sorted already, so the block that was signed is the block
  that is built.\<close>

locale builder_contract =
  fixes built :: "'b block_builder \<Rightarrow> bool" and body :: "'b \<Rightarrow> block_body" and sorted :: "'b \<Rightarrow> 'b"
    and build :: "'b block_builder \<Rightarrow> 'b block_builder \<times> block go"
  assumes build_law: "build b = (let b' = b\<lparr>bu_Body := sorted (bu_Body b)\<rparr>
      in (b', case bu_err b' of Some e \<Rightarrow> throw e | None \<Rightarrow> Inr (protocolBlock body b')))"
    and sorted_law: "built b \<Longrightarrow> sorted (bu_Body b) = bu_Body b"
begin

lemma build_is_block: "built b \<Longrightarrow> bu_err b = None \<Longrightarrow> build b = (b, Inr (protocolBlock body b))"
  by (simp add: build_law sorted_law)

lemma signed_block_verifies:
  assumes "built b" "signBlock D body msg i (memSign K D (keySigner K D p)) (Ed25519AddressFromPubKey D (edPublic K p)) b = Inr b'"
    and "built b'" "snd (build b') = Inr blk" "ed25519_correct K D" "edPublic K p \<noteq> replicate 32 0"
  shows "blockVerifySignature D blk = Inr True \<and> bh_IssuerID (bl_Header blk) = i \<and> bl_Body blk = body (bu_Body b)"
proof -
  have none: "bu_err b' = None"
    using assms(4) by (auto simp: build_law Let_def split: option.splits)
  have blk: "blk = protocolBlock body b'"
    using assms(4) build_is_block [OF assms(3) none] by simp
  let ?b = "b\<lparr>bu_Header := (bu_Header b)\<lparr>bh_IssuerID := i\<rparr>\<rparr>"
  have "bu_err b = None"
    using assms(2) none by (cases "bu_err b") (auto simp: signBlock_def)
  with assms(2) have "recordErr ?b (wrapE msg (blockSign D (memSign K D (keySigner K D p)) (protocolBlock body ?b)
      (Ed25519AddressFromPubKey D (edPublic K p)))) (\<lambda>edSig. ?b\<lparr>bu_Signature := Some edSig\<rparr>) = Inr b'"
    by (simp add: signBlock_def Let_def)
  then show ?thesis
  proof (cases rule: recordErr_cases)
    case (1 sig)
    then obtain m where m: "signingMessageOf D (protocolBlock body ?b) = Inr m"
      and sig: "sig = \<lparr>sigPublicKey = edPublic K p, sigSignature = edSign K p m\<rparr>"
      by (auto simp: blockSign_def andthen_eq_Inr memSign_def privateKeyForAddress_def privateKeyForEd25519Address_def
          Ed25519AddressFromPubKey_def keySigner_def NewInMemoryAddressSigner_def NewAddressKeysForEd25519Address_def)
    have "signingMessageOf D (protocolBlock body b') = Inr m"
      using m by (simp add: 1(2) signingMessageOf_def protocolBlock_def)
    then show ?thesis
      using assms(5,6) by (simp add: blk blockVerifySignature_def) (simp add: 1(2) sig protocolBlock_def ed25519_correct_def)
  next
    case (2 e)
    then show ?thesis using none by simp
  qed
qed

end

interpretation basic: builder_contract "basic_built D api" BasicBody sortBasic basicBuild
  for D :: "'a commitment_deps_scheme" and api :: "'p builder_api_scheme"
proof
  fix b assume "basic_built D api b"
  from basic_parents [OF this] show "sortBasic (bu_Body b) = bu_Body b"
    by (simp add: sortBasic_def parentsSorted_def StrongParentIDs_def WeakParentIDs_def ShallowLikeParentIDs_def sort_strict)
qed (simp add: basicBuild_def)

interpretation validation: builder_contract "validation_built D api" ValidationBody sortValidation validationBuild
  for D :: "'a commitment_deps_scheme" and api :: "'p builder_api_scheme"
proof
  fix b assume "validation_built D api b"
  from validation_parents [OF this] show "sortValidation (bu_Body b) = bu_Body b"
    by (simp add: sortValidation_def parentsSorted_def StrongParentIDs_def WeakParentIDs_def ShallowLikeParentIDs_def
        sort_strict)
qed (simp add: validationBuild_def)

text \<open>Signing with a private key fails only if the header or the body cannot be encoded.\<close>

lemma basicSign_returns:
  assumes "bu_err b = None" and "\<And>b'. \<exists>m. signingMessageOf D (protocolBlock BasicBody b') = Inr m"
  shows "\<exists>b'. basicSign K D i p b = Inr b' \<and> bu_err b' = None"
proof -
  obtain m where "signingMessageOf D (protocolBlock BasicBody (b\<lparr>bu_Header := bu_Header b\<lparr>bh_IssuerID := i\<rparr>\<rparr>)) = Inr m"
    using assms(2) by blast
  then show ?thesis
    using assms(1)
    by (simp add: basicSign_def basicSignWithSigner_def signBlock_def recordErr_def blockSign_def memSign_def
        privateKeyForAddress_def privateKeyForEd25519Address_def Ed25519AddressFromPubKey_def keySigner_def
        NewInMemoryAddressSigner_def NewAddressKeysForEd25519Address_def)
qed

text \<open>C22: whatever methods were called before, a basic block that was signed with a private key and then
  built carries a signature that verifies, the account as issuer, and strong, weak and shallow like parents
  without duplicates in ascending order.\<close>

theorem built_block_signed:
  assumes "basic_built D api b" "basicSign K D i p b = Inr b'" "snd (basicBuild b') = Inr blk"
    and "ed25519_correct K D" "edPublic K p \<noteq> replicate 32 0"
  shows "blockVerifySignature D blk = Inr True \<and> bh_IssuerID (bl_Header blk) = i \<and> parentsSorted (bl_Body blk)"
proof -
  note s = assms(2) [unfolded basicSign_def Let_def basicSignWithSigner_def]
  have "basic_built D api b'"
    using basic_built.sign [OF assms(1)] assms(2) by (simp add: basicSign_def Let_def)
  from basic.signed_block_verifies [OF assms(1) s this assms(3-5)] basic_parents [OF assms(1)]
  show ?thesis by simp
qed

theorem built_validation_block_signed:
  assumes "validation_built D api b" "validationSign K D i p b = Inr b'" "snd (validationBuild b') = Inr blk"
    and "ed25519_correct K D" "edPublic K p \<noteq> replicate 32 0"
  shows "blockVerifySignature D blk = Inr True \<and> bh_IssuerID (bl_Header blk) = i \<and> parentsSorted (bl_Body blk)"
proof -
  note s = assms(2) [unfolded validationSign_def Let_def validationSignWithSigner_def]
  have "validation_built D api b'"
    using validation_built.sign [OF assms(1)] assms(2) by (simp add: validationSign_def Let_def)
  from validation.signed_block_verifies [OF assms(1) s this assms(3-5)] validation_parents [OF assms(1)]
  show ?thesis by simp
qed

section \<open>A block built\<close>

text \<open>Keys of the closed instance: a key is its own public key, a signature the key and the message.\<close>

definition ref_keys :: ed25519_keys where
  "ref_keys = \<lparr>edPublic = (\<lambda>p. p), edSign = (\<lambda>p msg. p @ msg)\<rparr>"

definition ref_commitment_deps :: commitment_deps where
  "ref_commitment_deps = block_deps.extend ref_block_deps \<lparr>encCommitment = (\<lambda>c. Inr [cm_ProtocolVersion c])\<rparr>"

definition demo_builder_api :: builder_api where
  "demo_builder_api = block_api.extend demo_block_api \<lparr>api_MinReferenceManaCost = 1\<rparr>"

lemma ref_commitment_deps_sel [simp]:
  "encHeader ref_commitment_deps = encHeader ref_block_deps" "encBasicBody ref_commitment_deps = encBasicBody ref_block_deps"
  "edVerify ref_commitment_deps = edVerify ref_block_deps"
  by (simp_all add: ref_commitment_deps_def block_deps.defs)

lemma ref_keys_correct: "ed25519_correct ref_keys ref_commitment_deps"
  by (simp add: ed25519_correct_def ref_keys_def)

lemma ref_signing_message: "\<exists>m. signingMessageOf ref_commitment_deps (protocolBlock BasicBody b) = Inr m"
  by (simp add: signingMessageOf_def headerHash_def bodyHash_def basicBodyHash_def protocolBlock_def)

theorem built_block_signed_witness:
  "\<exists>b' blk. basicSign ref_keys ref_commitment_deps (replicate 32 1) (replicate 32 4)
      (basicStrongParents [replicate 36 2, replicate 36 1] (NewBasicBlockBuilder demo_builder_api 0)) = Inr b'
    \<and> snd (basicBuild b') = Inr blk \<and> blockVerifySignature ref_commitment_deps blk = Inr True"
proof -
  let ?b = "basicStrongParents [replicate 36 2, replicate 36 1] (NewBasicBlockBuilder demo_builder_api 0)"
  have st: "basic_built ref_commitment_deps demo_builder_api ?b"
    by (rule basic_built.strong [OF basic_built.new])
  have "bu_err ?b = None" by (simp add: basicStrongParents_def setBody_def NewBasicBlockBuilder_def)
  from basicSign_returns [OF this ref_signing_message] obtain b'
    where b': "basicSign ref_keys ref_commitment_deps (replicate 32 1) (replicate 32 4) ?b = Inr b'" "bu_err b' = None"
    by blast
  obtain blk where blk: "snd (basicBuild b') = Inr blk"
    using b'(2) by (simp add: basicBuild_def Let_def)
  have "edPublic ref_keys (replicate 32 4) \<noteq> replicate 32 0"
    by (simp add: ref_keys_def replicate_eq_replicate)
  from built_block_signed [OF st b'(1) blk ref_keys_correct this] b'(1) blk show ?thesis by blast
qed

end
