(* ===== verification/Tx_Builder.thy ===== *)
theory Tx_Builder
  imports Block_Builder VM_Exec
begin

text \<open>
  The transaction builder, builder/transaction_builder.go.  The state is the transaction under
  construction, the inputs with their outputs and the addresses that unlock them, the rewards and the last
  error.  The API and the current time are arguments, the signer is a record of its methods.  Maps are
  association lists where they are iterated over; the iteration follows the list, so what is proved holds
  for every order.  Unlike the block builder, most methods do not look at an earlier error.
\<close>

record tx_builder =
  tb_signer :: "address_signer option"
  tb_occurredBuildErr :: "go_error option"
  tb_transaction :: transaction
  tb_inputs :: "(bytes \<times> ledger_output) list"
  tb_inputOwner :: "bytes \<Rightarrow> address option"
  tb_rewards :: u64

record tx_input =
  ti_UnlockTarget :: address
  ti_InputID :: bytes
  ti_Input :: ledger_output

definition NewTransactionBuilder :: "'p block_api_scheme \<Rightarrow> address_signer option \<Rightarrow> tx_builder" where
  "NewTransactionBuilder api addrSigner =
    \<lparr>tb_signer = addrSigner, tb_occurredBuildErr = None,
     tb_transaction = \<lparr>te_NetworkID = api_NetworkID api, te_CreationSlot = 0, te_ContextInputs = [], te_Inputs = [],
       te_Allotments = [], te_Capabilities = [], te_Payload = None, tx_Outputs = []\<rparr>,
     tb_inputs = [], tb_inputOwner = Map.empty, tb_rewards = 0\<rparr>"

section \<open>Adding parts\<close>

abbreviation changeTx :: "(transaction \<Rightarrow> transaction) \<Rightarrow> tx_builder \<Rightarrow> tx_builder" where
  "changeTx f b \<equiv> b\<lparr>tb_transaction := f (tb_transaction b)\<rparr>"

definition UTXOInput :: "bytes \<Rightarrow> utxo_input" where
  "UTXOInput outputID = \<lparr>in_TransactionID = TransactionIDOf outputID, in_Index = outputIndex outputID\<rparr>"

definition AddInput :: "tx_input \<Rightarrow> tx_builder \<Rightarrow> tx_builder" where
  "AddInput input b =
    (changeTx (\<lambda>t. t\<lparr>te_Inputs := te_Inputs t @ [UTXOInput (ti_InputID input)]\<rparr>) b)
      \<lparr>tb_inputOwner := (tb_inputOwner b)(ti_InputID input \<mapsto> ti_UnlockTarget input),
       tb_inputs := AList.update (ti_InputID input) (ti_Input input) (tb_inputs b)\<rparr>"

definition AddCommitmentInput :: "bytes \<Rightarrow> tx_builder \<Rightarrow> tx_builder" where
  "AddCommitmentInput c =
     changeTx (\<lambda>t. t\<lparr>te_ContextInputs := te_ContextInputs t @ [CommitmentInput c]\<rparr>)"

definition AddBlockIssuanceCreditInput :: "bytes \<Rightarrow> tx_builder \<Rightarrow> tx_builder" where
  "AddBlockIssuanceCreditInput accountID =
     changeTx (\<lambda>t. t\<lparr>te_ContextInputs := te_ContextInputs t @ [BlockIssuanceCreditInput accountID]\<rparr>)"

definition AddRewardInput :: "u16 \<Rightarrow> u64 \<Rightarrow> tx_builder \<Rightarrow> tx_builder" where
  "AddRewardInput index mana b =
    (changeTx (\<lambda>t. t\<lparr>te_ContextInputs := te_ContextInputs t @ [RewardInput index]\<rparr>) b)
      \<lparr>tb_rewards := tb_rewards b + mana\<rparr>"

text \<open>The sum of an allotment wraps around.\<close>

fun increaseIn :: "mana_allotment list \<Rightarrow> bytes \<Rightarrow> u64 \<Rightarrow> mana_allotment list" where
  "increaseIn [] accountID value = [\<lparr>al_AccountID = accountID, al_Mana = value\<rparr>]"
| "increaseIn (a # as) accountID value =
    (if al_AccountID a = accountID then a\<lparr>al_Mana := al_Mana a + value\<rparr> # as
     else a # increaseIn as accountID value)"

definition IncreaseAllotment :: "bytes \<Rightarrow> u64 \<Rightarrow> tx_builder \<Rightarrow> tx_builder" where
  "IncreaseAllotment accountID value b =
    (if value = 0 then b
     else changeTx (\<lambda>t. t\<lparr>te_Allotments := increaseIn (te_Allotments t) accountID value\<rparr>) b)"

definition AddOutput :: "ledger_output \<Rightarrow> tx_builder \<Rightarrow> tx_builder" where
  "AddOutput output = changeTx (\<lambda>t. t\<lparr>tx_Outputs := tx_Outputs t @ [output]\<rparr>)"

definition WithTransactionCapabilities :: "bytes \<Rightarrow> tx_builder \<Rightarrow> tx_builder" where
  "WithTransactionCapabilities capabilities = changeTx (\<lambda>t. t\<lparr>te_Capabilities := capabilities\<rparr>)"

definition SetCreationSlot :: "u32 \<Rightarrow> tx_builder \<Rightarrow> tx_builder" where
  "SetCreationSlot creationSlot = changeTx (\<lambda>t. t\<lparr>te_CreationSlot := creationSlot\<rparr>)"

definition AddTaggedDataPayload :: "tagged_data \<Rightarrow> tx_builder \<Rightarrow> tx_builder" where
  "AddTaggedDataPayload payload = changeTx (\<lambda>t. t\<lparr>te_Payload := Some payload\<rparr>)"

definition setBuildError :: "go_error \<Rightarrow> tx_builder \<Rightarrow> tx_builder" where
  "setBuildError err b = b\<lparr>tb_occurredBuildErr := Some err\<rparr>"

text \<open>A method whose inner call fails sets the error and returns; a panic is not caught.\<close>

definition orSetError :: "tx_builder \<Rightarrow> 'x go \<Rightarrow> ('x \<Rightarrow> tx_builder go) \<Rightarrow> tx_builder go" where
  "orSetError b m f = (case m of Inr x \<Rightarrow> f x | Inl (Err e) \<Rightarrow> Inr (setBuildError e b) | Inl p \<Rightarrow> Inl p)"

section \<open>Available mana\<close>

record available_mana =
  am_TotalMana :: u64
  am_UnboundMana :: u64
  am_PotentialMana :: u64
  am_StoredMana :: u64
  am_UnboundPotentialMana :: u64
  am_UnboundStoredMana :: u64
  am_AccountBoundMana :: "(bytes \<times> u64) list"
  am_Rewards :: u64

definition noManaYet :: available_mana where
  "noManaYet = \<lparr>am_TotalMana = 0, am_UnboundMana = 0, am_PotentialMana = 0, am_StoredMana = 0,
     am_UnboundPotentialMana = 0, am_UnboundStoredMana = 0, am_AccountBoundMana = [], am_Rewards = 0\<rparr>"

definition addTotalMana :: "'a deps_scheme \<Rightarrow> u64 \<Rightarrow> available_mana \<Rightarrow> available_mana go" where
  "addTotalMana D value a =
    andthen (wrapE ''failed to add total mana'' (liftE (SafeAdd64 D (am_TotalMana a) value))) (\<lambda>x.
    Inr (a\<lparr>am_TotalMana := x\<rparr>))"

definition addUnboundMana :: "'a deps_scheme \<Rightarrow> u64 \<Rightarrow> available_mana \<Rightarrow> available_mana go" where
  "addUnboundMana D value a =
    andthen (wrapE ''failed to add unbound mana'' (liftE (SafeAdd64 D (am_UnboundMana a) value))) (\<lambda>x.
    Inr (a\<lparr>am_UnboundMana := x\<rparr>))"

definition AddPotentialMana :: "'a deps_scheme \<Rightarrow> u64 \<Rightarrow> available_mana \<Rightarrow> available_mana go" where
  "AddPotentialMana D value a =
    andthen (wrapE ''failed to add potential mana'' (liftE (SafeAdd64 D (am_PotentialMana a) value))) (\<lambda>x.
    addTotalMana D value (a\<lparr>am_PotentialMana := x\<rparr>))"

definition AddStoredMana :: "'a deps_scheme \<Rightarrow> u64 \<Rightarrow> available_mana \<Rightarrow> available_mana go" where
  "AddStoredMana D value a =
    andthen (wrapE ''failed to add stored mana'' (liftE (SafeAdd64 D (am_StoredMana a) value))) (\<lambda>x.
    addTotalMana D value (a\<lparr>am_StoredMana := x\<rparr>))"

definition AddUnboundPotentialMana :: "'a deps_scheme \<Rightarrow> u64 \<Rightarrow> available_mana \<Rightarrow> available_mana go" where
  "AddUnboundPotentialMana D value a =
    andthen (wrapE ''failed to add unbound potential mana'' (liftE (SafeAdd64 D (am_UnboundPotentialMana a) value)))
      (\<lambda>x. addUnboundMana D value (a\<lparr>am_UnboundPotentialMana := x\<rparr>))"

definition AddUnboundStoredMana :: "'a deps_scheme \<Rightarrow> u64 \<Rightarrow> available_mana \<Rightarrow> available_mana go" where
  "AddUnboundStoredMana D value a =
    andthen (wrapE ''failed to add unbound stored mana'' (liftE (SafeAdd64 D (am_UnboundStoredMana a) value))) (\<lambda>x.
    addUnboundMana D value (a\<lparr>am_UnboundStoredMana := x\<rparr>))"

definition AddRewards :: "'a deps_scheme \<Rightarrow> u64 \<Rightarrow> available_mana \<Rightarrow> available_mana go" where
  "AddRewards D value a =
    andthen (wrapE ''failed to add rewards'' (liftE (SafeAdd64 D (am_Rewards a) value))) (\<lambda>x.
    addUnboundMana D value (a\<lparr>am_Rewards := x\<rparr>))"

definition AddAccountBoundMana :: "'a deps_scheme \<Rightarrow> bytes \<Rightarrow> u64 \<Rightarrow> available_mana \<Rightarrow> available_mana go" where
  "AddAccountBoundMana D accountID value a =
    (let bound = (case map_of (am_AccountBoundMana a) accountID of Some m \<Rightarrow> m | None \<Rightarrow> 0)
     in andthen (wrapE ''failed to add account bound mana to account %s'' (liftE (SafeAdd64 D bound value))) (\<lambda>x.
        Inr (a\<lparr>am_AccountBoundMana := AList.update accountID x (am_AccountBoundMana a)\<rparr>)))"

definition availableStep ::
    "'a ledger_deps_scheme \<Rightarrow> 'p block_api_scheme \<Rightarrow> u32 \<Rightarrow> available_mana \<Rightarrow> bytes \<times> ledger_output
     \<Rightarrow> available_mana go" where
  "availableStep D api targetSlot result idInput =
    (case idInput of (inputID, input) \<Rightarrow>
     andthen (wrapE ''failed to calculate potential mana''
         (PotentialMana D (api_ManaDecayProvider api) (api_StorageScoreStructure api) input (CreationSlot inputID)
            targetSlot)) (\<lambda>inputPotentialMana.
     andthen (AddPotentialMana D inputPotentialMana result) (\<lambda>result.
     andthen (wrapE ''failed to calculate stored mana decay''
         (DecayManaBySlots (api_ManaDecayProvider api) (outStoredMana input) (CreationSlot inputID) targetSlot))
       (\<lambda>inputStoredMana.
     andthen (AddStoredMana D inputStoredMana result) (\<lambda>result.
     case input of
       AccountO accountOutput \<Rightarrow>
         andthen (wrapE ''failed to add input mana'' (liftE (SafeAdd64 D inputPotentialMana inputStoredMana)))
           (\<lambda>inputTotalMana. AddAccountBoundMana D (ao_AccountID accountOutput) inputTotalMana result)
     | _ \<Rightarrow>
         andthen (AddUnboundPotentialMana D inputPotentialMana result) (\<lambda>result.
         AddUnboundStoredMana D inputStoredMana result))))))"

definition CalculateAvailableManaInputs ::
    "'a ledger_deps_scheme \<Rightarrow> 'p block_api_scheme \<Rightarrow> u32 \<Rightarrow> tx_builder \<Rightarrow> available_mana go" where
  "CalculateAvailableManaInputs D api targetSlot b =
    andthen (foldG (availableStep D api targetSlot) noManaYet (tb_inputs b)) (\<lambda>result.
    AddRewards D (tb_rewards b) result)"

text \<open>The slot from which on mana is locked is computed at 32 bits.\<close>

definition hasManalockCondition :: "'p block_api_scheme \<Rightarrow> tx_builder \<Rightarrow> ledger_output \<Rightarrow> bytes option go" where
  "hasManalockCondition api b output =
    (let minManalockedSlot = te_CreationSlot (tb_transaction b) + 2 * api_MaxCommittableAge api
     in andthen (outUCSet output) (\<lambda>ucs1.
        Inr (if \<not> HasTimelockUntil ucs1 minManalockedSlot then None
             else case ucAddress ucs1 of Some (AccountAddress accountID) \<Rightarrow> Some accountID | _ \<Rightarrow> None)))"

definition subtractUnbound :: "'a deps_scheme \<Rightarrow> string \<Rightarrow> u64 \<Rightarrow> available_mana \<Rightarrow> available_mana go" where
  "subtractUnbound D msg value a =
    andthen (wrapE msg (liftE (SafeSub64 D (am_UnboundMana a) value))) (\<lambda>x. Inr (a\<lparr>am_UnboundMana := x\<rparr>))"

definition updateUnboundAndAccountBoundManaBalances ::
    "'a deps_scheme \<Rightarrow> bytes \<Rightarrow> u64 \<Rightarrow> available_mana \<Rightarrow> available_mana go" where
  "updateUnboundAndAccountBoundManaBalances D accountID accountBoundManaOut a =
    (if accountBoundManaOut = 0 then Inr a
     else case map_of (am_AccountBoundMana a) accountID of
       Some accountBalance \<Rightarrow>
         if accountBalance < accountBoundManaOut
         then subtractUnbound D ''not enough unbound mana on the input side for account %s while subtracting remainder''
                (accountBoundManaOut - accountBalance)
                (a\<lparr>am_AccountBoundMana := AList.update accountID 0 (am_AccountBoundMana a)\<rparr>)
         else Inr (a\<lparr>am_AccountBoundMana :=
                AList.update accountID (accountBalance - accountBoundManaOut) (am_AccountBoundMana a)\<rparr>)
     | None \<Rightarrow> subtractUnbound D ''not enough unbound mana on the input side for account %s'' accountBoundManaOut a)"

definition subtractOutput ::
    "'a deps_scheme \<Rightarrow> 'p block_api_scheme \<Rightarrow> tx_builder \<Rightarrow> available_mana \<Rightarrow> ledger_output \<Rightarrow> available_mana go" where
  "subtractOutput D api b a output =
    (case output of
       AccountO x \<Rightarrow>
         wrapE ''failed to subtract the stored mana on the outputs side for account output''
           (updateUnboundAndAccountBoundManaBalances D (ao_AccountID x) (outStoredMana output) a)
     | _ \<Rightarrow>
         andthen (hasManalockCondition api b output) (\<lambda>locked.
         case locked of
           Some accountID \<Rightarrow>
             wrapE ''failed to subtract the stored mana on the outputs side, while checking locked mana''
               (updateUnboundAndAccountBoundManaBalances D accountID (outStoredMana output) a)
         | None \<Rightarrow> subtractUnbound D ''failed to subtract the stored mana on the outputs side'' (outStoredMana output) a))"

definition CalculateAvailableManaRemaining ::
    "'a ledger_deps_scheme \<Rightarrow> 'p block_api_scheme \<Rightarrow> u32 \<Rightarrow> tx_builder \<Rightarrow> available_mana go" where
  "CalculateAvailableManaRemaining D api targetSlot b =
    andthen (wrapE ''failed to calculate the available mana on input side''
        (CalculateAvailableManaInputs D api targetSlot b)) (\<lambda>a.
    andthen (foldG (subtractOutput D api b) a (tx_Outputs (tb_transaction b))) (\<lambda>a.
    foldG (\<lambda>a allotment. wrapE ''failed to subtract the already allotted mana''
        (updateUnboundAndAccountBoundManaBalances D (al_AccountID allotment) (al_Mana allotment) a))
      a (te_Allotments (tb_transaction b))))"

section \<open>Allotting and storing mana\<close>

text \<open>The callback of the method sees the allotments it makes: the result has them beside the builder.\<close>

definition AllotRemainingAccountBoundMana ::
    "'a ledger_deps_scheme \<Rightarrow> 'p block_api_scheme \<Rightarrow> u32 \<Rightarrow> bytes list \<Rightarrow> tx_builder
     \<Rightarrow> (tx_builder \<times> (bytes \<times> u64) list) go" where
  "AllotRemainingAccountBoundMana D api targetSlot ignoreAccountIDs b =
    (case CalculateAvailableManaRemaining D api targetSlot b of
       Inl (Err e) \<Rightarrow> Inr (setBuildError e b, [])
     | Inl p \<Rightarrow> Inl p
     | Inr remainingMana \<Rightarrow>
         let allotted = filter (\<lambda>(accountID, mana). accountID \<notin> set ignoreAccountIDs) (am_AccountBoundMana remainingMana)
         in Inr (fold (\<lambda>(accountID, mana). IncreaseAllotment accountID mana) allotted b, allotted))"

definition AllotAllMana ::
    "'a ledger_deps_scheme \<Rightarrow> 'p block_api_scheme \<Rightarrow> u32 \<Rightarrow> bytes \<Rightarrow> u64 \<Rightarrow> tx_builder \<Rightarrow> tx_builder go" where
  "AllotAllMana D api targetSlot accountID minRequiredMana b =
    orSetError b (CalculateAvailableManaRemaining D api targetSlot b) (\<lambda>remainingMana.
      let (b1, accountSum) = fold (\<lambda>(accID, mana) (b, s).
              (IncreaseAllotment accID mana b, if accID = accountID then s + mana else s))
            (am_AccountBoundMana remainingMana) (b, 0);
          b2 = IncreaseAllotment accountID (am_UnboundMana remainingMana) b1;
          allottedManaAccountSum = accountSum + am_UnboundMana remainingMana
      in if allottedManaAccountSum < minRequiredMana
         then Inr (setBuildError
                (Errorf ''not enough mana available to allot to the given account (%s): %d < %d'') b2)
         else Inr b2)"

definition getStoredManaOutputAccountID :: "'p block_api_scheme \<Rightarrow> nat \<Rightarrow> tx_builder \<Rightarrow> bytes go" where
  "getStoredManaOutputAccountID api storedManaOutputIndex b =
    (let outputs = tx_Outputs (tb_transaction b);
         lockedTo = (\<lambda>output. andthen (hasManalockCondition api b output) (\<lambda>locked.
           Inr (case locked of Some accountID \<Rightarrow> accountID | None \<Rightarrow> emptyID)))
     in if length outputs \<le> storedManaOutputIndex then throw (Errorf ''given storedManaOutputIndex does not exist: %d'')
        else case outputs ! storedManaOutputIndex of
          AccountO x \<Rightarrow> Inr (ao_AccountID x)
        | BasicO x \<Rightarrow> lockedTo (BasicO x)
        | AnchorO x \<Rightarrow> lockedTo (AnchorO x)
        | NFTO x \<Rightarrow> lockedTo (NFTO x)
        | _ \<Rightarrow> throw (Errorf ''output type %s does not support stored mana''))"

text \<open>The mana of an output is increased with wrap-around; other types of outputs are left alone.\<close>

definition addToOutput :: "u64 \<Rightarrow> ledger_output \<Rightarrow> ledger_output" where
  "addToOutput value output =
    (case output of
       BasicO x \<Rightarrow> BasicO (x\<lparr>bo_Mana := bo_Mana x + value\<rparr>)
     | AccountO x \<Rightarrow> AccountO (x\<lparr>ao_Mana := ao_Mana x + value\<rparr>)
     | AnchorO x \<Rightarrow> AnchorO (x\<lparr>an_Mana := an_Mana x + value\<rparr>)
     | NFTO x \<Rightarrow> NFTO (x\<lparr>no_Mana := no_Mana x + value\<rparr>)
     | _ \<Rightarrow> output)"

definition storeRemainingManaInOutput ::
    "'a ledger_deps_scheme \<Rightarrow> 'p block_api_scheme \<Rightarrow> u32 \<Rightarrow> nat \<Rightarrow> bytes \<Rightarrow> tx_builder \<Rightarrow> tx_builder go" where
  "storeRemainingManaInOutput D api targetSlot storedManaOutputIndex storedManaOutputAccountID b =
    (if length (tx_Outputs (tb_transaction b)) \<le> storedManaOutputIndex
     then throw (Errorf ''given storedManaOutputIndex does not exist: %d'')
     else andthen (CalculateAvailableManaRemaining D api targetSlot b) (\<lambda>remainingMana.
       let remainingManaBalance = am_UnboundMana remainingMana
             + (if storedManaOutputAccountID \<noteq> emptyID
                then (case map_of (am_AccountBoundMana remainingMana) storedManaOutputAccountID of
                        Some accountBoundMana \<Rightarrow> accountBoundMana | None \<Rightarrow> 0)
                else 0)
       in Inr (changeTx (\<lambda>t. t\<lparr>tx_Outputs := (tx_Outputs t)[storedManaOutputIndex :=
              addToOutput remainingManaBalance (tx_Outputs t ! storedManaOutputIndex)]\<rparr>) b)))"

definition StoreRemainingManaInOutputAndAllotRemainingAccountBoundMana ::
    "'a ledger_deps_scheme \<Rightarrow> 'p block_api_scheme \<Rightarrow> u32 \<Rightarrow> nat \<Rightarrow> tx_builder \<Rightarrow> tx_builder go" where
  "StoreRemainingManaInOutputAndAllotRemainingAccountBoundMana D api targetSlot storedManaOutputIndex b =
    orSetError b (getStoredManaOutputAccountID api storedManaOutputIndex b) (\<lambda>storedManaOutputAccountID.
    andthen (AllotRemainingAccountBoundMana D api targetSlot [storedManaOutputAccountID] b) (\<lambda>(b1, _).
    orSetError b1 (storeRemainingManaInOutput D api targetSlot storedManaOutputIndex storedManaOutputAccountID b1) Inr))"

section \<open>Building\<close>

record unlocked_set =
  tus_unlocks :: "unlock list"
  tus_signerUIDs :: "bytes \<Rightarrow> nat option"
  tus_unlockedChains :: "bytes \<Rightarrow> nat option"

definition nothingUnlocked :: unlocked_set where
  "nothingUnlocked = \<lparr>tus_unlocks = [], tus_signerUIDs = Map.empty, tus_unlockedChains = Map.empty\<rparr>"

definition addUnlock :: "unlock \<Rightarrow> unlocked_set \<Rightarrow> unlocked_set" where
  "addUnlock unlock u = u\<lparr>tus_unlocks := tus_unlocks u @ [unlock]\<rparr>"

definition addReferentialUnlock :: "address \<Rightarrow> nat \<Rightarrow> unlocked_set \<Rightarrow> unlocked_set" where
  "addReferentialUnlock addr referencedInputIndex =
    (case addr of
       AccountAddress _ \<Rightarrow> addUnlock (AccountUnlock (word_of_nat referencedInputIndex))
     | AnchorAddress _ \<Rightarrow> addUnlock (AnchorUnlock (word_of_nat referencedInputIndex))
     | NFTAddress _ \<Rightarrow> addUnlock (NFTUnlock (word_of_nat referencedInputIndex))
     | _ \<Rightarrow> addUnlock (ReferenceUnlock (word_of_nat referencedInputIndex)))"

definition addSignerUID :: "bytes \<Rightarrow> nat \<Rightarrow> unlocked_set \<Rightarrow> unlocked_set" where
  "addSignerUID signerUID unlockedAtIndex u =
     u\<lparr>tus_signerUIDs := (tus_signerUIDs u)(signerUID \<mapsto> unlockedAtIndex)\<rparr>"

text \<open>An input that is not in the map of inputs is a nil interface, which is no chain output.\<close>

definition unlockedChainOf :: "'a ledger_deps_scheme \<Rightarrow> ledger_output option \<Rightarrow> address option go" where
  "unlockedChainOf D input =
    (case input of
       None \<Rightarrow> Inr None
     | Some out \<Rightarrow>
         andthen (outChainID D out) (\<lambda>cid.
         case cid of
           None \<Rightarrow> Inr None
         | Some c \<Rightarrow> if chainAddressable c then andthen (chainToAddress c) (\<lambda>a. Inr (Some a)) else Inr None))"

definition addChainAsUnlocked ::
    "'a ledger_deps_scheme \<Rightarrow> ledger_output option \<Rightarrow> nat \<Rightarrow> unlocked_set \<Rightarrow> unlocked_set go" where
  "addChainAsUnlocked D input unlockedAtIndex u =
    andthen (unlockedChainOf D input) (\<lambda>chainAddr.
    Inr (case chainAddr of
           None \<Rightarrow> u
         | Some a \<Rightarrow> u\<lparr>tus_unlockedChains := (tus_unlockedChains u)(addrKey D a \<mapsto> unlockedAtIndex)\<rparr>))"

text \<open>The address of the chain of a chain address is the address itself.\<close>

definition isChainUnlocked :: "'a ledger_deps_scheme \<Rightarrow> address \<Rightarrow> unlocked_set \<Rightarrow> nat option" where
  "isChainUnlocked D chainAddr u = tus_unlockedChains u (addrKey D chainAddr)"

text \<open>The loop over the inputs; the error messages print the address, which crashes without one.\<close>

definition buildUnlock ::
    "'a ledger_deps_scheme \<Rightarrow> address_signer \<Rightarrow> bool \<Rightarrow> bytes \<Rightarrow> (bytes \<Rightarrow> address option) \<Rightarrow> unlocked_set
     \<Rightarrow> nat \<times> utxo_input \<times> ledger_output option \<Rightarrow> unlocked_set go" where
  "buildUnlock D S signEssence txEssenceData inputOwner u indexed =
    (case indexed of (inputIndex, inputRef, input) \<Rightarrow>
     andthen (derefG (inputOwner (inOutputID inputRef))) (\<lambda>addr.
     let owner = resolveUnderlyingAddress addr
     in if isChainAddress owner then
          (case isChainUnlocked D owner u of
             None \<Rightarrow> throw (Errorf ''input %d's owning chain is not unlocked, chainID %s, type %s'')
           | Some unlockedAtIndex \<Rightarrow>
               addChainAsUnlocked D input inputIndex (addReferentialUnlock owner unlockedAtIndex u))
        else if \<not> isDirectUnlockable owner
        then throw (Errorf ''input %d's owning address is not directly unlockable, address %s, type %s'')
        else andthen (wrapE ''failed to get signer UID for address %s'' (SignerUIDForAddress S owner)) (\<lambda>signerUID.
          andthen (case tus_signerUIDs u signerUID of
              None \<Rightarrow>
                andthen (wrapE ''failed to sign transaction''
                    (if signEssence then signFor S owner txEssenceData else EmptySignatureForAddress S owner))
                  (\<lambda>signature.
                Inr (addSignerUID signerUID inputIndex (addUnlock (SignatureUnlock (Some signature)) u)))
            | Some unlockedAtIndex \<Rightarrow> Inr (addReferentialUnlock owner unlockedAtIndex u)) (\<lambda>u.
          addChainAsUnlocked D input inputIndex u))))"

definition sortEssence :: "tx_builder \<Rightarrow> tx_builder" where
  "sortEssence = changeTx (\<lambda>t. t\<lparr>te_Allotments := sort_key al_AccountID (te_Allotments t),
     te_ContextInputs := sort_key ctxKey (te_ContextInputs t)\<rparr>)"

definition buildUnlocks ::
    "'a tx_deps_scheme \<Rightarrow> address_signer \<Rightarrow> bool \<Rightarrow> tx_builder \<Rightarrow> signed_transaction go" where
  "buildUnlocks D S signEssence b =
    (let t = tb_transaction b;
         inputs = map (\<lambda>i. map_of (tb_inputs b) (inOutputID i)) (te_Inputs t)
     in andthen (wrapE ''failed to calculate tx transaction for signing message'' (SigningMessage D t)) (\<lambda>txEssenceData.
        andthen (foldG (buildUnlock D S signEssence txEssenceData (tb_inputOwner b)) nothingUnlocked
            (List.enumerate 0 (zip (te_Inputs t) inputs))) (\<lambda>unlockedSet.
        Inr \<lparr>st_Transaction = t, st_Unlocks = tus_unlocks unlockedSet\<rparr>)))"

text \<open>The builder with its transaction sorted, and the signed transaction or the error.\<close>

definition buildWith ::
    "'a tx_deps_scheme \<Rightarrow> bool \<Rightarrow> tx_builder \<Rightarrow> tx_builder \<times> signed_transaction go" where
  "buildWith D signEssence b =
    (case tb_occurredBuildErr b of
       Some e \<Rightarrow> (b, throw e)
     | None \<Rightarrow>
         (case tb_signer b of
            None \<Rightarrow> (b, throw (Wrap (Sentinel ''ErrTransactionBuilder'') ''must supply signer''))
          | Some S \<Rightarrow> (sortEssence b, buildUnlocks D S signEssence (sortEssence b))))"

definition BuildTx :: "'a tx_deps_scheme \<Rightarrow> tx_builder \<Rightarrow> tx_builder \<times> signed_transaction go" where
  "BuildTx D b = buildWith D True b"

text \<open>The callback may change the transaction it is given a pointer to.\<close>

definition BuildAndSwapToBlockBuilder ::
    "'a tx_deps_scheme \<Rightarrow> 'p block_api_scheme \<Rightarrow> int \<Rightarrow> (signed_transaction \<Rightarrow> signed_transaction) option \<Rightarrow> tx_builder
     \<Rightarrow> basic_block_builder go" where
  "BuildAndSwapToBlockBuilder D api now txFunc b =
    (let blockBuilder = NewBasicBlockBuilder api now
     in case snd (BuildTx D b) of
          Inl (Err e) \<Rightarrow> Inr (blockBuilder\<lparr>bu_err := Some e\<rparr>)
        | Inl p \<Rightarrow> Inl p
        | Inr st \<Rightarrow> Inr (basicPayload (Some (SignedTransactionP
              (case txFunc of None \<Rightarrow> st | Some f \<Rightarrow> f st))) blockBuilder))"

section \<open>The mana a block needs\<close>

text \<open>The allotments are put back at the end, whatever happens; the context inputs stay sorted.\<close>

definition MinRequiredAllottedMana ::
    "'a work_deps_scheme \<Rightarrow> 'p block_api_scheme \<Rightarrow> int \<Rightarrow> u64 \<Rightarrow> bytes \<Rightarrow> tx_builder \<Rightarrow> tx_builder \<times> u64 go" where
  "MinRequiredAllottedMana D api now rmc blockIssuerAccountID b =
    (let (b1, built) = buildWith D False (IncreaseAllotment blockIssuerAccountID 1074 b)
     in (changeTx (\<lambda>t. t\<lparr>te_Allotments := te_Allotments (tb_transaction b)\<rparr>) b1,
         andthen (wrapE ''failed to build the dummy tx payload for workscore calculation'' built) (\<lambda>tx.
         andthen (wrapE ''failed to build the dummy block for workscore calculation''
             (snd (basicBuild (basicPayload (Some (SignedTransactionP tx)) (NewBasicBlockBuilder api now))))) (\<lambda>dummyBlock.
         blockManaCost D api dummyBlock rmc))))"

definition AllotMinRequiredManaAndStoreRemainingManaInOutput ::
    "'a work_deps_scheme \<Rightarrow> 'p block_api_scheme \<Rightarrow> int \<Rightarrow> u32 \<Rightarrow> u64 \<Rightarrow> bytes \<Rightarrow> nat \<Rightarrow> tx_builder
     \<Rightarrow> tx_builder go" where
  "AllotMinRequiredManaAndStoreRemainingManaInOutput D api now targetSlot rmc blockIssuerAccountID storedManaOutputIndex b =
    orSetError b (getStoredManaOutputAccountID api storedManaOutputIndex b) (\<lambda>storedManaOutputAccountID.
    andthen (AllotRemainingAccountBoundMana D api targetSlot [storedManaOutputAccountID] b) (\<lambda>(b1, allotted).
    let allottedManaBlockIssuer = (case map_of (rev allotted) blockIssuerAccountID of Some m \<Rightarrow> m | None \<Rightarrow> 0);
        (b2, cost) = MinRequiredAllottedMana D api now rmc blockIssuerAccountID b1
    in orSetError b2 (wrapE ''failed to calculate the minimum required mana to issue the block'' cost) (\<lambda>minRequiredMana.
       let minRequiredMana =
             (if 0 < allottedManaBlockIssuer
              then (if minRequiredMana < allottedManaBlockIssuer then 0 else minRequiredMana - allottedManaBlockIssuer)
              else minRequiredMana);
           b3 = (if 0 < minRequiredMana then IncreaseAllotment blockIssuerAccountID minRequiredMana b2 else b2)
       in orSetError b3 (storeRemainingManaInOutput D api targetSlot storedManaOutputIndex storedManaOutputAccountID b3)
            Inr)))"

end
