(* ===== verification/Nova_Rules.thy ===== *)
theory Nova_Rules
  imports Nova_Chains
begin

text \<open>
  The rules for the single kinds of chains in vm/nova/vm.go: the mana of block issuer accounts, staking and
  its rewards, anchors, delegations, and what stays fixed over the whole life of a chain.
\<close>

section \<open>Mana of block issuer accounts\<close>

text \<open>The mana of an output that is locked to an account for long enough.\<close>

definition manalocked :: "'a ledger_deps_scheme \<Rightarrow> bytes \<Rightarrow> u32 \<Rightarrow> ledger_output \<Rightarrow> nat" where
  "manalocked D acc slot out =
    (case outUCSet out of
       Inr ucs1 \<Rightarrow> if HasManalockCondition D ucs1 acc slot then unat (outStoredMana out) else 0
     | Inl _ \<Rightarrow> 0)"

lemma manalock_fold:
  assumes "safemath64 D"
  shows "foldG (manalockStep D acc slot) m outs = Inr m' \<Longrightarrow> unat m = unat m' + (\<Sum>out\<leftarrow>outs. manalocked D acc slot out)"
proof (induction outs arbitrary: m)
  case (Cons out outs)
  then obtain m1 where m1: "manalockStep D acc slot m out = Inr m1" "foldG (manalockStep D acc slot) m1 outs = Inr m'"
    by (auto simp: andthen_eq_Inr)
  have "unat m = unat m1 + manalocked D acc slot out"
    using m1(1) by (auto simp: manalockStep_def manalocked_def andthen_eq_Inr checked_arith.sub_Inr_iff [OF assms]
        split: if_splits)
  with Cons.IH [OF m1(2)] show ?case by simp
qed simp

text \<open>What belongs to an account on the output side of a transaction: the mana in it, the mana allotted to
  it and the mana locked to it beyond the slot up to which blocks can still be issued.\<close>

definition accountShare :: "'a ledger_deps_scheme \<Rightarrow> ledger_api \<Rightarrow> u32 \<Rightarrow> transaction \<Rightarrow> account_output \<Rightarrow> nat" where
  "accountShare D api commitmentSlot t a =
    unat (ao_Mana a) + unat (allotmentsGet (te_Allotments t) (ao_AccountID a))
    + (\<Sum>out\<leftarrow>tx_Outputs t. manalocked D (ao_AccountID a)
         (PastBoundedSlotIndex api commitmentSlot + api_MaxCommittableAge api) out)"

text \<open>C6: when an account that can issue blocks makes a transition, its mana stays with it: whatever mana
  ends up outside of the account, its allotments and the outputs locked to it came from other inputs.\<close>

theorem block_issuer_mana_kept:
  assumes "accountBlockIssuerSTVF D api ws input cur next1 = Inr ()" "safemath64 D"
    and "featsMustSet (ao_Features next1) = Inr fs" "cur \<noteq> None \<or> ftBlockIssuer fs \<noteq> None"
  shows "\<exists>c m. ws_Commitment ws = Some c
    \<and> inputMana D (api_ManaDecayProvider api) (api_StorageScoreStructure api) (te_CreationSlot (ws_Tx ws))
        (co_OutputID input, co_Output input) = Some m
    \<and> m \<le> unat (ws_TotalManaIn ws)
    \<and> accountShare D api (cm_Slot c) (ws_Tx ws) next1 \<le> unat (ws_TotalManaOut ws)
    \<and> unat (ws_TotalManaOut ws) - accountShare D api (cm_Slot c) (ws_Tx ws) next1 \<le> unat (ws_TotalManaIn ws) - m"
proof -
  obtain c where c: "ws_Commitment ws = Some c"
    and k: "accountManaNotMoved D api ws (co_Output input) (co_OutputID input) next1
      (PastBoundedSlotIndex api (cm_Slot c)) = Inr ()"
    using assms(1,3,4) by (auto simp: accountBlockIssuerSTVF_def Let_def andthen_eq_Inr throw_def split: option.splits if_splits)
  note sub = checked_arith.sub_Inr_iff [OF assms(2)]
  obtain s p i2 o2 o3 where d:
      "DecayManaBySlots (api_ManaDecayProvider api) (outStoredMana (co_Output input)) (CreationSlot (co_OutputID input))
         (te_CreationSlot (ws_Tx ws)) = Inr s"
      "unat (ws_TotalManaIn ws) = unat s + (unat p + unat i2)"
      "PotentialMana D (api_ManaDecayProvider api) (api_StorageScoreStructure api) (co_Output input)
         (CreationSlot (co_OutputID input)) (te_CreationSlot (ws_Tx ws)) = Inr p"
      "unat (ws_TotalManaOut ws) = unat (ao_Mana next1)
         + (unat (allotmentsGet (te_Allotments (ws_Tx ws)) (ao_AccountID next1)) + unat o2)"
      "foldG (manalockStep D (ao_AccountID next1) (PastBoundedSlotIndex api (cm_Slot c) + api_MaxCommittableAge api))
         o2 (tx_Outputs (ws_Tx ws)) = Inr o3" "\<not> i2 < o3"
    using k by (auto simp: accountManaNotMoved_def Let_def andthen_eq_Inr sub throw_def split: if_splits)
  have "unat (ws_TotalManaOut ws) = accountShare D api (cm_Slot c) (ws_Tx ws) next1 + unat o3"
    using d(4) manalock_fold [OF assms(2) d(5)] by (simp add: accountShare_def)
  moreover have "unat o3 \<le> unat i2" using d(6) by (simp add: word_le_nat_alt not_less)
  ultimately show ?thesis using d(1-3) c by (simp add: inputMana_def)
qed

text \<open>A block issuer account that keeps its 7 mana.\<close>

definition demo_commitment :: commitment where
  "demo_commitment = \<lparr>cm_ProtocolVersion = 3, cm_Slot = 10, cm_PreviousCommitmentID = [], cm_RootsID = [],
     cm_CumulativeWeight = 0, cm_ReferenceManaCost = 1\<rparr>"

definition demo_issuer :: account_output where
  "demo_issuer = (demo_account 0)\<lparr>ao_Mana := 7,
     ao_Features := [BlockIssuerF \<lparr>bif_ExpirySlot = 100, bif_BlockIssuerKeys = [[1]]\<rparr>]\<rparr>"

definition demo_issuing :: working_set where
  "demo_issuing = (demo_ws [] [AccountO demo_issuer])\<lparr>ws_Commitment := Some demo_commitment\<rparr>"

lemma demo_issuer_deposit: "\<exists>d. MinDeposit ref_ledger demo_structure (AccountO demo_issuer) = Inr d \<and> 5 < d"
  by (simp add: MinDeposit_def outStorageScore_def accountStorageScore_def accountSize_def demo_issuer_def
      demo_account_def ucsSize_def featsSize_def ucSize_def featSize_def ucsStorageScore_def featsStorageScore_def
      ucStorageScore_def featStorageScore_def addrStorageScore_def dataScore_def blockIssuerKeysSize_def
      blockIssuerKeysStorageScore_def demo_structure_def demo_score_def factorMultiply_def demo_owner_def ref_mul_def)

lemma demo_issuer_sel [simp]:
  "ao_Amount demo_issuer = 5" "ao_Mana demo_issuer = 7"
  "ao_AccountID demo_issuer = [9]"
  "featsMustSet (ao_Features demo_issuer) = Inr [6 \<mapsto> BlockIssuerF \<lparr>bif_ExpirySlot = 100, bif_BlockIssuerKeys = [[1]]\<rparr>]"
  "outUCSet (AccountO demo_issuer) = Inr [0 \<mapsto> AddressUC demo_owner]"
  by (simp_all add: demo_issuer_def demo_account_def featsMustSet_eq outUCSet_def ucsMustSet_eq)

lemma demo_issuer_potential [simp]: "PotentialMana ref_ledger demo_mana demo_structure (AccountO demo_issuer) a b = Inr 0"
  using demo_issuer_deposit by (auto simp: PotentialMana_def ref_sub_def word_less_nat_alt)

lemma demo_issuing_valid:
  "accountBlockIssuerSTVF ref_ledger demo_api demo_issuing
     \<lparr>co_ChainID = AccountIDc [9], co_OutputID = demo_id, co_Output = AccountO demo_issuer\<rparr>
     (Some \<lparr>bif_ExpirySlot = 100, bif_BlockIssuerKeys = [[1]]\<rparr>) demo_issuer = Inr ()"
proof -
  have "blockIssuerExpiryValid (Some \<lparr>bif_ExpirySlot = 100, bif_BlockIssuerKeys = [[1]]\<rparr>)
      (Some \<lparr>bif_ExpirySlot = 100, bif_BlockIssuerKeys = [[1]]\<rparr>) 10 n = Inr ()" for n
    by (simp add: blockIssuerExpiryValid_def)
  moreover have "manalockStep ref_ledger a n 0 (AccountO demo_issuer) = Inr 0" for a n
    by (simp add: manalockStep_def HasManalockCondition_def HasTimelockUntil_def ucTimelock_def)
  ultimately show ?thesis
    by (simp add: accountBlockIssuerSTVF_def ftBlockIssuer_def demo_issuing_def demo_ws_def demo_tx_def
        demo_commitment_def accountManaNotMoved_def allotmentsGet_def ref_sub_def Let_def)
qed

theorem block_issuer_mana_kept_witness:
  "\<exists>m. inputMana ref_ledger demo_mana demo_structure 20 (demo_id, AccountO demo_issuer) = Some m
    \<and> accountShare ref_ledger demo_api 10 (ws_Tx demo_issuing) demo_issuer \<le> 7"
  using block_issuer_mana_kept [OF demo_issuing_valid ref_ledger_safemath(1) demo_issuer_sel(4)]
  by (auto simp: demo_issuing_def demo_ws_def demo_tx_def demo_commitment_def)

section \<open>What stays fixed over the life of a chain\<close>

text \<open>A rule about the steps of a chain that holds between any two states of its life.\<close>

locale chain_rule =
  fixes step :: "'s \<Rightarrow> 's \<Rightarrow> bool" and kept :: "'s \<Rightarrow> 's \<Rightarrow> bool"
  assumes step_kept: "step s t \<Longrightarrow> kept s t"
    and kept_trans: "kept s t \<Longrightarrow> kept t u \<Longrightarrow> kept s u"
begin

lemma life_kept: "step\<^sup>+\<^sup>+ s t \<Longrightarrow> kept s t"
  by (induction rule: tranclp_induct) (blast intro: step_kept kept_trans)+

end

text \<open>Equality of addresses, features and feature lists is transitive.\<close>

lemma multiMembersEqual_trans:
  "multiMembersEqual D as bs \<Longrightarrow> multiMembersEqual D bs cs \<Longrightarrow> length as = length bs \<Longrightarrow>
    length bs = length cs \<Longrightarrow> multiMembersEqual D as cs"
proof (induction as arbitrary: bs cs)
  case (Cons x as)
  then obtain y bs' z cs' where "bs = y # bs'" "cs = z # cs'" by (metis length_Suc_conv)
  with Cons show ?case by (cases x; cases y; cases z) (auto split: if_splits)
qed simp

lemma addrEqual_trans: "addrEqual D a b \<Longrightarrow> addrEqual D b c \<Longrightarrow> addrEqual D a c"
proof (induction a arbitrary: b c)
  case (MultiAddress as t)
  then show ?case by (cases b; cases c) (auto intro: multiMembersEqual_trans)
next
  case (RestrictedAddress a cp)
  then show ?case by (cases b; cases c) auto
next
  case (Ed25519Address a)
  then show ?case by (cases b; cases c) simp_all
next
  case (AccountAddress a)
  then show ?case by (cases b; cases c) simp_all
next
  case (NFTAddress a)
  then show ?case by (cases b; cases c) simp_all
next
  case (AnchorAddress a)
  then show ?case by (cases b; cases c) simp_all
next
  case (ImplicitAccountCreationAddress a)
  then show ?case by (cases b; cases c) simp_all
next
  case (MultiAddressReference a)
  then show ?case by (cases b; cases c) simp_all
qed

lemma entriesEqual_alt:
  "entriesEqual m n \<longleftrightarrow> length m = length n \<and> (\<forall>(k, v) \<in> set m. map_of n k = Some v)"
  by (auto simp: entriesEqual_def list_all_iff split: option.splits)

lemma entriesEqual_trans:
  assumes "entriesEqual m n" "entriesEqual n p"
  shows "entriesEqual m p"
proof -
  have "map_of p k = Some v" if "(k, v) \<in> set m" for k v
  proof -
    have "map_of n k = Some v" using assms(1) that by (auto simp: entriesEqual_alt)
    then have "(k, v) \<in> set n" by (rule map_of_SomeD)
    with assms(2) show ?thesis by (auto simp: entriesEqual_alt)
  qed
  with assms show ?thesis by (auto simp: entriesEqual_alt)
qed

lemma featEqual_trans: "featEqual D f g \<Longrightarrow> featEqual D g h \<Longrightarrow> featEqual D f h"
  by (cases f; cases g; cases h)
    (auto simp: featEqual_def split: if_splits intro: addrEqual_trans entriesEqual_trans)

lemma sliceEqual_trans:
  assumes "\<And>x y z. eq x y \<Longrightarrow> eq y z \<Longrightarrow> eq x z"
  shows "sliceEqual eq f g \<Longrightarrow> sliceEqual eq g h \<Longrightarrow> sliceEqual eq f h"
proof (induction f arbitrary: g h)
  case Nil
  then show ?case by (cases g; cases h) auto
next
  case (Cons x f)
  then show ?case by (cases g; cases h) (auto intro: assms)
qed

lemma featsEqual_trans: "featsEqual D f g \<Longrightarrow> featsEqual D g h \<Longrightarrow> featsEqual D f h"
  unfolding featsEqual_def by (rule sliceEqual_trans [OF featEqual_trans])

text \<open>One step of a chain is a state change the machine accepts in some transaction.\<close>

definition chainStep :: "'a ledger_deps_scheme \<Rightarrow> ledger_output \<Rightarrow> ledger_output \<Rightarrow> bool" where
  "chainStep D x y \<longleftrightarrow> (\<forall>b. x \<noteq> ImplicitAccountO b) \<and> (\<exists>api ws co. co_Output co = x
     \<and> ChainSTVF D api ws TransStateChange (Some co) (Some y) = Inr ())"

definition chainKept :: "'a ledger_deps_scheme \<Rightarrow> ledger_output \<Rightarrow> ledger_output \<Rightarrow> bool" where
  "chainKept D x y \<longleftrightarrow>
    (case (x, y) of
       (AccountO a, AccountO b) \<Rightarrow>
         featsEqual D (ao_ImmutableFeatures a) (ao_ImmutableFeatures b) \<and> ao_FoundryCounter a \<le> ao_FoundryCounter b
     | (AnchorO a, AnchorO b) \<Rightarrow> featsEqual D (an_ImmutableFeatures a) (an_ImmutableFeatures b)
     | (NFTO a, NFTO b) \<Rightarrow> featsEqual D (no_ImmutableFeatures a) (no_ImmutableFeatures b)
     | (FoundryO f, FoundryO g) \<Rightarrow>
         featsEqual D (fo_ImmutableFeatures f) (fo_ImmutableFeatures g) \<and> foundryID D f = foundryID D g
         \<and> sts_MaximumSupply (fo_TokenScheme f) = sts_MaximumSupply (fo_TokenScheme g)
         \<and> sts_MintedTokens (fo_TokenScheme f) \<le> sts_MintedTokens (fo_TokenScheme g)
         \<and> sts_MeltedTokens (fo_TokenScheme f) \<le> sts_MeltedTokens (fo_TokenScheme g)
     | (DelegationO d, DelegationO e) \<Rightarrow>
         do_DelegatedAmount d = do_DelegatedAmount e \<and> do_ValidatorAddress d = do_ValidatorAddress e
         \<and> do_StartEpoch d = do_StartEpoch e
     | _ \<Rightarrow> False)"

lemma account_step_kept:
  assumes "accountStateChangeValid D api ws co a b = Inr r"
  shows "chainKept D (AccountO a) (AccountO b)"
proof -
  have "accountFoundryCounterSTVF D ws a b = Inr ()" "featsEqual D (ao_ImmutableFeatures a) (ao_ImmutableFeatures b)"
    using assms by (auto simp: accountStateChangeValid_def andthen_eq_Inr if_throw_eq_Inr)
  then show ?thesis
    by (auto simp: chainKept_def accountFoundryCounterSTVF_def throw_def not_less split: if_splits)
qed

lemma anchor_step_kept:
  "anchorStateChangeValid D x y = Inr () \<Longrightarrow> chainKept D (AnchorO x) (AnchorO y)"
  by (simp add: anchorStateChangeValid_def chainKept_def Let_def if_throw_eq_Inr)

lemma foundry_step_kept:
  assumes "foundryStateChangeValid D f g inS outS = Inr ()"
  shows "chainKept D (FoundryO f) (FoundryO g)"
  using assms
  by (auto simp: foundryStateChangeValid_def chainKept_def if_throw_eq_Inr andthen_eq_Inr
      schemeStateTransition_def scheme_change_iff split: if_splits)

lemma delegation_step_kept:
  assumes "delegationStateChangeValid D api ws d e = Inr ()"
  shows "chainKept D (DelegationO d) (DelegationO e)"
  using assms by (auto simp: delegationStateChangeValid_def chainKept_def throw_def split: if_splits)

lemma chainSTVF_change_cases:
  assumes "ChainSTVF D api ws TransStateChange (Some co) (Some y) = Inr ()" "\<forall>b. co_Output co \<noteq> ImplicitAccountO b"
  obtains (account) a b r where "co_Output co = AccountO a" "y = AccountO b" "accountStateChangeValid D api ws co a b = Inr r"
  | (anchor) a b where "co_Output co = AnchorO a" "y = AnchorO b" "anchorStateChangeValid D a b = Inr ()"
  | (foundry) a b where "co_Output co = FoundryO a" "y = FoundryO b"
      "foundryStateChangeValid D a b (ws_InNativeTokens ws) (ws_OutNativeTokens ws) = Inr ()"
  | (nft) a b where "co_Output co = NFTO a" "y = NFTO b" "nftStateChangeValid D a b = Inr ()"
  | (delegation) a b where "co_Output co = DelegationO a" "y = DelegationO b" "delegationStateChangeValid D api ws a b = Inr ()"
  using assms
  by (cases "co_Output co"; cases y)
    (auto simp: ChainSTVF_def derefG_def nextAs_def throw_def andthen_eq_Inr accountSTVF_def anchorSTVF_def
      foundrySTVF_def nftSTVF_def delegationSTVF_def asAccount_def asAnchor_def asFoundry_def asNFT_def
      asDelegation_def Let_def split: if_splits)

lemma chainStep_kept: "chainStep D x y \<Longrightarrow> chainKept D x y"
proof -
  assume "chainStep D x y"
  then obtain api ws co where s: "ChainSTVF D api ws TransStateChange (Some co) (Some y) = Inr ()"
      "\<forall>b. co_Output co \<noteq> ImplicitAccountO b" "co_Output co = x" by (auto simp: chainStep_def)
  from s(1,2) show ?thesis
  proof (cases rule: chainSTVF_change_cases)
    case (nft a b)
    then show ?thesis using s(3) by (simp add: nftStateChangeValid_def chainKept_def if_throw_eq_Inr)
  qed (use s(3) in \<open>auto intro: account_step_kept anchor_step_kept foundry_step_kept delegation_step_kept\<close>)
qed

lemma chainKept_trans: "chainKept D x y \<Longrightarrow> chainKept D y z \<Longrightarrow> chainKept D x z"
  by (cases x; cases y; cases z) (auto simp: chainKept_def intro: featsEqual_trans)

interpretation chain_life: chain_rule "chainStep D" "chainKept D" for D :: "'a ledger_deps_scheme"
  by unfold_locales (auto intro: chainStep_kept chainKept_trans)

text \<open>C9: over the whole life of a chain, through any number of accepted state changes, the kind of the
  chain and its immutable features stay, the foundry counter of an account and the minted and melted
  tokens of a foundry never decrease, a foundry keeps its ID and maximum supply, and a delegation its
  amount, validator and start epoch.\<close>

theorem chain_life_keeps:
  assumes "(chainStep D)\<^sup>+\<^sup>+ x y"
  shows "chainKept D x y"
  using assms by (rule chain_life.life_kept)

lemma demo_foundry_step: "chainStep ref_ledger (FoundryO (demo_foundry 0 [])) (FoundryO (demo_foundry 30 []))"
proof -
  obtain i where "\<forall>n fs. foundryID ref_tx_deps (demo_foundry n fs) = Inr i"
    using demo_foundry_ID by blast
  moreover have "foundryID ref_ledger f = foundryID ref_tx_deps f" for f
    by (simp add: foundryID_def FoundryIDFromAddressAndSerialNumberAndTokenScheme_def)
  ultimately have i: "foundryID ref_ledger (demo_foundry n fs) = Inr i" for n fs by simp
  let ?ws = "(demo_ws [] [])\<lparr>ws_OutNativeTokens := [(i, 30)]\<rparr>"
  have "foundryStateChangeValid ref_ledger (demo_foundry 0 []) (demo_foundry 30 [])
      (ws_InNativeTokens ?ws) (ws_OutNativeTokens ?ws) = Inr ()"
    by (simp add: foundryStateChangeValid_def featsEqual_def i schemeStateTransition_def scheme_change_iff
        ValueOrBigInt0_def demo_ws_def)
  then have "ChainSTVF ref_ledger demo_api ?ws TransStateChange
      (Some \<lparr>co_ChainID = FoundryIDc i, co_OutputID = demo_id, co_Output = FoundryO (demo_foundry 0 [])\<rparr>)
      (Some (FoundryO (demo_foundry 30 []))) = Inr ()"
    by (simp add: ChainSTVF_def derefG_def nextAs_def foundrySTVF_def asFoundry_def)
  then show ?thesis unfolding chainStep_def by (intro conjI exI [of _ demo_api] exI [of _ ?ws] exI) auto
qed

theorem chain_life_keeps_witness:
  "chainKept ref_ledger (FoundryO (demo_foundry 0 [])) (FoundryO (demo_foundry 30 []))"
  by (intro chain_life_keeps tranclp.r_into_trancl demo_foundry_step)

section \<open>Anchors\<close>

text \<open>A run of an anchor, with the numbers of its governance and state transitions.\<close>

inductive anchor_run :: "'a ledger_deps_scheme \<Rightarrow> nat \<Rightarrow> nat \<Rightarrow> anchor_output \<Rightarrow> anchor_output \<Rightarrow> bool" for D where
  start: "anchor_run D 0 0 x x"
| governance: "anchor_run D g n x y \<Longrightarrow> anchorStateChangeValid D y z = Inr () \<Longrightarrow>
    an_StateIndex z = an_StateIndex y \<Longrightarrow> anchor_run D (Suc g) n x z"
| state: "anchor_run D g n x y \<Longrightarrow> anchorStateChangeValid D y z = Inr () \<Longrightarrow>
    an_StateIndex z \<noteq> an_StateIndex y \<Longrightarrow> anchor_run D g (Suc n) x z"

lemma anchor_governance_Inr:
  assumes "anchorStateChangeValid D y z = Inr ()" "an_StateIndex z = an_StateIndex y"
  shows "an_Amount z = an_Amount y"
  using assms by (auto simp: anchorStateChangeValid_def anchorGovernanceSTVF_def Let_def if_throw_eq_Inr)

lemma anchor_state_Inr:
  assumes "anchorStateChangeValid D y z = Inr ()" "an_StateIndex z \<noteq> an_StateIndex y"
  shows "an_StateIndex z = an_StateIndex y + 1"
    and "\<exists>c d. anchorStateController y = Inr c \<and> anchorStateController z = Inr d \<and> addrEqual D c d"
    and "\<exists>c d. anchorGovernor y = Inr c \<and> anchorGovernor z = Inr d \<and> addrEqual D c d"
  using assms by (auto simp: anchorStateChangeValid_def anchorStateSTVF_def Let_def if_throw_eq_Inr andthen_eq_Inr)

lemma anchor_run_rules:
  assumes "anchor_run D g n x y"
  shows "an_StateIndex y = an_StateIndex x + word_of_nat n \<and> (n = 0 \<longrightarrow> an_Amount y = an_Amount x)
    \<and> (g = 0 \<and> 0 < n \<longrightarrow>
        (\<exists>c d. anchorStateController x = Inr c \<and> anchorStateController y = Inr d \<and> addrEqual D c d)
        \<and> (\<exists>c d. anchorGovernor x = Inr c \<and> anchorGovernor y = Inr d \<and> addrEqual D c d))"
  using assms
proof (induction rule: anchor_run.induct)
  case (governance g n x y z)
  then show ?case using anchor_governance_Inr [OF governance.hyps(2,3)] by auto
next
  case (state g n x y z)
  note st = anchor_state_Inr [OF state.hyps(2,3)]
  show ?case
  proof (cases "n = 0")
    case True
    with state.hyps(1) have "g = 0 \<Longrightarrow> x = y" by (cases rule: anchor_run.cases) auto
    with st state.IH True show ?thesis by auto
  next
    case False
    have "\<exists>c d. anchorStateController x = Inr c \<and> anchorStateController z = Inr d \<and> addrEqual D c d"
        "\<exists>c d. anchorGovernor x = Inr c \<and> anchorGovernor z = Inr d \<and> addrEqual D c d" if "g = 0"
      using st(2,3) state.IH False that by (fastforce intro: addrEqual_trans)+
    with st(1) state.IH show ?thesis by auto
  qed
qed simp

text \<open>C8: an anchor's state index counts its state transitions (modulo its 32 bits); only state
  transitions can change the amount, and only governance transitions can change the state controller and
  the governor.\<close>

theorem anchor_transitions:
  assumes "anchor_run D g n x y"
  shows "an_StateIndex y = an_StateIndex x + word_of_nat n \<and> (n = 0 \<longrightarrow> an_Amount y = an_Amount x)
    \<and> (g = 0 \<and> 0 < n \<longrightarrow>
        (\<exists>c d. anchorStateController x = Inr c \<and> anchorStateController y = Inr d \<and> addrEqual D c d)
        \<and> (\<exists>c d. anchorGovernor x = Inr c \<and> anchorGovernor y = Inr d \<and> addrEqual D c d))"
  using assms by (rule anchor_run_rules)

definition demo_anchor :: "u64 \<Rightarrow> u32 \<Rightarrow> anchor_output" where
  "demo_anchor amount n = \<lparr>an_Amount = amount, an_Mana = 0, an_AnchorID = [4], an_StateIndex = n,
     an_UnlockConditions = [StateControllerAddressUC demo_owner, GovernorAddressUC demo_owner],
     an_Features = [], an_ImmutableFeatures = []\<rparr>"

lemma demo_anchor_state: "anchorStateChangeValid ref_ledger (demo_anchor a n) (demo_anchor b (n + 1)) = Inr ()"
  by (simp add: anchorStateChangeValid_def demo_anchor_def featsEqual_def anchorStateSTVF_def
      anchorStateController_def anchorGovernor_def ucsMustSet_eq ucStateControllerAddress_def
      ucGovernorAddress_def derefG_def demo_owner_def featsMustSet_eq FeatureUnchanged_ok Let_def)

theorem anchor_transitions_witness:
  "an_StateIndex (demo_anchor 9 2) = an_StateIndex (demo_anchor 5 0) + 2
    \<and> (\<exists>c d. anchorGovernor (demo_anchor 5 0) = Inr c \<and> anchorGovernor (demo_anchor 9 2) = Inr d \<and> addrEqual ref_ledger c d)"
proof -
  have "anchor_run ref_ledger 0 (Suc 0) (demo_anchor 5 0) (demo_anchor 7 1)"
    by (rule anchor_run.state [OF anchor_run.start]) (use demo_anchor_state [of 5 0 7] in \<open>simp_all add: demo_anchor_def\<close>)
  then have "anchor_run ref_ledger 0 (Suc (Suc 0)) (demo_anchor 5 0) (demo_anchor 9 2)"
    by (rule anchor_run.state) (use demo_anchor_state [of 7 1 9] in \<open>simp_all add: demo_anchor_def\<close>)
  from anchor_transitions [OF this] show ?thesis by simp
qed

section \<open>Staking\<close>

definition stakingEpochs :: "ledger_api \<Rightarrow> commitment \<Rightarrow> u32 \<times> u32" where
  "stakingEpochs api c = (EpochFromSlot (api_TimeProvider api) (PastBoundedSlotIndex api (cm_Slot c)),
     EpochFromSlot (api_TimeProvider api) (FutureBoundedSlotIndex api (cm_Slot c)))"

text \<open>A stake is fresh when it starts now and lasts for the unbonding period.\<close>

definition freshStake :: "ledger_api \<Rightarrow> working_set \<Rightarrow> staking_feature \<Rightarrow> bool" where
  "freshStake api ws s \<longleftrightarrow> (\<exists>c. ws_Commitment ws = Some c \<and> sf_StartEpoch s = fst (stakingEpochs api c)
     \<and> fst (stakingEpochs api c) + api_StakingUnbondingPeriod api \<le> sf_EndEpoch s)"

lemma stakingGenesis_Inr: "accountStakingGenesisValidation api ws s = Inr () \<longleftrightarrow> freshStake api ws s"
  by (auto simp: accountStakingGenesisValidation_def freshStake_def stakingEpochs_def Let_def throw_def not_less
      split: option.splits)

text \<open>What a bonded stake may become: amount, cost and start stay, and the end epoch either stays or is
  at least an unbonding period away, which can be earlier than it was.\<close>

definition stakeKept :: "ledger_api \<Rightarrow> commitment \<Rightarrow> staking_feature \<Rightarrow> staking_feature option \<Rightarrow> bool" where
  "stakeKept api c s t \<longleftrightarrow> (\<exists>s'. t = Some s' \<and> sf_StakedAmount s' = sf_StakedAmount s \<and> sf_FixedCost s' = sf_FixedCost s
     \<and> sf_StartEpoch s' = sf_StartEpoch s
     \<and> (sf_EndEpoch s' = sf_EndEpoch s
        \<or> fst (stakingEpochs api c) + api_StakingUnbondingPeriod api \<le> sf_EndEpoch s'))"

lemma accountStaking_Inr:
  assumes "accountStakingSTVF api ws a b = Inr r" "featsMustSet (ao_Features a) = Inr fa" "featsMustSet (ao_Features b) = Inr fb"
  shows "case ftStaking fa of
      None \<Rightarrow> \<not> r \<and> (\<forall>s. ftStaking fb = Some s \<longrightarrow> freshStake api ws s)
    | Some s \<Rightarrow> (\<exists>c. ws_Commitment ws = Some c \<and>
        (if snd (stakingEpochs api c) \<le> sf_EndEpoch s then \<not> r \<and> stakeKept api c s (ftStaking fb)
         else (r \<longleftrightarrow> ftStaking fb \<noteq> Some s) \<and> (\<forall>s'. ftStaking fb = Some s' \<and> s' \<noteq> s \<longrightarrow> freshStake api ws s')))"
proof (cases "ftStaking fa")
  case None
  with assms show ?thesis
    by (auto simp: accountStakingSTVF_def andthen_eq_Inr stakingGenesis_Inr split: option.splits)
next
  case (Some s)
  with assms obtain c where c: "ws_Commitment ws = Some c"
    by (auto simp: accountStakingSTVF_def throw_def split: option.splits)
  show ?thesis
  proof (cases "snd (stakingEpochs api c) \<le> sf_EndEpoch s")
    case True
    with assms Some c have "\<not> r" "accountStakingNonExpiredValidation s (ftStaking fb)
        (fst (stakingEpochs api c) + api_StakingUnbondingPeriod api) = Inr ()"
      by (auto simp: accountStakingSTVF_def andthen_eq_Inr stakingEpochs_def Let_def)
    then have "stakeKept api c s (ftStaking fb)"
      by (auto simp: accountStakingNonExpiredValidation_def stakeKept_def throw_def not_less split: option.splits if_splits)
    with True Some c \<open>\<not> r\<close> show ?thesis by simp
  next
    case False
    with assms Some c have "accountStakingExpiredValidation api ws s (ftStaking fb) = Inr r"
      by (auto simp: accountStakingSTVF_def andthen_eq_Inr stakingEpochs_def Let_def)
    with False Some c show ?thesis
      by (auto simp: accountStakingExpiredValidation_def andthen_eq_Inr stakingGenesis_Inr split: option.splits if_splits)
  qed
qed

lemma staking_change:
  assumes "accountSTVF D api ws (Some co) TransStateChange (Some b) = Inr ()" "co_Output co = AccountO a"
    and "featsMustSet (ao_Features a) = Inr fa" "featsMustSet (ao_Features b) = Inr fb"
  shows "let claims = (map_of (ws_Rewards ws) (co_ChainID co) \<noteq> None)
    in case ftStaking fa of
      None \<Rightarrow> \<not> claims \<and> (\<forall>s. ftStaking fb = Some s \<longrightarrow> freshStake api ws s)
    | Some s \<Rightarrow> (\<exists>c. ws_Commitment ws = Some c \<and>
        (if snd (stakingEpochs api c) \<le> sf_EndEpoch s then \<not> claims \<and> stakeKept api c s (ftStaking fb)
         else (claims \<longleftrightarrow> ftStaking fb \<noteq> Some s) \<and> (\<forall>s'. ftStaking fb = Some s' \<and> s' \<noteq> s \<longrightarrow> freshStake api ws s')))"
proof -
  obtain r where r: "accountStateChangeValid D api ws co a b = Inr r"
    and cl: "r \<longleftrightarrow> map_of (ws_Rewards ws) (co_ChainID co) \<noteq> None"
    using assms(1,2) by (auto simp: accountSTVF_def Let_def andthen_eq_Inr derefG_def asAccount_def throw_def split: if_splits)
  have "accountStakingSTVF api ws a b = Inr r"
    using r by (auto simp: accountStateChangeValid_def andthen_eq_Inr if_throw_eq_Inr)
  from accountStaking_Inr [OF this assms(3,4)] show ?thesis unfolding Let_def cl .
qed

lemma staking_destroy:
  assumes "accountSTVF D api ws (Some co) TransDestroy n = Inr ()" "co_Output co = AccountO a"
    and "featsMustSet (ao_Features a) = Inr fa"
  shows "let claims = (map_of (ws_Rewards ws) (co_ChainID co) \<noteq> None)
    in case ftStaking fa of
      None \<Rightarrow> \<not> claims
    | Some s \<Rightarrow> claims \<and> (\<exists>c. ws_Commitment ws = Some c \<and> sf_EndEpoch s < snd (stakingEpochs api c))"
proof -
  obtain r where r: "accountDestructionValid api ws co a = Inr r"
    and cl: "map_of (ws_Rewards ws) (co_ChainID co) \<noteq> None \<longleftrightarrow> r"
    using assms(1,2) by (auto simp: accountSTVF_def Let_def andthen_eq_Inr derefG_def asAccount_def throw_def split: if_splits)
  show ?thesis
  proof (cases "ftStaking fa")
    case None
    with r assms(3) cl show ?thesis
      by (auto simp: accountDestructionValid_def andthen_eq_Inr if_throw_eq_Inr Let_def)
  next
    case (Some s)
    with r assms(3) obtain c where "ws_Commitment ws = Some c" "sf_EndEpoch s < snd (stakingEpochs api c)" r
      by (auto simp: accountDestructionValid_def andthen_eq_Inr if_throw_eq_Inr stakingEpochs_def Let_def throw_def
          not_le split: option.splits if_splits)
    with Some cl show ?thesis by simp
  qed
qed

text \<open>C7: a stake that is bonded (its end epoch is not before the future bounded epoch) can neither be removed
  nor destroyed with its account, and no rewards are claimed for it; its amount, cost and start stay, and its
  end epoch stays or is set to at least the unbonding period after the past bounded epoch, which may be
  earlier than the old end.  Rewards are claimed exactly in the transition that ends an expired stake, by
  removing it, by starting a fresh one or by destroying the account; an account without a stake claims
  nothing and can only start a fresh one.\<close>

theorem staking_rewards:
  assumes "co_Output co = AccountO a" "featsMustSet (ao_Features a) = Inr fa"
  shows "(\<forall>b fb. accountSTVF D api ws (Some co) TransStateChange (Some b) = Inr ()
        \<and> featsMustSet (ao_Features b) = Inr fb \<longrightarrow>
      (let claims = (map_of (ws_Rewards ws) (co_ChainID co) \<noteq> None)
       in case ftStaking fa of
         None \<Rightarrow> \<not> claims \<and> (\<forall>s. ftStaking fb = Some s \<longrightarrow> freshStake api ws s)
       | Some s \<Rightarrow> (\<exists>c. ws_Commitment ws = Some c \<and>
           (if snd (stakingEpochs api c) \<le> sf_EndEpoch s then \<not> claims \<and> stakeKept api c s (ftStaking fb)
            else (claims \<longleftrightarrow> ftStaking fb \<noteq> Some s)
              \<and> (\<forall>s'. ftStaking fb = Some s' \<and> s' \<noteq> s \<longrightarrow> freshStake api ws s')))))
    \<and> (\<forall>n. accountSTVF D api ws (Some co) TransDestroy n = Inr () \<longrightarrow>
      (let claims = (map_of (ws_Rewards ws) (co_ChainID co) \<noteq> None)
       in case ftStaking fa of
         None \<Rightarrow> \<not> claims
       | Some s \<Rightarrow> claims \<and> (\<exists>c. ws_Commitment ws = Some c \<and> sf_EndEpoch s < snd (stakingEpochs api c))))"
  using staking_change [OF _ assms] staking_destroy [OF _ assms] by blast

text \<open>An account whose stake is bonded until epoch 50.\<close>

definition demo_stake :: "u32 \<Rightarrow> staking_feature" where
  "demo_stake e = \<lparr>sf_StakedAmount = 5, sf_FixedCost = 1, sf_StartEpoch = 1, sf_EndEpoch = e\<rparr>"

definition demo_staker :: "u32 \<Rightarrow> account_output" where
  "demo_staker e = (demo_account 0)\<lparr>ao_Features := [StakingF (demo_stake e)]\<rparr>"

lemma demo_staking_valid:
  "accountSTVF ref_ledger demo_api demo_issuing
     (Some \<lparr>co_ChainID = AccountIDc [9], co_OutputID = demo_id, co_Output = AccountO (demo_staker 50)\<rparr>)
     TransStateChange (Some (demo_staker 60)) = Inr ()"
proof -
  have f: "featsMustSet (ao_Features (demo_staker e)) = Inr [7 \<mapsto> StakingF (demo_stake e)]" for e
    by (simp add: demo_staker_def featsMustSet_eq)
  have sel: "ws_Commitment demo_issuing = Some demo_commitment" "cm_Slot demo_commitment = 10" "ws_Rewards demo_issuing = []"
    by (simp_all add: demo_issuing_def demo_ws_def demo_commitment_def)
  have e: "EpochFromSlot demo_clock (FutureBoundedSlotIndex demo_api 10) = 2"
      "EpochFromSlot demo_clock (PastBoundedSlotIndex demo_api 10) = 3" "api_StakingUnbondingPeriod demo_api = 10"
    by (simp_all add: EpochFromSlot_def FutureBoundedSlotIndex_def PastBoundedSlotIndex_def demo_api_def drop_bit_eq_div)
  have "accountStakingSTVF demo_api demo_issuing (demo_staker 50) (demo_staker 60) = Inr False"
    by (simp add: accountStakingSTVF_def f ftStaking_def sel e demo_stake_def accountStakingNonExpiredValidation_def Let_def)
  moreover have "featsEqual ref_ledger (ao_ImmutableFeatures (demo_staker 50)) (ao_ImmutableFeatures (demo_staker 60))"
      "ao_FoundryCounter (demo_staker 50) = ao_FoundryCounter (demo_staker 60)"
    by (simp_all add: demo_staker_def demo_account_def featsEqual_def)
  ultimately show ?thesis
    by (simp add: accountSTVF_def derefG_def asAccount_def accountStateChangeValid_def f ftBlockIssuer_def
        accountFoundryCounterSTVF_def accountBlockIssuerSTVF_def sel Let_def)
qed

text \<open>A working set whose transaction may destroy accounts and claims the rewards of the account: its stake
  until epoch 1 is over at epoch 2, one until epoch 50 is not.\<close>

definition demo_unstaking :: working_set where
  "demo_unstaking = demo_issuing\<lparr>ws_Tx := (demo_tx [])\<lparr>te_Capabilities := [4]\<rparr>, ws_Rewards := [(AccountIDc [9], 3)]\<rparr>"

definition demo_staker_in :: "u32 \<Rightarrow> chain_output_with_ids" where
  "demo_staker_in e = \<lparr>co_ChainID = AccountIDc [9], co_OutputID = demo_id, co_Output = AccountO (demo_staker e)\<rparr>"

lemma demo_stake_sel:
  "featsMustSet (ao_Features (demo_staker e)) = Inr [7 \<mapsto> StakingF (demo_stake e)]"
  "ftStaking [7 \<mapsto> StakingF s] = Some s" "ftBlockIssuer [7 \<mapsto> StakingF s] = None" "sf_EndEpoch (demo_stake n) = n"
  "co_Output (demo_staker_in e) = AccountO (demo_staker e)" "co_ChainID (demo_staker_in e) = AccountIDc [9]"
  by (simp_all add: demo_staker_def featsMustSet_eq ftStaking_def ftBlockIssuer_def demo_stake_def demo_staker_in_def)

lemma demo_epochs:
  "snd (stakingEpochs demo_api demo_commitment) = 2" "ws_Commitment demo_issuing = Some demo_commitment"
  "ws_Commitment demo_unstaking = Some demo_commitment"
  by (simp_all add: stakingEpochs_def EpochFromSlot_def FutureBoundedSlotIndex_def demo_api_def demo_commitment_def
      drop_bit_eq_div demo_issuing_def demo_unstaking_def demo_ws_def)

lemma demo_destroyed:
  "accountSTVF ref_ledger demo_api demo_unstaking (Some (demo_staker_in 1)) TransDestroy None = Inr ()"
proof -
  have "EpochFromSlot (api_TimeProvider demo_api) (FutureBoundedSlotIndex demo_api (cm_Slot demo_commitment)) = 2"
    using demo_epochs(1) by (simp add: stakingEpochs_def)
  moreover have "\<not> CannotDestroyAccountOutputs [4]"
    by (simp add: CannotDestroyAccountOutputs_def BitMaskHasBit_def bit_iff_odd)
  moreover have "\<not> (2 :: u32) \<le> 1" by (simp add: word_le_nat_alt)
  moreover have "te_Capabilities (ws_Tx demo_unstaking) = [4]" "ws_Rewards demo_unstaking = [(AccountIDc [9], 3)]"
    by (simp_all add: demo_unstaking_def)
  ultimately show ?thesis
    by (simp add: accountSTVF_def derefG_def asAccount_def accountDestructionValid_def demo_stake_sel demo_epochs Let_def)
qed

theorem staking_rewards_witness:
  "(\<exists>c. ws_Commitment demo_issuing = Some c \<and> snd (stakingEpochs demo_api c) \<le> 50
      \<and> stakeKept demo_api c (demo_stake 50) (Some (demo_stake 60)))
    \<and> 1 < snd (stakingEpochs demo_api demo_commitment)
    \<and> accountSTVF ref_ledger demo_api demo_unstaking (Some (demo_staker_in 50)) TransDestroy None \<noteq> Inr ()"
proof -
  note staker = staking_rewards [OF demo_stake_sel(5) demo_stake_sel(1)]
  note change = conjunct1 [OF staker, rule_format] and destroy = conjunct2 [OF staker, rule_format]
  have "\<exists>c. ws_Commitment demo_issuing = Some c \<and> snd (stakingEpochs demo_api c) \<le> 50
      \<and> stakeKept demo_api c (demo_stake 50) (Some (demo_stake 60))"
    using change [OF conjI [OF demo_staking_valid [folded demo_staker_in_def] demo_stake_sel(1)]]
    by (simp add: demo_stake_sel demo_epochs Let_def)
  moreover have "1 < snd (stakingEpochs demo_api demo_commitment)"
    using destroy [OF demo_destroyed] by (simp add: demo_stake_sel demo_epochs(3) Let_def)
  moreover have "accountSTVF ref_ledger demo_api demo_unstaking (Some (demo_staker_in 50)) TransDestroy None \<noteq> Inr ()"
    using destroy [of ref_ledger demo_api demo_unstaking 50 None] by (auto simp: demo_stake_sel demo_epochs Let_def)
  ultimately show ?thesis by blast
qed

section \<open>Delegations\<close>

text \<open>The voting power of an epoch can still be decided at a slot: the registration for the epoch ends with
  the slot that is the epoch nearing threshold before the last slot of the epoch before.  Slots and epochs
  are numbers here, not words.\<close>

definition votesOpen :: "ledger_api \<Rightarrow> nat \<Rightarrow> nat \<Rightarrow> bool" where
  "votesOpen api slot epoch \<longleftrightarrow> slot + unat (api_EpochNearingThreshold api)
     < unat (tp_genesisSlot (api_TimeProvider api)) + epoch * 2 ^ unat (tp_slotsPerEpochExponent (api_TimeProvider api))"

text \<open>The slots around a commitment are after the genesis and far from the end of their type; the threshold
  and the committable ages are what the checks of the protocol parameters demand.\<close>

definition delegationClock :: "ledger_api \<Rightarrow> u32 \<Rightarrow> bool" where
  "delegationClock api slot \<longleftrightarrow> tp_genesisSlot (api_TimeProvider api) \<le> slot
     \<and> unat (api_EpochNearingThreshold api) < 2 ^ unat (tp_slotsPerEpochExponent (api_TimeProvider api))
     \<and> api_MinCommittableAge api \<le> api_MaxCommittableAge api
     \<and> unat slot + unat (api_MaxCommittableAge api)
         + 2 * 2 ^ unat (tp_slotsPerEpochExponent (api_TimeProvider api)) < 2 ^ 32"

lemma votesOpen_mono: "votesOpen api s e \<Longrightarrow> e \<le> e' \<Longrightarrow> votesOpen api s e'"
  unfolding votesOpen_def using mult_le_mono1 [of e e' "2 ^ unat (tp_slotsPerEpochExponent (api_TimeProvider api))"]
  by linarith

text \<open>What the transitions compute at a slot: whether registration is over, and the votes around it.\<close>

lemma votes_at_slot:
  fixes slot :: u32 and api :: ledger_api
  defines "t \<equiv> api_TimeProvider api" and "e \<equiv> EpochFromSlot (api_TimeProvider api) slot"
  assumes s: "tp_genesisSlot t \<le> slot"
    and h: "unat (api_EpochNearingThreshold api) < 2 ^ unat (tp_slotsPerEpochExponent t)"
    and fit: "unat slot + 2 * 2 ^ unat (tp_slotsPerEpochExponent t) < 2 ^ 32"
  shows "slot \<le> registrationSlot api e \<longleftrightarrow> votesOpen api (unat slot) (unat e + 1)"
    and "\<not> votesOpen api (unat slot) (unat e)" and "votesOpen api (unat slot) (unat e + 2)"
    and "unat (e + 1) = unat e + 1" and "unat (e + 2) = unat e + 2"
proof -
  define w :: nat where "w = 2 ^ unat (tp_slotsPerEpochExponent t)"
  define g where "g = unat (tp_genesisSlot t)"
  define k where "k = unat e * w"
  define n where "n = unat (api_EpochNearingThreshold api)"
  have g: "g \<le> unat slot" and w: "0 < w" and n: "n < w" and f: "unat slot + 2 * w < 2 ^ 32"
    using s h fit by (simp_all add: g_def w_def n_def word_le_nat_alt)
  have w1: "(unat e + 1) * w = k + w" "(unat e + 2) * w = k + 2 * w"
    by (simp_all add: distrib_right k_def)
  have "unat e = (unat slot - g) div w" by (simp add: e_def EpochFromSlot_unat t_def w_def g_def)
  then have e: "k \<le> unat slot - g" "unat slot - g < k + w"
    using div_nat_eq_iff [OF w, of "unat slot - g" "unat e"] w1 by (auto simp: k_def)
  have open_iff: "votesOpen api (unat slot) m \<longleftrightarrow> unat slot + n < g + m * w" for m
    by (simp add: votesOpen_def n_def g_def w_def t_def)
  have "(unat e + 2) * 1 \<le> (unat e + 2) * w" using w by (intro mult_left_mono) auto
  then have "unat e + 2 \<le> k + 2 * w" by (simp only: w1 mult_1_right)
  then have "unat e + 2 < 2 ^ 32" using e(1) f by linarith
  then show "unat (e + 1) = unat e + 1" "unat (e + 2) = unat e + 2"
    by (simp_all add: unat_add_small)
  have "g + (unat e + 1) * w < 2 ^ 32" unfolding w1 using e(1) g f by linarith
  then have "epoch_fits t e" by (simp add: epoch_fits_def g_def w_def)
  from epoch_bounds_exact(2) [OF this] have last: "unat (EpochEnd t e) = g + (k + w) - 1"
    unfolding g_def [symmetric] w_def [symmetric] w1 .
  have "api_EpochNearingThreshold api \<le> EpochEnd t e"
    unfolding word_le_nat_alt last n_def [symmetric] using n by linarith
  then have r: "unat (registrationSlot api e) = g + (k + w) - 1 - n"
    by (simp add: registrationSlot_def unat_sub_small last n_def flip: t_def)
  show "slot \<le> registrationSlot api e \<longleftrightarrow> votesOpen api (unat slot) (unat e + 1)"
    unfolding word_le_nat_alt open_iff w1 r using n by linarith
  show "\<not> votesOpen api (unat slot) (unat e)" "votesOpen api (unat slot) (unat e + 2)"
    unfolding open_iff w1 k_def [symmetric] using e g n by linarith+
qed

text \<open>The first epoch that can still be voted for at a slot, and the last one that cannot.\<close>

definition firstOpenEpoch :: "ledger_api \<Rightarrow> nat \<Rightarrow> u32 \<Rightarrow> bool" where
  "firstOpenEpoch api slot e \<longleftrightarrow> votesOpen api slot (unat e) \<and> \<not> votesOpen api slot (unat e - 1)"

definition lastDecidedEpoch :: "ledger_api \<Rightarrow> nat \<Rightarrow> u32 \<Rightarrow> bool" where
  "lastDecidedEpoch api slot e \<longleftrightarrow> \<not> votesOpen api slot (unat e) \<and> votesOpen api slot (unat e + 1)"

lemma first_open_unique: "firstOpenEpoch api s e \<Longrightarrow> firstOpenEpoch api s e' \<Longrightarrow> e = e'"
proof (rule ccontr)
  assume o: "firstOpenEpoch api s e" "firstOpenEpoch api s e'" and "e \<noteq> e'"
  then have "unat e \<noteq> unat e'" by (simp add: word_unat_eq_iff)
  then have "unat e \<le> unat e' - 1 \<or> unat e' \<le> unat e - 1" by linarith
  then show False using o votesOpen_mono unfolding firstOpenEpoch_def by blast
qed

lemma last_decided_unique: "lastDecidedEpoch api s e \<Longrightarrow> lastDecidedEpoch api s e' \<Longrightarrow> e = e'"
proof (rule ccontr)
  assume o: "lastDecidedEpoch api s e" "lastDecidedEpoch api s e'" and "e \<noteq> e'"
  then have "unat e \<noteq> unat e'" by (simp add: word_unat_eq_iff)
  then have "unat e + 1 \<le> unat e' \<or> unat e' + 1 \<le> unat e" by linarith
  then show False using o votesOpen_mono unfolding lastDecidedEpoch_def by blast
qed

lemma expected_epochs:
  assumes s: "tp_genesisSlot (api_TimeProvider api) \<le> slot"
    and h: "unat (api_EpochNearingThreshold api) < 2 ^ unat (tp_slotsPerEpochExponent (api_TimeProvider api))"
    and fit: "unat slot + 2 * 2 ^ unat (tp_slotsPerEpochExponent (api_TimeProvider api)) < 2 ^ 32"
  shows "firstOpenEpoch api (unat slot) x \<longleftrightarrow> x = (let e = EpochFromSlot (api_TimeProvider api) slot
        in if slot \<le> registrationSlot api e then e + 1 else e + 2)" (is "_ \<longleftrightarrow> x = ?first")
    and "lastDecidedEpoch api (unat slot) x \<longleftrightarrow> x = (let e = EpochFromSlot (api_TimeProvider api) slot
        in if slot \<le> registrationSlot api e then e else e + 1)" (is "_ \<longleftrightarrow> x = ?last")
proof -
  note v = votes_at_slot [OF assms]
  have "firstOpenEpoch api (unat slot) ?first" "lastDecidedEpoch api (unat slot) ?last"
    using v by (simp_all add: firstOpenEpoch_def lastDecidedEpoch_def Let_def)
  then show "firstOpenEpoch api (unat slot) x \<longleftrightarrow> x = ?first" "lastDecidedEpoch api (unat slot) x \<longleftrightarrow> x = ?last"
    using first_open_unique last_decided_unique by blast+
qed

lemma bounded_slots:
  assumes "delegationClock api slot"
  shows "unat (PastBoundedSlotIndex api slot) = unat slot + unat (api_MaxCommittableAge api)"
    and "unat (FutureBoundedSlotIndex api slot) = unat slot + unat (api_MinCommittableAge api)"
  using assms by (simp_all add: delegationClock_def PastBoundedSlotIndex_def FutureBoundedSlotIndex_def
      word_le_nat_alt unat_add_small)

lemma delegation_epochs:
  assumes c: "delegationClock api slot"
  shows "firstOpenEpoch api (unat slot + unat (api_MaxCommittableAge api)) x
      \<longleftrightarrow> x = (let e = EpochFromSlot (api_TimeProvider api) (PastBoundedSlotIndex api slot)
        in if PastBoundedSlotIndex api slot \<le> registrationSlot api e then e + 1 else e + 2)"
    and "lastDecidedEpoch api (unat slot + unat (api_MinCommittableAge api)) x
      \<longleftrightarrow> x = (let e = EpochFromSlot (api_TimeProvider api) (FutureBoundedSlotIndex api slot)
        in if FutureBoundedSlotIndex api slot \<le> registrationSlot api e then e else e + 1)"
proof -
  note b = bounded_slots [OF c]
  note d = c [unfolded delegationClock_def word_le_nat_alt]
  show "firstOpenEpoch api (unat slot + unat (api_MaxCommittableAge api)) x
      \<longleftrightarrow> x = (let e = EpochFromSlot (api_TimeProvider api) (PastBoundedSlotIndex api slot)
        in if PastBoundedSlotIndex api slot \<le> registrationSlot api e then e + 1 else e + 2)"
    unfolding b(1) [symmetric] by (rule expected_epochs) (use d in \<open>simp_all only: word_le_nat_alt b\<close>, linarith+)
  show "lastDecidedEpoch api (unat slot + unat (api_MinCommittableAge api)) x
      \<longleftrightarrow> x = (let e = EpochFromSlot (api_TimeProvider api) (FutureBoundedSlotIndex api slot)
        in if FutureBoundedSlotIndex api slot \<le> registrationSlot api e then e else e + 1)"
    unfolding b(2) [symmetric] by (rule expected_epochs) (use d in \<open>simp_all only: word_le_nat_alt b\<close>, linarith+)
qed

text \<open>C10: the life of a delegation.  It starts with a zeroed ID and end epoch, delegates its whole amount,
  and counts from the first epoch whose voting power may still be open at the past bounded slot of the
  commitment.  It makes at most one transition, into delayed claiming: the amount, validator and start epoch
  stay, no reward is claimed, and its end epoch is the last epoch whose voting power is decided at the future
  bounded slot.  It is destroyed exactly by claiming its reward.  The votes of an epoch close with the slot
  that is the epoch nearing threshold before the last slot of the epoch before.\<close>

theorem delegation_rules:
  assumes "\<And>c. ws_Commitment ws = Some c \<Longrightarrow> delegationClock api (cm_Slot c)"
  shows "(ChainSTVF D api ws TransGenesis None (Some (DelegationO d)) = Inr () \<longleftrightarrow>
      do_DelegationID d = emptyID \<and> do_DelegatedAmount d = do_Amount d \<and> do_EndEpoch d = 0
      \<and> (\<exists>c. ws_Commitment ws = Some c
        \<and> firstOpenEpoch api (unat (cm_Slot c) + unat (api_MaxCommittableAge api)) (do_StartEpoch d)))
    \<and> (ChainSTVF D api ws TransStateChange (Some \<lparr>co_ChainID = c0, co_OutputID = i0, co_Output = DelegationO d\<rparr>)
         (Some (DelegationO e)) = Inr () \<longleftrightarrow>
      map_of (ws_Rewards ws) c0 = None \<and> do_DelegationID d = emptyID
      \<and> do_DelegatedAmount e = do_DelegatedAmount d \<and> do_ValidatorAddress e = do_ValidatorAddress d
      \<and> do_StartEpoch e = do_StartEpoch d \<and> (\<exists>c. ws_Commitment ws = Some c
        \<and> lastDecidedEpoch api (unat (cm_Slot c) + unat (api_MinCommittableAge api)) (do_EndEpoch e)))
    \<and> (ChainSTVF D api ws TransDestroy (Some \<lparr>co_ChainID = c0, co_OutputID = i0, co_Output = DelegationO d\<rparr>) None
         = Inr () \<longleftrightarrow> map_of (ws_Rewards ws) c0 \<noteq> None)"
proof (intro conjI)
  note ep = delegation_epochs [OF assms]
  show "ChainSTVF D api ws TransGenesis None (Some (DelegationO d)) = Inr () \<longleftrightarrow>
      do_DelegationID d = emptyID \<and> do_DelegatedAmount d = do_Amount d \<and> do_EndEpoch d = 0
      \<and> (\<exists>c. ws_Commitment ws = Some c
        \<and> firstOpenEpoch api (unat (cm_Slot c) + unat (api_MaxCommittableAge api)) (do_StartEpoch d))"
    by (cases "ws_Commitment ws") (auto simp: ChainSTVF_def nextAs_def delegationSTVF_def derefG_def
        delegationGenesisValid_def Let_def throw_def ep)
  show "ChainSTVF D api ws TransStateChange (Some \<lparr>co_ChainID = c0, co_OutputID = i0, co_Output = DelegationO d\<rparr>)
         (Some (DelegationO e)) = Inr () \<longleftrightarrow>
      map_of (ws_Rewards ws) c0 = None \<and> do_DelegationID d = emptyID
      \<and> do_DelegatedAmount e = do_DelegatedAmount d \<and> do_ValidatorAddress e = do_ValidatorAddress d
      \<and> do_StartEpoch e = do_StartEpoch d \<and> (\<exists>c. ws_Commitment ws = Some c
        \<and> lastDecidedEpoch api (unat (cm_Slot c) + unat (api_MinCommittableAge api)) (do_EndEpoch e))"
    by (cases "ws_Commitment ws") (auto simp: ChainSTVF_def nextAs_def delegationSTVF_def derefG_def
        asDelegation_def delegationStateChangeValid_def Let_def throw_def ep)
qed (auto simp: ChainSTVF_def nextAs_def delegationSTVF_def derefG_def throw_def)

text \<open>With epochs of 8 slots and a threshold of 5 a delegation made at commitment slot 10 starts with epoch 5,
  as the votes of epoch 4 close with slot 26, before the past bounded slot 30.\<close>

theorem delegation_rules_witness:
  "ChainSTVF ref_ledger demo_api demo_issuing TransGenesis None (Some (DelegationO \<lparr>do_Amount = 5,
      do_DelegatedAmount = 5, do_DelegationID = emptyID, do_ValidatorAddress = [9], do_StartEpoch = 5,
      do_EndEpoch = 0, do_UnlockConditions = [AddressUC demo_owner]\<rparr>)) = Inr ()"
proof -
  have sel: "ws_Commitment demo_issuing = Some demo_commitment" "cm_Slot demo_commitment = 10"
    by (simp_all add: demo_issuing_def demo_ws_def demo_commitment_def)
  have c: "delegationClock demo_api (cm_Slot c)" if "ws_Commitment demo_issuing = Some c" for c
  proof -
    have "c = demo_commitment" using that by (simp add: sel)
    then show ?thesis by (simp add: sel delegationClock_def) (simp add: demo_api_def)
  qed
  let ?d = "\<lparr>do_Amount = 5, do_DelegatedAmount = 5, do_DelegationID = emptyID, do_ValidatorAddress = [9],
      do_StartEpoch = 5, do_EndEpoch = 0, do_UnlockConditions = [AddressUC demo_owner]\<rparr>"
  have "firstOpenEpoch demo_api (unat (cm_Slot demo_commitment) + unat (api_MaxCommittableAge demo_api)) (do_StartEpoch ?d)"
    by (simp add: sel firstOpenEpoch_def votesOpen_def demo_api_def)
  with sel(1) delegation_rules [of demo_issuing demo_api ref_ledger ?d, OF c] show ?thesis by simp
qed

section \<open>A foundry next to an implicit account\<close>

text \<open>A transaction that converts an implicit account and at the same time creates a foundry of the new
  account is not rejected but makes the machine panic: the genesis of the foundry finds the implicit account
  as the input of the account chain and casts it to an account output.\<close>

theorem foundry_with_implicit_account:
  assumes "foundryID D f = Inr i" "foundryOwner f = Inr (AccountAddress acc)"
    and "map_of (ws_InChains ws) (AccountIDc acc) = Some co" "co_Output co = ImplicitAccountO b"
    and "map_of (ws_OutChains ws) (AccountIDc acc) = Some out"
    and "sts_MeltedTokens (fo_TokenScheme f) = 0"
    and "sts_MintedTokens (fo_TokenScheme f) = ValueOrBigInt0 (ws_OutNativeTokens ws) i"
  shows "is_panic (ChainSTVF D api ws TransGenesis None (Some (FoundryO f)))"
proof -
  have "schemeGenesisValid (fo_TokenScheme f) (ValueOrBigInt0 (ws_OutNativeTokens ws) i) = Inr ()"
    using assms(6,7) by (simp add: scheme_genesis_iff)
  with assms(1-5) show ?thesis
    by (simp add: ChainSTVF_def derefG_def nextAs_def foundrySTVF_def foundryGenesisValid_def
      schemeStateTransition_def asAccount_def is_panic_def)
qed

theorem foundry_with_implicit_account_witness:
  "\<exists>ws. is_panic (ChainSTVF ref_ledger demo_api ws TransGenesis None (Some (FoundryO (demo_foundry 0 []))))"
proof -
  obtain i where "foundryID ref_tx_deps (demo_foundry 0 []) = Inr i" using demo_foundry_ID by blast
  then have i: "foundryID ref_ledger (demo_foundry 0 []) = Inr i"
    by (simp add: foundryID_def FoundryIDFromAddressAndSerialNumberAndTokenScheme_def)
  have own: "foundryOwner (demo_foundry 0 []) = Inr (AccountAddress [9])"
    by (simp add: foundryOwner_def ucsMustSet_eq derefG_def ucImmutableAccount_def)
  let ?ws = "(demo_creation i)\<lparr>ws_InChains := [(AccountIDc [9], \<lparr>co_ChainID = AccountIDc [9],
      co_OutputID = demo_id, co_Output = ImplicitAccountO (basicWithAddress demo_owner)\<rparr>)]\<rparr>"
  have "is_panic (ChainSTVF ref_ledger demo_api ?ws TransGenesis None (Some (FoundryO (demo_foundry 0 []))))"
    by (rule foundry_with_implicit_account [OF i own, where b = "basicWithAddress demo_owner"
          and co = "\<lparr>co_ChainID = AccountIDc [9], co_OutputID = demo_id,
             co_Output = ImplicitAccountO (basicWithAddress demo_owner)\<rparr>"])
      (simp_all add: demo_creation_def demo_ws_def ValueOrBigInt0_def)
  then show ?thesis by blast
qed

end
