(* ===== verification/Tx_Builder_Mana.thy ===== *)
theory Tx_Builder_Mana
  imports Tx_Builder Nova_Rules
begin

text \<open>
  The mana arithmetic of the transaction builder against the sums of the virtual machine: the mana it finds
  on the input side is the mana the machine finds there, what remains is what outputs and allotments leave,
  and after the remainder is stored both sides are equal.
\<close>

section \<open>Balances\<close>

definition balanceOf :: "available_mana \<Rightarrow> bytes \<Rightarrow> nat" where
  "balanceOf a k = (case map_of (am_AccountBoundMana a) k of Some m \<Rightarrow> unat m | None \<Rightarrow> 0)"

definition totalOf :: "available_mana \<Rightarrow> nat" where
  "totalOf a = unat (am_UnboundMana a) + (\<Sum>(k, m)\<leftarrow>am_AccountBoundMana a. unat m)"

abbreviation accounts :: "available_mana \<Rightarrow> bytes list" where
  "accounts a \<equiv> map fst (am_AccountBoundMana a)"

lemma map_fst_update: "k \<in> set (map fst al) \<Longrightarrow> map fst (AList.update k v al) = map fst al"
  by (induction al) auto

lemma sum_update:
  "map_of al k = Some m \<Longrightarrow> (\<Sum>(k, m)\<leftarrow>AList.update k v al. unat m) + unat m = (\<Sum>(k, m)\<leftarrow>al. unat m) + unat v"
  by (induction al) auto

lemma sum_update_new:
  "map_of al k = None \<Longrightarrow> (\<Sum>(k, m)\<leftarrow>AList.update k v al. unat m) = (\<Sum>(k, m)\<leftarrow>al. unat m) + unat v"
  by (induction al) auto

lemma balance_le_total: "balanceOf a k \<le> (\<Sum>(k, m)\<leftarrow>am_AccountBoundMana a. unat m)"
proof -
  have "(case map_of al k of Some m \<Rightarrow> unat m | None \<Rightarrow> 0) \<le> (\<Sum>(k, m)\<leftarrow>al. unat m)" for al :: "(bytes \<times> u64) list"
    by (induction al) auto
  then show ?thesis by (simp add: balanceOf_def)
qed

lemma subtractUnbound_Inr:
  assumes "safemath64 D" "subtractUnbound D msg v a = Inr a'"
  shows "am_AccountBoundMana a' = am_AccountBoundMana a" "totalOf a' + unat v = totalOf a"
  using assms by (auto simp: subtractUnbound_def andthen_eq_Inr checked_arith.sub_Inr_iff totalOf_def)

text \<open>A demand on an account takes from its balance first and from the unbound mana what is missing.\<close>

lemma demand_Inr:
  assumes D: "safemath64 D" and run: "updateUnboundAndAccountBoundManaBalances D i v a = Inr a'"
  shows "accounts a' = accounts a \<and> totalOf a' + unat v = totalOf a
    \<and> (\<forall>k. balanceOf a' k = balanceOf a k - (if k = i then unat v else 0))"
proof (cases "v = 0")
  case True
  then show ?thesis using run by (simp add: updateUnboundAndAccountBoundManaBalances_def)
next
  case False
  show ?thesis
  proof (cases "map_of (am_AccountBoundMana a) i")
    case None
    then have "subtractUnbound D ''not enough unbound mana on the input side for account %s'' v a = Inr a'"
      using run False by (simp add: updateUnboundAndAccountBoundManaBalances_def)
    from subtractUnbound_Inr [OF D this] None show ?thesis by (simp add: balanceOf_def)
  next
    case (Some m)
    then have i: "i \<in> set (accounts a)" by (force dest: map_of_SomeD)
    show ?thesis
    proof (cases "m < v")
      case True
      let ?a = "a\<lparr>am_AccountBoundMana := AList.update i 0 (am_AccountBoundMana a)\<rparr>"
      have "subtractUnbound D ''not enough unbound mana on the input side for account %s while subtracting remainder''
          (v - m) ?a = Inr a'"
        using run False Some True by (simp add: updateUnboundAndAccountBoundManaBalances_def)
      note sub = subtractUnbound_Inr [OF D this]
      have "unat (v - m) = unat v - unat m" using True by (intro unat_sub_small) simp
      moreover have "totalOf ?a + unat m = totalOf a"
        using sum_update [OF Some, of 0] by (simp add: totalOf_def)
      ultimately have "totalOf a' + unat v = totalOf a"
        using sub(2) True by (simp add: word_less_nat_alt)
      moreover have "balanceOf a' k = balanceOf a k - (if k = i then unat v else 0)" for k
        using sub(1) Some True by (simp add: balanceOf_def update_conv' word_less_nat_alt)
      ultimately show ?thesis using sub(1) map_fst_update [OF i] by simp
    next
      case False2: False
      have a': "a' = a\<lparr>am_AccountBoundMana := AList.update i (m - v) (am_AccountBoundMana a)\<rparr>"
        using run False Some False2 by (simp add: updateUnboundAndAccountBoundManaBalances_def)
      have le: "v \<le> m" using False2 by simp
      then have d: "unat (m - v) = unat m - unat v" "unat v \<le> unat m"
        by (simp_all add: unat_sub_small word_le_nat_alt)
      have "totalOf a' + unat v = totalOf a"
        using sum_update [OF Some, of "m - v"] d by (simp add: totalOf_def a')
      moreover have "balanceOf a' k = balanceOf a k - (if k = i then unat v else 0)" for k
        using Some d by (simp add: balanceOf_def update_conv' a')
      ultimately show ?thesis using map_fst_update [OF i] by (simp add: a')
    qed
  qed
qed

section \<open>What is demanded\<close>

text \<open>The account the mana of an output is bound to.\<close>

definition boundTo :: "'p block_api_scheme \<Rightarrow> tx_builder \<Rightarrow> ledger_output \<Rightarrow> bytes option" where
  "boundTo api b output =
    (case output of AccountO x \<Rightarrow> Some (ao_AccountID x)
     | _ \<Rightarrow> (case hasManalockCondition api b output of Inr locked \<Rightarrow> locked | Inl _ \<Rightarrow> None))"

definition outDemand :: "'p block_api_scheme \<Rightarrow> tx_builder \<Rightarrow> bytes \<Rightarrow> ledger_output list \<Rightarrow> nat" where
  "outDemand api b k outs = (\<Sum>out\<leftarrow>outs. if boundTo api b out = Some k then unat (outStoredMana out) else 0)"

definition allotDemand :: "bytes \<Rightarrow> mana_allotment list \<Rightarrow> nat" where
  "allotDemand k as = (\<Sum>x\<leftarrow>as. if al_AccountID x = k then unat (al_Mana x) else 0)"

abbreviation storedSum :: "ledger_output list \<Rightarrow> nat" where
  "storedSum outs \<equiv> (\<Sum>out\<leftarrow>outs. unat (outStoredMana out))"

abbreviation allotSum :: "mana_allotment list \<Rightarrow> nat" where
  "allotSum as \<equiv> (\<Sum>x\<leftarrow>as. unat (al_Mana x))"

lemma output_Inr:
  assumes "safemath64 D" "subtractOutput D api b a out = Inr a'"
  shows "accounts a' = accounts a \<and> totalOf a' + unat (outStoredMana out) = totalOf a
    \<and> (\<forall>k. balanceOf a' k = balanceOf a k - (if boundTo api b out = Some k then unat (outStoredMana out) else 0))"
proof -
  consider i where "boundTo api b out = Some i"
      "updateUnboundAndAccountBoundManaBalances D i (outStoredMana out) a = Inr a'"
    | msg where "boundTo api b out = None" "subtractUnbound D msg (outStoredMana out) a = Inr a'"
  proof (cases "\<exists>x. out = AccountO x")
    case True
    then show thesis using that(1) assms(2) by (auto simp: subtractOutput_def boundTo_def)
  next
    case False
    then have "subtractOutput D api b a out = andthen (hasManalockCondition api b out) (\<lambda>locked. case locked of
         Some i \<Rightarrow> wrapE ''failed to subtract the stored mana on the outputs side, while checking locked mana''
             (updateUnboundAndAccountBoundManaBalances D i (outStoredMana out) a)
       | None \<Rightarrow> subtractUnbound D ''failed to subtract the stored mana on the outputs side'' (outStoredMana out) a)"
      by (cases out) (simp_all add: subtractOutput_def)
    with assms(2) obtain locked where l: "hasManalockCondition api b out = Inr locked"
      and rest: "(case locked of
         Some i \<Rightarrow> wrapE ''failed to subtract the stored mana on the outputs side, while checking locked mana''
             (updateUnboundAndAccountBoundManaBalances D i (outStoredMana out) a)
       | None \<Rightarrow> subtractUnbound D ''failed to subtract the stored mana on the outputs side'' (outStoredMana out) a) = Inr a'"
      by (auto simp: andthen_eq_Inr)
    have "boundTo api b out = locked" using l False by (cases out) (simp_all add: boundTo_def)
    with rest show thesis using that by (cases locked) simp_all
  qed
  then show ?thesis
  proof cases
    case 1
    from demand_Inr [OF assms(1) 1(2)] show ?thesis by (auto simp: 1(1))
  next
    case 2
    from subtractUnbound_Inr [OF assms(1) 2(2)] show ?thesis by (simp add: 2(1) balanceOf_def)
  qed
qed

lemma outputs_Inr:
  assumes "safemath64 D" "foldG (subtractOutput D api b) a outs = Inr a'"
  shows "accounts a' = accounts a \<and> totalOf a' + storedSum outs = totalOf a
    \<and> (\<forall>k. balanceOf a' k = balanceOf a k - outDemand api b k outs)"
  using assms(2)
proof (induction outs arbitrary: a)
  case Nil
  then show ?case by (simp add: outDemand_def)
next
  case (Cons out outs)
  then obtain a1 where a1: "subtractOutput D api b a out = Inr a1" "foldG (subtractOutput D api b) a1 outs = Inr a'"
    by (auto simp: andthen_eq_Inr)
  from output_Inr [OF assms(1) a1(1)] Cons.IH [OF a1(2)] show ?case
    by (auto simp: outDemand_def)
qed

lemma allotments_Inr:
  assumes "safemath64 D"
    and "foldG (\<lambda>a x. wrapE msg (updateUnboundAndAccountBoundManaBalances D (al_AccountID x) (al_Mana x) a)) a as = Inr a'"
  shows "accounts a' = accounts a \<and> totalOf a' + allotSum as = totalOf a
    \<and> (\<forall>k. balanceOf a' k = balanceOf a k - allotDemand k as)"
  using assms(2)
proof (induction as arbitrary: a)
  case Nil
  then show ?case by (simp add: allotDemand_def)
next
  case (Cons x as)
  then obtain a1 where a1: "updateUnboundAndAccountBoundManaBalances D (al_AccountID x) (al_Mana x) a = Inr a1"
      "foldG (\<lambda>a x. wrapE msg (updateUnboundAndAccountBoundManaBalances D (al_AccountID x) (al_Mana x) a)) a1 as = Inr a'"
    by (auto simp: andthen_eq_Inr)
  from demand_Inr [OF assms(1) a1(1)] Cons.IH [OF a1(2)] show ?case
    by (auto simp: allotDemand_def)
qed

section \<open>The input side\<close>

abbreviation manaOfInput :: "'a ledger_deps_scheme \<Rightarrow> 'p block_api_scheme \<Rightarrow> u32 \<Rightarrow> bytes \<times> ledger_output \<Rightarrow> nat option" where
  "manaOfInput D api slot \<equiv> inputMana D (api_ManaDecayProvider api) (api_StorageScoreStructure api) slot"

definition boundIDs :: "(bytes \<times> ledger_output) list \<Rightarrow> bytes set" where
  "boundIDs inputs = {ao_AccountID x | i x. (i, AccountO x) \<in> set inputs}"

lemma addUnbound_Inr:
  assumes "safemath64 D"
  shows "addUnboundMana D v a = Inr a' \<Longrightarrow> am_AccountBoundMana a' = am_AccountBoundMana a \<and> totalOf a' = totalOf a + unat v"
    and "AddUnboundPotentialMana D v a = Inr a' \<Longrightarrow> am_AccountBoundMana a' = am_AccountBoundMana a \<and> totalOf a' = totalOf a + unat v"
    and "AddUnboundStoredMana D v a = Inr a' \<Longrightarrow> am_AccountBoundMana a' = am_AccountBoundMana a \<and> totalOf a' = totalOf a + unat v"
    and "AddRewards D v a = Inr a' \<Longrightarrow> am_AccountBoundMana a' = am_AccountBoundMana a \<and> totalOf a' = totalOf a + unat v"
  using assms
  by (auto simp: addUnboundMana_def AddUnboundPotentialMana_def AddUnboundStoredMana_def AddRewards_def andthen_eq_Inr
      checked_arith.add_Inr_iff totalOf_def)

lemma addTotal_Inr:
  "AddPotentialMana D v a = Inr a' \<Longrightarrow> am_AccountBoundMana a' = am_AccountBoundMana a \<and> totalOf a' = totalOf a"
  "AddStoredMana D v a = Inr a' \<Longrightarrow> am_AccountBoundMana a' = am_AccountBoundMana a \<and> totalOf a' = totalOf a"
  by (auto simp: AddPotentialMana_def AddStoredMana_def addTotalMana_def andthen_eq_Inr totalOf_def)

lemma addBound_Inr:
  assumes "safemath64 D" "AddAccountBoundMana D i v a = Inr a'" "distinct (accounts a)"
  shows "set (accounts a') = insert i (set (accounts a)) \<and> distinct (accounts a') \<and> totalOf a' = totalOf a + unat v"
proof (cases "map_of (am_AccountBoundMana a) i")
  case None
  from assms(1,2) None obtain x where x: "unat x = unat v"
      "a' = a\<lparr>am_AccountBoundMana := AList.update i x (am_AccountBoundMana a)\<rparr>"
    by (auto simp: AddAccountBoundMana_def andthen_eq_Inr checked_arith.add_Inr_iff)
  with sum_update_new [OF None, of x] distinct_update [OF assms(3), of i x] show ?thesis
    by (simp add: totalOf_def dom_update)
next
  case (Some m)
  from assms(1,2) Some obtain x where x: "unat x = unat m + unat v"
      "a' = a\<lparr>am_AccountBoundMana := AList.update i x (am_AccountBoundMana a)\<rparr>"
    by (auto simp: AddAccountBoundMana_def andthen_eq_Inr checked_arith.add_Inr_iff)
  with sum_update [OF Some, of x] distinct_update [OF assms(3), of i x] show ?thesis
    by (simp add: totalOf_def dom_update)
qed

lemma available_step:
  assumes D: "safemath64 D" and run: "availableStep D api slot a (i, out) = Inr a'" and d: "distinct (accounts a)"
  shows "\<exists>n. manaOfInput D api slot (i, out) = Some n \<and> totalOf a' = totalOf a + n \<and> distinct (accounts a')
    \<and> set (accounts a') = set (accounts a) \<union> boundIDs [(i, out)]"
proof -
  obtain p s a1 a2 where p: "PotentialMana D (api_ManaDecayProvider api) (api_StorageScoreStructure api) out (CreationSlot i) slot = Inr p"
    and s: "DecayManaBySlots (api_ManaDecayProvider api) (outStoredMana out) (CreationSlot i) slot = Inr s"
    and a1: "AddPotentialMana D p a = Inr a1" and a2: "AddStoredMana D s a1 = Inr a2"
    and rest: "(case out of
         AccountO x \<Rightarrow> andthen (wrapE ''failed to add input mana'' (liftE (SafeAdd64 D p s)))
             (\<lambda>m. AddAccountBoundMana D (ao_AccountID x) m a2)
       | _ \<Rightarrow> andthen (AddUnboundPotentialMana D p a2) (\<lambda>r. AddUnboundStoredMana D s r)) = Inr a'"
    using run by (auto simp: availableStep_def andthen_eq_Inr)
  have n: "manaOfInput D api slot (i, out) = Some (unat s + unat p)"
    by (simp add: inputMana_def p s)
  have a: "am_AccountBoundMana a2 = am_AccountBoundMana a" "totalOf a2 = totalOf a"
    using addTotal_Inr(1) [OF a1] addTotal_Inr(2) [OF a2] by simp_all
  show ?thesis
  proof (cases "\<exists>x. out = AccountO x")
    case True
    then obtain x m where x: "out = AccountO x" "unat m = unat p + unat s" "AddAccountBoundMana D (ao_AccountID x) m a2 = Inr a'"
      using rest D by (auto simp: andthen_eq_Inr checked_arith.add_Inr_iff)
    from addBound_Inr [OF D x(3)] d a x n show ?thesis by (auto simp: boundIDs_def)
  next
    case False
    then have "andthen (AddUnboundPotentialMana D p a2) (\<lambda>r. AddUnboundStoredMana D s r) = Inr a'"
      using rest by (cases out) simp_all
    then obtain r where r: "AddUnboundPotentialMana D p a2 = Inr r" "AddUnboundStoredMana D s r = Inr a'"
      by (auto simp: andthen_eq_Inr)
    from addUnbound_Inr(2) [OF D r(1)] addUnbound_Inr(3) [OF D r(2)] a d n False show ?thesis
      by (auto simp: boundIDs_def)
  qed
qed

text \<open>The input side as the virtual machine sees it.\<close>

lemma inputs_Inr:
  assumes D: "safemath64 D" and run: "CalculateAvailableManaInputs D api slot b = Inr a"
  shows "(\<forall>x \<in> set (tb_inputs b). manaOfInput D api slot x \<noteq> None)
    \<and> totalOf a = (\<Sum>x\<leftarrow>tb_inputs b. the (manaOfInput D api slot x)) + unat (tb_rewards b)
    \<and> distinct (accounts a) \<and> set (accounts a) = boundIDs (tb_inputs b)"
proof -
  obtain r where r: "foldG (availableStep D api slot) noManaYet (tb_inputs b) = Inr r" "AddRewards D (tb_rewards b) r = Inr a"
    using run by (auto simp: CalculateAvailableManaInputs_def andthen_eq_Inr)
  have "foldG (availableStep D api slot) a0 xs = Inr r \<Longrightarrow> distinct (accounts a0) \<Longrightarrow>
      (\<forall>x \<in> set xs. manaOfInput D api slot x \<noteq> None)
      \<and> totalOf r = totalOf a0 + (\<Sum>x\<leftarrow>xs. the (manaOfInput D api slot x))
      \<and> distinct (accounts r) \<and> set (accounts r) = set (accounts a0) \<union> boundIDs xs" for a0 xs
  proof (induction xs arbitrary: a0)
    case Nil
    then show ?case by (simp add: boundIDs_def)
  next
    case (Cons x xs)
    obtain i out where x: "x = (i, out)" by (cases x)
    from Cons.prems obtain a1 where a1: "availableStep D api slot a0 x = Inr a1"
        "foldG (availableStep D api slot) a1 xs = Inr r"
      by (auto simp: andthen_eq_Inr)
    from available_step [OF D a1(1) [unfolded x] Cons.prems(2)] obtain n where
      n: "manaOfInput D api slot x = Some n" "totalOf a1 = totalOf a0 + n" "distinct (accounts a1)"
        "set (accounts a1) = set (accounts a0) \<union> boundIDs [x]" by (auto simp: x)
    have "boundIDs (x # xs) = boundIDs [x] \<union> boundIDs xs" by (auto simp: boundIDs_def)
    with Cons.IH [OF a1(2) n(3)] n show ?case by auto
  qed
  moreover have "accounts noManaYet = []" "totalOf noManaYet = 0"
    by (simp_all add: noManaYet_def totalOf_def)
  ultimately have "(\<forall>x \<in> set (tb_inputs b). manaOfInput D api slot x \<noteq> None)
      \<and> totalOf r = (\<Sum>x\<leftarrow>tb_inputs b. the (manaOfInput D api slot x))
      \<and> distinct (accounts r) \<and> set (accounts r) = boundIDs (tb_inputs b)"
    using r(1) by fastforce
  with addUnbound_Inr(4) [OF D r(2)] show ?thesis by simp
qed

section \<open>What remains\<close>

text \<open>The remaining mana: together with what outputs and allotments take it is the mana of the inputs, and
  the balance of an account is what its outputs and allotments leave of it.\<close>

definition demandOf :: "'p block_api_scheme \<Rightarrow> tx_builder \<Rightarrow> bytes \<Rightarrow> nat" where
  "demandOf api b k = outDemand api b k (tx_Outputs (tb_transaction b)) + allotDemand k (te_Allotments (tb_transaction b))"

lemma remaining_Inr:
  assumes D: "safemath64 D" and run: "CalculateAvailableManaRemaining D api slot b = Inr r"
  shows "\<exists>a. CalculateAvailableManaInputs D api slot b = Inr a \<and> accounts r = accounts a
    \<and> totalOf r + storedSum (tx_Outputs (tb_transaction b)) + allotSum (te_Allotments (tb_transaction b)) = totalOf a
    \<and> (\<forall>k. balanceOf r k = balanceOf a k - demandOf api b k)"
proof -
  obtain a a1 where a: "CalculateAvailableManaInputs D api slot b = Inr a"
    and a1: "foldG (subtractOutput D api b) a (tx_Outputs (tb_transaction b)) = Inr a1"
    and r: "foldG (\<lambda>a x. wrapE ''failed to subtract the already allotted mana''
        (updateUnboundAndAccountBoundManaBalances D (al_AccountID x) (al_Mana x) a)) a1
        (te_Allotments (tb_transaction b)) = Inr r"
    using run by (auto simp: CalculateAvailableManaRemaining_def andthen_eq_Inr)
  from outputs_Inr [OF D a1] allotments_Inr [OF D r] a show ?thesis
    by (auto simp: demandOf_def)
qed

section \<open>Allotting the bound mana\<close>

lemma increaseIn_demand:
  assumes "allotDemand i as + unat v < 2 ^ 64"
  shows "allotDemand k (increaseIn as i v) = allotDemand k as + (if k = i then unat v else 0)"
  using assms
proof (induction as)
  case (Cons x as)
  show ?case
  proof (cases "al_AccountID x = i")
    case True
    with Cons.prems have "unat (al_Mana x + v) = unat (al_Mana x) + unat v"
      by (intro unat_add_small) (simp add: allotDemand_def)
    with True show ?thesis by (simp add: allotDemand_def)
  qed (use Cons in \<open>auto simp: allotDemand_def\<close>)
qed (simp add: allotDemand_def)

text \<open>Distinct accounts are allotted one after the other.\<close>

lemma allot_fold:
  assumes "distinct (map fst ms)"
    and "\<And>i m. (i, m) \<in> set ms \<Longrightarrow> m \<noteq> 0 \<Longrightarrow> allotDemand i (te_Allotments (tb_transaction b)) + unat m < 2 ^ 64"
  shows "\<exists>as. fold (\<lambda>(accountID, mana). IncreaseAllotment accountID mana) ms b
        = changeTx (\<lambda>t. t\<lparr>te_Allotments := as\<rparr>) b
    \<and> (\<forall>k. allotDemand k as = allotDemand k (te_Allotments (tb_transaction b))
        + (case map_of ms k of Some m \<Rightarrow> unat m | None \<Rightarrow> 0))"
  using assms
proof (induction ms arbitrary: b)
  case Nil
  show ?case by (intro exI [of _ "te_Allotments (tb_transaction b)"]) simp
next
  case (Cons x ms)
  obtain i m where x: "x = (i, m)" by (cases x)
  let ?A = "te_Allotments (tb_transaction b)"
  have i: "i \<notin> set (map fst ms)" "distinct (map fst ms)" using Cons.prems(1) by (simp_all add: x)
  then have none: "map_of ms i = None" by (simp add: map_of_eq_None_iff)
  obtain as where as: "IncreaseAllotment i m b = changeTx (\<lambda>t. t\<lparr>te_Allotments := as\<rparr>) b"
    and d: "\<And>k. allotDemand k as = allotDemand k ?A + (if k = i then unat m else 0)"
  proof (cases "m = 0")
    case True
    show thesis by (rule that [of ?A]) (simp_all add: True IncreaseAllotment_def)
  next
    case False
    with Cons.prems(2) [of i m] have "allotDemand i ?A + unat m < 2 ^ 64" by (simp add: x)
    from increaseIn_demand [OF this] False show thesis
      by (intro that [of "increaseIn ?A i m"]) (simp_all add: IncreaseAllotment_def)
  qed
  let ?b = "changeTx (\<lambda>t. t\<lparr>te_Allotments := as\<rparr>) b"
  have "allotDemand j (te_Allotments (tb_transaction ?b)) + unat n < 2 ^ 64" if "(j, n) \<in> set ms" "n \<noteq> 0" for j n
  proof -
    have "j \<noteq> i" using that(1) i(1) by force
    then show ?thesis using Cons.prems(2) [of j n] that by (simp add: d)
  qed
  from Cons.IH [of ?b, OF i(2) this] obtain bs where
    bs: "fold (\<lambda>(accountID, mana). IncreaseAllotment accountID mana) ms ?b = changeTx (\<lambda>t. t\<lparr>te_Allotments := bs\<rparr>) ?b"
    and e: "\<And>k. allotDemand k bs = allotDemand k as + (case map_of ms k of Some m \<Rightarrow> unat m | None \<Rightarrow> 0)"
    by auto
  have "fold (\<lambda>(accountID, mana). IncreaseAllotment accountID mana) (x # ms) b = changeTx (\<lambda>t. t\<lparr>te_Allotments := bs\<rparr>) b"
    using bs as by (simp add: x)
  then show ?case using d e none by (intro exI [of _ bs]) (auto simp: x split: option.split)
qed

lemma boundTo_allotments [simp]:
  "boundTo api (changeTx (\<lambda>t. t\<lparr>te_Allotments := as\<rparr>) b) = boundTo api b"
  by (intro ext) (simp add: boundTo_def hasManalockCondition_def split: ledger_output.split)

lemma inputs_allotments [simp]:
  "CalculateAvailableManaInputs D api slot (changeTx f b) = CalculateAvailableManaInputs D api slot b"
  by (simp add: CalculateAvailableManaInputs_def)

lemma balance_member: "distinct (accounts r) \<Longrightarrow> (i, m) \<in> set (am_AccountBoundMana r) \<Longrightarrow> balanceOf r i = unat m"
  by (simp add: balanceOf_def)

text \<open>After the remaining bound mana is allotted, no account but the one left out has mana left.\<close>

lemma allotted_remaining:
  assumes D: "safemath64 D" and run: "AllotRemainingAccountBoundMana D api slot [acc] b = Inr (b1, allotted)"
    and none: "tb_occurredBuildErr b1 = None"
    and rem: "CalculateAvailableManaRemaining D api slot b1 = Inr r"
  shows "(\<exists>as. b1 = changeTx (\<lambda>t. t\<lparr>te_Allotments := as\<rparr>) b) \<and> (\<forall>k. k \<noteq> acc \<longrightarrow> balanceOf r k = 0)"
proof -
  obtain r0 where r0: "CalculateAvailableManaRemaining D api slot b = Inr r0"
    using run none
    by (auto simp: AllotRemainingAccountBoundMana_def setBuildError_def split: sum.splits fault.splits)
  let ?ms = "filter (\<lambda>(accountID, mana). accountID \<notin> set [acc]) (am_AccountBoundMana r0)"
  have b1: "b1 = fold (\<lambda>(accountID, mana). IncreaseAllotment accountID mana) ?ms b"
    using run by (auto simp: AllotRemainingAccountBoundMana_def r0 Let_def)
  from remaining_Inr [OF D r0] obtain a where a: "CalculateAvailableManaInputs D api slot b = Inr a"
    and keys: "accounts r0 = accounts a" and bal: "\<And>k. balanceOf r0 k = balanceOf a k - demandOf api b k" by blast
  have dist: "distinct (accounts r0)" using inputs_Inr [OF D a] keys by simp
  have small: "balanceOf a k < 2 ^ 64" for k
    using unat_less_pow [where 'w = 64] by (simp add: balanceOf_def split: option.split)
  have fits: "allotDemand i (te_Allotments (tb_transaction b)) + unat m < 2 ^ 64" if m: "(i, m) \<in> set ?ms" "m \<noteq> 0" for i m
  proof -
    have "unat m = balanceOf a i - demandOf api b i"
      using balance_member [OF dist, of i m] m(1) by (simp add: bal)
    moreover have "unat m \<noteq> 0" using m(2) by (simp add: unat_eq_0)
    ultimately show ?thesis using small [of i] by (simp add: demandOf_def)
  qed
  have "distinct (map fst ?ms)" using dist by (simp add: distinct_map_filter)
  from allot_fold [OF this fits] obtain as where
    as: "b1 = changeTx (\<lambda>t. t\<lparr>te_Allotments := as\<rparr>) b"
    and d: "\<And>k. allotDemand k as = allotDemand k (te_Allotments (tb_transaction b))
        + (case map_of ?ms k of Some m \<Rightarrow> unat m | None \<Rightarrow> 0)"
    unfolding b1 by blast
  from remaining_Inr [OF D rem] a have bal2: "\<And>k. balanceOf r k = balanceOf a k - demandOf api b1 k"
    by (auto simp: as)
  have "balanceOf r k = 0" if k: "k \<noteq> acc" for k
  proof (cases "k \<in> set (accounts a)")
    case True
    then obtain m where m: "(k, m) \<in> set (am_AccountBoundMana r0)" unfolding keys [symmetric] by auto
    then have "(k, m) \<in> set ?ms" using k by simp
    then have "map_of ?ms k = Some m"
      using \<open>distinct (map fst ?ms)\<close> by simp
    then have "demandOf api b1 k = demandOf api b k + unat m"
      by (simp add: as demandOf_def outDemand_def d)
    moreover have "unat m = balanceOf a k - demandOf api b k"
      using balance_member [OF dist m] by (simp add: bal)
    ultimately show ?thesis by (simp add: bal2)
  next
    case False
    then have "map_of (am_AccountBoundMana a) k = None" by (simp add: map_of_eq_None_iff)
    then have "balanceOf a k = 0" by (simp add: balanceOf_def)
    then show ?thesis by (simp add: bal2)
  qed
  then show ?thesis using as by blast
qed

section \<open>Storing the remainder\<close>

lemma sum_one:
  assumes "distinct (map fst al)" "\<And>k. k \<noteq> acc \<Longrightarrow> (case map_of al k of Some m \<Rightarrow> unat m | None \<Rightarrow> 0) = (0 :: nat)"
  shows "(\<Sum>(k, m)\<leftarrow>al. unat (m :: u64)) = (case map_of al acc of Some m \<Rightarrow> unat m | None \<Rightarrow> 0)"
  using assms
proof (induction al)
  case (Cons x al)
  obtain i m where x: "x = (i, m)" by (cases x)
  have i: "map_of al i = None" "distinct (map fst al)"
    using Cons.prems(1) by (simp_all add: x map_of_eq_None_iff)
  have rest: "(case map_of al k of Some m \<Rightarrow> unat m | None \<Rightarrow> 0) = (0 :: nat)" if "k \<noteq> acc" for k
    using Cons.prems(2) [OF that] i(1) by (cases "k = i") (auto simp: x)
  show ?case
    using Cons.IH [OF i(2) rest] Cons.prems(2) [of i] i(1) by (cases "i = acc") (auto simp: x)
qed simp

lemma stored_addToOutput:
  assumes "getStoredManaOutputAccountID api idx b = Inr acc"
  shows "idx < length (tx_Outputs (tb_transaction b))
    \<and> outStoredMana (addToOutput v (tx_Outputs (tb_transaction b) ! idx))
      = outStoredMana (tx_Outputs (tb_transaction b) ! idx) + v"
  using assms
  by (cases "tx_Outputs (tb_transaction b) ! idx")
    (auto simp: getStoredManaOutputAccountID_def addToOutput_def Let_def split: if_splits)

lemma storedSum_update:
  assumes "idx < length outs" "unat (outStoredMana out') = unat (outStoredMana (outs ! idx)) + n"
  shows "storedSum (outs[idx := out']) = storedSum outs + n"
  using assms
proof (induction outs arbitrary: idx)
  case (Cons out outs)
  then show ?case by (cases idx) auto
qed simp

text \<open>Storing what remains balances the transaction, up to mana that is bound to other accounts or to the
  empty account ID.\<close>

lemma stored_balance:
  assumes D: "safemath64 D" and run: "storeRemainingManaInOutput D api slot idx acc b = Inr b'"
    and idx: "getStoredManaOutputAccountID api idx b = Inr acc'"
    and rem: "CalculateAvailableManaRemaining D api slot b = Inr r"
    and others: "\<And>k. k \<noteq> acc \<Longrightarrow> balanceOf r k = 0"
    and a: "CalculateAvailableManaInputs D api slot b = Inr a" and fits: "totalOf a < 2 ^ 64"
  shows "storedSum (tx_Outputs (tb_transaction b')) + allotSum (te_Allotments (tb_transaction b'))
      + (if acc = emptyID then balanceOf r emptyID else 0) = totalOf a
    \<and> (\<exists>outs. b' = changeTx (\<lambda>t. t\<lparr>tx_Outputs := outs\<rparr>) b)"
proof -
  let ?outs = "tx_Outputs (tb_transaction b)"
  from remaining_Inr [OF D rem] a have keys: "accounts r = accounts a"
    and total: "totalOf r + storedSum ?outs + allotSum (te_Allotments (tb_transaction b)) = totalOf a" by auto
  define v where "v = am_UnboundMana r + (if acc \<noteq> emptyID then (case map_of (am_AccountBoundMana r) acc of Some m \<Rightarrow> m | None \<Rightarrow> 0) else 0)"
  have b': "b' = changeTx (\<lambda>t. t\<lparr>tx_Outputs := (tx_Outputs t)[idx := addToOutput v (tx_Outputs t ! idx)]\<rparr>) b"
    using run rem conjunct1 [OF stored_addToOutput [OF idx]]
    by (simp add: storeRemainingManaInOutput_def v_def Let_def not_le [symmetric])
  have "distinct (accounts r)" using inputs_Inr [OF D a] keys by simp
  from sum_one [OF this, of acc] others have "(\<Sum>(k, m)\<leftarrow>am_AccountBoundMana r. unat m) = balanceOf r acc"
    by (simp add: balanceOf_def)
  then have r: "totalOf r = unat (am_UnboundMana r) + balanceOf r acc" by (simp add: totalOf_def)
  have "unat (am_UnboundMana r) + balanceOf r acc < 2 ^ 64"
    using total fits r by linarith
  then have v: "unat v + (if acc = emptyID then balanceOf r emptyID else 0) = totalOf r"
    unfolding v_def r by (auto simp: balanceOf_def unat_add_small split: option.split)
  have member: "unat (outStoredMana (?outs ! idx)) \<le> storedSum ?outs"
    using elem_le_sum_list [of idx "map (\<lambda>out. unat (outStoredMana out)) ?outs"] conjunct1 [OF stored_addToOutput [OF idx]]
    by simp
  have "unat (outStoredMana (?outs ! idx)) + unat v < 2 ^ 64"
    using member v total fits by linarith
  then have "unat (outStoredMana (addToOutput v (?outs ! idx))) = unat (outStoredMana (?outs ! idx)) + unat v"
    using stored_addToOutput [OF idx, of v] by (simp add: unat_add_small)
  from storedSum_update [OF _ this] stored_addToOutput [OF idx]
  have "storedSum (tx_Outputs (tb_transaction b')) = storedSum ?outs + unat v" by (simp add: b')
  then show ?thesis using total v b' by auto
qed

section \<open>Both sides are equal\<close>

lemma orSetError_none:
  "orSetError b m f = Inr b' \<Longrightarrow> tb_occurredBuildErr b' = None \<Longrightarrow> \<exists>x. m = Inr x \<and> f x = Inr b'"
  by (auto simp: orSetError_def setBuildError_def split: sum.splits fault.splits)

lemma store_parts:
  assumes "StoreRemainingManaInOutputAndAllotRemainingAccountBoundMana D api slot idx b = Inr b'"
    and "tb_occurredBuildErr b' = None"
  shows "\<exists>acc b1 allotted r. getStoredManaOutputAccountID api idx b = Inr acc
    \<and> AllotRemainingAccountBoundMana D api slot [acc] b = Inr (b1, allotted) \<and> tb_occurredBuildErr b1 = None
    \<and> CalculateAvailableManaRemaining D api slot b1 = Inr r
    \<and> storeRemainingManaInOutput D api slot idx acc b1 = Inr b'"
proof -
  from orSetError_none [OF assms(1) [unfolded StoreRemainingManaInOutputAndAllotRemainingAccountBoundMana_def] assms(2)]
  obtain acc b1 allotted where acc: "getStoredManaOutputAccountID api idx b = Inr acc"
    and b1: "AllotRemainingAccountBoundMana D api slot [acc] b = Inr (b1, allotted)"
    and st: "orSetError b1 (storeRemainingManaInOutput D api slot idx acc b1) Inr = Inr b'"
    by (auto simp: andthen_eq_Inr)
  from orSetError_none [OF st assms(2)] have b': "storeRemainingManaInOutput D api slot idx acc b1 = Inr b'" by simp
  then obtain r where "CalculateAvailableManaRemaining D api slot b1 = Inr r"
      "tb_occurredBuildErr b' = tb_occurredBuildErr b1"
    by (auto simp: storeRemainingManaInOutput_def andthen_eq_Inr if_throw_eq_Inr)
  with acc b1 b' assms(2) show ?thesis by auto
qed

lemma stored_total:
  assumes D: "safemath64 D"
    and run: "StoreRemainingManaInOutputAndAllotRemainingAccountBoundMana D api slot idx b = Inr b'"
    and none: "tb_occurredBuildErr b' = None"
    and tin: "TotalManaIn D (api_ManaDecayProvider api) (api_StorageScoreStructure api) slot (tb_inputs b) rewards = Inr t"
    and rewards: "(\<Sum>w\<leftarrow>rewards. unat (snd w)) = unat (tb_rewards b)"
  shows "\<exists>acc lost. getStoredManaOutputAccountID api idx b = Inr acc
    \<and> storedSum (tx_Outputs (tb_transaction b')) + allotSum (te_Allotments (tb_transaction b')) + lost = unat t
    \<and> (lost \<noteq> 0 \<longrightarrow> acc = emptyID \<and> emptyID \<in> boundIDs (tb_inputs b))
    \<and> (\<exists>as outs. b' = changeTx (\<lambda>t. t\<lparr>te_Allotments := as, tx_Outputs := outs\<rparr>) b)"
proof -
  from store_parts [OF run none] obtain acc b1 allotted r where
    acc: "getStoredManaOutputAccountID api idx b = Inr acc"
    and b1: "AllotRemainingAccountBoundMana D api slot [acc] b = Inr (b1, allotted)" "tb_occurredBuildErr b1 = None"
    and r: "CalculateAvailableManaRemaining D api slot b1 = Inr r"
    and b': "storeRemainingManaInOutput D api slot idx acc b1 = Inr b'" by blast
  from allotted_remaining [OF D b1 r] obtain as where
    as: "b1 = changeTx (\<lambda>t. t\<lparr>te_Allotments := as\<rparr>) b" and others: "\<And>k. k \<noteq> acc \<Longrightarrow> balanceOf r k = 0" by blast
  from remaining_Inr [OF D r] obtain a where a: "CalculateAvailableManaInputs D api slot b1 = Inr a"
    and keys: "accounts r = accounts a" by blast
  note inp = inputs_Inr [OF D a]
  have t: "totalOf a = unat t"
    using inp tin [unfolded TotalManaIn_Inr [OF D]] rewards by (simp add: as)
  have idx: "getStoredManaOutputAccountID api idx b1 = Inr acc"
  proof -
    have "hasManalockCondition api b1 out = hasManalockCondition api b out" for out
      by (simp add: as hasManalockCondition_def)
    then show ?thesis using acc by (simp add: getStoredManaOutputAccountID_def as)
  qed
  have "totalOf a < 2 ^ 64" using t unat_less_pow [of t] by simp
  from stored_balance [OF D b' idx r others a this] obtain outs where
    sum: "storedSum (tx_Outputs (tb_transaction b')) + allotSum (te_Allotments (tb_transaction b'))
      + (if acc = emptyID then balanceOf r emptyID else 0) = unat t"
    and outs: "b' = changeTx (\<lambda>t. t\<lparr>tx_Outputs := outs\<rparr>) b1" by (auto simp: t)
  have "balanceOf r emptyID = 0" if "emptyID \<notin> boundIDs (tb_inputs b)"
  proof -
    have "emptyID \<notin> set (accounts r)" using that inp keys by (simp add: as)
    then have "map_of (am_AccountBoundMana r) emptyID = None" by (simp add: map_of_eq_None_iff)
    then show ?thesis by (simp add: balanceOf_def)
  qed
  then have lost: "(if acc = emptyID then balanceOf r emptyID else 0) \<noteq> 0
      \<longrightarrow> acc = emptyID \<and> emptyID \<in> boundIDs (tb_inputs b)"
    by (cases "emptyID \<in> boundIDs (tb_inputs b)") simp_all
  have "b' = changeTx (\<lambda>t. t\<lparr>te_Allotments := as, tx_Outputs := outs\<rparr>) b"
    by (simp add: outs as)
  with acc sum lost show ?thesis by blast
qed

text \<open>C12: when the builder has allotted the remaining account bound mana and stored the rest in an output
  without an error, the virtual machine finds the same mana on the output side as on the input side, so
  nothing is created and nothing is burned.  Only outputs and allotments of the transaction have changed.
  Two conditions: the rewards the machine is given add up to those the builder was told, and no consumed
  account output still has the empty account ID of a new account, since the mana of such an account is lost
  (@\<open>fresh_account_mana_lost\<close>).\<close>

theorem remainder_stored:
  assumes D: "safemath64 D"
    and run: "StoreRemainingManaInOutputAndAllotRemainingAccountBoundMana D api slot idx b = Inr b'"
    and none: "tb_occurredBuildErr b' = None"
    and tin: "TotalManaIn D (api_ManaDecayProvider api) (api_StorageScoreStructure api) slot (tb_inputs b) rewards = Inr t"
    and rewards: "(\<Sum>w\<leftarrow>rewards. unat (snd w)) = unat (tb_rewards b)"
    and known: "emptyID \<notin> boundIDs (tb_inputs b)"
  shows "TotalManaOut D (tx_Outputs (tb_transaction b')) (te_Allotments (tb_transaction b')) = Inr t
    \<and> (\<exists>as outs. b' = changeTx (\<lambda>t. t\<lparr>te_Allotments := as, tx_Outputs := outs\<rparr>) b)"
proof -
  from stored_total [OF D run none tin rewards] obtain lost as outs where
    "storedSum (tx_Outputs (tb_transaction b')) + allotSum (te_Allotments (tb_transaction b')) + lost = unat t"
    "lost \<noteq> 0 \<longrightarrow> emptyID \<in> boundIDs (tb_inputs b)"
    "b' = changeTx (\<lambda>t. t\<lparr>te_Allotments := as, tx_Outputs := outs\<rparr>) b" by blast
  with known show ?thesis by (auto simp: TotalManaOut_Inr [OF D])
qed

text \<open>An account is spent with 7 mana and 3 mana of rewards, and goes on with 7: the remainder is 3.\<close>

definition demo_building :: tx_builder where
  "demo_building = SetCreationSlot 20 (AddOutput (AccountO demo_issuer) (AddRewardInput 0 3 (AddInput
     \<lparr>ti_UnlockTarget = demo_owner, ti_InputID = demo_id, ti_Input = AccountO demo_issuer\<rparr>
     (NewTransactionBuilder demo_block_api None))))"

lemma demo_building_sel [simp]:
  "tb_inputs demo_building = [(demo_id, AccountO demo_issuer)]" "tb_rewards demo_building = 3"
  "tx_Outputs (tb_transaction demo_building) = [AccountO demo_issuer]"
  "te_Allotments (tb_transaction demo_building) = []" "tb_occurredBuildErr demo_building = None"
  by (simp_all add: demo_building_def SetCreationSlot_def AddOutput_def AddRewardInput_def AddInput_def
      NewTransactionBuilder_def)

lemma demo_block_api_sel [simp]:
  "api_ManaDecayProvider demo_block_api = demo_mana" "api_StorageScoreStructure demo_block_api = demo_structure"
  by (simp_all add: demo_block_api_def syntax_api_def demo_api_def ledger_api.defs)

lemma demo_available:
  "\<exists>r. CalculateAvailableManaRemaining ref_ledger demo_block_api 20 demo_building = Inr r
    \<and> am_UnboundMana r = 3 \<and> am_AccountBoundMana r = [([9], 0)]"
  by (simp add: CalculateAvailableManaRemaining_def CalculateAvailableManaInputs_def availableStep_def
      AddPotentialMana_def AddStoredMana_def addTotalMana_def AddAccountBoundMana_def AddRewards_def addUnboundMana_def
      noManaYet_def ref_add_def subtractOutput_def updateUnboundAndAccountBoundManaBalances_def)

theorem remainder_stored_witness:
  "\<exists>b'. StoreRemainingManaInOutputAndAllotRemainingAccountBoundMana ref_ledger demo_block_api 20 0 demo_building = Inr b'
    \<and> TotalManaOut ref_ledger (tx_Outputs (tb_transaction b')) (te_Allotments (tb_transaction b')) = Inr 10"
proof -
  obtain r where r: "CalculateAvailableManaRemaining ref_ledger demo_block_api 20 demo_building = Inr r"
      "am_UnboundMana r = 3" "am_AccountBoundMana r = [([9], 0)]" using demo_available by blast
  obtain b' where b': "StoreRemainingManaInOutputAndAllotRemainingAccountBoundMana ref_ledger demo_block_api 20 0 demo_building = Inr b'"
      "tb_occurredBuildErr b' = None"
    by (simp add: StoreRemainingManaInOutputAndAllotRemainingAccountBoundMana_def getStoredManaOutputAccountID_def
        orSetError_def AllotRemainingAccountBoundMana_def r storeRemainingManaInOutput_def)
  have "TotalManaIn ref_ledger demo_mana demo_structure 20 (tb_inputs demo_building) [(AccountIDc [9], 3)] = Inr 10"
    by (simp add: TotalManaIn_Inr [OF ref_ledger_safemath(1)] inputMana_def)
  moreover have "emptyID \<noteq> [9]" by (rule notI, drule arg_cong [of _ _ length]) simp
  ultimately have "TotalManaOut ref_ledger (tx_Outputs (tb_transaction b')) (te_Allotments (tb_transaction b')) = Inr 10"
    using remainder_stored [OF ref_ledger_safemath(1) b', of "[(AccountIDc [9], 3)]" 10] by (simp add: boundIDs_def)
  with b' show ?thesis by blast
qed

text \<open>The same account just created, so that its output still has the empty ID: the 7 mana in it are neither
  allotted nor stored, and only the rewards arrive on the output side.\<close>

definition demo_fresh :: ledger_output where
  "demo_fresh = AccountO (demo_issuer\<lparr>ao_AccountID := emptyID\<rparr>)"

definition demo_fresh_building :: tx_builder where
  "demo_fresh_building = SetCreationSlot 20 (AddOutput
     (BasicO \<lparr>bo_Amount = 5, bo_Mana = 0, bo_UnlockConditions = [AddressUC demo_owner], bo_Features = []\<rparr>)
     (AddRewardInput 0 3 (AddInput \<lparr>ti_UnlockTarget = demo_owner, ti_InputID = demo_id, ti_Input = demo_fresh\<rparr>
     (NewTransactionBuilder demo_block_api None))))"

lemma demo_fresh_potential [simp]: "PotentialMana ref_ledger demo_mana demo_structure demo_fresh a b = Inr 0"
proof -
  have "MinDeposit ref_ledger demo_structure demo_fresh = MinDeposit ref_ledger demo_structure (AccountO demo_issuer)"
    by (simp add: MinDeposit_def demo_fresh_def outStorageScore_def accountStorageScore_def accountSize_def)
  then show ?thesis using demo_issuer_potential [of a b] by (simp add: PotentialMana_def demo_fresh_def)
qed

lemma demo_fresh_building_sel [simp]:
  "tb_inputs demo_fresh_building = [(demo_id, demo_fresh)]" "tb_rewards demo_fresh_building = 3"
  "tx_Outputs (tb_transaction demo_fresh_building)
     = [BasicO \<lparr>bo_Amount = 5, bo_Mana = 0, bo_UnlockConditions = [AddressUC demo_owner], bo_Features = []\<rparr>]"
  "te_Allotments (tb_transaction demo_fresh_building) = []" "tb_occurredBuildErr demo_fresh_building = None"
  by (simp_all add: demo_fresh_building_def SetCreationSlot_def AddOutput_def AddRewardInput_def AddInput_def
      NewTransactionBuilder_def)

lemma demo_fresh_lock [simp]: "hasManalockCondition demo_block_api demo_fresh_building
    (BasicO \<lparr>bo_Amount = 5, bo_Mana = 0, bo_UnlockConditions = [AddressUC demo_owner], bo_Features = []\<rparr>) = Inr None"
  by (simp add: hasManalockCondition_def outUCSet_def ucsMustSet_eq HasTimelockUntil_def ucTimelock_def)

lemma demo_fresh_available:
  "\<exists>r. CalculateAvailableManaRemaining ref_ledger demo_block_api 20 demo_fresh_building = Inr r
    \<and> am_UnboundMana r = 3 \<and> am_AccountBoundMana r = [(emptyID, 7)]"
  by (simp add: CalculateAvailableManaRemaining_def CalculateAvailableManaInputs_def availableStep_def
      AddPotentialMana_def AddStoredMana_def addTotalMana_def AddAccountBoundMana_def AddRewards_def addUnboundMana_def
      noManaYet_def ref_add_def ref_sub_def subtractOutput_def subtractUnbound_def demo_fresh_potential [unfolded demo_fresh_def]
      demo_fresh_def)

theorem fresh_account_mana_lost:
  "TotalManaIn ref_ledger demo_mana demo_structure 20 (tb_inputs demo_fresh_building) [(AccountIDc emptyID, 3)] = Inr 10
   \<and> (\<exists>b'. StoreRemainingManaInOutputAndAllotRemainingAccountBoundMana ref_ledger demo_block_api 20 0 demo_fresh_building = Inr b'
      \<and> tb_occurredBuildErr b' = None
      \<and> TotalManaOut ref_ledger (tx_Outputs (tb_transaction b')) (te_Allotments (tb_transaction b')) = Inr 3)"
proof -
  obtain r where r: "CalculateAvailableManaRemaining ref_ledger demo_block_api 20 demo_fresh_building = Inr r"
      "am_UnboundMana r = 3" "am_AccountBoundMana r = [(emptyID, 7)]" using demo_fresh_available by blast
  have "TotalManaIn ref_ledger demo_mana demo_structure 20 (tb_inputs demo_fresh_building) [(AccountIDc emptyID, 3)] = Inr 10"
    by (simp add: TotalManaIn_Inr [OF ref_ledger_safemath(1)] inputMana_def) (simp add: demo_fresh_def)
  moreover have "\<exists>b'. StoreRemainingManaInOutputAndAllotRemainingAccountBoundMana ref_ledger demo_block_api 20 0 demo_fresh_building = Inr b'
      \<and> tb_occurredBuildErr b' = None
      \<and> TotalManaOut ref_ledger (tx_Outputs (tb_transaction b')) (te_Allotments (tb_transaction b')) = Inr 3"
    by (simp add: StoreRemainingManaInOutputAndAllotRemainingAccountBoundMana_def getStoredManaOutputAccountID_def
        orSetError_def AllotRemainingAccountBoundMana_def r storeRemainingManaInOutput_def addToOutput_def
        TotalManaOut_Inr [OF ref_ledger_safemath(1)])
  ultimately show ?thesis by blast
qed

end
