(* ===== verification/Tx_Builder_Unlocks.thy ===== *)
theory Tx_Builder_Unlocks
  imports Tx_Builder Nova_Rules
begin

text \<open>
  The unlocks of the transaction builder against the two checks they go through: the validator of the syntax
  of unlocks (unlock.go) and the unlocking of inputs in the virtual machine (vm/vm.go).  Both are
  simulations, step by step over the inputs, of the set the builder keeps by the state the check keeps.
  They rest on the contract of the signer only; the signer in memory has it.
\<close>

section \<open>A step of the builder\<close>

lemma addReferentialUnlock_eq:
  "addReferentialUnlock a j u = addUnlock
     (case a of AccountAddress _ \<Rightarrow> AccountUnlock (word_of_nat j) | AnchorAddress _ \<Rightarrow> AnchorUnlock (word_of_nat j)
      | NFTAddress _ \<Rightarrow> NFTUnlock (word_of_nat j) | _ \<Rightarrow> ReferenceUnlock (word_of_nat j)) u"
  by (cases a) (simp_all add: addReferentialUnlock_def)

definition markChain :: "'a ledger_deps_scheme \<Rightarrow> address option \<Rightarrow> nat \<Rightarrow> unlocked_set \<Rightarrow> unlocked_set" where
  "markChain D c n u = (case c of None \<Rightarrow> u
     | Some a \<Rightarrow> u\<lparr>tus_unlockedChains := (tus_unlockedChains u)(addrKey D a \<mapsto> n)\<rparr>)"

lemma markChain_sel [simp]:
  "tus_unlocks (markChain D c n u) = tus_unlocks u" "tus_signerUIDs (markChain D c n u) = tus_signerUIDs u"
  by (simp_all add: markChain_def split: option.split)

lemma addUnlock_sel [simp]:
  "tus_unlocks (addUnlock v u) = tus_unlocks u @ [v]" "tus_signerUIDs (addUnlock v u) = tus_signerUIDs u"
  "tus_unlockedChains (addUnlock v u) = tus_unlockedChains u"
  "tus_unlocks (addSignerUID i n u) = tus_unlocks u" "tus_signerUIDs (addSignerUID i n u) = (tus_signerUIDs u)(i \<mapsto> n)"
  "tus_unlockedChains (addSignerUID i n u) = tus_unlockedChains u"
  by (simp_all add: addUnlock_def addSignerUID_def)

text \<open>The referential unlock a step adds fits the owner.\<close>

definition refersFor :: "address \<Rightarrow> nat \<Rightarrow> unlock \<Rightarrow> bool" where
  "refersFor owner j v \<longleftrightarrow> ReferencedInputIndex v = Some (word_of_nat j) \<and> SourceAllowed v owner
     \<and> Chainable v = isChainAddress owner"

lemma refersFor_unlock:
  assumes "isChainAddress a \<or> isDirectUnlockable a"
  shows "\<exists>v. addReferentialUnlock a j u = addUnlock v u \<and> refersFor a j v"
  using assms
  by (cases a) (auto simp: addReferentialUnlock_def refersFor_def ReferencedInputIndex_def SourceAllowed_def Chainable_def
      isChainAddress_def isDirectUnlockable_def)

text \<open>The three ways an input is unlocked.\<close>

lemma buildUnlock_step:
  assumes "buildUnlock D S True msg owners u (n, i, out) = Inr u'"
  shows "\<exists>a owner c. owners (inOutputID i) = Some a \<and> owner = resolveUnderlyingAddress a \<and> unlockedChainOf D out = Inr c
    \<and> (isChainAddress owner \<and> (\<exists>j v. tus_unlockedChains u (addrKey D owner) = Some j \<and> refersFor owner j v
            \<and> u' = markChain D c n (addUnlock v u))
       \<or> isDirectUnlockable owner \<and> \<not> isChainAddress owner \<and> (\<exists>i. SignerUIDForAddress S owner = Inr i
            \<and> (tus_signerUIDs u i = None \<and> (\<exists>sig. signFor S owner msg = Inr sig
                  \<and> u' = markChain D c n (addSignerUID i n (addUnlock (SignatureUnlock (Some sig)) u)))
               \<or> (\<exists>j v. tus_signerUIDs u i = Some j \<and> refersFor owner j v \<and> u' = markChain D c n (addUnlock v u)))))"
proof -
  obtain a where a: "owners (inOutputID i) = Some a"
    using assms by (auto simp: buildUnlock_def andthen_eq_Inr derefG_def split: option.splits)
  define owner where "owner = resolveUnderlyingAddress a"
  have mark: "\<exists>c. unlockedChainOf D out = Inr c \<and> w' = markChain D c n w" if "addChainAsUnlocked D out n w = Inr w'" for w w'
    using that by (auto simp: addChainAsUnlocked_def andthen_eq_Inr markChain_def)
  show ?thesis
  proof (cases "isChainAddress owner")
    case True
    with assms obtain j where j: "tus_unlockedChains u (addrKey D owner) = Some j"
        "addChainAsUnlocked D out n (addReferentialUnlock owner j u) = Inr u'"
      by (auto simp: buildUnlock_def a derefG_def owner_def [symmetric] isChainUnlocked_def split: option.splits)
    from refersFor_unlock [of owner j u] True mark [OF j(2)] j(1) a show ?thesis
      by (auto simp: owner_def)
  next
    case False
    with assms obtain i w where d: "isDirectUnlockable owner" "SignerUIDForAddress S owner = Inr i"
      and w: "(case tus_signerUIDs u i of
              None \<Rightarrow> andthen (wrapE ''failed to sign transaction'' (signFor S owner msg)) (\<lambda>signature.
                Inr (addSignerUID i n (addUnlock (SignatureUnlock (Some signature)) u)))
            | Some j \<Rightarrow> Inr (addReferentialUnlock owner j u)) = Inr w"
      and u': "addChainAsUnlocked D out n w = Inr u'"
      unfolding buildUnlock_def if_True by (auto simp: a derefG_def owner_def [symmetric] andthen_eq_Inr if_throw_eq_Inr)
    from mark [OF u'] obtain c where c: "unlockedChainOf D out = Inr c" "u' = markChain D c n w" by blast
    show ?thesis
    proof (cases "tus_signerUIDs u i")
      case None
      with w obtain sig where "signFor S owner msg = Inr sig"
          "w = addSignerUID i n (addUnlock (SignatureUnlock (Some sig)) u)" by (auto simp: andthen_eq_Inr)
      with None d c a False show ?thesis by (auto simp: owner_def)
    next
      case (Some j)
      with w refersFor_unlock [of owner j u] d obtain v where "refersFor owner j v" "w = addUnlock v u" by auto
      with Some d c a False show ?thesis by (auto simp: owner_def)
    qed
  qed
qed

lemma buildUnlock_length:
  "buildUnlock D S True msg owners u (n, x) = Inr u' \<Longrightarrow> \<exists>v. tus_unlocks u' = tus_unlocks u @ [v]"
  using buildUnlock_step [of D S msg owners u n "fst x" "snd x" u'] by auto

lemma buildUnlocks_prefix:
  "foldG (buildUnlock D S True msg owners) u (List.enumerate n xs) = Inr u' \<Longrightarrow>
    \<exists>vs. tus_unlocks u' = tus_unlocks u @ vs \<and> length vs = length xs"
proof (induction xs arbitrary: n u)
  case (Cons x xs)
  from Cons.prems obtain w where w: "buildUnlock D S True msg owners u (n, x) = Inr w"
      "foldG (buildUnlock D S True msg owners) w (List.enumerate (Suc n) xs) = Inr u'"
    by (auto simp: andthen_eq_Inr)
  from buildUnlock_length [OF w(1)] Cons.IH [OF w(2)] show ?case by fastforce
qed simp

section \<open>The syntax of the unlocks\<close>

definition syntaxState :: "'a tx_deps_scheme \<Rightarrow> nat \<Rightarrow> unlocked_set \<Rightarrow> unlocks_seen \<Rightarrow> bool" where
  "syntaxState D n u s \<longleftrightarrow> length (tus_unlocks u) = n \<and> seenInv D (tus_unlocks u) s
     \<and> innerSigners D (tus_unlocks u) = [] \<and> set (outerSigners D (tus_unlocks u)) = dom (tus_signerUIDs u)
     \<and> (\<forall>v \<in> set (tus_unlocks u). isSig v \<or> isRef v)
     \<and> (\<forall>i j. tus_signerUIDs u i = Some j \<longrightarrow> j < n \<and> isSig (tus_unlocks u ! j))
     \<and> (\<forall>k j. tus_unlockedChains u k = Some j \<longrightarrow> j < n)"

lemma signature_accepted:
  assumes "seenInv D ys s" "SignerUID D sg \<notin> set (outerSigners D ys)" "SignerUID D sg \<notin> set (innerSigners D ys)"
  shows "\<exists>s'. signatureUnlockStep D s n (Some sg) = Inr s'"
proof -
  have "SignerUID D sg \<notin> dom (seenSignerUIDs s)" "SignerUID D sg \<notin> dom (seenSignerUIDsInMultiUnlocks s)"
    using assms by (simp_all add: seenInv_def)
  then have "seenSignerUIDs s (SignerUID D sg) = None" "seenSignerUIDsInMultiUnlocks s (SignerUID D sg) = None"
    by (simp_all add: domIff)
  then show ?thesis by (simp add: signatureUnlockStep_def Let_def)
qed

lemma reference_accepted:
  assumes "seenInv D ys s" "length ys \<le> 65536" "unat r < length ys"
    and "isSig (ys ! unat r) \<or> isRef (ys ! unat r) \<and> chainable"
  shows "\<exists>s'. referentialUnlockStep s n r chainable = Inr s'"
  using assms(3,4) seen_mem [OF assms(1,2), of r]
  by (auto simp: referentialUnlockStep_def Let_def isSig_def isRef_def ReferencedInputIndex_def split: unlock.splits)

lemma markChain_chains:
  "(\<And>k j. tus_unlockedChains u k = Some j \<Longrightarrow> j \<le> n) \<Longrightarrow> tus_unlockedChains (markChain D c n u) k = Some j \<Longrightarrow> j \<le> n"
  by (auto simp: markChain_def split: option.splits if_splits)

lemma syntax_step_ref:
  assumes R: "syntaxState D n u s" and n: "n \<le> 65535" and j: "j < n"
    and v: "ReferencedInputIndex v = Some (word_of_nat j)" and src: "isSig (tus_unlocks u ! j) \<or> Chainable v"
  shows "\<exists>s'. SignaturesUniqueAndReferenceUnlocksValidator D s n v = Inr s'
    \<and> syntaxState D (Suc n) (markChain D c n (addUnlock v u)) s'"
proof -
  let ?ys = "tus_unlocks u"
  have inv: "seenInv D ?ys s" "length ?ys = n" using R by (simp_all add: syntaxState_def)
  have w: "unat (word_of_nat j :: u16) = j" using j n by (simp add: unat_of_nat)
  have "isSig (?ys ! j) \<or> isRef (?ys ! j) \<and> Chainable v"
    using src R j inv(2) by (auto simp: syntaxState_def)
  with reference_accepted [OF inv(1), of "word_of_nat j" "Chainable v" n] w j n inv(2)
  obtain s' where s': "referentialUnlockStep s n (word_of_nat j) (Chainable v) = Inr s'" by auto
  have run: "SignaturesUniqueAndReferenceUnlocksValidator D s n v = Inr s'"
    using s' v by (cases v) (simp_all add: SignaturesUniqueAndReferenceUnlocksValidator_def ReferencedInputIndex_def)
  have "seenInv D (?ys @ [v]) s'"
    by (rule referential_step [OF inv(1) _ v]) (use s' n inv(2) in simp_all)
  moreover have "signersOf D v = []" "membersOf v = []" "isRef v"
    using v by (cases v; simp add: ReferencedInputIndex_def isRef_def)+
  moreover have "l < Suc n" if "tus_unlockedChains (markChain D c n (addUnlock v u)) k = Some l" for k l
    using markChain_chains [of "addUnlock v u" n D c k l] that R by (fastforce simp: syntaxState_def)
  moreover have "l < Suc n \<and> isSig ((?ys @ [v]) ! l)" if "tus_signerUIDs u i = Some l" for i l
    using that R inv(2) by (auto simp: syntaxState_def nth_append less_SucI)
  ultimately show ?thesis
    using R run by (intro exI [of _ s']) (simp add: syntaxState_def)
qed

lemma syntax_step_sig:
  assumes R: "syntaxState D n u s" and n: "n \<le> 65535" and new: "tus_signerUIDs u i = None" and i: "SignerUID D sig = i"
  shows "\<exists>s'. SignaturesUniqueAndReferenceUnlocksValidator D s n (SignatureUnlock (Some sig)) = Inr s'
    \<and> syntaxState D (Suc n) (markChain D c n (addSignerUID i n (addUnlock (SignatureUnlock (Some sig)) u))) s'"
proof -
  let ?ys = "tus_unlocks u" and ?v = "SignatureUnlock (Some sig)"
  have inv: "seenInv D ?ys s" "length ?ys = n" using R by (simp_all add: syntaxState_def)
  have "SignerUID D sig \<notin> set (outerSigners D ?ys)" "SignerUID D sig \<notin> set (innerSigners D ?ys)"
    using R new i by (auto simp: syntaxState_def)
  from signature_accepted [OF inv(1) this] obtain s' where s': "signatureUnlockStep D s n (Some sig) = Inr s'" by blast
  have "seenInv D (?ys @ [?v]) s'"
    using signature_step [OF inv(1), of "Some sig" s'] s' inv(2) by simp
  moreover have "l < Suc n" if "tus_unlockedChains (markChain D c n (addSignerUID i n (addUnlock ?v u))) k = Some l" for k l
    using markChain_chains [of "addSignerUID i n (addUnlock ?v u)" n D c k l] that R by (fastforce simp: syntaxState_def)
  moreover have "l < Suc n \<and> isSig ((?ys @ [?v]) ! l)" if "((tus_signerUIDs u)(i \<mapsto> n)) m = Some l" for m l
    using that R inv(2) by (auto simp: syntaxState_def nth_append isSig_def split: if_splits)
  ultimately show ?thesis
    using R s' i by (intro exI [of _ s'])
      (simp add: syntaxState_def SignaturesUniqueAndReferenceUnlocksValidator_def isSig_def)
qed

text \<open>A signer whose signatures go into transactions.\<close>

locale tx_signer = signer D "SignerUIDForAddress S" "signFor S" good
  for D :: "'a tx_deps_scheme" and S :: address_signer and good :: "address \<Rightarrow> bool"
begin

lemma unlocks_syntax:
  assumes "foldG (buildUnlock D S True msg owners) u (List.enumerate n xs) = Inr u'"
    and "syntaxState D n u s" and "n + length xs \<le> 65536"
  shows "\<exists>vs s'. tus_unlocks u' = tus_unlocks u @ vs
    \<and> foldG (\<lambda>s (i, v). SignaturesUniqueAndReferenceUnlocksValidator D s i v) s (List.enumerate n vs) = Inr s'"
  using assms
proof (induction xs arbitrary: n u s)
  case Nil
  then show ?case by auto
next
  case (Cons x xs)
  obtain i out where x: "x = (i, out)" by (cases x)
  from Cons.prems(1) obtain w where w: "buildUnlock D S True msg owners u (n, i, out) = Inr w"
      "foldG (buildUnlock D S True msg owners) w (List.enumerate (Suc n) xs) = Inr u'"
    by (auto simp: x andthen_eq_Inr)
  note R = Cons.prems(2)
  have n: "n \<le> 65535" using Cons.prems(3) by simp
  have "\<exists>v t. tus_unlocks w = tus_unlocks u @ [v] \<and> SignaturesUniqueAndReferenceUnlocksValidator D s n v = Inr t
      \<and> syntaxState D (Suc n) w t"
  proof -
    from buildUnlock_step [OF w(1)] obtain owner c where step:
      "(isChainAddress owner \<and> (\<exists>j v. tus_unlockedChains u (addrKey D owner) = Some j \<and> refersFor owner j v
            \<and> w = markChain D c n (addUnlock v u)))
       \<or> isDirectUnlockable owner \<and> \<not> isChainAddress owner \<and> (\<exists>i. SignerUIDForAddress S owner = Inr i
            \<and> (tus_signerUIDs u i = None \<and> (\<exists>sig. signFor S owner msg = Inr sig
                  \<and> w = markChain D c n (addSignerUID i n (addUnlock (SignatureUnlock (Some sig)) u)))
               \<or> (\<exists>j v. tus_signerUIDs u i = Some j \<and> refersFor owner j v \<and> w = markChain D c n (addUnlock v u))))"
      by blast
    then consider j v where "tus_unlockedChains u (addrKey D owner) = Some j" "refersFor owner j v" "isChainAddress owner"
        "w = markChain D c n (addUnlock v u)"
      | i sig where "SignerUIDForAddress S owner = Inr i" "tus_signerUIDs u i = None" "signFor S owner msg = Inr sig"
        "w = markChain D c n (addSignerUID i n (addUnlock (SignatureUnlock (Some sig)) u))"
      | i j v where "tus_signerUIDs u i = Some j" "refersFor owner j v" "w = markChain D c n (addUnlock v u)"
      by blast
    then show ?thesis
    proof cases
      case 1
      then have "j < n" "ReferencedInputIndex v = Some (word_of_nat j)" "Chainable v"
        using R by (auto simp: syntaxState_def refersFor_def)
      with syntax_step_ref [OF R n, of j v c] 1(4) show ?thesis by auto
    next
      case 2
      from syntax_step_sig [OF R n 2(2) uid_law [OF 2(1,3)], of c] 2(4) show ?thesis by auto
    next
      case 3
      then have "j < n" "ReferencedInputIndex v = Some (word_of_nat j)" "isSig (tus_unlocks u ! j)"
        using R by (auto simp: syntaxState_def refersFor_def)
      with syntax_step_ref [OF R n, of j v c] 3(3) show ?thesis by auto
    qed
  qed
  then obtain v t where v: "tus_unlocks w = tus_unlocks u @ [v]"
      "SignaturesUniqueAndReferenceUnlocksValidator D s n v = Inr t" "syntaxState D (Suc n) w t" by blast
  from Cons.IH [OF w(2) v(3)] Cons.prems(3) obtain vs s' where
    "tus_unlocks u' = tus_unlocks w @ vs"
    "foldG (\<lambda>s (i, v). SignaturesUniqueAndReferenceUnlocksValidator D s i v) t (List.enumerate (Suc n) vs) = Inr s'" by auto
  with v show ?case by (intro exI [of _ "v # vs"] exI [of _ s']) simp
qed

lemma built_syntax:
  assumes "buildUnlocks D S True b = Inr st" "length (te_Inputs (st_Transaction st)) \<le> 65536"
  shows "ValidateUnlocksSyntax D (st_Unlocks st) = Inr () \<and> length (st_Unlocks st) = length (te_Inputs (st_Transaction st))"
proof -
  let ?t = "tb_transaction b"
  let ?xs = "zip (te_Inputs ?t) (map (\<lambda>i. map_of (tb_inputs b) (inOutputID i)) (te_Inputs ?t))"
  obtain msg u where run: "foldG (buildUnlock D S True msg (tb_inputOwner b)) nothingUnlocked (List.enumerate 0 ?xs) = Inr u"
    and st: "st = \<lparr>st_Transaction = ?t, st_Unlocks = tus_unlocks u\<rparr>"
    using assms(1) by (auto simp: buildUnlocks_def Let_def andthen_eq_Inr)
  have "syntaxState D 0 nothingUnlocked nothingSeen"
    by (simp add: syntaxState_def nothingUnlocked_def seenInv_def nothingSeen_def outerSigners_def innerSigners_def
        map_filter_simps)
  from unlocks_syntax [OF run this] assms(2) st obtain s' where
    "foldG (\<lambda>s (i, v). SignaturesUniqueAndReferenceUnlocksValidator D s i v) nothingSeen (List.enumerate 0 (tus_unlocks u)) = Inr s'"
    by (auto simp: nothingUnlocked_def)
  moreover have "length (tus_unlocks u) = length ?xs"
    using buildUnlocks_prefix [OF run] by (auto simp: nothingUnlocked_def)
  ultimately show ?thesis by (simp add: st ValidateUnlocksSyntax_def SliceValidator_def)
qed

end

section \<open>The unlocking in the virtual machine\<close>

text \<open>What the builder remembers is in the set of unlocked addresses: the signature of every signer under the
  index of its input, every chain under its key and with the same index, and no direct address whose signer
  the builder does not know.\<close>

definition entryAt :: "unlocked_addresses_set \<Rightarrow> nat \<Rightarrow> nat \<Rightarrow> bool" where
  "entryAt s p j \<longleftrightarrow> p < length (us_heap s) \<and> ua_UnlockedAtInputIndex (us_heap s ! p) = word_of_nat j"

definition signersIn :: "'a ledger_deps_scheme \<Rightarrow> nat \<Rightarrow> unlocked_set \<Rightarrow> unlocked_addresses_set \<Rightarrow> bool" where
  "signersIn D n u s \<longleftrightarrow> (\<forall>i j. tus_signerUIDs u i = Some j \<longrightarrow> j < n \<and> (\<exists>p sg.
     us_SignatureUnlockedAddrsByIndex s (word_of_nat j) = Some (p, sg) \<and> entryAt s p j \<and> SignerUID D sg = i))"

definition chainsIn :: "'a ledger_deps_scheme \<Rightarrow> unlocked_set \<Rightarrow> unlocked_addresses_set \<Rightarrow> bool" where
  "chainsIn D u s \<longleftrightarrow> (\<forall>k j. tus_unlockedChains u k = Some j \<longrightarrow> (\<exists>a. isChainAddress a \<and> k = addrKey D a)
     \<and> (\<exists>p. us_UnlockedAddrsByAddrKey s k = Some p \<and> entryAt s p j))"

definition directsKnown :: "'a ledger_deps_scheme \<Rightarrow> address_signer \<Rightarrow> unlocked_set \<Rightarrow> unlocked_addresses_set \<Rightarrow> bool" where
  "directsKnown D S u s \<longleftrightarrow> (\<forall>a. isDirectUnlockable a \<longrightarrow> us_UnlockedAddrsByAddrKey s (addrKey D a) \<noteq> None \<longrightarrow>
     (\<exists>i. SignerUIDForAddress S a = Inr i \<and> tus_signerUIDs u i \<noteq> None))"

definition machineState ::
    "'a ledger_deps_scheme \<Rightarrow> address_signer \<Rightarrow> nat \<Rightarrow> unlocked_set \<Rightarrow> unlocked_addresses_set \<Rightarrow> bool" where
  "machineState D S n u s \<longleftrightarrow> signersIn D n u s \<and> chainsIn D u s \<and> directsKnown D S u s"

lemma builderReference_sel [simp]:
  "us_SignatureUnlockedAddrsByIndex (addReference q m s) = us_SignatureUnlockedAddrsByIndex s"
  "us_UnlockedAddrsByAddrKey (addReference q m s) = us_UnlockedAddrsByAddrKey s"
  "length (us_heap (addReference q m s)) = length (us_heap s)"
  by (simp_all add: addReference_def)

lemma entryAt_addReference [simp]: "entryAt (addReference q m s) p j \<longleftrightarrow> entryAt s p j"
  by (cases "p = q") (auto simp: entryAt_def addReference_def nth_list_update)

lemma entryAt_signature [simp]: "entryAt (s\<lparr>us_SignatureUnlockedAddrsByIndex := m\<rparr>) p j \<longleftrightarrow> entryAt s p j"
  by (simp add: entryAt_def)

lemma entryAt_addUnlocked: "entryAt s p j \<Longrightarrow> entryAt (addUnlocked D a i s) p j"
  by (auto simp: entryAt_def addUnlocked_def nth_append)

lemma entryAt_new: "entryAt (addUnlocked D a (word_of_nat n) s) (length (us_heap s)) n"
  by (simp add: entryAt_def addUnlocked_def newUnlocked_def)

lemma addUnlocked_sel [simp]:
  "us_SignatureUnlockedAddrsByIndex (addUnlocked D a i s) = us_SignatureUnlockedAddrsByIndex s"
  "us_UnlockedAddrsByAddrKey (addUnlocked D a i s) = (us_UnlockedAddrsByAddrKey s)(addrKey D a \<mapsto> length (us_heap s))"
  by (simp_all add: addUnlocked_def)

text \<open>The keys of direct and chain addresses are distinct: a byte for the type and the 32 bytes of the address.\<close>

abbreviation keysDistinct :: "'a ledger_deps_scheme \<Rightarrow> bool" where
  "keysDistinct D \<equiv> inj_on (addrKey D) {a. isDirectUnlockable a \<or> isChainAddress a}"

lemma chain_not_direct: "isChainAddress a \<Longrightarrow> \<not> isDirectUnlockable a"
  by (cases a) (simp_all add: isChainAddress_def isDirectUnlockable_def)

lemma keysDistinct_iff:
  "keysDistinct D \<Longrightarrow> isDirectUnlockable a \<or> isChainAddress a \<Longrightarrow> isDirectUnlockable b \<or> isChainAddress b \<Longrightarrow>
    addrKey D a = addrKey D b \<longleftrightarrow> a = b"
  by (auto dest: inj_onD)

lemma unlockedChainOf_chain:
  assumes "unlockedChainOf D out = Inr (Some a)"
  shows "isChainAddress a"
proof -
  obtain c where "chainToAddress c = Inr a"
    using assms by (auto simp: unlockedChainOf_def andthen_eq_Inr split: option.splits if_splits)
  then show ?thesis by (cases c) (auto simp: chainToAddress_def isChainAddress_def)
qed

text \<open>What a new entry under one key leaves of the three parts.\<close>

lemma signersIn_mono: "signersIn D n u s \<Longrightarrow> n \<le> m \<Longrightarrow> tus_signerUIDs u' = tus_signerUIDs u \<Longrightarrow>
    us_SignatureUnlockedAddrsByIndex s' = us_SignatureUnlockedAddrsByIndex s \<Longrightarrow>
    (\<And>p j. entryAt s p j \<Longrightarrow> entryAt s' p j) \<Longrightarrow> signersIn D m u' s'"
  unfolding signersIn_def by (metis order_less_le_trans)

lemma chainsIn_other:
  assumes "chainsIn D u s" "keysDistinct D" "isDirectUnlockable a"
  shows "chainsIn D u (addUnlocked D a m s)"
  unfolding chainsIn_def
proof (intro allI impI conjI)
  fix k j assume k: "tus_unlockedChains u k = Some j"
  with assms(1) obtain b p where b: "isChainAddress b" "k = addrKey D b" "us_UnlockedAddrsByAddrKey s k = Some p" "entryAt s p j"
    unfolding chainsIn_def by blast
  then show "\<exists>a. isChainAddress a \<and> k = addrKey D a" by blast
  have "addrKey D b \<noteq> addrKey D a"
    using keysDistinct_iff [OF assms(2), of b a] b(1) assms(3) chain_not_direct by blast
  with b show "\<exists>p. us_UnlockedAddrsByAddrKey (addUnlocked D a m s) k = Some p \<and> entryAt (addUnlocked D a m s) p j"
    using entryAt_addUnlocked by (intro exI [of _ p]) simp
qed

lemma directsKnown_add:
  assumes "directsKnown D S u s" "keysDistinct D" "isDirectUnlockable a" "SignerUIDForAddress S a = Inr i"
    and u': "\<And>i. tus_signerUIDs u i \<noteq> None \<Longrightarrow> tus_signerUIDs u' i \<noteq> None" "tus_signerUIDs u' i \<noteq> None"
  shows "directsKnown D S u' (addUnlocked D a m s)"
  unfolding directsKnown_def
proof (intro allI impI)
  fix b assume b: "isDirectUnlockable b" "us_UnlockedAddrsByAddrKey (addUnlocked D a m s) (addrKey D b) \<noteq> None"
  show "\<exists>i. SignerUIDForAddress S b = Inr i \<and> tus_signerUIDs u' i \<noteq> None"
  proof (cases "b = a")
    case True
    then show ?thesis using assms(4) u'(2) by blast
  next
    case False
    then have "addrKey D b \<noteq> addrKey D a" using keysDistinct_iff [OF assms(2), of b a] b(1) assms(3) by blast
    with b(2) have "us_UnlockedAddrsByAddrKey s (addrKey D b) \<noteq> None" by simp
    with assms(1) b(1) u'(1) show ?thesis unfolding directsKnown_def by blast
  qed
qed

lemma machine_chain:
  assumes R: "machineState D S n u s" and keys: "keysDistinct D" and c: "unlockedChainOf D out = Inr c"
  shows "machineState D S n (markChain D c m u)
    (case c of None \<Rightarrow> s | Some a \<Rightarrow> AddUnlockedChain D a (word_of_nat m) s)"
proof (cases c)
  case None
  then show ?thesis using R by (simp add: markChain_def)
next
  case (Some a)
  let ?s = "addUnlocked D a (word_of_nat m) s" and ?u = "markChain D (Some a) m u"
  have a: "isChainAddress a" using c by (simp add: Some unlockedChainOf_chain)
  have "signersIn D n ?u ?s"
    by (rule signersIn_mono [of D n u s]) (use R in \<open>simp_all add: machineState_def entryAt_addUnlocked\<close>)
  moreover have "chainsIn D ?u ?s"
    unfolding chainsIn_def
  proof (intro allI impI)
    fix k j assume k: "tus_unlockedChains ?u k = Some j"
    show "(\<exists>a. isChainAddress a \<and> k = addrKey D a) \<and> (\<exists>p. us_UnlockedAddrsByAddrKey ?s k = Some p \<and> entryAt ?s p j)"
    proof (cases "k = addrKey D a")
      case True
      then show ?thesis using k a entryAt_new [of D a m s] by (auto simp: markChain_def)
    next
      case False
      then have "tus_unlockedChains u k = Some j" using k by (simp add: markChain_def)
      with R obtain b p where "isChainAddress b" "k = addrKey D b" "us_UnlockedAddrsByAddrKey s k = Some p" "entryAt s p j"
        unfolding machineState_def chainsIn_def by blast
      with False entryAt_addUnlocked show ?thesis by auto
    qed
  qed
  moreover have "directsKnown D S ?u ?s"
    unfolding directsKnown_def
  proof (intro allI impI)
    fix b assume b: "isDirectUnlockable b" "us_UnlockedAddrsByAddrKey ?s (addrKey D b) \<noteq> None"
    have "addrKey D b \<noteq> addrKey D a"
      using keysDistinct_iff [OF keys, of b a] b(1) a chain_not_direct by blast
    with b R show "\<exists>i. SignerUIDForAddress S b = Inr i \<and> tus_signerUIDs ?u i \<noteq> None"
      by (simp add: machineState_def directsKnown_def)
  qed
  ultimately show ?thesis by (simp add: Some machineState_def AddUnlockedChain_def)
qed

lemma machine_reference:
  assumes "machineState D S n u s" "n \<le> m"
  shows "machineState D S m (addUnlock v u) (addReference p i s)"
  using assms signersIn_mono [of D n u s m "addUnlock v u" "addReference p i s"]
  by (simp add: machineState_def chainsIn_def directsKnown_def)

lemma machine_direct:
  assumes "machineState D S n u s" "keysDistinct D" "isDirectUnlockable a" "SignerUIDForAddress S a = Inr i"
    "tus_signerUIDs u i \<noteq> None"
  shows "machineState D S n u (addUnlocked D a m s)"
proof -
  have "signersIn D n u (addUnlocked D a m s)"
    by (rule signersIn_mono [of D n u s]) (use assms(1) in \<open>simp_all add: machineState_def entryAt_addUnlocked\<close>)
  moreover have "chainsIn D u (addUnlocked D a m s)"
    using chainsIn_other [OF _ assms(2,3)] assms(1) by (simp add: machineState_def)
  moreover have "directsKnown D S u (addUnlocked D a m s)"
    by (rule directsKnown_add [OF _ assms(2-4) _ assms(5)]) (use assms(1) in \<open>simp_all add: machineState_def\<close>)
  ultimately show ?thesis by (simp add: machineState_def)
qed

lemma machine_signature:
  assumes R: "machineState D S n u s" and keys: "keysDistinct D" and a: "isDirectUnlockable a" "SignerUIDForAddress S a = Inr i"
    and n: "n \<le> 65535" and i: "SignerUID D sg = i"
  shows "machineState D S (Suc n) (addSignerUID i n (addUnlock v u))
    ((addUnlocked D a (word_of_nat n) s)\<lparr>us_SignatureUnlockedAddrsByIndex :=
       (us_SignatureUnlockedAddrsByIndex (addUnlocked D a (word_of_nat n) s))(word_of_nat n \<mapsto> (length (us_heap s), sg))\<rparr>)"
    (is "machineState D S (Suc n) ?u (?s\<lparr>us_SignatureUnlockedAddrsByIndex := ?m\<rparr>)")
proof -
  let ?t = "?s\<lparr>us_SignatureUnlockedAddrsByIndex := ?m\<rparr>"
  have word: "(word_of_nat j :: u16) \<noteq> word_of_nat n" if "j < n" for j
    using that n by (simp add: word_eq_iff_unat unat_of_nat)
  have "signersIn D (Suc n) ?u ?t"
    unfolding signersIn_def
  proof (intro allI impI)
    fix k j assume k: "tus_signerUIDs ?u k = Some j"
    show "j < Suc n \<and> (\<exists>p sg. us_SignatureUnlockedAddrsByIndex ?t (word_of_nat j) = Some (p, sg) \<and> entryAt ?t p j
        \<and> SignerUID D sg = k)"
    proof (cases "k = i")
      case True
      then show ?thesis using k i entryAt_new [of D a n s] by simp
    next
      case False
      then have "tus_signerUIDs u k = Some j" using k by simp
      with R obtain p sg' where p: "j < n" "us_SignatureUnlockedAddrsByIndex s (word_of_nat j) = Some (p, sg')"
          "entryAt s p j" "SignerUID D sg' = k"
        unfolding machineState_def signersIn_def by blast
      with word [OF p(1)] entryAt_addUnlocked [OF p(3)] show ?thesis by simp
    qed
  qed
  moreover have "chainsIn D ?u ?t"
    using chainsIn_other [OF _ keys a(1), of u s "word_of_nat n"] R by (simp add: machineState_def chainsIn_def)
  moreover have "directsKnown D S ?u ?t"
    using directsKnown_add [OF _ keys a, of u s ?u "word_of_nat n"] R by (simp add: machineState_def directsKnown_def)
  ultimately show ?thesis by (simp add: machineState_def)
qed

text \<open>The machine agrees with the builder about an input: it finds the output, wants the same address and
  unlocks the same chain.\<close>

definition machineAgrees ::
    "'a ledger_deps_scheme \<Rightarrow> ledger_api \<Rightarrow> transaction \<Rightarrow> commitment option \<Rightarrow> chain_set \<Rightarrow> (bytes \<Rightarrow> address option)
     \<Rightarrow> nat \<Rightarrow> utxo_input \<Rightarrow> ledger_output option \<Rightarrow> bool" where
  "machineAgrees D api tx ci cs owners n i input \<longleftrightarrow>
    (\<exists>a out. owners (inOutputID i) = Some a \<and> input = Some out \<and> unlockTarget D api tx ci (Some out) n cs = Inr a
       \<and> chainToUnlock D tx out n cs = unlockedChainOf D (Some out))"

context tx_signer begin

lemma machine_step:
  assumes step: "buildUnlock D S True msg owners u (n, i, out) = Inr u'" and R: "machineState D S n u s"
    and n: "n \<le> 65535" and keys: "keysDistinct D" and good: "\<And>a. isDirectUnlockable a \<Longrightarrow> good a"
    and a: "owners (inOutputID i) = Some a" and v: "tus_unlocks u' = tus_unlocks u @ [v]"
    and c: "unlockedChainOf D out = Inr c"
  shows "\<exists>t. unlockAddress D msg (word_of_nat n) False (resolveUnderlyingAddress a) v s = Inr t
    \<and> machineState D S (Suc n) u' (case c of None \<Rightarrow> t | Some b \<Rightarrow> AddUnlockedChain D b (word_of_nat n) t)"
proof -
  define owner where "owner = resolveUnderlyingAddress a"
  have "\<exists>t w. unlockAddress D msg (word_of_nat n) False owner v s = Inr t \<and> machineState D S (Suc n) w t
      \<and> u' = markChain D c n w"
  proof -
    from buildUnlock_step [OF step] a c consider j v' where "isChainAddress owner"
        "tus_unlockedChains u (addrKey D owner) = Some j" "refersFor owner j v'" "u' = markChain D c n (addUnlock v' u)"
      | k sig where "isDirectUnlockable owner" "\<not> isChainAddress owner" "SignerUIDForAddress S owner = Inr k"
        "tus_signerUIDs u k = None" "signFor S owner msg = Inr sig"
        "u' = markChain D c n (addSignerUID k n (addUnlock (SignatureUnlock (Some sig)) u))"
      | k j v' where "isDirectUnlockable owner" "\<not> isChainAddress owner" "SignerUIDForAddress S owner = Inr k"
        "tus_signerUIDs u k = Some j" "refersFor owner j v'" "u' = markChain D c n (addUnlock v' u)"
      unfolding owner_def by auto
    then show ?thesis
    proof cases
      case 1
      then have v': "v' = v" using v by simp
      from R 1(2) obtain p where p: "us_UnlockedAddrsByAddrKey s (addrKey D owner) = Some p" "entryAt s p j"
        unfolding machineState_def chainsIn_def by blast
      have "unlockAddress D msg (word_of_nat n) False owner v s = Inr (addReference p (word_of_nat n) s)"
        using 1(1,3) p chain_not_direct [OF 1(1)]
        by (subst unlockAddress.simps)
          (simp add: refersFor_def v' entryAt_def ReferentialUnlockNonDirectlyUnlockable_def)
      with machine_reference [OF R, of "Suc n" v p "word_of_nat n"] 1(4) v' show ?thesis by auto
    next
      case 2
      then have v': "v = SignatureUnlock (Some sig)" using v by simp
      have none: "us_UnlockedAddrsByAddrKey s (addrKey D owner) = None"
        using R 2(1,3,4) by (auto simp: machineState_def directsKnown_def)
      have "unlockAddress D msg (word_of_nat n) False owner v s
          = Inr ((addUnlocked D owner (word_of_nat n) s)\<lparr>us_SignatureUnlockedAddrsByIndex :=
       (us_SignatureUnlockedAddrsByIndex (addUnlocked D owner (word_of_nat n) s))(word_of_nat n \<mapsto> (length (us_heap s), sig))\<rparr>)"
        using 2(1,2) none open_law [OF good [OF 2(1)] 2(5)]
        by (subst unlockAddress.simps) (simp add: v' ReferencedInputIndex_def SignatureUnlockS_def Let_def)
      with machine_signature [OF R keys 2(1,3) n uid_law [OF 2(3,5)]] 2(6) show ?thesis by blast
    next
      case 3
      then have v': "v' = v" using v by simp
      from R 3(4) obtain p sg where p: "us_SignatureUnlockedAddrsByIndex s (word_of_nat j) = Some (p, sg)"
          "entryAt s p j" "SignerUID D sg = k"
        unfolding machineState_def signersIn_def by blast
      have m: "MatchesAddress D sg owner" by (rule match_law [OF good [OF 3(1)] 3(3) p(3)])
      let ?t = "addReference p (word_of_nat n) s"
      have run: "unlockAddress D msg (word_of_nat n) False owner v s = Inr (if us_UnlockedAddrsByAddrKey s (addrKey D owner) = None
          then addUnlocked D owner (word_of_nat n) ?t else ?t)"
        using 3(1,2,5) p m
        by (subst unlockAddress.simps)
          (auto simp: refersFor_def v' entryAt_def ReferentialUnlockDirectlyUnlockable_def Let_def split: option.split)
      have R': "machineState D S (Suc n) (addUnlock v u) ?t" by (rule machine_reference [OF R]) simp
      have "tus_signerUIDs (addUnlock v u) k \<noteq> None" using 3(4) by simp
      from machine_direct [OF R' keys 3(1,3) this, of "word_of_nat n"] R' run 3(6) v' show ?thesis by auto
    qed
  qed
  then obtain t w where t: "unlockAddress D msg (word_of_nat n) False owner v s = Inr t" "machineState D S (Suc n) w t"
    "u' = markChain D c n w" by blast
  from machine_chain [OF t(2) keys c, of n] t(1,3) show ?thesis by (auto simp: owner_def)
qed

lemma machine_run:
  assumes "foldG (buildUnlock D S True msg owners) u (List.enumerate n xs) = Inr u'"
    and "machineState D S n u s" and "n + length xs \<le> 65536" "n = length (tus_unlocks u)"
    and keys: "keysDistinct D" and good: "\<And>a. isDirectUnlockable a \<Longrightarrow> good a"
    and st: "st_Unlocks st = tus_unlocks u'"
    and "\<And>k. k < length xs \<Longrightarrow> machineAgrees D api (st_Transaction st) ci cs owners (n + k) (fst (xs ! k)) (snd (xs ! k))"
  shows "\<exists>s'. foldG (validateUnlocksStep D api st ci cs msg) s (List.enumerate n (map snd xs)) = Inr s'"
  using assms(1-4,8)
proof (induction xs arbitrary: n u s)
  case Nil
  then show ?case by simp
next
  case (Cons x xs)
  obtain i out where x: "x = (i, out)" by (cases x)
  from Cons.prems(1) obtain w where w: "buildUnlock D S True msg owners u (n, i, out) = Inr w"
      "foldG (buildUnlock D S True msg owners) w (List.enumerate (Suc n) xs) = Inr u'"
    by (auto simp: x andthen_eq_Inr)
  from buildUnlock_length [OF w(1)] obtain v where v: "tus_unlocks w = tus_unlocks u @ [v]" by blast
  from buildUnlocks_prefix [OF w(2)] obtain vs where vs: "tus_unlocks u' = tus_unlocks w @ vs" by blast
  have len: "n < length (st_Unlocks st)" and nth: "st_Unlocks st ! n = v"
    using Cons.prems(4) by (simp_all add: st vs v nth_append)
  from Cons.prems(5) [of 0] obtain a o1 where a: "owners (inOutputID i) = Some a" and o1: "out = Some o1"
    and target: "unlockTarget D api (st_Transaction st) ci (Some o1) n cs = Inr a"
    and chain: "chainToUnlock D (st_Transaction st) o1 n cs = unlockedChainOf D (Some o1)"
    by (auto simp: x machineAgrees_def)
  from buildUnlock_step [OF w(1)] obtain c where c: "unlockedChainOf D out = Inr c" by blast
  from machine_step [OF w(1) Cons.prems(2) _ keys good a v c] Cons.prems(3) obtain t where
    t: "unlockAddress D msg (word_of_nat n) False (resolveUnderlyingAddress a) v s = Inr t"
    and R: "machineState D S (Suc n) w (case c of None \<Rightarrow> t | Some b \<Rightarrow> AddUnlockedChain D b (word_of_nat n) t)"
    by auto
  have step: "validateUnlocksStep D api st ci cs msg s (n, out)
      = Inr (case c of None \<Rightarrow> t | Some b \<Rightarrow> AddUnlockedChain D b (word_of_nat n) t)"
    using len nth target t chain c by (simp add: validateUnlocksStep_def unlockOutput_def o1 derefG_def)
  have rest: "machineAgrees D api (st_Transaction st) ci cs owners (Suc n + k) (fst (xs ! k)) (snd (xs ! k))"
    if "k < length xs" for k
    using Cons.prems(5) [of "Suc k"] that by simp
  from Cons.IH [OF w(2) R _ _ rest] Cons.prems(3,4) v step show ?case by (simp add: x)
qed

lemma built_unlocked:
  assumes built: "buildUnlocks D S True b = Inr st" and len: "length (te_Inputs (st_Transaction st)) \<le> 65536"
    and keys: "keysDistinct D" and good: "\<And>a. isDirectUnlockable a \<Longrightarrow> good a"
    and tx: "TransactionIDG D (st_Transaction st) = Inr txID"
    and cs: "OutputsChainOutputSet D (tx_Outputs (st_Transaction st)) txID = Inr cs"
    and inputs: "\<And>i. i \<in> set (te_Inputs (st_Transaction st)) \<Longrightarrow>
      map_of (ri_InputSet ri) (inOutputID i) = map_of (tb_inputs b) (inOutputID i)"
    and agrees: "\<And>n. n < length (te_Inputs (st_Transaction st)) \<Longrightarrow>
      machineAgrees D api (st_Transaction st) (ri_CommitmentInput ri) cs (tb_inputOwner b) n
        (te_Inputs (st_Transaction st) ! n) (map_of (tb_inputs b) (inOutputID (te_Inputs (st_Transaction st) ! n)))"
  shows "\<exists>ua. ValidateUnlocks D api st ri = Inr ua"
proof -
  let ?is = "te_Inputs (st_Transaction st)"
  let ?xs = "zip ?is (map (\<lambda>i. map_of (tb_inputs b) (inOutputID i)) ?is)"
  obtain msg u where msg: "SigningMessage D (st_Transaction st) = Inr msg"
    and run: "foldG (buildUnlock D S True msg (tb_inputOwner b)) nothingUnlocked (List.enumerate 0 ?xs) = Inr u"
    and st: "st_Unlocks st = tus_unlocks u"
    using built by (auto simp: buildUnlocks_def Let_def andthen_eq_Inr)
  have R: "machineState D S 0 nothingUnlocked emptyUnlockedSet"
    by (simp add: machineState_def signersIn_def chainsIn_def directsKnown_def nothingUnlocked_def emptyUnlockedSet_def)
  have ag: "machineAgrees D api (st_Transaction st) (ri_CommitmentInput ri) cs (tb_inputOwner b) (0 + k)
      (fst (?xs ! k)) (snd (?xs ! k))" if "k < length ?xs" for k
    using agrees [of k] that by simp
  have e: "map snd ?xs = map (\<lambda>i. map_of (ri_InputSet ri) (inOutputID i)) ?is"
    by (simp add: inputs)
  from machine_run [OF run R _ _ keys good st ag, unfolded e] len
  obtain s' where "foldG (validateUnlocksStep D api st (ri_CommitmentInput ri) cs msg) emptyUnlockedSet
      (List.enumerate 0 (map (\<lambda>i. map_of (ri_InputSet ri) (inOutputID i)) ?is)) = Inr s'"
    by (auto simp: nothingUnlocked_def simp del: list.map)
  then show ?thesis by (simp add: ValidateUnlocks_def tx msg cs)
qed

end

interpretation mem_tx: tx_signer D "memSigner K D s" "\<lambda>a. ed25519_correct K D \<and> keys_ok K D s \<and> isDirectUnlockable a"
  for K :: ed25519_keys and D :: "'a tx_deps_scheme" and s
  by unfold_locales (auto simp: memSigner_def intro: mem.uid_law mem.open_law mem.match_law)

section \<open>What the builder signs is unlocked\<close>

text \<open>The chain of an input is known when its output has its chain ID; an anchor in addition has to make a
  state transition, since the machine does not unlock the address of an anchor otherwise.\<close>

definition chainKnown :: "'a ledger_deps_scheme \<Rightarrow> chain_set \<Rightarrow> ledger_output \<Rightarrow> bool" where
  "chainKnown D cs out \<longleftrightarrow>
    (\<forall>c. outChainID D out = Inr (Some c) \<and> chainAddressable c \<longrightarrow> \<not> chainEmpty c)
    \<and> (\<forall>x. out = AnchorO x \<longrightarrow> (\<exists>y. map_of cs (AnchorIDc (an_AnchorID x)) = Some (AnchorO y)
         \<and> an_StateIndex x + 1 = an_StateIndex y))"

lemma chainKnown_agrees:
  assumes "chainKnown D cs out"
  shows "chainToUnlock D tx out n cs = unlockedChainOf D (Some out)"
proof (cases "outChainID D out")
  case (Inr cid)
  show ?thesis
  proof (cases cid)
    case (Some c)
    show ?thesis
    proof (cases "chainAddressable c")
      case True
      then have "\<not> chainEmpty c" using assms Inr Some by (simp add: chainKnown_def)
      moreover have "(case out of
                   AnchorO currentAnchor \<Rightarrow>
                     (case map_of cs c of
                        Some (AnchorO nextAnchor) \<Rightarrow> an_StateIndex currentAnchor + 1 = an_StateIndex nextAnchor
                      | _ \<Rightarrow> False)
                 | _ \<Rightarrow> True)"
        using assms Inr Some by (cases out) (auto simp: chainKnown_def outChainID_def)
      ultimately show ?thesis using True Inr Some by (simp add: chainToUnlock_def unlockedChainOf_def)
    qed (simp add: chainToUnlock_def unlockedChainOf_def Inr Some)
  qed (simp add: chainToUnlock_def unlockedChainOf_def Inr)
qed (simp add: chainToUnlock_def unlockedChainOf_def)

lemma BuildTx_Inr:
  "snd (BuildTx D b) = Inr st \<Longrightarrow> tb_signer b = Some S \<Longrightarrow> buildUnlocks D S True (sortEssence b) = Inr st"
  by (auto simp: BuildTx_def buildWith_def split: option.splits)

text \<open>C19: the unlocks of every transaction the builder signs with a signer in memory are accepted by the
  syntactical validation of unlocks, and there is one for every input.\<close>

theorem built_unlocks_valid:
  assumes "snd (BuildTx D b) = Inr st" "tb_signer b = Some (memSigner K D s)"
    and "length (te_Inputs (st_Transaction st)) \<le> 65536"
  shows "ValidateUnlocksSyntax D (st_Unlocks st) = Inr ()
    \<and> length (st_Unlocks st) = length (te_Inputs (st_Transaction st))"
  by (rule mem_tx.built_syntax [OF BuildTx_Inr [OF assms(1,2)] assms(3)])

text \<open>C11: the virtual machine unlocks every input of a transaction the builder has signed with a
  signer in memory, under these conditions: the builder was given the outputs and the addresses the machine
  finds; each key is stored under the address of its public key; different addresses have different map
  keys; there are at most 65536 inputs; every consumed chain already has its ID; and every consumed anchor
  makes a state transition. The last two are needed: @\<open>addChainAsUnlocked\<close> goes by the output
  alone and marks a governance transitioned anchor as unlocked, which the machine does not, and does not
  mark a chain that still has the empty ID, which the machine does.\<close>

theorem built_transaction_unlocked:
  assumes built: "snd (BuildTx D b) = Inr st" "tb_signer b = Some (memSigner K D s)"
    and signer: "keys_ok K D s" "ed25519_correct K D" and keys: "keysDistinct D"
    and len: "length (te_Inputs (st_Transaction st)) \<le> 65536"
    and tx: "TransactionIDG D (st_Transaction st) = Inr txID"
      "OutputsChainOutputSet D (tx_Outputs (st_Transaction st)) txID = Inr cs"
    and inputs: "\<forall>n < length (te_Inputs (st_Transaction st)). \<exists>out a.
      (let i = inOutputID (te_Inputs (st_Transaction st) ! n)
       in map_of (ri_InputSet ri) i = Some out \<and> map_of (tb_inputs b) i = Some out \<and> chainKnown D cs out
          \<and> tb_inputOwner b i = Some a
          \<and> unlockTarget D api (st_Transaction st) (ri_CommitmentInput ri) (Some out) n cs = Inr a)"
  shows "\<exists>ua. ValidateUnlocks D api st ri = Inr ua"
proof (rule mem_tx.built_unlocked [OF BuildTx_Inr [OF built] len keys _ tx])
  show "ed25519_correct K D \<and> keys_ok K D s \<and> isDirectUnlockable a" if "isDirectUnlockable a" for a
    using signer that by simp
  show "map_of (ri_InputSet ri) (inOutputID i) = map_of (tb_inputs (sortEssence b)) (inOutputID i)"
    if "i \<in> set (te_Inputs (st_Transaction st))" for i
    using inputs that by (fastforce simp: sortEssence_def Let_def in_set_conv_nth)
  show "machineAgrees D api (st_Transaction st) (ri_CommitmentInput ri) cs (tb_inputOwner (sortEssence b)) n
      (te_Inputs (st_Transaction st) ! n)
      (map_of (tb_inputs (sortEssence b)) (inOutputID (te_Inputs (st_Transaction st) ! n)))"
    if "n < length (te_Inputs (st_Transaction st))" for n
    using inputs that chainKnown_agrees by (fastforce simp: sortEssence_def Let_def machineAgrees_def)
qed

section \<open>A transaction with a chain of unlocks\<close>

text \<open>The first input is an account that is opened by a signature, the second one belongs to that account.\<close>

definition demo_keys :: key_map where
  "demo_keys = NewInMemoryAddressSignerFromEd25519PrivateKeys ref_keys ref_tx_deps [[7]]"

definition demo_id2 :: bytes where
  "demo_id2 = OutputIDFromTransactionIDAndIndex (replicate 32 2 @ le32 20) 0"

definition demo_owned :: ledger_output where
  "demo_owned = BasicO \<lparr>bo_Amount = 5, bo_Mana = 0, bo_UnlockConditions = [AddressUC (AccountAddress [9])], bo_Features = []\<rparr>"

definition demo_spending :: tx_builder where
  "demo_spending = AddOutput demo_input
     (AddInput \<lparr>ti_UnlockTarget = AccountAddress [9], ti_InputID = demo_id2, ti_Input = demo_owned\<rparr>
     (AddInput \<lparr>ti_UnlockTarget = demo_owner, ti_InputID = demo_id, ti_Input = AccountO demo_issuer\<rparr>
     (NewTransactionBuilder demo_block_api (Some (memSigner ref_keys ref_tx_deps demo_keys)))))"

lemma demo_ids [simp]:
  "inOutputID (UTXOInput demo_id) = demo_id" "inOutputID (UTXOInput demo_id2) = demo_id2" "demo_id \<noteq> demo_id2"
proof -
  have "inOutputID (UTXOInput (OutputIDFromTransactionIDAndIndex t i)) = OutputIDFromTransactionIDAndIndex t i"
    if "length t = 36" for t i
    using that by (simp add: inOutputID_def UTXOInput_def TransactionIDOf_def outputIndex_def OutputIDFromTransactionIDAndIndex_def)
  then show "inOutputID (UTXOInput demo_id) = demo_id" "inOutputID (UTXOInput demo_id2) = demo_id2"
    by (simp_all add: demo_id_def demo_id2_def)
  have "hd demo_id = 1" "hd demo_id2 = 2"
    by (simp_all add: demo_id_def demo_id2_def OutputIDFromTransactionIDAndIndex_def)
  then show "demo_id \<noteq> demo_id2" by auto
qed

lemma ref_keysDistinct: "keysDistinct ref_tx_deps"
proof (rule inj_onI)
  fix a b assume "a \<in> {a. isDirectUnlockable a \<or> isChainAddress a}" "b \<in> {a. isDirectUnlockable a \<or> isChainAddress a}"
    "addrKey ref_tx_deps a = addrKey ref_tx_deps b"
  then show "a = b"
    by (cases a; cases b) (simp_all add: isDirectUnlockable_def isChainAddress_def addrKey_def)
qed

lemma demo_keys_ok: "keys_ok ref_keys ref_tx_deps demo_keys" "ed25519_correct ref_keys ref_tx_deps"
proof -
  have "inj_on (addrKey ref_tx_deps) {a. isDirectUnlockable a}"
    by (rule inj_on_subset [OF ref_keysDistinct]) auto
  then show "keys_ok ref_keys ref_tx_deps demo_keys" unfolding demo_keys_def by (rule keys_ok_private)
  show "ed25519_correct ref_keys ref_tx_deps" by (simp add: ed25519_correct_def ref_keys_def)
qed

lemma demo_spending_sel [simp]:
  "te_Inputs (tb_transaction demo_spending) = [UTXOInput demo_id, UTXOInput demo_id2]"
  "tb_inputs demo_spending = [(demo_id, AccountO demo_issuer), (demo_id2, demo_owned)]"
  "tb_inputOwner demo_spending demo_id = Some demo_owner" "tb_inputOwner demo_spending demo_id2 = Some (AccountAddress [9])"
  "tb_signer demo_spending = Some (memSigner ref_keys ref_tx_deps demo_keys)"
  "tb_occurredBuildErr demo_spending = None" "tx_Outputs (tb_transaction demo_spending) = [demo_input]"
  by (simp_all add: demo_spending_def AddOutput_def AddInput_def NewTransactionBuilder_def
      demo_ids(3) not_sym [OF demo_ids(3)])

lemma sortEssence_sel [simp]:
  "te_Inputs (tb_transaction (sortEssence b)) = te_Inputs (tb_transaction b)"
  "tx_Outputs (tb_transaction (sortEssence b)) = tx_Outputs (tb_transaction b)"
  "tb_inputs (sortEssence b) = tb_inputs b" "tb_inputOwner (sortEssence b) = tb_inputOwner b"
  by (simp_all add: sortEssence_def)

lemma demo_key: "privateKeyForAddress ref_tx_deps demo_keys demo_owner = Inr [7]"
  by (simp add: privateKeyForAddress_def demo_owner_def privateKeyForEd25519Address_def demo_keys_def
      NewInMemoryAddressSignerFromEd25519PrivateKeys_def NewInMemoryAddressSigner_def Let_def ref_keys_def
      NewAddressKeysForEd25519Address_def NewAddressKeysForImplicitAccountCreationAddress_def addrKey_def)

lemma demo_signs:
  "signFor (memSigner ref_keys ref_tx_deps demo_keys) demo_owner msg = Inr \<lparr>sigPublicKey = [7], sigSignature = 7 # msg\<rparr>"
  "SignerUIDForAddress (memSigner ref_keys ref_tx_deps demo_keys) demo_owner = Inr (ref_sum256 [7])"
  by (simp_all add: memSigner_def memSign_def memSignerUID_def demo_key) (simp_all add: ref_keys_def)

lemma demo_resolve [simp]:
  "resolveUnderlyingAddress demo_owner = demo_owner" "\<not> isChainAddress demo_owner" "isDirectUnlockable demo_owner"
  "resolveUnderlyingAddress (AccountAddress i) = AccountAddress i" "isChainAddress (AccountAddress i)"
  by (simp_all add: demo_owner_def resolveUnderlyingAddress_def isChainAddress_def isDirectUnlockable_def)

lemma demo_spending_built: "\<exists>st. snd (BuildTx ref_tx_deps demo_spending) = Inr st \<and> st_Transaction st = tb_transaction (sortEssence demo_spending)"
  by (simp add: BuildTx_def buildWith_def buildUnlocks_def SigningMessage_def buildUnlock_def derefG_def
      demo_signs nothingUnlocked_def addChainAsUnlocked_def unlockedChainOf_def outChainID_def chainAddressable_def
      chainToAddress_def isChainUnlocked_def demo_owned_def not_sym [OF demo_ids(3)] addReferentialUnlock_eq Let_def)

theorem built_unlocks_valid_witness:
  "\<exists>st. snd (BuildTx ref_tx_deps demo_spending) = Inr st \<and> ValidateUnlocksSyntax ref_tx_deps (st_Unlocks st) = Inr ()"
proof -
  obtain st where st: "snd (BuildTx ref_tx_deps demo_spending) = Inr st" "st_Transaction st = tb_transaction (sortEssence demo_spending)"
    using demo_spending_built by blast
  from built_unlocks_valid [OF st(1) demo_spending_sel(5)] st show ?thesis by simp
qed

theorem built_transaction_unlocked_witness:
  "\<exists>st ua. snd (BuildTx ref_tx_deps demo_spending) = Inr st \<and> ValidateUnlocks ref_tx_deps demo_api st
     \<lparr>ri_InputSet = tb_inputs demo_spending, ri_BlockIssuanceCreditInputSet = Map.empty, ri_CommitmentInput = None,
      ri_RewardsInputSet = []\<rparr> = Inr ua"
proof -
  let ?ri = "\<lparr>ri_InputSet = tb_inputs demo_spending, ri_BlockIssuanceCreditInputSet = Map.empty, ri_CommitmentInput = None,
      ri_RewardsInputSet = []\<rparr>"
  obtain st where st: "snd (BuildTx ref_tx_deps demo_spending) = Inr st" "st_Transaction st = tb_transaction (sortEssence demo_spending)"
    using demo_spending_built by blast
  obtain txID where tx: "TransactionIDG ref_tx_deps (st_Transaction st) = Inr txID"
    by (simp add: st(2) TransactionIDG_def TransactionCommitment_def OutputCommitment_def HashValues_def)
  have cs: "OutputsChainOutputSet ref_tx_deps (tx_Outputs (st_Transaction st)) txID = Inr []"
    by (simp add: st(2) OutputsChainOutputSet_def chainSetStep_def outChainID_def demo_input_def)
  have "[9] \<noteq> emptyID" by (rule notI, drule arg_cong [of _ _ length]) simp
  then have known: "chainKnown ref_tx_deps [] (AccountO demo_issuer)" "chainKnown ref_tx_deps [] demo_owned"
    by (simp_all add: chainKnown_def outChainID_def demo_owned_def chainEmpty_def)
  have target: "unlockTarget ref_tx_deps demo_api (st_Transaction st) None (Some (AccountO demo_issuer)) n [] = Inr demo_owner"
    "unlockTarget ref_tx_deps demo_api (st_Transaction st) None (Some demo_owned) n [] = Inr (AccountAddress [9])" for n
    by (simp_all add: unlockTarget_def addressToUnlock_def outOwner_def addressOwner_def demo_issuer_def demo_account_def
        demo_owned_def ucsMustSet_eq derefG_def ucAddress_def checkExpiration_def outUCSet_def HasExpirationCondition_def
        ucExpiration_def)
  have inputs: "\<forall>n < length (te_Inputs (st_Transaction st)). \<exists>out a.
      (let i = inOutputID (te_Inputs (st_Transaction st) ! n)
       in map_of (ri_InputSet ?ri) i = Some out \<and> map_of (tb_inputs demo_spending) i = Some out \<and> chainKnown ref_tx_deps [] out
          \<and> tb_inputOwner demo_spending i = Some a
          \<and> unlockTarget ref_tx_deps demo_api (st_Transaction st) (ri_CommitmentInput ?ri) (Some out) n [] = Inr a)"
  proof (intro allI impI)
    fix n assume "n < length (te_Inputs (st_Transaction st))"
    then consider "n = 0" | "n = 1" by (auto simp: st(2) less_Suc_eq)
    then show "\<exists>out a. (let i = inOutputID (te_Inputs (st_Transaction st) ! n)
       in map_of (ri_InputSet ?ri) i = Some out \<and> map_of (tb_inputs demo_spending) i = Some out \<and> chainKnown ref_tx_deps [] out
          \<and> tb_inputOwner demo_spending i = Some a
          \<and> unlockTarget ref_tx_deps demo_api (st_Transaction st) (ri_CommitmentInput ?ri) (Some out) n [] = Inr a)"
      using known target [of n] not_sym [OF demo_ids(3)] by cases (auto simp: st(2) Let_def)
  qed
  have "length (te_Inputs (st_Transaction st)) \<le> 65536" by (simp add: st(2))
  from built_transaction_unlocked [OF st(1) demo_spending_sel(5) demo_keys_ok ref_keysDistinct this tx cs inputs] st(1)
  show ?thesis by blast
qed

section \<open>Signing without a builder\<close>

text \<open>@\<open>Transaction.Sign\<close>: one signature for every key pair, in their order.\<close>

definition transactionSign ::
    "ed25519_keys \<Rightarrow> 'a tx_deps_scheme \<Rightarrow> transaction \<Rightarrow> address_keys list \<Rightarrow> ed25519_signature list go" where
  "transactionSign K D t addrKeys =
    andthen (SigningMessage D t) (\<lambda>signMsg.
    mapG (\<lambda>v. memSign K D (NewInMemoryAddressSigner D addrKeys) (ak_Address v) signMsg) addrKeys)"

text \<open>Each signature opens the address of its key pair.\<close>

theorem signed_for_all_keys:
  assumes "ed25519_correct K D" "keys_ok K D (NewInMemoryAddressSigner D addrKeys)"
    and "\<forall>v \<in> set addrKeys. isDirectUnlockable (ak_Address v)"
    and "SigningMessage D t = Inr m" "transactionSign K D t addrKeys = Inr sigs"
  shows "list_all2 (\<lambda>v sig. addrUnlock D (ak_Address v) m sig = Inr ()) addrKeys sigs"
proof -
  have "list_all2 (\<lambda>v sig. memSign K D (NewInMemoryAddressSigner D addrKeys) (ak_Address v) m = Inr sig) addrKeys sigs"
    using assms(4,5) by (simp add: transactionSign_def mapG_iff)
  with memSign_opens [OF assms(1,2)] assms(3) show ?thesis
    by (auto simp: list_all2_conv_all_nth)
qed


end
