(* ===== verification/Output_Builders.thy ===== *)
theory Output_Builders
  imports Output_Types
begin

text \<open>
  The builders of outputs, builder/output_builder_*.go, with the @\<open>Clone\<close> methods of outputs, unlock
  conditions and features they start from.  A builder keeps the output under construction, and for a chain
  the previous output.  Its state is passed from method to method; that clones of block issuer features
  share the array of their keys with the original is the subject of @\<open>Key_Slices\<close>.  Sorting by type is the
  stable sort; where the types differ, which the theorem below shows, every sort gives this list.
\<close>

section \<open>Clones\<close>

definition cloneUC :: "unlock_condition \<Rightarrow> unlock_condition go" where
  "cloneUC s =
    (case s of
       AddressUC a \<Rightarrow> andthen (cloneAddr a) (\<lambda>b. Inr (AddressUC b))
     | StorageDepositReturnUC a n \<Rightarrow> andthen (cloneAddr a) (\<lambda>b. Inr (StorageDepositReturnUC b n))
     | TimelockUC n \<Rightarrow> Inr (TimelockUC n)
     | ExpirationUC a n \<Rightarrow> andthen (cloneAddr a) (\<lambda>b. Inr (ExpirationUC b n))
     | StateControllerAddressUC a \<Rightarrow> andthen (cloneAddr a) (\<lambda>b. Inr (StateControllerAddressUC b))
     | GovernorAddressUC a \<Rightarrow> andthen (cloneAddr a) (\<lambda>b. Inr (GovernorAddressUC b))
     | ImmutableAccountUC a \<Rightarrow> Inr (ImmutableAccountUC a))"

definition cloneFeat :: "feature \<Rightarrow> feature go" where
  "cloneFeat s =
    (case s of
       SenderF a \<Rightarrow> andthen (cloneAddr a) (\<lambda>b. Inr (SenderF b))
     | IssuerF a \<Rightarrow> andthen (cloneAddr a) (\<lambda>b. Inr (IssuerF b))
     | _ \<Rightarrow> Inr s)"

definition cloneUCs :: "unlock_condition list \<Rightarrow> unlock_condition list go" where
  "cloneUCs f = mapG cloneUC f"

definition cloneFeats :: "feature list \<Rightarrow> feature list go" where
  "cloneFeats f = mapG cloneFeat f"

definition cloneBasic :: "basic_output \<Rightarrow> basic_output go" where
  "cloneBasic e =
    andthen (cloneUCs (bo_UnlockConditions e)) (\<lambda>ucs.
    andthen (cloneFeats (bo_Features e)) (\<lambda>fs.
    Inr \<lparr>bo_Amount = bo_Amount e, bo_Mana = bo_Mana e, bo_UnlockConditions = ucs, bo_Features = fs\<rparr>))"

definition cloneAccount :: "account_output \<Rightarrow> account_output go" where
  "cloneAccount a =
    andthen (cloneUCs (ao_UnlockConditions a)) (\<lambda>ucs.
    andthen (cloneFeats (ao_Features a)) (\<lambda>fs.
    andthen (cloneFeats (ao_ImmutableFeatures a)) (\<lambda>imm.
    Inr \<lparr>ao_Amount = ao_Amount a, ao_Mana = ao_Mana a, ao_AccountID = ao_AccountID a,
      ao_FoundryCounter = ao_FoundryCounter a, ao_UnlockConditions = ucs, ao_Features = fs,
      ao_ImmutableFeatures = imm\<rparr>)))"

definition cloneAnchor :: "anchor_output \<Rightarrow> anchor_output go" where
  "cloneAnchor a =
    andthen (cloneUCs (an_UnlockConditions a)) (\<lambda>ucs.
    andthen (cloneFeats (an_Features a)) (\<lambda>fs.
    andthen (cloneFeats (an_ImmutableFeatures a)) (\<lambda>imm.
    Inr \<lparr>an_Amount = an_Amount a, an_Mana = an_Mana a, an_AnchorID = an_AnchorID a,
      an_StateIndex = an_StateIndex a, an_UnlockConditions = ucs, an_Features = fs,
      an_ImmutableFeatures = imm\<rparr>)))"

definition cloneFoundry :: "foundry_output \<Rightarrow> foundry_output go" where
  "cloneFoundry f =
    andthen (cloneUCs (fo_UnlockConditions f)) (\<lambda>ucs.
    andthen (cloneFeats (fo_Features f)) (\<lambda>fs.
    andthen (cloneFeats (fo_ImmutableFeatures f)) (\<lambda>imm.
    Inr \<lparr>fo_Amount = fo_Amount f, fo_SerialNumber = fo_SerialNumber f, fo_TokenScheme = fo_TokenScheme f,
      fo_UnlockConditions = ucs, fo_Features = fs, fo_ImmutableFeatures = imm\<rparr>)))"

definition cloneNFT :: "nft_output \<Rightarrow> nft_output go" where
  "cloneNFT n =
    andthen (cloneUCs (no_UnlockConditions n)) (\<lambda>ucs.
    andthen (cloneFeats (no_Features n)) (\<lambda>fs.
    andthen (cloneFeats (no_ImmutableFeatures n)) (\<lambda>imm.
    Inr \<lparr>no_Amount = no_Amount n, no_Mana = no_Mana n, no_NFTID = no_NFTID n,
      no_UnlockConditions = ucs, no_Features = fs, no_ImmutableFeatures = imm\<rparr>)))"

definition cloneDelegation :: "delegation_output \<Rightarrow> delegation_output go" where
  "cloneDelegation d =
    andthen (cloneUCs (do_UnlockConditions d)) (\<lambda>ucs.
    Inr \<lparr>do_Amount = do_Amount d, do_DelegatedAmount = do_DelegatedAmount d,
      do_DelegationID = do_DelegationID d, do_ValidatorAddress = do_ValidatorAddress d,
      do_StartEpoch = do_StartEpoch d, do_EndEpoch = do_EndEpoch d, do_UnlockConditions = ucs\<rparr>)"

lemma clone_eq:
  "cloneAddr a = Inr b \<Longrightarrow> b = a" "cloneUC c = Inr c' \<Longrightarrow> c' = c" "cloneFeat f = Inr f' \<Longrightarrow> f' = f"
proof -
  have addr: "cloneAddr a = Inr b \<Longrightarrow> b = a" for a b
    using cloneAddr_ok [of a] cloneAddr_panics [of a] by (cases "clonable a") auto
  show "cloneAddr a = Inr b \<Longrightarrow> b = a" by (rule addr)
  show "cloneUC c = Inr c' \<Longrightarrow> c' = c"
    by (auto simp: cloneUC_def andthen_eq_Inr dest!: addr split: unlock_condition.splits)
  show "cloneFeat f = Inr f' \<Longrightarrow> f' = f"
    by (auto simp: cloneFeat_def andthen_eq_Inr dest!: addr split: feature.splits)
qed

lemma mapG_clone:
  assumes "mapG f xs = Inr ys" "\<And>x y. f x = Inr y \<Longrightarrow> y = x"
  shows "ys = xs"
proof -
  have "list_all2 (=) xs ys"
    using assms by (auto simp: mapG_iff elim!: list_all2_mono)
  then show ?thesis by (simp add: list.rel_eq)
qed

lemma clone_lists: "cloneUCs f = Inr g \<Longrightarrow> g = f" "cloneFeats fs = Inr gs \<Longrightarrow> gs = fs"
  by (auto simp: cloneUCs_def cloneFeats_def dest: mapG_clone clone_eq)

lemma clone_outputs:
  "cloneBasic x1 = Inr y1 \<Longrightarrow> y1 = x1" "cloneAccount x2 = Inr y2 \<Longrightarrow> y2 = x2"
  "cloneAnchor x3 = Inr y3 \<Longrightarrow> y3 = x3" "cloneFoundry x4 = Inr y4 \<Longrightarrow> y4 = x4"
  "cloneNFT x5 = Inr y5 \<Longrightarrow> y5 = x5" "cloneDelegation x6 = Inr y6 \<Longrightarrow> y6 = x6"
  by (auto simp: cloneBasic_def cloneAccount_def cloneAnchor_def cloneFoundry_def cloneNFT_def
      cloneDelegation_def andthen_eq_Inr dest!: clone_lists)


section \<open>Sorting and the shape of a slice\<close>

definition ucsSort :: "unlock_condition list \<Rightarrow> unlock_condition list" where
  "ucsSort f = sort_key ucType f"

definition featsSort :: "feature list \<Rightarrow> feature list" where
  "featsSort f = sort_key featType f"

text \<open>The types of unlock conditions and features are those the array rules allow for the output, each at
  most once; what must occur, occurs.\<close>

definition shapedBy :: "('x \<Rightarrow> u8) \<Rightarrow> array_rules \<Rightarrow> 'x list \<Rightarrow> bool" where
  "shapedBy ty r xs \<longleftrightarrow> distinct (map ty xs) \<and> list_all (\<lambda>x. ty x \<in> set (ar_Types r)) xs
     \<and> list_all (\<lambda>t. t \<in> ty ` set xs) (ar_MustOccur r)"

definition shaped :: "ledger_output \<Rightarrow> bool" where
  "shaped out \<longleftrightarrow> shapedBy ucType (unlockCondArrRules out) (outUCs out)
     \<and> shapedBy featType (featBlocksArrRules out) (outFeatures out)
     \<and> shapedBy featType (immFeatBlocksArrRules out) (immutableFeatures out)"

lemma shapedBy_Upsert:
  assumes "shapedBy ty r xs" "ty x \<in> set (ar_Types r)"
  shows "shapedBy ty r (sliceUpsert ty xs x)"
proof -
  have "set (sliceUpsert ty xs x) \<subseteq> insert x (set xs)" by (induction xs) auto
  with assms distinct_Upsert [of ty xs x] types_Upsert [of ty xs x] show ?thesis
    by (auto simp: shapedBy_def list_all_iff)
qed

lemma shapedBy_Remove:
  assumes "shapedBy ty r xs" "ar_MustOccur r = []"
  shows "shapedBy ty r (fst (sliceRemove ty xs t))"
proof -
  have "set (fst (sliceRemove ty xs t)) \<subseteq> set xs"
    by (induction xs) (auto simp: sliceRemove_Cons simp del: sliceRemove.simps(2))
  with assms distinct_Remove [of ty xs t] show ?thesis by (auto simp: shapedBy_def list_all_iff)
qed

lemma shapedBy_sort [simp]: "shapedBy ty r (sort_key k xs) = shapedBy ty r xs"
  by (simp add: shapedBy_def list_all_iff distinct_map)

lemma sort_strict_by:
  assumes "distinct (map ty xs)"
  shows "sorted_wrt (<) (map ty (sort_key ty xs))"
  using assms by (simp add: strict_sorted_iff distinct_map)

text \<open>The numbers of the array rules follow.\<close>

lemma shapedBy_obeys:
  assumes "shapedBy ty r xs" "distinct (ar_MustOccur r)" "ar_Min r \<le> length (ar_MustOccur r)"
    and "length (ar_Types r) \<le> ar_Max r"
  shows "obeys ty r xs"
proof -
  have "card (ty ` set xs) = length xs"
    using assms(1) by (metis distinct_card length_map list.set_map shapedBy_def)
  moreover have "ty ` set xs \<subseteq> set (ar_Types r)" "set (ar_MustOccur r) \<subseteq> ty ` set xs"
    using assms(1) by (auto simp: shapedBy_def list_all_iff)
  then have "card (ty ` set xs) \<le> card (set (ar_Types r))" "card (set (ar_MustOccur r)) \<le> card (ty ` set xs)"
    by (auto intro: card_mono)
  ultimately have "length xs \<le> length (ar_Types r)" "length (ar_MustOccur r) \<le> length xs"
    using card_length [of "ar_Types r"] distinct_card [OF assms(2)] by linarith+
  with assms show ?thesis by (auto simp: obeys_def shapedBy_def)
qed

section \<open>Basic outputs\<close>

record basic_output_builder =
  bob_output :: basic_output

definition NewBasicOutputBuilder :: "address \<Rightarrow> u64 \<Rightarrow> basic_output_builder" where
  "NewBasicOutputBuilder targetAddr amount =
    \<lparr>bob_output = \<lparr>bo_Amount = amount, bo_Mana = 0, bo_UnlockConditions = [AddressUC targetAddr],
       bo_Features = []\<rparr>\<rparr>"

definition NewBasicOutputBuilderFromPrevious :: "basic_output \<Rightarrow> basic_output_builder go" where
  "NewBasicOutputBuilderFromPrevious previous =
    andthen (cloneBasic previous) (\<lambda>output. Inr \<lparr>bob_output = output\<rparr>)"

definition bobSet :: "(basic_output \<Rightarrow> basic_output) \<Rightarrow> basic_output_builder \<Rightarrow> basic_output_builder" where
  "bobSet f builder = builder\<lparr>bob_output := f (bob_output builder)\<rparr>"

definition bobUpsertUC :: "unlock_condition \<Rightarrow> basic_output_builder \<Rightarrow> basic_output_builder" where
  "bobUpsertUC c = bobSet (\<lambda>x. x\<lparr>bo_UnlockConditions := ucsUpsert (bo_UnlockConditions x) c\<rparr>)"

definition bobUpsertFeature :: "feature \<Rightarrow> basic_output_builder \<Rightarrow> basic_output_builder" where
  "bobUpsertFeature f = bobSet (\<lambda>x. x\<lparr>bo_Features := featsUpsert (bo_Features x) f\<rparr>)"

definition basicOutAmount :: "u64 \<Rightarrow> basic_output_builder \<Rightarrow> basic_output_builder" where
  "basicOutAmount amount = bobSet (\<lambda>x. x\<lparr>bo_Amount := amount\<rparr>)"

definition basicOutMana :: "u64 \<Rightarrow> basic_output_builder \<Rightarrow> basic_output_builder" where
  "basicOutMana mana = bobSet (\<lambda>x. x\<lparr>bo_Mana := mana\<rparr>)"

definition basicOutAddress :: "address \<Rightarrow> basic_output_builder \<Rightarrow> basic_output_builder" where
  "basicOutAddress addr = bobUpsertUC (AddressUC addr)"

definition basicOutStorageDepositReturn :: "address \<Rightarrow> u64 \<Rightarrow> basic_output_builder \<Rightarrow> basic_output_builder" where
  "basicOutStorageDepositReturn returnAddr amount = bobUpsertUC (StorageDepositReturnUC returnAddr amount)"

definition basicOutTimelock :: "u32 \<Rightarrow> basic_output_builder \<Rightarrow> basic_output_builder" where
  "basicOutTimelock untilSlot = bobUpsertUC (TimelockUC untilSlot)"

definition basicOutExpiration :: "address \<Rightarrow> u32 \<Rightarrow> basic_output_builder \<Rightarrow> basic_output_builder" where
  "basicOutExpiration returnAddr expiredAfterSlot = bobUpsertUC (ExpirationUC returnAddr expiredAfterSlot)"

definition basicOutSender :: "address \<Rightarrow> basic_output_builder \<Rightarrow> basic_output_builder" where
  "basicOutSender senderAddr = bobUpsertFeature (SenderF senderAddr)"

definition basicOutMetadata :: "(string \<times> bytes) list \<Rightarrow> basic_output_builder \<Rightarrow> basic_output_builder" where
  "basicOutMetadata entries = bobUpsertFeature (MetadataF entries)"

definition basicOutTag :: "bytes \<Rightarrow> basic_output_builder \<Rightarrow> basic_output_builder" where
  "basicOutTag tag = bobUpsertFeature (TagF tag)"

definition basicOutNativeToken :: "bytes \<Rightarrow> int \<Rightarrow> basic_output_builder \<Rightarrow> basic_output_builder" where
  "basicOutNativeToken id1 amount = bobUpsertFeature (NativeTokenF id1 amount)"

text \<open>@\<open>Build\<close> returns the output of the builder, after it was sorted in place.\<close>

definition basicOutBuild :: "basic_output_builder \<Rightarrow> basic_output_builder \<times> basic_output go" where
  "basicOutBuild builder =
    (let builder' = bobSet (\<lambda>x. x\<lparr>bo_UnlockConditions := ucsSort (bo_UnlockConditions x),
                                   bo_Features := featsSort (bo_Features x)\<rparr>) builder
     in (builder', Inr (bob_output builder')))"

definition basicOutMustBuild :: "basic_output_builder \<Rightarrow> basic_output_builder \<times> basic_output go" where
  "basicOutMustBuild builder = (case basicOutBuild builder of (b, r) \<Rightarrow> (b, mustE r))"

inductive basic_out_reached :: "basic_output_builder \<Rightarrow> bool" where
  new: "basic_out_reached (NewBasicOutputBuilder targetAddr amount)"
| previous: "shaped (BasicO p) \<Longrightarrow> NewBasicOutputBuilderFromPrevious p = Inr b \<Longrightarrow> basic_out_reached b"
| amount: "basic_out_reached b \<Longrightarrow> basic_out_reached (basicOutAmount n b)"
| mana: "basic_out_reached b \<Longrightarrow> basic_out_reached (basicOutMana n b)"
| address: "basic_out_reached b \<Longrightarrow> basic_out_reached (basicOutAddress a b)"
| return: "basic_out_reached b \<Longrightarrow> basic_out_reached (basicOutStorageDepositReturn a n b)"
| timelock: "basic_out_reached b \<Longrightarrow> basic_out_reached (basicOutTimelock slot b)"
| expiration: "basic_out_reached b \<Longrightarrow> basic_out_reached (basicOutExpiration a slot b)"
| sender: "basic_out_reached b \<Longrightarrow> basic_out_reached (basicOutSender a b)"
| metadata: "basic_out_reached b \<Longrightarrow> basic_out_reached (basicOutMetadata m b)"
| tag: "basic_out_reached b \<Longrightarrow> basic_out_reached (basicOutTag t b)"
| native: "basic_out_reached b \<Longrightarrow> basic_out_reached (basicOutNativeToken i k b)"
| build: "basic_out_reached b \<Longrightarrow> basic_out_reached (fst (basicOutBuild b))"

section \<open>NFT outputs\<close>

record nft_output_builder =
  nob_prev :: "nft_output option"
  nob_output :: nft_output

definition NewNFTOutputBuilder :: "address \<Rightarrow> u64 \<Rightarrow> nft_output_builder" where
  "NewNFTOutputBuilder targetAddr amount =
    \<lparr>nob_prev = None, nob_output = \<lparr>no_Amount = amount, no_Mana = 0, no_NFTID = emptyID,
       no_UnlockConditions = [AddressUC targetAddr], no_Features = [], no_ImmutableFeatures = []\<rparr>\<rparr>"

definition NewNFTOutputBuilderFromPrevious :: "nft_output \<Rightarrow> nft_output_builder go" where
  "NewNFTOutputBuilderFromPrevious previous =
    andthen (cloneNFT previous) (\<lambda>output. Inr \<lparr>nob_prev = Some previous, nob_output = output\<rparr>)"

definition nobSet :: "(nft_output \<Rightarrow> nft_output) \<Rightarrow> nft_output_builder \<Rightarrow> nft_output_builder" where
  "nobSet f builder = builder\<lparr>nob_output := f (nob_output builder)\<rparr>"

definition nobUpsertUC :: "unlock_condition \<Rightarrow> nft_output_builder \<Rightarrow> nft_output_builder" where
  "nobUpsertUC c = nobSet (\<lambda>x. x\<lparr>no_UnlockConditions := ucsUpsert (no_UnlockConditions x) c\<rparr>)"

definition nobUpsertFeature :: "feature \<Rightarrow> nft_output_builder \<Rightarrow> nft_output_builder" where
  "nobUpsertFeature f = nobSet (\<lambda>x. x\<lparr>no_Features := featsUpsert (no_Features x) f\<rparr>)"

definition nobUpsertImmutable :: "feature \<Rightarrow> nft_output_builder \<Rightarrow> nft_output_builder" where
  "nobUpsertImmutable f = nobSet (\<lambda>x. x\<lparr>no_ImmutableFeatures := featsUpsert (no_ImmutableFeatures x) f\<rparr>)"

definition nftOutAmount :: "u64 \<Rightarrow> nft_output_builder \<Rightarrow> nft_output_builder" where
  "nftOutAmount amount = nobSet (\<lambda>x. x\<lparr>no_Amount := amount\<rparr>)"

definition nftOutMana :: "u64 \<Rightarrow> nft_output_builder \<Rightarrow> nft_output_builder" where
  "nftOutMana mana = nobSet (\<lambda>x. x\<lparr>no_Mana := mana\<rparr>)"

definition nftOutNFTID :: "bytes \<Rightarrow> nft_output_builder \<Rightarrow> nft_output_builder" where
  "nftOutNFTID nftID = nobSet (\<lambda>x. x\<lparr>no_NFTID := nftID\<rparr>)"

definition nftOutAddress :: "address \<Rightarrow> nft_output_builder \<Rightarrow> nft_output_builder" where
  "nftOutAddress addr = nobUpsertUC (AddressUC addr)"

definition nftOutStorageDepositReturn :: "address \<Rightarrow> u64 \<Rightarrow> nft_output_builder \<Rightarrow> nft_output_builder" where
  "nftOutStorageDepositReturn returnAddr amount = nobUpsertUC (StorageDepositReturnUC returnAddr amount)"

definition nftOutTimelock :: "u32 \<Rightarrow> nft_output_builder \<Rightarrow> nft_output_builder" where
  "nftOutTimelock untilSlot = nobUpsertUC (TimelockUC untilSlot)"

definition nftOutExpiration :: "address \<Rightarrow> u32 \<Rightarrow> nft_output_builder \<Rightarrow> nft_output_builder" where
  "nftOutExpiration returnAddr expiredAfterSlot = nobUpsertUC (ExpirationUC returnAddr expiredAfterSlot)"

definition nftOutSender :: "address \<Rightarrow> nft_output_builder \<Rightarrow> nft_output_builder" where
  "nftOutSender senderAddr = nobUpsertFeature (SenderF senderAddr)"

definition nftOutMetadata :: "(string \<times> bytes) list \<Rightarrow> nft_output_builder \<Rightarrow> nft_output_builder" where
  "nftOutMetadata entries = nobUpsertFeature (MetadataF entries)"

definition nftOutTag :: "bytes \<Rightarrow> nft_output_builder \<Rightarrow> nft_output_builder" where
  "nftOutTag tag = nobUpsertFeature (TagF tag)"

definition nftOutImmutableIssuer :: "address \<Rightarrow> nft_output_builder \<Rightarrow> nft_output_builder" where
  "nftOutImmutableIssuer issuer = nobUpsertImmutable (IssuerF issuer)"

definition nftOutImmutableMetadata :: "(string \<times> bytes) list \<Rightarrow> nft_output_builder \<Rightarrow> nft_output_builder" where
  "nftOutImmutableMetadata entries = nobUpsertImmutable (MetadataF entries)"

text \<open>A builder that started from a previous output refuses changed immutable features, before it sorts.\<close>

definition nftOutBuild ::
    "'a ledger_deps_scheme \<Rightarrow> nft_output_builder \<Rightarrow> nft_output_builder \<times> nft_output go" where
  "nftOutBuild D builder =
    (if (case nob_prev builder of None \<Rightarrow> False
         | Some prev \<Rightarrow> \<not> featsEqual D (no_ImmutableFeatures prev) (no_ImmutableFeatures (nob_output builder)))
     then (builder, throw (Errorf ''immutable features are not allowed to be changed''))
     else let builder' = nobSet (\<lambda>x. x\<lparr>no_UnlockConditions := ucsSort (no_UnlockConditions x),
                 no_Features := featsSort (no_Features x),
                 no_ImmutableFeatures := featsSort (no_ImmutableFeatures x)\<rparr>) builder
          in (builder', Inr (nob_output builder')))"

definition nftOutMustBuild ::
    "'a ledger_deps_scheme \<Rightarrow> nft_output_builder \<Rightarrow> nft_output_builder \<times> nft_output go" where
  "nftOutMustBuild D builder = (case nftOutBuild D builder of (b, r) \<Rightarrow> (b, mustE r))"

inductive nft_out_reached :: "'a ledger_deps_scheme \<Rightarrow> nft_output_builder \<Rightarrow> bool" for D where
  new: "nft_out_reached D (NewNFTOutputBuilder targetAddr amount)"
| previous: "shaped (NFTO p) \<Longrightarrow> NewNFTOutputBuilderFromPrevious p = Inr b \<Longrightarrow> nft_out_reached D b"
| amount: "nft_out_reached D b \<Longrightarrow> nft_out_reached D (nftOutAmount n b)"
| mana: "nft_out_reached D b \<Longrightarrow> nft_out_reached D (nftOutMana n b)"
| nftID: "nft_out_reached D b \<Longrightarrow> nft_out_reached D (nftOutNFTID i b)"
| address: "nft_out_reached D b \<Longrightarrow> nft_out_reached D (nftOutAddress a b)"
| return: "nft_out_reached D b \<Longrightarrow> nft_out_reached D (nftOutStorageDepositReturn a n b)"
| timelock: "nft_out_reached D b \<Longrightarrow> nft_out_reached D (nftOutTimelock slot b)"
| expiration: "nft_out_reached D b \<Longrightarrow> nft_out_reached D (nftOutExpiration a slot b)"
| sender: "nft_out_reached D b \<Longrightarrow> nft_out_reached D (nftOutSender a b)"
| metadata: "nft_out_reached D b \<Longrightarrow> nft_out_reached D (nftOutMetadata m b)"
| tag: "nft_out_reached D b \<Longrightarrow> nft_out_reached D (nftOutTag t b)"
| immIssuer: "nft_out_reached D b \<Longrightarrow> nft_out_reached D (nftOutImmutableIssuer a b)"
| immMetadata: "nft_out_reached D b \<Longrightarrow> nft_out_reached D (nftOutImmutableMetadata m b)"
| build: "nft_out_reached D b \<Longrightarrow> nft_out_reached D (fst (nftOutBuild D b))"

section \<open>Delegation outputs\<close>

record delegation_output_builder =
  dob_output :: delegation_output

definition NewDelegationOutputBuilder :: "bytes \<Rightarrow> address \<Rightarrow> u64 \<Rightarrow> delegation_output_builder" where
  "NewDelegationOutputBuilder validatorAddress addr amount =
    \<lparr>dob_output = \<lparr>do_Amount = amount, do_DelegatedAmount = 0, do_DelegationID = emptyID,
       do_ValidatorAddress = validatorAddress, do_StartEpoch = 0, do_EndEpoch = 0,
       do_UnlockConditions = [AddressUC addr]\<rparr>\<rparr>"

definition NewDelegationOutputBuilderFromPrevious :: "delegation_output \<Rightarrow> delegation_output_builder go" where
  "NewDelegationOutputBuilderFromPrevious previous =
    andthen (cloneDelegation previous) (\<lambda>output. Inr \<lparr>dob_output = output\<rparr>)"

definition dobSet ::
    "(delegation_output \<Rightarrow> delegation_output) \<Rightarrow> delegation_output_builder \<Rightarrow> delegation_output_builder" where
  "dobSet f builder = builder\<lparr>dob_output := f (dob_output builder)\<rparr>"

definition delegationOutAmount :: "u64 \<Rightarrow> delegation_output_builder \<Rightarrow> delegation_output_builder" where
  "delegationOutAmount amount = dobSet (\<lambda>x. x\<lparr>do_Amount := amount\<rparr>)"

definition delegationOutDelegatedAmount :: "u64 \<Rightarrow> delegation_output_builder \<Rightarrow> delegation_output_builder" where
  "delegationOutDelegatedAmount delegatedAmount = dobSet (\<lambda>x. x\<lparr>do_DelegatedAmount := delegatedAmount\<rparr>)"

definition delegationOutValidatorAddress :: "bytes \<Rightarrow> delegation_output_builder \<Rightarrow> delegation_output_builder" where
  "delegationOutValidatorAddress validatorAddress = dobSet (\<lambda>x. x\<lparr>do_ValidatorAddress := validatorAddress\<rparr>)"

definition delegationOutDelegationID :: "bytes \<Rightarrow> delegation_output_builder \<Rightarrow> delegation_output_builder" where
  "delegationOutDelegationID delegationID = dobSet (\<lambda>x. x\<lparr>do_DelegationID := delegationID\<rparr>)"

definition delegationOutStartEpoch :: "u32 \<Rightarrow> delegation_output_builder \<Rightarrow> delegation_output_builder" where
  "delegationOutStartEpoch startEpoch = dobSet (\<lambda>x. x\<lparr>do_StartEpoch := startEpoch\<rparr>)"

definition delegationOutEndEpoch :: "u32 \<Rightarrow> delegation_output_builder \<Rightarrow> delegation_output_builder" where
  "delegationOutEndEpoch endEpoch = dobSet (\<lambda>x. x\<lparr>do_EndEpoch := endEpoch\<rparr>)"

definition delegationOutAddress :: "address \<Rightarrow> delegation_output_builder \<Rightarrow> delegation_output_builder" where
  "delegationOutAddress addr =
    dobSet (\<lambda>x. x\<lparr>do_UnlockConditions := ucsUpsert (do_UnlockConditions x) (AddressUC addr)\<rparr>)"

definition delegationOutBuild ::
    "delegation_output_builder \<Rightarrow> delegation_output_builder \<times> delegation_output go" where
  "delegationOutBuild builder =
    (let builder' = dobSet (\<lambda>x. x\<lparr>do_UnlockConditions := ucsSort (do_UnlockConditions x)\<rparr>) builder
     in (builder', Inr (dob_output builder')))"

definition delegationOutMustBuild ::
    "delegation_output_builder \<Rightarrow> delegation_output_builder \<times> delegation_output go" where
  "delegationOutMustBuild builder = (case delegationOutBuild builder of (b, r) \<Rightarrow> (b, mustE r))"

inductive delegation_out_reached :: "delegation_output_builder \<Rightarrow> bool" where
  new: "delegation_out_reached (NewDelegationOutputBuilder v a n)"
| previous: "shaped (DelegationO p) \<Longrightarrow> NewDelegationOutputBuilderFromPrevious p = Inr b \<Longrightarrow>
    delegation_out_reached b"
| amount: "delegation_out_reached b \<Longrightarrow> delegation_out_reached (delegationOutAmount n b)"
| delegated: "delegation_out_reached b \<Longrightarrow> delegation_out_reached (delegationOutDelegatedAmount n b)"
| validator: "delegation_out_reached b \<Longrightarrow> delegation_out_reached (delegationOutValidatorAddress v b)"
| delegationID: "delegation_out_reached b \<Longrightarrow> delegation_out_reached (delegationOutDelegationID i b)"
| start: "delegation_out_reached b \<Longrightarrow> delegation_out_reached (delegationOutStartEpoch e b)"
| end_epoch: "delegation_out_reached b \<Longrightarrow> delegation_out_reached (delegationOutEndEpoch e b)"
| address: "delegation_out_reached b \<Longrightarrow> delegation_out_reached (delegationOutAddress a b)"
| build: "delegation_out_reached b \<Longrightarrow> delegation_out_reached (fst (delegationOutBuild b))"

section \<open>Foundry outputs\<close>

record foundry_output_builder =
  fob_prev :: "foundry_output option"
  fob_output :: foundry_output

definition NewFoundryOutputBuilder ::
    "bytes \<Rightarrow> u64 \<Rightarrow> u32 \<Rightarrow> simple_token_scheme \<Rightarrow> foundry_output_builder" where
  "NewFoundryOutputBuilder accountAddr amount serialNumber tokenScheme =
    \<lparr>fob_prev = None, fob_output = \<lparr>fo_Amount = amount, fo_SerialNumber = serialNumber,
       fo_TokenScheme = tokenScheme, fo_UnlockConditions = [ImmutableAccountUC accountAddr],
       fo_Features = [], fo_ImmutableFeatures = []\<rparr>\<rparr>"

definition NewFoundryOutputBuilderFromPrevious :: "foundry_output \<Rightarrow> foundry_output_builder go" where
  "NewFoundryOutputBuilderFromPrevious previous =
    andthen (cloneFoundry previous) (\<lambda>output. Inr \<lparr>fob_prev = Some previous, fob_output = output\<rparr>)"

definition fobSet :: "(foundry_output \<Rightarrow> foundry_output) \<Rightarrow> foundry_output_builder \<Rightarrow> foundry_output_builder" where
  "fobSet f builder = builder\<lparr>fob_output := f (fob_output builder)\<rparr>"

definition foundryOutAmount :: "u64 \<Rightarrow> foundry_output_builder \<Rightarrow> foundry_output_builder" where
  "foundryOutAmount amount = fobSet (\<lambda>x. x\<lparr>fo_Amount := amount\<rparr>)"

definition foundryOutMetadata :: "(string \<times> bytes) list \<Rightarrow> foundry_output_builder \<Rightarrow> foundry_output_builder" where
  "foundryOutMetadata entries = fobSet (\<lambda>x. x\<lparr>fo_Features := featsUpsert (fo_Features x) (MetadataF entries)\<rparr>)"

definition foundryOutNativeToken :: "bytes \<Rightarrow> int \<Rightarrow> foundry_output_builder \<Rightarrow> foundry_output_builder" where
  "foundryOutNativeToken id1 amount =
    fobSet (\<lambda>x. x\<lparr>fo_Features := featsUpsert (fo_Features x) (NativeTokenF id1 amount)\<rparr>)"

definition foundryOutImmutableMetadata ::
    "(string \<times> bytes) list \<Rightarrow> foundry_output_builder \<Rightarrow> foundry_output_builder" where
  "foundryOutImmutableMetadata entries =
    fobSet (\<lambda>x. x\<lparr>fo_ImmutableFeatures := featsUpsert (fo_ImmutableFeatures x) (MetadataF entries)\<rparr>)"

definition foundryOutTokenScheme :: "simple_token_scheme \<Rightarrow> foundry_output_builder \<Rightarrow> foundry_output_builder" where
  "foundryOutTokenScheme tokenScheme = fobSet (\<lambda>x. x\<lparr>fo_TokenScheme := tokenScheme\<rparr>)"

definition foundryOutBuild ::
    "'a ledger_deps_scheme \<Rightarrow> foundry_output_builder \<Rightarrow> foundry_output_builder \<times> foundry_output go" where
  "foundryOutBuild D builder =
    (if (case fob_prev builder of None \<Rightarrow> False
         | Some prev \<Rightarrow> \<not> featsEqual D (fo_ImmutableFeatures prev) (fo_ImmutableFeatures (fob_output builder)))
     then (builder, throw (Errorf ''immutable features are not allowed to be changed''))
     else let builder' = fobSet (\<lambda>x. x\<lparr>fo_UnlockConditions := ucsSort (fo_UnlockConditions x),
                 fo_Features := featsSort (fo_Features x),
                 fo_ImmutableFeatures := featsSort (fo_ImmutableFeatures x)\<rparr>) builder
          in (builder', Inr (fob_output builder')))"

definition foundryOutMustBuild ::
    "'a ledger_deps_scheme \<Rightarrow> foundry_output_builder \<Rightarrow> foundry_output_builder \<times> foundry_output go" where
  "foundryOutMustBuild D builder = (case foundryOutBuild D builder of (b, r) \<Rightarrow> (b, mustE r))"

inductive foundry_out_reached :: "'a ledger_deps_scheme \<Rightarrow> foundry_output_builder \<Rightarrow> bool" for D where
  new: "foundry_out_reached D (NewFoundryOutputBuilder a n serial scheme)"
| previous: "shaped (FoundryO p) \<Longrightarrow> NewFoundryOutputBuilderFromPrevious p = Inr b \<Longrightarrow> foundry_out_reached D b"
| amount: "foundry_out_reached D b \<Longrightarrow> foundry_out_reached D (foundryOutAmount n b)"
| metadata: "foundry_out_reached D b \<Longrightarrow> foundry_out_reached D (foundryOutMetadata m b)"
| native: "foundry_out_reached D b \<Longrightarrow> foundry_out_reached D (foundryOutNativeToken i k b)"
| immMetadata: "foundry_out_reached D b \<Longrightarrow> foundry_out_reached D (foundryOutImmutableMetadata m b)"
| scheme: "foundry_out_reached D b \<Longrightarrow> foundry_out_reached D (foundryOutTokenScheme scheme b)"
| build: "foundry_out_reached D b \<Longrightarrow> foundry_out_reached D (fst (foundryOutBuild D b))"

section \<open>Anchor outputs\<close>

text \<open>The builder notes which calls need the state controller and which the governor.\<close>

record anchor_output_builder =
  anb_prev :: "anchor_output option"
  anb_output :: anchor_output
  anb_stateCtrlReq :: bool
  anb_govCtrlReq :: bool

definition NewAnchorOutputBuilder :: "address \<Rightarrow> address \<Rightarrow> u64 \<Rightarrow> anchor_output_builder" where
  "NewAnchorOutputBuilder stateCtrl govAddr amount =
    \<lparr>anb_prev = None, anb_output = \<lparr>an_Amount = amount, an_Mana = 0, an_AnchorID = emptyID, an_StateIndex = 0,
       an_UnlockConditions = [StateControllerAddressUC stateCtrl, GovernorAddressUC govAddr],
       an_Features = [], an_ImmutableFeatures = []\<rparr>,
     anb_stateCtrlReq = False, anb_govCtrlReq = False\<rparr>"

definition NewAnchorOutputBuilderFromPrevious :: "anchor_output \<Rightarrow> anchor_output_builder go" where
  "NewAnchorOutputBuilderFromPrevious previous =
    andthen (cloneAnchor previous) (\<lambda>output.
    Inr \<lparr>anb_prev = Some previous, anb_output = output, anb_stateCtrlReq = False, anb_govCtrlReq = False\<rparr>)"

definition anbSet :: "(anchor_output \<Rightarrow> anchor_output) \<Rightarrow> anchor_output_builder \<Rightarrow> anchor_output_builder" where
  "anbSet f builder = builder\<lparr>anb_output := f (anb_output builder)\<rparr>"

definition anchorOutAmount :: "u64 \<Rightarrow> anchor_output_builder \<Rightarrow> anchor_output_builder" where
  "anchorOutAmount amount builder = (anbSet (\<lambda>x. x\<lparr>an_Amount := amount\<rparr>) builder)\<lparr>anb_stateCtrlReq := True\<rparr>"

definition anchorOutMana :: "u64 \<Rightarrow> anchor_output_builder \<Rightarrow> anchor_output_builder" where
  "anchorOutMana mana = anbSet (\<lambda>x. x\<lparr>an_Mana := mana\<rparr>)"

definition anchorOutAnchorID :: "bytes \<Rightarrow> anchor_output_builder \<Rightarrow> anchor_output_builder" where
  "anchorOutAnchorID anchorID = anbSet (\<lambda>x. x\<lparr>an_AnchorID := anchorID\<rparr>)"

definition anchorOutStateController :: "address \<Rightarrow> anchor_output_builder \<Rightarrow> anchor_output_builder" where
  "anchorOutStateController stateCtrl builder =
    (anbSet (\<lambda>x. x\<lparr>an_UnlockConditions := ucsUpsert (an_UnlockConditions x) (StateControllerAddressUC stateCtrl)\<rparr>)
       builder)\<lparr>anb_govCtrlReq := True\<rparr>"

definition anchorOutGovernor :: "address \<Rightarrow> anchor_output_builder \<Rightarrow> anchor_output_builder" where
  "anchorOutGovernor governor builder =
    (anbSet (\<lambda>x. x\<lparr>an_UnlockConditions := ucsUpsert (an_UnlockConditions x) (GovernorAddressUC governor)\<rparr>)
       builder)\<lparr>anb_govCtrlReq := True\<rparr>"

definition anchorOutMetadata :: "(string \<times> bytes) list \<Rightarrow> anchor_output_builder \<Rightarrow> anchor_output_builder" where
  "anchorOutMetadata entries builder =
    (anbSet (\<lambda>x. x\<lparr>an_Features := featsUpsert (an_Features x) (MetadataF entries)\<rparr>) builder)\<lparr>anb_govCtrlReq := True\<rparr>"

definition anchorOutStateMetadata :: "(string \<times> bytes) list \<Rightarrow> anchor_output_builder \<Rightarrow> anchor_output_builder" where
  "anchorOutStateMetadata entries builder =
    (anbSet (\<lambda>x. x\<lparr>an_Features := featsUpsert (an_Features x) (StateMetadataF entries)\<rparr>) builder)
      \<lparr>anb_stateCtrlReq := True\<rparr>"

definition anchorOutImmutableIssuer :: "address \<Rightarrow> anchor_output_builder \<Rightarrow> anchor_output_builder" where
  "anchorOutImmutableIssuer issuer =
    anbSet (\<lambda>x. x\<lparr>an_ImmutableFeatures := featsUpsert (an_ImmutableFeatures x) (IssuerF issuer)\<rparr>)"

definition anchorOutImmutableMetadata ::
    "(string \<times> bytes) list \<Rightarrow> anchor_output_builder \<Rightarrow> anchor_output_builder" where
  "anchorOutImmutableMetadata entries =
    anbSet (\<lambda>x. x\<lparr>an_ImmutableFeatures := featsUpsert (an_ImmutableFeatures x) (MetadataF entries)\<rparr>)"

text \<open>@\<open>Build\<close>: the state index moves before the immutable features are compared.\<close>

definition anchorOutBuild ::
    "'a ledger_deps_scheme \<Rightarrow> anchor_output_builder \<Rightarrow> anchor_output_builder \<times> anchor_output go" where
  "anchorOutBuild D builder =
    (if anb_prev builder \<noteq> None \<and> anb_govCtrlReq builder \<and> anb_stateCtrlReq builder
     then (builder, throw (Errorf
       ''builder calls require both state and governor transitions which is not possible''))
     else let builder =
       (if anb_prev builder \<noteq> None \<and> anb_stateCtrlReq builder
        then anbSet (\<lambda>x. x\<lparr>an_StateIndex := an_StateIndex x + 1\<rparr>) builder else builder)
     in if (case anb_prev builder of None \<Rightarrow> False
         | Some prev \<Rightarrow> \<not> featsEqual D (an_ImmutableFeatures prev) (an_ImmutableFeatures (anb_output builder)))
     then (builder, throw (Errorf ''immutable features are not allowed to be changed''))
     else let builder' = anbSet (\<lambda>x. x\<lparr>an_UnlockConditions := ucsSort (an_UnlockConditions x),
                 an_Features := featsSort (an_Features x),
                 an_ImmutableFeatures := featsSort (an_ImmutableFeatures x)\<rparr>) builder
          in (builder', Inr (anb_output builder')))"

definition anchorOutMustBuild ::
    "'a ledger_deps_scheme \<Rightarrow> anchor_output_builder \<Rightarrow> anchor_output_builder \<times> anchor_output go" where
  "anchorOutMustBuild D builder = (case anchorOutBuild D builder of (b, r) \<Rightarrow> (b, mustE r))"

text \<open>The two narrowed views of the builder, with the methods of one kind of transition each.\<close>

record anchor_state_transition =
  ast_builder :: anchor_output_builder

definition StateTransition :: "anchor_output_builder \<Rightarrow> anchor_state_transition" where
  "StateTransition builder = \<lparr>ast_builder = builder\<rparr>"

definition stateTransAmount :: "u64 \<Rightarrow> anchor_state_transition \<Rightarrow> anchor_state_transition" where
  "stateTransAmount amount tr = StateTransition (anchorOutAmount amount (ast_builder tr))"

definition stateTransMana :: "u64 \<Rightarrow> anchor_state_transition \<Rightarrow> anchor_state_transition" where
  "stateTransMana mana tr = StateTransition (anchorOutMana mana (ast_builder tr))"

definition stateTransStateMetadata ::
    "(string \<times> bytes) list \<Rightarrow> anchor_state_transition \<Rightarrow> anchor_state_transition" where
  "stateTransStateMetadata entries tr = StateTransition (anchorOutStateMetadata entries (ast_builder tr))"

record anchor_governance_transition =
  agt_builder :: anchor_output_builder

definition GovernanceTransition :: "anchor_output_builder \<Rightarrow> anchor_governance_transition" where
  "GovernanceTransition builder = \<lparr>agt_builder = builder\<rparr>"

definition govTransStateController ::
    "address \<Rightarrow> anchor_governance_transition \<Rightarrow> anchor_governance_transition" where
  "govTransStateController stateCtrl tr =
    GovernanceTransition (anchorOutStateController stateCtrl (agt_builder tr))"

definition govTransGovernor :: "address \<Rightarrow> anchor_governance_transition \<Rightarrow> anchor_governance_transition" where
  "govTransGovernor governor tr = GovernanceTransition (anchorOutGovernor governor (agt_builder tr))"

definition govTransMetadata ::
    "(string \<times> bytes) list \<Rightarrow> anchor_governance_transition \<Rightarrow> anchor_governance_transition" where
  "govTransMetadata entries tr = GovernanceTransition (anchorOutMetadata entries (agt_builder tr))"

inductive anchor_out_reached :: "'a ledger_deps_scheme \<Rightarrow> anchor_output_builder \<Rightarrow> bool" for D where
  new: "anchor_out_reached D (NewAnchorOutputBuilder s g n)"
| previous: "shaped (AnchorO p) \<Longrightarrow> NewAnchorOutputBuilderFromPrevious p = Inr b \<Longrightarrow> anchor_out_reached D b"
| amount: "anchor_out_reached D b \<Longrightarrow> anchor_out_reached D (anchorOutAmount n b)"
| mana: "anchor_out_reached D b \<Longrightarrow> anchor_out_reached D (anchorOutMana n b)"
| anchorID: "anchor_out_reached D b \<Longrightarrow> anchor_out_reached D (anchorOutAnchorID i b)"
| stateController: "anchor_out_reached D b \<Longrightarrow> anchor_out_reached D (anchorOutStateController a b)"
| governor: "anchor_out_reached D b \<Longrightarrow> anchor_out_reached D (anchorOutGovernor a b)"
| metadata: "anchor_out_reached D b \<Longrightarrow> anchor_out_reached D (anchorOutMetadata m b)"
| stateMetadata: "anchor_out_reached D b \<Longrightarrow> anchor_out_reached D (anchorOutStateMetadata m b)"
| immIssuer: "anchor_out_reached D b \<Longrightarrow> anchor_out_reached D (anchorOutImmutableIssuer a b)"
| immMetadata: "anchor_out_reached D b \<Longrightarrow> anchor_out_reached D (anchorOutImmutableMetadata m b)"
| build: "anchor_out_reached D b \<Longrightarrow> anchor_out_reached D (fst (anchorOutBuild D b))"

section \<open>The contract of the builders\<close>

text \<open>The laws: whatever methods were called, the output has the shape of its type, and what is built is that
  output with its slices sorted.  The client is the validation of outputs.\<close>

definition sortedOf :: "ledger_output \<Rightarrow> ledger_output \<Rightarrow> bool" where
  "sortedOf cur out \<longleftrightarrow>
     outUCs out = ucsSort (outUCs cur) \<and> outFeatures out = featsSort (outFeatures cur)
     \<and> immutableFeatures out = featsSort (immutableFeatures cur)
     \<and> unlockCondArrRules out = unlockCondArrRules cur \<and> featBlocksArrRules out = featBlocksArrRules cur
     \<and> immFeatBlocksArrRules out = immFeatBlocksArrRules cur \<and> (\<forall>x. out \<noteq> ImplicitAccountO x)"

definition wellBuilt :: "ledger_output \<Rightarrow> bool" where
  "wellBuilt out \<longleftrightarrow>
     obeys ucType (unlockCondArrRules out) (outUCs out)
     \<and> obeys featType (featBlocksArrRules out) (outFeatures out)
     \<and> obeys featType (immFeatBlocksArrRules out) (immutableFeatures out)
     \<and> OutputsSyntacticalUnlockConditionLexicalOrderAndUniqueness 0 out = Inr ()
     \<and> OutputsSyntacticalFeaturesLexicalOrderAndUniqueness 0 out = Inr ()"

lemma order_accepted:
  assumes "sorted_wrt (<) (map ucType (outUCs out))" "sorted_wrt (<) (map featType (outFeatures out))"
    and "sorted_wrt (<) (map featType (immutableFeatures out))" "\<forall>x. out \<noteq> ImplicitAccountO x"
  shows "OutputsSyntacticalUnlockConditionLexicalOrderAndUniqueness 0 out = Inr ()
    \<and> OutputsSyntacticalFeaturesLexicalOrderAndUniqueness 0 out = Inr ()"
  using assms
  by (cases out) (simp_all add: OutputsSyntacticalUnlockConditionLexicalOrderAndUniqueness_def
      OutputsSyntacticalFeaturesLexicalOrderAndUniqueness_def uc_order.accepts feat_order.accepts
      immutableFeatures_def andthen_eq_Inr wrapE_eq_Inr)

lemma rules_numbers:
  "distinct (ar_MustOccur (unlockCondArrRules out))" "distinct (ar_MustOccur (featBlocksArrRules out))"
  "distinct (ar_MustOccur (immFeatBlocksArrRules out))"
  "ar_Min (unlockCondArrRules out) \<le> length (ar_MustOccur (unlockCondArrRules out))"
  "ar_Min (featBlocksArrRules out) \<le> length (ar_MustOccur (featBlocksArrRules out))"
  "ar_Min (immFeatBlocksArrRules out) \<le> length (ar_MustOccur (immFeatBlocksArrRules out))"
  "length (ar_Types (unlockCondArrRules out)) \<le> ar_Max (unlockCondArrRules out)"
  "length (ar_Types (featBlocksArrRules out)) \<le> ar_Max (featBlocksArrRules out)"
  "length (ar_Types (immFeatBlocksArrRules out)) \<le> ar_Max (immFeatBlocksArrRules out)"
  by (cases out; simp add: unlockCondArrRules_def featBlocksArrRules_def immFeatBlocksArrRules_def)+

locale output_builder =
  fixes reached :: "'b \<Rightarrow> bool" and current :: "'b \<Rightarrow> 'o" and wrap :: "'o \<Rightarrow> ledger_output"
    and build :: "'b \<Rightarrow> 'b \<times> 'o go"
  assumes shape_law: "reached b \<Longrightarrow> shaped (wrap (current b))"
    and build_law: "snd (build b) = Inr out \<Longrightarrow> sortedOf (wrap (current b)) (wrap out)"
begin

lemma built_shape: "reached b \<Longrightarrow> snd (build b) = Inr out \<Longrightarrow> shaped (wrap out)"
  using shape_law [of b] build_law [of b out] by (simp add: shaped_def sortedOf_def ucsSort_def featsSort_def)

lemma built_well:
  assumes "reached b" "snd (build b) = Inr out"
  shows "wellBuilt (wrap out)"
proof -
  have cur: "shaped (wrap (current b))" and sorted: "sortedOf (wrap (current b)) (wrap out)"
    using assms shape_law build_law by blast+
  have "shaped (wrap out)" by (rule built_shape [OF assms])
  then have "obeys ucType (unlockCondArrRules (wrap out)) (outUCs (wrap out))"
    "obeys featType (featBlocksArrRules (wrap out)) (outFeatures (wrap out))"
    "obeys featType (immFeatBlocksArrRules (wrap out)) (immutableFeatures (wrap out))"
    by (auto simp: shaped_def intro: shapedBy_obeys rules_numbers)
  moreover have "OutputsSyntacticalUnlockConditionLexicalOrderAndUniqueness 0 (wrap out) = Inr ()
      \<and> OutputsSyntacticalFeaturesLexicalOrderAndUniqueness 0 (wrap out) = Inr ()"
    using cur sorted
    by (intro order_accepted) (simp_all add: sortedOf_def shaped_def shapedBy_def ucsSort_def featsSort_def
        sort_strict_by)
  ultimately show ?thesis by (simp add: wellBuilt_def)
qed

end

lemmas shape_simps = shaped_def immutableFeatures_def unlockCondArrRules_def featBlocksArrRules_def
  immFeatBlocksArrRules_def ucsUpsert_def featsUpsert_def featsRemove_def ucsSort_def featsSort_def
  shapedBy_Upsert shapedBy_Remove

lemma shapedBy_Nil [simp]: "shapedBy ty r [] \<longleftrightarrow> ar_MustOccur r = []"
  by (cases "ar_MustOccur r") (simp_all add: shapedBy_def)

lemma featsEqual_distinct:
  assumes "featsEqual D f g"
  shows "map featType g = map featType f"
  using assms unfolding featsEqual_def
  by (induction "featEqual D" f g rule: sliceEqual.induct) (auto dest: featEqual_refl_kind)

interpretation basic_out: output_builder basic_out_reached bob_output BasicO basicOutBuild
proof
  fix b assume "basic_out_reached b"
  then show "shaped (BasicO (bob_output b))"
  proof induction
    case (previous p b)
    then show ?case by (auto simp: NewBasicOutputBuilderFromPrevious_def andthen_eq_Inr dest: clone_outputs)
  qed (simp_all add: shape_simps NewBasicOutputBuilder_def basicOutAmount_def basicOutMana_def basicOutAddress_def
      basicOutStorageDepositReturn_def basicOutTimelock_def basicOutExpiration_def basicOutSender_def
      basicOutMetadata_def basicOutTag_def basicOutNativeToken_def basicOutBuild_def bobUpsertUC_def
      bobUpsertFeature_def bobSet_def Let_def shapedBy_def [of _ _ "[_]"])
qed (auto simp: basicOutBuild_def Let_def sortedOf_def bobSet_def immutableFeatures_def featsSort_def
    unlockCondArrRules_def featBlocksArrRules_def immFeatBlocksArrRules_def)

interpretation nft_out: output_builder "nft_out_reached D" nob_output NFTO "nftOutBuild D" for D :: "'a ledger_deps_scheme"
proof
  fix b assume "nft_out_reached D b"
  then show "shaped (NFTO (nob_output b))"
  proof induction
    case (previous p b)
    then show ?case by (auto simp: NewNFTOutputBuilderFromPrevious_def andthen_eq_Inr dest: clone_outputs)
  qed (simp_all add: shape_simps Let_def shapedBy_def [of _ _ "[_]"]
      NewNFTOutputBuilder_def nftOutAmount_def nftOutMana_def nftOutNFTID_def nftOutAddress_def
      nftOutStorageDepositReturn_def nftOutTimelock_def nftOutExpiration_def nftOutSender_def nftOutMetadata_def
      nftOutTag_def nftOutImmutableIssuer_def nftOutImmutableMetadata_def nftOutBuild_def nobUpsertUC_def
      nobUpsertFeature_def nobUpsertImmutable_def nobSet_def)
qed (auto simp: Let_def sortedOf_def immutableFeatures_def featsSort_def throw_def
    unlockCondArrRules_def featBlocksArrRules_def immFeatBlocksArrRules_def nftOutBuild_def nobSet_def
    split: if_splits option.splits)

interpretation delegation_out: output_builder delegation_out_reached dob_output DelegationO delegationOutBuild
proof
  fix b assume "delegation_out_reached b"
  then show "shaped (DelegationO (dob_output b))"
  proof induction
    case (previous p b)
    then show ?case by (auto simp: NewDelegationOutputBuilderFromPrevious_def andthen_eq_Inr dest: clone_outputs)
  qed (simp_all add: shape_simps Let_def shapedBy_def [of _ _ "[_]"]
      NewDelegationOutputBuilder_def delegationOutAmount_def delegationOutDelegatedAmount_def
      delegationOutValidatorAddress_def delegationOutDelegationID_def delegationOutStartEpoch_def
      delegationOutEndEpoch_def delegationOutAddress_def delegationOutBuild_def dobSet_def)
qed (auto simp: Let_def sortedOf_def immutableFeatures_def featsSort_def throw_def
    unlockCondArrRules_def featBlocksArrRules_def immFeatBlocksArrRules_def delegationOutBuild_def dobSet_def
    split: if_splits option.splits)

interpretation foundry_out: output_builder "foundry_out_reached D" fob_output FoundryO "foundryOutBuild D" for D :: "'a ledger_deps_scheme"
proof
  fix b assume "foundry_out_reached D b"
  then show "shaped (FoundryO (fob_output b))"
  proof induction
    case (previous p b)
    then show ?case by (auto simp: NewFoundryOutputBuilderFromPrevious_def andthen_eq_Inr dest: clone_outputs)
  qed (simp_all add: shape_simps Let_def shapedBy_def [of _ _ "[_]"]
      NewFoundryOutputBuilder_def foundryOutAmount_def foundryOutMetadata_def foundryOutNativeToken_def
      foundryOutImmutableMetadata_def foundryOutTokenScheme_def foundryOutBuild_def fobSet_def)
qed (auto simp: Let_def sortedOf_def immutableFeatures_def featsSort_def throw_def
    unlockCondArrRules_def featBlocksArrRules_def immFeatBlocksArrRules_def foundryOutBuild_def fobSet_def
    split: if_splits option.splits)

interpretation anchor_out: output_builder "anchor_out_reached D" anb_output AnchorO "anchorOutBuild D" for D :: "'a ledger_deps_scheme"
proof
  fix b assume "anchor_out_reached D b"
  then show "shaped (AnchorO (anb_output b))"
  proof induction
    case (previous p b)
    then show ?case by (auto simp: NewAnchorOutputBuilderFromPrevious_def andthen_eq_Inr dest: clone_outputs)
  qed (simp_all add: shape_simps Let_def shapedBy_def [of _ _ "[_]"]
      shapedBy_def [of _ _ "[_, _]"] NewAnchorOutputBuilder_def anchorOutAmount_def anchorOutMana_def
      anchorOutAnchorID_def anchorOutStateController_def anchorOutGovernor_def anchorOutMetadata_def
      anchorOutStateMetadata_def anchorOutImmutableIssuer_def anchorOutImmutableMetadata_def anchorOutBuild_def
      anbSet_def)
qed (auto simp: Let_def sortedOf_def immutableFeatures_def featsSort_def throw_def
    unlockCondArrRules_def featBlocksArrRules_def immFeatBlocksArrRules_def anchorOutBuild_def anbSet_def
    split: if_splits option.splits)

end
