(* ===== verification/Account_Builder.thy ===== *)
theory Account_Builder
  imports Output_Builders
begin

text \<open>
  The builder of account outputs, builder/output_builder_account.go, with its transitions of the block
  issuer and the staking feature.  A transition holds a pointer to the feature: into the output when the
  output has the feature, and to a feature of its own when it has none.  What every builder of outputs
  promises is proved once, in a locale.
\<close>

record account_output_builder =
  aob_prev :: "account_output option"
  aob_output :: account_output

definition NewAccountOutputBuilder :: "address \<Rightarrow> u64 \<Rightarrow> account_output_builder" where
  "NewAccountOutputBuilder targetAddr amount =
    \<lparr>aob_prev = None, aob_output = \<lparr>ao_Amount = amount, ao_Mana = 0, ao_AccountID = emptyID,
       ao_FoundryCounter = 0, ao_UnlockConditions = [AddressUC targetAddr], ao_Features = [],
       ao_ImmutableFeatures = []\<rparr>\<rparr>"

definition NewAccountOutputBuilderFromPrevious :: "account_output \<Rightarrow> account_output_builder go" where
  "NewAccountOutputBuilderFromPrevious previous =
    andthen (cloneAccount previous) (\<lambda>output. Inr \<lparr>aob_prev = Some previous, aob_output = output\<rparr>)"

definition aobSet :: "(account_output \<Rightarrow> account_output) \<Rightarrow> account_output_builder \<Rightarrow> account_output_builder" where
  "aobSet f builder = builder\<lparr>aob_output := f (aob_output builder)\<rparr>"

definition aobUpsertFeature :: "feature \<Rightarrow> account_output_builder \<Rightarrow> account_output_builder" where
  "aobUpsertFeature f = aobSet (\<lambda>x. x\<lparr>ao_Features := featsUpsert (ao_Features x) f\<rparr>)"

definition aobUpsertImmutable :: "feature \<Rightarrow> account_output_builder \<Rightarrow> account_output_builder" where
  "aobUpsertImmutable f = aobSet (\<lambda>x. x\<lparr>ao_ImmutableFeatures := featsUpsert (ao_ImmutableFeatures x) f\<rparr>)"

definition accountOutAmount :: "u64 \<Rightarrow> account_output_builder \<Rightarrow> account_output_builder" where
  "accountOutAmount amount = aobSet (\<lambda>x. x\<lparr>ao_Amount := amount\<rparr>)"

definition accountOutMana :: "u64 \<Rightarrow> account_output_builder \<Rightarrow> account_output_builder" where
  "accountOutMana mana = aobSet (\<lambda>x. x\<lparr>ao_Mana := mana\<rparr>)"

definition accountOutAccountID :: "bytes \<Rightarrow> account_output_builder \<Rightarrow> account_output_builder" where
  "accountOutAccountID accountID = aobSet (\<lambda>x. x\<lparr>ao_AccountID := accountID\<rparr>)"

definition FoundriesToGenerate :: "u32 \<Rightarrow> account_output_builder \<Rightarrow> account_output_builder" where
  "FoundriesToGenerate count1 = aobSet (\<lambda>x. x\<lparr>ao_FoundryCounter := ao_FoundryCounter x + count1\<rparr>)"

definition accountOutAddress :: "address \<Rightarrow> account_output_builder \<Rightarrow> account_output_builder" where
  "accountOutAddress addr =
    aobSet (\<lambda>x. x\<lparr>ao_UnlockConditions := ucsUpsert (ao_UnlockConditions x) (AddressUC addr)\<rparr>)"

definition accountOutSender :: "address \<Rightarrow> account_output_builder \<Rightarrow> account_output_builder" where
  "accountOutSender senderAddr = aobUpsertFeature (SenderF senderAddr)"

definition accountOutMetadata :: "(string \<times> bytes) list \<Rightarrow> account_output_builder \<Rightarrow> account_output_builder" where
  "accountOutMetadata entries = aobUpsertFeature (MetadataF entries)"

definition accountOutBlockIssuer :: "bytes list \<Rightarrow> u32 \<Rightarrow> account_output_builder \<Rightarrow> account_output_builder" where
  "accountOutBlockIssuer keys expirySlot =
    aobUpsertFeature (BlockIssuerF \<lparr>bif_ExpirySlot = expirySlot, bif_BlockIssuerKeys = keys\<rparr>)"

text \<open>The optional end epoch is a variadic argument.\<close>

definition MaxEpochIndex :: u32 where
  "MaxEpochIndex = - 1"

definition accountOutStaking ::
    "u64 \<Rightarrow> u64 \<Rightarrow> u32 \<Rightarrow> u32 list \<Rightarrow> account_output_builder \<Rightarrow> account_output_builder" where
  "accountOutStaking amount fixedCost startEpoch optEndEpoch =
    (let endEpoch = (case optEndEpoch of [] \<Rightarrow> MaxEpochIndex | e # _ \<Rightarrow> e)
     in aobUpsertFeature (StakingF \<lparr>sf_StakedAmount = amount, sf_FixedCost = fixedCost,
          sf_StartEpoch = startEpoch, sf_EndEpoch = endEpoch\<rparr>))"

definition accountOutImmutableIssuer :: "address \<Rightarrow> account_output_builder \<Rightarrow> account_output_builder" where
  "accountOutImmutableIssuer issuer = aobUpsertImmutable (IssuerF issuer)"

definition accountOutImmutableMetadata ::
    "(string \<times> bytes) list \<Rightarrow> account_output_builder \<Rightarrow> account_output_builder" where
  "accountOutImmutableMetadata entries = aobUpsertImmutable (MetadataF entries)"

definition accountOutBuild ::
    "'a ledger_deps_scheme \<Rightarrow> account_output_builder \<Rightarrow> account_output_builder \<times> account_output go" where
  "accountOutBuild D builder =
    (if (case aob_prev builder of None \<Rightarrow> False
         | Some prev \<Rightarrow> \<not> featsEqual D (ao_ImmutableFeatures prev) (ao_ImmutableFeatures (aob_output builder)))
     then (builder, throw (Errorf ''immutable features are not allowed to be changed''))
     else let builder' = aobSet (\<lambda>x. x\<lparr>ao_UnlockConditions := ucsSort (ao_UnlockConditions x),
                 ao_Features := featsSort (ao_Features x),
                 ao_ImmutableFeatures := featsSort (ao_ImmutableFeatures x)\<rparr>) builder
          in (builder', Inr (aob_output builder')))"

definition accountOutMustBuild ::
    "'a ledger_deps_scheme \<Rightarrow> account_output_builder \<Rightarrow> account_output_builder \<times> account_output go" where
  "accountOutMustBuild D builder = (case accountOutBuild D builder of (b, r) \<Rightarrow> (b, mustE r))"

definition RemoveFeature :: "u8 \<Rightarrow> account_output_builder \<Rightarrow> account_output_builder" where
  "RemoveFeature featureType = aobSet (\<lambda>x. x\<lparr>ao_Features := fst (featsRemove (ao_Features x) featureType)\<rparr>)"

section \<open>Transitions of one feature\<close>

record block_issuer_transition =
  bit_shared :: bool
  bit_feature :: block_issuer_feature
  bit_builder :: account_output_builder

text \<open>The transition works on the feature of the output exactly when there is one.\<close>

definition BlockIssuerTransition :: "account_output_builder \<Rightarrow> block_issuer_transition go" where
  "BlockIssuerTransition builder =
    andthen (featsMustSet (ao_Features (aob_output builder))) (\<lambda>s.
    Inr (case ftBlockIssuer s of
      None \<Rightarrow> \<lparr>bit_shared = False, bit_feature = \<lparr>bif_ExpirySlot = 0, bif_BlockIssuerKeys = NewBlockIssuerKeys []\<rparr>,
               bit_builder = builder\<rparr>
    | Some f \<Rightarrow> \<lparr>bit_shared = True, bit_feature = f, bit_builder = builder\<rparr>))"

definition bitWrite ::
    "(block_issuer_feature \<Rightarrow> block_issuer_feature) \<Rightarrow> block_issuer_transition \<Rightarrow> block_issuer_transition" where
  "bitWrite f tr =
    (let tr' = tr\<lparr>bit_feature := f (bit_feature tr)\<rparr>
     in if bit_shared tr
        then tr'\<lparr>bit_builder := aobSet (\<lambda>x. x\<lparr>ao_Features :=
               map (\<lambda>g. case g of BlockIssuerF _ \<Rightarrow> BlockIssuerF (bit_feature tr') | _ \<Rightarrow> g) (ao_Features x)\<rparr>)
               (bit_builder tr)\<rparr>
        else tr')"

definition bitAddKeys :: "bytes list \<Rightarrow> block_issuer_transition \<Rightarrow> block_issuer_transition" where
  "bitAddKeys keys = bitWrite (\<lambda>f. f\<lparr>bif_BlockIssuerKeys := foldl keysAdd (bif_BlockIssuerKeys f) keys\<rparr>)"

definition bitRemoveKey :: "bytes \<Rightarrow> block_issuer_transition \<Rightarrow> block_issuer_transition" where
  "bitRemoveKey keyToDelete =
    bitWrite (\<lambda>f. f\<lparr>bif_BlockIssuerKeys := keysRemove (bif_BlockIssuerKeys f) keyToDelete\<rparr>)"

definition bitKeys :: "bytes list \<Rightarrow> block_issuer_transition \<Rightarrow> block_issuer_transition" where
  "bitKeys keys = bitWrite (\<lambda>f. f\<lparr>bif_BlockIssuerKeys := keys\<rparr>)"

definition bitExpirySlot :: "u32 \<Rightarrow> block_issuer_transition \<Rightarrow> block_issuer_transition" where
  "bitExpirySlot slot = bitWrite (\<lambda>f. f\<lparr>bif_ExpirySlot := slot\<rparr>)"

record staking_transition =
  stt_shared :: bool
  stt_feature :: staking_feature
  stt_builder :: account_output_builder

definition StakingTransition :: "account_output_builder \<Rightarrow> staking_transition go" where
  "StakingTransition builder =
    andthen (featsMustSet (ao_Features (aob_output builder))) (\<lambda>s.
    Inr (case ftStaking s of
      None \<Rightarrow> \<lparr>stt_shared = False, stt_feature = \<lparr>sf_StakedAmount = 0, sf_FixedCost = 0, sf_StartEpoch = 0,
               sf_EndEpoch = 0\<rparr>, stt_builder = builder\<rparr>
    | Some f \<Rightarrow> \<lparr>stt_shared = True, stt_feature = f, stt_builder = builder\<rparr>))"

definition sttWrite :: "(staking_feature \<Rightarrow> staking_feature) \<Rightarrow> staking_transition \<Rightarrow> staking_transition" where
  "sttWrite f tr =
    (let tr' = tr\<lparr>stt_feature := f (stt_feature tr)\<rparr>
     in if stt_shared tr
        then tr'\<lparr>stt_builder := aobSet (\<lambda>x. x\<lparr>ao_Features :=
               map (\<lambda>g. case g of StakingF _ \<Rightarrow> StakingF (stt_feature tr') | _ \<Rightarrow> g) (ao_Features x)\<rparr>)
               (stt_builder tr)\<rparr>
        else tr')"

definition sttStakedAmount :: "u64 \<Rightarrow> staking_transition \<Rightarrow> staking_transition" where
  "sttStakedAmount amount = sttWrite (\<lambda>f. f\<lparr>sf_StakedAmount := amount\<rparr>)"

definition sttFixedCost :: "u64 \<Rightarrow> staking_transition \<Rightarrow> staking_transition" where
  "sttFixedCost fixedCost = sttWrite (\<lambda>f. f\<lparr>sf_FixedCost := fixedCost\<rparr>)"

definition sttStartEpoch :: "u32 \<Rightarrow> staking_transition \<Rightarrow> staking_transition" where
  "sttStartEpoch epoch = sttWrite (\<lambda>f. f\<lparr>sf_StartEpoch := epoch\<rparr>)"

definition sttEndEpoch :: "u32 \<Rightarrow> staking_transition \<Rightarrow> staking_transition" where
  "sttEndEpoch epoch = sttWrite (\<lambda>f. f\<lparr>sf_EndEpoch := epoch\<rparr>)"

text \<open>Any number of calls on a transition.\<close>

inductive issuer_edits :: "block_issuer_transition \<Rightarrow> block_issuer_transition \<Rightarrow> bool" where
  start: "issuer_edits t t"
| addKeys: "issuer_edits t u \<Longrightarrow> issuer_edits t (bitAddKeys ks u)"
| removeKey: "issuer_edits t u \<Longrightarrow> issuer_edits t (bitRemoveKey k u)"
| keys: "issuer_edits t u \<Longrightarrow> issuer_edits t (bitKeys ks u)"
| expiry: "issuer_edits t u \<Longrightarrow> issuer_edits t (bitExpirySlot s u)"

inductive staking_edits :: "staking_transition \<Rightarrow> staking_transition \<Rightarrow> bool" where
  start: "staking_edits t t"
| staked: "staking_edits t u \<Longrightarrow> staking_edits t (sttStakedAmount n u)"
| fixedCost: "staking_edits t u \<Longrightarrow> staking_edits t (sttFixedCost n u)"
| startEpoch: "staking_edits t u \<Longrightarrow> staking_edits t (sttStartEpoch e u)"
| endEpoch: "staking_edits t u \<Longrightarrow> staking_edits t (sttEndEpoch e u)"

inductive account_out_reached :: "'a ledger_deps_scheme \<Rightarrow> account_output_builder \<Rightarrow> bool" for D where
  new: "account_out_reached D (NewAccountOutputBuilder a n)"
| previous: "shaped (AccountO p) \<Longrightarrow> NewAccountOutputBuilderFromPrevious p = Inr b \<Longrightarrow> account_out_reached D b"
| amount: "account_out_reached D b \<Longrightarrow> account_out_reached D (accountOutAmount n b)"
| mana: "account_out_reached D b \<Longrightarrow> account_out_reached D (accountOutMana n b)"
| accountID: "account_out_reached D b \<Longrightarrow> account_out_reached D (accountOutAccountID i b)"
| foundries: "account_out_reached D b \<Longrightarrow> account_out_reached D (FoundriesToGenerate c b)"
| address: "account_out_reached D b \<Longrightarrow> account_out_reached D (accountOutAddress a b)"
| sender: "account_out_reached D b \<Longrightarrow> account_out_reached D (accountOutSender a b)"
| metadata: "account_out_reached D b \<Longrightarrow> account_out_reached D (accountOutMetadata m b)"
| blockIssuer: "account_out_reached D b \<Longrightarrow> account_out_reached D (accountOutBlockIssuer ks s b)"
| staking: "account_out_reached D b \<Longrightarrow> account_out_reached D (accountOutStaking n c e es b)"
| immIssuer: "account_out_reached D b \<Longrightarrow> account_out_reached D (accountOutImmutableIssuer a b)"
| immMetadata: "account_out_reached D b \<Longrightarrow> account_out_reached D (accountOutImmutableMetadata m b)"
| removeFeature: "account_out_reached D b \<Longrightarrow> account_out_reached D (RemoveFeature t b)"
| issuerTransition: "account_out_reached D b \<Longrightarrow> BlockIssuerTransition b = Inr tr \<Longrightarrow> issuer_edits tr tr' \<Longrightarrow>
    account_out_reached D (bit_builder tr')"
| stakingTransition: "account_out_reached D b \<Longrightarrow> StakingTransition b = Inr ts \<Longrightarrow> staking_edits ts ts' \<Longrightarrow>
    account_out_reached D (stt_builder ts')"
| build: "account_out_reached D b \<Longrightarrow> account_out_reached D (fst (accountOutBuild D b))"

section \<open>The contract holds for accounts\<close>

lemma shapedBy_types:
  "map ty xs = map ty ys \<Longrightarrow> shapedBy ty r xs = shapedBy ty r ys"
proof -
  assume m: "map ty xs = map ty ys"
  have "shapedBy ty r zs \<longleftrightarrow> distinct (map ty zs) \<and> list_all (\<lambda>t. t \<in> set (ar_Types r)) (map ty zs)
      \<and> list_all (\<lambda>t. t \<in> set (map ty zs)) (ar_MustOccur r)" for zs
    by (simp add: shapedBy_def list_all_iff)
  then show ?thesis by (simp only: m)
qed

text \<open>Edits through a transition change one feature in its place, or none.\<close>

definition sameTypes :: "account_output_builder \<Rightarrow> account_output_builder \<Rightarrow> bool" where
  "sameTypes b c \<longleftrightarrow> map featType (ao_Features (aob_output c)) = map featType (ao_Features (aob_output b))
     \<and> ao_UnlockConditions (aob_output c) = ao_UnlockConditions (aob_output b)
     \<and> ao_ImmutableFeatures (aob_output c) = ao_ImmutableFeatures (aob_output b)"

lemma sameTypes_shaped:
  assumes "sameTypes b c"
  shows "shaped (AccountO (aob_output c)) = shaped (AccountO (aob_output b))"
proof -
  have "map featType (ao_Features (aob_output c)) = map featType (ao_Features (aob_output b))"
    using assms by (simp add: sameTypes_def)
  from shapedBy_types [OF this] assms show ?thesis
    by (simp add: shaped_def immutableFeatures_def sameTypes_def unlockCondArrRules_def featBlocksArrRules_def
        immFeatBlocksArrRules_def)
qed

lemma type_kept [simp]:
  "featType (case g of BlockIssuerF _ \<Rightarrow> BlockIssuerF i | _ \<Rightarrow> g) = featType g"
  "featType (case g of StakingF _ \<Rightarrow> StakingF s | _ \<Rightarrow> g) = featType g"
  by (cases g; simp)+

lemma write_types:
  "sameTypes b (bit_builder t) \<Longrightarrow> sameTypes b (bit_builder (bitWrite f t))"
  "sameTypes b (stt_builder u) \<Longrightarrow> sameTypes b (stt_builder (sttWrite g u))"
  by (simp_all add: sameTypes_def bitWrite_def sttWrite_def Let_def aobSet_def comp_def)

lemma issuer_edits_types: "issuer_edits t u \<Longrightarrow> sameTypes (bit_builder t) (bit_builder u)"
  by (induction rule: issuer_edits.induct)
    (simp_all add: write_types bitAddKeys_def bitRemoveKey_def bitKeys_def bitExpirySlot_def, simp add: sameTypes_def)

lemma staking_edits_types: "staking_edits t u \<Longrightarrow> sameTypes (stt_builder t) (stt_builder u)"
  by (induction rule: staking_edits.induct)
    (simp_all add: write_types sttStakedAmount_def sttFixedCost_def sttStartEpoch_def sttEndEpoch_def,
      simp add: sameTypes_def)

lemma transition_builder:
  "BlockIssuerTransition b = Inr t \<Longrightarrow> bit_builder t = b" "StakingTransition b = Inr u \<Longrightarrow> stt_builder u = b"
  by (auto simp: BlockIssuerTransition_def StakingTransition_def andthen_eq_Inr split: option.splits)

interpretation account_out: output_builder "account_out_reached D" aob_output AccountO "accountOutBuild D"
  for D :: "'a ledger_deps_scheme"
proof
  fix b assume "account_out_reached D b"
  then show "shaped (AccountO (aob_output b))"
  proof induction
    case (previous p b)
    then show ?case
      by (auto simp: NewAccountOutputBuilderFromPrevious_def andthen_eq_Inr dest: clone_outputs)
  next
    case (issuerTransition b tr tr')
    then show ?case
      using issuer_edits_types [of tr tr'] transition_builder(1) [of b tr] sameTypes_shaped by metis
  next
    case (stakingTransition b ts ts')
    then show ?case
      using staking_edits_types [of ts ts'] transition_builder(2) [of b ts] sameTypes_shaped by metis
  qed (simp_all add: shape_simps Let_def shapedBy_def [of _ _ "[_]"] NewAccountOutputBuilder_def
      accountOutAmount_def accountOutMana_def accountOutAccountID_def FoundriesToGenerate_def
      accountOutAddress_def accountOutSender_def accountOutMetadata_def accountOutBlockIssuer_def
      accountOutStaking_def accountOutImmutableIssuer_def accountOutImmutableMetadata_def RemoveFeature_def
      accountOutBuild_def aobUpsertFeature_def aobUpsertImmutable_def aobSet_def)
qed (auto simp: Let_def sortedOf_def immutableFeatures_def featsSort_def throw_def unlockCondArrRules_def
    featBlocksArrRules_def immFeatBlocksArrRules_def accountOutBuild_def aobSet_def split: if_splits option.splits)

section \<open>What all builders promise\<close>

text \<open>The outputs the builders build.\<close>

inductive builder_output :: "'a ledger_deps_scheme \<Rightarrow> ledger_output \<Rightarrow> bool" for D where
  basic: "basic_out_reached b \<Longrightarrow> snd (basicOutBuild b) = Inr x \<Longrightarrow> builder_output D (BasicO x)"
| account: "account_out_reached D b \<Longrightarrow> snd (accountOutBuild D b) = Inr x \<Longrightarrow> builder_output D (AccountO x)"
| anchor: "anchor_out_reached D b \<Longrightarrow> snd (anchorOutBuild D b) = Inr x \<Longrightarrow> builder_output D (AnchorO x)"
| foundry: "foundry_out_reached D b \<Longrightarrow> snd (foundryOutBuild D b) = Inr x \<Longrightarrow> builder_output D (FoundryO x)"
| nft: "nft_out_reached D b \<Longrightarrow> snd (nftOutBuild D b) = Inr x \<Longrightarrow> builder_output D (NFTO x)"
| delegation: "delegation_out_reached b \<Longrightarrow> snd (delegationOutBuild b) = Inr x \<Longrightarrow> builder_output D (DelegationO x)"

inductive_cases builder_outputE: "builder_output D out"

text \<open>C21: whatever methods of an output builder were called, in whatever order and on a new output or on one
  of the right shape, the output it builds obeys the array rules of the serialization for its type and passes
  the syntactical checks of the order and uniqueness of its unlock conditions and features.\<close>

theorem built_outputs_accepted:
  assumes "builder_output D out"
  shows "obeys ucType (unlockCondArrRules out) (outUCs out)
    \<and> obeys featType (featBlocksArrRules out) (outFeatures out)
    \<and> obeys featType (immFeatBlocksArrRules out) (immutableFeatures out)
    \<and> OutputsSyntacticalUnlockConditionLexicalOrderAndUniqueness 0 out = Inr ()
    \<and> OutputsSyntacticalFeaturesLexicalOrderAndUniqueness 0 out = Inr ()"
proof -
  have "wellBuilt out"
    using assms
    by (cases rule: builder_outputE)
      (auto intro: basic_out.built_well account_out.built_well anchor_out.built_well foundry_out.built_well
        nft_out.built_well delegation_out.built_well)
  then show ?thesis by (simp add: wellBuilt_def)
qed

text \<open>An account whose features are set out of order, with an issuer key added and a feature removed.\<close>

definition demo_account_builder :: account_output_builder where
  "demo_account_builder =
    RemoveFeature 0 (accountOutStaking 5 1 0 [] (accountOutBlockIssuer [[1]] 9 (accountOutMetadata []
      (accountOutSender (Ed25519Address [7]) (NewAccountOutputBuilder (Ed25519Address [7]) 100)))))"

lemma demo_account_reached: "account_out_reached D demo_account_builder"
  unfolding demo_account_builder_def
  by (rule account_out_reached.removeFeature account_out_reached.staking account_out_reached.blockIssuer
      account_out_reached.metadata account_out_reached.sender account_out_reached.new)+

theorem built_outputs_accepted_witness:
  "\<exists>x. snd (accountOutBuild ref_ledger demo_account_builder) = Inr x
     \<and> map featType (ao_Features x) = [2, 6, 7] \<and> obeys featType (featBlocksArrRules (AccountO x)) (ao_Features x)"
proof -
  obtain x where x: "snd (accountOutBuild ref_ledger demo_account_builder) = Inr x"
      "map featType (ao_Features x) = [2, 6, 7]"
    by (simp add: demo_account_builder_def accountOutBuild_def RemoveFeature_def accountOutStaking_def
        accountOutBlockIssuer_def accountOutMetadata_def accountOutSender_def NewAccountOutputBuilder_def
        aobUpsertFeature_def aobSet_def featsUpsert_def featsRemove_def featsSort_def ucsSort_def Let_def)
  have "builder_output ref_ledger (AccountO x)"
    by (rule builder_output.account [OF demo_account_reached x(1)])
  from built_outputs_accepted [OF this] x show ?thesis by simp
qed

section \<open>A transition of a missing feature\<close>

text \<open>On an output without the feature the transition works on a feature of its own, which never reaches
  the output.\<close>

theorem missing_feature_not_set:
  assumes "BlockIssuerTransition b = Inr t" "\<not> bit_shared t" "issuer_edits t u"
  shows "bit_builder u = b"
proof -
  have "\<not> bit_shared u \<and> bit_builder u = bit_builder t"
    using assms(3,2)
    by induction (simp_all add: bitAddKeys_def bitRemoveKey_def bitKeys_def bitExpirySlot_def bitWrite_def Let_def)
  with transition_builder(1) [OF assms(1)] show ?thesis by simp
qed

theorem missing_staking_not_set:
  assumes "StakingTransition b = Inr t" "\<not> stt_shared t" "staking_edits t u"
  shows "stt_builder u = b"
proof -
  have "\<not> stt_shared u \<and> stt_builder u = stt_builder t"
    using assms(3,2)
    by induction (simp_all add: sttStakedAmount_def sttFixedCost_def sttStartEpoch_def sttEndEpoch_def
        sttWrite_def Let_def)
  with transition_builder(2) [OF assms(1)] show ?thesis by simp
qed


end
