(* ===== verification/Built_Anchors.thy ===== *)
theory Built_Anchors
  imports Output_Builders Nova_STVF
begin

text \<open>
  Anchors built from their previous state, against the state transition validation of anchors in
  vm/nova/vm.go.
\<close>

text \<open>Any number of calls of the methods that set something.\<close>

inductive anchor_calls :: "anchor_output_builder \<Rightarrow> anchor_output_builder \<Rightarrow> bool" where
  start: "anchor_calls b b"
| amount: "anchor_calls b c \<Longrightarrow> anchor_calls b (anchorOutAmount n c)"
| mana: "anchor_calls b c \<Longrightarrow> anchor_calls b (anchorOutMana n c)"
| anchorID: "anchor_calls b c \<Longrightarrow> anchor_calls b (anchorOutAnchorID i c)"
| stateController: "anchor_calls b c \<Longrightarrow> anchor_calls b (anchorOutStateController a c)"
| governor: "anchor_calls b c \<Longrightarrow> anchor_calls b (anchorOutGovernor a c)"
| metadata: "anchor_calls b c \<Longrightarrow> anchor_calls b (anchorOutMetadata m c)"
| stateMetadata: "anchor_calls b c \<Longrightarrow> anchor_calls b (anchorOutStateMetadata m c)"
| immIssuer: "anchor_calls b c \<Longrightarrow> anchor_calls b (anchorOutImmutableIssuer a c)"
| immMetadata: "anchor_calls b c \<Longrightarrow> anchor_calls b (anchorOutImmutableMetadata m c)"

lemmas anchor_method_defs = anchorOutAmount_def anchorOutMana_def anchorOutAnchorID_def
  anchorOutStateController_def anchorOutGovernor_def anchorOutMetadata_def anchorOutStateMetadata_def
  anchorOutImmutableIssuer_def anchorOutImmutableMetadata_def anbSet_def

lemma anchor_calls_reached:
  "anchor_calls b c \<Longrightarrow> anchor_out_reached D b \<Longrightarrow> anchor_out_reached D c"
  by (induction rule: anchor_calls.induct) (auto intro: anchor_out_reached.intros)

text \<open>What is untouched while a kind of call has not been made.\<close>

definition untouched :: "anchor_output \<Rightarrow> anchor_output_builder \<Rightarrow> bool" where
  "untouched p b \<longleftrightarrow> anb_prev b = Some p \<and> an_StateIndex (anb_output b) = an_StateIndex p
     \<and> (\<not> anb_stateCtrlReq b \<longrightarrow> an_Amount (anb_output b) = an_Amount p
          \<and> lookupBy featType (an_Features (anb_output b)) 3 = lookupBy featType (an_Features p) 3)
     \<and> (\<not> anb_govCtrlReq b \<longrightarrow> lookupBy featType (an_Features (anb_output b)) 2 = lookupBy featType (an_Features p) 2
          \<and> lookupBy ucType (an_UnlockConditions (anb_output b)) = lookupBy ucType (an_UnlockConditions p))"

lemma calls_untouched: "anchor_calls b c \<Longrightarrow> untouched p b \<Longrightarrow> untouched p c"
proof (induction rule: anchor_calls.induct)
  case (start b)
  then show ?case .
qed (simp_all add: untouched_def anchor_method_defs lookupBy_Upsert featsUpsert_def ucsUpsert_def)

lemma from_previous_untouched:
  assumes "NewAnchorOutputBuilderFromPrevious p = Inr b"
  shows "untouched p b"
  using assms
  by (auto simp: NewAnchorOutputBuilderFromPrevious_def andthen_eq_Inr untouched_def dest!: clone_outputs)

lemma lookupBy_iff: "distinct (map ty f) \<Longrightarrow> lookupBy ty f t = Some x \<longleftrightarrow> x \<in> set f \<and> ty x = t"
  by (auto simp: lookupBy_def distinct_map comp_def intro!: map_of_is_SomeI dest: map_of_SomeD)

lemma lookupBy_sort:
  assumes "distinct (map ty f)"
  shows "lookupBy ty (sort_key k f) = lookupBy ty f"
proof
  fix t
  have "distinct (map ty (sort_key k f))" using assms by (simp add: distinct_map)
  from lookupBy_iff [OF this, of t] lookupBy_iff [OF assms, of t]
  have "lookupBy ty (sort_key k f) t = Some x \<longleftrightarrow> lookupBy ty f t = Some x" for x by simp
  then show "lookupBy ty (sort_key k f) t = lookupBy ty f t"
    by (cases "lookupBy ty f t"; cases "lookupBy ty (sort_key k f) t") auto
qed

text \<open>Building: the three slices are sorted, the state index counts a state transition.\<close>

lemma anchor_built:
  assumes "anb_prev b = Some p"
  shows "anchorOutBuild D b =
    (let i = an_StateIndex (anb_output b) + (if anb_stateCtrlReq b then 1 else 0);
         out = (anb_output b)\<lparr>an_StateIndex := i\<rparr>;
         sorted1 = out\<lparr>an_UnlockConditions := ucsSort (an_UnlockConditions out),
           an_Features := featsSort (an_Features out), an_ImmutableFeatures := featsSort (an_ImmutableFeatures out)\<rparr>
     in if anb_govCtrlReq b \<and> anb_stateCtrlReq b
        then (b, throw (Errorf ''builder calls require both state and governor transitions which is not possible''))
        else if \<not> featsEqual D (an_ImmutableFeatures p) (an_ImmutableFeatures out)
        then (b\<lparr>anb_output := out\<rparr>, throw (Errorf ''immutable features are not allowed to be changed''))
        else (b\<lparr>anb_output := sorted1\<rparr>, Inr sorted1))"
  using assms by (simp add: anchorOutBuild_def anbSet_def Let_def)

lemma featsEqual_sorted:
  assumes "featsEqual D f g" "sorted_wrt (<) (map featType f)"
  shows "featsSort g = g"
proof -
  have "sorted (map featType g)"
    using assms featsEqual_distinct [of D f g] by (simp add: strict_sorted_iff)
  then show ?thesis by (simp add: featsSort_def sort_key_id_if_sorted sorted_map)
qed

text \<open>An anchor that the serialization accepts, with the entries of a Go map.\<close>

definition proper_anchor :: "anchor_output \<Rightarrow> bool" where
  "proper_anchor p \<longleftrightarrow> shaped (AnchorO p) \<and> sorted_wrt (<) (map featType (an_ImmutableFeatures p))
     \<and> list_all (\<lambda>f. case f of MetadataF m \<Rightarrow> distinct (map fst m) | StateMetadataF m \<Rightarrow> distinct (map fst m)
          | _ \<Rightarrow> True) (an_Features p)"

lemma proper_unchanged:
  assumes "proper_anchor p" "lookupBy featType fs t = lookupBy featType (an_Features p) t" "t = 2 \<or> t = 3"
  shows "FeatureUnchanged D t (lookupBy featType (an_Features p)) (lookupBy featType fs) = Inr ()"
proof (cases "lookupBy featType (an_Features p) t")
  case None
  then show ?thesis by (simp add: FeatureUnchanged_ok assms(2))
next
  case (Some f)
  then have "f \<in> set (an_Features p)" "featType f = t" by (auto dest: lookupBy_SomeD)
  moreover from this assms(3) obtain m where "f = MetadataF m \<or> f = StateMetadataF m"
    by auto
  ultimately have "featEqual D f f"
    using assms(1) by (auto simp: proper_anchor_def list_all_iff featEqual_def entriesEqual_iff)
  with Some show ?thesis by (simp add: FeatureUnchanged_ok assms(2))
qed

lemma proper_controllers:
  assumes "proper_anchor p"
  shows "\<exists>s. anchorStateController p = Inr s" "\<exists>g. anchorGovernor p = Inr g"
proof -
  have d: "distinct (map ucType (an_UnlockConditions p))"
    and m: "4 \<in> ucType ` set (an_UnlockConditions p)" "5 \<in> ucType ` set (an_UnlockConditions p)"
    using assms by (simp_all add: proper_anchor_def shaped_def shapedBy_def unlockCondArrRules_def)
  obtain c e where "c \<in> set (an_UnlockConditions p)" "ucType c = 4" "e \<in> set (an_UnlockConditions p)" "ucType e = 5"
    using m by auto
  then have "lookupBy ucType (an_UnlockConditions p) 4 = Some c" "lookupBy ucType (an_UnlockConditions p) 5 = Some e"
    by (simp_all add: lookupBy_iff [OF d])
  moreover obtain s g where "c = StateControllerAddressUC s" "e = GovernorAddressUC g"
    using \<open>ucType c = 4\<close> \<open>ucType e = 5\<close> by auto
  ultimately show "\<exists>s. anchorStateController p = Inr s" "\<exists>g. anchorGovernor p = Inr g"
    using d by (simp_all add: anchorStateController_def anchorGovernor_def ucsMustSet_eq derefG_def
        ucStateControllerAddress_def ucGovernorAddress_def)
qed

lemma same_controllers:
  assumes "distinct (map ucType (an_UnlockConditions p))" "distinct (map ucType (an_UnlockConditions q))"
    and "lookupBy ucType (an_UnlockConditions q) = lookupBy ucType (an_UnlockConditions p)"
  shows "anchorStateController q = anchorStateController p" "anchorGovernor q = anchorGovernor p"
  using assms by (simp_all add: anchorStateController_def anchorGovernor_def ucsMustSet_eq)

text \<open>The two kinds of transitions.\<close>

lemma built_transition:
  assumes p: "proper_anchor p" and u: "untouched p b" and sh: "shaped (AnchorO (anb_output b))"
    and imm: "featsEqual D (an_ImmutableFeatures p) (an_ImmutableFeatures (anb_output b))"
    and flags: "\<not> (anb_govCtrlReq b \<and> anb_stateCtrlReq b)"
    and built: "snd (anchorOutBuild D b) = Inr out"
  shows "anchorStateChangeValid D p out = Inr ()
    \<and> an_StateIndex out = an_StateIndex p + (if anb_stateCtrlReq b then 1 else 0)"
proof -
  let ?o = "anb_output b"
  have prev: "anb_prev b = Some p" using u by (simp add: untouched_def)
  have out: "out = ?o\<lparr>an_StateIndex := an_StateIndex p + (if anb_stateCtrlReq b then 1 else 0),
      an_UnlockConditions := ucsSort (an_UnlockConditions ?o), an_Features := featsSort (an_Features ?o)\<rparr>"
    using built u p imm flags featsEqual_sorted [OF imm]
    by (simp add: anchor_built [OF prev] Let_def untouched_def proper_anchor_def)
  have d: "distinct (map ucType (an_UnlockConditions ?o))" "distinct (map featType (an_Features ?o))"
      "distinct (map ucType (an_UnlockConditions p))" "distinct (map featType (an_Features p))"
    using sh p by (simp_all add: shaped_def shapedBy_def proper_anchor_def)
  have d': "distinct (map ucType (an_UnlockConditions out))" "distinct (map featType (an_Features out))"
    using d(1,2) by (simp_all add: out ucsSort_def featsSort_def distinct_map)
  have l: "lookupBy ucType (an_UnlockConditions out) = lookupBy ucType (an_UnlockConditions ?o)"
      "lookupBy featType (an_Features out) = lookupBy featType (an_Features ?o)"
    using d(1,2) by (simp_all add: out ucsSort_def featsSort_def lookupBy_sort)
  have "anchorStateChangeValid D p out = Inr ()"
  proof (cases "anb_stateCtrlReq b")
    case True
    with u flags have "lookupBy featType (an_Features ?o) 2 = lookupBy featType (an_Features p) 2"
      and same: "lookupBy ucType (an_UnlockConditions out) = lookupBy ucType (an_UnlockConditions p)"
      by (simp_all add: untouched_def l)
    then have "FeatureUnchanged D 2 (lookupBy featType (an_Features p)) (lookupBy featType (an_Features out)) = Inr ()"
      using proper_unchanged [OF p, of "an_Features out" 2 D] by (simp add: l)
    moreover obtain s g where "anchorStateController p = Inr s" "anchorGovernor p = Inr g"
      using proper_controllers [OF p] by blast
    ultimately have "anchorStateSTVF D p out = Inr ()"
      using same_controllers [OF d(3) d'(1) same] True d(4) d'(2)
      by (simp add: anchorStateSTVF_def featsMustSet_eq) (simp add: out joinE_def)
    then show ?thesis using True imm by (simp add: anchorStateChangeValid_def) (simp add: out)
  next
    case False
    with u have "lookupBy featType (an_Features out) 3 = lookupBy featType (an_Features p) 3"
      by (simp add: untouched_def l)
    then have "FeatureUnchanged D 3 (lookupBy featType (an_Features p)) (lookupBy featType (an_Features out)) = Inr ()"
      using proper_unchanged [OF p, of "an_Features out" 3 D] by simp
    then have "anchorGovernanceSTVF D p out = Inr ()"
      using False u d(4) d'(2)
      by (simp add: anchorGovernanceSTVF_def featsMustSet_eq joinE_def) (simp add: out untouched_def)
    then show ?thesis using False imm by (simp add: anchorStateChangeValid_def) (simp add: out)
  qed
  then show ?thesis by (simp add: out)
qed

text \<open>Built twice, the state index of a state transition moves twice.\<close>

lemma rebuilt_index:
  assumes prev: "anb_prev b = Some p" and idx: "an_StateIndex (anb_output b) = an_StateIndex p"
    and state: "anb_stateCtrlReq b" and out: "snd (anchorOutBuild D (fst (anchorOutBuild D b))) = Inr out"
  shows "an_StateIndex out = an_StateIndex p + 2"
proof -
  let ?b = "fst (anchorOutBuild D b)"
  have "\<not> anb_govCtrlReq b"
    using out by (cases "anb_govCtrlReq b") (simp_all add: anchor_built [OF prev] state Let_def throw_def)
  then have b: "anb_prev ?b = Some p" "anb_stateCtrlReq ?b" "an_StateIndex (anb_output ?b) = an_StateIndex p + 1"
    by (simp_all add: anchor_built [OF prev] Let_def prev state idx)
  have "an_StateIndex out = an_StateIndex (anb_output ?b) + 1"
    using out unfolding anchor_built [OF b(1)] by (auto simp: b(2) Let_def throw_def split: if_splits)
  with b(3) show ?thesis by simp
qed

lemma skipped_index:
  assumes "an_StateIndex out = an_StateIndex p + 2"
  shows "\<not> ok (anchorStateChangeValid D p out)"
proof -
  have "an_StateIndex p \<noteq> an_StateIndex p + 2" "an_StateIndex p + 1 \<noteq> an_StateIndex p + 2" by simp_all
  then show ?thesis
    by (auto simp: anchorStateChangeValid_def anchorStateSTVF_def Let_def assms ok_andthen throw_def andthen_def
        split: sum.splits)
qed

text \<open>C20: from a previous anchor, whatever the calls, @\<open>Build\<close> succeeds exactly when the calls need one of the
  two controllers only and leave the immutable features as they are; what it builds is a transition the
  virtual machine accepts, with the next state index exactly when the state controller is needed.  A second
  @\<open>Build\<close> of a state transition skips a state index, and the virtual machine refuses its result.\<close>

theorem built_anchor_transition:
  assumes "proper_anchor p" "NewAnchorOutputBuilderFromPrevious p = Inr b0" "anchor_calls b0 b"
  shows "(ok (snd (anchorOutBuild D b)) \<longleftrightarrow> \<not> (anb_govCtrlReq b \<and> anb_stateCtrlReq b)
        \<and> featsEqual D (an_ImmutableFeatures p) (an_ImmutableFeatures (anb_output b)))
    \<and> (\<forall>out ws i. snd (anchorOutBuild D b) = Inr out \<longrightarrow> co_Output i = AnchorO p
        \<longrightarrow> anchorSTVF D ws (Some i) TransStateChange (Some out) = Inr ()
          \<and> an_StateIndex out = an_StateIndex p + (if anb_stateCtrlReq b then 1 else 0))
    \<and> (\<forall>out. anb_stateCtrlReq b \<longrightarrow> snd (anchorOutBuild D (fst (anchorOutBuild D b))) = Inr out
        \<longrightarrow> \<not> ok (anchorStateChangeValid D p out))"
proof -
  have u: "untouched p b" by (rule calls_untouched [OF assms(3) from_previous_untouched [OF assms(2)]])
  then have prev: "anb_prev b = Some p" and idx: "an_StateIndex (anb_output b) = an_StateIndex p"
    by (simp_all add: untouched_def)
  have "anchor_out_reached D b0" for D :: "'a ledger_deps_scheme"
    using assms(1,2) by (auto simp: proper_anchor_def intro: anchor_out_reached.previous)
  then have sh: "shaped (AnchorO (anb_output b))"
    using anchor_calls_reached [OF assms(3)] anchor_out.shape_law by blast
  have iff: "ok (snd (anchorOutBuild D b)) \<longleftrightarrow> \<not> (anb_govCtrlReq b \<and> anb_stateCtrlReq b)
      \<and> featsEqual D (an_ImmutableFeatures p) (an_ImmutableFeatures (anb_output b))"
    by (simp add: anchor_built [OF prev] Let_def throw_def)
  have "anchorStateChangeValid D p out = Inr ()
      \<and> an_StateIndex out = an_StateIndex p + (if anb_stateCtrlReq b then 1 else 0)"
    if "snd (anchorOutBuild D b) = Inr out" for out
    using built_transition [OF assms(1) u sh _ _ that] iff that by (simp add: ok_iff)
  moreover have "\<not> ok (anchorStateChangeValid D p out)"
    if "anb_stateCtrlReq b" "snd (anchorOutBuild D (fst (anchorOutBuild D b))) = Inr out" for out
    by (rule skipped_index [OF rebuilt_index [OF prev idx that]])
  ultimately show ?thesis using iff by (simp add: anchorSTVF_def derefG_def asAnchor_def)
qed

definition demo_prev_anchor :: anchor_output where
  "demo_prev_anchor = \<lparr>an_Amount = 100, an_Mana = 0, an_AnchorID = replicate 32 1, an_StateIndex = 7,
     an_UnlockConditions = [StateControllerAddressUC (Ed25519Address [1]), GovernorAddressUC (Ed25519Address [2])],
     an_Features = [MetadataF [(''a'', [1])]], an_ImmutableFeatures = [IssuerF (Ed25519Address [3])]\<rparr>"

lemma demo_prev_anchor_proper: "proper_anchor demo_prev_anchor"
  by (simp add: proper_anchor_def demo_prev_anchor_def shape_simps shapedBy_def)

theorem built_anchor_transition_witness:
  "\<exists>b out. NewAnchorOutputBuilderFromPrevious demo_prev_anchor = Inr b
     \<and> snd (anchorOutBuild ref_ledger (anchorOutStateMetadata [] (anchorOutAmount 90 b))) = Inr out
     \<and> an_StateIndex out = 8"
proof -
  obtain b where b: "NewAnchorOutputBuilderFromPrevious demo_prev_anchor = Inr b"
      "anb_output b = demo_prev_anchor" "\<not> anb_govCtrlReq b"
    by (simp add: NewAnchorOutputBuilderFromPrevious_def cloneAnchor_def cloneUCs_def cloneUC_def cloneFeats_def
        cloneFeat_def demo_prev_anchor_def)
  let ?c = "anchorOutStateMetadata [] (anchorOutAmount 90 b)"
  have calls: "anchor_calls b ?c" by (intro anchor_calls.intros)
  note built = built_anchor_transition [OF demo_prev_anchor_proper b(1) calls, of ref_ledger]
  have "ok (snd (anchorOutBuild ref_ledger ?c))"
    using built b by (simp add: anchorOutStateMetadata_def anchorOutAmount_def anbSet_def featsEqual_def
        demo_prev_anchor_def featEqual_def)
  then obtain out where out: "snd (anchorOutBuild ref_ledger ?c) = Inr out" by (auto simp: ok_iff)
  have "co_Output \<lparr>co_ChainID = AnchorIDc [], co_OutputID = [], co_Output = AnchorO demo_prev_anchor\<rparr> = AnchorO demo_prev_anchor"
    by simp
  with built out have "an_StateIndex out = an_StateIndex demo_prev_anchor + (if anb_stateCtrlReq ?c then 1 else 0)"
    by blast
  then have "an_StateIndex out = 8"
    by (simp add: anchorOutStateMetadata_def demo_prev_anchor_def)
  with b(1) out show ?thesis by blast
qed

end
