(* ===== verification/Spec2Isabelle.thy ===== *)
theory Spec2Isabelle
  imports Bech32 Token_Ledger Address_Rules Key_Slices Api_Provider Tx_Builder_Mana Tx_Builder_Unlocks Account_Builder Built_Anchors
begin

text \<open>
  A verification library for axon.go, the Go library of the Axon ledger protocol: the data model of the
  ledger, its rules, and the tools that build what the rules accept.

  \<^bold>\<open>The program.\<close>  A transaction consumes outputs and creates outputs.  An output holds base tokens, mana, at
  most one native token, unlock conditions and features; account, anchor, foundry, NFT and delegation
  outputs are chains, whose next state is the output with the same chain ID.  A signed transaction is
  checked in three stages: the serialization enforces array rules (api_v3.go), the syntactical validation
  looks at the transaction alone (output.go, unlock.go, transaction.go and others), and the virtual machine
  (vm/) first unlocks the inputs and then executes a list of checks on inputs and outputs.  Blocks carry
  transactions; slot commitments carry Merkle roots over blocks, outputs and accounts.  The parameters of
  all this come from an API object of the protocol version that holds in an epoch.  The builders make
  blocks, transactions and their signatures.

  \<^bold>\<open>The theories, bottom up.\<close>

  \<^item> Foundation. @\<open>Go_Prelude\<close>: the result type @\<open>go\<close>, the error values, checked arithmetic (locale
    @\<open>checked_arith\<close>), generic lemmas. @\<open>Byte_Order\<close>: the lexical order of byte arrays, sorting and
    duplicates (output_id.gen.go, block_issuer_key.go). @\<open>Typed_Slices\<close>: the generic slices of
    unlock_cond.go and feat.go (locale @\<open>typed_slice\<close>). @\<open>Bitmask_Caps\<close>: bitmask.go and the two capability
    bit masks. @\<open>Bech32\<close>: the package bech32. @\<open>Key_Slices\<close>: block issuer keys as slices over shared
    arrays, the only place where the aliasing of slices matters to what is stated.
  \<^item> Time and mana. @\<open>Time_Provider\<close>: timeprovider.go (locale @\<open>slot_clock\<close>). @\<open>Mana_Decay\<close>:
    mana_decay_provider.go and mana.go.
  \<^item> The data model. @\<open>Addresses\<close>: address*.go, signature*.go, output_id.go and the chain identifiers.
    @\<open>Unlock_Conditions\<close>: unlock_cond*.go. @\<open>Feature_Blocks\<close>: feat*.go. @\<open>Token_Scheme\<close>: token_scheme*.go.
    @\<open>Ledger_Outputs\<close>: output*.go. @\<open>Storage_Score\<close>: storagescore.go with sizes and deposits. @\<open>Ledger_Tx\<close>:
    transaction*.go, signed_transaction.go, input*.go, allotment.go, unlock*.go and output_id_proof.go.
    @\<open>Merkle_Hasher\<close>: merklehasher/. @\<open>Blocks\<close>: block.go and attestation.go. @\<open>Slot_Commitments\<close>:
    commitment*.go.
  \<^item> Syntactical validation. @\<open>Syntax_Validators\<close>: syntax_validator.go (locale @\<open>key_order\<close>). @\<open>Address_Rules\<close>:
    the validators of multi addresses and restricted addresses in api_common.go.
    @\<open>Output_Syntax\<close>, @\<open>Output_Rules\<close>, @\<open>Output_Types\<close>: the validators of output.go, what they guarantee, and
    their type soundness under the array rules of api_v3.go. @\<open>Unlock_Syntax\<close>: unlock.go. @\<open>Tx_Syntax\<close>:
    inputs, allotments, essence, transaction. @\<open>Work_Score\<close>, @\<open>Work_Bound\<close>: workscore.go with the
    @\<open>WorkScore\<close> methods, and its bound @\<open>MaxBlockWork\<close>.
  \<^item> The virtual machine. @\<open>VM_Unlocks\<close>: unlocking in vm/vm.go, with the set of unlocked addresses as a heap
    of shared entries. @\<open>VM_Exec\<close>: the working set and every @\<open>ExecFunc\<close>. @\<open>Nova_STVF\<close>: the state
    transition functions of vm/nova/vm.go. @\<open>Nova_VM\<close>: its entry points. @\<open>Nova_Ledger\<close>, @\<open>Nova_Chains\<close>,
    @\<open>Nova_Rules\<close>: what an executed transaction guarantees, for the ledger as a whole and for the chains one
    by one (locale @\<open>chain_rule\<close>). @\<open>Token_Ledger\<close>: the life of a ledger over executed transactions, as a step
    relation, and the books of its native tokens.
  \<^item> Parameters and API. @\<open>Protocol_Params\<close>: api_v3_protocol_parameters.go and api_v3.go. @\<open>Api_Provider\<close>:
    the providers of the API of each epoch, as a state machine of their calls (locale @\<open>api_provider\<close>).
  \<^item> Builders. @\<open>Address_Signer\<close>: address_signer.go (locale @\<open>signer\<close>). @\<open>Block_Builder\<close>:
    builder/block_builder.go as state machines of the methods (locale @\<open>builder_contract\<close>). @\<open>Tx_Builder\<close>,
    @\<open>Tx_Builder_Mana\<close>, @\<open>Tx_Builder_Unlocks\<close>: builder/transaction_builder.go, its mana against the sums of
    the virtual machine, and its unlocks against both checks of unlocks (locale @\<open>tx_signer\<close>).
    @\<open>Output_Builders\<close>, @\<open>Account_Builder\<close>: builder/output_builder_*.go with the clones of outputs (locale
    @\<open>output_builder\<close>). @\<open>Built_Anchors\<close>: anchors built from their previous state against the virtual
    machine.

  \<^bold>\<open>How the code is rendered.\<close>  A definition has the name of the Go function where Isabelle allows it.  A
  struct is a record, an interface with its implementations a datatype, @\<open>uint8\<close> to @\<open>uint64\<close> are words,
  @\<open>big.Int\<close> is @\<open>int\<close>, byte arrays and byte slices are lists of 8 bit words.  A function that can fail
  returns a value of type @\<open>'x go\<close>: @\<open>Inr\<close> a value, or @\<open>Inl\<close> of a fault, which is @\<open>Err\<close> with an error
  value, @\<open>Panic\<close> or @\<open>NoReturn\<close>; so a theorem about errors says nothing of a crash and the other way
  round.  An error value is the tree of sentinels and wraps, with the format string in place of the text.
  A Go map that is only looked up is a partial function, one that is iterated over is a list of pairs with
  distinct keys: the order of the list is the order of the iteration, and what is proved holds for every
  order.  A closure with variables takes its variables and returns them; a struct with methods that change
  it is a state record; calls under a mutex are steps that are interleaved as a whole.

  \<^bold>\<open>What is a parameter.\<close>  Code outside of the repository is a field of a record that the definitions take:
  the BLAKE2b hash, Ed25519, the serializer with its size constants, the encodings of structs and
  @\<open>abi.MaxUint256\<close> are in @\<open>deps\<close>, @\<open>ledger_deps\<close> and the records that extend them; the checked arithmetic of
  hive.go is in @\<open>deps\<close> as well, with its documented behaviour as a hypothesis; the Unicode case mappings are
  in @\<open>case_mapping\<close>; the derivations with floating point numbers in @\<open>float_functions\<close>; key derivation and
  signing in @\<open>ed25519_keys\<close>.  Every property that assumes something of a parameter has a witness with
  concrete functions in their place.

  \<^bold>\<open>Loops and bounds.\<close>  Loops over slices are recursion over lists (@\<open>foldG\<close>, @\<open>allG\<close> stop at the first
  fault); growing a bit mask, hashing a Merkle tree, computing its proofs, splitting a string into runes and
  unlocking nested addresses have termination proofs with measures.  The decay loop of
  mana_decay_provider.go is the only one with fuel: it takes the distance in epochs, which is enough whenever
  the lookup table has entries, as each turn takes at least one epoch away; @\<open>decay_exact\<close> shows that it then
  returns, and out of fuel is the fault @\<open>NoReturn\<close>.

  \<^bold>\<open>What the lemmas show.\<close>  The properties are the theorems numbered C1 to C40.  In the theories of the data
  model they state exact results and round trips; for the validators, exactly what is accepted and what an
  accepted value guarantees; for the virtual machine, conservation of tokens and mana, that nothing is
  spent without signatures of the owners, and the rules of every kind of chain; for the providers,
  invariants of every reachable state and progress; for the builders, that what they build passes the
  checks.  Each locale states an interface between components, is interpreted on the definitions of the
  code, and the properties use the interpreted facts.

  \<^bold>\<open>Not modelled.\<close>  The serializer (hive.go) and the registration of types for it beyond the array rules of
  outputs, so decoding of bytes and the JSON forms; the data types and routes of the HTTP API (api/) and
  the clients (nodeclient/), which hold no logic of the ledger but input and output; the generation of
  random test data (tpkg/) and code (gen/); wallet/ and blockissuer/pow, which wrap third-party key
  derivation and a parallel search for a nonce; hexutil and the hexadecimal text forms; the deep copy of the
  transaction builder. The clones of outputs are modelled by value; only for the keys of block issuers, whose
  clone is not deep, the sharing is modelled.
\<close>

end
